(* ===== verification/Prelude.thy ===== *)
theory Prelude
  imports Complex_Main "HOL-Library.AList"
begin

text \<open>
  What every component of the development shares: the dynamic values of the Python code,
  its dictionaries, its exceptions as values, and the string functions of the standard
  library that the modelled code calls.

  A Python value is a \<open>pyval\<close>. A dictionary is an association list in insertion order;
  \<open>d[k] = v\<close> is \<open>AList.update\<close>, \<open>del d[k]\<close> is \<open>AList.delete\<close>, and the read \<open>d[k]\<close>
  is \<open>dget\<close>, which fails with \<open>KeyError\<close>. \<open>PObj a\<close> is a reference to the mutable
  dictionary at address \<open>a\<close> of a \<open>pyheap\<close>; it is used where the code lets two holders
  share one dictionary. Strings are ASCII: \<open>str_lower\<close> changes the letters A to Z only.
\<close>

section \<open>Hint collections\<close>

named_theorems py_simps \<open>evaluation of dictionary and error operations\<close>
named_theorems wf_intros \<open>preservation of well-formedness\<close>

section \<open>Python values\<close>

datatype pyval =
    PNone
  | PBool bool
  | PInt int
  | PFloat rat
  | PStr string
  | PList "pyval list"
  | PDict "(string \<times> pyval) list"
  | PObj nat

type_synonym pydict = "(string \<times> pyval) list"

section \<open>Exceptions as values\<close>

datatype pyerr =
    KeyError string
  | IndexError
  | TypeError string
  | ValueError string
  | AssertionError string
  | DoesNotExist string
  | JsonableError string
  | NameError string
  | ValidationError string
  | OtherError string

type_synonym 'a result = "pyerr + 'a"

definition ebind :: "pyerr + 'a \<Rightarrow> ('a \<Rightarrow> pyerr + 'b) \<Rightarrow> pyerr + 'b" where
  "ebind m f = (case m of Inl e \<Rightarrow> Inl e | Inr x \<Rightarrow> f x)"

lemma ebind_simps [simp]:
  "ebind (Inl e) f = Inl e"
  "ebind (Inr x) f = f x"
  by (simp_all add: ebind_def)

lemma ebind_eq_Inr [simp]: "ebind m f = Inr y \<longleftrightarrow> (\<exists>x. m = Inr x \<and> f x = Inr y)"
  by (cases m) auto

lemma ebind_eq_Inl: "ebind m f = Inl e \<longleftrightarrow> m = Inl e \<or> (\<exists>x. m = Inr x \<and> f x = Inl e)"
  by (cases m) auto

lemma ebind_cong [fundef_cong]:
  "m = m' \<Longrightarrow> (\<And>x. m' = Inr x \<Longrightarrow> f x = f' x) \<Longrightarrow> ebind m f = ebind m' f'"
  by (cases m') simp_all

lemma ebind_assoc: "ebind (ebind m f) g = ebind m (\<lambda>x. ebind (f x) g)"
  by (cases m) simp_all

text \<open>A loop over a list whose body may raise: the state is threaded, the first error ends it.\<close>

fun efold :: "('s \<Rightarrow> 'a \<Rightarrow> pyerr + 's) \<Rightarrow> 's \<Rightarrow> 'a list \<Rightarrow> pyerr + 's" where
  "efold f s [] = Inr s"
| "efold f s (x # xs) = ebind (f s x) (\<lambda>s'. efold f s' xs)"

lemma efold_append: "efold f s (xs @ ys) = ebind (efold f s xs) (\<lambda>s'. efold f s' ys)"
  by (induction xs arbitrary: s) (simp_all add: ebind_assoc)

text \<open>An invariant of the body is an invariant of the loop.\<close>

lemma efold_inv:
  assumes "efold f s xs = Inr s'" and "P s"
    and "\<And>s x s'. x \<in> set xs \<Longrightarrow> P s \<Longrightarrow> f s x = Inr s' \<Longrightarrow> P s'"
  shows "P s'"
  using assms
proof (induction xs arbitrary: s)
  case Nil
  then show ?case by simp
next
  case (Cons x xs)
  from Cons.prems(1) obtain t where t: "f s x = Inr t" and rest: "efold f t xs = Inr s'"
    by auto
  have "P t" using Cons.prems(3)[OF _ Cons.prems(2) t] by simp
  moreover have "\<And>s x s'. x \<in> set xs \<Longrightarrow> P s \<Longrightarrow> f s x = Inr s' \<Longrightarrow> P s'"
    using Cons.prems(3) by (meson list.set_intros(2))
  ultimately show ?case using rest Cons.IH by blast
qed

text \<open>A loop whose body cannot fail under an invariant does not fail.\<close>

lemma efold_total:
  assumes "P s" and "\<And>s x. x \<in> set xs \<Longrightarrow> P s \<Longrightarrow> \<exists>s'. f s x = Inr s' \<and> P s'"
  shows "\<exists>s'. efold f s xs = Inr s' \<and> P s'"
  using assms
proof (induction xs arbitrary: s)
  case Nil
  then show ?case by simp
next
  case (Cons x xs)
  obtain t where t: "f s x = Inr t" and "P t" using Cons.prems by fastforce
  with Cons.IH[of t] Cons.prems(2) show ?case by auto
qed

fun emap :: "('a \<Rightarrow> pyerr + 'b) \<Rightarrow> 'a list \<Rightarrow> pyerr + 'b list" where
  "emap f [] = Inr []"
| "emap f (x # xs) = ebind (f x) (\<lambda>y. ebind (emap f xs) (\<lambda>ys. Inr (y # ys)))"

lemma emap_length: "emap f xs = Inr ys \<Longrightarrow> length ys = length xs"
  by (induction xs arbitrary: ys) auto

lemma emap_cong [fundef_cong]:
  "xs = xs' \<Longrightarrow> (\<And>x. x \<in> set xs' \<Longrightarrow> f x = f' x) \<Longrightarrow> emap f xs = emap f' xs'"
proof (induction xs' arbitrary: xs)
  case Nil
  then show ?case by simp
next
  case (Cons a xs')
  have "emap f xs' = emap f' xs'" by (rule Cons.IH) (simp_all add: Cons.prems)
  then show ?case using Cons.prems by simp
qed

lemma emap_Inr: "(\<And>x. x \<in> set xs \<Longrightarrow> f x = Inr (g x)) \<Longrightarrow> emap f xs = Inr (map g xs)"
  by (induction xs) simp_all

definition the_some :: "pyerr \<Rightarrow> 'a option \<Rightarrow> pyerr + 'a" where
  "the_some e m = (case m of None \<Rightarrow> Inl e | Some x \<Rightarrow> Inr x)"

lemma the_some_simps [simp]:
  "the_some e None = Inl e"
  "the_some e (Some x) = Inr x"
  by (simp_all add: the_some_def)

lemma the_some_eq_Inr [simp]: "the_some e m = Inr x \<longleftrightarrow> m = Some x"
  by (cases m) simp_all

section \<open>Dictionaries\<close>

abbreviation dset :: "'k \<Rightarrow> 'v \<Rightarrow> ('k \<times> 'v) list \<Rightarrow> ('k \<times> 'v) list" where
  "dset \<equiv> AList.update"

abbreviation ddel :: "'k \<Rightarrow> ('k \<times> 'v) list \<Rightarrow> ('k \<times> 'v) list" where
  "ddel \<equiv> AList.delete"

abbreviation dhas :: "('k \<times> 'v) list \<Rightarrow> 'k \<Rightarrow> bool" where
  "dhas d k \<equiv> map_of d k \<noteq> None"

definition dget :: "pydict \<Rightarrow> string \<Rightarrow> pyerr + pyval" where
  "dget d k = the_some (KeyError k) (map_of d k)"

text \<open>\<open>d.update(e)\<close>\<close>

definition dupdate :: "('k \<times> 'v) list \<Rightarrow> ('k \<times> 'v) list \<Rightarrow> ('k \<times> 'v) list" where
  "dupdate d e = fold (\<lambda>(k, v) acc. dset k v acc) e d"

lemma map_of_dset [simp]: "map_of (dset k v d) = (map_of d)(k \<mapsto> v)"
  by (simp add: AList.update_conv')

lemma map_of_ddel [simp]: "map_of (ddel k d) k' = (if k' = k then None else map_of d k')"
  by (simp add: AList.delete_conv')

lemma dset_new: "map_of d k = None \<Longrightarrow> dset k v d = d @ [(k, v)]"
  by (induction d) (auto split: if_splits)

lemma distinct_ddel [simp]: "distinct (map fst d) \<Longrightarrow> distinct (map fst (ddel k d))"
  by (rule AList.distinct_delete)

lemma distinct_dset [simp]: "distinct (map fst d) \<Longrightarrow> distinct (map fst (dset k v d))"
  by (rule AList.distinct_update)

lemma map_of_dupdate: "distinct (map fst e) \<Longrightarrow> map_of (dupdate d e) = map_of d ++ map_of e"
proof (induction e arbitrary: d)
  case Nil
  then show ?case by (simp add: dupdate_def)
next
  case (Cons p e)
  obtain k v where p: "p = (k, v)" by (cases p)
  have "map_of (dupdate d (p # e)) = map_of (dupdate (dset k v d) e)"
    by (simp add: dupdate_def p)
  also have "\<dots> = (map_of d)(k \<mapsto> v) ++ map_of e"
    using Cons by simp
  also have "\<dots> = map_of d ++ map_of (p # e)"
  proof -
    have "map_of e k = None" using Cons.prems p by (simp add: map_of_eq_None_iff)
    then show ?thesis by (auto simp: map_add_def fun_eq_iff p split: option.splits)
  qed
  finally show ?case .
qed

lemma img_fst [intro]: "(k, v) \<in> set d \<Longrightarrow> k \<in> fst ` set d"
  by force

lemma img_snd [intro]: "(k, v) \<in> set d \<Longrightarrow> v \<in> snd ` set d"
  by force

lemma in_ddel_iff: "distinct (map fst d) \<Longrightarrow> (k', v) \<in> set (ddel k d) \<longleftrightarrow> (k', v) \<in> set d \<and> k' \<noteq> k"
  by (auto simp: AList.delete_eq)

lemma fst_set_dset [simp]: "fst ` set (dset k v d) = insert k (fst ` set d)"
  by (metis AList.dom_update dom_map_of_conv_image_fst insert_is_Un map_of_dset dom_fun_upd option.distinct(1))

lemma fst_set_ddel [simp]: "fst ` set (ddel k d) = fst ` set d - {k}"
  by (auto simp: AList.delete_eq image_iff)

subsection \<open>Typed reads\<close>

text \<open>
  Reads of a dictionary entry that the code then uses at one type. A value of another type
  would raise where it is used; the model raises \<open>TypeError\<close> at the read.
\<close>

fun as_int :: "pyval \<Rightarrow> pyerr + int" where
  "as_int (PInt i) = Inr i"
| "as_int (PBool b) = Inr (if b then 1 else 0)"
| "as_int v = Inl (TypeError ''int'')"

fun as_str :: "pyval \<Rightarrow> pyerr + string" where
  "as_str (PStr s) = Inr s"
| "as_str v = Inl (TypeError ''str'')"

fun as_list :: "pyval \<Rightarrow> pyerr + pyval list" where
  "as_list (PList xs) = Inr xs"
| "as_list v = Inl (TypeError ''list'')"

fun as_dict :: "pyval \<Rightarrow> pyerr + pydict" where
  "as_dict (PDict d) = Inr d"
| "as_dict v = Inl (TypeError ''dict'')"

definition get_int :: "pydict \<Rightarrow> string \<Rightarrow> pyerr + int" where
  "get_int d k = ebind (dget d k) as_int"

definition get_str :: "pydict \<Rightarrow> string \<Rightarrow> pyerr + string" where
  "get_str d k = ebind (dget d k) as_str"

definition get_list :: "pydict \<Rightarrow> string \<Rightarrow> pyerr + pyval list" where
  "get_list d k = ebind (dget d k) as_list"

definition get_dict :: "pydict \<Rightarrow> string \<Rightarrow> pyerr + pydict" where
  "get_dict d k = ebind (dget d k) as_dict"

fun as_bool :: "pyval \<Rightarrow> pyerr + bool" where
  "as_bool (PBool b) = Inr b"
| "as_bool v = Inl (TypeError ''bool'')"

fun as_num :: "pyval \<Rightarrow> pyerr + rat" where
  "as_num (PFloat r) = Inr r"
| "as_num (PInt i) = Inr (of_int i)"
| "as_num v = Inl (TypeError ''float'')"

definition get_bool :: "pydict \<Rightarrow> string \<Rightarrow> pyerr + bool" where
  "get_bool d k = ebind (dget d k) as_bool"

definition get_num :: "pydict \<Rightarrow> string \<Rightarrow> pyerr + rat" where
  "get_num d k = ebind (dget d k) as_num"

text \<open>A list of strings, and an optional one.\<close>

definition as_str_list :: "pyval \<Rightarrow> pyerr + string list" where
  "as_str_list v = ebind (as_list v) (emap as_str)"

fun as_opt :: "(pyval \<Rightarrow> pyerr + 'a) \<Rightarrow> pyval \<Rightarrow> pyerr + 'a option" where
  "as_opt f PNone = Inr None"
| "as_opt f v = ebind (f v) (\<lambda>x. Inr (Some x))"

definition of_opt :: "('a \<Rightarrow> pyval) \<Rightarrow> 'a option \<Rightarrow> pyval" where
  "of_opt f x = (case x of None \<Rightarrow> PNone | Some y \<Rightarrow> f y)"

text \<open>Truth of a value, as \<open>if v:\<close> decides it.\<close>

fun truthy :: "pyval \<Rightarrow> bool" where
  "truthy PNone = False"
| "truthy (PBool b) = b"
| "truthy (PInt i) = (i \<noteq> 0)"
| "truthy (PFloat r) = (r \<noteq> 0)"
| "truthy (PStr s) = (s \<noteq> [])"
| "truthy (PList xs) = (xs \<noteq> [])"
| "truthy (PDict d) = (d \<noteq> [])"
| "truthy (PObj a) = True"

text \<open>\<open>d.get(k, default)\<close>\<close>

definition dget_default :: "pydict \<Rightarrow> string \<Rightarrow> pyval \<Rightarrow> pyval" where
  "dget_default d k v = (case map_of d k of None \<Rightarrow> v | Some w \<Rightarrow> w)"

declare dget_def [py_simps] get_int_def [py_simps] get_str_def [py_simps]
  get_list_def [py_simps] get_dict_def [py_simps] dget_default_def [py_simps] get_bool_def [py_simps] get_num_def [py_simps]

section \<open>Shared mutable dictionaries\<close>

record pyheap =
  cell :: "nat \<Rightarrow> pydict"
  hp_next :: nat

definition empty_heap :: pyheap where
  "empty_heap = \<lparr>cell = (\<lambda>_. []), hp_next = 0\<rparr>"

text \<open>A new dictionary object gets an address not used before.\<close>

definition hp_new :: "pydict \<Rightarrow> pyheap \<Rightarrow> nat \<times> pyheap" where
  "hp_new d h = (hp_next h, h\<lparr>cell := (cell h)(hp_next h := d), hp_next := Suc (hp_next h)\<rparr>)"

definition hp_set :: "nat \<Rightarrow> string \<Rightarrow> pyval \<Rightarrow> pyheap \<Rightarrow> pyheap" where
  "hp_set a k v h = h\<lparr>cell := (cell h)(a := dset k v (cell h a))\<rparr>"

lemma hp_new_simps [simp]:
  "fst (hp_new d h) = hp_next h"
  "hp_next (snd (hp_new d h)) = Suc (hp_next h)"
  "cell (snd (hp_new d h)) = (cell h)(hp_next h := d)"
  by (simp_all add: hp_new_def)

lemma hp_set_simps [simp]:
  "hp_next (hp_set a k v h) = hp_next h"
  "cell (hp_set a k v h) = (cell h)(a := dset k v (cell h a))"
  by (simp_all add: hp_set_def)

section \<open>Strings\<close>

text \<open>A string in single quotes, for messages.\<close>

definition quoted :: "string \<Rightarrow> string" where
  "quoted s = CHR 0x27 # s @ [CHR 0x27]"

definition char_lower :: "char \<Rightarrow> char" where
  "char_lower c = (let n = (of_char c :: nat) in if 65 \<le> n \<and> n \<le> 90 then char_of (n + 32) else c)"

text \<open>\<open>s.lower()\<close> of an ASCII string\<close>

definition str_lower :: "string \<Rightarrow> string" where
  "str_lower s = map char_lower s"

lemma of_char_lower:
  "(of_char (char_lower c) :: nat) = (let n = of_char c in if 65 \<le> n \<and> n \<le> 90 then n + 32 else n)"
  by (simp add: char_lower_def Let_def of_char_of)

lemma char_lower_idem [simp]: "char_lower (char_lower c) = char_lower c"
proof -
  have "(of_char (char_lower (char_lower c)) :: nat) = of_char (char_lower c)"
    by (simp add: of_char_lower Let_def)
  then show ?thesis by simp
qed

lemma str_lower_idem [simp]: "str_lower (str_lower s) = str_lower s"
  by (simp add: str_lower_def)

lemma length_str_lower [simp]: "length (str_lower s) = length s"
  by (simp add: str_lower_def)

text \<open>\<open>s.startswith(p)\<close>, \<open>s.endswith(p)\<close> and \<open>p in s\<close>\<close>

fun starts_with :: "string \<Rightarrow> string \<Rightarrow> bool" where
  "starts_with s [] = True"
| "starts_with [] (p # ps) = False"
| "starts_with (c # s) (p # ps) = (c = p \<and> starts_with s ps)"

lemma starts_with_iff: "starts_with s p \<longleftrightarrow> (\<exists>r. s = p @ r)"
  by (induction s p rule: starts_with.induct) auto

definition ends_with :: "string \<Rightarrow> string \<Rightarrow> bool" where
  "ends_with s p = starts_with (rev s) (rev p)"

lemma ends_with_iff: "ends_with s p \<longleftrightarrow> (\<exists>r. s = r @ p)"
  by (metis ends_with_def rev_append rev_rev_ident starts_with_iff)

fun str_contains :: "string \<Rightarrow> string \<Rightarrow> bool" where
  "str_contains [] p = (p = [])"
| "str_contains (c # s) p = (starts_with (c # s) p \<or> str_contains s p)"

text \<open>\<open>sep.join(xs)\<close>\<close>

fun str_join :: "string \<Rightarrow> string list \<Rightarrow> string" where
  "str_join sep [] = []"
| "str_join sep [x] = x"
| "str_join sep (x # y # xs) = x @ sep @ str_join sep (y # xs)"

text \<open>\<open>s.split(c)\<close> for a one-character separator\<close>

fun str_split :: "char \<Rightarrow> string \<Rightarrow> string list" where
  "str_split c [] = [[]]"
| "str_split c (x # xs) =
     (if x = c then [] # str_split c xs
      else (case str_split c xs of [] \<Rightarrow> [[x]] | w # ws \<Rightarrow> (x # w) # ws))"

lemma str_split_nonempty [simp]: "str_split c s \<noteq> []"
  by (induction s) (auto split: list.splits)

lemma str_join_split: "str_join [c] (str_split c s) = s"
proof (induction s)
  case Nil
  then show ?case by simp
next
  case (Cons x s)
  obtain w ws where w: "str_split c s = w # ws" by (metis list.exhaust str_split_nonempty)
  with Cons show ?case by (cases ws) auto
qed

lemma str_split_no: "c \<notin> set s \<Longrightarrow> str_split c s = [s]"
  by (induction s) auto

lemma str_split_append: "c \<notin> set w \<Longrightarrow> str_split c (w @ c # s) = w # str_split c s"
  by (induction w) auto

lemma str_split_join:
  "ws \<noteq> [] \<Longrightarrow> \<forall>w \<in> set ws. c \<notin> set w \<Longrightarrow> str_split c (str_join [c] ws) = ws"
proof (induction ws)
  case (Cons w ws)
  show ?case
  proof (cases ws)
    case Nil
    then show ?thesis using Cons.prems by (simp add: str_split_no)
  next
    case more: (Cons v vs)
    have "str_split c (str_join [c] ws) = ws" using Cons.IH Cons.prems more by simp
    moreover have "str_join [c] (w # ws) = w @ c # str_join [c] ws" using more by simp
    ultimately show ?thesis using str_split_append[of c w "str_join [c] ws"] Cons.prems by simp
  qed
qed simp

lemma str_join_inject:
  assumes "\<forall>w \<in> set vs. w \<noteq> [] \<and> c \<notin> set w" and "\<forall>w \<in> set ws. w \<noteq> [] \<and> c \<notin> set w"
    and "str_join [c] vs = str_join [c] ws"
  shows "vs = ws"
proof (cases "vs = [] \<or> ws = []")
  case True
  have empty: "str_join [c] xs = [] \<longleftrightarrow> xs = []" if "\<forall>w \<in> set xs. w \<noteq> [] \<and> c \<notin> set w" for xs
    using that by (cases xs; cases "tl xs") auto
  show ?thesis using True empty[OF assms(1)] empty[OF assms(2)] assms(3) by metis
next
  case False
  then have "str_split c (str_join [c] vs) = vs" "str_split c (str_join [c] ws) = ws"
    using str_split_join assms(1,2) by blast+
  then show ?thesis using assms(3) by metis
qed

text \<open>\<open>s.strip()\<close> of ASCII white space\<close>

definition is_space :: "char \<Rightarrow> bool" where
  "is_space c = (let n = (of_char c :: nat) in n = 32 \<or> (9 \<le> n \<and> n \<le> 13) \<or> (28 \<le> n \<and> n \<le> 31))"

definition str_strip :: "string \<Rightarrow> string" where
  "str_strip s = rev (dropWhile is_space (rev (dropWhile is_space s)))"

text \<open>\<open>s.rstrip()\<close>\<close>

definition str_rstrip :: "string \<Rightarrow> string" where
  "str_rstrip s = rev (dropWhile is_space (rev s))"

lemma str_rstrip_prefix: "\<exists>t. s = str_rstrip s @ t \<and> list_all is_space t"
proof -
  have "rev s = takeWhile is_space (rev s) @ dropWhile is_space (rev s)" by simp
  then have "s = str_rstrip s @ rev (takeWhile is_space (rev s))"
    unfolding str_rstrip_def by (metis rev_append rev_rev_ident)
  moreover have "list_all is_space (rev (takeWhile is_space (rev s)))"
    by (auto simp: list_all_iff dest: set_takeWhileD)
  ultimately show ?thesis by blast
qed

subsection \<open>Decimal numbers\<close>

text \<open>\<open>str(n)\<close> of an integer\<close>

definition digit_char :: "nat \<Rightarrow> char" where
  "digit_char d = char_of (48 + d)"

fun nat_str :: "nat \<Rightarrow> string" where
  "nat_str n = (if n < 10 then [digit_char n] else nat_str (n div 10) @ [digit_char (n mod 10)])"

declare nat_str.simps [simp del]

definition int_str :: "int \<Rightarrow> string" where
  "int_str i = (if i < 0 then CHR ''-'' # nat_str (nat (- i)) else nat_str (nat i))"

definition is_digit :: "char \<Rightarrow> bool" where
  "is_digit c = (let n = (of_char c :: nat) in 48 \<le> n \<and> n \<le> 57)"

definition digit_val :: "char \<Rightarrow> nat" where
  "digit_val c = of_char c - 48"

text \<open>The value of a digit string, most significant digit first.\<close>

definition digits_val :: "string \<Rightarrow> nat" where
  "digits_val s = foldl (\<lambda>n c. 10 * n + digit_val c) 0 s"

text \<open>
  \<open>int(s)\<close> of a string of ASCII digits with an optional minus sign; any other string raises.
  (Python also accepts surrounding blanks, a plus sign and underscores.)
\<close>

definition parse_int :: "string \<Rightarrow> pyerr + int" where
  "parse_int s =
     (case s of
        [] \<Rightarrow> Inl (ValueError s)
      | c # cs \<Rightarrow>
          if c = CHR ''-'' then
            (if cs \<noteq> [] \<and> list_all is_digit cs then Inr (- int (digits_val cs)) else Inl (ValueError s))
          else if list_all is_digit s then Inr (int (digits_val s)) else Inl (ValueError s))"

lemma digit_char_val: "d < 10 \<Longrightarrow> digit_val (digit_char d) = d"
  by (simp add: digit_val_def digit_char_def of_char_of)

lemma is_digit_digit_char: "d < 10 \<Longrightarrow> is_digit (digit_char d)"
  by (simp add: is_digit_def digit_char_def of_char_of Let_def)

lemma nat_str_digits: "list_all is_digit (nat_str n)"
proof (induction n rule: nat_str.induct)
  case (1 n)
  then show ?case
    by (subst nat_str.simps) (auto simp: is_digit_digit_char)
qed

lemma digits_val_nat_str [simp]: "digits_val (nat_str n) = n"
proof (induction n rule: nat_str.induct)
  case (1 n)
  show ?case
  proof (cases "n < 10")
    case True
    then show ?thesis by (subst nat_str.simps) (simp add: digits_val_def digit_char_val)
  next
    case False
    with 1 have "digits_val (nat_str (n div 10)) = n div 10" by simp
    with False show ?thesis
      by (subst nat_str.simps) (simp add: digits_val_def digit_char_val)
  qed
qed

lemma nat_str_nonempty [simp]: "nat_str n \<noteq> []"
  by (subst nat_str.simps) simp

lemma nat_str_inject [simp]: "nat_str m = nat_str n \<longleftrightarrow> m = n"
  by (metis digits_val_nat_str)

lemma digit_not_minus: "is_digit c \<Longrightarrow> c \<noteq> CHR ''-''"
  by (auto simp: is_digit_def)

lemma nat_str_hd: "nat_str n = c # cs \<Longrightarrow> is_digit c"
  using nat_str_digits[of n] by simp

lemma int_str_inject [simp]: "int_str i = int_str j \<longleftrightarrow> i = j"
proof -
  have "nat_str n \<noteq> CHR ''-'' # s" for n s
    using nat_str_hd digit_not_minus by blast
  then show ?thesis
    by (auto simp: int_str_def split: if_splits) metis+
qed

lemma parse_int_str: "parse_int (int_str i) = Inr i"
proof -
  obtain c cs where n: "nat_str (nat i) = c # cs" by (metis list.exhaust nat_str_nonempty)
  then have "c \<noteq> CHR ''-''" using nat_str_hd digit_not_minus by blast
  moreover have "list_all is_digit (c # cs)" and "digits_val (c # cs) = nat i"
    using nat_str_digits[of "nat i"] digits_val_nat_str[of "nat i"] by (simp_all only: n)
  ultimately show ?thesis
    using nat_str_digits[of "nat (- i)"]
    by (simp add: parse_int_def int_str_def n)
qed

lemma int_str_chars: "c \<in> set (int_str i) \<Longrightarrow> is_digit c \<or> c = CHR ''-''"
  using nat_str_digits[of "nat i"] nat_str_digits[of "nat (- i)"]
  by (auto simp: int_str_def list_all_iff split: if_splits)

lemma int_str_nonempty [simp]: "int_str i \<noteq> []"
  by (simp add: int_str_def)

end
