(* ===== verification/EventQueue.thy ===== *)
theory EventQueue
  imports Prelude "HOL-Library.Multiset"
begin

text \<open>
  The class \<open>EventQueue\<close> of \<open>zerver/tornado/event_queue.py\<close>: the queue of events of one
  client, with the virtual events that coalesce pointer, restart and flag updates.

  An event is a mutable dictionary, and the code lets several queues hold one event object
  and overwrites its \<open>id\<close> in \<open>push\<close>. A queue therefore holds addresses into a
  \<open>pyheap\<close>. \<open>eq_view\<close> reads a queue and its heap as a list of tagged event values in
  the order of their ids; \<open>spec_push\<close>, \<open>spec_prune\<close> and \<open>spec_contents\<close> say on that
  list what the operations promise, and the refinement lemmas show that the code's
  operations implement them. The locale \<open>event_log\<close> is the interface the event system
  relies on; it is interpreted on the queue model at the end.
\<close>

section \<open>Data and operations\<close>

record event_queue =
  eq_id :: string
  queue :: "nat list"
  next_event_id :: int
  virtual_events :: "(string \<times> nat) list"

text \<open>\<open>EventQueue.__init__\<close>\<close>

definition new_event_queue :: "string \<Rightarrow> event_queue" where
  "new_event_queue i = \<lparr>eq_id = i, queue = [], next_event_id = 0, virtual_events = []\<rparr>"

text \<open>
  The category of an event. Flag and operation are formatted with \<open>%s\<close>; they are strings
  in every event the code builds.
\<close>

definition compute_full_event_type :: "pydict \<Rightarrow> pyerr + string" where
  "compute_full_event_type event =
     ebind (get_str event ''type'') (\<lambda>ty.
       if ty = ''update_message_flags'' then
         ebind (dget event ''all'') (\<lambda>all_case.
         ebind (get_str event ''flag'') (\<lambda>fl.
         ebind (get_str event ''operation'') (\<lambda>oper.
           if truthy all_case then Inr (''all_flags/'' @ fl @ ''/'' @ oper)
           else Inr (''flags/'' @ oper @ ''/'' @ fl))))
       else Inr ty)"

definition is_virtual_type :: "string \<Rightarrow> bool" where
  "is_virtual_type ft \<longleftrightarrow> ft \<in> {''pointer'', ''restart''} \<or> starts_with ft ''flags/''"

text \<open>
  A value with the objects it refers to copied into it, as \<open>copy.deepcopy\<close> and
  \<open>ujson.dumps\<close> read it. The objects events refer to are message dictionaries, which
  hold no further references.
\<close>

primrec resolve :: "pyheap \<Rightarrow> pyval \<Rightarrow> pyval" where
  "resolve h PNone = PNone"
| "resolve h (PBool b) = PBool b"
| "resolve h (PInt i) = PInt i"
| "resolve h (PFloat r) = PFloat r"
| "resolve h (PStr s) = PStr s"
| "resolve h (PList xs) = PList (map (resolve h) xs)"
| "resolve h (PDict d) = PDict (map (map_prod id (resolve h)) d)"
| "resolve h (PObj a) = PDict (cell h a)"

definition resolve_dict :: "pyheap \<Rightarrow> pydict \<Rightarrow> pydict" where
  "resolve_dict h d = map (map_prod id (resolve h)) d"

definition deepcopy :: "nat \<Rightarrow> pyheap \<Rightarrow> nat \<times> pyheap" where
  "deepcopy a h = hp_new (resolve_dict h (cell h a)) h"

text \<open>
  The id of an event in a queue. Every event gets one when it is pushed
  (\<open>push_wf\<close> below), so the default is never read in a well-formed queue.
\<close>

definition ev_id :: "pydict \<Rightarrow> int" where
  "ev_id ev = (case map_of ev ''id'' of Some (PInt i) \<Rightarrow> i | _ \<Rightarrow> 0)"

text \<open>The update of an existing virtual event with the values of a new event of its category.\<close>

definition update_virtual :: "string \<Rightarrow> pydict \<Rightarrow> pydict \<Rightarrow> pyerr + pydict" where
  "update_virtual ft virtual_event event =
     ebind (dget event ''id'') (\<lambda>i.
       let v1 = dset ''id'' i virtual_event;
           v2 = (case map_of event ''timestamp'' of None \<Rightarrow> v1 | Some t \<Rightarrow> dset ''timestamp'' t v1)
       in if ft = ''pointer'' then
            ebind (dget event ''pointer'') (\<lambda>p. Inr (dset ''pointer'' p v2))
          else if ft = ''restart'' then
            ebind (dget event ''server_generation'') (\<lambda>g. Inr (dset ''server_generation'' g v2))
          else if starts_with ft ''flags/'' then
            ebind (get_list v2 ''messages'') (\<lambda>old.
            ebind (get_list event ''messages'') (\<lambda>new.
              Inr (dset ''messages'' (PList (old @ new)) v2)))
          else Inr v2)"

text \<open>\<open>EventQueue.push\<close>: the event object gets its id, then is coalesced or appended.\<close>

definition push :: "pyheap \<Rightarrow> event_queue \<Rightarrow> nat \<Rightarrow> pyerr + pyheap \<times> event_queue" where
  "push h q a =
     (let h1 = hp_set a ''id'' (PInt (next_event_id q)) h;
          q1 = q\<lparr>next_event_id := next_event_id q + 1\<rparr>
      in ebind (compute_full_event_type (cell h1 a)) (\<lambda>ft.
           if is_virtual_type ft then
             (case map_of (virtual_events q1) ft of
                None \<Rightarrow>
                  (let (v, h2) = deepcopy a h1
                   in Inr (h2, q1\<lparr>virtual_events := dset ft v (virtual_events q1)\<rparr>))
              | Some v \<Rightarrow>
                  ebind (update_virtual ft (cell h1 v) (cell h1 a)) (\<lambda>d.
                    Inr (h1\<lparr>cell := (cell h1)(v := d)\<rparr>, q1)))
           else Inr (h1, q1\<lparr>queue := queue q1 @ [a]\<rparr>)))"

text \<open>\<open>EventQueue.pop\<close>: \<open>popleft\<close> of an empty deque raises \<open>IndexError\<close>.\<close>

definition pop :: "event_queue \<Rightarrow> pyerr + nat \<times> event_queue" where
  "pop q = (case queue q of [] \<Rightarrow> Inl IndexError | a # as \<Rightarrow> Inr (a, q\<lparr>queue := as\<rparr>))"

definition empty :: "event_queue \<Rightarrow> bool" where
  "empty q \<longleftrightarrow> queue q = [] \<and> virtual_events q = []"

text \<open>\<open>EventQueue.prune\<close>: the while loop, one \<open>pop\<close> per event up to \<open>through_id\<close>.\<close>

fun prune_loop :: "pyheap \<Rightarrow> int \<Rightarrow> nat list \<Rightarrow> nat list" where
  "prune_loop h through_id [] = []"
| "prune_loop h through_id (a # as) =
     (if ev_id (cell h a) \<le> through_id then prune_loop h through_id as else a # as)"

definition prune :: "pyheap \<Rightarrow> int \<Rightarrow> event_queue \<Rightarrow> event_queue" where
  "prune h through_id q = q\<lparr>queue := prune_loop h through_id (queue q)\<rparr>"

text \<open>
  \<open>EventQueue.contents\<close>: the virtual events, sorted by id, are merged into the queue. The
  list of pairs stands for \<open>virtual_ids\<close> and \<open>virtual_id_map\<close> from \<open>index\<close> on.
\<close>

definition virtual_id_map :: "pyheap \<Rightarrow> event_queue \<Rightarrow> (int \<times> nat) list" where
  "virtual_id_map h q = fold (\<lambda>(ft, a) m. dset (ev_id (cell h a)) a m) (virtual_events q) []"

fun merge_virtual :: "pyheap \<Rightarrow> (int \<times> nat) list \<Rightarrow> nat list \<Rightarrow> nat list" where
  "merge_virtual h vs [] = map snd vs"
| "merge_virtual h vs (a # as) =
     map snd (takeWhile (\<lambda>v. fst v < ev_id (cell h a)) vs) @ a #
     merge_virtual h (dropWhile (\<lambda>v. fst v < ev_id (cell h a)) vs) as"

definition contents :: "pyheap \<Rightarrow> event_queue \<Rightarrow> nat list \<times> event_queue" where
  "contents h q =
     (let merged = merge_virtual h (sort_key fst (virtual_id_map h q)) (queue q)
      in (merged, q\<lparr>virtual_events := [], queue := merged\<rparr>))"

text \<open>\<open>EventQueue.to_dict\<close>, as it is then written to disk, and \<open>EventQueue.from_dict\<close>.\<close>

definition eq_to_dict :: "pyheap \<Rightarrow> event_queue \<Rightarrow> pydict" where
  "eq_to_dict h q =
     [(''id'', PStr (eq_id q)),
      (''next_event_id'', PInt (next_event_id q)),
      (''queue'', PList (map (\<lambda>a. PDict (resolve_dict h (cell h a))) (queue q))),
      (''virtual_events'',
         PDict (map (\<lambda>(ft, a). (ft, PDict (resolve_dict h (cell h a)))) (virtual_events q)))]"

fun alloc_events :: "pyval list \<Rightarrow> pyheap \<Rightarrow> pyerr + nat list \<times> pyheap" where
  "alloc_events [] h = Inr ([], h)"
| "alloc_events (v # vs) h =
     ebind (as_dict v) (\<lambda>d.
       let (a, h1) = hp_new d h
       in ebind (alloc_events vs h1) (\<lambda>(as, h2). Inr (a # as, h2)))"

definition eq_from_dict :: "pydict \<Rightarrow> pyheap \<Rightarrow> pyerr + event_queue \<times> pyheap" where
  "eq_from_dict d h =
     ebind (get_str d ''id'') (\<lambda>i.
     ebind (get_int d ''next_event_id'') (\<lambda>n.
     ebind (get_list d ''queue'') (\<lambda>evs.
     ebind (alloc_events evs h) (\<lambda>(as, h1).
     ebind (as_dict (dget_default d ''virtual_events'' (PDict []))) (\<lambda>vd.
     ebind (alloc_events (map snd vd) h1) (\<lambda>(vas, h2).
       Inr (\<lparr>eq_id = i, queue = as, next_event_id = n, virtual_events = zip (map fst vd) vas\<rparr>, h2)))))))"

section \<open>Well-formed queues and their view\<close>

definition eq_addrs :: "event_queue \<Rightarrow> nat list" where
  "eq_addrs q = queue q @ map snd (virtual_events q)"

definition has_id :: "pydict \<Rightarrow> bool" where
  "has_id ev \<longleftrightarrow> (\<exists>i. map_of ev ''id'' = Some (PInt i))"

abbreviation aid :: "pyheap \<Rightarrow> nat \<Rightarrow> int" where
  "aid h a \<equiv> ev_id (cell h a)"

text \<open>
  Every event has an id below \<open>next_event_id\<close>; no two events share an id (so none share an
  object); the deque is in the order of the ids; there is one virtual event per category.
\<close>

definition eq_wf :: "pyheap \<Rightarrow> event_queue \<Rightarrow> bool" where
  "eq_wf h q \<longleftrightarrow>
     (\<forall>a \<in> set (eq_addrs q). a < hp_next h \<and> has_id (cell h a) \<and> aid h a < next_event_id q) \<and>
     distinct (map (aid h) (eq_addrs q)) \<and>
     sorted (map (aid h) (queue q)) \<and>
     distinct (map fst (virtual_events q))"

text \<open>The events of a queue in the order of their ids, virtual events tagged with their category.\<close>

type_synonym view = "(string option \<times> pydict) list"

definition tagged :: "pyheap \<Rightarrow> event_queue \<Rightarrow> view" where
  "tagged h q = map (\<lambda>a. (None, cell h a)) (queue q) @
                map (\<lambda>p. (Some (fst p), cell h (snd p))) (virtual_events q)"

abbreviation view_id :: "string option \<times> pydict \<Rightarrow> int" where
  "view_id e \<equiv> ev_id (snd e)"

definition eq_view :: "pyheap \<Rightarrow> event_queue \<Rightarrow> view" where
  "eq_view h q = sort_key view_id (tagged h q)"

section \<open>What the operations promise, on views\<close>

definition spec_push :: "int \<Rightarrow> pydict \<Rightarrow> view \<Rightarrow> pyerr + view" where
  "spec_push n ev v =
     (let ev' = dset ''id'' (PInt n) ev
      in ebind (compute_full_event_type ev') (\<lambda>ft.
           if is_virtual_type ft then
             (case map_of v (Some ft) of
                None \<Rightarrow> Inr (v @ [(Some ft, ev')])
              | Some old \<Rightarrow>
                  ebind (update_virtual ft old ev') (\<lambda>m.
                    Inr (filter (\<lambda>e. fst e \<noteq> Some ft) v @ [(Some ft, m)])))
           else Inr (v @ [(None, ev')])))"

definition spec_contents :: "view \<Rightarrow> view" where
  "spec_contents v = map (\<lambda>e. (None, snd e)) v"

definition spec_prune :: "int \<Rightarrow> view \<Rightarrow> view" where
  "spec_prune i v = filter (\<lambda>e. fst e \<noteq> None \<or> i < view_id e) v"

section \<open>Refinement\<close>

subsection \<open>Sorting and ids\<close>

lemma sort_key_snoc_max:
  assumes "\<And>x. x \<in> set xs \<Longrightarrow> k x < k y" and "inj_on k (set xs)"
    and "mset zs = mset (xs @ [y])"
  shows "sort_key k zs = sort_key k xs @ [y]"
proof (rule sort_key_inj_key_eq)
  show "mset zs = mset (sort_key k xs @ [y])" using assms(3) by simp
  have "set zs = insert y (set xs)"
    using assms(3) by (metis list.set(1,2) set_append set_mset_mset Un_insert_right sup_bot.right_neutral)
  moreover have "k y \<notin> k ` set xs" using assms(1) by fastforce
  ultimately show "inj_on k (set zs)"
    using assms(2) by (auto simp: inj_on_insert)
  show "sorted (map k (sort_key k xs @ [y]))"
    using assms(1) by (auto simp: sorted_append less_imp_le)
qed

lemma ev_id_dset [simp]: "ev_id (dset ''id'' (PInt n) d) = n"
  by (simp add: ev_id_def)

lemma ev_id_dset_other [simp]: "k \<noteq> ''id'' \<Longrightarrow> ev_id (dset k v d) = ev_id d"
  by (simp add: ev_id_def)

lemma has_id_dset [simp]: "has_id (dset ''id'' (PInt n) d)"
  by (simp add: has_id_def)

lemma has_id_dset_other [simp]: "k \<noteq> ''id'' \<Longrightarrow> has_id (dset k v d) = has_id d"
  by (simp add: has_id_def)

lemma map_of_resolve: "map_of (resolve_dict h d) k = map_option (resolve h) (map_of d k)"
  unfolding resolve_dict_def by (induction d) auto

lemma ev_id_resolve [simp]: "has_id d \<Longrightarrow> ev_id (resolve_dict h d) = ev_id d"
  by (auto simp: ev_id_def has_id_def map_of_resolve)

lemma has_id_resolve [simp]: "has_id d \<Longrightarrow> has_id (resolve_dict h d)"
  by (auto simp: has_id_def map_of_resolve)

lemma update_virtual_id:
  "update_virtual ft old (dset ''id'' (PInt n) ev) = Inr m \<Longrightarrow> ev_id m = n \<and> has_id m"
  by (auto simp: update_virtual_def Let_def dget_def split: if_splits option.splits)

text \<open>Values without references, which \<open>deepcopy\<close> copies as they are.\<close>

primrec plain :: "pyval \<Rightarrow> bool" where
  "plain PNone = True"
| "plain (PBool b) = True"
| "plain (PInt i) = True"
| "plain (PFloat r) = True"
| "plain (PStr s) = True"
| "plain (PList xs) = list_all id (map plain xs)"
| "plain (PDict d) = list_all (\<lambda>p. snd p) (map (map_prod id plain) d)"
| "plain (PObj a) = False"

definition plain_dict :: "pydict \<Rightarrow> bool" where
  "plain_dict d \<longleftrightarrow> list_all (\<lambda>p. plain (snd p)) d"

lemma resolve_plain: "plain v \<Longrightarrow> resolve h v = v"
proof (induction v)
  case (PList xs)
  then show ?case by (auto simp: list_all_iff intro: map_idI)
next
  case (PDict d)
  have "map_prod id (resolve h) p = p" if "p \<in> set d" for p
    using PDict that by (cases p) (fastforce simp: list_all_iff)
  then show ?case by (auto intro: map_idI)
qed simp_all

lemma resolve_dict_plain: "plain_dict d \<Longrightarrow> resolve_dict h d = d"
  unfolding resolve_dict_def plain_dict_def
  by (rule map_idI) (auto simp: list_all_iff resolve_plain)

lemma plain_dict_dset: "plain_dict d \<Longrightarrow> plain v \<Longrightarrow> plain_dict (dset k v d)"
  unfolding plain_dict_def by (induction d) auto

lemma map_of_unique:
  assumes "\<And>y y'. (k, y) \<in> set xs \<Longrightarrow> (k, y') \<in> set xs \<Longrightarrow> y = y'"
  shows "map_of xs k = Some y \<longleftrightarrow> (k, y) \<in> set xs"
proof
  assume y: "(k, y) \<in> set xs"
  then have "map_of xs k \<noteq> None" by (auto simp: map_of_eq_None_iff)
  then obtain y' where y': "map_of xs k = Some y'" by blast
  then have "(k, y') \<in> set xs" by (rule map_of_SomeD)
  then have "y' = y" using y by (rule assms)
  with y' show "map_of xs k = Some y" by simp
qed (rule map_of_SomeD)

subsection \<open>Facts of a well-formed queue\<close>

lemma tagged_ids: "map view_id (tagged h q) = map (aid h) (eq_addrs q)"
  by (simp add: tagged_def eq_addrs_def comp_def)

lemma wf_inj: "eq_wf h q \<Longrightarrow> inj_on view_id (set (tagged h q))"
  using tagged_ids[of h q] by (metis distinct_map eq_wf_def)

lemma wf_ids_lt: "eq_wf h q \<Longrightarrow> e \<in> set (tagged h q) \<Longrightarrow> view_id e < next_event_id q"
  unfolding eq_wf_def tagged_def eq_addrs_def by auto

lemma wf_addrs_distinct: "eq_wf h q \<Longrightarrow> distinct (eq_addrs q)"
  by (simp add: eq_wf_def distinct_map)

lemma set_view [simp]: "set (eq_view h q) = set (tagged h q)"
  by (simp add: eq_view_def)

lemma map_of_view:
  assumes "eq_wf h q"
  shows "map_of (eq_view h q) (Some ft) = map_option (cell h) (map_of (virtual_events q) ft)"
proof -
  have in_tagged: "(Some ft, d) \<in> set (tagged h q) \<longleftrightarrow> (\<exists>a. (ft, a) \<in> set (virtual_events q) \<and> d = cell h a)" for d
    by (force simp: tagged_def)
  have dist: "distinct (map fst (virtual_events q))" using assms by (simp add: eq_wf_def)
  have unique: "y = y'" if "(Some ft, y) \<in> set (eq_view h q)" "(Some ft, y') \<in> set (eq_view h q)" for y y'
    using that dist in_tagged by (metis set_view eq_key_imp_eq_value)
  show ?thesis
  proof (cases "map_of (virtual_events q) ft")
    case None
    then have "(ft, a) \<notin> set (virtual_events q)" for a by (metis map_of_eq_None_iff img_fst)
    then have "(Some ft, d) \<notin> set (eq_view h q)" for d using in_tagged by simp
    then have "map_of (eq_view h q) (Some ft) = None" by (metis map_of_SomeD not_None_eq)
    with None show ?thesis by simp
  next
    case (Some a)
    then have "(Some ft, cell h a) \<in> set (eq_view h q)"
      using in_tagged map_of_SomeD by fastforce
    then have "map_of (eq_view h q) (Some ft) = Some (cell h a)"
      by (subst map_of_unique) (blast intro: unique)+
    with Some show ?thesis by simp
  qed
qed

subsection \<open>push\<close>

lemma tagged_cong: "(\<And>b. b \<in> set (eq_addrs q) \<Longrightarrow> cell h' b = cell h b) \<Longrightarrow> tagged h' q = tagged h q"
  by (simp add: tagged_def eq_addrs_def)

lemma eq_addrs_simps [simp]:
  "eq_addrs (q\<lparr>next_event_id := n\<rparr>) = eq_addrs q"
  "set (eq_addrs (q\<lparr>queue := as\<rparr>)) = set as \<union> snd ` set (virtual_events q)"
  by (auto simp: eq_addrs_def)

lemma tagged_next [simp]: "tagged h (q\<lparr>next_event_id := n\<rparr>) = tagged h q"
  by (simp add: tagged_def)

text \<open>The three ways an event enters a queue, each as an extension of the sorted view.\<close>

lemma view_snoc:
  assumes wf: "eq_wf h q" and "ev_id d = next_event_id q"
    and "mset (tagged h' q') = mset (filter P (tagged h q) @ [(t, d)])"
  shows "eq_view h' q' = filter P (eq_view h q) @ [(t, d)]"
proof -
  have "sort_key view_id (tagged h' q') = sort_key view_id (filter P (tagged h q)) @ [(t, d)]"
    using wf_ids_lt[OF wf] assms(2,3) inj_on_subset[OF wf_inj[OF wf]]
    by (intro sort_key_snoc_max) auto
  then show ?thesis by (simp add: eq_view_def filter_sort)
qed

lemma virtual_split:
  assumes "distinct (map fst vs)" and "map_of vs ft = Some v"
  shows "\<exists>xs ys. vs = xs @ (ft, v) # ys \<and> ft \<notin> fst ` set xs \<and> ft \<notin> fst ` set ys"
proof -
  have "(ft, v) \<in> set vs" using assms(2) by (rule map_of_SomeD)
  then obtain xs ys where "vs = xs @ (ft, v) # ys" by (meson split_list)
  with assms(1) show ?thesis by auto
qed

lemma tagged_update_virtual:
  assumes wf: "eq_wf h q" and v: "map_of (virtual_events q) ft = Some v"
    and other: "\<And>b. b \<in> set (eq_addrs q) \<Longrightarrow> b \<noteq> v \<Longrightarrow> cell h' b = cell h b" and "cell h' v = d"
  shows "mset (tagged h' q) = mset (filter (\<lambda>e. fst e \<noteq> Some ft) (tagged h q) @ [(Some ft, d)])"
proof -
  obtain xs ys where vs: "virtual_events q = xs @ (ft, v) # ys"
    and notin: "ft \<notin> fst ` set xs" "ft \<notin> fst ` set ys"
    using virtual_split[OF _ v] wf by (auto simp: eq_wf_def)
  have "distinct (queue q @ map snd xs @ v # map snd ys)"
    using wf_addrs_distinct[OF wf] by (simp add: eq_addrs_def vs)
  then have nv: "v \<notin> set (queue q)" "v \<notin> snd ` set xs" "v \<notin> snd ` set ys" by auto
  let ?Q = "map (\<lambda>a. (None, cell h a)) (queue q)"
    and ?F = "map (\<lambda>p. (Some (fst p), cell h (snd p)))"
  have same: "cell h' b = cell h b" if "b \<in> set (queue q) \<union> snd ` set xs \<union> snd ` set ys" for b
    using that other[of b] nv by (auto simp: eq_addrs_def vs)
  have keep: "filter (\<lambda>e. fst e \<noteq> Some ft) (?F zs) = ?F zs" if "ft \<notin> fst ` set zs" for zs
    using that by (induction zs) auto
  have "tagged h' q = ?Q @ ?F xs @ (Some ft, d) # ?F ys"
    using same assms(4) by (simp add: tagged_def vs)
  moreover have "filter (\<lambda>e. fst e \<noteq> Some ft) (tagged h q) = ?Q @ ?F xs @ ?F ys"
    using notin by (simp add: tagged_def vs keep)
  ultimately show ?thesis by simp
qed

text \<open>An event that is coalesced holds no references to other objects.\<close>

definition storable :: "pydict \<Rightarrow> bool" where
  "storable ev \<longleftrightarrow> (\<forall>ft. compute_full_event_type ev = Inr ft \<longrightarrow> is_virtual_type ft \<longrightarrow> plain_dict ev)"

lemma compute_full_dset_id [simp]:
  "compute_full_event_type (dset ''id'' v ev) = compute_full_event_type ev"
  by (simp add: compute_full_event_type_def py_simps cong: if_cong)

lemma plain_storable: "plain_dict ev \<Longrightarrow> storable ev"
  by (simp add: storable_def)

lemma push_refines:
  assumes wf: "eq_wf h q" and fresh: "a \<notin> set (eq_addrs q)" "a < hp_next h"
    and plain: "storable (cell h a)" and push: "push h q a = Inr (h', q')"
  shows "spec_push (next_event_id q) (cell h a) (eq_view h q) = Inr (eq_view h' q')"
proof -
  let ?n = "next_event_id q" and ?ev = "dset ''id'' (PInt (next_event_id q)) (cell h a)"
  let ?h1 = "hp_set a ''id'' (PInt ?n) h"
  have c1: "cell ?h1 a = ?ev" and same1: "\<And>b. b \<in> set (eq_addrs q) \<Longrightarrow> cell ?h1 b = cell h b"
    using fresh by auto
  obtain ft where ft: "compute_full_event_type ?ev = Inr ft"
    using push c1 by (auto simp: push_def Let_def)
  have pl: "plain_dict ?ev" if "is_virtual_type ft"
    using plain that ft by (simp add: plain_dict_dset storable_def)
  consider (plain) "\<not> is_virtual_type ft"
    | (new) "is_virtual_type ft" "map_of (virtual_events q) ft = None"
    | (old) v where "is_virtual_type ft" "map_of (virtual_events q) ft = Some v"
    by fastforce
  then show ?thesis
  proof cases
    case plain
    then have "h' = ?h1" and q': "q' = q\<lparr>next_event_id := ?n + 1, queue := queue q @ [a]\<rparr>"
      using push ft c1 by (auto simp: push_def Let_def)
    then have "mset (tagged h' q') = mset (tagged ?h1 q @ [(None, cell ?h1 a)])"
      by (simp add: tagged_def)
    then have "mset (tagged h' q') = mset (filter (\<lambda>_. True) (tagged h q) @ [(None, ?ev)])"
      using tagged_cong[of q ?h1 h] same1 c1 by simp
    from view_snoc[OF wf _ this] plain ft show ?thesis by (simp add: spec_push_def Let_def)
  next
    case new
    then have h': "h' = snd (hp_new ?ev ?h1)"
      and q': "q' = q\<lparr>next_event_id := ?n + 1, virtual_events := virtual_events q @ [(ft, hp_next h)]\<rparr>"
      using push ft c1 resolve_dict_plain[OF pl[OF new(1)]]
      by (auto simp: push_def Let_def deepcopy_def hp_new_def dset_new)
    have "\<And>b. b \<in> set (eq_addrs q) \<Longrightarrow> cell h' b = cell h b"
      using wf same1 h' by (auto simp: eq_wf_def)
    then have "tagged h' q = tagged h q" by (rule tagged_cong)
    moreover have "mset (tagged h' q') = mset (tagged h' q @ [(Some ft, cell h' (hp_next h))])"
      using q' by (simp add: tagged_def)
    ultimately have "mset (tagged h' q') = mset (filter (\<lambda>_. True) (tagged h q) @ [(Some ft, ?ev)])"
      using h' by simp
    from view_snoc[OF wf _ this] new ft map_of_view[OF wf] show ?thesis
      by (simp add: spec_push_def Let_def)
  next
    case old
    have va: "v \<in> set (eq_addrs q)" using old map_of_SomeD by (fastforce simp: eq_addrs_def)
    then have cv: "cell ?h1 v = cell h v" using same1 by simp
    obtain m where m: "update_virtual ft (cell h v) ?ev = Inr m"
      and h': "h' = ?h1\<lparr>cell := (cell ?h1)(v := m)\<rparr>" and q': "q' = q\<lparr>next_event_id := ?n + 1\<rparr>"
      using push ft c1 cv old by (auto simp: push_def Let_def)
    have "mset (tagged h' q) = mset (filter (\<lambda>e. fst e \<noteq> Some ft) (tagged h q) @ [(Some ft, m)])"
      using wf old(2) by (rule tagged_update_virtual) (use same1 h' fresh in auto)
    moreover have "ev_id m = ?n" using m update_virtual_id by blast
    ultimately have "eq_view h' q' = filter (\<lambda>e. fst e \<noteq> Some ft) (eq_view h q) @ [(Some ft, m)]"
      using wf q' by (simp add: view_snoc)
    then show ?thesis
      using old ft m map_of_view[OF wf] by (simp add: spec_push_def Let_def)
  qed
qed

text \<open>What \<open>push\<close> leaves alone, and where its addresses come from.\<close>

lemma push_cases:
  assumes "push h q a = Inr (h', q')"
  obtains (append) "h' = hp_set a ''id'' (PInt (next_event_id q)) h"
      "q' = q\<lparr>next_event_id := next_event_id q + 1, queue := queue q @ [a]\<rparr>"
  | (new) ft where "map_of (virtual_events q) ft = None"
      "h' = snd (deepcopy a (hp_set a ''id'' (PInt (next_event_id q)) h))"
      "q' = q\<lparr>next_event_id := next_event_id q + 1,
               virtual_events := virtual_events q @ [(ft, hp_next h)]\<rparr>"
  | (update) ft v m where "map_of (virtual_events q) ft = Some v"
      "update_virtual ft (cell (hp_set a ''id'' (PInt (next_event_id q)) h) v)
         (dset ''id'' (PInt (next_event_id q)) (cell h a)) = Inr m"
      "h' = (hp_set a ''id'' (PInt (next_event_id q)) h)
              \<lparr>cell := (cell (hp_set a ''id'' (PInt (next_event_id q)) h))(v := m)\<rparr>"
      "q' = q\<lparr>next_event_id := next_event_id q + 1\<rparr>"
proof -
  let ?h1 = "hp_set a ''id'' (PInt (next_event_id q)) h"
  obtain ft where ft: "compute_full_event_type (cell ?h1 a) = Inr ft"
    using assms by (auto simp: push_def Let_def)
  show ?thesis
  proof (cases "is_virtual_type ft")
    case False
    then show ?thesis using assms ft by (intro append) (auto simp: push_def Let_def)
  next
    case virtual: True
    show ?thesis
    proof (cases "map_of (virtual_events q) ft")
      case None
      then show ?thesis using assms ft virtual
        by (intro new) (auto simp: push_def Let_def deepcopy_def hp_new_def dset_new)
    next
      case (Some v)
      then obtain m where "update_virtual ft (cell ?h1 v) (dset ''id'' (PInt (next_event_id q)) (cell h a)) = Inr m"
        and "h' = ?h1\<lparr>cell := (cell ?h1)(v := m)\<rparr>" and "q' = q\<lparr>next_event_id := next_event_id q + 1\<rparr>"
        using assms ft virtual by (auto simp: push_def Let_def)
      then show ?thesis by (rule update[OF Some])
    qed
  qed
qed

lemma push_frame:
  assumes "push h q a = Inr (h', q')"
  shows "hp_next h \<le> hp_next h'"
    and "set (eq_addrs q') \<subseteq> set (eq_addrs q) \<union> {a} \<union> {hp_next h..<hp_next h'}"
    and "b < hp_next h \<Longrightarrow> b \<noteq> a \<Longrightarrow> b \<notin> set (eq_addrs q) \<Longrightarrow> cell h' b = cell h b"
    and "next_event_id q' = next_event_id q + 1" and "eq_id q' = eq_id q"
  using assms
  by (cases rule: push_cases; auto simp: eq_addrs_def deepcopy_def dest: map_of_SomeD)+

text \<open>The events after a push are events from before and the one with the new id.\<close>

lemma push_tagged:
  assumes wf: "eq_wf h q" and fresh: "a \<notin> set (eq_addrs q)" "a < hp_next h"
    and push: "push h q a = Inr (h', q')"
  shows "\<exists>P t d. mset (tagged h' q') = mset (filter P (tagged h q) @ [(t, d)]) \<and>
      ev_id d = next_event_id q \<and> has_id d"
    and "map (aid h') (queue q') = map (aid h) (queue q) \<or>
      map (aid h') (queue q') = map (aid h) (queue q) @ [next_event_id q]"
    and "distinct (map fst (virtual_events q'))"
proof -
  let ?n = "next_event_id q" and ?h1 = "hp_set a ''id'' (PInt (next_event_id q)) h"
  have same: "cell ?h1 b = cell h b" if "b \<in> set (eq_addrs q)" for b using that fresh by auto
  have old: "b < hp_next h" if "b \<in> set (eq_addrs q)" for b using that wf by (simp add: eq_wf_def)
  have tags: "distinct (map fst (virtual_events q))" using wf by (simp add: eq_wf_def)
  have "(\<exists>P t d. mset (tagged h' q') = mset (filter P (tagged h q) @ [(t, d)]) \<and>
      ev_id d = ?n \<and> has_id d) \<and>
      (map (aid h') (queue q') = map (aid h) (queue q) \<or>
       map (aid h') (queue q') = map (aid h) (queue q) @ [?n]) \<and>
      distinct (map fst (virtual_events q'))"
    using push
  proof (cases rule: push_cases)
    case append
    have "mset (tagged h' q') = mset (tagged ?h1 q @ [(None, cell ?h1 a)])"
      using append by (simp add: tagged_def)
    moreover have "tagged ?h1 q = tagged h q" using same by (rule tagged_cong)
    ultimately have "mset (tagged h' q') = mset (filter (\<lambda>_. True) (tagged h q) @ [(None, cell ?h1 a)])"
      by simp
    moreover have "ev_id (cell ?h1 a) = ?n" "has_id (cell ?h1 a)" by simp_all
    ultimately have "\<exists>P t d. mset (tagged h' q') = mset (filter P (tagged h q) @ [(t, d)]) \<and> ev_id d = ?n \<and> has_id d"
      by blast
    moreover have "map (aid h') (queue q') = map (aid h) (queue q) @ [?n]"
      using append same by (auto simp: eq_addrs_def)
    ultimately show ?thesis using tags append(2) by auto
  next
    case (new ft)
    let ?d = "cell h' (hp_next h)"
    have same': "cell h' b = cell h b" if "b \<in> set (eq_addrs q)" for b
      using same[OF that] old[OF that] new(2) by (simp add: deepcopy_def)
    have "mset (tagged h' q') = mset (tagged h' q @ [(Some ft, ?d)])"
      using new(3) by (simp add: tagged_def)
    moreover have "tagged h' q = tagged h q" using same' by (rule tagged_cong)
    ultimately have "mset (tagged h' q') = mset (filter (\<lambda>_. True) (tagged h q) @ [(Some ft, ?d)])"
      by simp
    moreover have "ev_id ?d = ?n" "has_id ?d" using new(2) by (simp_all add: deepcopy_def)
    ultimately have "\<exists>P t d. mset (tagged h' q') = mset (filter P (tagged h q) @ [(t, d)]) \<and> ev_id d = ?n \<and> has_id d"
      by blast
    moreover have "map (aid h') (queue q') = map (aid h) (queue q)"
      using new(3) same' by (auto simp: eq_addrs_def)
    moreover have "ft \<notin> fst ` set (virtual_events q)" using new(1) by (simp add: map_of_eq_None_iff)
    ultimately show ?thesis using tags new(3) by auto
  next
    case (update ft v m)
    have cv: "\<And>b. b \<in> set (eq_addrs q) \<Longrightarrow> b \<noteq> v \<Longrightarrow> cell h' b = cell h b" "cell h' v = m"
      using same update(3) by simp_all
    have "mset (tagged h' q) = mset (filter (\<lambda>e. fst e \<noteq> Some ft) (tagged h q) @ [(Some ft, m)])"
      using wf update(1) cv by (rule tagged_update_virtual)
    moreover have "tagged h' q' = tagged h' q" using update(4) by simp
    moreover have "ev_id m = ?n" "has_id m" using update(2) update_virtual_id by blast+
    ultimately have "\<exists>P t d. mset (tagged h' q') = mset (filter P (tagged h q) @ [(t, d)]) \<and> ev_id d = ?n \<and> has_id d"
      by (metis (no_types, lifting))
    moreover have "v \<in> snd ` set (virtual_events q)" using map_of_SomeD[OF update(1)] by (rule img_snd)
    then have "v \<notin> set (queue q)" using wf_addrs_distinct[OF wf] by (auto simp: eq_addrs_def)
    then have "cell h' b = cell h b" if "b \<in> set (queue q)" for b
      using cv(1)[of b] that by (auto simp: eq_addrs_def)
    then have "map (aid h') (queue q') = map (aid h) (queue q)"
      using update(4) by simp
    ultimately show ?thesis using tags update(4) by auto
  qed
  then show "\<exists>P t d. mset (tagged h' q') = mset (filter P (tagged h q) @ [(t, d)]) \<and>
      ev_id d = ?n \<and> has_id d"
    and "map (aid h') (queue q') = map (aid h) (queue q) \<or>
      map (aid h') (queue q') = map (aid h) (queue q) @ [?n]"
    and "distinct (map fst (virtual_events q'))"
    by blast+
qed

lemma tagged_cells: "snd ` set (tagged h q) = cell h ` set (eq_addrs q)"
  by (force simp: tagged_def eq_addrs_def)

lemma push_wf:
  assumes wf: "eq_wf h q" and fresh: "a \<notin> set (eq_addrs q)" "a < hp_next h"
    and push: "push h q a = Inr (h', q')"
  shows "eq_wf h' q'"
proof -
  let ?n = "next_event_id q"
  obtain P t d where tg: "mset (tagged h' q') = mset (filter P (tagged h q) @ [(t, d)])"
    and d: "ev_id d = ?n" "has_id d"
    using push_tagged(1)[OF wf fresh push] by blast
  have "has_id x \<and> ev_id x < ?n" if "x \<in> cell h ` set (eq_addrs q)" for x
    using that wf by (auto simp: eq_wf_def)
  then have old: "has_id (snd e) \<and> view_id e < ?n" if "e \<in> set (tagged h q)" for e
    using that tagged_cells[of h q] by (metis imageI)
  have "set (tagged h' q') = set (filter P (tagged h q) @ [(t, d)])"
    using tg by (rule mset_eq_setD)
  moreover have "has_id (snd e) \<and> view_id e < ?n + 1" if "e \<in> set (filter P (tagged h q) @ [(t, d)])" for e
    using that old[of e] d by (cases "e = (t, d)") auto
  ultimately have "has_id (snd e) \<and> view_id e < next_event_id q'" if "e \<in> set (tagged h' q')" for e
    using that push_frame(4)[OF push] by metis
  then have "has_id x \<and> ev_id x < next_event_id q'" if "x \<in> cell h' ` set (eq_addrs q')" for x
    using that tagged_cells[of h' q'] by (metis imageE)
  moreover have "\<forall>b \<in> set (eq_addrs q'). b < hp_next h'"
    using push_frame(1,2)[OF push] wf fresh by (fastforce simp: eq_wf_def)
  moreover have "distinct (map view_id (filter P (tagged h q) @ [(t, d)]))"
  proof -
    have "distinct (map view_id (tagged h q))" using wf by (simp only: tagged_ids eq_wf_def)
    moreover have "?n \<notin> view_id ` set (tagged h q)" using wf_ids_lt[OF wf] by fastforce
    ultimately show ?thesis using d by (auto simp: distinct_map_filter)
  qed
  then have "distinct (map (aid h') (eq_addrs q'))"
    using tg by (metis mset_eq_imp_distinct_iff mset_map tagged_ids)
  moreover have "sorted (map (aid h') (queue q'))"
  proof -
    have "sorted (map (aid h) (queue q) @ [?n])"
      using wf by (auto simp: sorted_append eq_wf_def eq_addrs_def less_imp_le)
    then show ?thesis using push_tagged(2)[OF wf fresh push] by (auto simp: sorted_append)
  qed
  ultimately show ?thesis using push_tagged(3)[OF wf fresh push] by (auto simp: eq_wf_def)
qed

subsection \<open>prune, empty and contents\<close>

lemma prune_loop_dropWhile: "prune_loop h i as = dropWhile (\<lambda>a. aid h a \<le> i) as"
  by (induction as) auto

lemma prune_loop_sorted:
  "sorted (map (aid h) as) \<Longrightarrow> prune_loop h i as = filter (\<lambda>a. i < aid h a) as"
proof (induction as)
  case (Cons a as)
  then have "filter (\<lambda>b. i < aid h b) as = as" if "i < aid h a"
    using that by (intro filter_True) auto
  with Cons show ?case by auto
qed simp

lemma prune_refines:
  assumes "eq_wf h q"
  shows "eq_view h (prune h i q) = spec_prune i (eq_view h q)"
  using assms
  by (simp add: eq_view_def spec_prune_def filter_sort tagged_def prune_def prune_loop_sorted
      eq_wf_def filter_map comp_def)

lemma prune_wf: "eq_wf h q \<Longrightarrow> eq_wf h (prune h i q)"
  by (auto simp: eq_wf_def eq_addrs_def prune_def prune_loop_sorted sorted_filter
      distinct_map_filter)

lemma prune_fields [simp]:
  "next_event_id (prune h i q) = next_event_id q" "eq_id (prune h i q) = eq_id q"
  "virtual_events (prune h i q) = virtual_events q"
  by (simp_all add: prune_def)

lemma empty_refines: "empty q \<longleftrightarrow> eq_view h q = []"
  by (simp add: empty_def eq_view_def tagged_def flip: set_empty)

text \<open>The merge loop permutes the two lists and keeps the order of the ids.\<close>

lemma mset_merge_virtual: "mset (merge_virtual h vs as) = mset (map snd vs) + mset as"
proof (induction as arbitrary: vs)
  case (Cons a as)
  have "mset (map snd vs) =
      mset (map snd (takeWhile (\<lambda>v. fst v < aid h a) vs)) + mset (map snd (dropWhile (\<lambda>v. fst v < aid h a) vs))"
    by (metis map_append mset_append takeWhile_dropWhile_id)
  with Cons show ?case by simp
qed simp

lemma set_merge_virtual: "set (merge_virtual h vs as) = snd ` set vs \<union> set as"
  using mset_merge_virtual[of h vs as]
  by (metis image_set mset_append mset_eq_setD set_append)

lemma sorted_merge_virtual:
  assumes "sorted (map fst vs)" and "\<And>v. v \<in> set vs \<Longrightarrow> fst v = aid h (snd v)"
    and "sorted (map (aid h) as)"
  shows "sorted (map (aid h) (merge_virtual h vs as))"
  using assms
proof (induction as arbitrary: vs)
  case Nil
  have "map (aid h) (map snd vs) = map fst vs" using Nil(2) by simp
  with Nil(1) show ?case by (simp only: merge_virtual.simps)
next
  case (Cons a as)
  let ?p = "\<lambda>v. fst v < aid h a"
  let ?t = "takeWhile ?p vs" and ?d = "dropWhile ?p vs"
  have split: "vs = ?t @ ?d" by simp
  have st: "sorted (map fst ?t @ map fst ?d)" using Cons.prems(1) by (metis map_append split)
  have tk: "map (aid h) (map snd ?t) = map fst ?t" using Cons.prems(2) by (auto dest: set_takeWhileD)
  have tlt: "\<forall>v \<in> set ?t. fst v < aid h a" by (auto dest: set_takeWhileD)
  have dge: "aid h a \<le> fst v" if "v \<in> set ?d" for v
  proof (cases ?d)
    case Nil
    with that show ?thesis by simp
  next
    case (Cons w ws)
    then have "\<not> ?p w" by (metis dropWhile_eq_Cons_conv)
    moreover have "sorted (map fst (w # ws))" using st Cons by (simp add: sorted_append)
    ultimately show ?thesis using that Cons by auto
  qed
  have dv: "fst v = aid h (snd v)" if "v \<in> set ?d" for v using that Cons.prems(2) by (meson set_dropWhileD)
  have rest: "sorted (map (aid h) (merge_virtual h ?d as))"
  proof (rule Cons.IH)
    show "sorted (map fst ?d)" using st by (simp only: sorted_append)
    show "sorted (map (aid h) as)" using Cons.prems(3) by simp
  qed (rule dv)
  have dge': "aid h a \<le> aid h (snd v)" if "v \<in> set ?d" for v
    using dge[OF that] dv[OF that] by simp
  have low: "aid h a \<le> aid h b" if "b \<in> set (merge_virtual h ?d as)" for b
    using that Cons.prems(3) by (auto simp: set_merge_virtual dest: dge')
  have eq: "map (aid h) (merge_virtual h vs (a # as)) = map fst ?t @ aid h a # map (aid h) (merge_virtual h ?d as)"
    using tk by simp
  have "fst v \<le> aid h b" if "v \<in> set ?t" "b \<in> set (merge_virtual h ?d as)" for v b
    using that tlt low[of b] by fastforce
  moreover have "sorted (map fst ?t)" using st by (simp only: sorted_append)
  ultimately show ?case
    unfolding eq using rest low tlt by (auto simp: sorted_append less_imp_le)
qed

lemma fold_dset_distinct:
  "distinct (map f xs) \<Longrightarrow> fst ` set m \<inter> f ` set xs = {} \<Longrightarrow>
   fold (\<lambda>x. dset (f x) (g x)) xs m = m @ map (\<lambda>x. (f x, g x)) xs"
proof (induction xs arbitrary: m)
  case (Cons x xs)
  then have "dset (f x) (g x) m = m @ [(f x, g x)]"
    by (intro dset_new) (auto simp: map_of_eq_None_iff)
  with Cons show ?case by auto
qed simp

lemma virtual_id_map_wf:
  assumes "eq_wf h q"
  shows "virtual_id_map h q = map (\<lambda>p. (aid h (snd p), snd p)) (virtual_events q)"
proof -
  have "distinct (map (\<lambda>p. aid h (snd p)) (virtual_events q))"
    using assms by (simp add: eq_wf_def eq_addrs_def comp_def)
  from fold_dset_distinct[OF this, of "[]" snd] show ?thesis
    by (simp add: virtual_id_map_def case_prod_unfold)
qed

lemma contents_fields [simp]:
  "next_event_id (snd (contents h q)) = next_event_id q" "eq_id (snd (contents h q)) = eq_id q"
  "virtual_events (snd (contents h q)) = []" "queue (snd (contents h q)) = fst (contents h q)"
  by (simp_all add: contents_def Let_def)

lemma contents_mset:
  assumes "eq_wf h q"
  shows "mset (fst (contents h q)) = mset (eq_addrs q)"
    and "sorted (map (aid h) (fst (contents h q)))"
proof -
  let ?vs = "sort_key fst (virtual_id_map h q)"
  have "mset (map snd ?vs) = mset (map snd (virtual_events q))"
    by (simp add: virtual_id_map_wf[OF assms] image_mset.compositionality comp_def)
  then show "mset (fst (contents h q)) = mset (eq_addrs q)"
    by (simp add: contents_def Let_def mset_merge_virtual eq_addrs_def)
  have "sorted (map (aid h) (merge_virtual h ?vs (queue q)))"
    using assms by (intro sorted_merge_virtual) (auto simp: virtual_id_map_wf eq_wf_def)
  then show "sorted (map (aid h) (fst (contents h q)))" by (simp add: contents_def Let_def)
qed

lemma contents_addrs: "eq_wf h q \<Longrightarrow> set (eq_addrs (snd (contents h q))) = set (eq_addrs q)"
  using mset_eq_setD[OF contents_mset(1)] by (simp add: eq_addrs_def)

lemma contents_wf:
  assumes wf: "eq_wf h q"
  shows "eq_wf h (snd (contents h q))"
proof -
  have "distinct (map (aid h) (fst (contents h q))) = distinct (map (aid h) (eq_addrs q))"
    using contents_mset(1)[OF wf] by (intro mset_eq_imp_distinct_iff) simp
  moreover have "eq_addrs (snd (contents h q)) = fst (contents h q)" by (simp add: eq_addrs_def)
  ultimately show ?thesis
    using wf contents_mset(2)[OF wf] contents_addrs[OF wf] by (simp add: eq_wf_def)
qed

text \<open>The events returned are the view, in order, and all of them are ordinary events afterwards.\<close>

lemma contents_refines:
  assumes wf: "eq_wf h q"
  shows "map (cell h) (fst (contents h q)) = map snd (eq_view h q)"
    and "eq_view h (snd (contents h q)) = spec_contents (eq_view h q)"
proof -
  let ?c = "fst (contents h q)" and ?q' = "snd (contents h q)"
  have tg: "tagged h ?q' = map (\<lambda>a. (None, cell h a)) ?c" by (simp add: tagged_def)
  have inj': "inj_on view_id (set (tagged h ?q'))" using contents_wf[OF wf] by (rule wf_inj)
  have key: "view_id ((\<lambda>e. (None :: string option, snd e)) e) = view_id e" for e :: "string option \<times> pydict"
    by simp
  have "mset (spec_contents (eq_view h q)) = image_mset (\<lambda>d. (None, d)) (image_mset snd (mset (tagged h q)))"
    by (simp add: spec_contents_def eq_view_def image_mset.compositionality comp_def)
  also have "image_mset snd (mset (tagged h q)) = image_mset (cell h) (mset (eq_addrs q))"
    by (simp add: tagged_def eq_addrs_def image_mset.compositionality comp_def)
  also have "mset (eq_addrs q) = mset ?c" by (simp add: contents_mset(1)[OF wf])
  finally have ms: "mset (tagged h ?q') = mset (spec_contents (eq_view h q))"
    by (simp add: tg image_mset.compositionality comp_def)
  have "map view_id (spec_contents (eq_view h q)) = map view_id (eq_view h q)"
    by (simp add: spec_contents_def)
  then have "sorted (map view_id (spec_contents (eq_view h q)))" by (simp add: eq_view_def)
  then show view: "eq_view h ?q' = spec_contents (eq_view h q)"
    using ms inj' unfolding eq_view_def[of h ?q'] by (intro sort_key_inj_key_eq)
  have "sorted (map view_id (tagged h ?q'))" using contents_mset(2)[OF wf] by (simp add: tg comp_def)
  then have "eq_view h ?q' = tagged h ?q'"
    unfolding eq_view_def using inj' by (intro sort_key_inj_key_eq) simp_all
  with view tg have "map snd (spec_contents (eq_view h q)) = map (cell h) ?c" by (simp add: comp_def flip: view)
  then show "map (cell h) ?c = map snd (eq_view h q)" by (simp add: spec_contents_def comp_def)
qed

section \<open>The interface the event system relies on\<close>

text \<open>
  A log of numbered events with acknowledgement: \<open>push\<close> appends (or coalesces), \<open>ack\<close>
  drops the ordinary events up to an id, \<open>fetch\<close> returns everything pending and makes it
  ordinary. The laws are over the view.
\<close>

lemma spec_push_keeps: "spec_push n new v = Inr v' \<Longrightarrow> (None, ev) \<in> set v \<Longrightarrow> (None, ev) \<in> set v'"
  by (auto simp: spec_push_def Let_def split: if_splits option.splits)

lemma sorted_le_last: "sorted xs \<Longrightarrow> x \<in> set xs \<Longrightarrow> x \<le> last xs" for x :: "'a :: linorder"
  by (induction xs) auto

locale event_log =
  fixes view :: "'q \<Rightarrow> view"
    and add :: "pydict \<Rightarrow> 'q \<Rightarrow> pyerr + 'q"
    and ack :: "int \<Rightarrow> 'q \<Rightarrow> 'q"
    and fetch :: "'q \<Rightarrow> pydict list \<times> 'q"
    and is_empty :: "'q \<Rightarrow> bool"
    and next_id :: "'q \<Rightarrow> int"
    and inv :: "'q \<Rightarrow> bool"
  assumes add_view: "inv q \<Longrightarrow> storable ev \<Longrightarrow> add ev q = Inr q' \<Longrightarrow>
      spec_push (next_id q) ev (view q) = Inr (view q')"
    and add_next: "inv q \<Longrightarrow> add ev q = Inr q' \<Longrightarrow> next_id q' = next_id q + 1"
    and add_inv: "inv q \<Longrightarrow> add ev q = Inr q' \<Longrightarrow> inv q'"
    and ack_view: "inv q \<Longrightarrow> view (ack i q) = spec_prune i (view q)"
    and ack_inv: "inv q \<Longrightarrow> inv (ack i q)"
    and ack_next: "next_id (ack i q) = next_id q"
    and fetch_events: "inv q \<Longrightarrow> fst (fetch q) = map snd (view q)"
    and fetch_view: "inv q \<Longrightarrow> view (snd (fetch q)) = spec_contents (view q)"
    and fetch_inv: "inv q \<Longrightarrow> inv (snd (fetch q))"
    and fetch_next: "next_id (snd (fetch q)) = next_id q"
    and empty_iff: "inv q \<Longrightarrow> is_empty q \<longleftrightarrow> view q = []"
    and view_sorted: "inv q \<Longrightarrow> sorted_wrt (<) (map view_id (view q))"
    and view_below: "inv q \<Longrightarrow> e \<in> set (view q) \<Longrightarrow> view_id e < next_id q"
begin

text \<open>Events come out in strictly increasing order of their ids.\<close>

lemma fetch_increasing: "inv q \<Longrightarrow> sorted_wrt (<) (map ev_id (fst (fetch q)))"
  using view_sorted[of q] by (simp add: fetch_events comp_def)

text \<open>What was fetched and not acknowledged is fetched again.\<close>

lemma refetch: "inv q \<Longrightarrow> fst (fetch (snd (fetch q))) = fst (fetch q)"
  by (simp add: fetch_events fetch_inv fetch_view spec_contents_def comp_def)

text \<open>After a fetch, acknowledging through \<open>i\<close> leaves exactly the events with a larger id.\<close>

lemma fetch_ack:
  "inv q \<Longrightarrow> fst (fetch (ack i (snd (fetch q)))) = filter (\<lambda>ev. i < ev_id ev) (fst (fetch q))"
  by (simp add: fetch_events ack_inv fetch_inv ack_view fetch_view spec_prune_def spec_contents_def
      filter_map comp_def)

text \<open>Acknowledging the last event of a fetch empties the log.\<close>

lemma ack_last_empty:
  assumes "inv q" and "fst (fetch q) \<noteq> []"
  shows "is_empty (ack (ev_id (last (fst (fetch q)))) (snd (fetch q)))"
proof -
  let ?evs = "fst (fetch q)"
  have "sorted (map ev_id ?evs)" using fetch_increasing[OF assms(1)] by (simp add: strict_sorted_iff)
  then have "ev_id ev \<le> ev_id (last ?evs)" if "ev \<in> set ?evs" for ev
    using that assms(2) sorted_le_last[of "map ev_id ?evs" "ev_id ev"] by (simp add: last_map)
  then have "filter (\<lambda>ev. ev_id (last ?evs) < ev_id ev) ?evs = []"
    by (auto simp: filter_empty_conv not_less)
  then have "view (ack (ev_id (last ?evs)) (snd (fetch q))) = []"
    using fetch_ack[OF assms(1)] fetch_events[OF ack_inv[OF fetch_inv[OF assms(1)]]]
    by (metis map_is_Nil_conv)
  with assms(1) show ?thesis by (simp add: empty_iff ack_inv fetch_inv)
qed

text \<open>
  Polling: acknowledge, then fetch. An event that a poll returns stays pending, with the
  same content, through any later addition; only an acknowledgement removes it.
\<close>

lemma delivered_until_acked:
  assumes inv: "inv q" and ev: "ev \<in> set (fst (fetch q))" and "storable new"
    and add: "add new (snd (fetch q)) = Inr q'" and "i < ev_id ev"
  shows "ev \<in> set (fst (fetch (ack i q')))"
proof -
  let ?q = "snd (fetch q)"
  have inv1: "inv ?q" and inv': "inv q'" using inv add fetch_inv add_inv by blast+
  have sp: "spec_push (next_id ?q) new (view ?q) = Inr (view q')"
    using add_view inv1 assms(3) add by blast
  have ordinary: "(None, ev) \<in> set (view ?q)"
    using ev by (auto simp: fetch_view[OF inv] fetch_events[OF inv] spec_contents_def)
  have "(None, ev) \<in> set (view q')" using sp ordinary by (rule spec_push_keeps)
  then show ?thesis
    using assms(5) inv' by (force simp: fetch_events ack_inv ack_view spec_prune_def)
qed

end

text \<open>The queue model with its heap, events entering as fresh copies, as \<open>process_event\<close> does.\<close>

definition add_copy :: "pydict \<Rightarrow> pyheap \<times> event_queue \<Rightarrow> pyerr + pyheap \<times> event_queue" where
  "add_copy ev = (\<lambda>(h, q). let (a, h1) = hp_new ev h in push h1 q a)"

definition fetch_values :: "pyheap \<times> event_queue \<Rightarrow> pydict list \<times> pyheap \<times> event_queue" where
  "fetch_values = (\<lambda>(h, q). let (as, q') = contents h q in (map (cell h) as, (h, q')))"

lemma eq_wf_cong:
  assumes same: "\<And>b. b \<in> set (eq_addrs q) \<Longrightarrow> cell h' b = cell h b"
    and le: "hp_next h \<le> hp_next h'" and wf: "eq_wf h q"
  shows "eq_wf h' q"
proof -
  have m: "map (aid h') (eq_addrs q) = map (aid h) (eq_addrs q)"
    "map (aid h') (queue q) = map (aid h) (queue q)"
    using same by (auto simp: eq_addrs_def)
  from wf have "\<forall>b \<in> set (eq_addrs q). b < hp_next h' \<and> has_id (cell h' b) \<and> aid h' b < next_event_id q"
    using same le by (fastforce simp: eq_wf_def)
  with wf show ?thesis unfolding eq_wf_def m by simp
qed

lemma hp_new_same:
  "eq_wf h q \<Longrightarrow> b \<in> set (eq_addrs q) \<Longrightarrow> cell (snd (hp_new d h)) b = cell h b"
  by (auto simp: eq_wf_def)

lemma wf_hp_new:
  assumes "eq_wf h q"
  shows "eq_wf (snd (hp_new d h)) q" "eq_view (snd (hp_new d h)) q = eq_view h q"
proof -
  show "eq_wf (snd (hp_new d h)) q"
    by (rule eq_wf_cong[OF hp_new_same[OF assms] _ assms]) simp_all
  show "eq_view (snd (hp_new d h)) q = eq_view h q"
    unfolding eq_view_def using tagged_cong[of q, OF hp_new_same[OF assms]] by simp
qed

lemma add_copy_push:
  assumes "eq_wf h q" and "add_copy ev (h, q) = Inr (h', q')"
  shows "push (snd (hp_new ev h)) q (hp_next h) = Inr (h', q')" and "hp_next h \<notin> set (eq_addrs q)"
  using assms by (auto simp: add_copy_def hp_new_def eq_wf_def)

interpretation tornado_queue: event_log
  "\<lambda>(h, q). eq_view h q" add_copy "\<lambda>i (h, q). (h, prune h i q)" fetch_values
  "\<lambda>(h, q). empty q" "\<lambda>(h, q). next_event_id q" "\<lambda>(h, q). eq_wf h q"
proof (unfold_locales, goal_cases)
  case (1 s ev s')
  then obtain h q h' q' where s: "s = (h, q)" "s' = (h', q')" and wf: "eq_wf h q"
    and add: "add_copy ev (h, q) = Inr (h', q')"
    by (cases s; cases s') auto
  from push_refines[OF wf_hp_new(1)[OF wf] add_copy_push(2)[OF wf add] _ _ add_copy_push(1)[OF wf add]]
  show ?case using 1(2) s wf_hp_new(2)[OF wf] by simp
next
  case (2 s ev s')
  then show ?case using add_copy_push push_frame(4) by (cases s; cases s') fastforce
next
  case (3 s ev s')
  then show ?case using add_copy_push push_wf wf_hp_new(1) by (cases s; cases s') fastforce
next
  case (12 s)
  then obtain h q where s: "s = (h, q)" and wf: "eq_wf h q" by (cases s) auto
  have "mset (map view_id (eq_view h q)) = mset (map view_id (tagged h q))" by (simp add: eq_view_def)
  moreover have "distinct (map view_id (tagged h q))" using wf by (simp only: tagged_ids eq_wf_def)
  ultimately have "distinct (map view_id (eq_view h q))" by (metis mset_eq_imp_distinct_iff)
  moreover have "sorted (map view_id (eq_view h q))" by (simp add: eq_view_def)
  ultimately show ?case using s by (simp add: strict_sorted_iff)
qed (auto simp: prune_refines prune_wf fetch_values_def Let_def case_prod_unfold contents_refines contents_wf
    empty_refines wf_ids_lt)

section \<open>Saving and restoring a queue\<close>

lemma alloc_events_dicts:
  "\<exists>h'. alloc_events (map PDict ds) h = Inr ([hp_next h..<hp_next h + length ds], h') \<and>
     hp_next h' = hp_next h + length ds \<and> map (cell h') [hp_next h..<hp_next h + length ds] = ds \<and>
     (\<forall>b < hp_next h. cell h' b = cell h b)"
proof (induction ds arbitrary: h)
  case Nil
  show ?case by simp
next
  case (Cons d ds)
  let ?h1 = "snd (hp_new d h)" and ?n = "hp_next h"
  obtain h' where IH: "alloc_events (map PDict ds) ?h1 = Inr ([Suc ?n..<Suc ?n + length ds], h')"
    "hp_next h' = Suc ?n + length ds" "map (cell h') [Suc ?n..<Suc ?n + length ds] = ds"
    "\<forall>b < Suc ?n. cell h' b = cell ?h1 b"
    using Cons[of ?h1] by auto
  have up: "[?n..<?n + length (d # ds)] = ?n # [Suc ?n..<Suc ?n + length ds]"
    using upt_conv_Cons[of ?n "?n + length (d # ds)"] by (simp del: upt_Suc)
  have "alloc_events (map PDict (d # ds)) h = Inr (?n # [Suc ?n..<Suc ?n + length ds], h')"
    using IH(1) by (simp add: hp_new_def)
  moreover have "cell h' ?n = d" "\<forall>b < ?n. cell h' b = cell h b" using IH(4) by auto
  ultimately show ?case using IH(2,3) unfolding up by (intro exI[of _ h']) simp
qed

text \<open>
  A queue restored into any heap has the same id and counter, and its events are the
  events of the saved queue with the objects they referred to copied in.
\<close>

definition resolve_view :: "pyheap \<Rightarrow> view \<Rightarrow> view" where
  "resolve_view h v = map (\<lambda>e. (fst e, resolve_dict h (snd e))) v"

lemma eq_dict_roundtrip:
  "\<exists>q' h'. eq_from_dict (eq_to_dict h q) g = Inr (q', h') \<and>
    tagged h' q' = resolve_view h (tagged h q) \<and>
    eq_id q' = eq_id q \<and> next_event_id q' = next_event_id q \<and>
    eq_addrs q' = [hp_next g..<hp_next h'] \<and> hp_next g \<le> hp_next h' \<and>
    (\<forall>b < hp_next g. cell h' b = cell g b) \<and>
    map fst (virtual_events q') = map fst (virtual_events q) \<and>
    map (cell h') (queue q') = map (\<lambda>a. resolve_dict h (cell h a)) (queue q)"
proof -
  let ?c = "\<lambda>a. resolve_dict h (cell h a)"
  let ?qs = "map ?c (queue q)" and ?vs = "map (\<lambda>p. ?c (snd p)) (virtual_events q)"
  let ?m = "hp_next g + length ?qs"
  obtain h1 where h1: "alloc_events (map PDict ?qs) g = Inr ([hp_next g..<?m], h1)" "hp_next h1 = ?m"
    "map (cell h1) [hp_next g..<?m] = ?qs" "\<forall>b < hp_next g. cell h1 b = cell g b"
    using alloc_events_dicts[of ?qs g] by blast
  obtain h2 where h2: "alloc_events (map PDict ?vs) h1 = Inr ([?m..<?m + length ?vs], h2)"
    "hp_next h2 = ?m + length ?vs" "map (cell h2) [?m..<?m + length ?vs] = ?vs" "\<forall>b < ?m. cell h2 b = cell h1 b"
    using alloc_events_dicts[of ?vs h1] h1(2) by metis
  let ?q' = "\<lparr>eq_id = eq_id q, queue = [hp_next g..<?m], next_event_id = next_event_id q,
    virtual_events = zip (map fst (virtual_events q)) [?m..<?m + length ?vs]\<rparr>"
  have from_dict: "eq_from_dict (eq_to_dict h q) g = Inr (?q', h2)"
    using h1(1) h2(1)
    by (simp add: eq_from_dict_def eq_to_dict_def py_simps comp_def case_prod_unfold)
  have cq: "map (cell h2) [hp_next g..<?m] = ?qs"
  proof -
    have "map (cell h2) [hp_next g..<?m] = map (cell h1) [hp_next g..<?m]" using h2(4) by simp
    then show ?thesis using h1(3) by (simp only:)
  qed
  have "map (\<lambda>p. (Some (fst p), cell h2 (snd p))) (virtual_events ?q') =
      zip (map (\<lambda>p. Some (fst p)) (virtual_events q)) (map (cell h2) [?m..<?m + length ?vs])"
    by (simp add: zip_map1 zip_map2 comp_def case_prod_unfold)
  also have "\<dots> = map (\<lambda>p. (Some (fst p), ?c (snd p))) (virtual_events q)"
    unfolding h2(3) by (simp add: zip_map_map zip_same_conv_map)
  finally have "tagged h2 ?q' = resolve_view h (tagged h q)"
    using arg_cong[OF cq, of "map (Pair None)"]
    by (simp add: tagged_def resolve_view_def comp_def)
  moreover have "\<forall>b < hp_next g. cell h2 b = cell g b" using h1(4) h2(4) by simp
  moreover have "eq_addrs ?q' = [hp_next g..<hp_next h2]"
    using h2(2) by (simp add: eq_addrs_def upt_add_eq_append[symmetric])
  ultimately show ?thesis using from_dict cq h2(2) by (intro exI[of _ ?q'] exI[of _ h2]) simp
qed

text \<open>The restored queue is well-formed, with the same ids.\<close>

lemma eq_dict_roundtrip_wf:
  assumes wf: "eq_wf h q" and r: "eq_from_dict (eq_to_dict h q) g = Inr (q', h')"
  shows "eq_wf h' q'" and "eq_view h' q' = resolve_view h (eq_view h q)"
proof -
  have t: "tagged h' q' = resolve_view h (tagged h q)" "next_event_id q' = next_event_id q"
    "eq_addrs q' = [hp_next g..<hp_next h']" "map fst (virtual_events q') = map fst (virtual_events q)"
    "map (cell h') (queue q') = map (\<lambda>a. resolve_dict h (cell h a)) (queue q)"
    using eq_dict_roundtrip[of h q g] r by auto
  have has: "has_id (cell h a)" if "a \<in> set (eq_addrs q)" for a using that wf by (simp add: eq_wf_def)
  then have has_t: "has_id (snd e)" if "e \<in> set (tagged h q)" for e
    using that tagged_cells[of h q] by (metis imageE imageI)
  have ids: "map view_id (tagged h' q') = map view_id (tagged h q)"
    unfolding t(1) resolve_view_def using has_t by simp
  have cells: "cell h' ` set (eq_addrs q') = resolve_dict h ` cell h ` set (eq_addrs q)"
    by (simp add: tagged_cells[symmetric] t(1) resolve_view_def image_image)
  have all: "has_id x \<and> ev_id x < next_event_id q" if "x \<in> cell h' ` set (eq_addrs q')" for x
    using that has wf unfolding cells by (auto simp: eq_wf_def)
  have "map ev_id (map (cell h') (queue q')) = map (aid h) (queue q)"
    unfolding t(5) using has by (simp add: eq_addrs_def)
  then have "sorted (map (aid h') (queue q'))" using wf by (simp add: eq_wf_def comp_def)
  moreover have "distinct (map (aid h') (eq_addrs q'))"
    using wf by (simp only: tagged_ids[symmetric] ids) (simp only: tagged_ids eq_wf_def)
  ultimately show "eq_wf h' q'" using all t wf by (auto simp: eq_wf_def)
  have key: "view_id (fst e, resolve_dict h (snd e)) = view_id e" if "e \<in> set (tagged h q)" for e
    using has_t[OF that] by simp
  show "eq_view h' q' = resolve_view h (eq_view h q)"
    unfolding eq_view_def
  proof (rule sort_key_inj_key_eq)
    show "mset (tagged h' q') = mset (resolve_view h (sort_key view_id (tagged h q)))"
      by (simp add: t(1) resolve_view_def)
    show "inj_on view_id (set (tagged h' q'))" using \<open>eq_wf h' q'\<close> by (rule wf_inj)
    have "map view_id (resolve_view h (sort_key view_id (tagged h q))) = map view_id (sort_key view_id (tagged h q))"
      unfolding resolve_view_def using key by simp
    then show "sorted (map view_id (resolve_view h (sort_key view_id (tagged h q))))" by simp
  qed
qed

end
