(* ===== verification/Narrow.thy ===== *)
theory Narrow
  imports Prelude
begin

text \<open>
  \<open>zerver/lib/narrow.py\<close>: the filter a client may put on the message events of its queue.
  A narrow is a list of [operator, operand] pairs; the filter reads the message and the
  flags of an event. \<open>element_accepts\<close> is one round of the loop body, with \<open>False\<close> for
  the early \<open>return False\<close>.
\<close>

section \<open>The filter\<close>

text \<open>\<open>element[i]\<close> of a list\<close>

definition nth_or_raise :: "'a list \<Rightarrow> nat \<Rightarrow> pyerr + 'a" where
  "nth_or_raise xs i = (if i < length xs then Inr (xs ! i) else Inl IndexError)"

fun check_supported_events_narrow_filter :: "string list list \<Rightarrow> pyerr + unit" where
  "check_supported_events_narrow_filter [] = Inr ()"
| "check_supported_events_narrow_filter (element # rest) =
     ebind (nth_or_raise element 0) (\<lambda>operator.
       if operator \<notin> {''stream'', ''topic'', ''sender'', ''is''}
       then Inl (JsonableError (''Operator '' @ operator @ '' not supported.''))
       else check_supported_events_narrow_filter rest)"

text \<open>\<open>x in flags\<close>, which raises when \<open>flags\<close> is \<open>None\<close>\<close>

fun in_flags :: "string \<Rightarrow> pyval \<Rightarrow> pyerr + bool" where
  "in_flags x (PList fs) = Inr (PStr x \<in> set fs)"
| "in_flags x v = Inl (TypeError ''flags'')"

definition element_accepts :: "pydict \<Rightarrow> pyval \<Rightarrow> string list \<Rightarrow> pyerr + bool" where
  "element_accepts message fl element =
     ebind (nth_or_raise element 0) (\<lambda>operator.
     ebind (nth_or_raise element 1) (\<lambda>operand.
       if operator = ''stream'' then
         ebind (get_str message ''type'') (\<lambda>ty.
           if ty \<noteq> ''stream'' then Inr False
           else ebind (get_str message ''display_recipient'') (\<lambda>r.
             Inr (str_lower operand = str_lower r)))
       else if operator = ''topic'' then
         ebind (get_str message ''type'') (\<lambda>ty.
           if ty \<noteq> ''stream'' then Inr False
           else ebind (get_str message ''subject'') (\<lambda>t.
             Inr (str_lower operand = str_lower t)))
       else if operator = ''sender'' then
         ebind (get_str message ''sender_email'') (\<lambda>e.
           Inr (str_lower operand = str_lower e))
       else if operator = ''is'' \<and> operand = ''private'' then
         ebind (get_str message ''type'') (\<lambda>ty. Inr (ty = ''private''))
       else if operator = ''is'' \<and> operand \<in> {''starred''} then in_flags operand fl
       else if operator = ''is'' \<and> operand = ''unread'' then
         ebind (in_flags ''read'' fl) (\<lambda>r. Inr (\<not> r))
       else if operator = ''is'' \<and> operand \<in> {''alerted'', ''mentioned''} then
         in_flags ''mentioned'' fl
       else Inr True))"

fun narrow_loop :: "pydict \<Rightarrow> pyval \<Rightarrow> string list list \<Rightarrow> pyerr + bool" where
  "narrow_loop message fl [] = Inr True"
| "narrow_loop message fl (element # rest) =
     ebind (element_accepts message fl element) (\<lambda>ok.
       if ok then narrow_loop message fl rest else Inr False)"

definition narrow_filter :: "string list list \<Rightarrow> pydict \<Rightarrow> pyerr + bool" where
  "narrow_filter nrw event =
     ebind (get_dict event ''message'') (\<lambda>message.
     ebind (dget event ''flags'') (\<lambda>fl.
       narrow_loop message fl nrw))"

text \<open>\<open>build_narrow_filter\<close> checks the operators once and returns the filter.\<close>

definition build_narrow_filter :: "string list list \<Rightarrow> pyerr + (pydict \<Rightarrow> pyerr + bool)" where
  "build_narrow_filter nrw =
     ebind (check_supported_events_narrow_filter nrw) (\<lambda>_. Inr (narrow_filter nrw))"

section \<open>What the filter decides\<close>

text \<open>The check passes exactly for narrows whose elements start with a known operator.\<close>

lemma check_supported_iff:
  "check_supported_events_narrow_filter nrw = Inr () \<longleftrightarrow>
     (\<forall>e \<in> set nrw. e \<noteq> [] \<and> hd e \<in> {''stream'', ''topic'', ''sender'', ''is''})"
proof (induction nrw)
  case (Cons e nrw)
  then show ?case by (cases e) (auto simp: nth_or_raise_def)
qed simp

text \<open>
  The filter accepts a message exactly when every element accepts it, and rejects it
  exactly when an element rejects it before any element raises.
\<close>

lemma narrow_loop_True:
  "narrow_loop m fl nrw = Inr True \<longleftrightarrow> (\<forall>e \<in> set nrw. element_accepts m fl e = Inr True)"
  by (induction nrw) auto

lemma narrow_loop_total:
  assumes "\<And>e. e \<in> set nrw \<Longrightarrow> element_accepts m fl e = Inr (P e)"
  shows "narrow_loop m fl nrw = Inr (list_all P nrw)"
  using assms by (induction nrw) auto

lemma narrow_loop_append:
  "narrow_loop m fl (xs @ ys) = ebind (narrow_loop m fl xs) (\<lambda>ok. if ok then narrow_loop m fl ys else Inr False)"
  by (induction xs) (auto simp: ebind_assoc ebind_def split: sum.splits)

text \<open>A message with all the fields the filter reads.\<close>

record message_fields =
  m_type :: string
  m_recipient :: string
  m_subject :: string
  m_sender_email :: string
  m_flags :: "string list"

definition has_message_fields :: "pydict \<Rightarrow> pyval \<Rightarrow> message_fields \<Rightarrow> bool" where
  "has_message_fields m fl f \<longleftrightarrow>
     map_of m ''type'' = Some (PStr (m_type f)) \<and>
     (m_type f = ''stream'' \<longrightarrow> map_of m ''display_recipient'' = Some (PStr (m_recipient f)) \<and>
        map_of m ''subject'' = Some (PStr (m_subject f))) \<and>
     map_of m ''sender_email'' = Some (PStr (m_sender_email f)) \<and>
     fl = PList (map PStr (m_flags f))"

text \<open>The intended meaning of an element: what the documentation of narrows promises.\<close>

definition element_spec :: "message_fields \<Rightarrow> string \<Rightarrow> string \<Rightarrow> bool" where
  "element_spec f operator operand =
     (if operator = ''stream'' then m_type f = ''stream'' \<and> str_lower operand = str_lower (m_recipient f)
      else if operator = ''topic'' then m_type f = ''stream'' \<and> str_lower operand = str_lower (m_subject f)
      else if operator = ''sender'' then str_lower operand = str_lower (m_sender_email f)
      else if operator = ''is'' then
        (if operand = ''private'' then m_type f = ''private''
         else if operand = ''starred'' then ''starred'' \<in> set (m_flags f)
         else if operand = ''unread'' then ''read'' \<notin> set (m_flags f)
         else if operand \<in> {''alerted'', ''mentioned''} then ''mentioned'' \<in> set (m_flags f)
         else True)
      else True)"

lemma element_accepts_spec:
  assumes "has_message_fields m fl f"
  shows "element_accepts m fl [operator, operand] = Inr (element_spec f operator operand)"
proof -
  note m = assms[unfolded has_message_fields_def]
  have fl: "in_flags x fl = Inr (x \<in> set (m_flags f))" for x using m by auto
  have ty: "get_str m ''type'' = Inr (m_type f)" and em: "get_str m ''sender_email'' = Inr (m_sender_email f)"
    using m by (simp_all add: py_simps)
  have st: "get_str m ''display_recipient'' = Inr (m_recipient f)" "get_str m ''subject'' = Inr (m_subject f)"
    if "m_type f = ''stream''"
    using m that by (simp_all add: py_simps)
  consider "operator = ''stream''" | "operator = ''topic''" | "operator = ''sender''" | "operator = ''is''"
    | "operator \<noteq> ''stream'' \<and> operator \<noteq> ''topic'' \<and> operator \<noteq> ''sender'' \<and> operator \<noteq> ''is''"
    by argo
  then show ?thesis
    by cases (auto simp: element_accepts_def element_spec_def nth_or_raise_def ty em fl st)
qed

lemma narrow_filter_spec:
  assumes "has_message_fields m fl f"
    and "map_of event ''message'' = Some (PDict m)" and "map_of event ''flags'' = Some fl"
  shows "narrow_filter (map (\<lambda>(p, d). [p, d]) terms) event =
    Inr (list_all (\<lambda>(p, d). element_spec f p d) terms)"
proof -
  let ?nrw = "map (\<lambda>(p, d). [p, d]) terms"
  have "narrow_loop m fl ?nrw = Inr (list_all (\<lambda>e. element_spec f (e ! 0) (e ! 1)) ?nrw)"
    by (rule narrow_loop_total) (auto simp: element_accepts_spec[OF assms(1)])
  then show ?thesis using assms(2,3)
    by (simp add: narrow_filter_def get_dict_def dget_def list.pred_map comp_def case_prod_unfold)
qed

end
