(* ===== verification/Tornado.thy ===== *)
theory Tornado
  imports EventQueue Narrow
begin

text \<open>
  The state of the Tornado process and the operations on it: the client descriptors and
  their registries (\<open>zerver/tornado/event_queue.py\<close>), the handler table
  (\<open>handlers.py\<close>) and the descriptor table (\<open>descriptors.py\<close>).

  A \<open>ClientDescriptor\<close> object is known by the id of its event queue; the lists of
  descriptors in \<open>user_clients\<close> and \<open>realm_clients_all_streams\<close> are lists of these ids.
  The current time and random numbers are arguments. Logging and statsd are left out.
  An exception that is not caught ends the run (\<open>Inl\<close>).
\<close>

section \<open>State\<close>

record client =
  user_profile_id :: int
  user_profile_email :: string
  client_realm_id :: int
  current_handler_id :: "int option"
  current_client_name :: "string option"
  client_queue :: event_queue
  queue_timeout :: int
  event_types :: "string list option"
  last_connection_time :: rat
  apply_markdown :: bool
  all_public_streams :: bool
  client_type_name :: string
  timeout_handle :: "nat option"
  narrow :: "string list list"

record response =
  resp_handler :: int
  resp_queue_id :: string
  resp_events :: "pydict list"
  resp_apply_markdown :: bool

record tornado =
  heap :: pyheap
  clients :: "(string \<times> client) list"
  user_clients :: "(int \<times> string list) list"
  realm_clients_all_streams :: "(int \<times> string list) list"
  next_queue_id :: int
  handlers :: "int list"
  latest_handler_id :: int
  descriptors_by_handler_id :: "(int \<times> string) list"
  timeouts :: "(nat \<times> string) list"
  next_timeout :: nat
  responses :: "response list"
  published :: "(string \<times> pydict) list"

definition init_tornado :: tornado where
  "init_tornado = \<lparr>heap = empty_heap, clients = [], user_clients = [], realm_clients_all_streams = [],
     next_queue_id = 0, handlers = [], latest_handler_id = 0, descriptors_by_handler_id = [],
     timeouts = [], next_timeout = 0, responses = [], published = []\<rparr>"

definition IDLE_EVENT_QUEUE_TIMEOUT_SECS :: int where
  "IDLE_EVENT_QUEUE_TIMEOUT_SECS = 60 * 10"

definition MAX_QUEUE_TIMEOUT_SECS :: int where
  "MAX_QUEUE_TIMEOUT_SECS = 7 * 24 * 60 * 60"

section \<open>Handlers and descriptors\<close>

definition get_handler_by_id :: "int \<Rightarrow> tornado \<Rightarrow> pyerr + int" where
  "get_handler_by_id hid s = (if hid \<in> set (handlers s) then Inr hid else Inl (KeyError (int_str hid)))"

text \<open>The new handler's id and the table with it.\<close>

definition allocate_handler_id :: "tornado \<Rightarrow> int \<times> tornado" where
  "allocate_handler_id s =
     (let hid = latest_handler_id s
      in (hid, s\<lparr>handlers := handlers s @ [hid], latest_handler_id := hid + 1\<rparr>))"

definition clear_handler_by_id :: "int \<Rightarrow> tornado \<Rightarrow> pyerr + tornado" where
  "clear_handler_by_id hid s =
     (if hid \<in> set (handlers s) then Inr (s\<lparr>handlers := removeAll hid (handlers s)\<rparr>)
      else Inl (KeyError (int_str hid)))"

definition get_descriptor_by_handler_id :: "int \<Rightarrow> tornado \<Rightarrow> string option" where
  "get_descriptor_by_handler_id hid s = map_of (descriptors_by_handler_id s) hid"

definition set_descriptor_by_handler_id :: "int \<Rightarrow> string \<Rightarrow> tornado \<Rightarrow> tornado" where
  "set_descriptor_by_handler_id hid i s =
     s\<lparr>descriptors_by_handler_id := dset hid i (descriptors_by_handler_id s)\<rparr>"

definition clear_descriptor_by_handler_id :: "int \<Rightarrow> tornado \<Rightarrow> pyerr + tornado" where
  "clear_descriptor_by_handler_id hid s =
     (if dhas (descriptors_by_handler_id s) hid
      then Inr (s\<lparr>descriptors_by_handler_id := ddel hid (descriptors_by_handler_id s)\<rparr>)
      else Inl (KeyError (int_str hid)))"

text \<open>
  \<open>finish_handler\<close> writes the response to the waiting request; a handler that is gone
  raises \<open>KeyError\<close>, which it catches and logs. The events are serialised here, so the
  response keeps their values of this moment.
\<close>

definition finish_handler :: "int \<Rightarrow> string \<Rightarrow> nat list \<Rightarrow> bool \<Rightarrow> tornado \<Rightarrow> tornado" where
  "finish_handler hid qid as markdown s =
     (case get_handler_by_id hid s of
        Inl e \<Rightarrow> s
      | Inr _ \<Rightarrow> s\<lparr>responses := responses s @
          [\<lparr>resp_handler = hid, resp_queue_id = qid,
            resp_events = map (\<lambda>a. resolve_dict (heap s) (cell (heap s) a)) as,
            resp_apply_markdown = markdown\<rparr>]\<rparr>)"

section \<open>Client descriptors\<close>

definition get_client :: "string \<Rightarrow> tornado \<Rightarrow> pyerr + client" where
  "get_client i s = the_some (KeyError i) (map_of (clients s) i)"

definition set_client :: "string \<Rightarrow> client \<Rightarrow> tornado \<Rightarrow> tornado" where
  "set_client i c s = s\<lparr>clients := dset i c (clients s)\<rparr>"

text \<open>
  \<open>ClientDescriptor.__init__\<close>: an unsupported narrow raises (\<open>build_narrow_filter\<close>), and
  the requested lifespan is clamped.
\<close>

definition new_client_descriptor ::
  "int \<Rightarrow> string \<Rightarrow> int \<Rightarrow> event_queue \<Rightarrow> string list option \<Rightarrow> string \<Rightarrow> bool \<Rightarrow> bool \<Rightarrow> int \<Rightarrow>
   string list list \<Rightarrow> rat \<Rightarrow> pyerr + client" where
  "new_client_descriptor uid email rid q types ctn markdown all_public lifespan_secs nrw now =
     ebind (build_narrow_filter nrw) (\<lambda>_.
       Inr \<lparr>user_profile_id = uid, user_profile_email = email, client_realm_id = rid,
            current_handler_id = None, current_client_name = None, client_queue = q,
            queue_timeout = max IDLE_EVENT_QUEUE_TIMEOUT_SECS (min lifespan_secs MAX_QUEUE_TIMEOUT_SECS),
            event_types = types, last_connection_time = now, apply_markdown = markdown,
            all_public_streams = all_public, client_type_name = ctn, timeout_handle = None,
            narrow = nrw\<rparr>)"

definition client_to_dict :: "pyheap \<Rightarrow> client \<Rightarrow> pydict" where
  "client_to_dict h c =
     [(''user_profile_id'', PInt (user_profile_id c)),
      (''user_profile_email'', PStr (user_profile_email c)),
      (''realm_id'', PInt (client_realm_id c)),
      (''event_queue'', PDict (eq_to_dict h (client_queue c))),
      (''queue_timeout'', PInt (queue_timeout c)),
      (''event_types'', of_opt (\<lambda>ts. PList (map PStr ts)) (event_types c)),
      (''last_connection_time'', PFloat (last_connection_time c)),
      (''apply_markdown'', PBool (apply_markdown c)),
      (''all_public_streams'', PBool (all_public_streams c)),
      (''narrow'', PList (map (\<lambda>e. PList (map PStr e)) (narrow c))),
      (''client_type_name'', PStr (client_type_name c))]"

text \<open>
  \<open>ClientDescriptor.from_dict\<close>. \<open>email_of\<close> stands for
  \<open>get_user_profile_by_id(...).email\<close>, a database read of the migration code.
\<close>

definition migrate_client_dict :: "(int \<Rightarrow> pyerr + string) \<Rightarrow> pydict \<Rightarrow> pyerr + pydict" where
  "migrate_client_dict email_of d =
     ebind (if dhas d ''user_profile_email'' then Inr d
            else ebind (get_int d ''user_profile_id'') (\<lambda>u. ebind (email_of u) (\<lambda>e.
              Inr (dset ''user_profile_email'' (PStr e) d)))) (\<lambda>d1.
       Inr (case map_of d1 ''client_type'' of None \<Rightarrow> d1 | Some v \<Rightarrow> dset ''client_type_name'' v d1))"

definition client_from_dict :: "(int \<Rightarrow> pyerr + string) \<Rightarrow> rat \<Rightarrow> pydict \<Rightarrow> pyheap \<Rightarrow> pyerr + client \<times> pyheap" where
  "client_from_dict email_of now d h =
     ebind (migrate_client_dict email_of d) (\<lambda>d2.
        ebind (get_int d2 ''user_profile_id'') (\<lambda>uid.
        ebind (get_str d2 ''user_profile_email'') (\<lambda>email.
        ebind (get_int d2 ''realm_id'') (\<lambda>rid.
        ebind (get_dict d2 ''event_queue'') (\<lambda>eqd.
        ebind (eq_from_dict eqd h) (\<lambda>(q, h1).
        ebind (ebind (dget d2 ''event_types'') (as_opt as_str_list)) (\<lambda>types.
        ebind (get_str d2 ''client_type_name'') (\<lambda>ctn.
        ebind (get_bool d2 ''apply_markdown'') (\<lambda>markdown.
        ebind (get_bool d2 ''all_public_streams'') (\<lambda>all_public.
        ebind (get_int d2 ''queue_timeout'') (\<lambda>lifespan.
        ebind (ebind (as_list (dget_default d2 ''narrow'' (PList []))) (emap as_str_list)) (\<lambda>nrw.
        ebind (new_client_descriptor uid email rid q types ctn markdown all_public lifespan nrw now) (\<lambda>c.
        ebind (get_num d2 ''last_connection_time'') (\<lambda>t.
          Inr (c\<lparr>last_connection_time := t\<rparr>, h1)))))))))))))))"

definition accepts_event :: "pyheap \<Rightarrow> client \<Rightarrow> pydict \<Rightarrow> pyerr + bool" where
  "accepts_event h c event =
     ebind (get_str event ''type'') (\<lambda>ty.
       if (case event_types c of None \<Rightarrow> False | Some ts \<Rightarrow> ty \<notin> set ts) then Inr False
       else if ty = ''message'' then narrow_filter (narrow c) (resolve_dict h event)
       else Inr True)"

definition accepts_messages :: "client \<Rightarrow> bool" where
  "accepts_messages c = (case event_types c of None \<Rightarrow> True | Some ts \<Rightarrow> ''message'' \<in> set ts)"

definition idle :: "client \<Rightarrow> rat \<Rightarrow> bool" where
  "idle c now \<longleftrightarrow> current_handler_id c = None \<and>
     now - last_connection_time c \<ge> of_int (queue_timeout c)"

text \<open>
  \<open>disconnect_handler\<close>. The test \<open>if self.current_handler_id:\<close> is false for the handler
  id 0 as well as for \<open>None\<close>.
\<close>

definition disconnect_handler :: "string \<Rightarrow> tornado \<Rightarrow> pyerr + tornado" where
  "disconnect_handler i s =
     ebind (get_client i s) (\<lambda>c.
     ebind (case current_handler_id c of
              None \<Rightarrow> Inr s
            | Some hid \<Rightarrow>
                if hid \<noteq> 0 then ebind (clear_descriptor_by_handler_id hid s) (clear_handler_by_id hid)
                else Inr s) (\<lambda>s1.
     let s2 = (case timeout_handle c of
                 None \<Rightarrow> s1
               | Some t \<Rightarrow> s1\<lparr>timeouts := ddel t (timeouts s1)\<rparr>)
     in Inr (set_client i (c\<lparr>current_handler_id := None, current_client_name := None,
                            timeout_handle := None\<rparr>) s2)))"

definition finish_current_handler :: "string \<Rightarrow> tornado \<Rightarrow> pyerr + bool \<times> tornado" where
  "finish_current_handler i s =
     ebind (get_client i s) (\<lambda>c.
       case current_handler_id c of
         None \<Rightarrow> Inr (False, s)
       | Some hid \<Rightarrow>
           (let (as, q) = contents (heap s) (client_queue c);
                s1 = set_client i (c\<lparr>client_queue := q\<rparr>) s;
                s2 = finish_handler hid (eq_id q) as (apply_markdown c) s1
            in ebind (disconnect_handler i s2) (\<lambda>s3. Inr (True, s3))))"

text \<open>\<open>add_event\<close>: the event object at address \<open>a\<close> is pushed, then a waiting request is answered.\<close>

definition add_event :: "string \<Rightarrow> nat \<Rightarrow> tornado \<Rightarrow> pyerr + tornado" where
  "add_event i a s =
     ebind (get_client i s) (\<lambda>c.
     ebind (case current_handler_id c of None \<Rightarrow> Inr 0 | Some hid \<Rightarrow> get_handler_by_id hid s) (\<lambda>_.
     ebind (push (heap s) (client_queue c) a) (\<lambda>(h, q).
     ebind (finish_current_handler i (set_client i (c\<lparr>client_queue := q\<rparr>) (s\<lparr>heap := h\<rparr>))) (\<lambda>(_, s1).
       Inr s1))))"

text \<open>A new dictionary object for an event.\<close>

definition new_object :: "pydict \<Rightarrow> tornado \<Rightarrow> nat \<times> tornado" where
  "new_object d s = (let (a, h) = hp_new d (heap s) in (a, s\<lparr>heap := h\<rparr>))"

text \<open>
  \<open>connect_handler\<close>; the heartbeat timer is not set for the client of the heartbeat test.
  \<open>fire_timeout\<close> is the I/O loop running \<open>timeout_callback\<close>.
\<close>

definition connect_handler :: "int \<Rightarrow> string \<Rightarrow> rat \<Rightarrow> string \<Rightarrow> tornado \<Rightarrow> pyerr + tornado" where
  "connect_handler hid client_name now i s =
     ebind (get_client i s) (\<lambda>c.
       let c1 = c\<lparr>current_handler_id := Some hid, current_client_name := Some client_name,
                  last_connection_time := now\<rparr>;
           s1 = set_descriptor_by_handler_id hid i s
       in if client_type_name c \<noteq> ''API: heartbeat test'' then
            Inr (set_client i (c1\<lparr>timeout_handle := Some (next_timeout s1)\<rparr>)
              (s1\<lparr>timeouts := dset (next_timeout s1) i (timeouts s1), next_timeout := Suc (next_timeout s1)\<rparr>))
          else Inr (set_client i c1 s1))"

definition fire_timeout :: "nat \<Rightarrow> tornado \<Rightarrow> pyerr + tornado" where
  "fire_timeout t s =
     ebind (the_some (KeyError ''timeout'') (map_of (timeouts s) t)) (\<lambda>i.
     ebind (get_client i s) (\<lambda>c.
       let s1 = set_client i (c\<lparr>timeout_handle := None\<rparr>) (s\<lparr>timeouts := ddel t (timeouts s)\<rparr>);
           (a, s2) = new_object [(''type'', PStr ''heartbeat'')] s1
       in add_event i a s2))"

section \<open>Registries\<close>

definition get_client_descriptor :: "string \<Rightarrow> tornado \<Rightarrow> client option" where
  "get_client_descriptor qid s = map_of (clients s) qid"

text \<open>\<open>d.get(k, [])\<close>\<close>

definition dlist :: "('k \<times> 'a list) list \<Rightarrow> 'k \<Rightarrow> 'a list" where
  "dlist d k = (case map_of d k of None \<Rightarrow> [] | Some l \<Rightarrow> l)"

definition get_client_descriptors_for_user :: "int \<Rightarrow> tornado \<Rightarrow> string list" where
  "get_client_descriptors_for_user uid s = dlist (user_clients s) uid"

definition get_client_descriptors_for_realm_all_streams :: "int \<Rightarrow> tornado \<Rightarrow> string list" where
  "get_client_descriptors_for_realm_all_streams rid s = dlist (realm_clients_all_streams s) rid"

text \<open>\<open>d.setdefault(k, []).append(x)\<close>\<close>

definition dappend :: "'k \<Rightarrow> 'a \<Rightarrow> ('k \<times> 'a list) list \<Rightarrow> ('k \<times> 'a list) list" where
  "dappend k x d = dset k (dlist d k @ [x]) d"

definition in_realm_list :: "client \<Rightarrow> bool" where
  "in_realm_list c \<longleftrightarrow> all_public_streams c \<or> narrow c \<noteq> []"

definition add_to_client_dicts :: "string \<Rightarrow> client \<Rightarrow> tornado \<Rightarrow> tornado" where
  "add_to_client_dicts i c s =
     (let s1 = s\<lparr>user_clients := dappend (user_profile_id c) i (user_clients s)\<rparr>
      in if in_realm_list c
         then s1\<lparr>realm_clients_all_streams := dappend (client_realm_id c) i (realm_clients_all_streams s1)\<rparr>
         else s1)"

text \<open>
  \<open>allocate_client_descriptor\<close>. The counter is advanced before the descriptor is built, also
  when building it raises. \<open>gen\<close> is \<open>settings.SERVER_GENERATION\<close>.
\<close>

definition new_queue_name :: "int \<Rightarrow> int \<Rightarrow> string" where
  "new_queue_name gen n = int_str gen @ '':'' @ int_str n"

definition allocate_client_descriptor ::
  "int \<Rightarrow> (int \<Rightarrow> pyerr + string) \<Rightarrow> rat \<Rightarrow> pydict \<Rightarrow> tornado \<Rightarrow> (pyerr + string) \<times> tornado" where
  "allocate_client_descriptor gen email_of now new_queue_data s =
     (let queue_id = new_queue_name gen (next_queue_id s);
          s1 = s\<lparr>next_queue_id := next_queue_id s + 1\<rparr>;
          d = dset ''event_queue'' (PDict (eq_to_dict (heap s1) (new_event_queue queue_id))) new_queue_data
      in case client_from_dict email_of now d (heap s1) of
           Inl e \<Rightarrow> (Inl e, s1)
         | Inr (c, h) \<Rightarrow> (Inr queue_id, add_to_client_dicts queue_id c (set_client queue_id c (s1\<lparr>heap := h\<rparr>))))"

end
