(* ===== verification/EventDelivery.thy ===== *)
theory EventDelivery
  imports Tornado
begin

text \<open>
  How events reach the client queues: \<open>process_notification\<close> and the three ways it
  dispatches an event, the notifications published for idle users, and the hook that runs
  when the last queue of a user is collected (\<open>zerver/tornado/event_queue.py\<close>).

  The dictionaries of a notification come from JSON, so they are fresh. Two of them are
  then shared: the two message dictionaries of a message event, by the events of all
  clients, and the one event dictionary \<open>process_userdata_event\<close> builds for a user, by
  all queues of this user. Both are heap objects here. \<open>queue_json_publish\<close> is recorded
  in \<open>published\<close>.
\<close>

section \<open>Notifications to offline users\<close>

definition publish :: "string \<Rightarrow> pydict \<Rightarrow> tornado \<Rightarrow> tornado" where
  "publish qname notice s = s\<lparr>published := published s @ [(qname, notice)]\<rparr>"

definition build_offline_notification :: "int \<Rightarrow> int \<Rightarrow> rat \<Rightarrow> pydict" where
  "build_offline_notification uid message_id now =
     [(''user_profile_id'', PInt uid), (''message_id'', PInt message_id), (''timestamp'', PFloat now)]"

text \<open>One event of the loop in \<open>missedmessage_hook\<close>: the notification it asks for, if any.\<close>

record notify_info =
  ni_message_id :: int
  ni_send_push :: bool
  ni_send_email :: bool

definition missed_event :: "pydict \<Rightarrow> pyerr + notify_info option" where
  "missed_event event =
     ebind (get_str event ''type'') (\<lambda>ty.
       if ty \<noteq> ''message'' then Inr None
       else ebind (dget event ''flags'') (\<lambda>fl.
         if \<not> truthy fl then Inr None
         else ebind (in_flags ''mentioned'' fl) (\<lambda>mentioned.
              if \<not> mentioned then Inr None
              else ebind (in_flags ''read'' fl) (\<lambda>rd.
                if rd then Inr None
                else ebind (get_dict event ''message'') (\<lambda>m.
                     ebind (get_int m ''id'') (\<lambda>mid.
                       Inr (Some \<lparr>ni_message_id = mid,
                         ni_send_push = (\<not> truthy (dget_default event ''push_notified'' (PBool False))),
                         ni_send_email = (\<not> truthy (dget_default event ''email_notified'' (PBool False)))\<rparr>)))))))"

definition send_missed :: "rat \<Rightarrow> int \<Rightarrow> tornado \<Rightarrow> notify_info \<Rightarrow> tornado" where
  "send_missed now uid s n =
     (let notice = build_offline_notification uid (ni_message_id n) now;
          s1 = (if ni_send_push n then publish ''missedmessage_mobile_notifications'' notice s else s)
      in if ni_send_email n then publish ''missedmessage_emails'' notice s1 else s1)"

definition missedmessage_hook :: "rat \<Rightarrow> int \<Rightarrow> string \<Rightarrow> bool \<Rightarrow> tornado \<Rightarrow> pyerr + tornado" where
  "missedmessage_hook now uid i last_for_client s =
     (if \<not> last_for_client then Inr s
      else ebind (get_client i s) (\<lambda>c.
        let (as, q) = contents (heap s) (client_queue c);
            s1 = set_client i (c\<lparr>client_queue := q\<rparr>) s
        in ebind (emap (\<lambda>a. missed_event (resolve_dict (heap s) (cell (heap s) a))) as) (\<lambda>infos.
             Inr (foldl (send_missed now uid) s1 (concat (map (case_option [] (\<lambda>n. [n])) infos))))))"

text \<open>
  \<open>receiver_is_idle\<close>. The loop over the presences of a user keeps the newest timestamp of
  an active client.
\<close>

definition newer_active :: "rat option \<Rightarrow> string \<times> pyval \<Rightarrow> pyerr + rat option" where
  "newer_active latest entry =
     ebind (as_dict (snd entry)) (\<lambda>status.
     ebind (case latest of None \<Rightarrow> Inr True
            | Some l \<Rightarrow> ebind (get_num status ''timestamp'') (\<lambda>t. Inr (l < t))) (\<lambda>newer.
       if newer then
         ebind (get_str status ''status'') (\<lambda>st.
           if st = ''active'' then ebind (get_num status ''timestamp'') (\<lambda>t. Inr (Some t))
           else Inr latest)
       else Inr latest))"

definition off_zulip :: "int \<Rightarrow> tornado \<Rightarrow> pyerr + bool" where
  "off_zulip uid s =
     ebind (emap (\<lambda>i. get_client i s) (get_client_descriptors_for_user uid s)) (\<lambda>cs.
       Inr (filter accepts_messages cs = []))"

definition receiver_is_idle :: "rat \<Rightarrow> int \<Rightarrow> (int \<times> pydict) list option \<Rightarrow> tornado \<Rightarrow> pyerr + bool" where
  "receiver_is_idle now uid realm_presences s =
     ebind (off_zulip uid s) (\<lambda>off.
       case realm_presences of
         None \<Rightarrow> Inr off
       | Some ps \<Rightarrow>
           (case map_of ps uid of
              None \<Rightarrow> Inr off
            | Some user_presence \<Rightarrow>
                ebind (efold newer_active None user_presence) (\<lambda>latest.
                  Inr (off \<or> (case latest of None \<Rightarrow> True | Some t \<Rightarrow> now - t > 140)))))"

section \<open>Message events\<close>

text \<open>An entry of \<open>send_to_clients\<close>; the flags are \<open>None\<close> for all-streams clients.\<close>

record send_entry =
  se_flags :: pyval
  se_is_sender :: bool

type_synonym send_map = "(string \<times> send_entry) list"

definition put_client :: "pyval \<Rightarrow> pyval \<Rightarrow> send_map \<Rightarrow> string \<Rightarrow> send_map" where
  "put_client sender_queue_id fl m i =
     dset i \<lparr>se_flags = fl, se_is_sender = (sender_queue_id \<noteq> PNone \<and> PStr i = sender_queue_id)\<rparr> m"

text \<open>One round of the loop over the users: their clients, and the notifications for them.\<close>

definition collect_user ::
  "rat \<Rightarrow> (int \<times> pydict) list \<Rightarrow> pyval \<Rightarrow> int \<Rightarrow> int \<Rightarrow> string \<Rightarrow>
   send_map \<times> (int \<times> pydict) list \<times> tornado \<Rightarrow> pyval \<Rightarrow> pyerr + send_map \<times> (int \<times> pydict) list \<times> tornado" where
  "collect_user now realm_presences sender_queue_id sender_id message_id message_type st user =
     (let (send_to, extra, s) = st
      in ebind (as_dict user) (\<lambda>user_data.
         ebind (get_int user_data ''id'') (\<lambda>uid.
         let fl = dget_default user_data ''flags'' (PList []);
             send_to1 = foldl (put_client sender_queue_id fl) send_to (get_client_descriptors_for_user uid s);
             received_pm = (message_type = ''private'' \<and> uid \<noteq> sender_id)
         in ebind (in_flags ''mentioned'' fl) (\<lambda>mentioned.
            ebind (receiver_is_idle now uid (Some realm_presences) s) (\<lambda>idl.
            let always = truthy (dget_default user_data ''always_push_notify'' (PBool False))
            in if (received_pm \<or> mentioned) \<and> (idl \<or> always) then
                 let notice = build_offline_notification uid message_id now;
                     s1 = publish ''missedmessage_mobile_notifications'' notice s;
                     notified = [(''push_notified'', PBool True)]
                 in if idl then
                      Inr (send_to1, dset uid (dset ''email_notified'' (PBool True) notified) extra,
                           publish ''missedmessage_emails'' notice s1)
                    else Inr (send_to1, dset uid notified extra, s1)
               else Inr (send_to1, extra, s))))))"

text \<open>
  One round of the loop over \<open>send_to_clients\<close>, in its steps: the message dictionary the
  client gets, the assignment of \<open>is_mentioned\<close> in it, the event with its extra fields.
\<close>

definition client_message :: "pydict \<Rightarrow> nat \<Rightarrow> nat \<Rightarrow> client \<Rightarrow> tornado \<Rightarrow> nat \<times> tornado" where
  "client_message event_template md no_md c s =
     (let a = (if apply_markdown c then md else no_md);
          invite_only = truthy (dget_default event_template ''invite_only'' PNone)
      in if str_contains (client_type_name c) ''mirror'' \<and> invite_only
         then new_object (dset ''invite_only_stream'' (PBool True) (cell (heap s) a)) s
         else (a, s))"

definition set_mentioned :: "pyval \<Rightarrow> nat \<Rightarrow> tornado \<Rightarrow> pyerr + tornado" where
  "set_mentioned fl a s =
     (if fl \<noteq> PNone
      then ebind (in_flags ''mentioned'' fl) (\<lambda>mentioned.
             Inr (s\<lparr>heap := hp_set a ''is_mentioned'' (PBool mentioned) (heap s)\<rparr>))
      else Inr s)"

definition client_event :: "pydict \<Rightarrow> (int \<times> pydict) list \<Rightarrow> send_entry \<Rightarrow> client \<Rightarrow> nat \<Rightarrow> pydict" where
  "client_event event_template extra entry c a =
     (let ev0 = [(''type'', PStr ''message''), (''message'', PObj a), (''flags'', se_flags entry)];
          ev1 = (case map_of extra (user_profile_id c) of None \<Rightarrow> ev0 | Some x \<Rightarrow> dupdate ev0 x);
          local_id = dget_default event_template ''local_id'' PNone
      in if se_is_sender entry \<and> local_id \<noteq> PNone then dset ''local_message_id'' local_id ev1 else ev1)"

definition send_message_event ::
  "pydict \<Rightarrow> nat \<Rightarrow> nat \<Rightarrow> string \<Rightarrow> (int \<times> pydict) list \<Rightarrow> tornado \<Rightarrow> string \<times> send_entry \<Rightarrow> pyerr + tornado" where
  "send_message_event event_template md no_md sending_client extra s e =
     (let (i, entry) = e
      in ebind (get_client i s) (\<lambda>c.
         if \<not> accepts_messages c then Inr s
         else
           let (a, s1) = client_message event_template md no_md c s
           in ebind (set_mentioned (se_flags entry) a s1) (\<lambda>s2.
              let user_event = client_event event_template extra entry c a;
                  (ea, s3) = new_object user_event s2
              in ebind (accepts_event (heap s3) c user_event) (\<lambda>ok.
                   if \<not> ok then Inr s3
                   else if str_contains sending_client ''mirror'' \<and>
                           str_lower sending_client = str_lower (client_type_name c) then Inr s3
                   else add_event i ea s3))))"

text \<open>\<open>{int(k): v for k, v in presences.items()}\<close>\<close>

definition int_keys :: "pydict \<Rightarrow> pyerr + (int \<times> pydict) list" where
  "int_keys d = efold (\<lambda>acc (k, v). ebind (parse_int k) (\<lambda>i. ebind (as_dict v) (\<lambda>p. Inr (dset i p acc)))) [] d"

definition process_message_event :: "rat \<Rightarrow> pydict \<Rightarrow> pyval list \<Rightarrow> tornado \<Rightarrow> pyerr + tornado" where
  "process_message_event now event_template users s =
     ebind (get_dict event_template ''presences'') (\<lambda>pr.
     ebind (int_keys pr) (\<lambda>realm_presences.
     let sender_queue_id = dget_default event_template ''sender_queue_id'' PNone
     in ebind (get_dict event_template ''message_dict_markdown'') (\<lambda>mdd.
        ebind (get_dict event_template ''message_dict_no_markdown'') (\<lambda>nmdd.
        ebind (get_int mdd ''sender_id'') (\<lambda>sender_id.
        ebind (get_int mdd ''id'') (\<lambda>message_id.
        ebind (get_str mdd ''type'') (\<lambda>message_type.
        ebind (get_str mdd ''client'') (\<lambda>sending_client.
        let (md, s1) = new_object mdd s;
            (no_md, s2) = new_object nmdd s1
        in ebind (if dhas event_template ''stream_name'' \<and>
                     \<not> truthy (dget_default event_template ''invite_only'' PNone)
                  then ebind (get_int event_template ''realm_id'') (\<lambda>rid.
                         Inr (foldl (put_client sender_queue_id PNone) []
                               (get_client_descriptors_for_realm_all_streams rid s2)))
                  else Inr []) (\<lambda>send_to.
           ebind (efold (collect_user now realm_presences sender_queue_id sender_id message_id message_type)
                    (send_to, [], s2) users) (\<lambda>(send_to1, extra, s3).
             efold (send_message_event event_template md no_md sending_client extra) s3 send_to1))))))))))"

section \<open>Other events\<close>

text \<open>\<open>process_event\<close> gives every client a copy of the event.\<close>

definition deliver_copy :: "pydict \<Rightarrow> tornado \<Rightarrow> string \<Rightarrow> pyerr + tornado" where
  "deliver_copy event s i =
     ebind (get_client i s) (\<lambda>c.
     ebind (accepts_event (heap s) c event) (\<lambda>ok.
       if ok then let (a, s1) = new_object event s in add_event i a s1
       else Inr s))"

definition process_event :: "pydict \<Rightarrow> pyval list \<Rightarrow> tornado \<Rightarrow> pyerr + tornado" where
  "process_event event users s =
     efold (\<lambda>s u. ebind (as_int u) (\<lambda>uid.
       efold (deliver_copy event) s (get_client_descriptors_for_user uid s))) s users"

text \<open>\<open>process_userdata_event\<close> builds one event object per user and gives it to all their clients.\<close>

definition deliver_shared :: "nat \<Rightarrow> tornado \<Rightarrow> string \<Rightarrow> pyerr + tornado" where
  "deliver_shared a s i =
     ebind (get_client i s) (\<lambda>c.
     ebind (accepts_event (heap s) c (cell (heap s) a)) (\<lambda>ok.
       if ok then add_event i a s else Inr s))"

definition process_userdata_event :: "pydict \<Rightarrow> pyval list \<Rightarrow> tornado \<Rightarrow> pyerr + tornado" where
  "process_userdata_event event_template users s =
     efold (\<lambda>s u. ebind (as_dict u) (\<lambda>user_data. ebind (get_int user_data ''id'') (\<lambda>uid.
       let (a, s1) = new_object (dupdate event_template (filter (\<lambda>(k, v). k \<noteq> ''id'') user_data)) s
       in efold (deliver_shared a) s1 (get_client_descriptors_for_user uid s1)))) s users"

definition process_notification :: "rat \<Rightarrow> pydict \<Rightarrow> tornado \<Rightarrow> pyerr + tornado" where
  "process_notification now notice s =
     ebind (get_dict notice ''event'') (\<lambda>event.
     ebind (get_list notice ''users'') (\<lambda>users.
     ebind (get_str event ''type'') (\<lambda>ty.
       if ty \<in> {''update_message'', ''delete_message''} then process_userdata_event event users s
       else if ty = ''message'' then process_message_event now event users s
       else process_event event users s)))"

text \<open>\<open>send_restart_events\<close>: every client that takes restart events gets a copy.\<close>

definition send_restart_events :: "int \<Rightarrow> bool \<Rightarrow> tornado \<Rightarrow> pyerr + tornado" where
  "send_restart_events gen immediate s =
     (let event = [(''type'', PStr ''restart''), (''server_generation'', PInt gen)] @
                  (if immediate then [(''immediate'', PBool True)] else [])
      in efold (deliver_copy event) s (map fst (clients s)))"

end
