(* ===== verification/TornadoRequests.thy ===== *)
theory TornadoRequests
  imports EventDelivery
begin

text \<open>
  Requests against the Tornado process: \<open>fetch_events\<close> and the views that call it, cleanup
  and garbage collection of queues, and the dump of all queues to disk and back
  (\<open>zerver/tornado/event_queue.py\<close>, \<open>zerver/tornado/views.py\<close>).
\<close>

section \<open>Garbage collection\<close>

text \<open>The sets of \<open>do_gc_event_queues\<close> are lists without repetition, in the order they are visited.\<close>

definition filter_client_dict :: "string list \<Rightarrow> (int \<times> string list) list \<Rightarrow> int \<Rightarrow> (int \<times> string list) list" where
  "filter_client_dict to_remove client_dict key =
     (case map_of client_dict key of
        None \<Rightarrow> client_dict
      | Some l \<Rightarrow>
          (let new_client_list = filter (\<lambda>i. i \<notin> set to_remove) l
           in if new_client_list = [] then ddel key client_dict
              else dset key new_client_list client_dict))"

type_synonym gc_hook = "int \<Rightarrow> string \<Rightarrow> bool \<Rightarrow> tornado \<Rightarrow> pyerr + tornado"

definition remove_client :: "gc_hook list \<Rightarrow> tornado \<Rightarrow> string \<Rightarrow> pyerr + tornado" where
  "remove_client hooks s i =
     ebind (efold (\<lambda>s cb. ebind (get_client i s) (\<lambda>c.
              cb (user_profile_id c) i (\<not> dhas (user_clients s) (user_profile_id c)) s)) s hooks) (\<lambda>s1.
     ebind (get_client i s1) (\<lambda>_. Inr (s1\<lparr>clients := ddel i (clients s1)\<rparr>)))"

definition do_gc_event_queues ::
  "gc_hook list \<Rightarrow> string list \<Rightarrow> int list \<Rightarrow> int list \<Rightarrow> tornado \<Rightarrow> pyerr + tornado" where
  "do_gc_event_queues hooks to_remove affected_users affected_realms s =
     (let s1 = s\<lparr>user_clients := foldl (filter_client_dict to_remove) (user_clients s) affected_users\<rparr>;
          s2 = s1\<lparr>realm_clients_all_streams :=
                 foldl (filter_client_dict to_remove) (realm_clients_all_streams s1) affected_realms\<rparr>
      in efold (remove_client hooks) s2 to_remove)"

text \<open>The hook registered by \<open>runtornado\<close> is \<open>missedmessage_hook\<close>.\<close>

definition gc_hooks :: "rat \<Rightarrow> gc_hook list" where
  "gc_hooks now = [missedmessage_hook now]"

definition gc_event_queues :: "rat \<Rightarrow> tornado \<Rightarrow> pyerr + tornado" where
  "gc_event_queues start s =
     (let dead = filter (\<lambda>(i, c). idle c start) (clients s)
      in do_gc_event_queues (gc_hooks start) (map fst dead)
           (remdups (map (\<lambda>(i, c). user_profile_id c) dead))
           (remdups (map (\<lambda>(i, c). client_realm_id c) dead)) s)"

text \<open>\<open>ClientDescriptor.cleanup\<close>\<close>

definition cleanup :: "rat \<Rightarrow> string \<Rightarrow> tornado \<Rightarrow> pyerr + tornado" where
  "cleanup now i s =
     ebind (finish_current_handler i s) (\<lambda>(_, s1).
     ebind (get_client i s1) (\<lambda>c.
       do_gc_event_queues (gc_hooks now) [i] [user_profile_id c] [client_realm_id c] s1))"

section \<open>Dump and load\<close>

text \<open>The list that \<open>dump_event_queues\<close> writes as JSON, and \<open>load_event_queues\<close> reads back.\<close>

definition dump_event_queues :: "tornado \<Rightarrow> (string \<times> pydict) list" where
  "dump_event_queues s = map (\<lambda>(qid, c). (qid, client_to_dict (heap s) c)) (clients s)"

fun load_clients :: "(int \<Rightarrow> pyerr + string) \<Rightarrow> rat \<Rightarrow> (string \<times> pydict) list \<Rightarrow> pyheap \<Rightarrow>
   pyerr + (string \<times> client) list \<times> pyheap" where
  "load_clients email_of now [] h = Inr ([], h)"
| "load_clients email_of now ((qid, d) # rest) h =
     ebind (client_from_dict email_of now d h) (\<lambda>(c, h1).
     ebind (load_clients email_of now rest h1) (\<lambda>(cs, h2). Inr ((qid, c) # cs, h2)))"

text \<open>
  \<open>None\<close> is a file that cannot be read. An entry that cannot be restored is logged, and the
  clients stay as they were.
\<close>

definition load_event_queues :: "(int \<Rightarrow> pyerr + string) \<Rightarrow> rat \<Rightarrow> (string \<times> pydict) list option \<Rightarrow> tornado \<Rightarrow> tornado" where
  "load_event_queues email_of now stored s =
     (let s1 = (case stored of
                  None \<Rightarrow> s
                | Some l \<Rightarrow>
                    (case load_clients email_of now l (heap s) of
                       Inl e \<Rightarrow> s
                     | Inr (cs, h) \<Rightarrow> s\<lparr>clients := fold (\<lambda>(k, v). dset k v) cs [], heap := h\<rparr>))
      in foldl (\<lambda>s (i, c). add_to_client_dicts i c s) s1 (clients s1))"

section \<open>fetch_events\<close>

record events_query =
  q_user_profile_id :: int
  q_queue_id :: "string option"
  q_last_event_id :: "int option"
  q_client_type_name :: string
  q_dont_block :: bool
  q_handler_id :: int
  q_new_queue_data :: pydict

text \<open>
  The dictionary \<open>fetch_events\<close> returns: a response with the events and, for a new queue,
  its id; an error to raise in the caller; or nothing yet.
\<close>

datatype fetch_result =
    Response "pydict list" int "string option"
  | FetchError pyerr
  | Async

text \<open>From the test of the queue on: answer now, or leave the handler waiting.\<close>

definition answer_or_wait :: "rat \<Rightarrow> events_query \<Rightarrow> string \<Rightarrow> tornado \<Rightarrow> pyerr + fetch_result \<times> tornado" where
  "answer_or_wait now query i s =
     ebind (get_client i s) (\<lambda>c.
       if \<not> empty (client_queue c) \<or> q_dont_block query then
         let (as, q) = contents (heap s) (client_queue c);
             s1 = set_client i (c\<lparr>client_queue := q\<rparr>) s
         in Inr (Response (map (\<lambda>a. resolve_dict (heap s) (cell (heap s) a)) as) (q_handler_id query)
                   (if q_queue_id query = None then Some i else None), s1)
       else
         ebind (connect_handler (q_handler_id query) (q_client_type_name query) now i s) (\<lambda>s1.
           Inr (Async, s1)))"

definition fetch_events ::
  "int \<Rightarrow> (int \<Rightarrow> pyerr + string) \<Rightarrow> rat \<Rightarrow> events_query \<Rightarrow> tornado \<Rightarrow> pyerr + fetch_result \<times> tornado" where
  "fetch_events gen email_of now query s =
     (case q_queue_id query of
        None \<Rightarrow>
          if q_dont_block query then
            (case allocate_client_descriptor gen email_of now (q_new_queue_data query) s of
               (Inl (JsonableError m), s1) \<Rightarrow> Inr (FetchError (JsonableError m), s1)
             | (Inl e, s1) \<Rightarrow> Inl e
             | (Inr i, s1) \<Rightarrow> answer_or_wait now query i s1)
          else Inr (FetchError (JsonableError ''Missing 'queue_id' argument''), s)
      | Some qid \<Rightarrow>
          (case q_last_event_id query of
             None \<Rightarrow> Inr (FetchError (JsonableError ''Missing 'last_event_id' argument''), s)
           | Some last_event_id \<Rightarrow>
               (case get_client_descriptor qid s of
                  None \<Rightarrow> Inr (FetchError (JsonableError (''Bad event queue id: '' @ qid)), s)
                | Some c \<Rightarrow>
                    if q_user_profile_id query \<noteq> user_profile_id c then
                      Inr (FetchError (JsonableError ''You are not authorized to get events from this queue''), s)
                    else
                      let s1 = set_client qid
                                 (c\<lparr>client_queue := prune (heap s) last_event_id (client_queue c)\<rparr>) s
                      in ebind (finish_current_handler qid s1) (\<lambda>(was_connected, s2).
                           answer_or_wait now query qid s2))))"

section \<open>Views\<close>

text \<open>
  \<open>get_events_backend\<close> with its parsed request variables. A synchronous answer clears the
  handler (\<open>AsyncDjangoHandler.get_response\<close>), also when the view raises.
\<close>

record events_request =
  r_user_id :: int
  r_email :: string
  r_realm_id :: int
  r_client_name :: string
  r_last_event_id :: "int option"
  r_queue_id :: "string option"
  r_apply_markdown :: bool
  r_all_public_streams :: bool
  r_event_types :: "string list option"
  r_dont_block :: bool
  r_narrow :: "string list list"
  r_lifespan_secs :: int

definition new_queue_data :: "rat \<Rightarrow> events_request \<Rightarrow> pydict" where
  "new_queue_data now r =
     [(''user_profile_id'', PInt (r_user_id r)), (''realm_id'', PInt (r_realm_id r)),
      (''user_profile_email'', PStr (r_email r)),
      (''event_types'', of_opt (\<lambda>ts. PList (map PStr ts)) (r_event_types r)),
      (''client_type_name'', PStr (r_client_name r)),
      (''apply_markdown'', PBool (r_apply_markdown r)),
      (''all_public_streams'', PBool (r_all_public_streams r)),
      (''queue_timeout'', PInt (r_lifespan_secs r)),
      (''last_connection_time'', PFloat now),
      (''narrow'', PList (map (\<lambda>e. PList (map PStr e)) (r_narrow r)))]"

definition get_events_backend ::
  "int \<Rightarrow> (int \<Rightarrow> pyerr + string) \<Rightarrow> rat \<Rightarrow> events_request \<Rightarrow> int \<Rightarrow> tornado \<Rightarrow> pyerr + fetch_result \<times> tornado" where
  "get_events_backend gen email_of now r hid s =
     fetch_events gen email_of now
       \<lparr>q_user_profile_id = r_user_id r, q_queue_id = r_queue_id r, q_last_event_id = r_last_event_id r,
        q_client_type_name = r_client_name r, q_dont_block = r_dont_block r, q_handler_id = hid,
        q_new_queue_data = (if r_queue_id r = None then new_queue_data now r else [])\<rparr> s"

definition handle_events_request ::
  "int \<Rightarrow> (int \<Rightarrow> pyerr + string) \<Rightarrow> rat \<Rightarrow> events_request \<Rightarrow> tornado \<Rightarrow> pyerr + fetch_result \<times> tornado" where
  "handle_events_request gen email_of now r s =
     (let (hid, s1) = allocate_handler_id s
      in ebind (get_events_backend gen email_of now r hid s1) (\<lambda>(res, s2).
           case res of
             Async \<Rightarrow> Inr (Async, s2)
           | _ \<Rightarrow> ebind (clear_handler_by_id hid s2) (\<lambda>s3. Inr (res, s3))))"

text \<open>\<open>cleanup_event_queue\<close>: the error it raises or returns, or success.\<close>

definition cleanup_event_queue :: "rat \<Rightarrow> int \<Rightarrow> string \<Rightarrow> tornado \<Rightarrow> pyerr + pyerr option \<times> tornado" where
  "cleanup_event_queue now uid qid s =
     (case get_client_descriptor qid s of
        None \<Rightarrow> Inr (Some (JsonableError (''Bad event queue id: '' @ qid)), s)
      | Some c \<Rightarrow>
          if uid \<noteq> user_profile_id c
          then Inr (Some (JsonableError ''You are not authorized to access this queue''), s)
          else ebind (cleanup now qid s) (\<lambda>s1. Inr (None, s1)))"

definition handle_cleanup_request :: "rat \<Rightarrow> int \<Rightarrow> string \<Rightarrow> tornado \<Rightarrow> pyerr + pyerr option \<times> tornado" where
  "handle_cleanup_request now uid qid s =
     (let (hid, s1) = allocate_handler_id s
      in ebind (cleanup_event_queue now uid qid s1) (\<lambda>(res, s2).
           ebind (clear_handler_by_id hid s2) (\<lambda>s3. Inr (res, s3))))"

text \<open>
  \<open>AsyncDjangoHandler.on_connection_close\<close>. A descriptor that was collected has neither a
  handler nor a timer, so disconnecting it does nothing.
\<close>

definition on_connection_close :: "int \<Rightarrow> tornado \<Rightarrow> pyerr + tornado" where
  "on_connection_close hid s =
     (case get_descriptor_by_handler_id hid s of
        None \<Rightarrow> Inr s
      | Some i \<Rightarrow> if dhas (clients s) i then disconnect_handler i s else Inr s)"

end
