(* ===== verification/TornadoInv.thy ===== *)
theory TornadoInv
  imports TornadoRequests
begin

text \<open>
  Frame and invariant lemmas of the Tornado state: which parts of it an operation leaves
  alone (\<open>registry\<close>), the well-formedness of all queues together with the separation of
  their events (\<open>queues_wf\<close>), and what delivering one event does to the queues.
\<close>

section \<open>The registry part of the state\<close>

text \<open>The part of a descriptor that is fixed when it is made.\<close>

definition static :: "client \<Rightarrow> client" where
  "static c = c\<lparr>current_handler_id := None, current_client_name := None,
     client_queue := new_event_queue (eq_id (client_queue c)), last_connection_time := 0,
     timeout_handle := None\<rparr>"

definition registry ::
  "tornado \<Rightarrow> (string \<times> client) list \<times> (int \<times> string list) list \<times> (int \<times> string list) list \<times> int" where
  "registry s = (map (map_prod id static) (clients s), user_clients s, realm_clients_all_streams s, next_queue_id s)"

lemma static_fields [simp]:
  "user_profile_id (static c) = user_profile_id c" "client_realm_id (static c) = client_realm_id c"
  "event_types (static c) = event_types c" "narrow (static c) = narrow c"
  "all_public_streams (static c) = all_public_streams c" "apply_markdown (static c) = apply_markdown c"
  "client_type_name (static c) = client_type_name c" "eq_id (client_queue (static c)) = eq_id (client_queue c)"
  by (simp_all add: static_def new_event_queue_def)

lemma static_eqD:
  assumes "static c = static d"
  shows "user_profile_id c = user_profile_id d" "client_realm_id c = client_realm_id d"
    "event_types c = event_types d" "narrow c = narrow d"
    "all_public_streams c = all_public_streams d" "eq_id (client_queue c) = eq_id (client_queue d)"
  using assms static_fields by metis+

lemma static_updates [simp]:
  "static (c\<lparr>current_handler_id := x1\<rparr>) = static c" "static (c\<lparr>current_client_name := x2\<rparr>) = static c"
  "static (c\<lparr>last_connection_time := x3\<rparr>) = static c" "static (c\<lparr>timeout_handle := x4\<rparr>) = static c"
  "eq_id q = eq_id (client_queue c) \<Longrightarrow> static (c\<lparr>client_queue := q\<rparr>) = static c"
  by (simp_all add: static_def)

lemma get_client_iff [simp]: "get_client i s = Inr c \<longleftrightarrow> map_of (clients s) i = Some c"
  by (simp add: get_client_def)

lemma map_dset_same: "map_of d k = Some c \<Longrightarrow> f c' = f c \<Longrightarrow>
    map (map_prod id f) (dset k c' d) = map (map_prod id f) d"
  by (induction d) (auto split: if_splits)

lemma registry_set_client:
  "map_of (clients s) i = Some c \<Longrightarrow> static c' = static c \<Longrightarrow> registry (set_client i c' s) = registry s"
  by (simp add: registry_def set_client_def map_dset_same)

lemma set_client_fields [simp]:
  "heap (set_client i c s) = heap s" "user_clients (set_client i c s) = user_clients s"
  "realm_clients_all_streams (set_client i c s) = realm_clients_all_streams s"
  "next_queue_id (set_client i c s) = next_queue_id s" "handlers (set_client i c s) = handlers s"
  "latest_handler_id (set_client i c s) = latest_handler_id s"
  "descriptors_by_handler_id (set_client i c s) = descriptors_by_handler_id s"
  "timeouts (set_client i c s) = timeouts s" "next_timeout (set_client i c s) = next_timeout s"
  "responses (set_client i c s) = responses s" "published (set_client i c s) = published s"
  "map_of (clients (set_client i c s)) = (map_of (clients s))(i \<mapsto> c)"
  by (simp_all add: set_client_def)

lemma registry_updates [simp]:
  "registry (s\<lparr>heap := h\<rparr>) = registry s" "registry (s\<lparr>handlers := hs\<rparr>) = registry s"
  "registry (s\<lparr>descriptors_by_handler_id := ds\<rparr>) = registry s" "registry (s\<lparr>timeouts := ts\<rparr>) = registry s"
  "registry (s\<lparr>next_timeout := nt\<rparr>) = registry s" "registry (s\<lparr>responses := rs\<rparr>) = registry s"
  "registry (s\<lparr>published := ps\<rparr>) = registry s" "registry (s\<lparr>latest_handler_id := l\<rparr>) = registry s"
  by (simp_all add: registry_def)

text \<open>Two states with the same registry have the same clients up to their dynamic parts.\<close>

lemma registry_clients:
  assumes "registry s' = registry s"
  shows "map_option static (map_of (clients s') i) = map_option static (map_of (clients s) i)"
proof -
  have "map_of (map (map_prod id static) (clients t)) i = map_option static (map_of (clients t) i)" for t
    by (induction "clients t" rule: list.induct) (auto simp: map_of_map map_prod_def id_def)
  moreover have "map (map_prod id static) (clients s') = map (map_prod id static) (clients s)"
    using assms by (simp add: registry_def)
  ultimately show ?thesis by metis
qed

lemma registry_ids: "registry s' = registry s \<Longrightarrow> map fst (clients s') = map fst (clients s)"
  by (auto simp: registry_def dest: arg_cong[of _ _ "map fst"])

section \<open>What the handler operations change\<close>

lemma finish_handler_fields [simp]:
  "heap (finish_handler hid qid as m s) = heap s" "clients (finish_handler hid qid as m s) = clients s"
  "registry (finish_handler hid qid as m s) = registry s"
  "handlers (finish_handler hid qid as m s) = handlers s"
  "descriptors_by_handler_id (finish_handler hid qid as m s) = descriptors_by_handler_id s"
  "timeouts (finish_handler hid qid as m s) = timeouts s"
  "next_timeout (finish_handler hid qid as m s) = next_timeout s"
  "published (finish_handler hid qid as m s) = published s"
  by (auto simp: finish_handler_def registry_def split: sum.splits)

text \<open>A disconnect changes the descriptor's handler fields, and the tables of handlers and timers.\<close>

lemma disconnect_handler_effect:
  assumes "disconnect_handler i s = Inr s'" and c: "map_of (clients s) i = Some c"
  shows "heap s' = heap s" "registry s' = registry s" "published s' = published s" "responses s' = responses s"
    "map_of (clients s') = (map_of (clients s))(i \<mapsto> c\<lparr>current_handler_id := None,
       current_client_name := None, timeout_handle := None\<rparr>)"
  using assms
  by (auto simp: disconnect_handler_def clear_descriptor_by_handler_id_def clear_handler_by_id_def
      Let_def split: option.splits if_splits intro!: trans[OF registry_set_client[where c = c]])

text \<open>
  After \<open>finish_current_handler\<close> the client has no handler; if it had one, its events were
  merged and sent, and nothing of another client changed.
\<close>

definition fetched :: "pyheap \<Rightarrow> client \<Rightarrow> client" where
  "fetched h c = c\<lparr>client_queue := snd (contents h (client_queue c)), current_handler_id := None,
     current_client_name := None, timeout_handle := None\<rparr>"

lemma static_fetched [simp]: "static (fetched h c) = static c"
  by (simp add: fetched_def)

lemma finish_current_handler_effect:
  assumes "finish_current_handler i s = Inr (b, s')" and c: "map_of (clients s) i = Some c"
  shows "heap s' = heap s" "registry s' = registry s" "published s' = published s"
    "b \<longleftrightarrow> current_handler_id c \<noteq> None"
    "map_of (clients s') = (if b then (map_of (clients s))(i \<mapsto> fetched (heap s) c) else map_of (clients s))"
proof -
  have "heap s' = heap s \<and> registry s' = registry s \<and> published s' = published s \<and>
    (b \<longleftrightarrow> current_handler_id c \<noteq> None) \<and>
    map_of (clients s') = (if b then (map_of (clients s))(i \<mapsto> fetched (heap s) c) else map_of (clients s))"
  proof (cases "current_handler_id c")
    case None
    then show ?thesis using assms by (auto simp: finish_current_handler_def)
  next
    case (Some hid)
    obtain as q where cq: "contents (heap s) (client_queue c) = (as, q)" by fastforce
    let ?c1 = "c\<lparr>client_queue := q\<rparr>"
    let ?s2 = "finish_handler hid (eq_id q) as (apply_markdown c) (set_client i ?c1 s)"
    have q: "q = snd (contents (heap s) (client_queue c))" using cq by simp
    have dis: "disconnect_handler i ?s2 = Inr s'" and b: "b"
      using assms Some cq by (auto simp: finish_current_handler_def Let_def)
    have c1: "map_of (clients ?s2) i = Some ?c1" by simp
    have "registry (set_client i ?c1 s) = registry s"
      using c q by (intro registry_set_client) auto
    then show ?thesis
      using disconnect_handler_effect[OF dis c1] Some b q c
      by (auto simp: fetched_def fun_upd_twist)
  qed
  then show "heap s' = heap s" "registry s' = registry s" "published s' = published s"
    "b \<longleftrightarrow> current_handler_id c \<noteq> None"
    "map_of (clients s') = (if b then (map_of (clients s))(i \<mapsto> fetched (heap s) c) else map_of (clients s))"
    by blast+
qed

text \<open>Pushing an event and answering a waiting request.\<close>

lemma add_event_effect:
  assumes "add_event i a s = Inr s'" and c: "map_of (clients s) i = Some c"
  obtains h q where "push (heap s) (client_queue c) a = Inr (h, q)"
    "heap s' = h" "registry s' = registry s" "published s' = published s"
    "map_of (clients s') = (map_of (clients s))(i \<mapsto>
       (if current_handler_id c = None then c\<lparr>client_queue := q\<rparr> else fetched h (c\<lparr>client_queue := q\<rparr>)))"
proof -
  obtain h q b where push: "push (heap s) (client_queue c) a = Inr (h, q)"
    and fin: "finish_current_handler i (set_client i (c\<lparr>client_queue := q\<rparr>) (s\<lparr>heap := h\<rparr>)) = Inr (b, s')"
    using assms by (auto simp: add_event_def)
  let ?s1 = "set_client i (c\<lparr>client_queue := q\<rparr>) (s\<lparr>heap := h\<rparr>)"
  have c1: "map_of (clients ?s1) i = Some (c\<lparr>client_queue := q\<rparr>)" by simp
  have "registry ?s1 = registry (s\<lparr>heap := h\<rparr>)"
    using c push_frame(5)[OF push] by (intro registry_set_client) auto
  with finish_current_handler_effect[OF fin c1] push show ?thesis
    by (intro that[of h q]) (auto simp: fun_eq_iff)
qed

section \<open>All queues together\<close>

definition cq :: "tornado \<Rightarrow> string \<Rightarrow> event_queue option" where
  "cq s i = map_option client_queue (map_of (clients s) i)"

definition cview :: "tornado \<Rightarrow> string \<Rightarrow> view option" where
  "cview s i = map_option (eq_view (heap s)) (cq s i)"

text \<open>Every queue is well-formed and no event object is in two queues.\<close>

definition queues_wf :: "tornado \<Rightarrow> bool" where
  "queues_wf s \<longleftrightarrow>
     (\<forall>i q. cq s i = Some q \<longrightarrow> eq_wf (heap s) q) \<and>
     (\<forall>i j p q. cq s i = Some p \<longrightarrow> cq s j = Some q \<longrightarrow> i \<noteq> j \<longrightarrow>
        set (eq_addrs p) \<inter> set (eq_addrs q) = {})"

definition unused :: "tornado \<Rightarrow> nat \<Rightarrow> bool" where
  "unused s a \<longleftrightarrow> a < hp_next (heap s) \<and> (\<forall>i q. cq s i = Some q \<longrightarrow> a \<notin> set (eq_addrs q))"

lemma queues_wfD: "queues_wf s \<Longrightarrow> cq s i = Some q \<Longrightarrow> eq_wf (heap s) q"
  by (simp add: queues_wf_def)

lemma queues_wf_disj:
  "queues_wf s \<Longrightarrow> cq s i = Some p \<Longrightarrow> cq s j = Some q \<Longrightarrow> i \<noteq> j \<Longrightarrow>
   b \<in> set (eq_addrs p) \<Longrightarrow> b \<notin> set (eq_addrs q)"
  unfolding queues_wf_def by blast

lemma cqI: "map_of (clients s) i = Some c \<Longrightarrow> cq s i = Some (client_queue c)"
  by (simp add: cq_def)

text \<open>Changing one queue, and the heap only where no other queue looks.\<close>

lemma queues_wf_change:
  assumes wf: "queues_wf s" and i: "cq s i = Some p" and q: "eq_wf (heap s') q"
    and cq': "cq s' = (cq s)(i \<mapsto> q)"
    and le: "hp_next (heap s) \<le> hp_next (heap s')"
    and addrs: "set (eq_addrs q) \<subseteq> set (eq_addrs p) \<union> N"
    and new: "\<And>j r. cq s j = Some r \<Longrightarrow> N \<inter> set (eq_addrs r) = {}"
    and frame: "\<And>j r b. cq s j = Some r \<Longrightarrow> j \<noteq> i \<Longrightarrow> b \<in> set (eq_addrs r) \<Longrightarrow>
      cell (heap s') b = cell (heap s) b"
  shows "queues_wf s'" and "j \<noteq> i \<Longrightarrow> cview s' j = cview s j"
proof -
  have other: "eq_wf (heap s') r" if "cq s j = Some r" "j \<noteq> i" for j r
    using frame[OF that] le queues_wfD[OF wf that(1)] by (rule eq_wf_cong)
  have disj: "set (eq_addrs q) \<inter> set (eq_addrs r) = {}" if "cq s j = Some r" "j \<noteq> i" for j r
  proof -
    have "set (eq_addrs p) \<inter> set (eq_addrs r) = {}" using wf i that by (auto simp: queues_wf_def)
    then show ?thesis using addrs new[OF that(1)] by blast
  qed
  show "queues_wf s'"
    unfolding queues_wf_def cq'
  proof (intro conjI allI impI)
    fix j r assume "((cq s)(i \<mapsto> q)) j = Some r"
    then show "eq_wf (heap s') r" using other q by (cases "j = i") auto
  next
    fix j k r t
    assume "((cq s)(i \<mapsto> q)) j = Some r" "((cq s)(i \<mapsto> q)) k = Some t" "j \<noteq> k"
    then show "set (eq_addrs r) \<inter> set (eq_addrs t) = {}"
      using disj wf by (cases "j = i"; cases "k = i") (auto simp: queues_wf_def)
  qed
  show "cview s' j = cview s j" if "j \<noteq> i"
  proof (cases "cq s j")
    case None
    then show ?thesis using that cq' by (simp add: cview_def)
  next
    case (Some r)
    have "tagged (heap s') r = tagged (heap s) r" by (intro tagged_cong frame[OF Some that])
    then show ?thesis using Some that cq' by (simp add: cview_def eq_view_def)
  qed
qed

text \<open>Changes of the heap outside every queue.\<close>

lemma queues_wf_heap:
  assumes "queues_wf s" and "cq s' = cq s" and "hp_next (heap s) \<le> hp_next (heap s')"
    and "\<And>j r b. cq s j = Some r \<Longrightarrow> b \<in> set (eq_addrs r) \<Longrightarrow> cell (heap s') b = cell (heap s) b"
  shows "queues_wf s'" and "cview s' = cview s"
proof -
  have "eq_wf (heap s') r" if "cq s j = Some r" for j r
    using assms(4)[OF that] assms(3) queues_wfD[OF assms(1) that] by (rule eq_wf_cong)
  then show "queues_wf s'" using assms(1,2) by (auto simp: queues_wf_def)
  have "tagged (heap s') r = tagged (heap s) r" if "cq s j = Some r" for j r
    by (intro tagged_cong assms(4)[OF that])
  then have "cview s' j = cview s j" for j
    using assms(2) by (cases "cq s j") (auto simp: cview_def eq_view_def)
  then show "cview s' = cview s" by blast
qed

lemma new_object_fields [simp]:
  "fst (new_object d s) = hp_next (heap s)" "clients (snd (new_object d s)) = clients s"
  "registry (snd (new_object d s)) = registry s" "heap (snd (new_object d s)) = snd (hp_new d (heap s))"
  "handlers (snd (new_object d s)) = handlers s" "published (snd (new_object d s)) = published s"
  "descriptors_by_handler_id (snd (new_object d s)) = descriptors_by_handler_id s"
  "timeouts (snd (new_object d s)) = timeouts s" "next_timeout (snd (new_object d s)) = next_timeout s"
  "user_clients (snd (new_object d s)) = user_clients s"
  "realm_clients_all_streams (snd (new_object d s)) = realm_clients_all_streams s"
  "cq (snd (new_object d s)) = cq s"
  by (simp_all add: new_object_def hp_new_def registry_def cq_def fun_eq_iff)

lemma new_object_wf:
  assumes "queues_wf s"
  shows "queues_wf (snd (new_object d s))" "cview (snd (new_object d s)) = cview s"
    "unused (snd (new_object d s)) (hp_next (heap s))"
proof -
  have lt: "b < hp_next (heap s)" if "cq s j = Some r" "b \<in> set (eq_addrs r)" for j r b
    using queues_wfD[OF assms that(1)] that(2) by (simp add: eq_wf_def)
  have same: "cell (heap (snd (new_object d s))) b = cell (heap s) b"
    if "cq s j = Some r" "b \<in> set (eq_addrs r)" for j r b
    using lt[OF that] by simp
  show "queues_wf (snd (new_object d s))" "cview (snd (new_object d s)) = cview s"
  proof -
    have le: "hp_next (heap s) \<le> hp_next (heap (snd (new_object d s)))"
      and cq': "cq (snd (new_object d s)) = cq s" by simp_all
    show "queues_wf (snd (new_object d s))" using assms cq' le same by (rule queues_wf_heap(1))
    show "cview (snd (new_object d s)) = cview s" using assms cq' le same by (rule queues_wf_heap(2))
  qed
  show "unused (snd (new_object d s)) (hp_next (heap s))"
    using lt by (fastforce simp: unused_def)
qed

section \<open>Delivering one event\<close>

lemma add_event_queues:
  assumes wf: "queues_wf s" and c: "map_of (clients s) i = Some c" and a: "unused s a"
    and add: "add_event i a s = Inr s'"
  shows "queues_wf s'" "registry s' = registry s" "published s' = published s"
    "j \<noteq> i \<Longrightarrow> cview s' j = cview s j" "j \<noteq> i \<Longrightarrow> map_of (clients s') j = map_of (clients s) j"
    "storable (cell (heap s) a) \<Longrightarrow> cview s i = Some v \<Longrightarrow>
       \<exists>w. spec_push (next_event_id (client_queue c)) (cell (heap s) a) v = Inr w \<and>
           cview s' i = Some (if current_handler_id c = None then w else spec_contents w)"
    "b < hp_next (heap s) \<Longrightarrow> unused s b \<Longrightarrow> a \<noteq> b \<Longrightarrow> unused s' b \<and> cell (heap s') b = cell (heap s) b"
proof -
  let ?p = "client_queue c"
  have i: "cq s i = Some ?p" using c by (rule cqI)
  from add c obtain h q where push: "push (heap s) ?p a = Inr (h, q)" and h: "heap s' = h"
    and reg: "registry s' = registry s" "published s' = published s"
    and cl: "map_of (clients s') = (map_of (clients s))(i \<mapsto>
       (if current_handler_id c = None then c\<lparr>client_queue := q\<rparr> else fetched h (c\<lparr>client_queue := q\<rparr>)))"
    by (rule add_event_effect)
  let ?q' = "if current_handler_id c = None then q else snd (contents h q)"
  have cq': "cq s' = (cq s)(i \<mapsto> ?q')" using cl by (auto simp: cq_def fetched_def fun_eq_iff)
  have wfp: "eq_wf (heap s) ?p" using queues_wfD[OF wf i] .
  have fresh: "a \<notin> set (eq_addrs ?p)" "a < hp_next (heap s)" using a i by (auto simp: unused_def)
  have wfq: "eq_wf h q" using wfp fresh push by (rule push_wf)
  have wfq': "eq_wf (heap s') ?q'" using wfq contents_wf h by simp
  note fr = push_frame[OF push]
  let ?N = "{a} \<union> {hp_next (heap s)..<hp_next h}"
  have addrs: "set (eq_addrs ?q') \<subseteq> set (eq_addrs ?p) \<union> ?N"
    using fr(2) contents_addrs[OF wfq] by auto
  have lt: "b < hp_next (heap s)" if "cq s j = Some r" "b \<in> set (eq_addrs r)" for j r b
    using queues_wfD[OF wf that(1)] that(2) by (simp add: eq_wf_def)
  have new: "?N \<inter> set (eq_addrs r) = {}" if "cq s j = Some r" for j r
    using a lt[OF that] that by (fastforce simp: unused_def)
  have frame: "cell (heap s') b = cell (heap s) b"
    if "cq s j = Some r" "j \<noteq> i" "b \<in> set (eq_addrs r)" for j r b
  proof -
    have "b \<notin> set (eq_addrs ?p)" using queues_wf_disj[OF wf that(1) i that(2,3)] .
    moreover have "b \<noteq> a" using a that by (auto simp: unused_def)
    ultimately show ?thesis using fr(3) lt[OF that(1,3)] h by simp
  qed
  have le: "hp_next (heap s) \<le> hp_next (heap s')" using fr(1) h by simp
  show "queues_wf s'" using wf i wfq' cq' le addrs new frame by (rule queues_wf_change(1))
  show "cview s' j = cview s j" if "j \<noteq> i"
    using wf i wfq' cq' le addrs new frame that by (rule queues_wf_change(2))
  show "registry s' = registry s" "published s' = published s" by fact+
  show "map_of (clients s') j = map_of (clients s) j" if "j \<noteq> i" using cl that by simp
  show "\<exists>w. spec_push (next_event_id ?p) (cell (heap s) a) v = Inr w \<and>
      cview s' i = Some (if current_handler_id c = None then w else spec_contents w)"
    if "storable (cell (heap s) a)" "cview s i = Some v"
  proof -
    have "v = eq_view (heap s) ?p" using that(2) i by (simp add: cview_def)
    then have "spec_push (next_event_id ?p) (cell (heap s) a) v = Inr (eq_view h q)"
      using push_refines[OF wfp fresh that(1) push] by simp
    moreover have "cview s' i = Some (eq_view h ?q')" using cq' h by (simp add: cview_def)
    ultimately show ?thesis using contents_refines(2)[OF wfq] by auto
  qed
  show "unused s' b \<and> cell (heap s') b = cell (heap s) b"
    if "b < hp_next (heap s)" "unused s b" "a \<noteq> b"
  proof -
    have nb: "b \<notin> set (eq_addrs ?p)" using that(2) i by (simp add: unused_def)
    then have "b \<notin> set (eq_addrs ?q')" using addrs that by auto
    then have "unused s' b" using that le cq' by (auto simp: unused_def)
    moreover have "cell h b = cell (heap s) b" using fr(3)[OF that(1)] that(3) nb by simp
    ultimately show ?thesis using h by simp
  qed
qed

text \<open>Whether a plain event is accepted depends on the fixed part of the descriptor only.\<close>

lemma accepts_event_plain:
  "plain_dict ev \<Longrightarrow> static c' = static c \<Longrightarrow> accepts_event h' c' ev = accepts_event h c ev"
  using static_eqD(3,4)[of c' c] by (simp add: accepts_event_def resolve_dict_plain cong: if_cong)

text \<open>
  What a client with the view \<open>v\<close> holds after the event: a client that accepts it has the
  event pushed with its own next id; if a request was waiting, everything was sent and is
  ordinary. A client that does not accept it is unchanged.
\<close>

definition delivered :: "pyheap \<Rightarrow> pydict \<Rightarrow> client \<Rightarrow> view \<Rightarrow> view \<Rightarrow> bool" where
  "delivered h ev c v v' \<longleftrightarrow>
     (if accepts_event h c ev = Inr True then
        (\<exists>w. spec_push (next_event_id (client_queue c)) ev v = Inr w \<and>
             v' = (if current_handler_id c = None then w else spec_contents w))
      else v' = v)"

lemma deliver_copy_effect:
  assumes wf: "queues_wf s" and ev: "plain_dict ev" and c: "map_of (clients s) i = Some c"
    and d: "deliver_copy ev s i = Inr s'"
  shows "queues_wf s'" "registry s' = registry s" "published s' = published s"
    "j \<noteq> i \<Longrightarrow> cview s' j = cview s j" "j \<noteq> i \<Longrightarrow> map_of (clients s') j = map_of (clients s) j"
    "cview s i = Some v \<Longrightarrow> \<exists>v'. cview s' i = Some v' \<and> delivered (heap s) ev c v v'"
proof -
  obtain ok where ok: "accepts_event (heap s) c ev = Inr ok" using d c by (auto simp: deliver_copy_def)
  let ?s1 = "snd (new_object ev s)"
  have "queues_wf s' \<and> registry s' = registry s \<and> published s' = published s \<and>
    (\<forall>j. j \<noteq> i \<longrightarrow> cview s' j = cview s j \<and> map_of (clients s') j = map_of (clients s) j) \<and>
    (\<forall>v. cview s i = Some v \<longrightarrow> (\<exists>v'. cview s' i = Some v' \<and> delivered (heap s) ev c v v'))"
  proof (cases ok)
    case False
    then have "s' = s" using d c ok by (auto simp: deliver_copy_def)
    then show ?thesis using wf ok False by (simp add: delivered_def)
  next
    case True
    note n = new_object_wf[OF wf, of ev]
    have add: "add_event i (hp_next (heap s)) ?s1 = Inr s'"
      using d c ok True by (auto simp: deliver_copy_def case_prod_unfold)
    have c1: "map_of (clients ?s1) i = Some c" using c by simp
    have st: "storable (cell (heap ?s1) (hp_next (heap s)))" using ev by (simp add: plain_storable)
    note e = add_event_queues[OF n(1) c1 n(3) add]
    show ?thesis using e(1-5) e(6)[OF st] ok True n(2) by (auto simp: delivered_def)
  qed
  then show "queues_wf s'" "registry s' = registry s" "published s' = published s"
    "j \<noteq> i \<Longrightarrow> cview s' j = cview s j" "j \<noteq> i \<Longrightarrow> map_of (clients s') j = map_of (clients s) j"
    "cview s i = Some v \<Longrightarrow> \<exists>v'. cview s' i = Some v' \<and> delivered (heap s) ev c v v'"
    by blast+
qed

text \<open>The loop over a list of different clients.\<close>

lemma deliver_all_effect:
  assumes "queues_wf s" and "plain_dict ev" and "distinct L"
    and "\<And>i. i \<in> set L \<Longrightarrow> map_of (clients s) i \<noteq> None"
    and "efold (deliver_copy ev) s L = Inr s'"
  shows "queues_wf s' \<and> registry s' = registry s \<and> published s' = published s \<and>
    (\<forall>j. j \<notin> set L \<longrightarrow> cview s' j = cview s j \<and> map_of (clients s') j = map_of (clients s) j) \<and>
    (\<forall>i \<in> set L. \<forall>c v. map_of (clients s) i = Some c \<longrightarrow> cview s i = Some v \<longrightarrow>
       (\<exists>v'. cview s' i = Some v' \<and> delivered (heap s) ev c v v'))"
  using assms
proof (induction L arbitrary: s)
  case Nil
  then show ?case by simp
next
  case (Cons i L)
  from Cons.prems(5) obtain t where t: "deliver_copy ev s i = Inr t" and rest: "efold (deliver_copy ev) t L = Inr s'"
    by auto
  obtain c where c: "map_of (clients s) i = Some c" using Cons.prems(4) by fastforce
  note e = deliver_copy_effect[OF Cons.prems(1,2) c t]
  have i: "i \<notin> set L" and dist: "distinct L" using Cons.prems(3) by auto
  have cl: "map_of (clients t) j \<noteq> None" if "j \<in> set L" for j
    using that i e(5)[of j] Cons.prems(4)[of j] by (cases "j = i") auto
  have heap_irrelevant: "delivered (heap t) ev d v v' = delivered (heap s) ev d v v'" for d v v'
    using accepts_event_plain[OF Cons.prems(2) refl, of "heap t" d "heap s"] by (simp add: delivered_def)
  have IH: "queues_wf s' \<and> registry s' = registry t \<and> published s' = published t \<and>
    (\<forall>j. j \<notin> set L \<longrightarrow> cview s' j = cview t j \<and> map_of (clients s') j = map_of (clients t) j) \<and>
    (\<forall>i \<in> set L. \<forall>c v. map_of (clients t) i = Some c \<longrightarrow> cview t i = Some v \<longrightarrow>
       (\<exists>v'. cview s' i = Some v' \<and> delivered (heap t) ev c v v'))"
    using Cons.IH[OF e(1) Cons.prems(2) dist cl rest] by blast
  show ?case
  proof (intro conjI allI ballI impI)
    show "queues_wf s'" "registry s' = registry s" "published s' = published s" using IH e(2,3) by simp_all
    fix j assume "j \<notin> set (i # L)"
    then show "cview s' j = cview s j" "map_of (clients s') j = map_of (clients s) j"
      using IH e(4,5)[of j] by auto
  next
    fix j d v assume j: "j \<in> set (i # L)" and d: "map_of (clients s) j = Some d" "cview s j = Some v"
    show "\<exists>v'. cview s' j = Some v' \<and> delivered (heap s) ev d v v'"
    proof (cases "j = i")
      case True
      then have "d = c" using d(1) c by simp
      moreover have "cview s' i = cview t i" using IH i by blast
      ultimately show ?thesis using e(6)[of v] d(2) True by simp
    next
      case False
      then have "map_of (clients t) j = Some d" "cview t j = Some v" using e(4,5)[of j] d by simp_all
      then show ?thesis using IH j False heap_irrelevant by auto
    qed
  qed
qed

section \<open>The registries agree with the clients\<close>

text \<open>A registry holds no empty list and no descriptor twice for one key.\<close>

definition lists_ok :: "('k \<times> 'a list) list \<Rightarrow> bool" where
  "lists_ok d \<longleftrightarrow> (\<forall>k l. map_of d k = Some l \<longrightarrow> l \<noteq> [] \<and> distinct l)"

lemma lists_okD: "lists_ok d \<Longrightarrow> distinct (dlist d k)"
  by (auto simp: lists_ok_def dlist_def split: option.splits)

definition registry_ok :: "tornado \<Rightarrow> bool" where
  "registry_ok s \<longleftrightarrow>
     distinct (map fst (clients s)) \<and>
     (\<forall>i c. map_of (clients s) i = Some c \<longrightarrow> eq_id (client_queue c) = i) \<and>
     lists_ok (user_clients s) \<and> lists_ok (realm_clients_all_streams s) \<and>
     (\<forall>uid i. i \<in> set (get_client_descriptors_for_user uid s) \<longleftrightarrow>
        (\<exists>c. map_of (clients s) i = Some c \<and> user_profile_id c = uid)) \<and>
     (\<forall>rid i. i \<in> set (get_client_descriptors_for_realm_all_streams rid s) \<longleftrightarrow>
        (\<exists>c. map_of (clients s) i = Some c \<and> client_realm_id c = rid \<and> in_realm_list c))"

lemma in_realm_list_static: "static c = static d \<Longrightarrow> in_realm_list c = in_realm_list d"
  by (auto simp: in_realm_list_def dest: static_eqD)

lemma registry_ok_same:
  assumes "registry s' = registry s" and "registry_ok s"
  shows "registry_ok s'"
proof -
  have m: "map_option static (map_of (clients s') i) = map_option static (map_of (clients s) i)" for i
    using assms(1) by (rule registry_clients)
  have ex: "(\<exists>c. map_of (clients s') i = Some c \<and> P c) \<longleftrightarrow> (\<exists>c. map_of (clients s) i = Some c \<and> P c)"
    if "\<And>c d. static c = static d \<Longrightarrow> P c = P d" for i P
  proof (cases "map_of (clients s') i")
    case None
    then have "map_of (clients s) i = None" using m[of i] by (metis map_option_is_None)
    with None show ?thesis by simp
  next
    case (Some c)
    then obtain d where d: "map_of (clients s) i = Some d" "static c = static d"
      using m[of i] by (cases "map_of (clients s) i") auto
    then show ?thesis using Some that[OF d(2)] by simp
  qed
  have all: "(\<forall>i c. map_of (clients s') i = Some c \<longrightarrow> eq_id (client_queue c) = i) \<longleftrightarrow>
      (\<forall>i c. map_of (clients s) i = Some c \<longrightarrow> eq_id (client_queue c) = i)"
  proof -
    have "(\<exists>c. map_of (clients s') i = Some c \<and> eq_id (client_queue c) \<noteq> i) \<longleftrightarrow>
        (\<exists>c. map_of (clients s) i = Some c \<and> eq_id (client_queue c) \<noteq> i)" for i
      by (rule ex) (auto dest: static_eqD)
    then show ?thesis by blast
  qed
  have users: "(\<exists>c. map_of (clients s') i = Some c \<and> user_profile_id c = uid) \<longleftrightarrow>
      (\<exists>c. map_of (clients s) i = Some c \<and> user_profile_id c = uid)" for i uid
    by (rule ex) (auto dest: static_eqD)
  have realms: "(\<exists>c. map_of (clients s') i = Some c \<and> client_realm_id c = rid \<and> in_realm_list c) \<longleftrightarrow>
      (\<exists>c. map_of (clients s) i = Some c \<and> client_realm_id c = rid \<and> in_realm_list c)" for i rid
    by (rule ex) (auto dest: static_eqD in_realm_list_static)
  have "user_clients s' = user_clients s" "realm_clients_all_streams s' = realm_clients_all_streams s"
    "map fst (clients s') = map fst (clients s)"
    using assms(1) registry_ids[OF assms(1)] by (simp_all add: registry_def)
  then show ?thesis
    using assms(2) unfolding registry_ok_def all users realms
    by (simp add: get_client_descriptors_for_user_def get_client_descriptors_for_realm_all_streams_def)
qed

text \<open>
  \<open>process_event\<close> is the loop over all the clients of the users: the lists of clients do not
  change on the way.
\<close>

lemma deliver_copy_registry:
  assumes "deliver_copy ev s i = Inr s'"
  shows "registry s' = registry s"
proof -
  obtain c ok where c: "map_of (clients s) i = Some c" and ok: "accepts_event (heap s) c ev = Inr ok"
    using assms by (auto simp: deliver_copy_def)
  show ?thesis
  proof (cases ok)
    case True
    then have "add_event i (hp_next (heap s)) (snd (new_object ev s)) = Inr s'"
      using assms c ok by (auto simp: deliver_copy_def case_prod_unfold)
    then show ?thesis using c by (elim add_event_effect[where c = c]) auto
  qed (use assms c ok in \<open>auto simp: deliver_copy_def\<close>)
qed

lemma efold_registry:
  assumes "efold f s xs = Inr s'" and "\<And>s x s'. x \<in> set xs \<Longrightarrow> f s x = Inr s' \<Longrightarrow> registry s' = registry s"
  shows "registry s' = registry s"
  by (rule efold_inv[where P = "\<lambda>t. registry t = registry s", OF assms(1) refl]) (auto dest: assms(2))

lemma clients_of_user_registry:
  "registry s' = registry s \<Longrightarrow> get_client_descriptors_for_user u s' = get_client_descriptors_for_user u s"
  by (simp add: registry_def get_client_descriptors_for_user_def)

lemma process_event_flat:
  "process_event ev (map PInt us) s =
     efold (deliver_copy ev) s (concat (map (\<lambda>u. get_client_descriptors_for_user u s) us))"
proof (induction us arbitrary: s)
  case Nil
  then show ?case by (simp add: process_event_def)
next
  case (Cons u us)
  let ?L = "get_client_descriptors_for_user u s"
  show ?case
  proof (cases "efold (deliver_copy ev) s ?L")
    case (Inl e)
    then show ?thesis by (simp add: process_event_def efold_append)
  next
    case (Inr t)
    have "registry t = registry s" using Inr deliver_copy_registry by (rule efold_registry)
    then have same: "get_client_descriptors_for_user v t = get_client_descriptors_for_user v s" for v
      by (rule clients_of_user_registry)
    have "process_event ev (map PInt us) t =
        efold (deliver_copy ev) t (concat (map (\<lambda>u. get_client_descriptors_for_user u s) us))"
      unfolding Cons.IH[of t] same ..
    then show ?thesis using Inr by (simp add: process_event_def efold_append)
  qed
qed

lemma clients_of_users_distinct:
  assumes "registry_ok s" and "distinct us"
  shows "distinct (concat (map (\<lambda>u. get_client_descriptors_for_user u s) us))"
    and "i \<in> set (concat (map (\<lambda>u. get_client_descriptors_for_user u s) us)) \<longleftrightarrow>
      (\<exists>c. map_of (clients s) i = Some c \<and> user_profile_id c \<in> set us)"
proof -
  have mem: "i \<in> set (get_client_descriptors_for_user u s) \<longleftrightarrow>
      (\<exists>c. map_of (clients s) i = Some c \<and> user_profile_id c = u)" for i u
    using assms(1) by (simp add: registry_ok_def)
  have dist: "distinct (get_client_descriptors_for_user u s)" for u
    using assms(1) by (simp add: registry_ok_def get_client_descriptors_for_user_def lists_okD)
  show "distinct (concat (map (\<lambda>u. get_client_descriptors_for_user u s) us))"
    using assms(2)
  proof (induction us)
    case (Cons u us)
    have "set (get_client_descriptors_for_user u s) \<inter> set (get_client_descriptors_for_user v s) = {}"
      if "v \<in> set us" for v
      using that Cons.prems mem by auto
    with Cons dist show ?case by auto
  qed simp
  show "i \<in> set (concat (map (\<lambda>u. get_client_descriptors_for_user u s) us)) \<longleftrightarrow>
      (\<exists>c. map_of (clients s) i = Some c \<and> user_profile_id c \<in> set us)"
    using mem by auto
qed

end
