(* ===== verification/TornadoSafety.thy ===== *)
theory TornadoSafety
  imports TornadoInv
begin

text \<open>
  The invariants of the Tornado process over its runs: waiting handlers, descriptors and
  heartbeat timers agree (\<open>handlers_ok\<close>), and the client registries agree with the
  clients (\<open>registry_ok\<close>). Every operation keeps them, so every reachable state has them.
\<close>

section \<open>Waiting handlers\<close>

text \<open>
  A client that waits has a live handler that is registered for it, and a timer only while
  it waits; a registered handler other than 0 belongs to the client that waits on it; ids
  are below the counters.
\<close>

definition handlers_ok :: "tornado \<Rightarrow> bool" where
  "handlers_ok s \<longleftrightarrow>
     0 \<le> latest_handler_id s \<and>
     (\<forall>h \<in> set (handlers s). h < latest_handler_id s) \<and>
     (\<forall>h i. map_of (descriptors_by_handler_id s) h = Some i \<longrightarrow> h < latest_handler_id s) \<and>
     (\<forall>i c h. map_of (clients s) i = Some c \<longrightarrow> current_handler_id c = Some h \<longrightarrow>
        h \<in> set (handlers s) \<and> map_of (descriptors_by_handler_id s) h = Some i) \<and>
     (\<forall>h i. map_of (descriptors_by_handler_id s) h = Some i \<longrightarrow> h \<noteq> 0 \<longrightarrow>
        (\<exists>c. map_of (clients s) i = Some c \<and> current_handler_id c = Some h)) \<and>
     (\<forall>i c t. map_of (clients s) i = Some c \<longrightarrow> timeout_handle c = Some t \<longrightarrow>
        current_handler_id c \<noteq> None \<and> map_of (timeouts s) t = Some i) \<and>
     (\<forall>t i. map_of (timeouts s) t = Some i \<longrightarrow> t < next_timeout s \<and>
        (\<exists>c. map_of (clients s) i = Some c \<and> timeout_handle c = Some t))"

text \<open>It depends on the handler part of the state only.\<close>

definition waits :: "client \<Rightarrow> int option \<times> nat option" where
  "waits c = (current_handler_id c, timeout_handle c)"

definition hstate where
  "hstate s = (\<lambda>i. map_option waits (map_of (clients s) i), handlers s, latest_handler_id s,
     descriptors_by_handler_id s, timeouts s, next_timeout s)"

lemma hstate_client:
  assumes "hstate s' = hstate s"
  shows "(\<exists>c. map_of (clients s') i = Some c \<and> P (waits c)) \<longleftrightarrow> (\<exists>c. map_of (clients s) i = Some c \<and> P (waits c))"
proof -
  have "map_option waits (map_of (clients s') i) = map_option waits (map_of (clients s) i)"
    using assms by (simp add: hstate_def fun_eq_iff)
  then show ?thesis
    by (cases "map_of (clients s') i"; cases "map_of (clients s) i") auto
qed

lemma handlers_ok_cong:
  assumes eq: "hstate s' = hstate s" and ok: "handlers_ok s"
  shows "handlers_ok s'"
proof -
  have f: "handlers s' = handlers s" "latest_handler_id s' = latest_handler_id s"
    "descriptors_by_handler_id s' = descriptors_by_handler_id s" "timeouts s' = timeouts s"
    "next_timeout s' = next_timeout s"
    using eq by (simp_all add: hstate_def)
  have m: "map_option waits (map_of (clients s') i) = map_option waits (map_of (clients s) i)" for i
    using eq by (simp add: hstate_def fun_eq_iff)
  have fwd: "\<exists>d. map_of (clients s) i = Some d \<and> waits d = waits c" if "map_of (clients s') i = Some c" for i c
    using m[of i] that by (cases "map_of (clients s) i") auto
  have bwd: "\<exists>d. map_of (clients s') i = Some d \<and> waits d = waits c" if "map_of (clients s) i = Some c" for i c
    using m[of i] that by (cases "map_of (clients s') i") auto
  show ?thesis
    unfolding handlers_ok_def f
  proof (intro conjI allI impI)
    fix i c h assume "map_of (clients s') i = Some c" "current_handler_id c = Some h"
    then obtain d where "map_of (clients s) i = Some d" "current_handler_id d = Some h"
      using fwd by (fastforce simp: waits_def)
    then show "h \<in> set (handlers s)" "map_of (descriptors_by_handler_id s) h = Some i"
      using ok by (auto simp: handlers_ok_def)
  next
    fix h i assume "map_of (descriptors_by_handler_id s) h = Some i" "h \<noteq> 0"
    then obtain c where "map_of (clients s) i = Some c" "current_handler_id c = Some h"
      using ok unfolding handlers_ok_def by blast
    then show "\<exists>c. map_of (clients s') i = Some c \<and> current_handler_id c = Some h"
      using bwd by (fastforce simp: waits_def)
  next
    fix i c t assume "map_of (clients s') i = Some c" "timeout_handle c = Some t"
    then obtain d where "map_of (clients s) i = Some d" "timeout_handle d = Some t"
      "current_handler_id d = current_handler_id c"
      using fwd by (fastforce simp: waits_def)
    then show "current_handler_id c \<noteq> None" "map_of (timeouts s) t = Some i"
      using ok unfolding handlers_ok_def by metis+
  next
    fix t i assume t: "map_of (timeouts s) t = Some i"
    then obtain c where "map_of (clients s) i = Some c" "timeout_handle c = Some t"
      using ok unfolding handlers_ok_def by blast
    then show "\<exists>c. map_of (clients s') i = Some c \<and> timeout_handle c = Some t"
      using bwd by (fastforce simp: waits_def)
    show "t < next_timeout s" using t ok unfolding handlers_ok_def by blast
  qed (use ok in \<open>auto simp: handlers_ok_def\<close>)
qed

lemma hstate_set_client:
  "map_of (clients s) i = Some c \<Longrightarrow> waits c' = waits c \<Longrightarrow> hstate (set_client i c' s) = hstate s"
  by (auto simp: hstate_def fun_eq_iff)

lemma hstate_updates [simp]:
  "hstate (s\<lparr>heap := h\<rparr>) = hstate s" "hstate (s\<lparr>responses := rs\<rparr>) = hstate s"
  "hstate (s\<lparr>published := ps\<rparr>) = hstate s" "hstate (s\<lparr>user_clients := us\<rparr>) = hstate s"
  "hstate (s\<lparr>realm_clients_all_streams := ra\<rparr>) = hstate s" "hstate (s\<lparr>next_queue_id := n\<rparr>) = hstate s"
  by (simp_all add: hstate_def)

lemma waits_queue [simp]: "waits (c\<lparr>client_queue := q\<rparr>) = waits c"
  by (simp add: waits_def)

lemma hstate_finish_handler [simp]: "hstate (finish_handler hid qid as m s) = hstate s"
  by (auto simp: finish_handler_def split: sum.splits)

lemma hstate_new_object [simp]: "hstate (snd (new_object d s)) = hstate s"
  by (simp add: new_object_def hp_new_def)

text \<open>A disconnect of a known client succeeds and keeps the agreement.\<close>

lemma disconnect_handler_ok:
  assumes ok: "handlers_ok s" and c: "map_of (clients s) i = Some c"
  shows "\<exists>s'. disconnect_handler i s = Inr s' \<and> handlers_ok s'"
proof -
  have C: "h \<in> set (handlers s) \<and> map_of (descriptors_by_handler_id s) h = Some j"
    if "map_of (clients s) j = Some d" "current_handler_id d = Some h" for j d h
    using ok that by (simp add: handlers_ok_def)
  have D: "\<exists>d. map_of (clients s) j = Some d \<and> current_handler_id d = Some h"
    if "map_of (descriptors_by_handler_id s) h = Some j" "h \<noteq> 0" for h j
    using ok that by (simp add: handlers_ok_def)
  have T: "current_handler_id d \<noteq> None \<and> map_of (timeouts s) t = Some j"
    if "map_of (clients s) j = Some d" "timeout_handle d = Some t" for j d t
    using ok that by (simp add: handlers_ok_def)
  have U: "t < next_timeout s \<and> (\<exists>d. map_of (clients s) j = Some d \<and> timeout_handle d = Some t)"
    if "map_of (timeouts s) t = Some j" for t j
    using ok that by (simp add: handlers_ok_def)
  have L: "0 \<le> latest_handler_id s" "\<And>h. h \<in> set (handlers s) \<Longrightarrow> h < latest_handler_id s"
    "\<And>h j. map_of (descriptors_by_handler_id s) h = Some j \<Longrightarrow> h < latest_handler_id s"
    using ok by (auto simp: handlers_ok_def)
  let ?c = "c\<lparr>current_handler_id := None, current_client_name := None, timeout_handle := None\<rparr>"
  define clear where "clear = (current_handler_id c \<noteq> None \<and> current_handler_id c \<noteq> Some 0)"
  define hid where "hid = the (current_handler_id c)"
  let ?hs = "if clear then removeAll hid (handlers s) else handlers s"
  let ?ds = "if clear then ddel hid (descriptors_by_handler_id s) else descriptors_by_handler_id s"
  let ?ts = "case timeout_handle c of None \<Rightarrow> timeouts s | Some t \<Rightarrow> ddel t (timeouts s)"
  let ?s = "set_client i ?c (s\<lparr>handlers := ?hs, descriptors_by_handler_id := ?ds, timeouts := ?ts\<rparr>)"
  have run: "disconnect_handler i s = Inr ?s"
    using c C[OF c]
    by (auto simp: disconnect_handler_def clear_descriptor_by_handler_id_def clear_handler_by_id_def
        clear_def hid_def get_client_def set_client_def Let_def split: option.splits)
  have other: "h \<noteq> hid" if "clear" "map_of (clients s) j = Some d" "current_handler_id d = Some h" "j \<noteq> i" for j d h
    using C[OF that(2,3)] C[OF c, of hid] that by (auto simp: clear_def hid_def)
  have "handlers_ok ?s"
    unfolding handlers_ok_def
  proof (intro conjI allI impI ballI)
    show "0 \<le> latest_handler_id ?s" using L by simp
    show "h < latest_handler_id ?s" if "h \<in> set (handlers ?s)" for h
      using that L by (auto split: if_splits)
    show "h < latest_handler_id ?s" if "map_of (descriptors_by_handler_id ?s) h = Some j" for h j
      using that L by (auto split: if_splits)
  next
    fix j d h assume d: "map_of (clients ?s) j = Some d" "current_handler_id d = Some h"
    then have "j \<noteq> i" "map_of (clients s) j = Some d" by (auto split: if_splits)
    then show "h \<in> set (handlers ?s)" "map_of (descriptors_by_handler_id ?s) h = Some j"
      using C[of j d h] other[of j d h] d(2) by auto
  next
    fix h j assume d: "map_of (descriptors_by_handler_id ?s) h = Some j" "h \<noteq> 0"
    then have "map_of (descriptors_by_handler_id s) h = Some j" by (auto split: if_splits)
    then obtain e where e: "map_of (clients s) j = Some e" "current_handler_id e = Some h" using D d(2) by blast
    have "j \<noteq> i"
    proof
      assume "j = i"
      then have "clear" "h = hid" using e c d(2) by (auto simp: clear_def hid_def)
      then show False using d(1) by simp
    qed
    then show "\<exists>d. map_of (clients ?s) j = Some d \<and> current_handler_id d = Some h" using e by simp
  next
    fix j d t assume d: "map_of (clients ?s) j = Some d" "timeout_handle d = Some t"
    then have j: "j \<noteq> i" "map_of (clients s) j = Some d" by (auto split: if_splits)
    then show "current_handler_id d \<noteq> None" using T d(2) by blast
    have "timeout_handle c \<noteq> Some t" using T[OF j(2) d(2)] T[OF c, of t] j(1) by auto
    then show "map_of (timeouts ?s) t = Some j" using T[OF j(2) d(2)] by (auto split: option.splits)
  next
    fix t j assume t: "map_of (timeouts ?s) t = Some j"
    then have t': "map_of (timeouts s) t = Some j" by (auto split: option.splits if_splits)
    show "t < next_timeout ?s" using U[OF t'] by simp
    obtain d where d: "map_of (clients s) j = Some d" "timeout_handle d = Some t" using U[OF t'] by blast
    have "j \<noteq> i" using d c t by (auto split: option.splits)
    then show "\<exists>d. map_of (clients ?s) j = Some d \<and> timeout_handle d = Some t" using d by simp
  qed
  with run show ?thesis by blast
qed


lemma finish_current_handler_ok:
  assumes ok: "handlers_ok s" and c: "map_of (clients s) i = Some c"
  shows "\<exists>s'. finish_current_handler i s = Inr (current_handler_id c \<noteq> None, s') \<and> handlers_ok s'"
proof (cases "current_handler_id c")
  case None
  then show ?thesis using ok c by (simp add: finish_current_handler_def get_client_def)
next
  case (Some hid)
  let ?q = "snd (contents (heap s) (client_queue c))" and ?as = "fst (contents (heap s) (client_queue c))"
  let ?s1 = "set_client i (c\<lparr>client_queue := ?q\<rparr>) s"
  let ?s2 = "finish_handler hid (eq_id ?q) ?as (apply_markdown c) ?s1"
  have "hstate ?s2 = hstate s" using c by (simp add: hstate_set_client)
  then have "handlers_ok ?s2" using ok by (rule handlers_ok_cong)
  then obtain s' where "disconnect_handler i ?s2 = Inr s'" "handlers_ok s'"
    using disconnect_handler_ok[of ?s2 i] by auto
  then show ?thesis
    using c Some by (simp add: finish_current_handler_def get_client_def case_prod_unfold)
qed

text \<open>
  A step that leaves the registries alone and keeps the handlers in order; what is true
  of every operation but allocation and collection.
\<close>

definition keeps :: "tornado \<Rightarrow> tornado \<Rightarrow> bool" where
  "keeps s s' \<longleftrightarrow> registry s' = registry s \<and> (handlers_ok s \<longrightarrow> handlers_ok s')"

named_theorems keeps_intros \<open>operations that keep the registries and the handlers\<close>

lemma keeps_refl [keeps_intros]: "keeps s s"
  by (simp add: keeps_def)

lemma keeps_trans: "keeps s t \<Longrightarrow> keeps t u \<Longrightarrow> keeps s u"
  by (auto simp: keeps_def)

lemma keeps_efold: "efold f s xs = Inr s' \<Longrightarrow> (\<And>x s s'. x \<in> set xs \<Longrightarrow> f s x = Inr s' \<Longrightarrow> keeps s s') \<Longrightarrow> keeps s s'"
  by (rule efold_inv[where P = "keeps s"]) (auto intro: keeps_intros keeps_trans)

lemma keeps_same: "registry s' = registry s \<Longrightarrow> hstate s' = hstate s \<Longrightarrow> keeps s s'"
  using handlers_ok_cong by (auto simp: keeps_def)

lemma keeps_new_object [keeps_intros]: "keeps s (snd (new_object d s))"
  by (rule keeps_same) simp_all

lemma keeps_set_queue:
  "map_of (clients s) i = Some c \<Longrightarrow> eq_id q = eq_id (client_queue c) \<Longrightarrow>
   keeps s (set_client i (c\<lparr>client_queue := q\<rparr>) s)"
  by (rule keeps_same) (auto intro: registry_set_client hstate_set_client)

lemma keeps_finish_current_handler [keeps_intros]:
  assumes "finish_current_handler i s = Inr (b, s')"
  shows "keeps s s'"
proof -
  obtain c where "map_of (clients s) i = Some c" using assms by (auto simp: finish_current_handler_def)
  then show ?thesis
    using finish_current_handler_effect(2)[OF assms] finish_current_handler_ok[of s i c] assms
    by (auto simp: keeps_def)
qed

lemma keeps_disconnect_handler [keeps_intros]:
  assumes "disconnect_handler i s = Inr s'"
  shows "keeps s s'"
proof -
  obtain c where "map_of (clients s) i = Some c" using assms by (auto simp: disconnect_handler_def)
  then show ?thesis
    using disconnect_handler_effect(2)[OF assms] disconnect_handler_ok[of s i c] assms
    by (auto simp: keeps_def)
qed

lemma keeps_add_event [keeps_intros]:
  assumes "add_event i a s = Inr s'"
  shows "keeps s s'"
proof -
  obtain c h q b where c: "map_of (clients s) i = Some c" and push: "push (heap s) (client_queue c) a = Inr (h, q)"
    and fin: "finish_current_handler i (set_client i (c\<lparr>client_queue := q\<rparr>) (s\<lparr>heap := h\<rparr>)) = Inr (b, s')"
    using assms by (auto simp: add_event_def)
  have "keeps s (s\<lparr>heap := h\<rparr>)" by (rule keeps_same) simp_all
  moreover have "keeps (s\<lparr>heap := h\<rparr>) (set_client i (c\<lparr>client_queue := q\<rparr>) (s\<lparr>heap := h\<rparr>))"
    using c push_frame(5)[OF push] by (intro keeps_set_queue) auto
  ultimately show ?thesis using keeps_finish_current_handler[OF fin] keeps_trans by blast
qed

lemma keeps_add_new:
  "add_event i a (snd (new_object d s)) = Inr s' \<Longrightarrow> keeps s s'"
  by (rule keeps_trans[OF keeps_new_object keeps_add_event])

lemma keeps_deliver_copy [keeps_intros]:
  assumes "deliver_copy ev s i = Inr s'"
  shows "keeps s s'"
proof -
  obtain c ok where "map_of (clients s) i = Some c" "accepts_event (heap s) c ev = Inr ok"
    using assms by (auto simp: deliver_copy_def)
  then have "if ok then add_event i (hp_next (heap s)) (snd (new_object ev s)) = Inr s' else s' = s"
    using assms by (auto simp: deliver_copy_def case_prod_unfold)
  then show ?thesis by (auto split: if_splits intro: keeps_refl keeps_add_new)
qed

lemma keeps_process_event [keeps_intros]:
  assumes "process_event ev us s = Inr s'"
  shows "keeps s s'"
  using assms unfolding process_event_def
proof (rule keeps_efold, goal_cases)
  case (1 u s s')
  then obtain uid where "efold (deliver_copy ev) s (get_client_descriptors_for_user uid s) = Inr s'" by auto
  then show ?case by (rule keeps_efold) (rule keeps_intros)
qed

lemma keeps_deliver_shared [keeps_intros]:
  "deliver_shared a s i = Inr s' \<Longrightarrow> keeps s s'"
  by (auto simp: deliver_shared_def split: if_splits intro: keeps_intros)

lemma keeps_process_userdata_event [keeps_intros]:
  assumes "process_userdata_event ev us s = Inr s'"
  shows "keeps s s'"
  using assms unfolding process_userdata_event_def
proof (rule keeps_efold, goal_cases)
  case (1 u s s')
  then obtain d a L where "efold (deliver_shared a) (snd (new_object d s)) L = Inr s'"
    by (auto simp: case_prod_unfold Let_def)
  then have "keeps (snd (new_object d s)) s'" by (rule keeps_efold) (rule keeps_intros)
  then show ?case by (rule keeps_trans[OF keeps_new_object])
qed

text \<open>Publishing changes nothing else.\<close>

lemma keeps_publish [keeps_intros]: "keeps s (publish q n s)"
  by (rule keeps_same) (simp_all add: publish_def)

lemma keeps_collect_user:
  assumes "collect_user now pr sq sid mid mty (send_to, extra, s) u = Inr (send_to', extra', s')"
  shows "keeps s s'"
  using assms
  by (auto simp: collect_user_def Let_def split: if_splits
      intro: keeps_refl keeps_publish keeps_trans[OF keeps_publish keeps_publish])

lemma keeps_collect:
  assumes "efold (collect_user now pr sq sid mid mty) (send_to, extra, s) us = Inr (send_to', extra', s')"
  shows "keeps s s'"
proof -
  have "keeps s (snd (snd (send_to', extra', s')))"
    using assms
  proof (rule efold_inv)
    fix t u t' assume t: "keeps s (snd (snd t))" and "collect_user now pr sq sid mid mty t u = Inr t'"
    then have "keeps (snd (snd t)) (snd (snd t'))"
      by (cases t; cases t') (auto intro: keeps_collect_user)
    with t show "keeps s (snd (snd t'))" by (rule keeps_trans)
  qed (simp add: keeps_refl)
  then show ?thesis by simp
qed

lemma keeps_heap: "keeps s (s\<lparr>heap := h\<rparr>)"
  by (rule keeps_same) simp_all

lemma keeps_client_message: "keeps s (snd (client_message tmpl md no_md c s))"
  by (simp add: client_message_def Let_def keeps_intros)

lemma keeps_set_mentioned: "set_mentioned fl a s = Inr s' \<Longrightarrow> keeps s s'"
  by (auto simp: set_mentioned_def split: if_splits intro: keeps_refl keeps_heap)

lemma keeps_send_message_event [keeps_intros]:
  assumes "send_message_event tmpl md no_md cl extra s e = Inr s'"
  shows "keeps s s'"
proof -
  obtain c where c: "map_of (clients s) (fst e) = Some c"
    using assms by (auto simp: send_message_event_def case_prod_unfold)
  let ?m = "client_message tmpl md no_md c s"
  show ?thesis
  proof (cases "accepts_messages c")
    case False
    then show ?thesis
      using assms c by (simp add: send_message_event_def case_prod_unfold get_client_def keeps_refl)
  next
    case True
    then obtain t where t: "set_mentioned (se_flags (snd e)) (fst ?m) (snd ?m) = Inr t"
      and "\<exists>d. s' = snd (new_object d t) \<or> add_event (fst e) (hp_next (heap t)) (snd (new_object d t)) = Inr s'"
      using assms c
      by (auto simp: send_message_event_def case_prod_unfold get_client_def Let_def split: if_splits)
    then have "keeps t s'" by (auto intro: keeps_new_object keeps_add_new)
    then show ?thesis using keeps_set_mentioned[OF t] keeps_client_message keeps_trans by blast
  qed
qed

lemma keeps_process_message_event [keeps_intros]:
  assumes "process_message_event now tmpl us s = Inr s'"
  shows "keeps s s'"
proof -
  obtain d1 d2 pr sq sid mid mty st st1 extra s3 cl where
    c: "efold (collect_user now pr sq sid mid mty)
          (st, [], snd (new_object d1 (snd (new_object d2 s)))) us = Inr (st1, extra, s3)"
    and m: "\<exists>a b. efold (send_message_event tmpl a b cl extra) s3 st1 = Inr s'"
    using assms by (auto simp: process_message_event_def Let_def case_prod_unfold) blast
  have "keeps s (snd (new_object d1 (snd (new_object d2 s))))"
    by (rule keeps_trans[OF keeps_new_object keeps_new_object])
  moreover have "keeps (snd (new_object d1 (snd (new_object d2 s)))) s3" using c by (rule keeps_collect)
  moreover have "keeps s3 s'" using m by (auto elim!: keeps_efold intro: keeps_intros)
  ultimately show ?thesis using keeps_trans by blast
qed

lemma keeps_process_notification [keeps_intros]:
  "process_notification now notice s = Inr s' \<Longrightarrow> keeps s s'"
  by (auto simp: process_notification_def split: if_splits intro: keeps_intros)

lemma keeps_send_restart_events [keeps_intros]:
  "send_restart_events gen imm s = Inr s' \<Longrightarrow> keeps s s'"
  unfolding send_restart_events_def Let_def by (erule keeps_efold) (rule keeps_intros)

lemma keeps_on_connection_close [keeps_intros]:
  "on_connection_close hid s = Inr s' \<Longrightarrow> keeps s s'"
  by (auto simp: on_connection_close_def split: option.splits if_splits intro: keeps_intros)

section \<open>Handlers of requests\<close>

text \<open>A handler of a request that is being served: it is live and no client waits on it yet.\<close>

definition free_handler :: "int \<Rightarrow> tornado \<Rightarrow> bool" where
  "free_handler hid s \<longleftrightarrow> hid \<in> set (handlers s) \<and> map_of (descriptors_by_handler_id s) hid = None"

lemma free_handler_hstate: "hstate s' = hstate s \<Longrightarrow> free_handler hid s' = free_handler hid s"
  by (simp add: hstate_def free_handler_def)

lemma handlers_okD:
  assumes "handlers_ok s"
  shows "map_of (clients s) i = Some c \<Longrightarrow> current_handler_id c = Some h \<Longrightarrow>
      h \<in> set (handlers s) \<and> map_of (descriptors_by_handler_id s) h = Some i"
    and "map_of (clients s) i = Some c \<Longrightarrow> timeout_handle c = Some t \<Longrightarrow>
      current_handler_id c \<noteq> None \<and> map_of (timeouts s) t = Some i"
    and "map_of (descriptors_by_handler_id s) h = Some i \<Longrightarrow> h < latest_handler_id s"
  using assms by (simp_all add: handlers_ok_def)

lemma allocate_handler_ok:
  assumes "handlers_ok s" and "allocate_handler_id s = (hid, s')"
  shows "handlers_ok s'" "free_handler hid s'" "registry s' = registry s"
proof -
  have s': "s' = s\<lparr>handlers := handlers s @ [latest_handler_id s], latest_handler_id := latest_handler_id s + 1\<rparr>"
    and hid: "hid = latest_handler_id s"
    using assms(2) by (auto simp: allocate_handler_id_def Let_def)
  have lt: "map_of (descriptors_by_handler_id s) h = Some i \<Longrightarrow> h < latest_handler_id s" for h i
    using assms(1) by (rule handlers_okD(3))
  then have "map_of (descriptors_by_handler_id s) hid = None"
    using hid by (metis less_irrefl not_None_eq)
  then show "free_handler hid s'" using s' hid by (simp add: free_handler_def)
  show "handlers_ok s'"
    using assms(1) s' by (fastforce simp: handlers_ok_def)
  show "registry s' = registry s" using s' by (simp add: registry_def)
qed

lemma clear_handler_ok:
  assumes "handlers_ok s" and "free_handler hid s"
  shows "\<exists>s'. clear_handler_by_id hid s = Inr s' \<and> handlers_ok s' \<and> registry s' = registry s"
proof -
  have "current_handler_id c \<noteq> Some hid" if "map_of (clients s) i = Some c" for i c
    using handlers_okD(1)[OF assms(1) that] assms(2) by (auto simp: free_handler_def)
  then have "handlers_ok (s\<lparr>handlers := removeAll hid (handlers s)\<rparr>)"
    using assms(1) unfolding handlers_ok_def by auto
  then show ?thesis using assms(2) by (simp add: clear_handler_by_id_def free_handler_def)
qed

lemma disconnect_handler_free:
  assumes ok: "handlers_ok s" and free: "free_handler hid s" and d: "disconnect_handler i s = Inr s'"
  shows "free_handler hid s'" and "map_of (clients s') i = Some c' \<Longrightarrow> current_handler_id c' = None"
proof -
  obtain c where c: "map_of (clients s) i = Some c" using d by (auto simp: disconnect_handler_def)
  have "current_handler_id c \<noteq> Some hid"
    using handlers_okD(1)[OF ok c] free by (auto simp: free_handler_def)
  then show "free_handler hid s'"
    using d c free
    by (auto simp: disconnect_handler_def clear_descriptor_by_handler_id_def clear_handler_by_id_def
        free_handler_def Let_def set_client_def split: option.splits if_splits)
  show "current_handler_id c' = None" if "map_of (clients s') i = Some c'"
    using disconnect_handler_effect(5)[OF d c] that by auto
qed

lemma finish_current_handler_free:
  assumes ok: "handlers_ok s" and free: "free_handler hid s" and f: "finish_current_handler i s = Inr (b, s')"
  shows "free_handler hid s'" and "map_of (clients s') i = Some c' \<Longrightarrow> current_handler_id c' = None"
proof -
  obtain c where c: "map_of (clients s) i = Some c" using f by (auto simp: finish_current_handler_def)
  have "free_handler hid s' \<and> (map_of (clients s') i = Some c' \<longrightarrow> current_handler_id c' = None)"
  proof (cases "current_handler_id c")
    case None
    then show ?thesis using f c free by (auto simp: finish_current_handler_def get_client_def)
  next
    case (Some h)
    let ?q = "snd (contents (heap s) (client_queue c))" and ?as = "fst (contents (heap s) (client_queue c))"
    let ?s1 = "set_client i (c\<lparr>client_queue := ?q\<rparr>) s"
    let ?s2 = "finish_handler h (eq_id ?q) ?as (apply_markdown c) ?s1"
    have h2: "hstate ?s2 = hstate s" using c by (simp add: hstate_set_client)
    have d: "disconnect_handler i ?s2 = Inr s'"
      using f c Some by (simp add: finish_current_handler_def get_client_def case_prod_unfold Let_def)
    show ?thesis
      using disconnect_handler_free[OF handlers_ok_cong[OF h2 ok] _ d, of hid] free_handler_hstate[OF h2] free
      by simp
  qed
  then show "free_handler hid s'" and "map_of (clients s') i = Some c' \<Longrightarrow> current_handler_id c' = None"
    by blast+
qed

text \<open>Registering a free handler for a client that does not wait.\<close>

lemma connect_handler_ok:
  assumes ok: "handlers_ok s" and free: "free_handler hid s" and c: "map_of (clients s) i = Some c"
    and none: "current_handler_id c = None"
  shows "\<exists>s'. connect_handler hid nm now i s = Inr s' \<and> handlers_ok s' \<and> registry s' = registry s"
proof -
  have tn: "timeout_handle c = None" using handlers_okD(2)[OF ok c] none by (cases "timeout_handle c") auto
  have fd: "hid \<in> set (handlers s)" "map_of (descriptors_by_handler_id s) hid = None"
    using free by (simp_all add: free_handler_def)
  have no: "map_of (clients s) j = Some d \<Longrightarrow> current_handler_id d \<noteq> Some hid" for j d
    using handlers_okD(1)[OF ok, of j d hid] fd(2) by auto
  have tl: "map_of (timeouts s) t = Some j \<Longrightarrow> t \<noteq> next_timeout s" for t j
    using ok by (auto simp: handlers_ok_def)
  have hl: "hid < latest_handler_id s" using fd(1) ok by (simp add: handlers_ok_def)
  let ?b = "client_type_name c \<noteq> ''API: heartbeat test''"
  let ?c = "c\<lparr>current_handler_id := Some hid, current_client_name := Some nm, last_connection_time := now\<rparr>"
  let ?s1 = "s\<lparr>descriptors_by_handler_id := dset hid i (descriptors_by_handler_id s)\<rparr>"
  let ?s2 = "?s1\<lparr>timeouts := dset (next_timeout s) i (timeouts s), next_timeout := Suc (next_timeout s)\<rparr>"
  let ?s' = "if ?b then set_client i (?c\<lparr>timeout_handle := Some (next_timeout s)\<rparr>) ?s2 else set_client i ?c ?s1"
  have run: "connect_handler hid nm now i s = Inr ?s'"
    using c by (simp add: connect_handler_def get_client_def set_descriptor_by_handler_id_def Let_def)
  have tb: "map_of (timeouts s) (next_timeout s) = None"
    using tl by (cases "map_of (timeouts s) (next_timeout s)") auto
  have ti: "map_of (timeouts s) t \<noteq> Some i" for t
  proof
    assume "map_of (timeouts s) t = Some i"
    then obtain d where "map_of (clients s) i = Some d" "timeout_handle d = Some t"
      using ok unfolding handlers_ok_def by blast
    then show False using c tn by simp
  qed
  have dd: "j \<noteq> i \<and> h \<noteq> hid \<and> (\<exists>d. map_of (clients s) j = Some d \<and> current_handler_id d = Some h)"
    if "map_of (descriptors_by_handler_id s) h = Some j" "h \<noteq> 0" for h j
  proof -
    obtain d where "map_of (clients s) j = Some d" "current_handler_id d = Some h"
      using ok \<open>map_of (descriptors_by_handler_id s) h = Some j\<close> \<open>h \<noteq> 0\<close> unfolding handlers_ok_def by blast
    then show ?thesis using c none fd(2) that(1) by auto
  qed
  have "handlers_ok ?s'"
    unfolding handlers_ok_def
  proof (intro conjI allI impI ballI)
    fix h j assume h: "map_of (descriptors_by_handler_id ?s') h = Some j"
    show "h < latest_handler_id ?s'" using h handlers_okD(3)[OF ok] hl by (auto split: if_splits)
    show "\<exists>d. map_of (clients ?s') j = Some d \<and> current_handler_id d = Some h" if "h \<noteq> 0"
      using h dd[OF _ that] by (auto split: if_splits)
  next
    fix j d h assume d: "map_of (clients ?s') j = Some d" "current_handler_id d = Some h"
    then show "h \<in> set (handlers ?s')" "map_of (descriptors_by_handler_id ?s') h = Some j"
      using handlers_okD(1)[OF ok, of j d h] no[of j d] fd by (auto split: if_splits)
  next
    fix j d t assume d: "map_of (clients ?s') j = Some d" "timeout_handle d = Some t"
    then show "current_handler_id d \<noteq> None" "map_of (timeouts ?s') t = Some j"
      using handlers_okD(2)[OF ok, of j d t] tn tb by (auto split: if_splits)
  next
    fix t j assume t: "map_of (timeouts ?s') t = Some j"
    have T: "u < next_timeout s \<and> (\<exists>d. map_of (clients s) k = Some d \<and> timeout_handle d = Some u)"
      if "map_of (timeouts s) u = Some k" for u k
      using ok that by (simp add: handlers_ok_def)
    show "t < next_timeout ?s'" using t T[of t j] by (auto split: if_splits)
    show "\<exists>d. map_of (clients ?s') j = Some d \<and> timeout_handle d = Some t"
      using t T[of t j] ti[of t] by (auto split: if_splits)
  qed (use ok in \<open>auto simp: handlers_ok_def\<close>)
  moreover have "registry ?s' = registry s"
    using c by (auto simp: registry_set_client)
  ultimately show ?thesis using run by blast
qed

section \<open>Adding a client\<close>

definition names_fresh :: "int \<Rightarrow> tornado \<Rightarrow> bool" where
  "names_fresh gen s \<longleftrightarrow> (\<forall>n \<ge> next_queue_id s. map_of (clients s) (new_queue_name gen n) = None)"

lemma new_queue_name_inj [simp]: "new_queue_name gen n = new_queue_name gen m \<longleftrightarrow> n = m"
  by (simp add: new_queue_name_def)

text \<open>What every client made by \<open>ClientDescriptor.__init__\<close> satisfies.\<close>

definition client_valid :: "client \<Rightarrow> bool" where
  "client_valid c \<longleftrightarrow> check_supported_events_narrow_filter (narrow c) = Inr () \<and>
     IDLE_EVENT_QUEUE_TIMEOUT_SECS \<le> queue_timeout c \<and> queue_timeout c \<le> MAX_QUEUE_TIMEOUT_SECS"

lemma new_client_descriptor_valid:
  "new_client_descriptor uid email rid q types ctn markdown ap lifespan nrw now = Inr c \<Longrightarrow> client_valid c"
  by (auto simp: new_client_descriptor_def client_valid_def build_narrow_filter_def
      IDLE_EVENT_QUEUE_TIMEOUT_SECS_def MAX_QUEUE_TIMEOUT_SECS_def)

lemma client_from_dict_valid: "client_from_dict email_of now d h = Inr (c, h') \<Longrightarrow> client_valid c"
  by (auto simp: client_from_dict_def client_valid_def dest: new_client_descriptor_valid)

definition clients_valid :: "tornado \<Rightarrow> bool" where
  "clients_valid s \<longleftrightarrow> (\<forall>i c. map_of (clients s) i = Some c \<longrightarrow> client_valid c)"

lemma clients_valid_same: "registry s' = registry s \<Longrightarrow> clients_valid s \<Longrightarrow> clients_valid s'"
proof -
  assume eq: "registry s' = registry s" and ok: "clients_valid s"
  have "client_valid c" if c: "map_of (clients s') i = Some c" for i c
  proof -
    obtain d where d: "map_of (clients s) i = Some d" "static d = static c"
      using registry_clients[OF eq, of i] c by (cases "map_of (clients s) i") auto
    have "queue_timeout d = queue_timeout c"
      using arg_cong[OF d(2), of queue_timeout] by (simp add: static_def)
    moreover have "client_valid d" using ok d(1) by (simp add: clients_valid_def)
    ultimately show ?thesis using static_eqD(4)[OF d(2)] by (simp add: client_valid_def)
  qed
  then show ?thesis by (simp add: clients_valid_def)
qed

lemma migrate_client_dict_other:
  "migrate_client_dict email_of d = Inr d2 \<Longrightarrow> k \<noteq> ''user_profile_email'' \<Longrightarrow> k \<noteq> ''client_type_name'' \<Longrightarrow>
   map_of d2 k = map_of d k"
  by (auto simp: migrate_client_dict_def split: if_splits option.splits)

lemma client_from_dict_fields:
  assumes "client_from_dict email_of now d h = Inr (c, h')"
  shows "waits c = (None, None)"
    and "map_of d ''event_queue'' = Some (PDict (eq_to_dict g (new_event_queue i))) \<Longrightarrow>
      client_queue c = new_event_queue i"
proof -
  obtain d2 q n where d2: "migrate_client_dict email_of d = Inr d2" and q: "get_dict d2 ''event_queue'' = Inr q"
    "eq_from_dict q h = Inr (client_queue c, n)" and w: "waits c = (None, None)"
    using assms by (auto simp: client_from_dict_def new_client_descriptor_def waits_def)
  show "waits c = (None, None)" by (rule w)
  have "map_of d2 ''event_queue'' = map_of d ''event_queue''"
    using d2 by (rule migrate_client_dict_other) simp_all
  then show "client_queue c = new_event_queue i"
    if "map_of d ''event_queue'' = Some (PDict (eq_to_dict g (new_event_queue i)))"
    using that q by (auto simp: py_simps eq_from_dict_def eq_to_dict_def new_event_queue_def)
qed

lemma dlist_dappend: "dlist (dappend k x d) k' = (if k' = k then dlist d k @ [x] else dlist d k')"
  by (simp add: dappend_def dlist_def)

lemma lists_ok_dappend: "lists_ok d \<Longrightarrow> x \<notin> set (dlist d k) \<Longrightarrow> lists_ok (dappend k x d)"
  by (auto simp: lists_ok_def dappend_def dlist_def split: option.splits)

lemma add_client_registry:
  assumes ok: "registry_ok s" and new: "map_of (clients s) i = None" and id: "eq_id (client_queue c) = i"
  shows "registry_ok (add_to_client_dicts i c (set_client i c s))"
proof -
  let ?s = "add_to_client_dicts i c (set_client i c s)"
  have U: "j \<in> set (get_client_descriptors_for_user u s) \<longleftrightarrow> (\<exists>d. map_of (clients s) j = Some d \<and> user_profile_id d = u)"
    and R: "j \<in> set (get_client_descriptors_for_realm_all_streams r s) \<longleftrightarrow>
      (\<exists>d. map_of (clients s) j = Some d \<and> client_realm_id d = r \<and> in_realm_list d)" for u r j
    using ok by (simp_all add: registry_ok_def)
  have cl: "clients ?s = dset i c (clients s)" by (simp add: add_to_client_dicts_def set_client_def Let_def)
  have us: "user_clients ?s = dappend (user_profile_id c) i (user_clients s)"
    by (simp add: add_to_client_dicts_def set_client_def Let_def)
  have rs: "realm_clients_all_streams ?s = (if in_realm_list c
      then dappend (client_realm_id c) i (realm_clients_all_streams s) else realm_clients_all_streams s)"
    by (simp add: add_to_client_dicts_def set_client_def Let_def)
  have nu: "i \<notin> set (dlist (user_clients s) u)" and nr: "i \<notin> set (dlist (realm_clients_all_streams s) r)" for u r
    using U[of i u] R[of i r] new
    by (auto simp: get_client_descriptors_for_user_def get_client_descriptors_for_realm_all_streams_def)
  show ?thesis
    unfolding registry_ok_def
  proof (intro conjI allI)
    show "distinct (map fst (clients ?s))" using ok cl by (simp add: registry_ok_def)
    show "map_of (clients ?s) j = Some d \<longrightarrow> eq_id (client_queue d) = j" for j d
      using ok cl id by (auto simp: registry_ok_def)
    show "lists_ok (user_clients ?s)" using ok nu us by (simp add: registry_ok_def lists_ok_dappend)
    show "lists_ok (realm_clients_all_streams ?s)" using ok nr rs by (simp add: registry_ok_def lists_ok_dappend)
    show "j \<in> set (get_client_descriptors_for_user u ?s) \<longleftrightarrow>
        (\<exists>d. map_of (clients ?s) j = Some d \<and> user_profile_id d = u)" for j u
      using U[of j u] nu[of u] new by (auto simp: cl us get_client_descriptors_for_user_def dlist_dappend)
    show "j \<in> set (get_client_descriptors_for_realm_all_streams r ?s) \<longleftrightarrow>
        (\<exists>d. map_of (clients ?s) j = Some d \<and> client_realm_id d = r \<and> in_realm_list d)" for j r
      using R[of j r] nr[of r] new
      by (auto simp: cl rs get_client_descriptors_for_realm_all_streams_def dlist_dappend)
  qed
qed

lemma add_client_handlers:
  assumes ok: "handlers_ok s" and new: "map_of (clients s) i = None" and w: "waits c = (None, None)"
  shows "handlers_ok (set_client i c s)"
proof -
  have N: "current_handler_id c = None" "timeout_handle c = None" using w by (simp_all add: waits_def)
  show ?thesis
    unfolding handlers_ok_def
  proof (intro conjI allI impI ballI)
    fix h j assume "map_of (descriptors_by_handler_id (set_client i c s)) h = Some j" "h \<noteq> 0"
    then have "\<exists>d. map_of (clients s) j = Some d \<and> current_handler_id d = Some h"
      using ok by (simp add: handlers_ok_def)
    then show "\<exists>d. map_of (clients (set_client i c s)) j = Some d \<and> current_handler_id d = Some h"
      using new by auto
  next
    fix t j assume "map_of (timeouts (set_client i c s)) t = Some j"
    then have "t < next_timeout s \<and> (\<exists>d. map_of (clients s) j = Some d \<and> timeout_handle d = Some t)"
      using ok by (simp add: handlers_ok_def)
    then show "t < next_timeout (set_client i c s)"
      "\<exists>d. map_of (clients (set_client i c s)) j = Some d \<and> timeout_handle d = Some t"
      using new by auto
  next
    fix j d t assume "map_of (clients (set_client i c s)) j = Some d" "timeout_handle d = Some t"
    then show "current_handler_id d \<noteq> None" "map_of (timeouts (set_client i c s)) t = Some j"
      using handlers_okD(2)[OF ok, of j d t] N by (auto split: if_splits)
  next
    fix j d h assume "map_of (clients (set_client i c s)) j = Some d" "current_handler_id d = Some h"
    then show "h \<in> set (handlers (set_client i c s))" "map_of (descriptors_by_handler_id (set_client i c s)) h = Some j"
      using handlers_okD(1)[OF ok, of j d h] N by (auto split: if_splits)
  qed (use ok in \<open>auto simp: handlers_ok_def\<close>)
qed

lemma add_to_client_dicts_hstate [simp]: "hstate (add_to_client_dicts i c s) = hstate s"
  by (simp add: add_to_client_dicts_def Let_def)

text \<open>Allocation: the new queue is empty and has a name not used before.\<close>

lemma allocate_ok:
  assumes reg: "registry_ok s" and han: "handlers_ok s" and fr: "names_fresh gen s"
    and al: "allocate_client_descriptor gen email_of now d s = (r, s')"
  shows "registry_ok s'" "handlers_ok s'" "names_fresh gen s'" "free_handler hid s \<Longrightarrow> free_handler hid s'"
    "r = Inr i \<Longrightarrow> i = new_queue_name gen (next_queue_id s) \<and> map_of (clients s) i = None \<and>
       (\<exists>c. map_of (clients s') i = Some c \<and> client_queue c = new_event_queue i \<and> waits c = (None, None))"
    "clients_valid s \<Longrightarrow> clients_valid s'"
proof -
  let ?i = "new_queue_name gen (next_queue_id s)" and ?s1 = "s\<lparr>next_queue_id := next_queue_id s + 1\<rparr>"
  let ?d = "dset ''event_queue'' (PDict (eq_to_dict (heap s) (new_event_queue ?i))) d"
  have new: "map_of (clients s) ?i = None" using fr by (simp add: names_fresh_def)
  have reg1: "registry_ok (?s1\<lparr>heap := h\<rparr>)" for h
    using reg by (simp add: registry_ok_def get_client_descriptors_for_user_def
        get_client_descriptors_for_realm_all_streams_def)
  have han1: "handlers_ok (?s1\<lparr>heap := h\<rparr>)" for h by (rule handlers_ok_cong[OF _ han]) simp
  have "registry_ok s' \<and> handlers_ok s' \<and> names_fresh gen s' \<and> (free_handler hid s \<longrightarrow> free_handler hid s') \<and>
    (r = Inr i \<longrightarrow> i = ?i \<and> map_of (clients s) i = None \<and>
       (\<exists>c. map_of (clients s') i = Some c \<and> client_queue c = new_event_queue i \<and> waits c = (None, None))) \<and>
    (clients_valid s \<longrightarrow> clients_valid s')"
  proof (cases "client_from_dict email_of now ?d (heap s)")
    case (Inl e)
    then have s': "s' = ?s1" "r = Inl e" using al by (simp_all add: allocate_client_descriptor_def Let_def)
    have "?s1 = ?s1\<lparr>heap := heap s\<rparr>" by simp
    with reg1[of "heap s"] han1[of "heap s"] fr s' show ?thesis
      by (auto simp: names_fresh_def free_handler_def clients_valid_def)
  next
    case (Inr p)
    then obtain c h where p: "client_from_dict email_of now ?d (heap s) = Inr (c, h)" by (cases p) auto
    have w: "waits c = (None, None)" using p by (rule client_from_dict_fields(1))
    have q: "client_queue c = new_event_queue ?i"
      using p by (rule client_from_dict_fields(2)[of _ _ _ _ _ _ "heap s"]) simp
    let ?s2 = "set_client ?i c (?s1\<lparr>heap := h\<rparr>)"
    have s': "s' = add_to_client_dicts ?i c ?s2" and r: "r = Inr ?i"
      using al p by (auto simp: allocate_client_descriptor_def Let_def)
    have "registry_ok s'"
      unfolding s' using reg1[of h] by (rule add_client_registry) (use new q in \<open>simp_all add: new_event_queue_def\<close>)
    moreover have "handlers_ok s'"
      unfolding s' by (rule handlers_ok_cong[OF add_to_client_dicts_hstate])
        (rule add_client_handlers[OF han1 _ w], use new in simp)
    moreover have cl: "map_of (clients s') = (map_of (clients s))(?i \<mapsto> c)" and n: "next_queue_id s' = next_queue_id s + 1"
      by (simp_all add: s' add_to_client_dicts_def Let_def)
    moreover have "names_fresh gen s'" using fr cl n by (auto simp: names_fresh_def)
    moreover have "free_handler hid s \<longrightarrow> free_handler hid s'"
      by (simp add: s' add_to_client_dicts_def free_handler_def Let_def)
    moreover have "clients_valid s \<longrightarrow> clients_valid s'"
      using cl client_from_dict_valid[OF p] by (auto simp: clients_valid_def)
    ultimately show ?thesis using r w q new by auto
  qed
  then show "registry_ok s'" "handlers_ok s'" "names_fresh gen s'" "free_handler hid s \<Longrightarrow> free_handler hid s'"
    "r = Inr i \<Longrightarrow> i = new_queue_name gen (next_queue_id s) \<and> map_of (clients s) i = None \<and>
       (\<exists>c. map_of (clients s') i = Some c \<and> client_queue c = new_event_queue i \<and> waits c = (None, None))"
    "clients_valid s \<Longrightarrow> clients_valid s'"
    by blast+
qed

section \<open>Collecting clients\<close>

lemma dlist_filter_client_dict:
  "dlist (filter_client_dict R d k) k' = (if k' = k then filter (\<lambda>i. i \<notin> set R) (dlist d k) else dlist d k')"
  by (auto simp: filter_client_dict_def dlist_def Let_def split: option.splits)

lemma dlist_filter_all:
  "dlist (foldl (filter_client_dict R) d ks) k =
     (if k \<in> set ks then filter (\<lambda>i. i \<notin> set R) (dlist d k) else dlist d k)"
  by (induction ks arbitrary: d) (auto simp: dlist_filter_client_dict)

lemma lists_ok_filter: "lists_ok d \<Longrightarrow> lists_ok (filter_client_dict R d k)"
  by (auto simp: lists_ok_def filter_client_dict_def Let_def split: option.splits)

lemma lists_ok_filter_all: "lists_ok d \<Longrightarrow> lists_ok (foldl (filter_client_dict R) d ks)"
  by (induction ks arbitrary: d) (auto intro: lists_ok_filter)

text \<open>The state without some clients.\<close>

definition drop_clients :: "string list \<Rightarrow> tornado \<Rightarrow> tornado" where
  "drop_clients R s = s\<lparr>clients := filter (\<lambda>p. fst p \<notin> set R) (clients s)\<rparr>"

lemma map_of_drop [simp]:
  "map_of (clients (drop_clients R s)) i = (if i \<in> set R then None else map_of (clients s) i)"
proof -
  have "map_of (filter (\<lambda>p. fst p \<notin> set R) l) i = (if i \<in> set R then None else map_of l i)" for l :: "(string \<times> client) list"
    by (induction l) auto
  then show ?thesis by (simp add: drop_clients_def)
qed

lemma missedmessage_hook_effect:
  assumes "missedmessage_hook now uid i b s = Inr s'"
  shows "registry s' = registry s" "hstate s' = hstate s" "heap s' = heap s"
    "j \<noteq> i \<Longrightarrow> map_of (clients s') j = map_of (clients s) j"
proof -
  have pub: "registry (foldl (send_missed now uid) t ns) = registry t \<and> hstate (foldl (send_missed now uid) t ns) = hstate t \<and>
      heap (foldl (send_missed now uid) t ns) = heap t \<and> clients (foldl (send_missed now uid) t ns) = clients t" for t ns
    by (induction ns arbitrary: t) (simp_all add: send_missed_def publish_def Let_def)
  have "registry s' = registry s \<and> hstate s' = hstate s \<and> heap s' = heap s \<and>
    (j \<noteq> i \<longrightarrow> map_of (clients s') j = map_of (clients s) j)"
  proof (cases b)
    case False
    then show ?thesis using assms by (simp add: missedmessage_hook_def)
  next
    case True
    then obtain c ns where c: "map_of (clients s) i = Some c"
      and s': "s' = foldl (send_missed now uid)
        (set_client i (c\<lparr>client_queue := snd (contents (heap s) (client_queue c))\<rparr>) s) ns"
      using assms by (auto simp: missedmessage_hook_def case_prod_unfold Let_def)
    show ?thesis using c by (simp add: s' pub registry_set_client hstate_set_client)
  qed
  then show "registry s' = registry s" "hstate s' = hstate s" "heap s' = heap s"
    "j \<noteq> i \<Longrightarrow> map_of (clients s') j = map_of (clients s) j" by blast+
qed

text \<open>Registry and handlers after a removal depend only on those before it.\<close>

lemma drop_clients_registry:
  "registry s' = registry s \<Longrightarrow> registry (drop_clients R s') = registry (drop_clients R s)"
proof -
  have m: "map (map_prod id static) (filter (\<lambda>p. fst p \<notin> set R) l) =
      filter (\<lambda>p. fst p \<notin> set R) (map (map_prod id static) l)" for l :: "(string \<times> client) list"
    by (induction l) auto
  show "registry s' = registry s \<Longrightarrow> registry (drop_clients R s') = registry (drop_clients R s)"
    by (simp add: registry_def drop_clients_def m)
qed

lemma drop_clients_hstate:
  "hstate s' = hstate s \<Longrightarrow> hstate (drop_clients R s') = hstate (drop_clients R s)"
  by (auto simp: hstate_def fun_eq_iff) (simp_all add: drop_clients_def)

lemma remove_client_effect:
  assumes "remove_client (gc_hooks now) s i = Inr s'"
  shows "registry s' = registry (drop_clients [i] s)" "hstate s' = hstate (drop_clients [i] s)" "heap s' = heap s"
    "j \<noteq> i \<Longrightarrow> map_of (clients s') j = map_of (clients s) j" "map_of (clients s) i \<noteq> None"
    "map_of (clients s') i = None"
proof -
  obtain c t b where c: "map_of (clients s) i = Some c"
    and t: "missedmessage_hook now (user_profile_id c) i b s = Inr t"
    and s': "s' = t\<lparr>clients := ddel i (clients t)\<rparr>"
    using assms by (auto simp: remove_client_def gc_hooks_def)
  have drop: "s' = drop_clients [i] t"
    by (simp add: s' drop_clients_def AList.delete_eq case_prod_unfold eq_commute)
  note e = missedmessage_hook_effect[OF t]
  show "registry s' = registry (drop_clients [i] s)" unfolding drop using e(1) by (rule drop_clients_registry)
  show "hstate s' = hstate (drop_clients [i] s)" unfolding drop using e(2) by (rule drop_clients_hstate)
  show "heap s' = heap s" "j \<noteq> i \<Longrightarrow> map_of (clients s') j = map_of (clients s) j" "map_of (clients s') i = None"
    using e(3,4) by (simp_all add: s')
  show "map_of (clients s) i \<noteq> None" using c by simp
qed

lemma remove_clients_effect:
  assumes "efold (remove_client (gc_hooks now)) s R = Inr s'"
  shows "registry s' = registry (drop_clients R s) \<and> hstate s' = hstate (drop_clients R s) \<and> heap s' = heap s \<and>
    (\<forall>j. j \<notin> set R \<longrightarrow> map_of (clients s') j = map_of (clients s) j) \<and> (\<forall>j \<in> set R. map_of (clients s') j = None)"
  using assms
proof (induction R arbitrary: s)
  case Nil
  then show ?case by (simp add: drop_clients_def)
next
  case (Cons i R)
  then obtain t where t: "remove_client (gc_hooks now) s i = Inr t"
    and r: "efold (remove_client (gc_hooks now)) t R = Inr s'" by auto
  note e = remove_client_effect[OF t] and IH = Cons.IH[OF r]
  have dd: "drop_clients R (drop_clients [i] s) = drop_clients (i # R) s"
    by (simp add: drop_clients_def conj_commute)
  have "registry s' = registry (drop_clients (i # R) s)" "hstate s' = hstate (drop_clients (i # R) s)"
    using IH drop_clients_registry[OF e(1), of R] drop_clients_hstate[OF e(2), of R] dd by simp_all
  moreover have "map_of (clients s') j = map_of (clients s) j" if "j \<notin> set (i # R)" for j
    using IH e(4)[of j] that by simp
  moreover have "map_of (clients s') j = None" if "j \<in> set (i # R)" for j
  proof (cases "j \<in> set R")
    case False
    then show ?thesis using IH e(6) that by auto
  qed (use IH in blast)
  ultimately show ?case using IH e(3) by auto
qed

lemma drop_clients_handlers:
  assumes ok: "handlers_ok s" and w: "\<And>i c. i \<in> set R \<Longrightarrow> map_of (clients s) i = Some c \<Longrightarrow> waits c = (None, None)"
  shows "handlers_ok (drop_clients R s)"
proof -
  have f: "handlers (drop_clients R s) = handlers s" "latest_handler_id (drop_clients R s) = latest_handler_id s"
    "descriptors_by_handler_id (drop_clients R s) = descriptors_by_handler_id s"
    "timeouts (drop_clients R s) = timeouts s" "next_timeout (drop_clients R s) = next_timeout s"
    by (simp_all add: drop_clients_def)
  show ?thesis
    unfolding handlers_ok_def f
  proof (intro conjI allI impI ballI)
    fix h j assume "map_of (descriptors_by_handler_id s) h = Some j" "h \<noteq> 0"
    then obtain d where "map_of (clients s) j = Some d" "current_handler_id d = Some h"
      using ok unfolding handlers_ok_def by blast
    then show "\<exists>d. map_of (clients (drop_clients R s)) j = Some d \<and> current_handler_id d = Some h"
      using w by (auto simp: waits_def)
  next
    fix t j assume "map_of (timeouts s) t = Some j"
    then have tt: "t < next_timeout s \<and> (\<exists>d. map_of (clients s) j = Some d \<and> timeout_handle d = Some t)"
      using ok by (simp add: handlers_ok_def)
    then show "t < next_timeout s" by blast
    from tt obtain d where "map_of (clients s) j = Some d" "timeout_handle d = Some t" by blast
    then show "\<exists>d. map_of (clients (drop_clients R s)) j = Some d \<and> timeout_handle d = Some t"
      using w by (auto simp: waits_def)
  qed (use ok in \<open>auto simp: handlers_ok_def split: if_splits\<close>)
qed

text \<open>
  \<open>do_gc_event_queues\<close> with the users and realms of the clients to remove: exactly these
  clients are gone, from every table.
\<close>

lemma do_gc_registry:
  assumes ok: "registry_ok s"
    and cover: "\<And>i c. i \<in> set R \<Longrightarrow> map_of (clients s) i = Some c \<Longrightarrow> user_profile_id c \<in> set us \<and> client_realm_id c \<in> set rs"
    and gc: "do_gc_event_queues (gc_hooks now) R us rs s = Inr s'"
  shows "registry_ok s'" "heap s' = heap s" "hstate s' = hstate (drop_clients R s)" "next_queue_id s' = next_queue_id s"
    "\<And>j. j \<notin> set R \<Longrightarrow> map_of (clients s') j = map_of (clients s) j"
    "\<And>j. j \<in> set R \<Longrightarrow> map_of (clients s') j = None"
proof -
  let ?t = "s\<lparr>user_clients := foldl (filter_client_dict R) (user_clients s) us,
    realm_clients_all_streams := foldl (filter_client_dict R) (realm_clients_all_streams s) rs\<rparr>"
  have run: "efold (remove_client (gc_hooks now)) ?t R = Inr s'"
    using gc by (simp add: do_gc_event_queues_def Let_def)
  note e = remove_clients_effect[OF run]
  have U: "j \<in> set (dlist (user_clients s) u) \<longleftrightarrow> (\<exists>d. map_of (clients s) j = Some d \<and> user_profile_id d = u)"
    and Rm: "j \<in> set (dlist (realm_clients_all_streams s) r) \<longleftrightarrow>
      (\<exists>d. map_of (clients s) j = Some d \<and> client_realm_id d = r \<and> in_realm_list d)" for u r j
    using ok by (simp_all add: registry_ok_def get_client_descriptors_for_user_def
        get_client_descriptors_for_realm_all_streams_def)
  have tables: "user_clients (drop_clients R ?t) = foldl (filter_client_dict R) (user_clients s) us"
    "realm_clients_all_streams (drop_clients R ?t) = foldl (filter_client_dict R) (realm_clients_all_streams s) rs"
    by (simp_all add: drop_clients_def)
  have cl: "map_of (clients (drop_clients R ?t)) j = (if j \<in> set R then None else map_of (clients s) j)" for j
    by simp
  have "registry_ok (drop_clients R ?t)"
    unfolding registry_ok_def get_client_descriptors_for_user_def
      get_client_descriptors_for_realm_all_streams_def tables cl dlist_filter_all
  proof (intro conjI allI)
    show "distinct (map fst (clients (drop_clients R ?t)))"
      using ok by (simp add: registry_ok_def drop_clients_def distinct_map_filter)
    show "lists_ok (foldl (filter_client_dict R) (user_clients s) us)"
      "lists_ok (foldl (filter_client_dict R) (realm_clients_all_streams s) rs)"
      using ok by (simp_all add: registry_ok_def lists_ok_filter_all)
    show "(if j \<in> set R then None else map_of (clients s) j) = Some c \<longrightarrow> eq_id (client_queue c) = j" for j c
      using ok by (simp add: registry_ok_def)
    show "j \<in> set (if u \<in> set us then filter (\<lambda>i. i \<notin> set R) (dlist (user_clients s) u) else dlist (user_clients s) u) \<longleftrightarrow>
        (\<exists>c. (if j \<in> set R then None else map_of (clients s) j) = Some c \<and> user_profile_id c = u)" for j u
      using cover U[of j u] by auto
    show "j \<in> set (if r \<in> set rs then filter (\<lambda>i. i \<notin> set R) (dlist (realm_clients_all_streams s) r)
            else dlist (realm_clients_all_streams s) r) \<longleftrightarrow>
        (\<exists>c. (if j \<in> set R then None else map_of (clients s) j) = Some c \<and> client_realm_id c = r \<and> in_realm_list c)" for j r
      using cover Rm[of j r] by auto
  qed
  then show "registry_ok s'" using e registry_ok_same by blast
  show "heap s' = heap s" "\<And>j. j \<notin> set R \<Longrightarrow> map_of (clients s') j = map_of (clients s) j"
    "\<And>j. j \<in> set R \<Longrightarrow> map_of (clients s') j = None"
    using e by simp_all
  have "hstate (drop_clients R ?t) = hstate (drop_clients R s)"
    by (rule drop_clients_hstate) simp
  then show "hstate s' = hstate (drop_clients R s)" using e by simp
  show "next_queue_id s' = next_queue_id s" using e by (simp add: registry_def drop_clients_def)
qed

section \<open>Runs of the process\<close>

definition tornado_inv :: "int \<Rightarrow> tornado \<Rightarrow> bool" where
  "tornado_inv gen s \<longleftrightarrow> registry_ok s \<and> handlers_ok s \<and> names_fresh gen s \<and> clients_valid s"

lemma names_fresh_same: "registry s' = registry s \<Longrightarrow> names_fresh gen s \<Longrightarrow> names_fresh gen s'"
proof -
  assume eq: "registry s' = registry s" and fr: "names_fresh gen s"
  have "map_of (clients s') i = None" if "map_of (clients s) i = None" for i
    using registry_clients[OF eq, of i] that by (simp add: map_option_is_None)
  then show ?thesis using fr eq by (auto simp: names_fresh_def registry_def)
qed

lemma keeps_inv: "keeps s s' \<Longrightarrow> tornado_inv gen s \<Longrightarrow> tornado_inv gen s'"
  using names_fresh_same registry_ok_same clients_valid_same by (auto simp: tornado_inv_def keeps_def)

lemma do_gc_inv:
  assumes inv: "tornado_inv gen s"
    and cover: "\<And>i c. i \<in> set R \<Longrightarrow> map_of (clients s) i = Some c \<Longrightarrow>
      user_profile_id c \<in> set us \<and> client_realm_id c \<in> set rs \<and> current_handler_id c = None"
    and gc: "do_gc_event_queues (gc_hooks now) R us rs s = Inr s'"
  shows "tornado_inv gen s'"
proof -
  have ok: "registry_ok s" "handlers_ok s" "names_fresh gen s" using inv by (simp_all add: tornado_inv_def)
  have w: "waits c = (None, None)" if "i \<in> set R" "map_of (clients s) i = Some c" for i c
    using cover[OF that] handlers_okD(2)[OF ok(2) that(2)] by (cases "timeout_handle c") (auto simp: waits_def)
  have cov: "user_profile_id c \<in> set us \<and> client_realm_id c \<in> set rs"
    if "i \<in> set R" "map_of (clients s) i = Some c" for i c
    using cover[OF that] by simp
  note g = do_gc_registry[OF ok(1) cov gc]
  have "handlers_ok s'" using g(3) drop_clients_handlers[OF ok(2) w] by (rule handlers_ok_cong)
  moreover have "map_of (clients s') i = None" if "map_of (clients s) i = None" for i
    using g(5,6) that by (cases "i \<in> set R") auto
  then have "names_fresh gen s'" using ok(3) g(4) by (simp add: names_fresh_def)
  moreover have "client_valid c" if "map_of (clients s') i = Some c" for i c
  proof (cases "i \<in> set R")
    case True
    with ok(1) cov gc have "map_of (clients s') i = None" by (rule do_gc_registry(6))
    then show ?thesis using that by simp
  next
    case False
    with ok(1) cov gc have "map_of (clients s') i = map_of (clients s) i" by (rule do_gc_registry(5))
    then show ?thesis using that inv by (simp add: tornado_inv_def clients_valid_def)
  qed
  then have "clients_valid s'" by (simp add: clients_valid_def)
  ultimately show ?thesis using g(1) by (simp add: tornado_inv_def)
qed

lemma map_of_idle: "distinct (map fst cs) \<Longrightarrow> i \<in> set (map fst (filter (\<lambda>(i, c). idle c t) cs)) \<longleftrightarrow>
    (\<exists>c. map_of cs i = Some c \<and> idle c t)"
  by (induction cs) (auto simp: map_of_eq_None_iff image_iff split: if_splits)

text \<open>The collector removes the idle clients, all of them and no other.\<close>

lemma gc_event_queues_effect:
  assumes inv: "tornado_inv gen s" and gc: "gc_event_queues now s = Inr s'"
  shows "tornado_inv gen s'"
    "map_of (clients s') i = (case map_of (clients s) i of
       None \<Rightarrow> None | Some c \<Rightarrow> if idle c now then None else Some c)"
proof -
  let ?dead = "filter (\<lambda>(i, c). idle c now) (clients s)"
  have ok: "registry_ok s" using inv by (simp add: tornado_inv_def)
  then have dist: "distinct (map fst (clients s))" by (simp add: registry_ok_def)
  have run: "do_gc_event_queues (gc_hooks now) (map fst ?dead) (remdups (map (\<lambda>(i, c). user_profile_id c) ?dead))
      (remdups (map (\<lambda>(i, c). client_realm_id c) ?dead)) s = Inr s'"
    using gc by (simp add: gc_event_queues_def Let_def)
  have R: "j \<in> set (map fst ?dead) \<longleftrightarrow> (\<exists>c. map_of (clients s) j = Some c \<and> idle c now)" for j
    using dist by (rule map_of_idle)
  have cov: "user_profile_id c \<in> set (remdups (map (\<lambda>(i, c). user_profile_id c) ?dead)) \<and>
      client_realm_id c \<in> set (remdups (map (\<lambda>(i, c). client_realm_id c) ?dead)) \<and> current_handler_id c = None"
    if "j \<in> set (map fst ?dead)" "map_of (clients s) j = Some c" for j c
  proof -
    have "idle c now" using R that by auto
    then have "(j, c) \<in> set ?dead" using map_of_SomeD[OF that(2)] by simp
    then show ?thesis using \<open>idle c now\<close> by (force simp: idle_def)
  qed
  show "tornado_inv gen s'" using inv cov run by (rule do_gc_inv)
  have cov': "user_profile_id c \<in> set (remdups (map (\<lambda>(i, c). user_profile_id c) ?dead)) \<and>
      client_realm_id c \<in> set (remdups (map (\<lambda>(i, c). client_realm_id c) ?dead))"
    if "j \<in> set (map fst ?dead)" "map_of (clients s) j = Some c" for j c
    using cov[OF that] by simp
  show "map_of (clients s') i = (case map_of (clients s) i of
      None \<Rightarrow> None | Some c \<Rightarrow> if idle c now then None else Some c)"
  proof (cases "i \<in> set (map fst ?dead)")
    case True
    then show ?thesis using do_gc_registry(6)[OF ok cov' run True] R[of i] by auto
  next
    case False
    then have "\<not> (\<exists>c. map_of (clients s) i = Some c \<and> idle c now)" using R[of i] by simp
    then show ?thesis using do_gc_registry(5)[OF ok cov' run False] by (auto split: option.splits)
  qed
qed

lemma cleanup_inv:
  assumes inv: "tornado_inv gen s" and cl: "cleanup now i s = Inr s'"
  shows "tornado_inv gen s'" "map_of (clients s') i = None" "j \<noteq> i \<Longrightarrow> map_of (clients s') j = map_of (clients s) j"
proof -
  obtain b t c where f: "finish_current_handler i s = Inr (b, t)" and c: "map_of (clients t) i = Some c"
    and run: "do_gc_event_queues (gc_hooks now) [i] [user_profile_id c] [client_realm_id c] t = Inr s'"
    using cl by (auto simp: cleanup_def)
  have invt: "tornado_inv gen t" using keeps_finish_current_handler[OF f] inv by (rule keeps_inv)
  obtain d where d: "map_of (clients s) i = Some d" using f by (auto simp: finish_current_handler_def)
  have none: "current_handler_id c = None"
    using finish_current_handler_effect(4,5)[OF f d] c d by (auto simp: fetched_def split: if_splits)
  show "tornado_inv gen s'"
    using invt _ run by (rule do_gc_inv) (use c none in simp)
  have ok: "registry_ok t" using invt by (simp add: tornado_inv_def)
  have cov: "user_profile_id e \<in> set [user_profile_id c] \<and> client_realm_id e \<in> set [client_realm_id c]"
    if "k \<in> set [i]" "map_of (clients t) k = Some e" for k e
    using that c by simp
  show "map_of (clients s') i = None" using do_gc_registry(6)[OF ok cov run] by simp
  show "map_of (clients s') j = map_of (clients s) j" if "j \<noteq> i"
    using do_gc_registry(5)[OF ok cov run] finish_current_handler_effect(5)[OF f d] that by simp
qed

lemma fire_timeout_keeps:
  assumes ok: "handlers_ok s" and f: "fire_timeout t s = Inr s'"
  shows "registry s' = registry s \<and> handlers_ok s'"
proof -
  obtain i c where t: "map_of (timeouts s) t = Some i" and c: "map_of (clients s) i = Some c"
    and run: "\<exists>d. add_event i (hp_next (heap s)) (snd (new_object d
      (set_client i (c\<lparr>timeout_handle := None\<rparr>) (s\<lparr>timeouts := ddel t (timeouts s)\<rparr>)))) = Inr s'"
    using f by (auto simp: fire_timeout_def Let_def case_prod_unfold)
  let ?s1 = "set_client i (c\<lparr>timeout_handle := None\<rparr>) (s\<lparr>timeouts := ddel t (timeouts s)\<rparr>)"
  have tc: "timeout_handle c = Some t"
  proof -
    obtain d where "map_of (clients s) i = Some d" "timeout_handle d = Some t"
      using ok t unfolding handlers_ok_def by blast
    then show ?thesis using c by simp
  qed
  have "handlers_ok ?s1"
    unfolding handlers_ok_def
  proof (intro conjI allI impI ballI)
    fix j d u assume d: "map_of (clients ?s1) j = Some d" "timeout_handle d = Some u"
    then have j: "j \<noteq> i" "map_of (clients s) j = Some d" by (auto split: if_splits)
    note h = handlers_okD(2)[OF ok j(2) d(2)]
    then show "current_handler_id d \<noteq> None" "map_of (timeouts ?s1) u = Some j" using j(1) t by auto
  next
    fix u j assume u: "map_of (timeouts ?s1) u = Some j"
    then have u': "u \<noteq> t" "map_of (timeouts s) u = Some j" by (auto split: if_splits)
    then have "u < next_timeout s \<and> (\<exists>d. map_of (clients s) j = Some d \<and> timeout_handle d = Some u)"
      using ok by (simp add: handlers_ok_def)
    then show "u < next_timeout ?s1" "\<exists>d. map_of (clients ?s1) j = Some d \<and> timeout_handle d = Some u"
      using u' c tc by auto
  next
    fix h j assume "map_of (descriptors_by_handler_id ?s1) h = Some j" "h \<noteq> 0"
    then have "\<exists>d. map_of (clients s) j = Some d \<and> current_handler_id d = Some h"
      using ok by (simp add: handlers_ok_def)
    then show "\<exists>d. map_of (clients ?s1) j = Some d \<and> current_handler_id d = Some h" using c by auto
  qed (use ok c in \<open>auto simp: handlers_ok_def split: if_splits\<close>)
  moreover have "registry ?s1 = registry s" using c by (simp add: registry_set_client)
  ultimately show ?thesis using run keeps_add_new by (fastforce simp: keeps_def)
qed

lemma free_handler_drop: "free_handler hid (drop_clients R s) = free_handler hid s"
  by (simp add: free_handler_def drop_clients_def)

lemma cleanup_free:
  assumes inv: "tornado_inv gen s" and free: "free_handler hid s" and cl: "cleanup now i s = Inr s'"
  shows "free_handler hid s'"
proof -
  obtain b t c where f: "finish_current_handler i s = Inr (b, t)" and c: "map_of (clients t) i = Some c"
    and run: "do_gc_event_queues (gc_hooks now) [i] [user_profile_id c] [client_realm_id c] t = Inr s'"
    using cl by (auto simp: cleanup_def)
  have hs: "handlers_ok s" using inv by (simp add: tornado_inv_def)
  have "registry_ok t" using keeps_inv[OF keeps_finish_current_handler[OF f] inv] by (simp add: tornado_inv_def)
  moreover have "user_profile_id e \<in> set [user_profile_id c] \<and> client_realm_id e \<in> set [client_realm_id c]"
    if "k \<in> set [i]" "map_of (clients t) k = Some e" for k e
    using that c by simp
  ultimately have "hstate s' = hstate (drop_clients [i] t)" using run by (rule do_gc_registry(3))
  then show ?thesis
    using free_handler_hstate finish_current_handler_free(1)[OF hs free f] free_handler_drop by blast
qed

lemma answer_or_wait_ok:
  assumes inv: "tornado_inv gen s" and free: "free_handler (q_handler_id query) s"
    and none: "\<And>c. map_of (clients s) i = Some c \<Longrightarrow> current_handler_id c = None"
    and run: "answer_or_wait now query i s = Inr (res, s')"
  shows "tornado_inv gen s'" "res \<noteq> Async \<Longrightarrow> free_handler (q_handler_id query) s'"
proof -
  obtain c where c: "map_of (clients s) i = Some c" using run by (auto simp: answer_or_wait_def)
  have "tornado_inv gen s' \<and> (res \<noteq> Async \<longrightarrow> free_handler (q_handler_id query) s')"
  proof (cases "\<not> empty (client_queue c) \<or> q_dont_block query")
    case True
    let ?c = "c\<lparr>client_queue := snd (contents (heap s) (client_queue c))\<rparr>"
    have s': "s' = set_client i ?c s"
      using run c True by (simp add: answer_or_wait_def get_client_def case_prod_unfold Let_def)
    have "keeps s s'" unfolding s' using c by (intro keeps_set_queue) simp_all
    moreover have "hstate s' = hstate s" unfolding s' using c by (intro hstate_set_client) simp_all
    ultimately show ?thesis using keeps_inv inv free free_handler_hstate by blast
  next
    case False
    then have con: "connect_handler (q_handler_id query) (q_client_type_name query) now i s = Inr s'" and "res = Async"
      using run c by (auto simp: answer_or_wait_def get_client_def)
    have "handlers_ok s" using inv by (simp add: tornado_inv_def)
    from connect_handler_ok[OF this free c none[OF c], of "q_client_type_name query" now] con
    have "keeps s s'" by (auto simp: keeps_def)
    then show ?thesis using keeps_inv inv \<open>res = Async\<close> by blast
  qed
  then show "tornado_inv gen s'" "res \<noteq> Async \<Longrightarrow> free_handler (q_handler_id query) s'" by blast+
qed

lemma fetch_events_ok:
  assumes inv: "tornado_inv gen s" and free: "free_handler (q_handler_id query) s"
    and run: "fetch_events gen email_of now query s = Inr (res, s')"
  shows "tornado_inv gen s'" "res \<noteq> Async \<Longrightarrow> free_handler (q_handler_id query) s'"
proof -
  have ok: "registry_ok s" "handlers_ok s" "names_fresh gen s" and valid: "clients_valid s"
    using inv by (simp_all add: tornado_inv_def)
  consider (same) "s' = s" "res \<noteq> Async"
    | (failed) e where "allocate_client_descriptor gen email_of now (q_new_queue_data query) s = (Inl e, s')" "res \<noteq> Async"
    | (new) i t where "allocate_client_descriptor gen email_of now (q_new_queue_data query) s = (Inr i, t)"
        "answer_or_wait now query i t = Inr (res, s')"
    | (old) i c n b t where "map_of (clients s) i = Some c"
        "finish_current_handler i (set_client i (c\<lparr>client_queue := prune (heap s) n (client_queue c)\<rparr>) s) = Inr (b, t)"
        "answer_or_wait now query i t = Inr (res, s')"
  proof (cases "q_queue_id query")
    case None
    then show ?thesis
      using run same failed new
      by (auto simp: fetch_events_def split: if_splits prod.splits sum.splits pyerr.splits)
  next
    case (Some i)
    then show ?thesis
      using run same old
      by (auto simp: fetch_events_def get_client_descriptor_def Let_def split: if_splits option.splits)
  qed
  then have "tornado_inv gen s' \<and> (res \<noteq> Async \<longrightarrow> free_handler (q_handler_id query) s')"
  proof cases
    case same
    then show ?thesis using inv free by simp
  next
    case failed
    then show ?thesis using allocate_ok[OF ok failed(1)] valid free by (simp add: tornado_inv_def)
  next
    case new
    note a = allocate_ok[OF ok new(1)]
    have "tornado_inv gen t" using a valid by (simp add: tornado_inv_def)
    moreover have "current_handler_id c = None" if "map_of (clients t) i = Some c" for c
      using a(5)[OF refl] that by (auto simp: waits_def)
    ultimately show ?thesis using answer_or_wait_ok[OF _ a(4)[OF free] _ new(2)] by blast
  next
    case old
    let ?s1 = "set_client i (c\<lparr>client_queue := prune (heap s) n (client_queue c)\<rparr>) s"
    have k: "keeps s ?s1" using old(1) by (intro keeps_set_queue) simp_all
    have inv1: "tornado_inv gen ?s1" using keeps_inv[OF k inv] .
    have "hstate ?s1 = hstate s" using old(1) by (intro hstate_set_client) simp_all
    then have free1: "free_handler (q_handler_id query) ?s1" using free free_handler_hstate by blast
    have h1: "handlers_ok ?s1" using inv1 by (simp add: tornado_inv_def)
    have "tornado_inv gen t" using keeps_inv[OF keeps_finish_current_handler[OF old(2)] inv1] .
    then show ?thesis
      using answer_or_wait_ok[OF _ finish_current_handler_free(1)[OF h1 free1 old(2)]
          finish_current_handler_free(2)[OF h1 free1 old(2)] old(3)] by blast
  qed
  then show "tornado_inv gen s'" "res \<noteq> Async \<Longrightarrow> free_handler (q_handler_id query) s'" by blast+
qed

lemma keeps_registry_handlers: "registry s' = registry s \<Longrightarrow> handlers_ok s' \<Longrightarrow> keeps s s'"
  by (simp add: keeps_def)

lemma handle_events_request_inv:
  assumes inv: "tornado_inv gen s" and run: "handle_events_request gen email_of now r s = Inr (res, s')"
  shows "tornado_inv gen s'"
proof -
  obtain hid s1 where al: "allocate_handler_id s = (hid, s1)" by fastforce
  have hs: "handlers_ok s" using inv by (simp add: tornado_inv_def)
  note a = allocate_handler_ok[OF hs al]
  have inv1: "tornado_inv gen s1" using keeps_registry_handlers[OF a(3,1)] inv by (rule keeps_inv)
  obtain res2 s2 where f: "get_events_backend gen email_of now r hid s1 = Inr (res2, s2)"
    and c0: "(case res2 of Async \<Rightarrow> Inr (Async, s2)
      | _ \<Rightarrow> ebind (clear_handler_by_id hid s2) (\<lambda>s3. Inr (res2, s3))) = Inr (res, s')"
    using run al by (auto simp: handle_events_request_def)
  then have c: "case res2 of Async \<Rightarrow> s' = s2 | _ \<Rightarrow> clear_handler_by_id hid s2 = Inr s'"
    by (cases res2) auto
  from f obtain query where q: "fetch_events gen email_of now query s1 = Inr (res2, s2)" "q_handler_id query = hid"
    by (simp add: get_events_backend_def)
  note e = fetch_events_ok[OF inv1 _ q(1)]
  have inv2: "tornado_inv gen s2" using e(1) a(2) q(2) by simp
  show ?thesis
  proof (cases "res2 = Async")
    case True
    then show ?thesis using c inv2 by simp
  next
    case False
    then have cl: "clear_handler_by_id hid s2 = Inr s'" using c by (cases res2) auto
    have fr: "free_handler hid s2" using e(2) False a(2) q(2) by simp
    have "handlers_ok s2" using inv2 by (simp add: tornado_inv_def)
    from clear_handler_ok[OF this fr] cl have "registry s' = registry s2" "handlers_ok s'" by auto
    then show ?thesis using keeps_inv[OF keeps_registry_handlers] inv2 by blast
  qed
qed

lemma handle_cleanup_request_inv:
  assumes inv: "tornado_inv gen s" and run: "handle_cleanup_request now uid qid s = Inr (res, s')"
  shows "tornado_inv gen s'"
proof -
  obtain hid s1 where al: "allocate_handler_id s = (hid, s1)" by fastforce
  have hs: "handlers_ok s" using inv by (simp add: tornado_inv_def)
  note a = allocate_handler_ok[OF hs al]
  have inv1: "tornado_inv gen s1" using keeps_registry_handlers[OF a(3,1)] inv by (rule keeps_inv)
  obtain s2 where f: "cleanup_event_queue now uid qid s1 = Inr (res, s2)"
    and cl: "clear_handler_by_id hid s2 = Inr s'"
    using run al by (auto simp: handle_cleanup_request_def)
  have "s2 = s1 \<or> cleanup now qid s1 = Inr s2"
    using f by (auto simp: cleanup_event_queue_def split: option.splits if_splits)
  then have inv2: "tornado_inv gen s2" and fr: "free_handler hid s2"
    using inv1 a(2) cleanup_inv(1)[OF inv1] cleanup_free[OF inv1 a(2)] by blast+
  have "handlers_ok s2" using inv2 by (simp add: tornado_inv_def)
  from clear_handler_ok[OF this fr] cl have "registry s' = registry s2" "handlers_ok s'" by auto
  then show ?thesis using keeps_inv[OF keeps_registry_handlers] inv2 by blast
qed

text \<open>One round of the I/O loop: a request, a notification, a closed connection, a timer.\<close>

inductive tornado_step :: "int \<Rightarrow> (int \<Rightarrow> pyerr + string) \<Rightarrow> tornado \<Rightarrow> tornado \<Rightarrow> bool"
  for gen email_of where
  poll: "handle_events_request gen email_of now r s = Inr (res, s') \<Longrightarrow> tornado_step gen email_of s s'"
| delete: "handle_cleanup_request now uid qid s = Inr (err, s') \<Longrightarrow> tornado_step gen email_of s s'"
| notify: "process_notification now notice s = Inr s' \<Longrightarrow> tornado_step gen email_of s s'"
| close: "on_connection_close hid s = Inr s' \<Longrightarrow> tornado_step gen email_of s s'"
| heartbeat: "fire_timeout t s = Inr s' \<Longrightarrow> tornado_step gen email_of s s'"
| collect: "gc_event_queues now s = Inr s' \<Longrightarrow> tornado_step gen email_of s s'"
| restart: "send_restart_events gen imm s = Inr s' \<Longrightarrow> tornado_step gen email_of s s'"

inductive tornado_reach :: "int \<Rightarrow> (int \<Rightarrow> pyerr + string) \<Rightarrow> tornado \<Rightarrow> tornado \<Rightarrow> bool"
  for gen email_of s where
  start: "tornado_reach gen email_of s s"
| step: "tornado_reach gen email_of s t \<Longrightarrow> tornado_step gen email_of t u \<Longrightarrow> tornado_reach gen email_of s u"

lemma tornado_step_inv:
  assumes "tornado_step gen email_of s s'" and "tornado_inv gen s"
  shows "tornado_inv gen s'"
  using assms
proof (cases rule: tornado_step.cases)
  case (heartbeat t)
  have "handlers_ok s" using assms(2) by (simp add: tornado_inv_def)
  then show ?thesis
    using fire_timeout_keeps[OF _ heartbeat] keeps_inv[OF keeps_registry_handlers assms(2)] by blast
next
  case (collect now)
  then show ?thesis using gc_event_queues_effect(1)[OF assms(2)] by blast
qed (use assms(2) in \<open>blast intro: handle_events_request_inv handle_cleanup_request_inv
       keeps_inv[OF keeps_process_notification] keeps_inv[OF keeps_on_connection_close]
       keeps_inv[OF keeps_send_restart_events]\<close>)+

lemma tornado_reach_inv: "tornado_reach gen email_of s t \<Longrightarrow> tornado_inv gen s \<Longrightarrow> tornado_inv gen t"
  by (induction rule: tornado_reach.induct) (auto intro: tornado_step_inv)

lemma init_inv: "tornado_inv gen init_tornado"
  by (simp add: tornado_inv_def init_tornado_def clients_valid_def registry_ok_def handlers_ok_def names_fresh_def
      lists_ok_def dlist_def get_client_descriptors_for_user_def get_client_descriptors_for_realm_all_streams_def)

end
