(* ===== verification/TornadoDump.thy ===== *)
theory TornadoDump
  imports TornadoSafety
begin

text \<open>
  Dumping all queues to disk and loading them in a new process
  (\<open>dump_event_queues\<close>, \<open>load_event_queues\<close> of \<open>zerver/tornado/event_queue.py\<close>) restores
  every client but its connection, the registries and the pending events.
\<close>

section \<open>One client\<close>

text \<open>A client as it comes back: the same but for its connection and the queue's objects.\<close>

definition restored :: "client \<Rightarrow> event_queue \<Rightarrow> client" where
  "restored c q = c\<lparr>current_handler_id := None, current_client_name := None, timeout_handle := None, client_queue := q\<rparr>"

lemma emap_as_str [simp]: "emap as_str (map PStr xs) = Inr xs"
  by (induction xs) simp_all

lemma emap_as_str_list [simp]: "emap as_str_list (map (\<lambda>e. PList (map PStr e)) xs) = Inr xs"
  by (induction xs) (simp_all add: as_str_list_def)

lemma as_opt_of_opt [simp]: "as_opt as_str_list (of_opt (\<lambda>ts. PList (map PStr ts)) x) = Inr x"
  by (cases x) (simp_all add: of_opt_def as_str_list_def)

lemma client_dict_roundtrip:
  assumes "client_valid c" and "eq_from_dict (eq_to_dict h (client_queue c)) g = Inr (q, h')"
  shows "client_from_dict email_of now (client_to_dict h c) g = Inr (restored c q, h')"
proof -
  have "migrate_client_dict email_of (client_to_dict h c) = Inr (client_to_dict h c)"
    by (simp add: migrate_client_dict_def client_to_dict_def)
  moreover have "new_client_descriptor (user_profile_id c) (user_profile_email c) (client_realm_id c) q (event_types c)
      (client_type_name c) (apply_markdown c) (all_public_streams c) (queue_timeout c) (narrow c) now
    = Inr ((restored c q)\<lparr>last_connection_time := now\<rparr>)"
    using assms(1)
    by (cases c) (simp add: new_client_descriptor_def build_narrow_filter_def client_valid_def restored_def max_def min_def)
  ultimately show ?thesis
    using assms(2)
    by (simp add: client_from_dict_def client_to_dict_def py_simps restored_def)
qed

section \<open>All clients\<close>

definition reloads :: "pyheap \<Rightarrow> pyheap \<Rightarrow> string \<times> client \<Rightarrow> string \<times> client \<Rightarrow> bool" where
  "reloads h h' p p' \<longleftrightarrow> (\<exists>q. p' = (fst p, restored (snd p) q) \<and> eq_id q = eq_id (client_queue (snd p)) \<and>
     next_event_id q = next_event_id (client_queue (snd p)) \<and>
     (eq_wf h (client_queue (snd p)) \<longrightarrow> eq_wf h' q \<and> eq_view h' q = resolve_view h (eq_view h (client_queue (snd p)))))"

lemma reloads_cong:
  assumes r: "reloads h g p p'" and same: "\<And>b. b \<in> set (eq_addrs (client_queue (snd p'))) \<Longrightarrow> cell h' b = cell g b"
    and le: "hp_next g \<le> hp_next h'"
  shows "reloads h h' p p'"
proof -
  obtain q where q: "p' = (fst p, restored (snd p) q)" "eq_id q = eq_id (client_queue (snd p))"
    "next_event_id q = next_event_id (client_queue (snd p))"
    "eq_wf h (client_queue (snd p)) \<longrightarrow> eq_wf g q \<and> eq_view g q = resolve_view h (eq_view h (client_queue (snd p)))"
    using r by (auto simp: reloads_def)
  have s: "cell h' b = cell g b" if "b \<in> set (eq_addrs q)" for b
    using same that q(1) by (simp add: restored_def)
  have "eq_wf g q \<longrightarrow> eq_wf h' q" using eq_wf_cong[OF s le] by blast
  moreover have "eq_view h' q = eq_view g q" unfolding eq_view_def by (simp add: tagged_cong[OF s])
  ultimately show ?thesis using q by (auto simp: reloads_def)
qed

abbreviation client_addrs :: "(string \<times> client) list \<Rightarrow> nat list" where
  "client_addrs cs \<equiv> concat (map (\<lambda>p. eq_addrs (client_queue (snd p))) cs)"

lemma load_clients_dump:
  assumes "\<forall>p \<in> set cs. client_valid (snd p)"
  shows "\<exists>cs' h'. load_clients email_of now (map (\<lambda>(i, c). (i, client_to_dict h c)) cs) g = Inr (cs', h') \<and>
    list_all2 (reloads h h') cs cs' \<and> client_addrs cs' = [hp_next g..<hp_next h'] \<and> hp_next g \<le> hp_next h' \<and>
    (\<forall>b < hp_next g. cell h' b = cell g b)"
  using assms
proof (induction cs arbitrary: g)
  case Nil
  then show ?case by simp
next
  case (Cons p cs)
  obtain i c where p: "p = (i, c)" by (cases p)
  obtain q g1 where rt: "eq_from_dict (eq_to_dict h (client_queue c)) g = Inr (q, g1)"
    "eq_id q = eq_id (client_queue c)" "next_event_id q = next_event_id (client_queue c)"
    "eq_addrs q = [hp_next g..<hp_next g1]" "hp_next g \<le> hp_next g1" "\<forall>b < hp_next g. cell g1 b = cell g b"
    using eq_dict_roundtrip[of h "client_queue c" g] by blast
  have load1: "client_from_dict email_of now (client_to_dict h c) g = Inr (restored c q, g1)"
    using Cons.prems p rt(1) by (intro client_dict_roundtrip) auto
  have valid: "\<forall>p \<in> set cs. client_valid (snd p)" using Cons.prems by simp
  obtain cs' h' where IH: "load_clients email_of now (map (\<lambda>(i, c). (i, client_to_dict h c)) cs) g1 = Inr (cs', h')"
    "list_all2 (reloads h h') cs cs'" "client_addrs cs' = [hp_next g1..<hp_next h']" "hp_next g1 \<le> hp_next h'"
    "\<forall>b < hp_next g1. cell h' b = cell g1 b"
    using Cons.IH[OF valid, of g1] by blast
  have "reloads h g1 p (i, restored c q)"
    using rt eq_dict_roundtrip_wf[OF _ rt(1)] p by (auto simp: reloads_def)
  then have "reloads h h' p (i, restored c q)"
    by (rule reloads_cong) (use IH(4,5) rt(4) in \<open>simp_all add: restored_def\<close>)
  moreover have "client_addrs ((i, restored c q) # cs') = [hp_next g..<hp_next h']"
    using IH(3,4) rt(4,5) upt_add_eq_append[of "hp_next g" "hp_next g1" "hp_next h' - hp_next g1"]
    by (simp add: restored_def)
  ultimately show ?case
    using load1 IH rt(5,6) p
    by (intro exI[of _ "(i, restored c q) # cs'"] exI[of _ h']) simp
qed

section \<open>The registries of the new process\<close>

lemma fold_dset_same: "distinct (map fst cs) \<Longrightarrow> fold (\<lambda>(k, v). dset k v) cs acc = acc @ cs"
  if "\<forall>k \<in> set (map fst cs). map_of acc k = None" for cs :: "('k \<times> 'v) list"
  using that
proof (induction cs arbitrary: acc)
  case (Cons p cs)
  obtain k v where p: "p = (k, v)" by (cases p)
  have "dset k v acc = acc @ [(k, v)]" using Cons.prems p by (intro dset_new) simp
  moreover have "\<forall>k' \<in> set (map fst cs). map_of (acc @ [(k, v)]) k' = None"
    using Cons.prems p by (auto simp: map_add_def map_of_eq_None_iff split: option.splits)
  ultimately show ?case using Cons.IH[of "acc @ [(k, v)]"] Cons.prems p by simp
qed simp

lemma dlist_add_all:
  "dlist (user_clients (foldl (\<lambda>s (i, c). add_to_client_dicts i c s) s cs)) u =
     dlist (user_clients s) u @ map fst (filter (\<lambda>p. user_profile_id (snd p) = u) cs)"
  "dlist (realm_clients_all_streams (foldl (\<lambda>s (i, c). add_to_client_dicts i c s) s cs)) r =
     dlist (realm_clients_all_streams s) r @
     map fst (filter (\<lambda>p. client_realm_id (snd p) = r \<and> in_realm_list (snd p)) cs)"
  by (induction cs arbitrary: s) (auto simp: add_to_client_dicts_def dlist_dappend Let_def)

lemma add_all_fields:
  "clients (foldl (\<lambda>s (i, c). add_to_client_dicts i c s) s cs) = clients s"
  "heap (foldl (\<lambda>s (i, c). add_to_client_dicts i c s) s cs) = heap s"
  "next_queue_id (foldl (\<lambda>s (i, c). add_to_client_dicts i c s) s cs) = next_queue_id s"
  by (induction cs arbitrary: s) (auto simp: add_to_client_dicts_def Let_def)

lemma add_all_nonempty:
  "(\<forall>k. map_of (user_clients s) k \<noteq> Some []) \<and> (\<forall>k. map_of (realm_clients_all_streams s) k \<noteq> Some []) \<Longrightarrow>
   (\<forall>k. map_of (user_clients (foldl (\<lambda>s (i, c). add_to_client_dicts i c s) s cs)) k \<noteq> Some []) \<and>
   (\<forall>k. map_of (realm_clients_all_streams (foldl (\<lambda>s (i, c). add_to_client_dicts i c s) s cs)) k \<noteq> Some [])"
proof (induction cs arbitrary: s)
  case (Cons p cs)
  show ?case
    unfolding foldl.simps
    by (rule Cons.IH) (use Cons.prems in \<open>auto simp: add_to_client_dicts_def dappend_def Let_def split: prod.splits\<close>)
qed simp

lemma lists_ok_dlist:
  "(\<forall>k. map_of d k \<noteq> Some []) \<Longrightarrow> (\<And>k. distinct (dlist d k)) \<Longrightarrow> lists_ok d"
  unfolding lists_ok_def dlist_def by (metis option.simps(5))

lemma load_registry_ok:
  assumes dist: "distinct (map fst cs)" and ids: "\<forall>p \<in> set cs. eq_id (client_queue (snd p)) = fst p"
    and s: "clients s = cs" "user_clients s = []" "realm_clients_all_streams s = []"
  shows "registry_ok (foldl (\<lambda>s (i, c). add_to_client_dicts i c s) s cs)"
proof -
  let ?t = "foldl (\<lambda>s (i, c). add_to_client_dicts i c s) s cs"
  have U: "dlist (user_clients ?t) u = map fst (filter (\<lambda>p. user_profile_id (snd p) = u) cs)"
    and R: "dlist (realm_clients_all_streams ?t) r =
      map fst (filter (\<lambda>p. client_realm_id (snd p) = r \<and> in_realm_list (snd p)) cs)" for u r
    using s by (simp_all add: dlist_add_all) (simp_all add: dlist_def)
  have ne: "(\<forall>k. map_of (user_clients ?t) k \<noteq> Some []) \<and> (\<forall>k. map_of (realm_clients_all_streams ?t) k \<noteq> Some [])"
    by (rule add_all_nonempty) (simp add: s)
  have mem: "i \<in> fst ` {p \<in> set cs. P (snd p)} \<longleftrightarrow> (\<exists>c. map_of cs i = Some c \<and> P c)" for i P
    using dist by (force simp: map_of_eq_Some_iff)
  show ?thesis
    unfolding registry_ok_def get_client_descriptors_for_user_def
      get_client_descriptors_for_realm_all_streams_def add_all_fields s(1) U R
  proof (intro conjI allI)
    show "lists_ok (user_clients ?t)"
      using ne dist by (intro lists_ok_dlist) (auto simp: U distinct_map_filter)
    show "lists_ok (realm_clients_all_streams ?t)"
      using ne dist by (intro lists_ok_dlist) (auto simp: R distinct_map_filter)
    show "map_of cs i = Some c \<longrightarrow> eq_id (client_queue c) = i" for i c
      using ids map_of_SomeD by fastforce
  qed (use dist mem in simp_all)
qed

text \<open>The whole round trip.\<close>

lemma dump_load:
  assumes reg: "registry_ok s" and valid: "\<And>i c. map_of (clients s) i = Some c \<Longrightarrow> client_valid c"
    and s': "s' = load_event_queues email_of now (Some (dump_event_queues s)) init_tornado"
  shows "map fst (clients s') = map fst (clients s)" "registry_ok s'"
    "map_of (clients s) i = Some c \<Longrightarrow> \<exists>q. map_of (clients s') i = Some (restored c q) \<and>
       next_event_id q = next_event_id (client_queue c) \<and>
       (eq_wf (heap s) (client_queue c) \<longrightarrow> eq_wf (heap s') q \<and>
          eq_view (heap s') q = resolve_view (heap s) (eq_view (heap s) (client_queue c)))"
proof -
  have dist: "distinct (map fst (clients s))" using reg by (simp add: registry_ok_def)
  have "\<forall>p \<in> set (clients s). client_valid (snd p)"
    using valid dist by (auto simp: map_of_eq_Some_iff)
  from load_clients_dump[OF this, of email_of now "heap s" empty_heap]
  obtain cs h where L: "load_clients email_of now (dump_event_queues s) empty_heap = Inr (cs, h)"
    and all: "list_all2 (reloads (heap s) h) (clients s) cs"
    by (auto simp: dump_event_queues_def)
  have fst: "map fst cs = map fst (clients s)"
    using all by (induction rule: list_all2_induct) (auto simp: reloads_def)
  have cs: "fold (\<lambda>(k, v). dset k v) cs [] = cs"
    using fold_dset_same[of cs "[]"] dist fst by simp
  let ?t = "init_tornado\<lparr>clients := cs, heap := h\<rparr>"
  have run: "s' = foldl (\<lambda>s (i, c). add_to_client_dicts i c s) ?t cs"
    using L cs by (simp add: s' load_event_queues_def init_tornado_def)
  have fields: "clients s' = cs" "heap s' = h" unfolding run add_all_fields by simp_all
  show "map fst (clients s') = map fst (clients s)" using fst fields by simp
  have "\<forall>p \<in> set cs. eq_id (client_queue (snd p)) = fst p"
  proof
    fix p assume "p \<in> set cs"
    then obtain p0 where "p0 \<in> set (clients s)" "reloads (heap s) h p0 p"
      using all by (metis in_set_conv_nth list_all2_conv_all_nth)
    moreover have "eq_id (client_queue (snd p0)) = fst p0"
      using reg \<open>p0 \<in> set (clients s)\<close> dist
      by (cases p0) (auto simp: registry_ok_def map_of_eq_Some_iff)
    ultimately show "eq_id (client_queue (snd p)) = fst p" by (auto simp: reloads_def restored_def)
  qed
  then show "registry_ok s'"
    unfolding run using dist fst by (intro load_registry_ok) (simp_all add: init_tornado_def)
  show "\<exists>q. map_of (clients s') i = Some (restored c q) \<and>
       next_event_id q = next_event_id (client_queue c) \<and>
       (eq_wf (heap s) (client_queue c) \<longrightarrow> eq_wf (heap s') q \<and>
          eq_view (heap s') q = resolve_view (heap s) (eq_view (heap s) (client_queue c)))"
    if c: "map_of (clients s) i = Some c"
    unfolding fields using all c
    by (induction rule: list_all2_induct) (auto simp: reloads_def split: if_splits)
qed

end
