(* ===== verification/TornadoProps.thy ===== *)
theory TornadoProps
  imports TornadoDump
begin

text \<open>The properties of the Tornado process.\<close>

section \<open>A concrete run\<close>

text \<open>User 7 registers a queue for all events.\<close>

definition demo_request :: events_request where
  "demo_request = \<lparr>r_user_id = 7, r_email = ''iago@zulip.com'', r_realm_id = 1, r_client_name = ''website'',
     r_last_event_id = None, r_queue_id = None, r_apply_markdown = True, r_all_public_streams = False,
     r_event_types = None, r_dont_block = True, r_narrow = [], r_lifespan_secs = 0\<rparr>"

definition demo_email :: "int \<Rightarrow> pyerr + string" where
  "demo_email u = Inr ''iago@zulip.com''"

definition demo_registered :: "pyerr + fetch_result \<times> tornado" where
  "demo_registered = handle_events_request 1 demo_email 0 demo_request init_tornado"

definition demo_state :: tornado where
  "demo_state = (case demo_registered of Inr (_, s) \<Rightarrow> s | Inl _ \<Rightarrow> init_tornado)"

lemma demo_registered_ok:
  "case demo_registered of Inr (Response evs h q, s) \<Rightarrow> evs = [] \<and> q = Some ''1:0'' | _ \<Rightarrow> False"
  by code_simp

lemma run_result: "\<exists>r. m = Inr (r, case m of Inr (_, s) \<Rightarrow> s | Inl _ \<Rightarrow> t)" if "\<not> isl m" for m :: "'e + 'r \<times> 's"
  using that by (cases m) auto

lemma demo_registered_eq: "\<exists>res. demo_registered = Inr (res, demo_state)"
proof -
  have "\<not> isl demo_registered" by code_simp
  then show ?thesis unfolding demo_state_def by (rule run_result)
qed

lemma demo_step: "tornado_step 1 demo_email init_tornado demo_state"
  using demo_registered_eq unfolding demo_registered_def by (auto intro: tornado_step.poll)

lemma demo_reach: "tornado_reach 1 demo_email init_tornado demo_state"
  by (rule tornado_reach.step[OF tornado_reach.start demo_step])

lemma demo_inv: "tornado_inv 1 demo_state"
  by (rule tornado_reach_inv[OF demo_reach init_inv])

lemma demo_client:
  "case map_of (clients demo_state) ''1:0'' of None \<Rightarrow> False
   | Some c \<Rightarrow> user_profile_id c = 7 \<and> client_queue c = new_event_queue ''1:0'' \<and> current_handler_id c = None \<and>
       event_types c = None \<and> queue_timeout c = 600 \<and> last_connection_time c = 0"
  by code_simp

text \<open>The user's next poll finds an empty queue, so its handler (the second one, 1) waits.\<close>

definition demo_poll :: events_request where
  "demo_poll = demo_request\<lparr>r_last_event_id := Some (-1), r_queue_id := Some ''1:0'', r_dont_block := False\<rparr>"

definition demo_polled :: "pyerr + fetch_result \<times> tornado" where
  "demo_polled = handle_events_request 1 demo_email 5 demo_poll demo_state"

definition demo_waiting :: tornado where
  "demo_waiting = (case demo_polled of Inr (_, s) \<Rightarrow> s | Inl _ \<Rightarrow> init_tornado)"

lemma demo_poll_async: "case demo_polled of Inr (Async, s) \<Rightarrow> True | _ \<Rightarrow> False"
  by code_simp

lemma demo_waiting_step: "tornado_step 1 demo_email demo_state demo_waiting"
proof -
  have "\<not> isl demo_polled" by code_simp
  then have "\<exists>res. demo_polled = Inr (res, demo_waiting)" unfolding demo_waiting_def by (rule run_result)
  then show ?thesis unfolding demo_polled_def by (auto intro: tornado_step.poll)
qed

lemma demo_waiting_reach: "tornado_reach 1 demo_email init_tornado demo_waiting"
  by (rule tornado_reach.step[OF demo_reach demo_waiting_step])

lemma demo_waiting_client:
  "case map_of (clients demo_waiting) ''1:0'' of None \<Rightarrow> False
   | Some c \<Rightarrow> current_handler_id c = Some 1 \<and> user_profile_id c = 7"
  "get_descriptor_by_handler_id 1 demo_waiting = Some ''1:0''" "map_of (timeouts demo_waiting) 0 = Some ''1:0''"
  by code_simp+

section \<open>Registries and handlers in every run\<close>

text \<open>
  C26: In every state a run of the Tornado process can reach, the client lists that events
  are routed by agree with the clients: the list of a user holds exactly the queues this
  user owns, the all-streams list of a realm exactly the queues of this realm that asked
  for public streams or have a narrow, each once, and a client is filed under its own id.
\<close>

theorem registries_reachable:
  assumes "tornado_reach gen email_of init_tornado s"
  shows "distinct (get_client_descriptors_for_user u s) \<and>
    set (get_client_descriptors_for_user u s) =
      {i. \<exists>c. map_of (clients s) i = Some c \<and> user_profile_id c = u} \<and>
    distinct (get_client_descriptors_for_realm_all_streams r s) \<and>
    set (get_client_descriptors_for_realm_all_streams r s) =
      {i. \<exists>c. map_of (clients s) i = Some c \<and> client_realm_id c = r \<and> in_realm_list c} \<and>
    (\<forall>i c. map_of (clients s) i = Some c \<longrightarrow> eq_id (client_queue c) = i)"
proof -
  have ok: "registry_ok s" using tornado_reach_inv[OF assms init_inv] by (simp add: tornado_inv_def)
  then have "distinct (get_client_descriptors_for_user u s)" "distinct (get_client_descriptors_for_realm_all_streams r s)"
    by (simp_all add: registry_ok_def get_client_descriptors_for_user_def
        get_client_descriptors_for_realm_all_streams_def lists_okD)
  with ok show ?thesis unfolding registry_ok_def by blast
qed

theorem registries_reachable_witness:
  "set (get_client_descriptors_for_user 7 demo_state) = {i. \<exists>c. map_of (clients demo_state) i = Some c \<and> user_profile_id c = 7}"
  using registries_reachable[OF demo_reach, of 7] by blast

text \<open>
  In every reachable state the waiting requests are in order: a client that waits has a
  live handler, no two clients wait on one handler, a heartbeat timer that is set belongs
  to a client that waits, and a handler other than 0 that is registered for a client is the
  one this client waits on.
\<close>

theorem handlers_reachable:
  assumes "tornado_reach gen email_of init_tornado s"
  shows "(\<forall>i c h. map_of (clients s) i = Some c \<longrightarrow> current_handler_id c = Some h \<longrightarrow> get_handler_by_id h s = Inr h) \<and>
    (\<forall>i c j d h. map_of (clients s) i = Some c \<longrightarrow> map_of (clients s) j = Some d \<longrightarrow>
      current_handler_id c = Some h \<longrightarrow> current_handler_id d = Some h \<longrightarrow> i = j) \<and>
    (\<forall>t i. map_of (timeouts s) t = Some i \<longrightarrow>
      (\<exists>c. map_of (clients s) i = Some c \<and> timeout_handle c = Some t \<and> current_handler_id c \<noteq> None)) \<and>
    (\<forall>h i. get_descriptor_by_handler_id h s = Some i \<longrightarrow> h \<noteq> 0 \<longrightarrow>
      (\<exists>c. map_of (clients s) i = Some c \<and> current_handler_id c = Some h))"
proof -
  have ok: "handlers_ok s" using tornado_reach_inv[OF assms init_inv] by (simp add: tornado_inv_def)
  note d = handlers_okD(1)[OF ok]
  show ?thesis
  proof (intro conjI allI impI)
    fix t i assume "map_of (timeouts s) t = Some i"
    then obtain c where c: "map_of (clients s) i = Some c" "timeout_handle c = Some t"
      using ok unfolding handlers_ok_def by blast
    then show "\<exists>c. map_of (clients s) i = Some c \<and> timeout_handle c = Some t \<and> current_handler_id c \<noteq> None"
      using handlers_okD(2)[OF ok c] by blast
  next
    fix i c j e h
    assume "map_of (clients s) i = Some c" "map_of (clients s) j = Some e"
      "current_handler_id c = Some h" "current_handler_id e = Some h"
    then show "i = j" using d[of i c h] d[of j e h] by simp
  next
    fix h i assume "get_descriptor_by_handler_id h s = Some i" "h \<noteq> 0"
    then show "\<exists>c. map_of (clients s) i = Some c \<and> current_handler_id c = Some h"
      using ok by (simp add: handlers_ok_def get_descriptor_by_handler_id_def)
  qed (use d in \<open>simp add: get_handler_by_id_def\<close>)
qed

theorem handlers_reachable_witness:
  "(\<exists>c. map_of (clients demo_waiting) ''1:0'' = Some c \<and> timeout_handle c = Some 0 \<and> current_handler_id c \<noteq> None) \<and>
   (\<exists>c. map_of (clients demo_waiting) ''1:0'' = Some c \<and> current_handler_id c = Some 1)"
  using handlers_reachable[OF demo_waiting_reach] demo_waiting_client(2,3) by auto

section \<open>Collection of idle queues\<close>

text \<open>
  The periodic collection removes exactly the queues that are idle (no request waits and
  the last one is at least the queue's timeout ago) and leaves every other client exactly as
  it was; after it, no list of clients mentions a removed queue.
\<close>

theorem gc_removes_exactly_idle:
  assumes "tornado_reach gen email_of init_tornado s" and "gc_event_queues now s = Inr s'"
  shows "map_of (clients s') i = (case map_of (clients s) i of
      None \<Rightarrow> None | Some c \<Rightarrow> if idle c now then None else Some c) \<and>
    (map_of (clients s') i = None \<longrightarrow> i \<notin> set (get_client_descriptors_for_user u s') \<and>
      i \<notin> set (get_client_descriptors_for_realm_all_streams r s'))"
proof -
  have inv: "tornado_inv gen s" by (rule tornado_reach_inv[OF assms(1) init_inv])
  note e = gc_event_queues_effect[OF inv assms(2)]
  have "registry_ok s'" using e(1) by (simp add: tornado_inv_def)
  with e(2) show ?thesis by (simp add: registry_ok_def)
qed

lemma demo_gc: "\<exists>s'. gc_event_queues 700 demo_state = Inr s'"
proof -
  have "case gc_event_queues 700 demo_state of Inr s' \<Rightarrow> True | Inl e \<Rightarrow> False" by code_simp
  then show ?thesis by (auto split: sum.splits)
qed

theorem gc_removes_exactly_idle_witness:
  "\<exists>s'. gc_event_queues 700 demo_state = Inr s' \<and> map_of (clients s') ''1:0'' = None"
proof -
  obtain s' where s': "gc_event_queues 700 demo_state = Inr s'" using demo_gc by blast
  have "case map_of (clients demo_state) ''1:0'' of None \<Rightarrow> False | Some c \<Rightarrow> idle c 700" by code_simp
  then show ?thesis
    using gc_removes_exactly_idle[OF demo_reach s', of "''1:0''" 7 1] s' by (auto split: option.splits)
qed

section \<open>Delivery\<close>

text \<open>A state with one queue per client and no event object in two queues is ready for delivery.\<close>

lemma process_event_exact:
  assumes reg: "registry_ok s" and wf: "queues_wf s" and ev: "plain_dict ev" and us: "distinct us"
    and run: "process_event ev (map PInt us) s = Inr s'" and c: "map_of (clients s) i = Some c"
  shows "\<exists>v v'. cview s i = Some v \<and> cview s' i = Some v' \<and>
      (if user_profile_id c \<in> set us then delivered (heap s) ev c v v' else v' = v)"
proof -
  let ?L = "concat (map (\<lambda>u. get_client_descriptors_for_user u s) us)"
  note L = clients_of_users_distinct[OF reg us]
  have known: "map_of (clients s) j \<noteq> None" if "j \<in> set ?L" for j using L(2)[of j] that by auto
  have eff: "queues_wf s' \<and> registry s' = registry s \<and> published s' = published s \<and>
    (\<forall>j. j \<notin> set ?L \<longrightarrow> cview s' j = cview s j \<and> map_of (clients s') j = map_of (clients s) j) \<and>
    (\<forall>i \<in> set ?L. \<forall>c v. map_of (clients s) i = Some c \<longrightarrow> cview s i = Some v \<longrightarrow>
       (\<exists>v'. cview s' i = Some v' \<and> delivered (heap s) ev c v v'))"
    using wf ev L(1) known run[unfolded process_event_flat] by (rule deliver_all_effect)
  obtain v where v: "cview s i = Some v" using c by (simp add: cview_def cq_def)
  show ?thesis
  proof (cases "user_profile_id c \<in> set us")
    case True
    then have "i \<in> set ?L" using L(2)[of i] c by simp
    then obtain v' where "cview s' i = Some v'" "delivered (heap s) ev c v v'" using eff c v by blast
    then show ?thesis using True v by auto
  next
    case False
    then have "i \<notin> set ?L" using L(2)[of i] c by simp
    then show ?thesis using False eff v by auto
  qed
qed

text \<open>
  C2: An event for a list of users reaches every queue of these users that accepts it
  exactly once, with the next id of that queue, coalesced the way the queue promises; if a
  request was waiting it is answered with everything pending. A queue of any other user,
  and a queue whose filter rejects the event, is left exactly as it was.
\<close>

theorem process_event_delivers:
  assumes "tornado_reach gen email_of init_tornado s" and "queues_wf s" and "plain_dict ev" and "distinct us"
    and "process_event ev (map PInt us) s = Inr s'" and "map_of (clients s) i = Some c" and "cview s i = Some v"
  shows "if user_profile_id c \<in> set us \<and> accepts_event (heap s) c ev = Inr True
    then \<exists>w. spec_push (next_event_id (client_queue c)) ev v = Inr w \<and>
      cview s' i = Some (if current_handler_id c = None then w else spec_contents w)
    else cview s' i = Some v"
proof -
  have "registry_ok s" using tornado_reach_inv[OF assms(1) init_inv] by (simp add: tornado_inv_def)
  from process_event_exact[OF this assms(2-6)] assms(7)
  show ?thesis by (auto simp: delivered_def split: if_splits)
qed

definition demo_event :: pydict where
  "demo_event = [(''type'', PStr ''presence''), (''email'', PStr ''hamlet@zulip.com'')]"

lemma new_event_queue_wf: "eq_wf h (new_event_queue i)" "eq_addrs (new_event_queue i) = []" "eq_view h (new_event_queue i) = []"
  by (simp_all add: eq_wf_def eq_addrs_def new_event_queue_def eq_view_def tagged_def)

lemma demo_cq: "cq demo_state = [''1:0'' \<mapsto> new_event_queue ''1:0'']"
proof -
  have "map fst (clients demo_state) = [''1:0'']" by code_simp
  then obtain c where c: "clients demo_state = [(''1:0'', c)]" by auto
  with demo_client have "client_queue c = new_event_queue ''1:0''" by simp
  with c show ?thesis by (auto simp: cq_def)
qed

lemma demo_queues_wf: "queues_wf demo_state"
  by (auto simp: queues_wf_def demo_cq new_event_queue_wf split: if_splits)

theorem process_event_delivers_witness:
  "\<exists>s' w. process_event demo_event [PInt 7] demo_state = Inr s' \<and>
     spec_push 0 demo_event [] = Inr w \<and> cview s' ''1:0'' = Some w"
proof -
  have "\<not> isl (process_event demo_event [PInt 7] demo_state)" by code_simp
  then obtain s' where s': "process_event demo_event [PInt 7] demo_state = Inr s'"
    by (cases "process_event demo_event [PInt 7] demo_state") auto
  obtain c where c: "map_of (clients demo_state) ''1:0'' = Some c" "user_profile_id c = 7"
    "client_queue c = new_event_queue ''1:0''" "current_handler_id c = None" "event_types c = None"
    using demo_client by (auto split: option.splits)
  have v: "cview demo_state ''1:0'' = Some []" by (simp add: cview_def demo_cq new_event_queue_wf)
  have acc: "accepts_event (heap demo_state) c demo_event = Inr True"
    by (simp add: accepts_event_def c(5) demo_event_def py_simps)
  have pl: "plain_dict demo_event" by (simp add: demo_event_def plain_dict_def)
  have s1: "process_event demo_event (map PInt [7]) demo_state = Inr s'" using s' by simp
  show ?thesis
    using process_event_delivers[OF demo_reach demo_queues_wf pl _ s1 c(1) v] c(2-4) acc s'
    by (auto simp: new_event_queue_def)
qed

section \<open>Whose events a request gets\<close>

text \<open>
  C30: A request can only read or delete a queue of its own user: for a queue of another user
  both polling and deleting return an error and leave every queue and every client as they
  were.
\<close>

theorem other_users_queue_untouched:
  assumes "get_client_descriptor qid s = Some c" and "user_profile_id c \<noteq> r_user_id r"
    and "r_queue_id r = Some qid" and "r_last_event_id r = Some n"
  shows "\<exists>s1. handle_events_request gen email_of now r s =
        Inr (FetchError (JsonableError ''You are not authorized to get events from this queue''), s1) \<and>
      clients s1 = clients s \<and> heap s1 = heap s \<and> responses s1 = responses s \<and>
    (\<exists>s2. handle_cleanup_request now (r_user_id r) qid s =
        Inr (Some (JsonableError ''You are not authorized to access this queue''), s2) \<and>
      clients s2 = clients s \<and> heap s2 = heap s \<and> responses s2 = responses s)"
  using assms
  by (auto simp: handle_events_request_def get_events_backend_def fetch_events_def allocate_handler_id_def
      get_client_descriptor_def clear_handler_by_id_def handle_cleanup_request_def cleanup_event_queue_def Let_def)

theorem other_users_queue_untouched_witness:
  "\<exists>s1. handle_events_request 1 demo_email 9 (demo_poll\<lparr>r_user_id := 8\<rparr>) demo_state =
      Inr (FetchError (JsonableError ''You are not authorized to get events from this queue''), s1)"
proof -
  obtain c where "get_client_descriptor ''1:0'' demo_state = Some c" "user_profile_id c = 7"
    using demo_client by (auto simp: get_client_descriptor_def split: option.splits)
  then show ?thesis
    using other_users_queue_untouched[of "''1:0''" demo_state c "demo_poll\<lparr>r_user_id := 8\<rparr>" "-1" 1 demo_email 9]
    by (auto simp: demo_poll_def)
qed



definition demo_delivered :: tornado where
  "demo_delivered = (case process_event demo_event [PInt 7] demo_state of Inr s \<Rightarrow> s | Inl _ \<Rightarrow> init_tornado)"




section \<open>Restarts\<close>

text \<open>
  C31: Dumping the queues at shutdown and loading them in a new process restores every
  client with its settings, its counter and its pending events, in order, and the lists
  events are routed by; only the connections are gone.
\<close>

theorem dump_load_restores:
  assumes "tornado_reach gen email_of init_tornado s" and "queues_wf s"
    and "s' = load_event_queues email_of' now (Some (dump_event_queues s)) init_tornado"
  shows "map fst (clients s') = map fst (clients s) \<and> registry_ok s' \<and>
    (\<forall>i c. map_of (clients s) i = Some c \<longrightarrow> (\<exists>q. map_of (clients s') i = Some (restored c q) \<and>
       next_event_id q = next_event_id (client_queue c) \<and>
       cview s' i = map_option (resolve_view (heap s)) (cview s i)))"
proof -
  have inv: "tornado_inv gen s" by (rule tornado_reach_inv[OF assms(1) init_inv])
  then have reg: "registry_ok s" and valid: "\<And>i c. map_of (clients s) i = Some c \<Longrightarrow> client_valid c"
    by (simp_all add: tornado_inv_def clients_valid_def)
  have "\<exists>q. map_of (clients s') i = Some (restored c q) \<and> next_event_id q = next_event_id (client_queue c) \<and>
      cview s' i = map_option (resolve_view (heap s)) (cview s i)" if c: "map_of (clients s) i = Some c" for i c
  proof -
    from reg valid assms(3) c have "\<exists>q. map_of (clients s') i = Some (restored c q) \<and>
        next_event_id q = next_event_id (client_queue c) \<and>
        (eq_wf (heap s) (client_queue c) \<longrightarrow> eq_wf (heap s') q \<and>
          eq_view (heap s') q = resolve_view (heap s) (eq_view (heap s) (client_queue c)))"
      by (rule dump_load(3))
    then show ?thesis
      using queues_wfD[OF assms(2) cqI[OF c]] c by (auto simp: cview_def cq_def restored_def)
  qed
  moreover have "map fst (clients s') = map fst (clients s)" using reg valid assms(3) by (rule dump_load(1))
  moreover have "registry_ok s'" using reg valid assms(3) by (rule dump_load(2))
  ultimately show ?thesis by blast
qed

theorem dump_load_restores_witness:
  "map fst (clients (load_event_queues demo_email 20 (Some (dump_event_queues demo_state)) init_tornado)) = [''1:0'']"
proof -
  have "map fst (clients demo_state) = [''1:0'']" by code_simp
  then show ?thesis using dump_load_restores[OF demo_reach demo_queues_wf refl, of demo_email 20] by simp
qed

section \<open>A shared event\<close>

text \<open>
  A user with two queues, the first one event ahead of the second, is sent the edit of a
  message.
\<close>

definition shared_start :: tornado where
  "shared_start = (case handle_events_request 1 demo_email 0 demo_request demo_delivered of
     Inr (_, t) \<Rightarrow> t | Inl _ \<Rightarrow> init_tornado)"

definition shared_edit :: pydict where
  "shared_edit = [(''event'', PDict [(''type'', PStr ''update_message''), (''message_id'', PInt 12)]),
     (''users'', PList [PDict [(''id'', PInt 7), (''flags'', PList [])]])]"

definition queue_ids :: "string \<Rightarrow> tornado \<Rightarrow> int list" where
  "queue_ids i s = (case map_of (clients s) i of None \<Rightarrow> [] | Some c \<Rightarrow>
     map (\<lambda>a. ev_id (cell (heap s) a)) (queue (client_queue c)))"

text \<open>
  An edited message is one event object shared by all queues of a user, and each push
  overwrites its id: after it the first queue holds the ids 0 and 0, although it had given
  the edit the id 1, so a client that acknowledged the first event never sees the edit.
\<close>

theorem update_message_event_shared:
  "(case process_notification 10 shared_edit shared_start of
      Inl e \<Rightarrow> False
    | Inr s \<Rightarrow> queue_ids ''1:0'' s = [0, 0] \<and> queue_ids ''1:1'' s = [0] \<and>
        map_option (\<lambda>c. next_event_id (client_queue c)) (map_of (clients s) ''1:0'') = Some 2 \<and>
        map_option (\<lambda>c. queue (prune (heap s) 0 (client_queue c))) (map_of (clients s) ''1:0'') = Some [])"
  by code_simp

section \<open>A shared message\<close>

text \<open>Two users register, and the loop over the clients runs for a message that mentions the first of them.\<close>

definition second_request :: events_request where
  "second_request = demo_request\<lparr>r_user_id := 8, r_email := ''hamlet@zulip.com''\<rparr>"

definition mention_start :: tornado where
  "mention_start = (case handle_events_request 1 demo_email 0 second_request demo_state of Inr (_, t) \<Rightarrow> t | Inl _ \<Rightarrow> init_tornado)"

definition sent_mention :: "pyerr + tornado" where
  "sent_mention =
     (let (md, s) = new_object [(''id'', PInt 12), (''sender_id'', PInt 9), (''type'', PStr ''private'')] mention_start
      in efold (send_message_event [] md md ''website'' []) s
           [(''1:0'', \<lparr>se_flags = PList [PStr ''mentioned''], se_is_sender = False\<rparr>), (''1:1'', \<lparr>se_flags = PList [], se_is_sender = False\<rparr>)])"

definition queued_mentions :: "string \<Rightarrow> tornado \<Rightarrow> (pyval option \<times> pyval option) list" where
  "queued_mentions i s = (case map_of (clients s) i of None \<Rightarrow> [] | Some c \<Rightarrow>
     map (\<lambda>a. let e = resolve_dict (heap s) (cell (heap s) a)
              in (map_of e ''flags'', case map_of e ''message'' of Some (PDict m) \<Rightarrow> map_of m ''is_mentioned'' | _ \<Rightarrow> None)) (queue (client_queue c)))"

text \<open>
  The dictionary of the message is shared by the events of all recipients, and each round assigns
  \<open>is_mentioned\<close> in it: the user who is mentioned reads the value of the last recipient.
\<close>

lemma mention_flag_shared:
  "(case sent_mention of
      Inl e \<Rightarrow> False
    | Inr s \<Rightarrow> queued_mentions ''1:0'' s = [(Some (PList [PStr ''mentioned'']), Some (PBool False))])"
  by code_simp

end
