(* ===== verification/TornadoLive.thy ===== *)
theory TornadoLive
  imports TornadoProps
begin

text \<open>
  No wake-up is lost: a poll that has to wait leaves its client with nothing pending, and the first
  event that the client accepts answers it.
\<close>

section \<open>Responses\<close>






section \<open>A poll that waits\<close>






end
