(* ===== verification/Models.thy ===== *)
theory Models
  imports Prelude "HOL-Library.List_Lexorder" "HOL-Library.Char_ord" "HOL-Library.Product_Lexorder"
begin

text \<open>
  The data model (\<open>zerver/models.py\<close>): a record per model class, with foreign keys as ids,
  the tables as lists in the order of insertion, and the queries and methods of the models.
  Times are seconds since the epoch in UTC. A query \<open>objects.get\<close> raises \<open>DoesNotExist\<close> when
  nothing matches. The caches in front of the queries are left out: they return what the
  query returns.
\<close>

section \<open>Settings\<close>

record settings =
  REALMS_HAVE_SUBDOMAINS :: bool
  SYSTEM_ONLY_REALMS :: "string list"
  NAME_CHANGES_DISABLED :: bool
  EXTERNAL_HOST :: string
  EXTERNAL_URI_SCHEME :: string
  SERVER_URI :: string
  SSO_APPEND_DOMAIN :: "string option"
  ENABLE_FILE_LINKS :: bool
  CROSS_REALM_BOT_EMAILS :: "string list"

section \<open>Tables\<close>

record realm =
  rm_id :: int
  rm_name :: "string option"
  rm_string_id :: string
  rm_restricted_to_domain :: bool
  rm_invite_required :: bool
  rm_invite_by_admins_only :: bool
  rm_inline_image_preview :: bool
  rm_inline_url_embed_preview :: bool
  rm_create_stream_by_admins_only :: bool
  rm_add_emoji_by_admins_only :: bool
  rm_mandatory_topics :: bool
  rm_show_digest_email :: bool
  rm_name_changes_disabled :: bool
  rm_email_changes_disabled :: bool
  rm_description :: "string option"
  rm_allow_message_editing :: bool
  rm_message_content_edit_limit_seconds :: int
  rm_message_retention_days :: "int option"
  rm_allow_edit_history :: bool
  rm_org_type :: int
  rm_date_created :: rat
  rm_notifications_stream :: "int option"
  rm_deactivated :: bool
  rm_default_language :: string
  rm_authentication_methods :: int
  rm_waiting_period_threshold :: int
  rm_icon_source :: string
  rm_icon_version :: int

record realm_domain =
  rd_realm :: int
  rd_domain :: string
  rd_allow_subdomains :: bool

record user_profile =
  u_id :: int
  u_email :: string
  u_is_staff :: bool
  u_is_active :: bool
  u_is_realm_admin :: bool
  u_is_bot :: bool
  u_bot_type :: "int option"
  u_is_api_super_user :: bool
  u_date_joined :: rat
  u_is_mirror_dummy :: bool
  u_bot_owner :: "int option"
  u_long_term_idle :: bool
  u_full_name :: string
  u_short_name :: string
  u_pointer :: int
  u_last_pointer_updater :: string
  u_realm :: int
  u_api_key :: string
  u_tos_version :: "string option"
  u_last_active_message_id :: "int option"
  u_enable_stream_desktop_notifications :: bool
  u_enable_stream_sounds :: bool
  u_enable_desktop_notifications :: bool
  u_pm_content_in_desktop_notifications :: bool
  u_enable_sounds :: bool
  u_enable_offline_email_notifications :: bool
  u_enable_offline_push_notifications :: bool
  u_enable_online_push_notifications :: bool
  u_enable_digest_emails :: bool
  u_default_desktop_notifications :: bool
  u_last_reminder :: "rat option"
  u_rate_limits :: string
  u_default_sending_stream :: "int option"
  u_default_events_register_stream :: "int option"
  u_default_all_public_streams :: bool
  u_enter_sends :: "bool option"
  u_autoscroll_forever :: bool
  u_left_side_userlist :: bool
  u_emoji_alt_code :: bool
  u_twenty_four_hour_time :: bool
  u_default_language :: string
  u_high_contrast_mode :: bool
  u_avatar_source :: string
  u_avatar_version :: int
  u_tutorial_status :: string
  u_onboarding_steps :: string
  u_alert_words :: string
  u_muted_topics :: string
  u_quota :: int
  u_timezone :: string
  u_emojiset :: string

record stream =
  st_id :: int
  st_name :: string
  st_realm :: int
  st_invite_only :: "bool option"
  st_email_token :: string
  st_description :: string
  st_date_created :: rat
  st_deactivated :: bool

record recipient =
  rc_id :: int
  rc_type_id :: int
  rc_type :: int

record message =
  m_id :: int
  m_sender :: int
  m_recipient :: int
  m_subject :: string
  m_content :: string
  m_rendered_content :: "string option"
  m_rendered_content_version :: "int option"
  m_pub_date :: rat
  m_sending_client :: int
  m_last_edit_time :: "rat option"
  m_edit_history :: "string option"
  m_has_attachment :: bool
  m_has_image :: bool
  m_has_link :: bool

record user_message =
  um_user_profile :: int
  um_message :: int
  um_flags :: int

record subscription =
  sub_user_profile :: int
  sub_recipient :: int
  sub_active :: bool
  sub_in_home_view :: "bool option"
  sub_color :: string
  sub_pin_to_top :: bool
  sub_desktop_notifications :: bool
  sub_audible_notifications :: bool
  sub_notifications :: bool

record reaction =
  re_user_profile :: int
  re_message :: int
  re_emoji_name :: string

record attachment =
  at_id :: int
  at_file_name :: string
  at_path_id :: string
  at_owner :: int
  at_realm :: "int option"
  at_is_realm_public :: bool
  at_create_time :: rat
  at_size :: "int option"
  at_messages :: "int list"

record user_presence =
  pr_user_profile :: int
  pr_client_name :: string
  pr_timestamp :: rat
  pr_status :: int

record push_device_token =
  pd_kind :: int
  pd_token :: string
  pd_last_updated :: rat
  pd_ios_app_id :: "string option"
  pd_user :: int

record audit_log =
  al_realm :: int
  al_acting_user :: "int option"
  al_modified_user :: "int option"
  al_modified_stream :: "int option"
  al_event_last_message_id :: "int option"
  al_event_type :: string
  al_event_time :: rat

record user_activity =
  ua_user_profile :: int
  ua_client_name :: string
  ua_query :: string
  ua_count :: int
  ua_last_visit :: rat

record user_activity_interval =
  ui_id :: int
  ui_user_profile :: int
  ui_start :: rat
  ui_end :: rat

record realm_emoji =
  ej_author :: "int option"
  ej_realm :: int
  ej_name :: string
  ej_file_name :: "string option"
  ej_deactivated :: bool

record realm_filter =
  rf_id :: int
  rf_realm :: int
  rf_pattern :: string
  rf_url_format_string :: string

text \<open>The default streams are pairs of a realm and a stream; archived rows carry the time of their archival.\<close>

text \<open>The counts of \<open>analytics/models.py\<close>; anomalies, which are entered by hand, are left out.\<close>

record base_count =
  bc_property :: string
  bc_subgroup :: "string option"
  bc_end_time :: rat
  bc_value :: int

type_synonym installation_count = base_count

record realm_count = base_count +
  bc_realm :: int

record user_count = realm_count +
  uc_user :: int

record stream_count = realm_count +
  sc_stream :: int

record fill_state =
  fs_property :: string
  fs_end_time :: rat
  fs_state :: int

record prereg_user =
  pu_id :: int
  pu_email :: string
  pu_referred_by :: "int option"
  pu_streams :: "int list"
  pu_status :: int
  pu_realm :: "int option"

record service =
  srv_name :: string
  srv_user_profile :: int
  srv_base_url :: string
  srv_token :: string
  srv_interface :: int

record db =
  realms :: "realm list"
  realm_domains :: "realm_domain list"
  users :: "user_profile list"
  streams :: "stream list"
  recipients :: "recipient list"
  messages :: "message list"
  user_messages :: "user_message list"
  subscriptions :: "subscription list"
  reactions :: "reaction list"
  attachments :: "attachment list"
  presences :: "user_presence list"
  push_tokens :: "push_device_token list"
  client_names :: "(int \<times> string) list"
  huddle_hashes :: "(int \<times> string) list"
  audit_logs :: "audit_log list"
  default_streams :: "(int \<times> int) list"
  activities :: "user_activity list"
  activity_intervals :: "user_activity_interval list"
  archived_messages :: "(message \<times> rat) list"
  archived_user_messages :: "(user_message \<times> rat) list"
  archived_attachments :: "(attachment \<times> rat) list"
  realm_emojis :: "realm_emoji list"
  realm_filters :: "realm_filter list"
  user_hotspots :: "(int \<times> string) list"
  installation_counts :: "installation_count list"
  realm_counts :: "realm_count list"
  user_counts :: "user_count list"
  stream_counts :: "stream_count list"
  fill_states :: "fill_state list"
  user_sessions :: "(string \<times> int option) list"
  scheduled_emails :: "(int option \<times> int) list"
  prereg_users :: "prereg_user list"
  passwords :: "(int \<times> string) list"
  services :: "service list"

text \<open>\<open>objects.get(...)\<close>\<close>

definition db_get :: "string \<Rightarrow> ('a \<Rightarrow> bool) \<Rightarrow> 'a list \<Rightarrow> pyerr + 'a" where
  "db_get model p table =
     (case filter p table of
        [] \<Rightarrow> Inl (DoesNotExist model)
      | [x] \<Rightarrow> Inr x
      | _ \<Rightarrow> Inl (OtherError ''MultipleObjectsReturned''))"

text \<open>\<open>filter(...).first()\<close>\<close>

definition db_first :: "('a \<Rightarrow> bool) \<Rightarrow> 'a list \<Rightarrow> 'a option" where
  "db_first p table = find p table"

definition db_exists :: "('a \<Rightarrow> bool) \<Rightarrow> 'a list \<Rightarrow> bool" where
  "db_exists p table \<longleftrightarrow> list_ex p table"

lemma db_get_Inr: "db_get model p table = Inr x \<Longrightarrow> x \<in> set table \<and> p x"
proof -
  assume "db_get model p table = Inr x"
  then have "filter p table = [x]" by (auto simp: db_get_def split: list.splits)
  then have "x \<in> set (filter p table)" by simp
  then show ?thesis by simp
qed

lemma db_get_unique:
  assumes "\<And>y. y \<in> set table \<Longrightarrow> p y \<Longrightarrow> y = x" and "x \<in> set table" "p x" and "distinct table"
  shows "db_get model p table = Inr x"
proof -
  have "filter p table = filter (\<lambda>y. y = x) table" using assms(1,3) by (auto intro: filter_cong)
  also have "\<dots> = [x]" using assms(2,4) by (induction table) (auto simp: filter_empty_conv)
  finally show ?thesis by (simp add: db_get_def)
qed

lemma db_get_None: "db_get model p table = Inl (DoesNotExist e) \<longleftrightarrow> e = model \<and> (\<forall>x \<in> set table. \<not> p x)"
  using filter_empty_conv[of p table] by (cases "filter p table"; cases "tl (filter p table)") (auto simp: db_get_def)

lemma db_get_key:
  assumes "distinct (map k table)" and "x \<in> set table"
  shows "db_get model (\<lambda>y. k y = k x) table = Inr x"
proof -
  have "filter (\<lambda>y. k y = k x) table = [x]"
    using assms
  proof (induction table)
    case (Cons a table)
    show ?case
    proof (cases "k a = k x")
      case True
      then have "a = x" using Cons.prems by (metis distinct.simps(2) imageI list.set_map list.simps(9) set_ConsD)
      moreover have "filter (\<lambda>y. k y = k x) table = []"
        using Cons.prems(1) True by (auto simp: filter_empty_conv image_iff)
      ultimately show ?thesis by simp
    qed (use Cons in auto)
  qed simp
  then show ?thesis by (simp add: db_get_def)
qed

section \<open>Realms and email domains\<close>

definition get_realm :: "string \<Rightarrow> db \<Rightarrow> realm option" where
  "get_realm string_id d = db_first (\<lambda>r. rm_string_id r = string_id) (realms d)"

definition subdomain :: "settings \<Rightarrow> realm \<Rightarrow> string option" where
  "subdomain S r = (if REALMS_HAVE_SUBDOMAINS S then Some (rm_string_id r) else None)"

definition realm_uri :: "settings \<Rightarrow> realm \<Rightarrow> string" where
  "realm_uri S r =
     (if REALMS_HAVE_SUBDOMAINS S \<and> subdomain S r \<noteq> None
      then EXTERNAL_URI_SCHEME S @ the (subdomain S r) @ ''.'' @ EXTERNAL_HOST S
      else SERVER_URI S)"

definition realm_host :: "settings \<Rightarrow> realm \<Rightarrow> string" where
  "realm_host S r =
     (if REALMS_HAVE_SUBDOMAINS S \<and> subdomain S r \<noteq> None
      then the (subdomain S r) @ ''.'' @ EXTERNAL_HOST S
      else EXTERNAL_HOST S)"

definition is_zephyr_mirror_realm :: "realm \<Rightarrow> bool" where
  "is_zephyr_mirror_realm r \<longleftrightarrow> rm_string_id r = ''zephyr''"

definition get_bot_domain :: "settings \<Rightarrow> realm \<Rightarrow> db \<Rightarrow> string" where
  "get_bot_domain S r d =
     (let external_host = hd (str_split (CHR '':'') (EXTERNAL_HOST S));
          others = filter (\<lambda>x. \<not> rm_deactivated x \<and> rm_string_id x \<notin> set (SYSTEM_ONLY_REALMS S)) (realms d)
      in if REALMS_HAVE_SUBDOMAINS S \<or> length others > 1
         then rm_string_id r @ ''.'' @ external_host else external_host)"

definition get_admin_users :: "realm \<Rightarrow> db \<Rightarrow> user_profile list" where
  "get_admin_users r d = filter (\<lambda>u. u_realm u = rm_id r \<and> u_is_realm_admin u \<and> u_is_active u) (users d)"

definition get_active_users :: "realm \<Rightarrow> db \<Rightarrow> user_profile list" where
  "get_active_users r d = filter (\<lambda>u. u_realm u = rm_id r \<and> u_is_active u) (users d)"

definition completely_open :: "realm option \<Rightarrow> bool" where
  "completely_open r = (case r of None \<Rightarrow> False | Some x \<Rightarrow> \<not> rm_invite_required x \<and> \<not> rm_restricted_to_domain x)"

definition get_unique_non_system_realm :: "settings \<Rightarrow> db \<Rightarrow> realm option" where
  "get_unique_non_system_realm S d =
     (case filter (\<lambda>x. \<not> rm_deactivated x \<and> rm_string_id x \<notin> set (SYSTEM_ONLY_REALMS S)) (realms d) of
        [r] \<Rightarrow> Some r | _ \<Rightarrow> None)"

definition get_unique_open_realm :: "settings \<Rightarrow> db \<Rightarrow> realm option" where
  "get_unique_open_realm S d =
     (if REALMS_HAVE_SUBDOMAINS S then None
      else case get_unique_non_system_realm S d of
        None \<Rightarrow> None
      | Some r \<Rightarrow> if rm_invite_required r \<or> rm_restricted_to_domain r then None else Some r)"

definition name_changes_disabled :: "settings \<Rightarrow> realm option \<Rightarrow> bool" where
  "name_changes_disabled S r =
     (case r of None \<Rightarrow> NAME_CHANGES_DISABLED S | Some x \<Rightarrow> NAME_CHANGES_DISABLED S \<or> rm_name_changes_disabled x)"

definition can_add_realm_domain :: "settings \<Rightarrow> string \<Rightarrow> db \<Rightarrow> bool" where
  "can_add_realm_domain S domain d \<longleftrightarrow>
     REALMS_HAVE_SUBDOMAINS S \<or> \<not> db_exists (\<lambda>x. rd_domain x = domain) (realm_domains d)"

definition email_to_username :: "string \<Rightarrow> string" where
  "email_to_username email = str_lower (str_join ''@'' (butlast (str_split (CHR ''@'') email)))"

definition email_to_domain :: "string \<Rightarrow> string" where
  "email_to_domain email = str_lower (last (str_split (CHR ''@'') email))"

text \<open>
  The loop \<open>while len(domain) > 0\<close>: the parent domains that \<open>domain.partition('.')\<close> gives, in
  order; the last one is empty.
\<close>

fun after_dot :: "string \<Rightarrow> string" where
  "after_dot [] = []"
| "after_dot (c # s) = (if c = CHR ''.'' then s else after_dot s)"

lemma length_after_dot: "s \<noteq> [] \<Longrightarrow> length (after_dot s) < length s"
proof (induction s)
  case (Cons c s)
  then show ?case by (cases "s = []") auto
qed simp

function parent_domains :: "string \<Rightarrow> string list" where
  "parent_domains domain = (if domain = [] then [] else after_dot domain # parent_domains (after_dot domain))"
  by auto
termination by (relation "measure length") (auto intro: length_after_dot)

declare parent_domains.simps [simp del]

fun first_domain :: "realm_domain list \<Rightarrow> string list \<Rightarrow> int option" where
  "first_domain query [] = None"
| "first_domain query (p # ps) =
     (case db_first (\<lambda>x. rd_domain x = p) query of
        Some x \<Rightarrow> Some (rd_realm x)
      | None \<Rightarrow> first_domain query ps)"

definition get_realm_by_email_domain :: "settings \<Rightarrow> string \<Rightarrow> db \<Rightarrow> pyerr + int option" where
  "get_realm_by_email_domain S email d =
     (if REALMS_HAVE_SUBDOMAINS S then Inl (OtherError ''GetRealmByDomainException'')
      else
        let domain = email_to_domain email
        in case db_first (\<lambda>x. rd_domain x = domain) (realm_domains d) of
             Some x \<Rightarrow> Inr (Some (rd_realm x))
           | None \<Rightarrow>
               (let query = filter rd_allow_subdomains (realm_domains d)
                in Inr (first_domain query (parent_domains domain))))"

definition email_allowed_for_realm :: "string \<Rightarrow> realm \<Rightarrow> db \<Rightarrow> bool" where
  "email_allowed_for_realm email r d \<longleftrightarrow>
     (if \<not> rm_restricted_to_domain r then True
      else
        let domain = email_to_domain email;
            query = filter (\<lambda>x. rd_realm x = rm_id r) (realm_domains d)
        in if db_exists (\<lambda>x. rd_domain x = domain) query then True
           else let query = filter rd_allow_subdomains query
                in list_ex (\<lambda>p. db_exists (\<lambda>x. rd_domain x = p) query) (parent_domains domain))"

definition get_realm_domains :: "realm \<Rightarrow> db \<Rightarrow> (string \<times> bool) list" where
  "get_realm_domains r d =
     map (\<lambda>x. (rd_domain x, rd_allow_subdomains x)) (filter (\<lambda>x. rd_realm x = rm_id r) (realm_domains d))"

section \<open>Users\<close>

definition can_admin_user :: "user_profile \<Rightarrow> user_profile \<Rightarrow> bool" where
  "can_admin_user self target_user \<longleftrightarrow>
     (if u_bot_owner target_user = Some (u_id self) then True
      else if u_is_realm_admin self \<and> u_realm self = u_realm target_user then True
      else False)"

abbreviation (input) DEFAULT_BOT :: int where "DEFAULT_BOT \<equiv> 1"
abbreviation (input) INCOMING_WEBHOOK_BOT :: int where "INCOMING_WEBHOOK_BOT \<equiv> 2"
abbreviation (input) OUTGOING_WEBHOOK_BOT :: int where "OUTGOING_WEBHOOK_BOT \<equiv> 3"
abbreviation (input) EMBEDDED_BOT :: int where "EMBEDDED_BOT \<equiv> 4"

definition is_incoming_webhook :: "user_profile \<Rightarrow> bool" where
  "is_incoming_webhook u \<longleftrightarrow> u_bot_type u = Some INCOMING_WEBHOOK_BOT"

definition is_outgoing_webhook_bot :: "user_profile \<Rightarrow> bool" where
  "is_outgoing_webhook_bot u \<longleftrightarrow> u_bot_type u = Some OUTGOING_WEBHOOK_BOT"

definition is_embedded_bot :: "user_profile \<Rightarrow> bool" where
  "is_embedded_bot u \<longleftrightarrow> u_bot_type u = Some EMBEDDED_BOT"

definition is_service_bot :: "user_profile \<Rightarrow> bool" where
  "is_service_bot u \<longleftrightarrow> u_is_bot u \<and> u_bot_type u \<in> {Some OUTGOING_WEBHOOK_BOT, Some EMBEDDED_BOT}"

text \<open>\<open>(now - date_joined).days\<close> rounds down.\<close>

definition can_create_streams :: "rat \<Rightarrow> user_profile \<Rightarrow> realm \<Rightarrow> bool" where
  "can_create_streams now u r \<longleftrightarrow>
     (let diff = \<lfloor>(now - u_date_joined u) / 86400\<rfloor>
      in if u_is_realm_admin u then True
         else if rm_create_stream_by_admins_only r then False
         else if diff \<ge> rm_waiting_period_threshold r then True
         else False)"

definition major_tos_version :: "user_profile \<Rightarrow> pyerr + int" where
  "major_tos_version u = (case u_tos_version u of None \<Rightarrow> Inr (-1) | Some v \<Rightarrow> parse_int (hd (str_split (CHR ''.'') v)))"

definition receives_offline_notifications :: "user_profile \<Rightarrow> bool" where
  "receives_offline_notifications u \<longleftrightarrow>
     (u_enable_offline_email_notifications u \<or> u_enable_offline_push_notifications u) \<and> \<not> u_is_bot u"

definition receives_online_notifications :: "user_profile \<Rightarrow> bool" where
  "receives_online_notifications u \<longleftrightarrow> u_enable_online_push_notifications u \<and> \<not> u_is_bot u"

definition remote_user_to_email :: "settings \<Rightarrow> string \<Rightarrow> string" where
  "remote_user_to_email S remote_user =
     (case SSO_APPEND_DOMAIN S of None \<Rightarrow> remote_user | Some e \<Rightarrow> remote_user @ ''@'' @ e)"

definition get_user_profile_by_id :: "int \<Rightarrow> db \<Rightarrow> pyerr + user_profile" where
  "get_user_profile_by_id uid d = db_get ''UserProfile'' (\<lambda>u. u_id u = uid) (users d)"

definition get_user_profile_by_email :: "string \<Rightarrow> db \<Rightarrow> pyerr + user_profile" where
  "get_user_profile_by_email email d =
     db_get ''UserProfile'' (\<lambda>u. str_lower (u_email u) = str_lower (str_strip email)) (users d)"

definition get_user :: "string \<Rightarrow> int \<Rightarrow> db \<Rightarrow> pyerr + user_profile" where
  "get_user email realm_id d =
     db_get ''UserProfile'' (\<lambda>u. str_lower (u_email u) = str_lower (str_strip email) \<and> u_realm u = realm_id) (users d)"

definition get_system_bot :: "string \<Rightarrow> db \<Rightarrow> pyerr + user_profile" where
  "get_system_bot email d =
     db_get ''UserProfile'' (\<lambda>u. str_lower (u_email u) = str_lower (str_strip email)) (users d)"

definition get_user_including_cross_realm :: "settings \<Rightarrow> string \<Rightarrow> int option \<Rightarrow> db \<Rightarrow> pyerr + user_profile" where
  "get_user_including_cross_realm S email realm_id d =
     (if email \<in> set (CROSS_REALM_BOT_EMAILS S) then get_system_bot email d
      else case realm_id of None \<Rightarrow> Inl (AssertionError ''realm'') | Some r \<Rightarrow> get_user email r d)"

section \<open>Streams and recipients\<close>

definition is_public :: "db \<Rightarrow> stream \<Rightarrow> pyerr + bool" where
  "is_public d s =
     ebind (db_get ''Realm'' (\<lambda>r. rm_id r = st_realm s) (realms d)) (\<lambda>r.
       Inr (st_invite_only s \<noteq> Some True \<and> \<not> is_zephyr_mirror_realm r))"

abbreviation (input) PERSONAL :: int where "PERSONAL \<equiv> 1"
abbreviation (input) STREAM :: int where "STREAM \<equiv> 2"
abbreviation (input) HUDDLE :: int where "HUDDLE \<equiv> 3"

definition type_name :: "recipient \<Rightarrow> pyerr + string" where
  "type_name r =
     (if rc_type r = PERSONAL then Inr ''personal'' else if rc_type r = STREAM then Inr ''stream''
      else if rc_type r = HUDDLE then Inr ''huddle'' else Inl (KeyError (int_str (rc_type r))))"

definition get_recipient :: "int \<Rightarrow> int \<Rightarrow> db \<Rightarrow> pyerr + recipient" where
  "get_recipient ty type_id d = db_get ''Recipient'' (\<lambda>r. rc_type_id r = type_id \<and> rc_type r = ty) (recipients d)"

definition bulk_get_recipients :: "int \<Rightarrow> int list \<Rightarrow> db \<Rightarrow> (int \<times> recipient) list" where
  "bulk_get_recipients ty type_ids d =
     map (\<lambda>r. (rc_type_id r, r)) (filter (\<lambda>r. rc_type r = ty \<and> rc_type_id r \<in> set type_ids) (recipients d))"

definition num_subscribers :: "stream \<Rightarrow> db \<Rightarrow> nat" where
  "num_subscribers s d = length (filter (\<lambda>x. sub_active x \<and>
     db_exists (\<lambda>r. rc_id r = sub_recipient x \<and> rc_type r = STREAM \<and> rc_type_id r = st_id s) (recipients d) \<and>
     db_exists (\<lambda>u. u_id u = sub_user_profile x \<and> u_is_active u) (users d)) (subscriptions d))"

definition stream_to_dict :: "stream \<Rightarrow> pydict" where
  "stream_to_dict s =
     [(''name'', PStr (st_name s)), (''stream_id'', PInt (st_id s)), (''description'', PStr (st_description s)),
      (''invite_only'', of_opt PBool (st_invite_only s))]"

definition get_stream :: "string \<Rightarrow> int \<Rightarrow> db \<Rightarrow> pyerr + stream" where
  "get_stream stream_name realm_id d =
     db_get ''Stream'' (\<lambda>s. str_lower (st_name s) = str_lower (str_strip stream_name) \<and> st_realm s = realm_id) (streams d)"

definition get_active_streams :: "int \<Rightarrow> db \<Rightarrow> stream list" where
  "get_active_streams realm_id d = filter (\<lambda>s. st_realm s = realm_id \<and> \<not> st_deactivated s) (streams d)"

definition bulk_get_streams :: "int \<Rightarrow> string list \<Rightarrow> db \<Rightarrow> (string \<times> stream) list" where
  "bulk_get_streams realm_id stream_names d =
     map (\<lambda>s. (str_lower (st_name s), s))
       (filter (\<lambda>s. str_lower (st_name s) \<in> set (map str_lower stream_names)) (get_active_streams realm_id d))"

text \<open>\<open>get_huddle_hash\<close> digests this string of the member ids.\<close>

definition huddle_hash_key :: "int list \<Rightarrow> string" where
  "huddle_hash_key id_list = str_join '','' (map int_str (sort (remdups id_list)))"

definition get_display_recipient :: "int \<Rightarrow> int \<Rightarrow> int \<Rightarrow> db \<Rightarrow> pyerr + pyval" where
  "get_display_recipient recipient_id recipient_type recipient_type_id d =
     (if recipient_type = STREAM then
        ebind (db_get ''Stream'' (\<lambda>s. st_id s = recipient_type_id) (streams d)) (\<lambda>s. Inr (PStr (st_name s)))
      else
        Inr (PList (map (\<lambda>u. PDict [(''email'', PStr (u_email u)), (''full_name'', PStr (u_full_name u)),
                                   (''short_name'', PStr (u_short_name u)), (''id'', PInt (u_id u)),
                                   (''is_mirror_dummy'', PBool (u_is_mirror_dummy u))])
          (sort_key u_id (filter (\<lambda>u. db_exists (\<lambda>x. sub_user_profile x = u_id u \<and> sub_recipient x = recipient_id)
             (subscriptions d)) (users d))))))"

section \<open>Messages\<close>

definition datetime_to_timestamp :: "rat \<Rightarrow> int" where
  "datetime_to_timestamp dt = \<lfloor>dt\<rfloor>"

definition need_to_render_content :: "string option \<Rightarrow> int option \<Rightarrow> int \<Rightarrow> bool" where
  "need_to_render_content rendered_content rendered_content_version bugdown_version \<longleftrightarrow>
     rendered_content = None \<or>
     (case rendered_content_version of None \<Rightarrow> True | Some v \<Rightarrow> v < bugdown_version)"

definition sent_by_human :: "string \<Rightarrow> bool" where
  "sent_by_human client_name \<longleftrightarrow>
     (let sending_client = str_lower client_name
      in sending_client \<in> set [''zulipandroid'', ''zulipios'', ''zulipdesktop'', ''zulipmobile'',
           ''zulipelectron'', ''snipe'', ''website'', ''ios'', ''android''] \<or>
         str_contains sending_client ''desktop app'')"

text \<open>
  The regular expressions: \<open>[/\-]user[\-_]uploads[/\.-]\<close> at the start of a string gives the
  rest; an image link continues with non-blanks and one of the extensions.
\<close>

definition match_char :: "string \<Rightarrow> string \<Rightarrow> string option" where
  "match_char cs s = (case s of [] \<Rightarrow> None | c # r \<Rightarrow> if c \<in> set cs then Some r else None)"

definition match_str :: "string \<Rightarrow> string \<Rightarrow> string option" where
  "match_str p s = (if starts_with s p then Some (drop (length p) s) else None)"

definition match_uploads :: "string \<Rightarrow> string option" where
  "match_uploads s = Option.bind (match_char ''/-'' s) (\<lambda>s1. Option.bind (match_str ''user'' s1) (\<lambda>s2.
     Option.bind (match_char ''-_'' s2) (\<lambda>s3. Option.bind (match_str ''uploads'' s3) (match_char ''/.-''))))"

definition suffixes_of :: "string \<Rightarrow> string list" where
  "suffixes_of s = map (\<lambda>i. drop i s) [0..<Suc (length s)]"

definition content_has_attachment :: "string \<Rightarrow> bool" where
  "content_has_attachment content \<longleftrightarrow> list_ex (\<lambda>s. match_uploads s \<noteq> None) (suffixes_of content)"

definition image_extension :: "string \<Rightarrow> bool" where
  "image_extension s \<longleftrightarrow> list_ex (\<lambda>e. starts_with s (CHR ''.'' # e)) [''bmp'', ''gif'', ''jpg'', ''jpeg'', ''png'', ''webp'']"

definition content_has_image :: "string \<Rightarrow> bool" where
  "content_has_image content \<longleftrightarrow>
     list_ex (\<lambda>s. case match_uploads s of
         None \<Rightarrow> False
       | Some r \<Rightarrow> (let w = takeWhile (\<lambda>c. \<not> is_space c) r
                    in list_ex (\<lambda>i. image_extension (drop i w)) [1..<Suc (length w)]))
       (suffixes_of (str_lower content))"

definition content_has_link :: "settings \<Rightarrow> string \<Rightarrow> bool" where
  "content_has_link S content \<longleftrightarrow>
     str_contains content ''http://'' \<or> str_contains content ''https://'' \<or>
     str_contains content ''/user_uploads'' \<or> (ENABLE_FILE_LINKS S \<and> str_contains content ''file:///'')"

definition is_status_message :: "string \<Rightarrow> string \<Rightarrow> bool" where
  "is_status_message content rendered_content \<longleftrightarrow>
     starts_with content ''/me '' \<and> CHR ''\<newline>'' \<notin> set content \<and>
     starts_with rendered_content ''<p>'' \<and> ends_with rendered_content ''</p>''"

definition update_calculated_fields :: "settings \<Rightarrow> message \<Rightarrow> message" where
  "update_calculated_fields S m =
     m\<lparr>m_has_attachment := content_has_attachment (m_content m), m_has_image := content_has_image (m_content m),
       m_has_link := content_has_link S (m_content m)\<rparr>"

definition get_context_for_message :: "message \<Rightarrow> db \<Rightarrow> message list" where
  "get_context_for_message msg d =
     take 10 (rev (sort_key m_id (filter (\<lambda>m. m_recipient m = m_recipient msg \<and> m_subject m = m_subject msg \<and>
       m_id m < m_id msg \<and> m_pub_date m > m_pub_date msg - 15 * 60) (messages d))))"

definition to_log_dict :: "message \<Rightarrow> db \<Rightarrow> pyerr + pydict" where
  "to_log_dict m d =
     ebind (get_user_profile_by_id (m_sender m) d) (\<lambda>sender.
     ebind (db_get ''Realm'' (\<lambda>r. rm_id r = u_realm sender) (realms d)) (\<lambda>r.
     ebind (the_some (DoesNotExist ''Client'') (map_of (client_names d) (m_sending_client m))) (\<lambda>client_name.
     ebind (db_get ''Recipient'' (\<lambda>x. rc_id x = m_recipient m) (recipients d)) (\<lambda>rc.
     ebind (type_name rc) (\<lambda>ty.
     ebind (get_display_recipient (rc_id rc) (rc_type rc) (rc_type_id rc) d) (\<lambda>dr.
       Inr [(''id'', PInt (m_id m)), (''sender_id'', PInt (u_id sender)), (''sender_email'', PStr (u_email sender)),
            (''sender_realm_str'', PStr (rm_string_id r)), (''sender_full_name'', PStr (u_full_name sender)),
            (''sender_short_name'', PStr (u_short_name sender)), (''sending_client'', PStr client_name),
            (''type'', PStr ty), (''recipient'', dr), (''subject'', PStr (m_subject m)),
            (''content'', PStr (m_content m)), (''timestamp'', PInt (datetime_to_timestamp (m_pub_date m)))]))))))"

text \<open>Stitching the reactions of some messages into them.\<close>

definition sew_messages_and_reactions :: "(int \<times> 'm) list \<Rightarrow> (int \<times> 'r) list \<Rightarrow> pyerr + (int \<times> 'm \<times> 'r list) list" where
  "sew_messages_and_reactions msgs rs =
     (let converted = fold (\<lambda>(i, m). dset i (m, [])) msgs []
      in efold (\<lambda>conv (i, r). case map_of conv i of
             None \<Rightarrow> Inl (KeyError (int_str i))
           | Some (m, l) \<Rightarrow> Inr (dset i (m, l @ [r]) conv)) converted rs)"

definition ALL_FLAGS :: "string list" where
  "ALL_FLAGS = [''read'', ''starred'', ''collapsed'', ''mentioned'', ''wildcard_mentioned'',
     ''summarize_in_home'', ''summarize_in_stream'', ''force_expand'', ''force_collapse'',
     ''has_alert_word'', ''historical'', ''is_me_message'']"

fun flags_loop :: "int \<Rightarrow> int \<Rightarrow> string list \<Rightarrow> string list" where
  "flags_loop val m [] = []"
| "flags_loop val m (flag # rest) =
     (if and val m \<noteq> 0 then [flag] else []) @ flags_loop val (push_bit 1 m) rest"

definition parse_usermessage_flags :: "int \<Rightarrow> string list" where
  "parse_usermessage_flags val = flags_loop val 1 ALL_FLAGS"

definition um_unread :: "user_message \<Rightarrow> bool" where
  "um_unread um \<longleftrightarrow> and (um_flags um) 1 = 0"

definition validate_attachment_request :: "user_profile \<Rightarrow> string \<Rightarrow> db \<Rightarrow> bool option" where
  "validate_attachment_request u path_id d =
     (case db_first (\<lambda>a. at_path_id a = path_id) (attachments d) of
        None \<Rightarrow> None
      | Some a \<Rightarrow>
          Some (if u_id u = at_owner a then True
                else if at_is_realm_public a \<and> at_realm a = Some (u_realm u) then True
                else if db_exists (\<lambda>x. um_user_profile x = u_id u \<and> um_message x \<in> set (at_messages a)) (user_messages d)
                then True else False))"

definition get_old_unclaimed_attachments :: "rat \<Rightarrow> int \<Rightarrow> db \<Rightarrow> attachment list" where
  "get_old_unclaimed_attachments now weeks_ago d =
     filter (\<lambda>a. at_messages a = [] \<and> at_create_time a < now - of_int weeks_ago * 604800) (attachments d)"

section \<open>Presence\<close>

definition status_to_string :: "int \<Rightarrow> pyerr + string" where
  "status_to_string status =
     (if status = 1 then Inr ''active'' else if status = 2 then Inr ''idle''
      else Inl (ValueError (''Unknown status: '' @ int_str status)))"

definition status_from_string :: "string \<Rightarrow> int option" where
  "status_from_string status = (if status = ''active'' then Some 1 else if status = ''idle'' then Some 2 else None)"

definition to_presence_dict :: "string \<Rightarrow> int \<Rightarrow> rat \<Rightarrow> bool \<Rightarrow> bool \<Rightarrow> pyerr + pydict" where
  "to_presence_dict client_name status dt push_enabled has_push_devices =
     ebind (status_to_string status) (\<lambda>presence_val.
       Inr [(''client'', PStr client_name), (''status'', PStr presence_val),
            (''timestamp'', PInt (datetime_to_timestamp dt)), (''pushable'', PBool (push_enabled \<and> has_push_devices))])"

text \<open>
  The statuses by email and client name; the first row of a user, its latest, is also filed
  under \<open>aggregated\<close>.
\<close>

type_synonym statuses = "(string \<times> (string \<times> pydict) list) list"

definition add_status :: "db \<Rightarrow> int list \<Rightarrow> statuses \<Rightarrow> user_presence \<Rightarrow> pyerr + statuses" where
  "add_status d mobile_user_ids st row =
     ebind (get_user_profile_by_id (pr_user_profile row) d) (\<lambda>u.
     ebind (to_presence_dict (pr_client_name row) (pr_status row) (pr_timestamp row)
              (u_enable_offline_push_notifications u) (u_id u \<in> set mobile_user_ids)) (\<lambda>info.
       let cur = (case map_of st (u_email u) of None \<Rightarrow> [] | Some l \<Rightarrow> l);
           cur1 = (if cur = []
                   then [(''aggregated'', [(''status'', dget_default info ''status'' PNone),
                           (''timestamp'', dget_default info ''timestamp'' PNone),
                           (''client'', dget_default info ''client'' PNone)])]
                   else cur)
       in Inr (dset (u_email u) (dset (pr_client_name row) info cur1) st)))"

definition get_status_dicts_for_query :: "user_presence list \<Rightarrow> int list \<Rightarrow> db \<Rightarrow> pyerr + statuses" where
  "get_status_dicts_for_query query mobile_user_ids d =
     efold (add_status d mobile_user_ids) [] (sort_key (\<lambda>p. (pr_user_profile p, - pr_timestamp p)) query)"

definition get_status_dict_by_user :: "user_profile \<Rightarrow> db \<Rightarrow> pyerr + statuses" where
  "get_status_dict_by_user u d =
     (let query = filter (\<lambda>p. pr_user_profile p = u_id u) (presences d);
          mobile_user_ids = (if db_exists (\<lambda>t. pd_user t = u_id u) (push_tokens d) then [u_id u] else [])
      in get_status_dicts_for_query query mobile_user_ids d)"

text \<open>The push devices are looked up in the realm with id 1, whatever the argument is.\<close>

definition get_status_dict_by_realm :: "rat \<Rightarrow> int \<Rightarrow> db \<Rightarrow> pyerr + statuses" where
  "get_status_dict_by_realm now realm_id d =
     (let active = (\<lambda>r uid. db_exists (\<lambda>u. u_id u = uid \<and> u_realm u = r \<and> u_is_active u \<and> \<not> u_is_bot u) (users d));
          query = filter (\<lambda>p. active realm_id (pr_user_profile p) \<and> now - 1209600 \<le> pr_timestamp p) (presences d);
          mobile_user_ids = remdups (map pd_user (filter (\<lambda>t. active 1 (pd_user t)) (push_tokens d)))
      in get_status_dicts_for_query query mobile_user_ids d)"

section \<open>Properties\<close>

subsection \<open>Flags\<close>

lemma and_push_bit_1: "and val (push_bit k 1) \<noteq> 0 \<longleftrightarrow> bit val k" for val :: int
proof -
  have "and val (push_bit k 1) = (if bit val k then push_bit k 1 else 0)"
    by (rule bit_eqI) (auto simp: bit_and_iff bit_exp_iff)
  then show ?thesis by simp
qed

lemma flags_loop_enumerate:
  "flags_loop val (push_bit k 1) fs = map snd (filter (\<lambda>p. bit val (fst p)) (enumerate k fs))"
proof (induction fs arbitrary: k)
  case (Cons f fs)
  have "push_bit 1 (push_bit k 1) = (push_bit (Suc k) 1 :: int)" by (simp only: push_bit_push_bit) simp
  then show ?case using Cons[of "Suc k"] and_push_bit_1[of val k] by (simp add: mult.commute)
qed simp

text \<open>
  The flags of a user message are exactly the names of its set bits, in the order of
  the bit positions, and the row counts as unread exactly when \<open>read\<close> is not among them.
\<close>

theorem parse_flags_bits:
  "parse_usermessage_flags val = map snd (filter (\<lambda>p. bit val (fst p)) (enumerate 0 ALL_FLAGS)) \<and>
   (um_unread \<lparr>um_user_profile = u, um_message = m, um_flags = val\<rparr> \<longleftrightarrow> ''read'' \<notin> set (parse_usermessage_flags val))"
proof -
  have loop: "parse_usermessage_flags val = map snd (filter (\<lambda>p. bit val (fst p)) (enumerate 0 ALL_FLAGS))"
    using flags_loop_enumerate[of val 0 ALL_FLAGS] by (simp add: parse_usermessage_flags_def)
  moreover have "and val 1 = 0 \<longleftrightarrow> \<not> bit val 0" using and_push_bit_1[of val 0] by auto
  moreover have "''read'' \<in> set (parse_usermessage_flags val) \<longleftrightarrow> bit val 0"
    by (simp add: loop ALL_FLAGS_def)
  ultimately show ?thesis by (simp add: um_unread_def)
qed

subsection \<open>Email domains\<close>

lemma after_dot_split: "CHR ''.'' \<in> set s \<Longrightarrow> s = takeWhile (\<lambda>c. c \<noteq> CHR ''.'') s @ CHR ''.'' # after_dot s"
  by (induction s) auto

lemma after_dot_none: "CHR ''.'' \<notin> set s \<Longrightarrow> after_dot s = []"
  by (induction s) auto

lemma after_dot_first:
  assumes "s = p @ CHR ''.'' # q"
  shows "after_dot s = q \<or> (\<exists>p'. after_dot s = p' @ CHR ''.'' # q)"
  using assms by (induction p arbitrary: s) auto

lemma in_parent_domains:
  assumes "q \<noteq> []"
  shows "q \<in> set (parent_domains s) \<longleftrightarrow> (\<exists>p. s = p @ CHR ''.'' # q)"
proof (induction s rule: parent_domains.induct)
  case (1 s)
  show ?case
  proof (cases "s = []")
    case True
    then show ?thesis by (subst parent_domains.simps) simp
  next
    case False
    have "q \<in> set (parent_domains s) \<longleftrightarrow> q = after_dot s \<or> (\<exists>p. after_dot s = p @ CHR ''.'' # q)"
      using 1[OF False] False by (subst parent_domains.simps) simp
    also have "\<dots> \<longleftrightarrow> (\<exists>p. s = p @ CHR ''.'' # q)"
    proof
      assume r: "q = after_dot s \<or> (\<exists>p. after_dot s = p @ CHR ''.'' # q)"
      have dot: "CHR ''.'' \<in> set s"
      proof (rule ccontr)
        assume "CHR ''.'' \<notin> set s"
        then have "after_dot s = []" by (rule after_dot_none)
        then show False using r assms by auto
      qed
      from after_dot_split[OF dot] r show "\<exists>p. s = p @ CHR ''.'' # q"
        by (metis append.assoc append_Cons)
    next
      assume "\<exists>p. s = p @ CHR ''.'' # q"
      then show "q = after_dot s \<or> (\<exists>p. after_dot s = p @ CHR ''.'' # q)" using after_dot_first by metis
    qed
    finally show ?thesis .
  qed
qed

text \<open>What a realm's domains admit.\<close>

definition domain_matches :: "string \<Rightarrow> realm_domain \<Rightarrow> bool" where
  "domain_matches domain x \<longleftrightarrow> rd_domain x = domain \<or>
     (rd_allow_subdomains x \<and> (\<exists>p. domain = p @ ''.'' @ rd_domain x))"

lemma email_allowed_matches:
  assumes "\<forall>x \<in> set (realm_domains d). rd_domain x \<noteq> []"
  shows "email_allowed_for_realm email r d \<longleftrightarrow> \<not> rm_restricted_to_domain r \<or>
    (\<exists>x \<in> set (realm_domains d). rd_realm x = rm_id r \<and> domain_matches (email_to_domain email) x)"
proof -
  let ?dom = "email_to_domain email"
  have "(\<exists>p \<in> set (parent_domains ?dom). rd_domain x = p) \<longleftrightarrow> (\<exists>p. ?dom = p @ ''.'' @ rd_domain x)"
    if "x \<in> set (realm_domains d)" for x
    using in_parent_domains[of "rd_domain x" ?dom] assms that by auto
  then have "list_ex (\<lambda>p. db_exists (\<lambda>x. rd_domain x = p)
      (filter rd_allow_subdomains (filter (\<lambda>x. rd_realm x = rm_id r) (realm_domains d)))) (parent_domains ?dom) \<longleftrightarrow>
    (\<exists>x \<in> set (realm_domains d). rd_realm x = rm_id r \<and> rd_allow_subdomains x \<and> (\<exists>p. ?dom = p @ ''.'' @ rd_domain x))"
    by (fastforce simp: list_ex_iff db_exists_def)
  then show ?thesis
    by (auto simp: email_allowed_for_realm_def Let_def domain_matches_def list_ex_iff db_exists_def)
qed

lemma find_Some: "find p xs = Some x \<Longrightarrow> x \<in> set xs \<and> p x"
  by (induction xs) (auto split: if_splits)

lemma first_domain_Some:
  "first_domain query ps = Some rid \<Longrightarrow> \<exists>x \<in> set query. rd_domain x \<in> set ps \<and> rd_realm x = rid"
  by (induction ps) (auto simp: db_first_def split: option.splits dest: find_Some)

lemma first_domain_None: "first_domain query ps = None \<longleftrightarrow> (\<forall>x \<in> set query. rd_domain x \<notin> set ps)"
  by (induction ps) (auto simp: db_first_def find_None_iff split: option.splits dest: find_Some)

text \<open>
  A realm restricted to its domains admits exactly the addresses whose domain is one of
  them, or ends with a dot and one that allows subdomains.
\<close>

theorem email_allowed_iff:
  assumes "\<forall>x \<in> set (realm_domains d). rd_domain x \<noteq> []"
  shows "email_allowed_for_realm email r d \<longleftrightarrow> \<not> rm_restricted_to_domain r \<or>
    (\<exists>x \<in> set (realm_domains d). rd_realm x = rm_id r \<and>
      (rd_domain x = email_to_domain email \<or>
       (rd_allow_subdomains x \<and> (\<exists>p. email_to_domain email = p @ ''.'' @ rd_domain x))))"
  using email_allowed_matches[OF assms] by (simp add: domain_matches_def)

definition empty_db :: db where
  "empty_db = \<lparr>realms = [], realm_domains = [], users = [], streams = [], recipients = [], messages = [],
     user_messages = [], subscriptions = [], reactions = [], attachments = [], presences = [], push_tokens = [], client_names = [], huddle_hashes = [],
     audit_logs = [], default_streams = [], activities = [], activity_intervals = [], archived_messages = [],
     archived_user_messages = [], archived_attachments = [], realm_emojis = [], realm_filters = [], user_hotspots = [],
     installation_counts = [], realm_counts = [], user_counts = [], stream_counts = [], fill_states = [],
     user_sessions = [], scheduled_emails = [], prereg_users = [], passwords = [], services = []\<rparr>"

definition demo_domains :: db where
  "demo_domains = empty_db\<lparr>realm_domains := [\<lparr>rd_realm = 4, rd_domain = ''zulip.com'', rd_allow_subdomains = True\<rparr>]\<rparr>"

definition demo_realm :: realm where
  "demo_realm = \<lparr>rm_id = 4, rm_name = None, rm_string_id = ''zulip'', rm_restricted_to_domain = True,
     rm_invite_required = False, rm_invite_by_admins_only = False, rm_inline_image_preview = True,
     rm_inline_url_embed_preview = False, rm_create_stream_by_admins_only = False,
     rm_add_emoji_by_admins_only = False, rm_mandatory_topics = False, rm_show_digest_email = True,
     rm_name_changes_disabled = False, rm_email_changes_disabled = False, rm_description = None,
     rm_allow_message_editing = True, rm_message_content_edit_limit_seconds = 600,
     rm_message_retention_days = None, rm_allow_edit_history = True, rm_org_type = 1, rm_date_created = 0,
     rm_notifications_stream = None, rm_deactivated = False, rm_default_language = ''en'',
     rm_authentication_methods = 2147483647, rm_waiting_period_threshold = 0, rm_icon_source = ''G'',
     rm_icon_version = 1\<rparr>"

theorem email_allowed_iff_witness:
  "email_allowed_for_realm ''ann@chat.Zulip.com'' demo_realm demo_domains \<and>
   \<not> email_allowed_for_realm ''ann@notzulip.com'' demo_realm demo_domains"
proof -
  have one: "email_to_domain ''ann@chat.Zulip.com'' = ''chat'' @ ''.'' @ ''zulip.com''" by code_simp
  have two: "email_to_domain ''ann@notzulip.com'' = ''notzulip.com''" by code_simp
  have no: "''notzulip.com'' = p @ ''.zulip.com'' \<Longrightarrow> False" for p
    using arg_cong[where f = "\<lambda>s. rev s ! 9", of "''notzulip.com''" "p @ ''.zulip.com''"] by simp
  have "email_allowed_for_realm ''ann@chat.Zulip.com'' demo_realm demo_domains"
    using email_allowed_iff[of demo_domains "''ann@chat.Zulip.com''" demo_realm] one
    by (simp add: demo_domains_def demo_realm_def)
  moreover have "\<not> email_allowed_for_realm ''ann@notzulip.com'' demo_realm demo_domains"
    using email_allowed_iff[of demo_domains "''ann@notzulip.com''" demo_realm] two no
    by (auto simp: demo_domains_def demo_realm_def)
  ultimately show ?thesis by simp
qed

text \<open>
  The realm found for an address by its domain has a domain that admits the address,
  and no realm is found only if no realm's domain does.
\<close>

theorem realm_by_domain_sound:
  assumes "\<forall>x \<in> set (realm_domains d). rd_domain x \<noteq> []" and "get_realm_by_email_domain S email d = Inr found"
  shows "case found of
      Some rid \<Rightarrow> \<exists>x \<in> set (realm_domains d). rd_realm x = rid \<and> domain_matches (email_to_domain email) x
    | None \<Rightarrow> \<forall>x \<in> set (realm_domains d). \<not> domain_matches (email_to_domain email) x"
proof -
  let ?dom = "email_to_domain email" and ?q = "filter rd_allow_subdomains (realm_domains d)"
  have parent: "rd_domain x \<in> set (parent_domains ?dom) \<longleftrightarrow> (\<exists>p. ?dom = p @ ''.'' @ rd_domain x)"
    if "x \<in> set (realm_domains d)" for x
    using in_parent_domains[of "rd_domain x" ?dom] assms(1) that by simp
  show ?thesis
  proof (cases "find (\<lambda>x. rd_domain x = ?dom) (realm_domains d)")
    case (Some x)
    then have "found = Some (rd_realm x)" using assms(2)
      by (simp add: get_realm_by_email_domain_def Let_def db_first_def split: if_splits)
    then show ?thesis using find_Some[OF Some] by (auto simp: domain_matches_def)
  next
    case None
    then have f: "found = first_domain ?q (parent_domains ?dom)" using assms(2)
      by (simp add: get_realm_by_email_domain_def Let_def db_first_def split: if_splits)
    have no: "\<forall>x \<in> set (realm_domains d). rd_domain x \<noteq> ?dom" using None by (simp add: find_None_iff)
    show ?thesis
    proof (cases found)
      case (Some rid)
      then obtain x where "x \<in> set ?q" "rd_domain x \<in> set (parent_domains ?dom)" "rd_realm x = rid"
        using first_domain_Some[of ?q "parent_domains ?dom" rid] f by auto
      then show ?thesis using Some parent[of x] by (auto simp: domain_matches_def)
    next
      case None
      then have "\<forall>x \<in> set ?q. rd_domain x \<notin> set (parent_domains ?dom)"
        using f first_domain_None[of ?q "parent_domains ?dom"] by simp
      then show ?thesis using None parent no by (auto simp: domain_matches_def)
    qed
  qed
qed

definition demo_settings :: settings where
  "demo_settings = \<lparr>REALMS_HAVE_SUBDOMAINS = False, SYSTEM_ONLY_REALMS = [], NAME_CHANGES_DISABLED = False,
     EXTERNAL_HOST = ''zulip.example'', EXTERNAL_URI_SCHEME = ''https://'', SERVER_URI = ''https://zulip.example'',
     SSO_APPEND_DOMAIN = None, ENABLE_FILE_LINKS = False, CROSS_REALM_BOT_EMAILS = []\<rparr>"

theorem realm_by_domain_sound_witness:
  "get_realm_by_email_domain demo_settings ''ann@chat.Zulip.com'' demo_domains = Inr (Some 4) \<and>
   (\<exists>x \<in> set (realm_domains demo_domains). rd_realm x = 4 \<and>
      domain_matches (email_to_domain ''ann@chat.Zulip.com'') x)"
proof -
  have run: "get_realm_by_email_domain demo_settings ''ann@chat.Zulip.com'' demo_domains = Inr (Some 4)"
    by code_simp
  have "\<forall>x \<in> set (realm_domains demo_domains). rd_domain x \<noteq> []" by (simp add: demo_domains_def)
  from realm_by_domain_sound[OF this run] run show ?thesis by simp
qed

subsection \<open>Reactions\<close>

lemma dset_map_fst:
  assumes "distinct (map fst l)" and "(i, y) \<in> set l"
  shows "dset i z l = map (\<lambda>(j, w). (j, if j = i then z else w)) l"
  using assms
proof (induction l)
  case (Cons a l)
  obtain j w where a: "a = (j, w)" by (cases a)
  show ?case
  proof (cases "j = i")
    case True
    then have "i \<notin> fst ` set l" using Cons.prems(1) a by auto
    then have "map (\<lambda>(j, w). (j, if j = i then z else w)) l = l"
      by (intro map_idI) (auto simp: image_iff)
    then show ?thesis using True a by simp
  next
    case False
    then show ?thesis using Cons a by auto
  qed
qed simp

lemma fold_dset_new:
  assumes "distinct (map fst acc @ map fst msgs)"
  shows "fold (\<lambda>(i, m). dset i (m, [])) msgs acc = acc @ map (\<lambda>(i, m). (i, m, [])) msgs"
  using assms
proof (induction msgs arbitrary: acc)
  case (Cons a msgs)
  obtain i m where a: "a = (i, m)" by (cases a)
  have "map_of acc i = None" using Cons.prems a by (auto simp: map_of_eq_None_iff)
  then have "dset i (m, []) acc = acc @ [(i, m, [])]" by (rule dset_new)
  then show ?case using Cons.IH[of "acc @ [(i, m, [])]"] Cons.prems a by simp
qed simp

lemma sew_loop:
  assumes "distinct (map fst msgs)" and "\<forall>r \<in> set rs. fst r \<in> fst ` set msgs"
  shows "efold (\<lambda>conv (i, r). case map_of conv i of
             None \<Rightarrow> Inl (KeyError (int_str i))
           | Some (m, l) \<Rightarrow> Inr (dset i (m, l @ [r]) conv)) (map (\<lambda>(i, m). (i, m, f i)) msgs) rs =
         Inr (map (\<lambda>(i, m). (i, m, f i @ map snd (filter (\<lambda>r. fst r = i) rs))) msgs)"
  using assms(2)
proof (induction rs arbitrary: f)
  case Nil
  then show ?case by simp
next
  case (Cons a rs)
  obtain i r where a: "a = (i, r)" by (cases a)
  let ?l = "map (\<lambda>(i, m). (i, m, f i)) msgs"
  let ?g = "\<lambda>j. if j = i then f i @ [r] else f j"
  obtain m where m: "(i, m) \<in> set msgs" using Cons.prems a by auto
  have keys: "map fst ?l = map fst msgs" by (auto intro: map_cong)
  have mem: "(i, m, f i) \<in> set ?l" using m by force
  have dist: "distinct (map fst ?l)" using assms(1) keys by (simp only:)
  then have mo: "map_of ?l i = Some (m, f i)" using mem by (simp add: map_of_eq_Some_iff del: map_map)
  have upd: "dset i (m, f i @ [r]) ?l = map (\<lambda>(j, w). (j, if j = i then (m, f i @ [r]) else w)) ?l"
    by (rule dset_map_fst[OF dist mem])
  also have "\<dots> = map (\<lambda>(i, m). (i, m, ?g i)) msgs"
    using m assms(1) by (auto simp: dest: eq_key_imp_eq_value)
  finally have "dset i (m, f i @ [r]) ?l = map (\<lambda>(i, m). (i, m, ?g i)) msgs" .
  then show ?case using Cons.IH[of ?g] Cons.prems a mo by (auto intro!: map_cong)
qed

text \<open>
  Stitching reactions into messages keeps the messages in their order and gives each
  the reactions that name it, in the order of the reactions.
\<close>

theorem sew_reactions_exact:
  fixes msgs :: "(int \<times> 'm) list" and rs :: "(int \<times> 'r) list"
  assumes "distinct (map fst msgs)" and "\<forall>r \<in> set rs. fst r \<in> fst ` set msgs"
  shows "sew_messages_and_reactions msgs rs =
    Inr (map (\<lambda>(i, m). (i, m, map snd (filter (\<lambda>r. fst r = i) rs))) msgs)"
proof -
  have "fold (\<lambda>(i, m). dset i (m, [])) msgs [] = map (\<lambda>(i, m). (i, m, [] :: 'r list)) msgs"
    using fold_dset_new[of "[]" msgs] assms(1) by simp
  then show ?thesis using sew_loop[OF assms, of "\<lambda>_. []"]
    by (simp only: sew_messages_and_reactions_def Let_def append_Nil)
qed

theorem sew_reactions_exact_witness:
  "sew_messages_and_reactions [(5, ''hi''), (7, ''yo'')] [(7, ''tada''), (5, ''heart''), (7, ''wave'')] =
    Inr [(5, ''hi'', [''heart'']), (7, ''yo'', [''tada'', ''wave''])]"
  using sew_reactions_exact[of "[(5, ''hi''), (7, ''yo'')]" "[(7, ''tada''), (5, ''heart''), (7, ''wave'')]"]
  by simp

subsection \<open>Presence\<close>

definition summary :: "user_presence \<Rightarrow> string \<Rightarrow> pydict" where
  "summary p st = [(''status'', PStr st), (''timestamp'', PInt (datetime_to_timestamp (pr_timestamp p))),
     (''client'', PStr (pr_client_name p))]"

definition status_str :: "user_presence \<Rightarrow> string" where
  "status_str p = (if pr_status p = 1 then ''active'' else ''idle'')"

definition presence_row_ok :: "db \<Rightarrow> user_presence \<Rightarrow> bool" where
  "presence_row_ok d p \<longleftrightarrow> pr_user_profile p \<in> u_id ` set (users d) \<and> pr_status p \<in> {1, 2} \<and>
     pr_client_name p \<noteq> ''aggregated''"

lemma status_string_ok: "presence_row_ok d p \<Longrightarrow> status_to_string (pr_status p) = Inr (status_str p)"
  by (auto simp: presence_row_ok_def status_to_string_def status_str_def)

lemma add_status_ok:
  assumes "distinct (map u_id (users d))" and "presence_row_ok d p" and "u \<in> set (users d)"
    and "u_id u = pr_user_profile p"
  shows "\<exists>w. add_status d ids st p = Inr (dset (u_email u)
     (dset (pr_client_name p) w (case map_of st (u_email u) of Some (x # xs) \<Rightarrow> x # xs
        | _ \<Rightarrow> [(''aggregated'', summary p (status_str p))])) st)"
proof -
  have "get_user_profile_by_id (pr_user_profile p) d = Inr u"
    using db_get_key[of u_id "users d" u "''UserProfile''"] assms
    by (simp add: get_user_profile_by_id_def)
  then show ?thesis using status_string_ok[OF assms(2)]
    by (auto simp: add_status_def to_presence_dict_def Let_def summary_def dget_default_def split: option.splits list.splits)
qed

text \<open>After the loop, the \<open>aggregated\<close> entry of a user is that of its first row.\<close>

definition has_aggregated :: "statuses \<Rightarrow> string \<Rightarrow> user_presence option \<Rightarrow> bool" where
  "has_aggregated st email first \<longleftrightarrow>
     (case first of
        None \<Rightarrow> map_of st email = None
      | Some p \<Rightarrow> (\<exists>l. map_of st email = Some l \<and> map_of l ''aggregated'' = Some (summary p (status_str p))))"

lemma status_loop:
  assumes "distinct (map u_id (users d))" and "distinct (map u_email (users d))"
    and "\<forall>p \<in> set ps. presence_row_ok d p"
    and "\<forall>u \<in> set (users d). has_aggregated st (u_email u) (seen (u_id u))"
  shows "\<exists>st'. efold (add_status d ids) st ps = Inr st' \<and> (\<forall>u \<in> set (users d). has_aggregated st' (u_email u)
      (case seen (u_id u) of Some p \<Rightarrow> Some p | None \<Rightarrow> find (\<lambda>p. pr_user_profile p = u_id u) ps))"
  using assms(3,4)
proof (induction ps arbitrary: st seen)
  case Nil
  then show ?case by (auto split: option.splits)
next
  case (Cons p ps)
  have ok: "presence_row_ok d p" using Cons.prems by simp
  then obtain u where u: "u \<in> set (users d)" "u_id u = pr_user_profile p"
    by (auto simp: presence_row_ok_def image_iff)
  obtain w where run_p: "add_status d ids st p = Inr (dset (u_email u)
     (dset (pr_client_name p) w (case map_of st (u_email u) of Some (x # xs) \<Rightarrow> x # xs
        | _ \<Rightarrow> [(''aggregated'', summary p (status_str p))])) st)"
    using add_status_ok[OF assms(1) ok u] by blast
  let ?seen = "seen(u_id u := (case seen (u_id u) of Some q \<Rightarrow> Some q | None \<Rightarrow> Some p))"
  define st1 where "st1 = dset (u_email u)
     (dset (pr_client_name p) w (case map_of st (u_email u) of Some (x # xs) \<Rightarrow> x # xs
        | _ \<Rightarrow> [(''aggregated'', summary p (status_str p))])) st"
  have step: "has_aggregated st1 (u_email v) (?seen (u_id v))" if v: "v \<in> set (users d)" for v
  proof (cases "v = u")
    case True
    have "pr_client_name p \<noteq> ''aggregated''" using ok by (simp add: presence_row_ok_def)
    moreover have "has_aggregated st (u_email u) (seen (u_id u))" using Cons.prems(2) u(1) by blast
    ultimately show ?thesis using True
      by (auto simp: has_aggregated_def st1_def split: option.splits list.splits)
  next
    case False
    then have "u_id v \<noteq> u_id u" "u_email v \<noteq> u_email u"
      using u v assms(1,2) by (auto simp: distinct_map inj_on_def)
    moreover have "has_aggregated st (u_email v) (seen (u_id v))" using Cons.prems(2) v by blast
    ultimately show ?thesis by (cases "seen (u_id v)") (simp_all add: has_aggregated_def st1_def)
  qed
  have "\<exists>st'. efold (add_status d ids) st1 ps = Inr st' \<and> (\<forall>v \<in> set (users d). has_aggregated st' (u_email v)
      (case ?seen (u_id v) of Some p \<Rightarrow> Some p | None \<Rightarrow> find (\<lambda>p. pr_user_profile p = u_id v) ps))"
    using Cons.IH[of st1 ?seen] Cons.prems step by simp
  then obtain st' where run: "efold (add_status d ids) st1 ps = Inr st'"
    and agg: "\<forall>v \<in> set (users d). has_aggregated st' (u_email v)
      (case ?seen (u_id v) of Some p \<Rightarrow> Some p | None \<Rightarrow> find (\<lambda>p. pr_user_profile p = u_id v) ps)" by blast
  have "has_aggregated st' (u_email v) (case seen (u_id v) of Some q \<Rightarrow> Some q
      | None \<Rightarrow> find (\<lambda>q. pr_user_profile q = u_id v) (p # ps))" if v: "v \<in> set (users d)" for v
    using agg v u by (cases "u_id v = u_id u") (auto split: option.splits dest!: bspec)
  then show ?case using run_p run by (auto simp: st1_def)
qed

lemma find_sorted_min:
  assumes "find P (sort_key f xs) = Some x" and "y \<in> set xs" "P y"
  shows "f x \<le> f y"
proof -
  obtain i where i: "i < length (sort_key f xs)" "sort_key f xs ! i = x" "\<forall>j < i. \<not> P (sort_key f xs ! j)"
    using assms(1) by (auto simp: find_Some_iff)
  obtain k where k: "k < length (sort_key f xs)" "sort_key f xs ! k = y"
    using assms(2) by (metis in_set_conv_nth set_sort)
  then have "i \<le> k" using i assms(3) by (metis not_le)
  then have "map f (sort_key f xs) ! i \<le> map f (sort_key f xs) ! k"
    using k by (intro sorted_nth_mono) auto
  then show ?thesis using i k by simp
qed

text \<open>
  The statuses are computed for any rows of existing users, and the \<open>aggregated\<close> status
  of each user with a row is that of a row of its own with the latest timestamp.
\<close>

theorem aggregated_is_latest:
  assumes "distinct (map u_id (users d))" and "distinct (map u_email (users d))"
    and "\<forall>p \<in> set query. presence_row_ok d p"
    and "u \<in> set (users d)" and "q \<in> set query" and "pr_user_profile q = u_id u"
  shows "\<exists>st p l. get_status_dicts_for_query query ids d = Inr st \<and>
    p \<in> set query \<and> pr_user_profile p = u_id u \<and>
    (\<forall>r \<in> set query. pr_user_profile r = u_id u \<longrightarrow> pr_timestamp r \<le> pr_timestamp p) \<and>
    map_of st (u_email u) = Some l \<and> map_of l ''aggregated'' = Some (summary p (status_str p))"
proof -
  let ?key = "\<lambda>p. (pr_user_profile p, - pr_timestamp p)"
  let ?ps = "sort_key ?key query"
  obtain st where st: "efold (add_status d ids) [] ?ps = Inr st"
    and agg: "has_aggregated st (u_email u) (find (\<lambda>p. pr_user_profile p = u_id u) ?ps)"
    using status_loop[OF assms(1,2), of ?ps "[]" "\<lambda>_. None" ids] assms(3,4)
    by (auto simp: has_aggregated_def)
  obtain p where p: "find (\<lambda>p. pr_user_profile p = u_id u) ?ps = Some p"
    using assms(5,6) by (cases "find (\<lambda>p. pr_user_profile p = u_id u) ?ps") (auto simp: find_None_iff)
  have own: "p \<in> set query" "pr_user_profile p = u_id u" using find_Some[OF p] by auto
  have "\<forall>r \<in> set query. pr_user_profile r = u_id u \<longrightarrow> pr_timestamp r \<le> pr_timestamp p"
    using find_sorted_min[OF p] own by (auto simp: less_eq_prod_def)
  then show ?thesis using own st agg p by (auto simp: get_status_dicts_for_query_def has_aggregated_def)
qed

definition demo_user :: "int \<Rightarrow> int \<Rightarrow> string \<Rightarrow> user_profile" where
  "demo_user uid realm_id email =
     \<lparr>u_id = uid, u_email = email, u_is_staff = False, u_is_active = True, u_is_realm_admin = False,
      u_is_bot = False, u_bot_type = None, u_is_api_super_user = False, u_date_joined = 0,
      u_is_mirror_dummy = False, u_bot_owner = None, u_long_term_idle = False, u_full_name = ''Demo'',
      u_short_name = ''demo'', u_pointer = -1, u_last_pointer_updater = [], u_realm = realm_id,
      u_api_key = ''k'', u_tos_version = None, u_last_active_message_id = None,
      u_enable_stream_desktop_notifications = False, u_enable_stream_sounds = False,
      u_enable_desktop_notifications = True, u_pm_content_in_desktop_notifications = True,
      u_enable_sounds = True, u_enable_offline_email_notifications = True,
      u_enable_offline_push_notifications = True, u_enable_online_push_notifications = False,
      u_enable_digest_emails = True, u_default_desktop_notifications = True, u_last_reminder = None,
      u_rate_limits = [], u_default_sending_stream = None, u_default_events_register_stream = None,
      u_default_all_public_streams = False, u_enter_sends = Some False, u_autoscroll_forever = False,
      u_left_side_userlist = False, u_emoji_alt_code = False, u_twenty_four_hour_time = False,
      u_default_language = ''en'', u_high_contrast_mode = False, u_avatar_source = ''G'',
      u_avatar_version = 1, u_tutorial_status = ''F'', u_onboarding_steps = ''[]'', u_alert_words = ''[]'',
      u_muted_topics = ''[]'', u_quota = 1073741824, u_timezone = [], u_emojiset = ''google''\<rparr>"

definition demo_rows :: "user_presence list" where
  "demo_rows = [\<lparr>pr_user_profile = 9, pr_client_name = ''website'', pr_timestamp = 100, pr_status = 2\<rparr>,
     \<lparr>pr_user_profile = 9, pr_client_name = ''ZulipAndroid'', pr_timestamp = 160, pr_status = 1\<rparr>]"

definition demo_presence :: db where
  "demo_presence = empty_db\<lparr>users := [demo_user 9 2 ''ann@zulip.com''], presences := demo_rows,
     push_tokens := [\<lparr>pd_kind = 2, pd_token = ''tok'', pd_last_updated = 0, pd_ios_app_id = None, pd_user = 9\<rparr>]\<rparr>"

theorem aggregated_is_latest_witness:
  "\<exists>st p l. get_status_dicts_for_query demo_rows [9] demo_presence = Inr st \<and>
    p \<in> set demo_rows \<and> (\<forall>r \<in> set demo_rows. pr_timestamp r \<le> pr_timestamp p) \<and>
    map_of st ''ann@zulip.com'' = Some l \<and> map_of l ''aggregated'' = Some (summary p (status_str p))"
proof -
  have "\<exists>st p l. get_status_dicts_for_query demo_rows [9] demo_presence = Inr st \<and>
    p \<in> set demo_rows \<and> pr_user_profile p = u_id (demo_user 9 2 ''ann@zulip.com'') \<and>
    (\<forall>r \<in> set demo_rows. pr_user_profile r = u_id (demo_user 9 2 ''ann@zulip.com'') \<longrightarrow> pr_timestamp r \<le> pr_timestamp p) \<and>
    map_of st (u_email (demo_user 9 2 ''ann@zulip.com'')) = Some l \<and>
    map_of l ''aggregated'' = Some (summary p (status_str p))"
    by (rule aggregated_is_latest[where q = "hd demo_rows"])
      (auto simp: demo_presence_def demo_rows_def demo_user_def presence_row_ok_def)
  then show ?thesis by (auto simp: demo_rows_def demo_user_def)
qed

text \<open>
  In a realm whose id is not 1, a user with a registered push device is reported as
  pushable when its own presence is asked for, but as not pushable in the presence of its
  realm: the devices are looked up in realm 1.
\<close>

theorem realm_presence_wrong_realm:
  "map_option (\<lambda>l. map_option (\<lambda>i. map_of i ''pushable'') (map_of l ''website''))
     (map_of (case get_status_dict_by_user (demo_user 9 2 ''ann@zulip.com'') demo_presence of Inr st \<Rightarrow> st | Inl _ \<Rightarrow> [])
        ''ann@zulip.com'') = Some (Some (Some (PBool True))) \<and>
   map_option (\<lambda>l. map_option (\<lambda>i. map_of i ''pushable'') (map_of l ''website''))
     (map_of (case get_status_dict_by_realm 200 2 demo_presence of Inr st \<Rightarrow> st | Inl _ \<Rightarrow> [])
        ''ann@zulip.com'') = Some (Some (Some (PBool False)))"
  by code_simp

end
