(* ===== verification/Messages.thy ===== *)
theory Messages
  imports Models "HOL-Library.Multiset"
begin

text \<open>
  Messages on their way to clients (\<open>zerver/lib/message.py\<close>, \<open>zerver/lib/avatar.py\<close>): the
  dictionary of a message, access to a message, rendering, and the unread counts with their
  incremental update. The markdown engine, the hashes of avatars, the upload backend and the
  JSON parser are parameters, the record \<open>render_env\<close>.
\<close>

section \<open>Avatars\<close>

record rendering =
  r_content :: string
  r_mentions_wildcard :: bool
  r_mentions_user_ids :: "int list"
  r_alert_words :: "string list"
  r_links_for_preview :: "string list"

record render_env =
  ENABLE_GRAVATAR :: bool
  DEFAULT_AVATAR_URI :: string
  gravatar_hash :: "string \<Rightarrow> string"
  user_avatar_path_from_ids :: "int \<Rightarrow> int \<Rightarrow> string"
  backend_avatar_url :: "string \<Rightarrow> bool \<Rightarrow> string"
  subject_links :: "int \<Rightarrow> string \<Rightarrow> pyval"
  bugdown_version :: int
  bugdown_convert :: "string \<Rightarrow> message option \<Rightarrow> int option \<Rightarrow> string list \<Rightarrow> bool \<Rightarrow> pyerr + rendering"
  json_loads :: "string \<Rightarrow> pyerr + pyval"

definition get_unversioned_gravatar_url :: "render_env \<Rightarrow> string \<Rightarrow> bool \<Rightarrow> string" where
  "get_unversioned_gravatar_url E email medium =
     (if ENABLE_GRAVATAR E then
        (let gravitar_query_suffix = (if medium then ''&s=500'' else [])
         in ''https://secure.gravatar.com/avatar/'' @ gravatar_hash E email @ ''?d=identicon'' @ gravitar_query_suffix)
      else DEFAULT_AVATAR_URI E @ ''?x=x'')"

definition get_gravatar_url :: "render_env \<Rightarrow> string \<Rightarrow> int \<Rightarrow> bool \<Rightarrow> string" where
  "get_gravatar_url E email avatar_version medium =
     get_unversioned_gravatar_url E email medium @ ''&version='' @ int_str avatar_version"

definition get_unversioned_avatar_url :: "render_env \<Rightarrow> int \<Rightarrow> string \<Rightarrow> int \<Rightarrow> string \<Rightarrow> bool \<Rightarrow> string" where
  "get_unversioned_avatar_url E user_profile_id avatar_source realm_id email medium =
     (if avatar_source = ''U''
      then backend_avatar_url E (user_avatar_path_from_ids E user_profile_id realm_id) medium
      else get_unversioned_gravatar_url E email medium)"

definition avatar_url_from_dict :: "render_env \<Rightarrow> string \<Rightarrow> int \<Rightarrow> string \<Rightarrow> int \<Rightarrow> int \<Rightarrow> bool \<Rightarrow> string" where
  "avatar_url_from_dict E avatar_source avatar_version email uid realm_id medium =
     get_unversioned_avatar_url E uid avatar_source realm_id email medium @ ''&version='' @ int_str avatar_version"

definition avatar_url :: "render_env \<Rightarrow> user_profile \<Rightarrow> bool \<Rightarrow> string" where
  "avatar_url E u medium =
     avatar_url_from_dict E (u_avatar_source u) (u_avatar_version u) (u_email u) (u_id u) (u_realm u) medium"

section \<open>Rendering\<close>

text \<open>
  \<open>render_markdown\<close> gives the HTML and the properties that the engine puts on the message
  object, with the users whose alert words occur and whether it is a \<open>/me\<close> message.
\<close>

record rendered_message = rendering +
  r_is_me_message :: bool
  r_user_ids_with_alert_words :: "int list"

definition message_realm :: "message \<Rightarrow> db \<Rightarrow> pyerr + int" where
  "message_realm m d = ebind (get_user_profile_by_id (m_sender m) d) (\<lambda>u. Inr (u_realm u))"

definition render_markdown ::
  "render_env \<Rightarrow> message option \<Rightarrow> string \<Rightarrow> int option \<Rightarrow> (int \<times> string list) list option \<Rightarrow>
   int list option \<Rightarrow> db \<Rightarrow> pyerr + rendered_message" where
  "render_markdown E msg content rlm realm_alert_words message_users d =
     (let message_user_ids = (case message_users of None \<Rightarrow> [] | Some us \<Rightarrow> us) in
      ebind (case (msg, rlm) of (Some m, None) \<Rightarrow> ebind (message_realm m d) (\<lambda>r. Inr (Some r)) | _ \<Rightarrow> Inr rlm) (\<lambda>rlm.
      let possible_words = (case realm_alert_words of None \<Rightarrow> []
            | Some ws \<Rightarrow> remdups (concat (map snd (filter (\<lambda>p. fst p \<in> set message_user_ids) ws)))) in
      ebind (case msg of None \<Rightarrow> Inr False
             | Some m \<Rightarrow> ebind (get_user_profile_by_id (m_sender m) d) (\<lambda>u. Inr (u_is_bot u))) (\<lambda>sent_by_bot.
      ebind (bugdown_convert E content msg rlm possible_words sent_by_bot) (\<lambda>r.
      let with_alert_words = (case realm_alert_words of None \<Rightarrow> []
            | Some ws \<Rightarrow> map fst (filter (\<lambda>p. fst p \<in> set message_user_ids \<and>
                 set (snd p) \<inter> set (r_alert_words r) \<noteq> {}) ws)) in
      Inr \<lparr>r_content = r_content r, r_mentions_wildcard = r_mentions_wildcard r,
           r_mentions_user_ids = r_mentions_user_ids r, r_alert_words = r_alert_words r,
           r_links_for_preview = r_links_for_preview r,
           r_is_me_message = is_status_message content (r_content r),
           r_user_ids_with_alert_words = with_alert_words\<rparr>))))"

section \<open>The dictionary of a message\<close>

text \<open>The keyword arguments of \<open>build_message_dict\<close>; a reaction is a row with its user.\<close>

record reaction_row =
  rr_emoji_name :: string
  rr_email :: string
  rr_id :: int
  rr_full_name :: string

record message_args =
  ma_message_id :: int
  ma_last_edit_time :: "rat option"
  ma_edit_history :: "string option"
  ma_content :: string
  ma_subject :: string
  ma_pub_date :: rat
  ma_rendered_content :: "string option"
  ma_rendered_content_version :: "int option"
  ma_sender_id :: int
  ma_sender_email :: string
  ma_sender_realm_id :: int
  ma_sender_realm_str :: string
  ma_sender_full_name :: string
  ma_sender_short_name :: string
  ma_sender_avatar_source :: string
  ma_sender_avatar_version :: int
  ma_sender_is_mirror_dummy :: bool
  ma_sending_client_name :: string
  ma_recipient_id :: int
  ma_recipient_type :: int
  ma_recipient_type_id :: int
  ma_reactions :: "reaction_row list"

definition build_reaction_dict :: "reaction_row \<Rightarrow> pyval" where
  "build_reaction_dict row = PDict [(''emoji_name'', PStr (rr_emoji_name row)),
     (''user'', PDict [(''email'', PStr (rr_email row)), (''id'', PInt (rr_id row)),
                       (''full_name'', PStr (rr_full_name row))])]"

definition reaction_rows :: "int list \<Rightarrow> db \<Rightarrow> pyerr + (int \<times> reaction_row) list" where
  "reaction_rows needed_ids d =
     emap (\<lambda>x. ebind (get_user_profile_by_id (re_user_profile x) d) (\<lambda>u.
       Inr (re_message x, \<lparr>rr_emoji_name = re_emoji_name x, rr_email = u_email u, rr_id = u_id u,
            rr_full_name = u_full_name u\<rparr>)))
       (filter (\<lambda>x. re_message x \<in> set needed_ids) (reactions d))"

text \<open>The recipients of a private message: a lone one is joined with the sender, by email order.\<close>

definition private_recipients :: "message_args \<Rightarrow> pyval list \<Rightarrow> pyerr + pyval list" where
  "private_recipients a display_recipient =
     (case display_recipient of
        [other] \<Rightarrow>
          (let recip = [(''email'', PStr (ma_sender_email a)), (''full_name'', PStr (ma_sender_full_name a)),
                        (''short_name'', PStr (ma_sender_short_name a)), (''id'', PInt (ma_sender_id a)),
                        (''is_mirror_dummy'', PBool (ma_sender_is_mirror_dummy a))]
           in ebind (as_dict other) (\<lambda>o1. ebind (get_str o1 ''email'') (\<lambda>email.
                if ma_sender_email a < email then Inr [PDict recip, other]
                else if ma_sender_email a > email then Inr [other, PDict recip]
                else Inr [other])))
      | _ \<Rightarrow> Inr display_recipient)"

definition display_type_and_recipient :: "message_args \<Rightarrow> db \<Rightarrow> pyerr + string \<times> pyval" where
  "display_type_and_recipient a d =
     ebind (get_display_recipient (ma_recipient_id a) (ma_recipient_type a) (ma_recipient_type_id a) d) (\<lambda>dr.
       if ma_recipient_type a = STREAM then Inr (''stream'', dr)
       else if ma_recipient_type a = HUDDLE \<or> ma_recipient_type a = PERSONAL then
         (case dr of
            PList l \<Rightarrow> ebind (private_recipients a l) (\<lambda>l'. Inr (''private'', PList l'))
          | _ \<Rightarrow> Inl (AssertionError []))
       else Inl (NameError ''display_type''))"

definition save_rendered_content :: "int \<Rightarrow> string \<Rightarrow> int \<Rightarrow> db \<Rightarrow> db" where
  "save_rendered_content mid content version d =
     d\<lparr>messages := map (\<lambda>m. if m_id m = mid
        then m\<lparr>m_rendered_content := Some content, m_rendered_content_version := Some version\<rparr> else m) (messages d)\<rparr>"

text \<open>The content: rendered when the caller wants markdown applied, and saved if it was not rendered yet.\<close>

definition message_content ::
  "render_env \<Rightarrow> bool \<Rightarrow> message option \<Rightarrow> message_args \<Rightarrow> db \<Rightarrow> pyerr + pydict \<times> db" where
  "message_content E apply_markdown msg a d =
     (if apply_markdown then
        ebind (if need_to_render_content (ma_rendered_content a) (ma_rendered_content_version a) (bugdown_version E)
          then
            ebind (case msg of Some m \<Rightarrow> Inr m
                   | None \<Rightarrow> db_get ''Message'' (\<lambda>m. m_id m = ma_message_id a) (messages d)) (\<lambda>m.
            ebind (message_realm m d) (\<lambda>r.
            ebind (render_markdown E (Some m) (ma_content a) (Some r) None None d) (\<lambda>out.
              Inr (Some (r_content out), save_rendered_content (m_id m) (r_content out) (bugdown_version E) d))))
          else Inr (ma_rendered_content a, d)) (\<lambda>(rendered_content, d').
        Inr ([(''content'', PStr (case rendered_content of Some c \<Rightarrow> c
                 | None \<Rightarrow> ''<p>[Zulip note: Sorry, we could not understand the formatting of your message]</p>'')),
              (''content_type'', PStr ''text/html'')], d'))
      else Inr ([(''content'', PStr (ma_content a)), (''content_type'', PStr ''text/x-markdown'')], d))"

definition build_message_dict ::
  "render_env \<Rightarrow> bool \<Rightarrow> message option \<Rightarrow> message_args \<Rightarrow> db \<Rightarrow> pyerr + pydict \<times> db" where
  "build_message_dict E apply_markdown msg a d =
     (let url = avatar_url_from_dict E (ma_sender_avatar_source a) (ma_sender_avatar_version a)
                  (ma_sender_email a) (ma_sender_id a) (ma_sender_realm_id a) False in
      ebind (display_type_and_recipient a d) (\<lambda>(display_type, display_recipient).
      let obj = [(''id'', PInt (ma_message_id a)), (''sender_email'', PStr (ma_sender_email a)),
            (''sender_full_name'', PStr (ma_sender_full_name a)), (''sender_short_name'', PStr (ma_sender_short_name a)),
            (''sender_realm_str'', PStr (ma_sender_realm_str a)), (''sender_id'', PInt (ma_sender_id a)),
            (''type'', PStr display_type), (''display_recipient'', display_recipient),
            (''recipient_id'', PInt (ma_recipient_id a)), (''subject'', PStr (ma_subject a)),
            (''timestamp'', PInt (datetime_to_timestamp (ma_pub_date a))), (''avatar_url'', PStr url),
            (''client'', PStr (ma_sending_client_name a))];
          obj = (if display_type = ''stream'' then obj @ [(''stream_id'', PInt (ma_recipient_type_id a))] else obj);
          obj = obj @ [(''subject_links'', subject_links E (ma_sender_realm_id a) (ma_subject a))] in
      ebind (case ma_last_edit_time a of
               None \<Rightarrow> Inr obj
             | Some t \<Rightarrow> (case ma_edit_history a of
                 None \<Rightarrow> Inl (AssertionError [])
               | Some h \<Rightarrow> ebind (json_loads E h) (\<lambda>hist.
                   Inr (obj @ [(''last_edit_timestamp'', PInt (datetime_to_timestamp t)), (''edit_history'', hist)])))) (\<lambda>obj.
      ebind (message_content E apply_markdown msg a d) (\<lambda>(content, d').
        Inr (obj @ content @ [(''reactions'', PList (map build_reaction_dict (ma_reactions a)))], d')))))"

definition to_dict_uncached_helper :: "render_env \<Rightarrow> message \<Rightarrow> bool \<Rightarrow> db \<Rightarrow> pyerr + pydict \<times> db" where
  "to_dict_uncached_helper E m apply_markdown d =
     ebind (get_user_profile_by_id (m_sender m) d) (\<lambda>sender.
     ebind (db_get ''Realm'' (\<lambda>r. rm_id r = u_realm sender) (realms d)) (\<lambda>r.
     ebind (the_some (DoesNotExist ''Client'') (map_of (client_names d) (m_sending_client m))) (\<lambda>client_name.
     ebind (db_get ''Recipient'' (\<lambda>x. rc_id x = m_recipient m) (recipients d)) (\<lambda>rc.
     ebind (reaction_rows [m_id m] d) (\<lambda>rs.
       build_message_dict E apply_markdown (Some m)
         \<lparr>ma_message_id = m_id m, ma_last_edit_time = m_last_edit_time m, ma_edit_history = m_edit_history m,
          ma_content = m_content m, ma_subject = m_subject m, ma_pub_date = m_pub_date m,
          ma_rendered_content = m_rendered_content m, ma_rendered_content_version = m_rendered_content_version m,
          ma_sender_id = u_id sender, ma_sender_email = u_email sender, ma_sender_realm_id = u_realm sender,
          ma_sender_realm_str = rm_string_id r, ma_sender_full_name = u_full_name sender,
          ma_sender_short_name = u_short_name sender, ma_sender_avatar_source = u_avatar_source sender,
          ma_sender_avatar_version = u_avatar_version sender, ma_sender_is_mirror_dummy = u_is_mirror_dummy sender,
          ma_sending_client_name = client_name, ma_recipient_id = rc_id rc, ma_recipient_type = rc_type rc,
          ma_recipient_type_id = rc_type_id rc, ma_reactions = map snd rs\<rparr> d)))))"

section \<open>Access to a message\<close>

definition invalid_message :: pyerr where
  "invalid_message = JsonableError ''Invalid message(s)''"

definition access_message :: "user_profile \<Rightarrow> int \<Rightarrow> db \<Rightarrow> pyerr + message \<times> user_message option" where
  "access_message u message_id d =
     ebind (case db_get ''Message'' (\<lambda>m. m_id m = message_id) (messages d) of
              Inl (DoesNotExist _) \<Rightarrow> Inl invalid_message | res \<Rightarrow> res) (\<lambda>msg.
     ebind (case db_get ''UserMessage'' (\<lambda>x. um_user_profile x = u_id u \<and> um_message x = m_id msg) (user_messages d) of
              Inl (DoesNotExist _) \<Rightarrow> Inr None | Inl e \<Rightarrow> Inl e | Inr x \<Rightarrow> Inr (Some x)) (\<lambda>um.
       case um of
         Some x \<Rightarrow> Inr (msg, um)
       | None \<Rightarrow>
           ebind (db_get ''Recipient'' (\<lambda>r. rc_id r = m_recipient msg) (recipients d)) (\<lambda>rc.
           if rc_type rc \<noteq> STREAM then Inl invalid_message
           else ebind (db_get ''Stream'' (\<lambda>s. st_id s = rc_type_id rc) (streams d)) (\<lambda>s.
           ebind (is_public d s) (\<lambda>public.
           if \<not> public then Inl invalid_message
           else if st_realm s \<noteq> u_realm u then Inl invalid_message
           else Inr (msg, um))))))"

section \<open>Unread messages\<close>

definition huddle_users :: "int \<Rightarrow> db \<Rightarrow> string" where
  "huddle_users recipient_id d =
     (let user_ids = map u_id (filter (\<lambda>u. db_exists (\<lambda>x. sub_user_profile x = u_id u \<and> sub_recipient x = recipient_id)
            (subscriptions d)) (users d))
      in str_join '','' (map int_str (sort user_ids)))"

text \<open>
  \<open>aggregate_dict\<close> on rows given by their lookup key and their input field: the output
  fields collected by key, in the order of the keys.
\<close>

definition add_row :: "('k \<times> 'v) \<Rightarrow> ('k \<times> 'v list) list \<Rightarrow> ('k \<times> 'v list) list" where
  "add_row row lookup =
     (case map_of lookup (fst row) of
        None \<Rightarrow> dset (fst row) [snd row] lookup
      | Some l \<Rightarrow> dset (fst row) (l @ [snd row]) lookup)"

definition aggregate_dict :: "('k::linorder \<times> 'v) list \<Rightarrow> ('k \<times> 'v list) list" where
  "aggregate_dict input_rows =
     (let lookup = fold add_row input_rows [] in
      map (\<lambda>k. (k, the (map_of lookup k))) (sort (map fst lookup)))"

text \<open>A row of the query of the unread messages, and the three groups with the mentions.\<close>

record unread_row =
  ur_message_id :: int
  ur_sender_id :: int
  ur_subject :: string
  ur_recipient_id :: int
  ur_recipient_type :: int
  ur_recipient_type_id :: int
  ur_flags :: int

record unread_msgs =
  pms :: "(int \<times> int list) list"
  unread_streams :: "((int \<times> string) \<times> int list) list"
  huddles :: "(string \<times> int list) list"
  mentions :: "int list"

definition unread_rows :: "user_profile \<Rightarrow> db \<Rightarrow> pyerr + unread_row list" where
  "unread_rows u d =
     emap (\<lambda>x.
       ebind (db_get ''Message'' (\<lambda>m. m_id m = um_message x) (messages d)) (\<lambda>m.
       ebind (db_get ''Recipient'' (\<lambda>r. rc_id r = m_recipient m) (recipients d)) (\<lambda>rc.
         Inr \<lparr>ur_message_id = um_message x, ur_sender_id = m_sender m, ur_subject = m_subject m,
              ur_recipient_id = m_recipient m, ur_recipient_type = rc_type rc,
              ur_recipient_type_id = rc_type_id rc, ur_flags = um_flags x\<rparr>)))
       (filter (\<lambda>x. um_user_profile x = u_id u \<and> um_unread x) (user_messages d))"

definition group_unread :: "(int \<Rightarrow> string) \<Rightarrow> unread_row list \<Rightarrow> unread_msgs" where
  "group_unread users_string rows =
     \<lparr>pms = aggregate_dict (map (\<lambda>r. (ur_sender_id r, ur_message_id r)) (filter (\<lambda>r. ur_recipient_type r = PERSONAL) rows)),
      unread_streams = aggregate_dict (map (\<lambda>r. ((ur_recipient_type_id r, ur_subject r), ur_message_id r))
        (filter (\<lambda>r. ur_recipient_type r = STREAM) rows)),
      huddles = map (\<lambda>(k, ids). (users_string k, ids))
        (aggregate_dict (map (\<lambda>r. (ur_recipient_id r, ur_message_id r)) (filter (\<lambda>r. ur_recipient_type r = HUDDLE) rows))),
      mentions = map ur_message_id (filter (\<lambda>r. and (ur_flags r) 8 \<noteq> 0) rows)\<rparr>"

definition get_unread_message_ids_per_recipient :: "user_profile \<Rightarrow> db \<Rightarrow> pyerr + unread_msgs" where
  "get_unread_message_ids_per_recipient u d =
     ebind (unread_rows u d) (\<lambda>rows. Inr (group_unread (\<lambda>rid. huddle_users rid d) rows))"

subsection \<open>The incremental update\<close>

text \<open>The message of an event, as far as the update reads it.\<close>

record event_message =
  em_id :: int
  em_type :: string
  em_sender_id :: int
  em_display_recipient :: "int list"
  em_stream_id :: int
  em_subject :: string
  em_is_mentioned :: bool

definition event_message_type :: "event_message \<Rightarrow> pyerr + string" where
  "event_message_type m =
     (if em_type m = ''stream'' then Inr ''stream''
      else if em_type m = ''private'' then
        (let others = filter (\<lambda>i. i \<noteq> em_sender_id m) (em_display_recipient m)
         in if length others \<le> 1 then Inr ''private'' else Inr ''huddle'')
      else Inl (NameError ''message_type''))"

text \<open>
  The loop over the threads: the thread with the key gets the message, or a new one is added;
  the flag tells that the loop returned early.
\<close>

fun add_to_thread :: "'k \<Rightarrow> int \<Rightarrow> ('k \<times> int list) list \<Rightarrow> ('k \<times> int list) list option" where
  "add_to_thread my_key message_id [] = None"
| "add_to_thread my_key message_id ((k, ids) # rest) =
     (if k = my_key then Some ((k, sort (ids @ [message_id])) # rest)
      else map_option (Cons (k, ids)) (add_to_thread my_key message_id rest))"

definition apply_to_threads :: "'k::linorder \<Rightarrow> int \<Rightarrow> ('k \<times> int list) list \<Rightarrow> ('k \<times> int list) list \<times> bool" where
  "apply_to_threads my_key message_id threads =
     (case add_to_thread my_key message_id threads of
        Some threads' \<Rightarrow> (threads', True)
      | None \<Rightarrow> (sort_key fst (threads @ [(my_key, [message_id])]), False))"

definition apply_unread_message_event :: "unread_msgs \<Rightarrow> event_message \<Rightarrow> pyerr + unread_msgs" where
  "apply_unread_message_event st m =
     ebind (event_message_type m) (\<lambda>ty.
       let (st', returned) =
         (if ty = ''stream'' then
            (let (l, b) = apply_to_threads (em_stream_id m, em_subject m) (em_id m) (unread_streams st)
             in (st\<lparr>unread_streams := l\<rparr>, b))
          else if ty = ''private'' then
            (let (l, b) = apply_to_threads (em_sender_id m) (em_id m) (pms st) in (st\<lparr>pms := l\<rparr>, b))
          else
            (let my_key = str_join '','' (map int_str (sort (em_display_recipient m)));
                 (l, b) = apply_to_threads my_key (em_id m) (huddles st) in (st\<lparr>huddles := l\<rparr>, b)))
       in Inr (if returned then st' else if em_is_mentioned m then st'\<lparr>mentions := mentions st' @ [em_id m]\<rparr> else st'))"

section \<open>Properties of the unread groups\<close>

definition vals :: "('k \<times> 'v) list \<Rightarrow> 'k \<Rightarrow> 'v list" where
  "vals rows k = map snd (filter (\<lambda>r. fst r = k) rows)"

lemma vals_append: "vals (xs @ ys) k = vals xs k @ vals ys k"
  by (simp add: vals_def)

lemma map_of_add_row:
  "map_of (add_row row acc) k = (if k = fst row
     then Some ((case map_of acc k of None \<Rightarrow> [] | Some l \<Rightarrow> l) @ [snd row]) else map_of acc k)"
  by (auto simp: add_row_def split: option.splits)

lemma distinct_add_row: "distinct (map fst acc) \<Longrightarrow> distinct (map fst (add_row row acc))"
  by (auto simp: add_row_def split: option.splits)

lemma keys_add_row: "fst ` set (add_row row acc) = insert (fst row) (fst ` set acc)"
  by (auto simp: add_row_def split: option.splits)

lemma map_of_fold_add_row:
  "k \<in> fst ` set rows \<or> k \<in> fst ` set acc \<Longrightarrow>
   map_of (fold add_row rows acc) k = Some ((case map_of acc k of None \<Rightarrow> [] | Some l \<Rightarrow> l) @ vals rows k)"
proof (induction rows arbitrary: acc)
  case Nil
  then show ?case by (cases "map_of acc k") (auto simp: vals_def map_of_eq_None_iff)
next
  case (Cons r rows)
  show ?case
  proof (cases "k \<in> fst ` set rows \<or> k \<in> fst ` set (add_row r acc)")
    case True
    then show ?thesis using Cons.IH[of "add_row r acc"] by (auto simp: map_of_add_row vals_def)
  next
    case False
    then show ?thesis using Cons.prems by (auto simp: keys_add_row)
  qed
qed

lemma fold_add_row_keys:
  "distinct (map fst acc) \<Longrightarrow> distinct (map fst (fold add_row rows acc)) \<and>
    fst ` set (fold add_row rows acc) = fst ` set rows \<union> fst ` set acc"
proof (induction rows arbitrary: acc)
  case (Cons r rows)
  then show ?case using Cons.IH[OF distinct_add_row[OF Cons.prems, of r]] by (auto simp: keys_add_row)
qed simp

lemma sort_distinct_set: "distinct xs \<Longrightarrow> sort xs = sorted_list_of_set (set xs)"
  by (simp add: sorted_list_of_set_sort_remdups distinct_remdups_id)

text \<open>The groups: one for each key, in the order of the keys, with the values of its rows in their order.\<close>

lemma aggregate_dict_exact:
  "aggregate_dict rows = map (\<lambda>k. (k, vals rows k)) (sorted_list_of_set (fst ` set rows))"
proof -
  let ?l = "fold add_row rows []"
  have keys: "distinct (map fst ?l)" "fst ` set ?l = fst ` set rows"
    using fold_add_row_keys[of "[]" rows] by simp_all
  have "sort (map fst ?l) = sorted_list_of_set (fst ` set rows)"
    using sort_distinct_set[OF keys(1)] keys(2) by simp
  moreover have "the (map_of ?l k) = vals rows k" if "k \<in> fst ` set rows" for k
    using map_of_fold_add_row[of k rows "[]"] that by simp
  ultimately show ?thesis by (simp add: aggregate_dict_def)
qed

lemma add_to_thread_map:
  assumes "inj_on f (insert k0 (set ks))" and "distinct ks"
  shows "add_to_thread (f k0) i (map (\<lambda>k. (f k, v k)) ks) =
    (if k0 \<in> set ks then Some (map (\<lambda>k. (f k, if k = k0 then sort (v k @ [i]) else v k)) ks) else None)"
  using assms
proof (induction ks)
  case (Cons k ks)
  have inj: "inj_on f (insert k0 (set ks))" using Cons.prems(1) by (rule inj_on_subset) auto
  show ?case
  proof (cases "k = k0")
    case True
    then show ?thesis using Cons.prems(2) by (auto intro!: map_cong)
  next
    case False
    then have "f k \<noteq> f k0" using Cons.prems(1) by (auto simp: inj_on_def)
    then show ?thesis using False Cons.IH[OF inj] Cons.prems(2) by auto
  qed
qed simp

lemma sort_key_fst_map: "sort_key fst (map (\<lambda>k. (k, g k)) l) = map (\<lambda>k. (k, g k)) (sort l)"
proof -
  have "insort_key fst (k, g k) (map (\<lambda>k. (k, g k)) l) = map (\<lambda>k. (k, g k)) (insort k l)" for k l
    by (induction l) auto
  then show ?thesis by (induction l) auto
qed

lemma sort_snoc: "sorted xs \<Longrightarrow> \<forall>x \<in> set xs. x \<le> (i :: 'a :: linorder) \<Longrightarrow> sort (xs @ [i]) = xs @ [i]"
  by (rule sort_key_id_if_sorted) (auto simp: sorted_append)

text \<open>
  A new row, later than the others, joins the group of its key: by keys that are a function of
  the lookup key, up to the order of the groups, and exactly when the keys are the same.
\<close>

lemma apply_to_threads_mapped:
  assumes "inj_on f (insert k0 (fst ` set rows))" and "sorted (vals rows k0)" and "\<forall>x \<in> set (vals rows k0). x \<le> i"
  defines "r \<equiv> apply_to_threads (f k0) i (map (\<lambda>(k, l). (f k, l)) (aggregate_dict rows))"
  shows "mset (fst r) = mset (map (\<lambda>(k, l). (f k, l)) (aggregate_dict (rows @ [(k0, i)]))) \<and>
    (snd r \<longleftrightarrow> k0 \<in> fst ` set rows)"
proof -
  let ?ks = "sorted_list_of_set (fst ` set rows)"
  let ?v = "vals rows" and ?w = "vals (rows @ [(k0, i)])"
  have ks: "set ?ks = fst ` set rows" "distinct ?ks" by simp_all
  have w: "?w k = (if k = k0 then ?v k @ [i] else ?v k)" for k by (simp add: vals_append) (simp add: vals_def)
  have r: "r = apply_to_threads (f k0) i (map (\<lambda>k. (f k, ?v k)) ?ks)"
    by (simp add: r_def aggregate_dict_exact comp_def)
  have goal: "map (\<lambda>(k, l). (f k, l)) (aggregate_dict (rows @ [(k0, i)])) =
    map (\<lambda>k. (f k, ?w k)) (sorted_list_of_set (insert k0 (fst ` set rows)))"
    by (simp add: aggregate_dict_exact comp_def)
  have at: "add_to_thread (f k0) i (map (\<lambda>k. (f k, ?v k)) ?ks) =
    (if k0 \<in> set ?ks then Some (map (\<lambda>k. (f k, if k = k0 then sort (?v k @ [i]) else ?v k)) ?ks) else None)"
    by (rule add_to_thread_map) (use assms(1) ks in auto)
  show ?thesis
  proof (cases "k0 \<in> fst ` set rows")
    case True
    have upd: "map (\<lambda>k. (f k, if k = k0 then sort (?v k @ [i]) else ?v k)) ?ks = map (\<lambda>k. (f k, ?w k)) ?ks"
      using sort_snoc[OF assms(2,3)] by (auto simp: w)
    show ?thesis using True ks(1) unfolding r goal apply_to_threads_def at
      by (simp add: insert_absorb upd del: mset_map)
  next
    case False
    have "mset (sorted_list_of_set (insert k0 (fst ` set rows))) = mset (?ks @ [k0])"
      using False by simp
    then have "image_mset (\<lambda>k. (f k, ?w k)) (mset (sorted_list_of_set (insert k0 (fst ` set rows)))) =
      image_mset (\<lambda>k. (f k, ?w k)) (mset (?ks @ [k0]))" by (rule arg_cong)
    then have "mset (map (\<lambda>k. (f k, ?w k)) (sorted_list_of_set (insert k0 (fst ` set rows)))) =
      mset (map (\<lambda>k. (f k, ?w k)) (?ks @ [k0]))" by (simp only: mset_map)
    moreover have "?v k0 = []" using False by (auto simp: vals_def filter_empty_conv image_iff)
    then have "map (\<lambda>k. (f k, ?w k)) (?ks @ [k0]) = map (\<lambda>k. (f k, ?v k)) ?ks @ [(f k0, [i])]"
      using False by (auto simp: w)
    ultimately have new: "mset (map (\<lambda>k. (f k, ?w k)) (sorted_list_of_set (insert k0 (fst ` set rows)))) =
      mset (map (\<lambda>k. (f k, ?v k)) ?ks @ [(f k0, [i])])" by (simp only:)
    have no: "(k0 \<in> fst ` set rows) = False" using False by simp
    show ?thesis unfolding r goal apply_to_threads_def at
      by (simp only: ks(1) no if_False option.case fst_conv snd_conv mset_sort new simp_thms)
  qed
qed

lemma apply_to_threads_exact:
  assumes "sorted (vals rows k0)" and "\<forall>x \<in> set (vals rows k0). x \<le> i"
  shows "apply_to_threads k0 i (aggregate_dict rows) = (aggregate_dict (rows @ [(k0, i)]), k0 \<in> fst ` set rows)"
proof -
  let ?ks = "sorted_list_of_set (fst ` set rows)"
  let ?v = "vals rows" and ?w = "vals (rows @ [(k0, i)])"
  have ks: "set ?ks = fst ` set rows" "distinct ?ks" by simp_all
  have w: "?w k = (if k = k0 then ?v k @ [i] else ?v k)" for k by (simp add: vals_append) (simp add: vals_def)
  have at: "add_to_thread k0 i (map (\<lambda>k. (k, ?v k)) ?ks) =
    (if k0 \<in> set ?ks then Some (map (\<lambda>k. (k, if k = k0 then sort (?v k @ [i]) else ?v k)) ?ks) else None)"
    using add_to_thread_map[of "\<lambda>k. k" k0 ?ks i ?v] ks by simp
  show ?thesis
  proof (cases "k0 \<in> fst ` set rows")
    case True
    then have "fst ` set (rows @ [(k0, i)]) = fst ` set rows" by auto
    then show ?thesis using True at ks sort_snoc[OF assms]
      by (auto simp: apply_to_threads_def aggregate_dict_exact w intro!: map_cong)
  next
    case False
    have "?v k0 = []" using False by (auto simp: vals_def filter_empty_conv image_iff)
    then have new: "map (\<lambda>k. (k, ?v k)) ?ks @ [(k0, [i])] = map (\<lambda>k. (k, ?w k)) (?ks @ [k0])"
      using False by (auto simp: w)
    have "sort (?ks @ [k0]) = sorted_list_of_set (insert k0 (fst ` set rows))"
      using False sort_distinct_set[of "?ks @ [k0]"] by simp
    then show ?thesis using False at ks
      by (simp add: apply_to_threads_def aggregate_dict_exact new sort_key_fst_map del: map_append)
  qed
qed

text \<open>The threads of a message and of its row.\<close>

definition same_thread :: "unread_row \<Rightarrow> unread_row \<Rightarrow> bool" where
  "same_thread r n \<longleftrightarrow> ur_recipient_type r = ur_recipient_type n \<and>
     (if ur_recipient_type n = STREAM then ur_recipient_type_id r = ur_recipient_type_id n \<and> ur_subject r = ur_subject n
      else if ur_recipient_type n = PERSONAL then ur_sender_id r = ur_sender_id n
      else ur_recipient_id r = ur_recipient_id n)"

text \<open>The event announces the message of the row.\<close>

definition announces :: "(int \<Rightarrow> string) \<Rightarrow> event_message \<Rightarrow> unread_row \<Rightarrow> bool" where
  "announces users_string m n \<longleftrightarrow> em_id m = ur_message_id n \<and> em_sender_id m = ur_sender_id n \<and>
     em_subject m = ur_subject n \<and> (em_is_mentioned m \<longleftrightarrow> and (ur_flags n) 8 \<noteq> 0) \<and>
     (let others = length (filter (\<lambda>i. i \<noteq> em_sender_id m) (em_display_recipient m)) in
       (ur_recipient_type n = STREAM \<and> em_type m = ''stream'' \<and> em_stream_id m = ur_recipient_type_id n) \<or>
       (ur_recipient_type n = PERSONAL \<and> em_type m = ''private'' \<and> others \<le> 1) \<or>
       (ur_recipient_type n = HUDDLE \<and> em_type m = ''private'' \<and> others > 1 \<and>
        str_join '','' (map int_str (sort (em_display_recipient m))) = users_string (ur_recipient_id n)))"

lemma vals_ids:
  assumes "sorted (map ur_message_id rows)" and "\<forall>r \<in> set rows. ur_message_id r \<le> i"
  shows "sorted (vals (map (\<lambda>r. (g r, ur_message_id r)) (filter P rows)) k)"
    and "\<forall>x \<in> set (vals (map (\<lambda>r. (g r, ur_message_id r)) (filter P rows)) k). x \<le> i"
proof -
  have "vals (map (\<lambda>r. (g r, ur_message_id r)) (filter P rows)) k =
    map ur_message_id (filter (\<lambda>r. P r \<and> g r = k) rows)"
    by (induction rows) (auto simp: vals_def)
  then show "sorted (vals (map (\<lambda>r. (g r, ur_message_id r)) (filter P rows)) k)"
    and "\<forall>x \<in> set (vals (map (\<lambda>r. (g r, ur_message_id r)) (filter P rows)) k). x \<le> i"
    using assms by (auto simp: sorted_filter)
qed

text \<open>
  The update by the event of a new unread message gives what a new query of the unread
  messages gives (the group conversations in some order), as long as a mention does not come
  in a thread that already has unread messages.
\<close>

theorem apply_unread_recomputes:
  assumes "sorted (map ur_message_id rows)" and "\<forall>r \<in> set rows. ur_message_id r \<le> ur_message_id n"
    and "announces f m n" and "inj_on f (ur_recipient_id ` set (n # rows))"
    and "em_is_mentioned m \<longrightarrow> (\<forall>r \<in> set rows. \<not> same_thread r n)"
  shows "\<exists>st. apply_unread_message_event (group_unread f rows) m = Inr st \<and>
    pms st = pms (group_unread f (rows @ [n])) \<and>
    unread_streams st = unread_streams (group_unread f (rows @ [n])) \<and>
    mset (huddles st) = mset (huddles (group_unread f (rows @ [n]))) \<and>
    mentions st = mentions (group_unread f (rows @ [n]))"
proof -
  note ids = vals_ids[OF assms(1,2)]
  consider (str) "ur_recipient_type n = STREAM" | (pm) "ur_recipient_type n = PERSONAL"
    | (hud) "ur_recipient_type n = HUDDLE"
    using assms(3) by (auto simp: announces_def Let_def)
  then show ?thesis
  proof cases
    case str
    let ?rows = "map (\<lambda>r. ((ur_recipient_type_id r, ur_subject r), ur_message_id r)) (filter (\<lambda>r. ur_recipient_type r = STREAM) rows)"
    have "apply_to_threads (ur_recipient_type_id n, ur_subject n) (ur_message_id n) (aggregate_dict ?rows) =
      (aggregate_dict (?rows @ [((ur_recipient_type_id n, ur_subject n), ur_message_id n)]),
       (ur_recipient_type_id n, ur_subject n) \<in> fst ` set ?rows)"
      by (rule apply_to_threads_exact[OF ids])
    moreover have "(ur_recipient_type_id n, ur_subject n) \<in> fst ` set ?rows \<longleftrightarrow> (\<exists>r \<in> set rows. same_thread r n)"
      using str by (auto simp: same_thread_def image_iff)
    ultimately show ?thesis using str assms(3,5)
      by (auto simp: apply_unread_message_event_def group_unread_def announces_def event_message_type_def Let_def)
  next
    case pm
    let ?rows = "map (\<lambda>r. (ur_sender_id r, ur_message_id r)) (filter (\<lambda>r. ur_recipient_type r = PERSONAL) rows)"
    have "apply_to_threads (ur_sender_id n) (ur_message_id n) (aggregate_dict ?rows) =
      (aggregate_dict (?rows @ [(ur_sender_id n, ur_message_id n)]), ur_sender_id n \<in> fst ` set ?rows)"
      by (rule apply_to_threads_exact[OF ids])
    moreover have "ur_sender_id n \<in> fst ` set ?rows \<longleftrightarrow> (\<exists>r \<in> set rows. same_thread r n)"
      using pm by (auto simp: same_thread_def image_iff)
    ultimately show ?thesis using pm assms(3,5)
      by (auto simp: apply_unread_message_event_def group_unread_def announces_def event_message_type_def Let_def)
  next
    case hud
    let ?rows = "map (\<lambda>r. (ur_recipient_id r, ur_message_id r)) (filter (\<lambda>r. ur_recipient_type r = HUDDLE) rows)"
    let ?r = "apply_to_threads (f (ur_recipient_id n)) (ur_message_id n) (map (\<lambda>(k, l). (f k, l)) (aggregate_dict ?rows))"
    have "inj_on f (insert (ur_recipient_id n) (fst ` set ?rows))"
      by (rule inj_on_subset[OF assms(4)]) auto
    then have "mset (fst ?r) = mset (map (\<lambda>(k, l). (f k, l)) (aggregate_dict (?rows @ [(ur_recipient_id n, ur_message_id n)]))) \<and>
      (snd ?r \<longleftrightarrow> ur_recipient_id n \<in> fst ` set ?rows)"
      by (rule apply_to_threads_mapped[OF _ ids])
    moreover have "ur_recipient_id n \<in> fst ` set ?rows \<longleftrightarrow> (\<exists>r \<in> set rows. same_thread r n)"
      using hud by (auto simp: same_thread_def image_iff)
    ultimately show ?thesis using hud assms(3,5)
      by (cases ?r) (auto simp: apply_unread_message_event_def group_unread_def announces_def event_message_type_def Let_def
        simp del: mset_map)
  qed
qed

definition demo_row :: "int \<Rightarrow> int \<Rightarrow> int \<Rightarrow> unread_row" where
  "demo_row i sender flags = \<lparr>ur_message_id = i, ur_sender_id = sender, ur_subject = [], ur_recipient_id = 77,
     ur_recipient_type = PERSONAL, ur_recipient_type_id = 1, ur_flags = flags\<rparr>"

definition demo_event :: "int \<Rightarrow> int \<Rightarrow> bool \<Rightarrow> event_message" where
  "demo_event i sender mentioned = \<lparr>em_id = i, em_type = ''private'', em_sender_id = sender,
     em_display_recipient = [1, sender], em_stream_id = 0, em_subject = [], em_is_mentioned = mentioned\<rparr>"

theorem apply_unread_recomputes_witness:
  "\<exists>st. apply_unread_message_event (group_unread int_str [demo_row 10 5 0]) (demo_event 11 4 True) = Inr st \<and>
    pms st = [(4, [11]), (5, [10])] \<and> mentions st = [11]"
proof -
  have flag: "announces int_str (demo_event 11 4 True) (demo_row 11 4 8)"
    by (simp add: announces_def demo_event_def demo_row_def)
  have "\<exists>st. apply_unread_message_event (group_unread int_str [demo_row 10 5 0]) (demo_event 11 4 True) = Inr st \<and>
    pms st = pms (group_unread int_str ([demo_row 10 5 0] @ [demo_row 11 4 8])) \<and>
    unread_streams st = unread_streams (group_unread int_str ([demo_row 10 5 0] @ [demo_row 11 4 8])) \<and>
    mset (huddles st) = mset (huddles (group_unread int_str ([demo_row 10 5 0] @ [demo_row 11 4 8]))) \<and>
    mentions st = mentions (group_unread int_str ([demo_row 10 5 0] @ [demo_row 11 4 8]))"
    by (rule apply_unread_recomputes[OF _ _ flag]) (auto simp: demo_row_def same_thread_def)
  moreover have "pms (group_unread int_str ([demo_row 10 5 0] @ [demo_row 11 4 8])) = [(4, [11]), (5, [10])]"
    by code_simp
  moreover have "mentions (group_unread int_str ([demo_row 10 5 0] @ [demo_row 11 4 8])) = [11]"
    by code_simp
  ultimately show ?thesis by auto
qed

text \<open>
  A mention in a conversation that already has unread messages is not added to the
  mentions, so the updated state differs from the one a new query gives.
\<close>

theorem mention_lost:
  "map_sum id mentions (apply_unread_message_event (group_unread int_str [demo_row 10 5 0]) (demo_event 11 5 True)) = Inr [] \<and>
   mentions (group_unread int_str [demo_row 10 5 0, demo_row 11 5 8]) = [11]"
  by code_simp

section \<open>Who can access a message\<close>

text \<open>Identifiers are unique and foreign keys refer to rows.\<close>

definition message_refs_ok :: "db \<Rightarrow> bool" where
  "message_refs_ok d \<longleftrightarrow> distinct (map m_id (messages d)) \<and> distinct (map rc_id (recipients d)) \<and>
     distinct (map st_id (streams d)) \<and> distinct (map rm_id (realms d)) \<and>
     distinct (map (\<lambda>x. (um_user_profile x, um_message x)) (user_messages d)) \<and>
     m_recipient ` set (messages d) \<subseteq> rc_id ` set (recipients d) \<and>
     rc_type_id ` set (filter (\<lambda>r. rc_type r = STREAM) (recipients d)) \<subseteq> st_id ` set (streams d) \<and>
     st_realm ` set (streams d) \<subseteq> rm_id ` set (realms d)"

definition received :: "user_profile \<Rightarrow> message \<Rightarrow> db \<Rightarrow> bool" where
  "received u m d \<longleftrightarrow> (\<exists>x \<in> set (user_messages d). um_user_profile x = u_id u \<and> um_message x = m_id m)"

definition in_public_stream :: "user_profile \<Rightarrow> message \<Rightarrow> db \<Rightarrow> bool" where
  "in_public_stream u m d \<longleftrightarrow> (\<exists>rc \<in> set (recipients d). \<exists>s \<in> set (streams d). \<exists>r \<in> set (realms d).
     rc_id rc = m_recipient m \<and> rc_type rc = STREAM \<and> st_id s = rc_type_id rc \<and> rm_id r = st_realm s \<and>
     st_realm s = u_realm u \<and> st_invite_only s \<noteq> Some True \<and> rm_string_id r \<noteq> ''zephyr'')"

lemma key_unique: "distinct (map k xs) \<Longrightarrow> x \<in> set xs \<Longrightarrow> y \<in> set xs \<Longrightarrow> k x = k y \<Longrightarrow> x = y"
  by (auto simp: distinct_map inj_on_def)

lemma public_stream_unique:
  assumes "message_refs_ok d" and "m \<in> set (messages d)"
  obtains rc where "rc \<in> set (recipients d)" "rc_id rc = m_recipient m"
    "db_get ''Recipient'' (\<lambda>r. rc_id r = m_recipient m) (recipients d) = Inr rc"
proof -
  have "m_recipient m \<in> rc_id ` set (recipients d)" using assms by (auto simp: message_refs_ok_def)
  then obtain rc where rc: "rc \<in> set (recipients d)" "rc_id rc = m_recipient m" by auto
  moreover have "db_get ''Recipient'' (\<lambda>r. rc_id r = rc_id rc) (recipients d) = Inr rc"
    using assms(1) rc(1) by (intro db_get_key) (simp_all add: message_refs_ok_def)
  ultimately show thesis using that by simp
qed

lemma stream_of_recipient:
  assumes "message_refs_ok d" and "rc \<in> set (recipients d)" and "rc_type rc = STREAM"
  obtains s r where "s \<in> set (streams d)" "st_id s = rc_type_id rc" "r \<in> set (realms d)" "rm_id r = st_realm s"
    "db_get ''Stream'' (\<lambda>s. st_id s = rc_type_id rc) (streams d) = Inr s"
    "is_public d s = Inr (st_invite_only s \<noteq> Some True \<and> rm_string_id r \<noteq> ''zephyr'')"
proof -
  have "rc_type_id rc \<in> st_id ` set (streams d)" using assms by (auto simp: message_refs_ok_def)
  then obtain s where s: "s \<in> set (streams d)" "st_id s = rc_type_id rc" by auto
  have get: "db_get ''Stream'' (\<lambda>y. st_id y = st_id s) (streams d) = Inr s"
    using assms(1) s(1) by (intro db_get_key) (simp_all add: message_refs_ok_def)
  have "st_realm s \<in> rm_id ` set (realms d)" using assms(1) s(1) by (auto simp: message_refs_ok_def)
  then obtain r where r: "r \<in> set (realms d)" "rm_id r = st_realm s" by auto
  have "db_get ''Realm'' (\<lambda>y. rm_id y = rm_id r) (realms d) = Inr r"
    using assms(1) r(1) by (intro db_get_key) (simp_all add: message_refs_ok_def)
  then have "is_public d s = Inr (st_invite_only s \<noteq> Some True \<and> rm_string_id r \<noteq> ''zephyr'')"
    using r by (simp add: is_public_def is_zephyr_mirror_realm_def)
  then show thesis using that s r get by simp
qed

lemma readable_message_cases:
  assumes "message_refs_ok d"
  shows "case access_message u mid d of
      Inr (m, um) \<Rightarrow> m \<in> set (messages d) \<and> m_id m = mid \<and> (received u m d \<or> in_public_stream u m d) \<and>
        (um \<noteq> None \<longleftrightarrow> received u m d)
    | Inl e \<Rightarrow> e = JsonableError ''Invalid message(s)'' \<and>
        \<not> (\<exists>m \<in> set (messages d). m_id m = mid \<and> (received u m d \<or> in_public_stream u m d))"
proof (cases "\<exists>m \<in> set (messages d). m_id m = mid")
  case False
  then have "db_get ''Message'' (\<lambda>m. m_id m = mid) (messages d) = Inl (DoesNotExist ''Message'')"
    using db_get_None[of "''Message''" "\<lambda>m. m_id m = mid" "messages d" "''Message''"] by simp
  then show ?thesis using False by (auto simp: access_message_def invalid_message_def)
next
  case True
  then obtain m where m: "m \<in> set (messages d)" "m_id m = mid" by auto
  have only: "m' = m" if "m' \<in> set (messages d)" "m_id m' = mid" for m'
    using key_unique[of m_id "messages d" m' m] assms that m by (simp add: message_refs_ok_def)
  have ex: "(\<exists>m' \<in> set (messages d). m_id m' = mid \<and> (received u m' d \<or> in_public_stream u m' d)) \<longleftrightarrow>
      received u m d \<or> in_public_stream u m d"
    using only m by blast
  have "db_get ''Message'' (\<lambda>x. m_id x = m_id m) (messages d) = Inr m"
    using assms m(1) by (intro db_get_key) (simp_all add: message_refs_ok_def)
  then have get: "db_get ''Message'' (\<lambda>x. m_id x = mid) (messages d) = Inr m" using m by simp
  let ?P = "\<lambda>x. um_user_profile x = u_id u \<and> um_message x = m_id m"
  show ?thesis
  proof (cases "received u m d")
    case True
    then obtain x where x: "x \<in> set (user_messages d)" "?P x" by (auto simp: received_def)
    have "db_get ''UserMessage'' (\<lambda>y. (um_user_profile y, um_message y) = (um_user_profile x, um_message x)) (user_messages d) = Inr x"
      using assms x(1) by (intro db_get_key) (simp_all add: message_refs_ok_def)
    then have "db_get ''UserMessage'' ?P (user_messages d) = Inr x" using x(2) by simp
    then show ?thesis using get m True by (auto simp: access_message_def)
  next
    case False
    then have none: "db_get ''UserMessage'' ?P (user_messages d) = Inl (DoesNotExist ''UserMessage'')"
      using db_get_None[of "''UserMessage''" ?P "user_messages d" "''UserMessage''"] by (auto simp: received_def)
    obtain rc where rc: "rc \<in> set (recipients d)" "rc_id rc = m_recipient m"
      "db_get ''Recipient'' (\<lambda>r. rc_id r = m_recipient m) (recipients d) = Inr rc"
      by (rule public_stream_unique[OF assms m(1)])
    have onlyrc: "y = rc" if "y \<in> set (recipients d)" "rc_id y = m_recipient m" for y
      using key_unique[of rc_id "recipients d" y rc] assms that rc by (simp add: message_refs_ok_def)
    show ?thesis
    proof (cases "rc_type rc = STREAM")
      case True
      obtain s r where s: "s \<in> set (streams d)" "st_id s = rc_type_id rc" "r \<in> set (realms d)" "rm_id r = st_realm s"
        "db_get ''Stream'' (\<lambda>s. st_id s = rc_type_id rc) (streams d) = Inr s"
        "is_public d s = Inr (st_invite_only s \<noteq> Some True \<and> rm_string_id r \<noteq> ''zephyr'')"
        by (rule stream_of_recipient[OF assms rc(1) True])
      have onlys: "y = s" if "y \<in> set (streams d)" "st_id y = rc_type_id rc" for y
        using key_unique[of st_id "streams d" y s] assms that s by (simp add: message_refs_ok_def)
      have onlyr: "y = r" if "y \<in> set (realms d)" "rm_id y = st_realm s" for y
        using key_unique[of rm_id "realms d" y r] assms that s by (simp add: message_refs_ok_def)
      have "in_public_stream u m d \<longleftrightarrow> st_realm s = u_realm u \<and> st_invite_only s \<noteq> Some True \<and> rm_string_id r \<noteq> ''zephyr''"
      proof
        assume "in_public_stream u m d"
        then show "st_realm s = u_realm u \<and> st_invite_only s \<noteq> Some True \<and> rm_string_id r \<noteq> ''zephyr''"
          unfolding in_public_stream_def using onlyrc onlys onlyr by blast
      next
        assume "st_realm s = u_realm u \<and> st_invite_only s \<noteq> Some True \<and> rm_string_id r \<noteq> ''zephyr''"
        then show "in_public_stream u m d" unfolding in_public_stream_def using rc s True by blast
      qed
      moreover have "access_message u mid d =
          (if st_invite_only s \<noteq> Some True \<and> rm_string_id r \<noteq> ''zephyr'' \<and> st_realm s = u_realm u
           then Inr (m, None) else Inl invalid_message)"
        using get none rc(3) s(5,6) True by (simp add: access_message_def)
      ultimately show ?thesis using False m ex by (simp add: invalid_message_def)
    next
      case notstream: False
      then have "\<not> in_public_stream u m d" unfolding in_public_stream_def using onlyrc by blast
      moreover have "access_message u mid d = Inl invalid_message"
        using get none rc(3) notstream by (simp add: access_message_def)
      ultimately show ?thesis using False ex by (simp add: invalid_message_def)
    qed
  qed
qed

text \<open>
  C3: A user gets a message by its id exactly when the message exists and the user received
  it or it is in a public stream of the user's realm; every refusal is the same error.
\<close>

theorem access_message_iff:
  assumes "message_refs_ok d"
  shows "case access_message u mid d of
      Inr (m, um) \<Rightarrow> m \<in> set (messages d) \<and> m_id m = mid \<and> (received u m d \<or> in_public_stream u m d) \<and>
        (um \<noteq> None \<longleftrightarrow> received u m d)
    | Inl e \<Rightarrow> e = JsonableError ''Invalid message(s)'' \<and>
        \<not> (\<exists>m \<in> set (messages d). m_id m = mid \<and> (received u m d \<or> in_public_stream u m d))"
  using assms by (rule readable_message_cases)

definition demo_message :: message where
  "demo_message = \<lparr>m_id = 30, m_sender = 8, m_recipient = 50, m_subject = ''t'', m_content = ''hi'', m_rendered_content = None,
     m_rendered_content_version = None, m_pub_date = 0, m_sending_client = 1, m_last_edit_time = None,
     m_edit_history = None, m_has_attachment = False, m_has_image = False, m_has_link = False\<rparr>"

definition demo_stream :: "bool \<Rightarrow> stream" where
  "demo_stream invite_only = \<lparr>st_id = 6, st_name = ''devel'', st_realm = 4, st_invite_only = Some invite_only,
     st_email_token = ''tok'', st_description = [], st_date_created = 0, st_deactivated = False\<rparr>"

definition demo_db :: "bool \<Rightarrow> db" where
  "demo_db invite_only = empty_db\<lparr>realms := [demo_realm], streams := [demo_stream invite_only],
     recipients := [\<lparr>rc_id = 50, rc_type_id = 6, rc_type = STREAM\<rparr>], messages := [demo_message],
     users := [demo_user 8 4 ''bob@zulip.com'', demo_user 9 4 ''ann@zulip.com'']\<rparr>"

theorem access_message_iff_witness:
  "\<not> isl (access_message (demo_user 9 4 ''ann@zulip.com'') 30 (demo_db False)) \<and>
   access_message (demo_user 9 4 ''ann@zulip.com'') 30 (demo_db True) = Inl (JsonableError ''Invalid message(s)'')"
proof -
  have ok: "message_refs_ok (demo_db b)" for b
    by (simp add: message_refs_ok_def demo_db_def empty_db_def demo_message_def demo_stream_def demo_realm_def)
  have "in_public_stream (demo_user 9 4 ''ann@zulip.com'') demo_message (demo_db False)"
    by (simp add: in_public_stream_def demo_db_def empty_db_def demo_message_def demo_stream_def demo_realm_def demo_user_def)
  then have "\<not> isl (access_message (demo_user 9 4 ''ann@zulip.com'') 30 (demo_db False))"
    using access_message_iff[OF ok[of False], where u = "demo_user 9 4 ''ann@zulip.com''" and mid = 30]
    by (cases "access_message (demo_user 9 4 ''ann@zulip.com'') 30 (demo_db False)") (auto simp: demo_db_def demo_message_def)
  moreover have "\<not> received (demo_user 9 4 ''ann@zulip.com'') m (demo_db True)" for m
    by (simp add: received_def demo_db_def empty_db_def)
  moreover have "\<not> in_public_stream (demo_user 9 4 ''ann@zulip.com'') m (demo_db True)" for m
    by (simp add: in_public_stream_def demo_db_def demo_stream_def)
  ultimately show ?thesis using access_message_iff[OF ok[of True], where u = "demo_user 9 4 ''ann@zulip.com''" and mid = 30]
    by (cases "access_message (demo_user 9 4 ''ann@zulip.com'') 30 (demo_db True)") auto
qed

end
