(* ===== verification/Server.thy ===== *)
theory Server
  imports Messages
begin

text \<open>
  The state that the actions (\<open>zerver/lib/actions.py\<close>) work on: the database, the events
  sent to Tornado, the jobs published to the queues and the mail and log lines, with the counter of fresh ids and
  the time. An action takes the state and gives a result or an exception together with the
  state at that point: what was done before an exception stays done, except inside
  \<open>transaction.atomic()\<close>, which takes the database back.
\<close>

record server =
  sv_db :: db
  sv_events :: "(pydict \<times> pyval list) list"
  sv_jobs :: "(string \<times> pydict) list"
  sv_log :: "string list"
  sv_next_id :: int
  sv_now :: rat

type_synonym 'a act = "server \<Rightarrow> (pyerr + 'a) \<times> server"

definition ret :: "'a \<Rightarrow> 'a act" where
  "ret x = (\<lambda>s. (Inr x, s))"

definition raise :: "pyerr \<Rightarrow> 'a act" where
  "raise e = (\<lambda>s. (Inl e, s))"

definition seq :: "'a act \<Rightarrow> ('a \<Rightarrow> 'b act) \<Rightarrow> 'b act" where
  "seq m f = (\<lambda>s. case m s of (Inl e, s') \<Rightarrow> (Inl e, s') | (Inr x, s') \<Rightarrow> f x s')"

definition andthen :: "unit act \<Rightarrow> 'b act \<Rightarrow> 'b act" where
  "andthen m n = seq m (\<lambda>_. n)"

definition query :: "(db \<Rightarrow> pyerr + 'a) \<Rightarrow> 'a act" where
  "query f = (\<lambda>s. (f (sv_db s), s))"

definition lookup :: "(db \<Rightarrow> 'a) \<Rightarrow> 'a act" where
  "lookup f = (\<lambda>s. (Inr (f (sv_db s)), s))"

definition modify_db :: "(db \<Rightarrow> db) \<Rightarrow> unit act" where
  "modify_db f = (\<lambda>s. (Inr (), s\<lparr>sv_db := f (sv_db s)\<rparr>))"

definition fresh_id :: "int act" where
  "fresh_id = (\<lambda>s. (Inr (sv_next_id s), s\<lparr>sv_next_id := sv_next_id s + 1\<rparr>))"

definition timezone_now :: "rat act" where
  "timezone_now = (\<lambda>s. (Inr (sv_now s), s))"

definition send_event :: "pydict \<Rightarrow> pyval list \<Rightarrow> unit act" where
  "send_event event us = (\<lambda>s. (Inr (), s\<lparr>sv_events := sv_events s @ [(event, us)]\<rparr>))"

definition queue_json_publish :: "string \<Rightarrow> pydict \<Rightarrow> unit act" where
  "queue_json_publish queue event = (\<lambda>s. (Inr (), s\<lparr>sv_jobs := sv_jobs s @ [(queue, event)]\<rparr>))"

definition log_line :: "string \<Rightarrow> unit act" where
  "log_line l = (\<lambda>s. (Inr (), s\<lparr>sv_log := sv_log s @ [l]\<rparr>))"

text \<open>\<open>try: m except e: h\<close>, where \<open>h\<close> tells which exceptions it handles.\<close>

definition try_except :: "'a act \<Rightarrow> (pyerr \<Rightarrow> 'a act option) \<Rightarrow> 'a act" where
  "try_except m h = (\<lambda>s. case m s of
       (Inl e, s') \<Rightarrow> (case h e of None \<Rightarrow> (Inl e, s') | Some n \<Rightarrow> n s')
     | r \<Rightarrow> r)"

definition atomic :: "'a act \<Rightarrow> 'a act" where
  "atomic m = (\<lambda>s. case m s of (Inl e, s') \<Rightarrow> (Inl e, s'\<lparr>sv_db := sv_db s\<rparr>) | r \<Rightarrow> r)"

fun for_each :: "('a \<Rightarrow> unit act) \<Rightarrow> 'a list \<Rightarrow> unit act" where
  "for_each f [] = ret ()"
| "for_each f (x # xs) = andthen (f x) (for_each f xs)"

fun collect :: "('a \<Rightarrow> 'b act) \<Rightarrow> 'a list \<Rightarrow> 'b list act" where
  "collect f [] = ret []"
| "collect f (x # xs) = seq (f x) (\<lambda>y. seq (collect f xs) (\<lambda>ys. ret (y # ys)))"

lemma act_simps [simp]:
  "ret x s = (Inr x, s)" "raise e s = (Inl e, s)"
  "query f s = (f (sv_db s), s)" "lookup g s = (Inr (g (sv_db s)), s)"
  "modify_db h s = (Inr (), s\<lparr>sv_db := h (sv_db s)\<rparr>)"
  "fresh_id s = (Inr (sv_next_id s), s\<lparr>sv_next_id := sv_next_id s + 1\<rparr>)"
  "timezone_now s = (Inr (sv_now s), s)"
  "send_event ev us s = (Inr (), s\<lparr>sv_events := sv_events s @ [(ev, us)]\<rparr>)"
  "queue_json_publish q ev s = (Inr (), s\<lparr>sv_jobs := sv_jobs s @ [(q, ev)]\<rparr>)"
  "log_line l s = (Inr (), s\<lparr>sv_log := sv_log s @ [l]\<rparr>)"
  by (simp_all add: ret_def raise_def query_def lookup_def modify_db_def fresh_id_def timezone_now_def
      send_event_def queue_json_publish_def log_line_def)

lemma seq_apply: "seq m f s = (case m s of (Inl e, s') \<Rightarrow> (Inl e, s') | (Inr x, s') \<Rightarrow> f x s')"
  by (simp add: seq_def)

lemma seq_simps [simp]:
  "m s = (Inr x, s') \<Longrightarrow> seq m f s = f x s'"
  "m s = (Inl e, s') \<Longrightarrow> seq m f s = (Inl e, s')"
  by (simp_all add: seq_def)

lemma seq_Inr: "seq m f s = (Inr y, s') \<longleftrightarrow> (\<exists>x t. m s = (Inr x, t) \<and> f x t = (Inr y, s'))"
  by (auto simp: seq_def split: prod.splits sum.splits)

lemma andthen_Inr: "andthen m n s = (Inr y, s') \<longleftrightarrow> (\<exists>t. m s = (Inr (), t) \<and> n t = (Inr y, s'))"
  by (auto simp: andthen_def seq_Inr)

lemma andthen_simps [simp]:
  "m s = (Inr (), s') \<Longrightarrow> andthen m n s = n s'"
  "m s = (Inl e, s') \<Longrightarrow> andthen m n s = (Inl e, s')"
  by (simp_all add: andthen_def)

lemma seq_query_Inr: "seq (query q) f s = (Inr y, s') \<longleftrightarrow> (\<exists>x. q (sv_db s) = Inr x \<and> f x s = (Inr y, s'))"
  by (auto simp: seq_Inr)

lemma seq_query_ok [simp]: "q (sv_db s) = Inr x \<Longrightarrow> seq (query q) f s = f x s"
  by simp

lemma seq_query_fail [simp]: "q (sv_db s) = Inl e \<Longrightarrow> seq (query q) f s = (Inl e, s)"
  by simp

text \<open>A loop whose body always succeeds folds the effect of the body.\<close>

lemma for_each_fold:
  assumes "\<And>x s. x \<in> set xs \<Longrightarrow> f x s = (Inr (), g x s)"
  shows "for_each f xs s = (Inr (), fold g xs s)"
  using assms
proof (induction xs arbitrary: s)
  case (Cons x xs)
  have "f x s = (Inr (), g x s)" using Cons.prems by simp
  moreover have "for_each f xs (g x s) = (Inr (), fold g xs (g x s))" using Cons by simp
  ultimately show ?case by simp
qed simp

text \<open>An invariant of the body is an invariant of the loop, whether it ends or raises.\<close>

lemma for_each_inv:
  assumes "\<And>x s r s'. x \<in> set xs \<Longrightarrow> P s \<Longrightarrow> f x s = (r, s') \<Longrightarrow> P s'" and "P s" and "for_each f xs s = (r, s')"
  shows "P s'"
  using assms
proof (induction xs arbitrary: s)
  case (Cons x xs)
  obtain r1 t where step: "f x s = (r1, t)" by (cases "f x s")
  have t: "P t" using Cons.prems(1)[OF _ Cons.prems(2) step] by simp
  show ?case
  proof (cases r1)
    case (Inl e)
    then show ?thesis using step Cons.prems(3) t by simp
  next
    case (Inr u)
    then have "for_each f xs t = (r, s')" using step Cons.prems(3) by simp
    then show ?thesis using Cons.IH[of t] Cons.prems(1) t by (meson list.set_intros(2))
  qed
qed simp

lemma seq_keeps:
  assumes "seq m f s = (r, s')" and "P s"
    and "\<And>r t. m s = (r, t) \<Longrightarrow> P t" and "\<And>x t r. m s = (Inr x, t) \<Longrightarrow> P t \<Longrightarrow> f x t = (r, s') \<Longrightarrow> P s'"
  shows "P s'"
proof -
  obtain r1 t where step: "m s = (r1, t)" by (cases "m s")
  show ?thesis
  proof (cases r1)
    case (Inl e)
    then show ?thesis using step assms(1,3) by simp
  next
    case (Inr x)
    then show ?thesis using step assms by simp
  qed
qed

section \<open>What an action leaves alone\<close>

text \<open>\<open>preserves f m\<close>: the part \<open>f\<close> of the state is the same after \<open>m\<close>, whether it ends or raises.\<close>

named_theorems preserves_intros \<open>parts of the state that actions leave alone\<close>

definition preserves :: "(server \<Rightarrow> 'b) \<Rightarrow> 'a act \<Rightarrow> bool" where
  "preserves f m \<longleftrightarrow> (\<forall>s. f (snd (m s)) = f s)"

lemma preservesD: "preserves f m \<Longrightarrow> m s = (r, s') \<Longrightarrow> f s' = f s"
  by (metis preserves_def snd_conv)

lemma preserves_basic [preserves_intros]:
  "preserves f (ret x)" "preserves f (raise e)" "preserves f (query q)" "preserves f (lookup g)"
  "preserves f timezone_now"
  by (simp_all add: preserves_def)

lemma preserves_seq [preserves_intros]:
  assumes "preserves f m" and "\<And>x. preserves f (k x)"
  shows "preserves f (seq m k)"
proof -
  have "f (snd (seq m k s)) = f s" for s
  proof (cases "m s")
    case (Pair r t)
    then have "f t = f s" using assms(1) by (metis preservesD)
    then show ?thesis using Pair assms(2) by (cases r) (simp_all add: preserves_def)
  qed
  then show ?thesis by (simp add: preserves_def)
qed

lemma preserves_andthen [preserves_intros]: "preserves f m \<Longrightarrow> preserves f k \<Longrightarrow> preserves f (andthen m k)"
  by (simp add: andthen_def preserves_seq)

lemma preserves_if [preserves_intros]: "preserves f m \<Longrightarrow> preserves f k \<Longrightarrow> preserves f (if c then m else k)"
  by simp

lemma preserves_option [preserves_intros]:
  "preserves f m \<Longrightarrow> (\<And>x. preserves f (k x)) \<Longrightarrow> preserves f (case o1 of None \<Rightarrow> m | Some x \<Rightarrow> k x)"
  by (cases o1) simp_all

lemma preserves_prod [preserves_intros]:
  "(\<And>x y. preserves f (k x y)) \<Longrightarrow> preserves f (case p of (x, y) \<Rightarrow> k x y)"
  by (cases p) simp

lemma preserves_let [preserves_intros]: "(\<And>x. preserves f (k x)) \<Longrightarrow> preserves f (let x = e in k x)"
  by simp

lemma preserves_for_each [preserves_intros]: "(\<And>x. preserves f (k x)) \<Longrightarrow> preserves f (for_each k xs)"
  by (induction xs) (simp_all add: preserves_andthen preserves_basic)

lemma preserves_collect [preserves_intros]: "(\<And>x. preserves f (k x)) \<Longrightarrow> preserves f (collect k xs)"
  by (induction xs) (simp_all add: preserves_seq preserves_basic)

lemma preserves_try [preserves_intros]:
  assumes "preserves f m" and "\<And>e n. h e = Some n \<Longrightarrow> preserves f n"
  shows "preserves f (try_except m h)"
proof -
  have "f (snd (try_except m h s)) = f s" for s
  proof (cases "m s")
    case (Pair r t)
    then have "f t = f s" using assms(1) by (metis preservesD)
    then show ?thesis using Pair assms(2)
      by (cases r) (auto simp: try_except_def preserves_def split: option.splits)
  qed
  then show ?thesis by (simp add: preserves_def)
qed

text \<open>The effects, each on its own part.\<close>

lemma preserves_effects [preserves_intros]:
  "preserves sv_db (send_event ev us)" "preserves sv_db (queue_json_publish q ev)" "preserves sv_db (log_line l)"
  "preserves sv_db fresh_id" "preserves sv_events (queue_json_publish q ev)" "preserves sv_events (log_line l)"
  "preserves sv_events (modify_db h)" "preserves sv_events fresh_id"
  "preserves sv_jobs (send_event ev us)" "preserves sv_jobs (log_line l)" "preserves sv_jobs (modify_db h)"
  "preserves sv_jobs fresh_id" "preserves sv_next_id (send_event ev us)" "preserves sv_next_id (queue_json_publish q ev)"
  "preserves sv_next_id (log_line l)" "preserves sv_next_id (modify_db h)"
  by (simp_all add: preserves_def)

lemma preserves_modify_db [preserves_intros]: "(\<And>d. g (h d) = g d) \<Longrightarrow> preserves (\<lambda>s. g (sv_db s)) (modify_db h)"
  by (simp add: preserves_def)

lemma preserves_db_part: "preserves sv_db m \<Longrightarrow> preserves (\<lambda>s. g (sv_db s)) m"
  by (simp add: preserves_def)

lemma preserves_atomic [preserves_intros]: "preserves (\<lambda>s. g (sv_db s)) m \<Longrightarrow> preserves (\<lambda>s. g (sv_db s)) (atomic m)"
  by (auto simp: preserves_def atomic_def split: prod.splits sum.splits) (metis snd_conv)

text \<open>Lookup and creation of clients.\<close>

definition get_or_create_client :: "string \<Rightarrow> (int \<times> string) act" where
  "get_or_create_client name =
     seq (lookup (\<lambda>d. find (\<lambda>c. snd c = name) (client_names d))) (\<lambda>found.
       case found of
         Some c \<Rightarrow> ret c
       | None \<Rightarrow> seq fresh_id (\<lambda>i.
           andthen (modify_db (\<lambda>d. d\<lparr>client_names := client_names d @ [(i, name)]\<rparr>)) (ret (i, name))))"

definition the_realm :: "int \<Rightarrow> db \<Rightarrow> pyerr + realm" where
  "the_realm realm_id d = db_get ''Realm'' (\<lambda>r. rm_id r = realm_id) (realms d)"

definition active_user_ids :: "int \<Rightarrow> db \<Rightarrow> int list" where
  "active_user_ids realm_id d = map u_id (filter (\<lambda>u. u_realm u = realm_id \<and> u_is_active u) (users d))"

definition stream_recipient_ids :: "int \<Rightarrow> db \<Rightarrow> int list" where
  "stream_recipient_ids stream_id d =
     map rc_id (filter (\<lambda>r. rc_type r = STREAM \<and> rc_type_id r = stream_id) (recipients d))"

definition private_stream_user_ids :: "stream \<Rightarrow> db \<Rightarrow> int list" where
  "private_stream_user_ids st d =
     remdups (map sub_user_profile (filter (\<lambda>x. sub_recipient x \<in> set (stream_recipient_ids (st_id st) d) \<and> sub_active x)
       (subscriptions d)))"

definition can_access_stream_user_ids :: "stream \<Rightarrow> db \<Rightarrow> pyerr + int list" where
  "can_access_stream_user_ids st d =
     ebind (is_public d st) (\<lambda>public.
       Inr (if public then remdups (active_user_ids (st_realm st) d) else private_stream_user_ids st d))"

definition subscribed_to_stream :: "int \<Rightarrow> stream \<Rightarrow> db \<Rightarrow> bool" where
  "subscribed_to_stream uid st d \<longleftrightarrow>
     db_exists (\<lambda>x. sub_user_profile x = uid \<and> sub_active x \<and>
       sub_recipient x \<in> set (stream_recipient_ids (st_id st) d)) (subscriptions d)"

end
