(* ===== verification/EmailGateway.thy ===== *)
theory EmailGateway
  imports Prelude
begin

text \<open>
  Addresses of streams in the email gateway (\<open>encode_email_address\<close> and
  \<open>decode_email_address\<close> in \<open>zerver/lib/actions.py\<close>). Texts are lists of code points here,
  because the encoding depends on them. \<open>W\<close> tells which code points above 127 the regular
  expressions of the standard library take for word characters; the gateway pattern is given by the
  parts before and after its \<open>%s\<close>.
\<close>

type_synonym points = "nat list"

record gateway =
  gw_before :: points
  gw_after :: points

definition points :: "string \<Rightarrow> points" where
  "points s = map of_char s"

definition is_word :: "(nat \<Rightarrow> bool) \<Rightarrow> nat \<Rightarrow> bool" where
  "is_word W c \<longleftrightarrow> (48 \<le> c \<and> c \<le> 57) \<or> (65 \<le> c \<and> c \<le> 90) \<or> c = 95 \<or> (97 \<le> c \<and> c \<le> 122) \<or> (127 < c \<and> W c)"

text \<open>\<open>str(n)\<close> and \<open>zfill(4)\<close>\<close>

fun decimal :: "nat \<Rightarrow> points" where
  "decimal n = (if n < 10 then [48 + n] else decimal (n div 10) @ [48 + n mod 10])"

declare decimal.simps [simp del]

definition zfill4 :: "points \<Rightarrow> points" where
  "zfill4 ds = replicate (4 - length ds) 48 @ ds"

definition encode_char :: "(nat \<Rightarrow> bool) \<Rightarrow> nat \<Rightarrow> points" where
  "encode_char W c = (if is_word W c then [c] else 37 # zfill4 (decimal c))"

definition encode_email_address_helper :: "(nat \<Rightarrow> bool) \<Rightarrow> gateway option \<Rightarrow> points \<Rightarrow> points \<Rightarrow> points" where
  "encode_email_address_helper W pattern name email_token =
     (case pattern of
        None \<Rightarrow> []
      | Some g \<Rightarrow> gw_before g @ concat (map (encode_char W) name) @ [43] @ email_token @ gw_after g)"

text \<open>
  The regular expression \<open>before(.*?)after\<close>, matched at the start: the shortest text without a
  newline that the part after it follows.
\<close>

fun starts :: "points \<Rightarrow> points \<Rightarrow> bool" where
  "starts s [] = True"
| "starts [] (p # ps) = False"
| "starts (c # s) (p # ps) = (c = p \<and> starts s ps)"

fun until :: "points \<Rightarrow> points \<Rightarrow> points option" where
  "until post s =
     (if starts s post then Some []
      else case s of
        [] \<Rightarrow> None
      | c # s \<Rightarrow> if c = 10 then None else map_option ((#) c) (until post s))"

declare until.simps [simp del]

definition get_email_gateway_message_string_from_address :: "gateway \<Rightarrow> points \<Rightarrow> points option" where
  "get_email_gateway_message_string_from_address g address =
     (if starts address (gw_before g) then until (gw_after g) (drop (length (gw_before g)) address) else None)"

fun split_points :: "nat \<Rightarrow> points \<Rightarrow> points list" where
  "split_points sep [] = [[]]"
| "split_points sep (c # s) =
     (if c = sep then [] # split_points sep s
      else case split_points sep s of [] \<Rightarrow> [[c]] | w # ws \<Rightarrow> (c # w) # ws)"

definition digit :: "nat \<Rightarrow> bool" where
  "digit c \<longleftrightarrow> 48 \<le> c \<and> c \<le> 57"

definition number :: "points \<Rightarrow> nat" where
  "number ds = foldl (\<lambda>n c. 10 * n + (c - 48)) 0 ds"

text \<open>\<open>re.sub("%\d{4}", ...)\<close>; the number tells how many characters of a match are left to skip.\<close>

fun decode_points :: "nat \<Rightarrow> points \<Rightarrow> points" where
  "decode_points n [] = []"
| "decode_points (Suc n) (c # s) = decode_points n s"
| "decode_points 0 (c # s) =
     (if c = 37 \<and> 4 \<le> length s \<and> list_all digit (take 4 s) then number (take 4 s) # decode_points 4 s
      else c # decode_points 0 s)"

definition decode_email_address :: "gateway \<Rightarrow> points \<Rightarrow> pyerr + (points \<times> points) option" where
  "decode_email_address g email =
     (case get_email_gateway_message_string_from_address g email of
        None \<Rightarrow> Inr None
      | Some msg_string \<Rightarrow>
          (case split_points (if 46 \<in> set msg_string then 46 else 43) msg_string of
             [encoded_stream_name, token] \<Rightarrow> Inr (Some (decode_points 0 encoded_stream_name, token))
           | _ \<Rightarrow> Inl (ValueError ''unpack'')))"

section \<open>Decoding undoes encoding\<close>

lemma digit_48 [simp]: "digit (48 + n) \<longleftrightarrow> n < 10"
  by (auto simp: digit_def)

lemma decimal_digits: "list_all digit (decimal n)"
proof (induction n rule: decimal.induct)
  case (1 n)
  then show ?case by (subst decimal.simps) (simp del: add_Suc)
qed

lemma number_append: "number (ds @ [c]) = 10 * number ds + (c - 48)"
  by (simp add: number_def)

lemma number_decimal: "number (decimal n) = n"
proof (induction n rule: decimal.induct)
  case (1 n)
  show ?case
  proof (cases "n < 10")
    case True
    then show ?thesis by (subst decimal.simps) (simp add: number_def)
  next
    case False
    have "number (decimal n) = 10 * number (decimal (n div 10)) + n mod 10"
      by (subst decimal.simps) (simp add: False number_append)
    with 1[OF False] show ?thesis by simp
  qed
qed

lemma number_zeros: "number (replicate k 48 @ ds) = number ds"
  by (induction k) (simp_all add: number_def)

lemma decimal_length: "n < 10 ^ k \<Longrightarrow> 0 < k \<Longrightarrow> length (decimal n) \<le> k"
proof (induction k arbitrary: n)
  case (Suc k)
  show ?case
  proof (cases "n < 10")
    case True
    then show ?thesis by (subst decimal.simps) simp
  next
    case False
    then have "k \<noteq> 0" using Suc.prems by (cases k) auto
    moreover have "n div 10 < 10 ^ k" using Suc.prems by (simp add: less_mult_imp_div_less)
    ultimately have "length (decimal (n div 10)) \<le> k" using Suc.IH by simp
    then show ?thesis by (subst decimal.simps) (simp add: False)
  qed
qed simp

lemma zfill4_decimal:
  assumes "c < 10000"
  shows "length (zfill4 (decimal c)) = 4" and "list_all digit (zfill4 (decimal c))" and "number (zfill4 (decimal c)) = c"
proof -
  have "length (decimal c) \<le> 4" using assms by (intro decimal_length) simp_all
  then show "length (zfill4 (decimal c)) = 4" by (simp add: zfill4_def)
  show "list_all digit (zfill4 (decimal c))"
    using decimal_digits by (auto simp: zfill4_def list_all_iff digit_def)
  show "number (zfill4 (decimal c)) = c" by (simp add: zfill4_def number_zeros number_decimal)
qed

lemma decode_skip: "length ds = n \<Longrightarrow> decode_points n (ds @ s) = decode_points 0 s"
proof (induction ds arbitrary: n)
  case Nil
  then show ?case by simp
next
  case (Cons d ds)
  then obtain k where "n = Suc k" "length ds = k" by (cases n) auto
  with Cons.IH show ?case by simp
qed

lemma decode_skip_numeral [simp]: "decode_points (numeral k) (c # s) = decode_points (pred_numeral k) s"
  by (simp add: numeral_eq_Suc)

lemma decode_char:
  assumes "is_word W c \<or> c < 10000"
  shows "decode_points 0 (encode_char W c @ s) = c # decode_points 0 s"
proof (cases "is_word W c")
  case True
  then have "c \<noteq> 37" by (auto simp: is_word_def)
  then show ?thesis using True by (simp add: encode_char_def)
next
  case False
  then have c: "c < 10000" using assms by simp
  note z = zfill4_decimal[OF c]
  have "encode_char W c @ s = 37 # (zfill4 (decimal c) @ s)" using False by (simp add: encode_char_def)
  moreover have "take 4 (zfill4 (decimal c) @ s) = zfill4 (decimal c)" "4 \<le> length (zfill4 (decimal c) @ s)"
    using z(1) by simp_all
  ultimately show ?thesis using z decode_skip[OF z(1)] by simp
qed

lemma decode_name:
  assumes "\<forall>c \<in> set name. is_word W c \<or> c < 10000"
  shows "decode_points 0 (concat (map (encode_char W) name)) = name"
  using assms by (induction name) (auto simp: decode_char)

lemma starts_append: "starts (p @ s) p"
  by (induction p) simp_all

lemma encoded_chars: "c \<in> set (encode_char W d) \<Longrightarrow> is_word W c \<or> c = 37"
  using decimal_digits[of d] by (auto simp: encode_char_def zfill4_def is_word_def list_all_iff digit_def split: if_splits)

text \<open>The shortest match ends at the first character that the part after it starts with.\<close>

lemma until_first:
  assumes "c \<notin> set s" and "10 \<notin> set s"
  shows "until (c # post) (s @ c # post) = Some s"
  using assms
proof (induction s)
  case Nil
  show ?case by (subst until.simps) (simp add: starts_append[of post "[]", simplified])
next
  case (Cons a s)
  then show ?case by (subst until.simps) auto
qed

lemma split_points_none: "sep \<notin> set s \<Longrightarrow> split_points sep s = [s]"
  by (induction s) auto

lemma split_points_two: "sep \<notin> set s \<Longrightarrow> sep \<notin> set t \<Longrightarrow> split_points sep (s @ sep # t) = [s, t]"
  by (induction s) (auto simp: split_points_none)

text \<open>
  Decoding the address of a stream gives back its name and token, for every name whose
  characters are word characters or have code points of at most four digits, and every
  gateway pattern whose second part starts with a character that addresses are not encoded with.
\<close>

theorem email_address_roundtrip:
  assumes "\<forall>c \<in> set name. is_word W c \<or> c < 10000" and "\<forall>c \<in> set token. is_word W c"
    and "gw_after g = a # post" and "\<not> is_word W a" and "a \<notin> {37, 43}"
  shows "decode_email_address g (encode_email_address_helper W (Some g) name token) = Inr (Some (name, token))"
proof -
  let ?name = "concat (map (encode_char W) name)"
  let ?msg = "?name @ [43] @ token"
  have chars: "is_word W c \<or> c = 37" if "c \<in> set ?name" for c
    using that encoded_chars by auto
  have no: "\<not> is_word W 10" "\<not> is_word W 46" "\<not> is_word W 43" by (simp_all add: is_word_def)
  have out: "x \<notin> set ?msg" if "\<not> is_word W x" "x \<noteq> 37" "x \<noteq> 43" for x
    using that chars[of x] assms(2) by (auto simp del: set_concat set_map)
  have "a \<notin> set ?msg" "10 \<notin> set ?msg" "46 \<notin> set ?msg"
    using assms(5) by (intro out no assms(4); simp)+
  moreover have "43 \<notin> set ?name" "43 \<notin> set token"
    using chars[of 43] assms(2) no(3) by (auto simp del: set_concat set_map)
  moreover have "encode_email_address_helper W (Some g) name token = gw_before g @ ?msg @ a # post"
    using assms(3) by (simp add: encode_email_address_helper_def)
  moreover have "drop (length (gw_before g)) (gw_before g @ ?msg @ a # post) = ?msg @ a # post" by simp
  ultimately have msg: "get_email_gateway_message_string_from_address g (encode_email_address_helper W (Some g) name token) =
      until (a # post) (?msg @ a # post)"
    by (simp only: get_email_gateway_message_string_from_address_def starts_append assms(3) if_True)
  have "until (a # post) (?msg @ a # post) = Some ?msg" by (rule until_first) fact+
  moreover have "split_points 43 (?name @ 43 # token) = [?name, token]" by (rule split_points_two) fact+
  moreover have "?name @ 43 # token = ?msg" by simp
  moreover have "46 \<notin> set ?msg" by fact
  ultimately have "get_email_gateway_message_string_from_address g (encode_email_address_helper W (Some g) name token) = Some ?msg"
    and "46 \<notin> set ?msg" and "split_points 43 ?msg = [?name, token]"
    using msg by (simp_all only: simp_thms)
  then show ?thesis using decode_name[OF assms(1)] by (simp only: decode_email_address_def option.case if_False list.case)
qed

definition demo_gateway :: gateway where
  "demo_gateway = \<lparr>gw_before = [], gw_after = points ''@example.com''\<rparr>"

theorem email_address_roundtrip_witness:
  "decode_email_address demo_gateway
     (encode_email_address_helper (\<lambda>_. False) (Some demo_gateway) (points ''a stream + more'') (points ''f00'')) =
   Inr (Some (points ''a stream + more'', points ''f00''))"
  by (rule email_address_roundtrip[where a = 64 and post = "points ''example.com''"])
    (simp_all add: demo_gateway_def points_def is_word_def)

text \<open>
  A stream whose name is one ideographic full stop cannot be reached by email: its code
  point has five digits, of which decoding takes four, so the address of the stream decodes to another name.
\<close>

theorem long_code_point_lost:
  "decode_email_address demo_gateway
     (encode_email_address_helper (\<lambda>_. False) (Some demo_gateway) [12290] (points ''f00'')) =
   Inr (Some ([1229, 48], points ''f00''))"
proof -
  have "decimal 12290 = [49, 50, 50, 57, 48]" by (simp add: decimal.simps)
  then have "encode_email_address_helper (\<lambda>_. False) (Some demo_gateway) [12290] (points ''f00'') =
      37 # [49, 50, 50, 57, 48] @ 43 # points ''f00'' @ points ''@example.com''"
    by (simp add: encode_email_address_helper_def demo_gateway_def encode_char_def is_word_def zfill4_def)
  moreover have "decode_email_address demo_gateway (37 # [49, 50, 50, 57, 48] @ 43 # points ''f00'' @ points ''@example.com'') =
      Inr (Some ([1229, 48], points ''f00''))"
    by (simp add: decode_email_address_def get_email_gateway_message_string_from_address_def demo_gateway_def points_def
        until.simps digit_def number_def)
  ultimately show ?thesis by simp
qed

end
