(* ===== verification/Sending.thy ===== *)
theory Sending
  imports Server EmailGateway
begin

text \<open>
  Sending a message (\<open>zerver/lib/actions.py\<close>): the checks of \<open>check_message\<close>, the choice of
  the recipient of a private message, and \<open>do_send_messages\<close>, which renders the messages,
  stores them with a row for every recipient, claims attachments and sends the events.
\<close>

record send_env =
  se_settings :: settings
  se_render :: render_env
  WELCOME_BOT :: string
  NOTIFICATION_BOT :: string
  ENABLE_FEEDBACK :: bool
  FEEDBACK_BOT :: string
  INLINE_URL_EMBED_PREVIEW :: bool
  new_email_token :: "int \<Rightarrow> string"
  EMAIL_GATEWAY_PATTERN :: "gateway option"
  unicode_word :: "nat \<Rightarrow> bool"

section \<open>Texts\<close>

definition MAX_SUBJECT_LENGTH :: nat where
  "MAX_SUBJECT_LENGTH = 60"

definition MAX_MESSAGE_LENGTH :: nat where
  "MAX_MESSAGE_LENGTH = 10000"

definition MAX_NAME_LENGTH :: nat where
  "MAX_NAME_LENGTH = 60"

definition truncate_content :: "string \<Rightarrow> nat \<Rightarrow> string \<Rightarrow> string" where
  "truncate_content content max_length truncation_message =
     (if length content > max_length
      then take (max_length - length truncation_message) content @ truncation_message else content)"

definition truncate_body :: "string \<Rightarrow> string" where
  "truncate_body body = truncate_content body MAX_MESSAGE_LENGTH ''...''"

definition truncate_topic :: "string \<Rightarrow> string" where
  "truncate_topic topic = truncate_content topic MAX_SUBJECT_LENGTH ''...''"

definition check_stream_name :: "string \<Rightarrow> pyerr + unit" where
  "check_stream_name stream_name =
     (if str_strip stream_name = [] then Inl (JsonableError (''Invalid stream name '' @ quoted stream_name))
      else if length stream_name > MAX_NAME_LENGTH
      then Inl (JsonableError ''Stream name too long (limit: 60 characters)'')
      else if list_ex (\<lambda>c. (of_char c :: nat) = 0) stream_name
      then Inl (JsonableError (''Stream name '' @ quoted stream_name @ '' contains NULL (0x00) characters.''))
      else Inr ())"

text \<open>\<open>django.utils.html.escape\<close>\<close>

definition html_escape :: "string \<Rightarrow> string" where
  "html_escape s = concat (map (\<lambda>c.
     if c = CHR ''&'' then ''&amp;'' else if c = CHR ''<'' then ''&lt;'' else if c = CHR ''>'' then ''&gt;''
     else if c = CHR 0x22 then ''&quot;'' else if c = CHR 0x27 then ''&#39;'' else [c]) s)"

section \<open>Attachments in a message\<close>

text \<open>
  \<open>attachment_url_re\<close>: the prefix of an upload, and as few characters as possible up to a
  blank, a closing parenthesis or the end; a dot does not match a newline.
\<close>

definition match_attachment_url :: "string \<Rightarrow> string option" where
  "match_attachment_url s =
     (case match_uploads s of
        None \<Rightarrow> None
      | Some r \<Rightarrow>
          let body = takeWhile (\<lambda>c. c \<noteq> CHR '' '' \<and> c \<noteq> CHR '')'' \<and> c \<noteq> CHR ''\<newline>'') r;
              rest = drop (length body) r
          in if rest = [] \<or> hd rest \<noteq> CHR ''\<newline>''
             then Some (take (length s - length r) s @ body) else None)"

text \<open>\<open>findall\<close>; the number tells how many characters of the last match are left to skip.\<close>

fun find_attachment_urls :: "nat \<Rightarrow> string \<Rightarrow> string list" where
  "find_attachment_urls n [] = []"
| "find_attachment_urls (Suc n) (c # s) = find_attachment_urls n s"
| "find_attachment_urls 0 (c # s) =
     (case match_attachment_url (c # s) of
        None \<Rightarrow> find_attachment_urls 0 s
      | Some w \<Rightarrow> w # find_attachment_urls (length w - 1) s)"

fun remove_upload_prefixes :: "nat \<Rightarrow> string \<Rightarrow> string" where
  "remove_upload_prefixes n [] = []"
| "remove_upload_prefixes (Suc n) (c # s) = remove_upload_prefixes n s"
| "remove_upload_prefixes 0 (c # s) =
     (case match_uploads (c # s) of
        None \<Rightarrow> c # remove_upload_prefixes 0 s
      | Some r \<Rightarrow> remove_upload_prefixes (length s - length r) s)"

definition attachment_url_to_path_id :: "string \<Rightarrow> string" where
  "attachment_url_to_path_id attachment_url =
     rev (dropWhile (\<lambda>c. c = CHR ''.'') (rev (remove_upload_prefixes 0 attachment_url)))"

definition claim_attachment :: "string \<Rightarrow> int \<Rightarrow> bool \<Rightarrow> unit act" where
  "claim_attachment path_id message_id is_message_realm_public =
     seq (query (\<lambda>d. db_get ''Attachment'' (\<lambda>a. at_path_id a = path_id) (attachments d))) (\<lambda>a.
       modify_db (\<lambda>d. d\<lparr>attachments := map (\<lambda>x. if at_path_id x = path_id
         then x\<lparr>at_messages := (if message_id \<in> set (at_messages x) then at_messages x else at_messages x @ [message_id]),
                at_is_realm_public := at_is_realm_public x \<or> is_message_realm_public\<rparr> else x) (attachments d)\<rparr>))"

definition message_recipient :: "message \<Rightarrow> db \<Rightarrow> pyerr + recipient" where
  "message_recipient m d = db_get ''Recipient'' (\<lambda>r. rc_id r = m_recipient m) (recipients d)"

definition claim_url :: "message \<Rightarrow> string \<Rightarrow> unit act" where
  "claim_url m url =
     (let path_id = attachment_url_to_path_id url in
      seq (query (get_user_profile_by_id (m_sender m))) (\<lambda>u.
      seq (query (message_recipient m)) (\<lambda>rc.
      seq (if rc_type rc = STREAM
           then query (\<lambda>d. ebind (db_get ''Stream'' (\<lambda>s. st_id s = rc_type_id rc) (streams d)) (is_public d))
           else ret False) (\<lambda>is_message_realm_public.
      seq (lookup (validate_attachment_request u path_id)) (\<lambda>ok.
        if ok \<noteq> Some True
        then log_line (''User '' @ int_str (u_id u) @ '' tried to share upload '' @ path_id @ '' in message '' @
               int_str (m_id m) @ '', but lacks permission'')
        else claim_attachment path_id (m_id m) is_message_realm_public)))))"

definition do_claim_attachments :: "message \<Rightarrow> unit act" where
  "do_claim_attachments m = for_each (claim_url m) (find_attachment_urls 0 (m_content m))"

section \<open>Delivering messages\<close>

text \<open>
  A checked message, or the id of a mirrored message that was already sent; then, on the way
  through \<open>do_send_messages\<close>, with its recipients and what rendering found.
\<close>

record outgoing =
  og_message :: message
  og_client :: "int \<times> string"
  og_stream :: "stream option"
  og_local_id :: "string option"
  og_sender_queue_id :: "string option"
  og_realm :: int

datatype prepared = AlreadySent int | NewMessage outgoing

record delivery =
  dl_out :: outgoing
  dl_recipients :: "user_profile list"
  dl_active :: "user_profile list"
  dl_rendering :: rendered_message

definition get_recipient_user_profiles :: "recipient \<Rightarrow> int \<Rightarrow> db \<Rightarrow> pyerr + user_profile list" where
  "get_recipient_user_profiles rc sender_id d =
     (if rc_type rc = PERSONAL then
        emap (\<lambda>uid. get_user_profile_by_id uid d) (remdups [rc_type_id rc, sender_id])
      else if rc_type rc = STREAM \<or> rc_type rc = HUDDLE then
        emap (\<lambda>x. get_user_profile_by_id (sub_user_profile x) d)
          (filter (\<lambda>x. sub_recipient x = rc_id rc \<and> sub_active x) (subscriptions d))
      else Inl (ValueError ''Bad recipient type''))"

definition json_str_list :: "pyval \<Rightarrow> string list" where
  "json_str_list v = (case as_str_list v of Inr l \<Rightarrow> l | Inl _ \<Rightarrow> [])"

text \<open>\<open>zerver/lib/alert_words.py\<close>\<close>

definition alert_words_in_realm :: "send_env \<Rightarrow> int \<Rightarrow> db \<Rightarrow> pyerr + (int \<times> string list) list" where
  "alert_words_in_realm E realm_id d =
     ebind (emap (\<lambda>u. ebind (json_loads (se_render E) (u_alert_words u)) (\<lambda>v. Inr (u_id u, json_str_list v)))
       (filter (\<lambda>u. u_realm u = realm_id \<and> u_is_active u \<and> u_alert_words u \<noteq> ''[]'') (users d)))
     (\<lambda>all_user_words. Inr (filter (\<lambda>(uid, w). w \<noteq> []) all_user_words))"

definition render_incoming_message ::
  "send_env \<Rightarrow> message \<Rightarrow> string \<Rightarrow> int list \<Rightarrow> int \<Rightarrow> db \<Rightarrow> pyerr + rendered_message" where
  "render_incoming_message E m content message_users realm_id d =
     ebind (alert_words_in_realm E realm_id d) (\<lambda>words.
       case render_markdown (se_render E) (Some m) content (Some realm_id) (Some words) (Some message_users) d of
         Inl (OtherError e) \<Rightarrow>
           (if e = ''BugdownRenderingException'' then Inl (JsonableError ''Unable to render message'') else Inl (OtherError e))
       | r \<Rightarrow> r)"

definition prepare_delivery :: "outgoing \<Rightarrow> db \<Rightarrow> pyerr + outgoing \<times> user_profile list \<times> user_profile list" where
  "prepare_delivery og d =
     ebind (message_recipient (og_message og) d) (\<lambda>rc.
     ebind (get_recipient_user_profiles rc (m_sender (og_message og)) d) (\<lambda>rs.
       Inr (og, rs, filter u_is_active rs)))"

definition render_delivery :: "send_env \<Rightarrow> outgoing \<times> user_profile list \<times> user_profile list \<Rightarrow> db \<Rightarrow> pyerr + delivery" where
  "render_delivery E p d =
     (case p of (og, rs, active) \<Rightarrow>
        if m_rendered_content (og_message og) \<noteq> None then Inl (AssertionError [])
        else ebind (render_incoming_message E (og_message og) (m_content (og_message og)) (map u_id active) (og_realm og) d) (\<lambda>r.
          Inr \<lparr>dl_out = og\<lparr>og_message := (og_message og)\<lparr>m_rendered_content := Some (r_content r),
                 m_rendered_content_version := Some (bugdown_version (se_render E))\<rparr>\<rparr>,
               dl_recipients = rs, dl_active = active, dl_rendering = r\<rparr>))"

definition dl_message :: "delivery \<Rightarrow> message" where
  "dl_message dl = og_message (dl_out dl)"

definition set_message :: "message \<Rightarrow> delivery \<Rightarrow> delivery" where
  "set_message m dl = dl\<lparr>dl_out := (dl_out dl)\<lparr>og_message := m\<rparr>\<rparr>"

subsection \<open>The rows of the recipients\<close>

definition um_flags_for :: "delivery \<Rightarrow> int \<Rightarrow> int" where
  "um_flags_for dl uid =
     (let r = dl_rendering dl;
          flags = (if uid = m_sender (dl_message dl) \<and> sent_by_human (snd (og_client (dl_out dl))) then 1 else 0);
          flags = (if r_mentions_wildcard r then or flags 16 else flags);
          flags = (if uid \<in> set (r_mentions_user_ids r) then or flags 8 else flags);
          flags = (if uid \<in> set (r_user_ids_with_alert_words r) then or flags 512 else flags)
      in if r_is_me_message r then or flags 2048 else flags)"

definition ums_to_create :: "delivery \<Rightarrow> user_message list" where
  "ums_to_create dl = map (\<lambda>u. \<lparr>um_user_profile = u_id u, um_message = m_id (dl_message dl),
       um_flags = um_flags_for dl (u_id u)\<rparr>) (filter (\<lambda>u. \<not> is_service_bot u) (dl_active dl))"

definition user_flags :: "delivery \<Rightarrow> (int \<times> string list) list" where
  "user_flags dl = map (\<lambda>um. (um_user_profile um, parse_usermessage_flags (um_flags um))) (ums_to_create dl)"

text \<open>The jobs for service bots: by queue name, the trigger and the bot.\<close>

definition service_event :: "delivery \<Rightarrow> int \<Rightarrow> user_profile \<Rightarrow> (string \<times> string \<times> int) list" where
  "service_event dl recipient_type u =
     (if \<not> is_service_bot u then []
      else if u_bot_type u \<notin> {Some OUTGOING_WEBHOOK_BOT, Some EMBEDDED_BOT} then []
      else
        let queue_name = (if u_bot_type u = Some OUTGOING_WEBHOOK_BOT then ''outgoing_webhooks'' else ''embedded_bots'')
        in if u_id u \<in> set (r_mentions_user_ids (dl_rendering dl)) then [(queue_name, ''mention'', u_id u)]
           else if recipient_type \<noteq> STREAM then [(queue_name, ''private_message'', u_id u)]
           else [])"

text \<open>\<open>defaultdict(list)\<close>: the values by key, keys in the order they come first.\<close>

definition aggregate_in_order :: "(string \<times> (string \<times> int)) list \<Rightarrow> (string \<times> (string \<times> int) list) list" where
  "aggregate_in_order evs = fold add_row evs []"

definition service_queue_events :: "delivery \<Rightarrow> int \<Rightarrow> bool \<Rightarrow> (string \<times> (string \<times> int) list) list" where
  "service_queue_events dl recipient_type sender_is_bot =
     (if sender_is_bot then []
      else aggregate_in_order (concat (map (service_event dl recipient_type) (dl_active dl))))"

subsection \<open>Storing\<close>

definition create_message :: "delivery \<Rightarrow> delivery act" where
  "create_message dl =
     seq fresh_id (\<lambda>i.
       let m = (dl_message dl)\<lparr>m_id := i\<rparr>
       in andthen (modify_db (\<lambda>d. d\<lparr>messages := messages d @ [m]\<rparr>)) (ret (set_message m dl)))"

definition claim_message_attachments :: "delivery \<Rightarrow> unit act" where
  "claim_message_attachments dl =
     (if content_has_attachment (m_content (dl_message dl)) then do_claim_attachments (dl_message dl) else ret ())"

definition store_messages :: "delivery list \<Rightarrow> delivery list act" where
  "store_messages dls = atomic
     (seq (collect create_message dls) (\<lambda>dls.
      andthen (modify_db (\<lambda>d. d\<lparr>user_messages := user_messages d @ concat (map ums_to_create dls)\<rparr>))
      (andthen (for_each claim_message_attachments dls) (ret dls))))"

subsection \<open>Events\<close>

definition get_status_dict :: "rat \<Rightarrow> user_profile \<Rightarrow> db \<Rightarrow> pyerr + statuses" where
  "get_status_dict now u d =
     ebind (the_realm (u_realm u) d) (\<lambda>r.
       if is_zephyr_mirror_realm r then Inr [] else get_status_dict_by_realm now (u_realm u) d)"

definition presence_val :: "(string \<times> pydict) list \<Rightarrow> pyval" where
  "presence_val l = PDict (map (\<lambda>(client, info). (client, PDict info)) l)"

definition message_user :: "(int \<times> string list) list \<Rightarrow> user_profile \<Rightarrow> pyval" where
  "message_user flags u = PDict [(''id'', PInt (u_id u)),
     (''flags'', PList (map PStr (case map_of flags (u_id u) of None \<Rightarrow> [] | Some l \<Rightarrow> l))),
     (''always_push_notify'', PBool (u_enable_online_push_notifications u))]"

text \<open>\<open>message_to_dict\<close>, which may store a rendering.\<close>

definition message_to_dict :: "send_env \<Rightarrow> message \<Rightarrow> bool \<Rightarrow> pydict act" where
  "message_to_dict E m apply_markdown = (\<lambda>s.
     case to_dict_uncached_helper (se_render E) m apply_markdown (sv_db s) of
       Inl e \<Rightarrow> (Inl e, s)
     | Inr (dct, d) \<Rightarrow> (Inr dct, s\<lparr>sv_db := d\<rparr>))"

text \<open>The stream data is put on the event only for a public stream.\<close>

definition stream_event_fields :: "delivery \<Rightarrow> recipient \<Rightarrow> db \<Rightarrow> pyerr + pydict" where
  "stream_event_fields dl rc d =
     (if rc_type rc = STREAM then
        ebind (case og_stream (dl_out dl) of
                 Some s \<Rightarrow> Inr s | None \<Rightarrow> db_get ''Stream'' (\<lambda>s. st_id s = rc_type_id rc) (streams d)) (\<lambda>st.
        ebind (is_public d st) (\<lambda>public.
          Inr ((if public then [(''realm_id'', PInt (st_realm st)), (''stream_name'', PStr (st_name st))] else []) @
               (if st_invite_only st = Some True then [(''invite_only'', PBool True)] else []))))
      else Inr [])"

text \<open>The event of a message, and the jobs it causes.\<close>

definition message_event :: "send_env \<Rightarrow> delivery \<Rightarrow> user_profile \<Rightarrow> recipient \<Rightarrow> pydict act" where
  "message_event E dl sender rc =
     (let m = dl_message dl; out = dl_out dl in
      seq timezone_now (\<lambda>now.
      seq (query (get_status_dict now sender)) (\<lambda>user_presences.
      let pres = concat (map (\<lambda>u. case map_of user_presences (u_email u) of
              None \<Rightarrow> [] | Some l \<Rightarrow> [(int_str (u_id u), presence_val l)]) (dl_active dl)) in
      seq (message_to_dict E m True) (\<lambda>markdown.
      seq (message_to_dict E m False) (\<lambda>no_markdown.
      seq (query (stream_event_fields dl rc)) (\<lambda>fields.
        ret ([(''type'', PStr ''message''), (''message'', PInt (m_id m)),
            (''message_dict_markdown'', PDict markdown), (''message_dict_no_markdown'', PDict no_markdown),
            (''presences'', PDict pres)] @ fields @
            (case og_local_id out of None \<Rightarrow> [] | Some i \<Rightarrow> [(''local_id'', PStr i)]) @
            (case og_sender_queue_id out of None \<Rightarrow> [] | Some i \<Rightarrow> [(''sender_queue_id'', PStr i)]))))))))"

definition publish_message_jobs :: "send_env \<Rightarrow> string list \<Rightarrow> delivery \<Rightarrow> user_profile \<Rightarrow> recipient \<Rightarrow> unit act" where
  "publish_message_jobs E links_for_embed dl sender rc =
     (let m = dl_message dl in
      seq (query (the_realm (u_realm sender))) (\<lambda>sender_realm.
      andthen (if INLINE_URL_EMBED_PREVIEW E \<and> rm_inline_url_embed_preview sender_realm \<and> links_for_embed \<noteq> []
               then queue_json_publish ''embed_links'' [(''message_id'', PInt (m_id m)), (''message_content'', PStr (m_content m)),
                      (''message_realm_id'', PInt (og_realm (dl_out dl))), (''urls'', PList (map PStr links_for_embed))]
               else ret ())
      (andthen (if ENABLE_FEEDBACK E \<and> rc_type rc = PERSONAL \<and> FEEDBACK_BOT E \<in> set (map u_email (dl_recipients dl))
                then seq (message_to_dict E m False) (queue_json_publish ''feedback_messages'') else ret ())
      (for_each (\<lambda>(queue_name, events). for_each (\<lambda>(trigger, uid).
           seq (message_to_dict E m False) (\<lambda>dct. queue_json_publish queue_name
             [(''message'', PDict dct), (''trigger'', PStr trigger), (''user_profile_id'', PInt uid), (''failed_tries'', PInt 0)]))
         events) (service_queue_events dl (rc_type rc) (u_is_bot sender))))))"

definition send_message_notices :: "send_env \<Rightarrow> string list \<Rightarrow> delivery \<Rightarrow> unit act" where
  "send_message_notices E links_for_embed dl =
     seq (query (get_user_profile_by_id (m_sender (dl_message dl)))) (\<lambda>sender.
     seq (query (message_recipient (dl_message dl))) (\<lambda>rc.
     seq (message_event E dl sender rc) (\<lambda>event.
     andthen (send_event event (map (message_user (user_flags dl)) (dl_active dl)))
       (publish_message_jobs E links_for_embed dl sender rc))))"

definition do_send_messages :: "send_env \<Rightarrow> prepared option list \<Rightarrow> int list act" where
  "do_send_messages E messages_maybe_none =
     (let prepared = concat (map (\<lambda>p. case p of None \<Rightarrow> [] | Some x \<Rightarrow> [x]) messages_maybe_none);
          already_sent_ids = concat (map (\<lambda>p. case p of AlreadySent i \<Rightarrow> [i] | NewMessage _ \<Rightarrow> []) prepared);
          new_messages = concat (map (\<lambda>p. case p of AlreadySent _ \<Rightarrow> [] | NewMessage og \<Rightarrow> [og]) prepared) in
      seq (query (\<lambda>d. emap (\<lambda>og. prepare_delivery og d) new_messages)) (\<lambda>ps.
      seq (query (\<lambda>d. emap (\<lambda>p. render_delivery E p d) ps)) (\<lambda>dls.
      let links_for_embed = remdups (concat (map (\<lambda>dl. r_links_for_preview (dl_rendering dl)) dls));
          dls = map (\<lambda>dl. set_message (update_calculated_fields (se_settings E) (dl_message dl)) dl) dls in
      seq (store_messages dls) (\<lambda>dls.
      andthen (for_each (send_message_notices E links_for_embed) dls)
        (ret (already_sent_ids @ map (\<lambda>dl. m_id (dl_message dl)) dls))))))"

section \<open>The recipient of a private message\<close>

definition set_add :: "'a \<Rightarrow> 'a list \<Rightarrow> 'a list" where
  "set_add x xs = (if x \<in> set xs then xs else xs @ [x])"

lemma set_set_add [simp]: "set (set_add x xs) = insert x (set xs)"
  by (auto simp: set_add_def)

lemma distinct_set_add [simp]: "distinct xs \<Longrightarrow> distinct (set_add x xs)"
  by (simp add: set_add_def)

definition new_subscription :: "int \<Rightarrow> int \<Rightarrow> subscription" where
  "new_subscription uid recipient_id =
     \<lparr>sub_user_profile = uid, sub_recipient = recipient_id, sub_active = True, sub_in_home_view = Some True,
      sub_color = ''#c2c2c2'', sub_pin_to_top = False, sub_desktop_notifications = True,
      sub_audible_notifications = True, sub_notifications = False\<rparr>"

text \<open>\<open>get_huddle\<close>; the table keeps the string that is digested, not its digest.\<close>

definition get_huddle :: "int list \<Rightarrow> int act" where
  "get_huddle id_list =
     (let key = huddle_hash_key id_list in
      seq (lookup (\<lambda>d. find (\<lambda>h. snd h = key) (huddle_hashes d))) (\<lambda>found.
        case found of
          Some h \<Rightarrow> ret (fst h)
        | None \<Rightarrow> atomic
            (seq fresh_id (\<lambda>huddle_id.
             seq fresh_id (\<lambda>recipient_id.
             andthen (modify_db (\<lambda>d. d\<lparr>huddle_hashes := huddle_hashes d @ [(huddle_id, key)],
                 recipients := recipients d @ [\<lparr>rc_id = recipient_id, rc_type_id = huddle_id, rc_type = HUDDLE\<rparr>],
                 subscriptions := subscriptions d @ map (\<lambda>uid. new_subscription uid recipient_id) id_list\<rparr>))
               (ret huddle_id))))))"

text \<open>The loop over the addresses collects the ids of the recipients and the realms.\<close>

definition add_email :: "send_env \<Rightarrow> db \<Rightarrow> int list \<times> int list \<Rightarrow> string \<Rightarrow> pyerr + int list \<times> int list" where
  "add_email E d st email =
     (case st of (ids, rlms) \<Rightarrow>
       ebind (case get_user_profile_by_email email d of
                Inl (DoesNotExist _) \<Rightarrow> Inl (ValidationError (''Invalid email '' @ quoted email)) | r \<Rightarrow> r) (\<lambda>u.
       ebind (the_realm (u_realm u) d) (\<lambda>r.
         if (\<not> u_is_active u \<and> \<not> u_is_mirror_dummy u) \<or> rm_deactivated r
         then Inl (ValidationError (quoted email @ '' is no longer using Zulip.''))
         else Inr (set_add (u_id u) ids,
                if email \<notin> set (CROSS_REALM_BOT_EMAILS (se_settings E)) then set_add (u_realm u) rlms else rlms))))"

definition recipient_profile_ids ::
  "send_env \<Rightarrow> string list \<Rightarrow> bool \<Rightarrow> user_profile option \<Rightarrow> user_profile \<Rightarrow> db \<Rightarrow> pyerr + int list" where
  "recipient_profile_ids E emails not_forged_mirror_message forwarder sender d =
     ebind (efold (add_email E d)
       ([], if u_email sender \<notin> set (CROSS_REALM_BOT_EMAILS (se_settings E)) then [u_realm sender] else []) emails) (\<lambda>(ids, rlms).
     ebind (if not_forged_mirror_message then
              (case forwarder of
                 None \<Rightarrow> Inl (AssertionError [])
               | Some f \<Rightarrow> if u_id f \<notin> set ids then Inl (ValidationError ''User not authorized for this query'') else Inr ())
            else Inr ()) (\<lambda>_.
     if length rlms > 1 then Inl (ValidationError ''You can't send private messages outside of your organization.'')
     else Inr (if length ids = 2 \<and> u_id sender \<in> set ids then removeAll (u_id sender) ids else ids)))"

definition recipient_for_emails ::
  "send_env \<Rightarrow> string list \<Rightarrow> bool \<Rightarrow> user_profile option \<Rightarrow> user_profile \<Rightarrow> recipient act" where
  "recipient_for_emails E emails not_forged_mirror_message forwarder sender =
     seq (query (recipient_profile_ids E emails not_forged_mirror_message forwarder sender)) (\<lambda>ids.
       if length ids > 1 then
         seq (get_huddle (set_add (u_id sender) ids)) (\<lambda>huddle_id. query (get_recipient HUDDLE huddle_id))
       else case ids of
              [] \<Rightarrow> raise IndexError
            | i # _ \<Rightarrow> query (get_recipient PERSONAL i))"

section \<open>Checking a message\<close>

definition already_sent_mirrored_message_id :: "message \<Rightarrow> int \<Rightarrow> db \<Rightarrow> int option" where
  "already_sent_mirrored_message_id m recipient_type d =
     (let time_window = (if recipient_type = HUDDLE then 10 else 0)
      in map_option m_id (db_first (\<lambda>x. m_sender x = m_sender m \<and> m_recipient x = m_recipient m \<and>
           m_content x = m_content m \<and> m_subject x = m_subject m \<and> m_sending_client x = m_sending_client m \<and>
           m_pub_date m - time_window \<le> m_pub_date x \<and> m_pub_date x \<le> m_pub_date m + time_window) (messages d)))"

definition new_message :: "int \<Rightarrow> string \<Rightarrow> int \<Rightarrow> string \<Rightarrow> rat \<Rightarrow> int \<Rightarrow> message" where
  "new_message sender content recipient_id subject pub_date client_id =
     \<lparr>m_id = 0, m_sender = sender, m_recipient = recipient_id, m_subject = subject, m_content = content,
      m_rendered_content = None, m_rendered_content_version = None, m_pub_date = pub_date,
      m_sending_client = client_id, m_last_edit_time = None, m_edit_history = None,
      m_has_attachment = False, m_has_image = False, m_has_link = False\<rparr>"

definition may_send_to_private_stream :: "send_env \<Rightarrow> user_profile \<Rightarrow> user_profile option \<Rightarrow> stream \<Rightarrow> db \<Rightarrow> bool" where
  "may_send_to_private_stream E sender forwarder st d \<longleftrightarrow>
     subscribed_to_stream (u_id sender) st d \<or>
     (u_is_api_super_user sender \<or> (case forwarder of None \<Rightarrow> False | Some f \<Rightarrow> u_is_api_super_user f)) \<or>
     (u_is_bot sender \<and> (case u_bot_owner sender of None \<Rightarrow> False | Some o1 \<Rightarrow> subscribed_to_stream o1 st d)) \<or>
     u_email sender = WELCOME_BOT E"

text \<open>
  The topic and the recipient of a stream message; \<open>warn\<close> is the warning to the owner of a bot
  that sends to a stream nobody reads.
\<close>

type_synonym warning = "user_profile \<Rightarrow> stream option \<Rightarrow> string \<Rightarrow> int \<Rightarrow> unit act"

definition check_stream_message ::
  "warning \<Rightarrow> send_env \<Rightarrow> user_profile \<Rightarrow> string list \<Rightarrow> string option \<Rightarrow> int \<Rightarrow> user_profile option \<Rightarrow>
   (recipient \<times> string \<times> stream option) act" where
  "check_stream_message warn E sender message_to subject_name realm_id forwarder =
     (if length message_to > 1 then raise (JsonableError ''Cannot send to multiple streams'')
      else
        let stream_name = str_strip (hd message_to) in
        seq (query (\<lambda>_. check_stream_name stream_name)) (\<lambda>_.
        case subject_name of
          None \<Rightarrow> raise (JsonableError ''Missing topic'')
        | Some subject_name \<Rightarrow>
            let subject = str_strip subject_name in
            if subject = [] then raise (JsonableError ''Topic can't be empty'')
            else
              seq (try_except
                (seq (query (get_stream stream_name realm_id)) (\<lambda>st.
                   andthen (warn sender (Some st) stream_name realm_id) (ret st)))
                (\<lambda>e. if e = DoesNotExist ''Stream'' then
                   Some (andthen (warn sender None stream_name realm_id)
                     (raise (JsonableError (''Stream '' @ quoted (html_escape stream_name) @ '' does not exist''))))
                 else None)) (\<lambda>st.
              seq (query (get_recipient STREAM (st_id st))) (\<lambda>rc.
              seq (lookup (may_send_to_private_stream E sender forwarder st)) (\<lambda>may.
                if st_invite_only st \<noteq> Some True \<or> may then ret (rc, truncate_topic subject, Some st)
                else raise (JsonableError (''Not authorized to send to stream '' @ quoted (st_name st))))))))"

definition check_private_message ::
  "send_env \<Rightarrow> user_profile \<Rightarrow> string \<Rightarrow> string list \<Rightarrow> bool \<Rightarrow> user_profile option \<Rightarrow> (recipient \<times> string \<times> stream option) act" where
  "check_private_message E sender client_name message_to forged forwarder =
     (let mirror_message = client_name \<in> set [''zephyr_mirror'', ''irc_mirror'', ''jabber_mirror'', ''JabberMirror''];
          not_forged_mirror_message = mirror_message \<and> \<not> forged in
      try_except
        (seq (recipient_for_emails E message_to not_forged_mirror_message forwarder sender) (\<lambda>rc. ret (rc, [], None)))
        (\<lambda>e. case e of ValidationError msg \<Rightarrow> Some (raise (JsonableError msg)) | _ \<Rightarrow> None))"

definition default_message_to :: "user_profile \<Rightarrow> string list \<Rightarrow> string \<Rightarrow> db \<Rightarrow> pyerr + string list" where
  "default_message_to sender message_to message_type_name d =
     (case u_default_sending_stream sender of
        Some i \<Rightarrow> if message_to = [] \<and> message_type_name = ''stream''
                  then ebind (db_get ''Stream'' (\<lambda>s. st_id s = i) (streams d)) (\<lambda>s. Inr [st_name s])
                  else Inr message_to
      | None \<Rightarrow> Inr message_to)"

definition check_message_gen ::
  "warning \<Rightarrow> send_env \<Rightarrow> user_profile \<Rightarrow> int \<times> string \<Rightarrow> string \<Rightarrow> string list \<Rightarrow> string option \<Rightarrow> string \<Rightarrow>
   int option \<Rightarrow> bool \<Rightarrow> rat option \<Rightarrow> user_profile option \<Rightarrow> string option \<Rightarrow> string option \<Rightarrow> prepared act" where
  "check_message_gen warn E sender client message_type_name message_to subject_name message_content_raw
     rlm forged forged_timestamp forwarder local_id sender_queue_id =
     seq (query (default_message_to sender message_to message_type_name)) (\<lambda>message_to.
     if message_to = [] then raise (JsonableError ''Message must have recipients'')
     else
       let message_content = str_rstrip message_content_raw in
       if message_content = [] then raise (JsonableError ''Message must not be empty'')
       else
         let message_content = truncate_body message_content;
             realm_id = (case rlm of None \<Rightarrow> u_realm sender | Some r \<Rightarrow> r) in
         seq (if message_type_name = ''stream''
              then check_stream_message warn E sender message_to subject_name realm_id forwarder
              else if message_type_name = ''private''
              then check_private_message E sender (snd client) message_to forged forwarder
              else raise (JsonableError ''Invalid message type'')) (\<lambda>(rc, subject, st).
         seq timezone_now (\<lambda>now.
         let pub_date = (case forged_timestamp of Some t \<Rightarrow> if forged then t else now | None \<Rightarrow> now);
             m = new_message (u_id sender) message_content (rc_id rc) subject pub_date (fst client) in
         seq (lookup (already_sent_mirrored_message_id m (rc_type rc))) (\<lambda>sent.
           case sent of
             Some i \<Rightarrow> if snd client = ''zephyr_mirror'' then ret (AlreadySent i)
                       else ret (NewMessage \<lparr>og_message = m, og_client = client, og_stream = st,
                         og_local_id = local_id, og_sender_queue_id = sender_queue_id, og_realm = realm_id\<rparr>)
           | None \<Rightarrow> ret (NewMessage \<lparr>og_message = m, og_client = client, og_stream = st,
                         og_local_id = local_id, og_sender_queue_id = sender_queue_id, og_realm = realm_id\<rparr>)))))"

section \<open>Streams on demand and internal messages\<close>

definition create_stream_if_needed :: "send_env \<Rightarrow> int \<Rightarrow> string \<Rightarrow> bool \<Rightarrow> string \<Rightarrow> (stream \<times> bool) act" where
  "create_stream_if_needed E realm_id stream_name invite_only stream_description =
     (\<lambda>s. case db_get ''Stream'' (\<lambda>x. st_realm x = realm_id \<and> str_lower (st_name x) = str_lower stream_name)
             (streams (sv_db s)) of
       Inr st \<Rightarrow> (Inr (st, False), s)
     | Inl (DoesNotExist _) \<Rightarrow>
         seq fresh_id (\<lambda>stream_id.
         seq fresh_id (\<lambda>recipient_id.
         seq timezone_now (\<lambda>now.
         let st = \<lparr>st_id = stream_id, st_name = stream_name, st_realm = realm_id, st_invite_only = Some invite_only,
                   st_email_token = new_email_token E stream_id, st_description = stream_description,
                   st_date_created = now, st_deactivated = False\<rparr> in
         andthen (modify_db (\<lambda>d. d\<lparr>streams := streams d @ [st],
             recipients := recipients d @ [\<lparr>rc_id = recipient_id, rc_type_id = stream_id, rc_type = STREAM\<rparr>]\<rparr>))
         (andthen (if \<not> invite_only
                   then seq (lookup (active_user_ids realm_id)) (\<lambda>ids. send_event
                     [(''type'', PStr ''stream''), (''op'', PStr ''create''),
                      (''streams'', PList [PDict (stream_to_dict st)])] (map PInt ids))
                   else ret ())
           (ret (st, True)))))) s
     | Inl e \<Rightarrow> (Inl e, s))"

definition create_streams_if_needed ::
  "send_env \<Rightarrow> int \<Rightarrow> (string \<times> bool \<times> string) list \<Rightarrow> (stream list \<times> stream list) act" where
  "create_streams_if_needed E realm_id stream_dicts =
     seq (collect (\<lambda>(name, invite_only, description). create_stream_if_needed E realm_id name invite_only description) stream_dicts)
       (\<lambda>rs. ret (map fst (filter snd rs), map fst (filter (\<lambda>r. \<not> snd r) rs)))"

definition internal_prep_message_gen ::
  "warning \<Rightarrow> send_env \<Rightarrow> int option \<Rightarrow> user_profile \<Rightarrow> string \<Rightarrow> string list \<Rightarrow> string \<Rightarrow> string \<Rightarrow> prepared option act" where
  "internal_prep_message_gen warn E rlm sender recipient_type_name parsed_recipients subject content =
     (let content = (if length content > MAX_MESSAGE_LENGTH
            then take 3900 content @ ''\<newline>\<newline>[message was too long and has been truncated]'' else content) in
      case rlm of
        None \<Rightarrow> raise (OtherError ''RuntimeError'')
      | Some realm_id \<Rightarrow>
          andthen (if recipient_type_name = ''stream''
                   then seq (create_stream_if_needed E realm_id (hd parsed_recipients) False []) (\<lambda>_. ret ())
                   else ret ())
          (try_except
            (seq (get_or_create_client ''Internal'') (\<lambda>client.
               seq (check_message_gen warn E sender client recipient_type_name parsed_recipients (Some subject) content
                      (Some realm_id) False None None None None) (\<lambda>p. ret (Some p))))
            (\<lambda>e. case e of
               JsonableError msg \<Rightarrow> Some (andthen (log_line (''Error queueing internal message by '' @ u_email sender @ '': '' @ msg))
                 (ret None))
             | _ \<Rightarrow> None)))"

text \<open>A private message needs no warning: \<open>check_message\<close> only warns about streams.\<close>

definition no_warning :: warning where
  "no_warning sender st stream_name realm_id = ret ()"

definition internal_prep_private_message ::
  "send_env \<Rightarrow> int option \<Rightarrow> user_profile \<Rightarrow> string \<Rightarrow> string \<Rightarrow> prepared option act" where
  "internal_prep_private_message E rlm sender recipient_email content =
     internal_prep_message_gen no_warning E rlm sender ''private'' [recipient_email] [] content"

definition internal_send_private_message :: "send_env \<Rightarrow> int option \<Rightarrow> user_profile \<Rightarrow> string \<Rightarrow> string \<Rightarrow> unit act" where
  "internal_send_private_message E rlm sender recipient_email content =
     seq (internal_prep_private_message E rlm sender recipient_email content) (\<lambda>msg.
       if msg = None then ret () else seq (do_send_messages E [msg]) (\<lambda>_. ret ()))"

definition send_pm_if_empty_stream :: "send_env \<Rightarrow> warning" where
  "send_pm_if_empty_stream E sender st stream_name realm_id =
     seq (query (the_realm (u_realm sender))) (\<lambda>sender_realm.
     if is_zephyr_mirror_realm sender_realm \<or> rm_deactivated sender_realm then ret ()
     else case (u_is_bot sender, u_bot_owner sender) of
       (True, Some owner_id) \<Rightarrow>
         if u_realm sender \<noteq> realm_id then ret ()
         else
           seq (lookup (\<lambda>d. case st of None \<Rightarrow> 0 | Some x \<Rightarrow> num_subscribers x d)) (\<lambda>subscriber_count.
           if subscriber_count > 0 then ret ()
           else
             seq timezone_now (\<lambda>now.
             if (case u_last_reminder sender of None \<Rightarrow> False | Some t \<Rightarrow> now - t \<le> 60) then ret ()
             else
               let error_msg = (case st of
                     None \<Rightarrow> ''that stream does not yet exist. To create it, ''
                   | Some _ \<Rightarrow> ''there are no subscribers to that stream. To join it, '');
                   content = ''Hi there! We thought you'd like to know that your bot **'' @ u_full_name sender @
                     ''** just tried to send a message to stream `'' @ stream_name @ ''`, but '' @ error_msg @
                     ''click the gear in the left-side stream list.'' in
               seq (query (get_system_bot (NOTIFICATION_BOT E))) (\<lambda>bot.
               seq (query (get_user_profile_by_id owner_id)) (\<lambda>owner.
               andthen (internal_send_private_message E (Some realm_id) bot (u_email owner) content)
                 (modify_db (\<lambda>d. d\<lparr>users := map (\<lambda>u. if u_id u = u_id sender
                    then u\<lparr>u_last_reminder := Some now\<rparr> else u) (users d)\<rparr>))))))
     | _ \<Rightarrow> ret ())"

definition check_message ::
  "send_env \<Rightarrow> user_profile \<Rightarrow> int \<times> string \<Rightarrow> string \<Rightarrow> string list \<Rightarrow> string option \<Rightarrow> string \<Rightarrow>
   int option \<Rightarrow> bool \<Rightarrow> rat option \<Rightarrow> user_profile option \<Rightarrow> string option \<Rightarrow> string option \<Rightarrow> prepared act" where
  "check_message E = check_message_gen (send_pm_if_empty_stream E) E"

definition check_send_message ::
  "send_env \<Rightarrow> user_profile \<Rightarrow> int \<times> string \<Rightarrow> string \<Rightarrow> string list \<Rightarrow> string option \<Rightarrow> string \<Rightarrow>
   int option \<Rightarrow> bool \<Rightarrow> rat option \<Rightarrow> user_profile option \<Rightarrow> string option \<Rightarrow> string option \<Rightarrow> int act" where
  "check_send_message E sender client message_type_name message_to subject_name body
     rlm forged forged_timestamp forwarder local_id sender_queue_id =
     seq (check_message E sender client message_type_name message_to subject_name body
            rlm forged forged_timestamp forwarder local_id sender_queue_id) (\<lambda>p.
     seq (do_send_messages E [Some p]) (\<lambda>ids. case ids of [] \<Rightarrow> raise IndexError | i # _ \<Rightarrow> ret i))"

definition internal_prep_message ::
  "send_env \<Rightarrow> int option \<Rightarrow> string \<Rightarrow> string \<Rightarrow> string list \<Rightarrow> string \<Rightarrow> string \<Rightarrow> prepared option act" where
  "internal_prep_message E rlm sender_email recipient_type_name parsed_recipients subject content =
     seq (query (get_system_bot sender_email)) (\<lambda>sender.
       internal_prep_message_gen (send_pm_if_empty_stream E) E rlm sender recipient_type_name parsed_recipients subject content)"

definition internal_prep_stream_message ::
  "send_env \<Rightarrow> int option \<Rightarrow> user_profile \<Rightarrow> string \<Rightarrow> string \<Rightarrow> string \<Rightarrow> prepared option act" where
  "internal_prep_stream_message E rlm sender stream_name topic content =
     internal_prep_message_gen (send_pm_if_empty_stream E) E rlm sender ''stream'' [stream_name] topic content"

definition internal_send_message ::
  "send_env \<Rightarrow> int option \<Rightarrow> string \<Rightarrow> string \<Rightarrow> string list \<Rightarrow> string \<Rightarrow> string \<Rightarrow> unit act" where
  "internal_send_message E rlm sender_email recipient_type_name parsed_recipients subject content =
     seq (internal_prep_message E rlm sender_email recipient_type_name parsed_recipients subject content) (\<lambda>msg.
       if msg = None then ret () else seq (do_send_messages E [msg]) (\<lambda>_. ret ()))"

end
