(* ===== verification/SendingProps.thy ===== *)
theory SendingProps
  imports Sending
begin

text \<open>
  What sending promises: the rows and flags of the recipients, who the event of a message
  names, what a checked message looks like, whom a private message reaches, and that
  attachments are only shared by users who may see them.
\<close>

section \<open>Dictionaries of rendered messages leave the database alone\<close>

definition rendered :: "send_env \<Rightarrow> message \<Rightarrow> bool" where
  "rendered E m \<longleftrightarrow> \<not> need_to_render_content (m_rendered_content m) (m_rendered_content_version m) (bugdown_version (se_render E))"

lemma message_content_db:
  "message_content E b msg a d = Inr (c, d') \<Longrightarrow>
   \<not> need_to_render_content (ma_rendered_content a) (ma_rendered_content_version a) (bugdown_version E) \<Longrightarrow> d' = d"
  by (auto simp: message_content_def split: if_splits)

lemma build_message_dict_db:
  "build_message_dict E b msg a d = Inr (dct, d') \<Longrightarrow>
   \<not> need_to_render_content (ma_rendered_content a) (ma_rendered_content_version a) (bugdown_version E) \<Longrightarrow> d' = d"
  by (auto simp: build_message_dict_def Let_def dest: message_content_db)

lemma to_dict_db:
  "to_dict_uncached_helper E m b d = Inr (dct, d') \<Longrightarrow>
   \<not> need_to_render_content (m_rendered_content m) (m_rendered_content_version m) (bugdown_version E) \<Longrightarrow> d' = d"
  by (auto simp: to_dict_uncached_helper_def dest: build_message_dict_db)

lemma message_to_dict_db: "rendered E m \<Longrightarrow> preserves sv_db (message_to_dict E m b)"
  by (auto simp: preserves_def message_to_dict_def rendered_def split: sum.splits dest: to_dict_db)

lemma message_to_dict_others [preserves_intros]:
  "preserves sv_events (message_to_dict E m b)" "preserves sv_jobs (message_to_dict E m b)"
  "preserves sv_next_id (message_to_dict E m b)"
  by (auto simp: preserves_def message_to_dict_def split: sum.splits prod.splits)

section \<open>Claiming attachments touches attachments only\<close>

lemma claim_attachment_keeps:
  assumes "\<And>d f. g (d\<lparr>attachments := f\<rparr>) = g d"
  shows "preserves (\<lambda>s. g (sv_db s)) (claim_attachment path_id message_id public)"
  unfolding claim_attachment_def by (intro preserves_intros) (simp add: assms)

lemma log_line_db [preserves_intros]: "preserves (\<lambda>s. g (sv_db s)) (log_line l)"
  by (simp add: preserves_def)

lemma do_claim_keeps:
  assumes "\<And>d f. g (d\<lparr>attachments := f\<rparr>) = g d"
  shows "preserves (\<lambda>s. g (sv_db s)) (do_claim_attachments m)"
  unfolding do_claim_attachments_def claim_url_def
  by (intro preserves_intros claim_attachment_keeps assms)

lemma claim_message_keeps:
  assumes "\<And>d f. g (d\<lparr>attachments := f\<rparr>) = g d"
  shows "preserves (\<lambda>s. g (sv_db s)) (claim_message_attachments dl)"
  unfolding claim_message_attachments_def by (intro preserves_intros do_claim_keeps assms)

lemma claim_next_id [preserves_intros]:
  "preserves sv_next_id (claim_message_attachments dl)" "preserves sv_events (claim_message_attachments dl)"
  "preserves sv_jobs (claim_message_attachments dl)"
  unfolding claim_message_attachments_def do_claim_attachments_def claim_url_def claim_attachment_def Let_def
  by (intro preserves_intros)+

section \<open>Sending one message\<close>

definition with_id :: "int \<Rightarrow> delivery \<Rightarrow> delivery" where
  "with_id i dl = set_message ((dl_message dl)\<lparr>m_id := i\<rparr>) dl"

lemma dl_message_set [simp]: "dl_message (set_message m dl) = m"
  by (simp add: dl_message_def set_message_def)

lemma set_message_others [simp]:
  "dl_active (set_message m dl) = dl_active dl" "dl_recipients (set_message m dl) = dl_recipients dl"
  "dl_rendering (set_message m dl) = dl_rendering dl"
  "og_client (dl_out (set_message m dl)) = og_client (dl_out dl)"
  "og_stream (dl_out (set_message m dl)) = og_stream (dl_out dl)"
  by (simp_all add: set_message_def)

lemma atomic_Inr: "atomic m s = (Inr x, s') \<longleftrightarrow> m s = (Inr x, s')"
  by (auto simp: atomic_def split: prod.splits sum.splits)

lemma store_one:
  assumes "store_messages [dl] s = (Inr dls, t)"
  defines "dl1 \<equiv> with_id (sv_next_id s) dl"
  shows "dls = [dl1]" and "messages (sv_db t) = messages (sv_db s) @ [dl_message dl1]"
    and "user_messages (sv_db t) = user_messages (sv_db s) @ ums_to_create dl1"
    and "sv_events t = sv_events s" and "sv_jobs t = sv_jobs s" and "sv_next_id t = sv_next_id s + 1"
    and "recipients (sv_db t) = recipients (sv_db s)" and "streams (sv_db t) = streams (sv_db s)"
    and "realms (sv_db t) = realms (sv_db s)" and "users (sv_db t) = users (sv_db s)"
proof -
  let ?s1 = "s\<lparr>sv_next_id := sv_next_id s + 1,
      sv_db := (sv_db s)\<lparr>messages := messages (sv_db s) @ [dl_message dl1],
        user_messages := user_messages (sv_db s) @ ums_to_create dl1\<rparr>\<rparr>"
  have run: "dls = [dl1] \<and> claim_message_attachments dl1 ?s1 = (Inr (), t)"
    using assms(1)
    by (auto simp: store_messages_def atomic_Inr seq_Inr andthen_Inr create_message_def Let_def dl1_def with_id_def)
  then show "dls = [dl1]" by simp
  from run have claim: "claim_message_attachments dl1 ?s1 = (Inr (), t)" by simp
  show "messages (sv_db t) = messages (sv_db s) @ [dl_message dl1]"
    using preservesD[OF claim_message_keeps[of messages] claim] by simp
  show "user_messages (sv_db t) = user_messages (sv_db s) @ ums_to_create dl1"
    using preservesD[OF claim_message_keeps[of user_messages] claim] by simp
  show "recipients (sv_db t) = recipients (sv_db s)" using preservesD[OF claim_message_keeps[of recipients] claim] by simp
  show "streams (sv_db t) = streams (sv_db s)" using preservesD[OF claim_message_keeps[of streams] claim] by simp
  show "realms (sv_db t) = realms (sv_db s)" using preservesD[OF claim_message_keeps[of realms] claim] by simp
  show "users (sv_db t) = users (sv_db s)" using preservesD[OF claim_message_keeps[of users] claim] by simp
  show "sv_events t = sv_events s" "sv_jobs t = sv_jobs s" "sv_next_id t = sv_next_id s + 1"
    using preservesD[OF claim_next_id(2) claim] preservesD[OF claim_next_id(3) claim] preservesD[OF claim_next_id(1) claim]
    by simp_all
qed

lemma message_event_keeps:
  "rendered E (dl_message dl) \<Longrightarrow> preserves sv_db (message_event E dl sender rc)"
  "preserves sv_events (message_event E dl sender rc)" "preserves sv_jobs (message_event E dl sender rc)"
  "preserves sv_next_id (message_event E dl sender rc)"
  unfolding message_event_def Let_def
  by (intro preserves_intros message_to_dict_db; assumption)+

lemma publish_jobs_keeps:
  "rendered E (dl_message dl) \<Longrightarrow> preserves sv_db (publish_message_jobs E links dl sender rc)"
  "preserves sv_events (publish_message_jobs E links dl sender rc)"
  "preserves sv_next_id (publish_message_jobs E links dl sender rc)"
  unfolding publish_message_jobs_def Let_def
  by (intro preserves_intros message_to_dict_db; assumption)+

lemma notices_keep_db: "rendered E (dl_message dl) \<Longrightarrow> preserves sv_db (send_message_notices E links dl)"
  unfolding send_message_notices_def by (intro preserves_intros message_event_keeps publish_jobs_keeps)

text \<open>The event of a message: the fields of its stream are those of \<open>stream_event_fields\<close>.\<close>

lemma message_event_fields:
  assumes "message_event E dl sender rc t = (Inr event, t')" and "rendered E (dl_message dl)"
  shows "\<exists>fields. stream_event_fields dl rc (sv_db t) = Inr fields \<and>
    map_of event ''type'' = Some (PStr ''message'') \<and> map_of event ''message'' = Some (PInt (m_id (dl_message dl))) \<and>
    map_of event ''realm_id'' = map_of fields ''realm_id'' \<and> map_of event ''stream_name'' = map_of fields ''stream_name'' \<and>
    map_of event ''invite_only'' = map_of fields ''invite_only''"
proof -
  have same: "sv_db u' = sv_db u" if "message_to_dict E (dl_message dl) b u = (r, u')" for b r u u'
    using preservesD[OF message_to_dict_db[OF assms(2)] that] .
  have "\<exists>fields. stream_event_fields dl rc (sv_db t) = Inr fields \<and> (\<exists>l1 l2 v1 v2 v3 v4.
      event = [(''type'', PStr ''message''), (''message'', PInt (m_id (dl_message dl))),
            (''message_dict_markdown'', v1), (''message_dict_no_markdown'', v2), (''presences'', v3)] @ fields @ l1 @ l2 \<and>
      l1 = (case og_local_id (dl_out dl) of None \<Rightarrow> [] | Some i \<Rightarrow> [(''local_id'', PStr i)]) \<and>
      l2 = (case og_sender_queue_id (dl_out dl) of None \<Rightarrow> [] | Some i \<Rightarrow> [(''sender_queue_id'', PStr i)]))"
    using assms(1) by (auto simp: message_event_def Let_def seq_Inr dest!: same)
  then show ?thesis by (auto simp: map_add_def split: option.splits)
qed

lemma notices_event:
  assumes "send_message_notices E links dl t = (Inr (), s')" and "rendered E (dl_message dl)"
  shows "\<exists>rc event fields. message_recipient (dl_message dl) (sv_db t) = Inr rc \<and>
    sv_events s' = sv_events t @ [(event, map (message_user (user_flags dl)) (dl_active dl))] \<and>
    stream_event_fields dl rc (sv_db t) = Inr fields \<and>
    map_of event ''type'' = Some (PStr ''message'') \<and> map_of event ''message'' = Some (PInt (m_id (dl_message dl))) \<and>
    map_of event ''realm_id'' = map_of fields ''realm_id'' \<and> map_of event ''stream_name'' = map_of fields ''stream_name'' \<and>
    map_of event ''invite_only'' = map_of fields ''invite_only''"
proof -
  obtain sender rc event t1 where rc: "message_recipient (dl_message dl) (sv_db t) = Inr rc"
    and ev: "message_event E dl sender rc t = (Inr event, t1)"
    and rest: "andthen (send_event event (map (message_user (user_flags dl)) (dl_active dl)))
       (publish_message_jobs E links dl sender rc) t1 = (Inr (), s')"
    using assms(1) by (auto simp: send_message_notices_def seq_Inr)
  let ?t2 = "t1\<lparr>sv_events := sv_events t1 @ [(event, map (message_user (user_flags dl)) (dl_active dl))]\<rparr>"
  have "publish_message_jobs E links dl sender rc ?t2 = (Inr (), s')" using rest by (simp add: andthen_Inr)
  then have "sv_events s' = sv_events ?t2" by (rule preservesD[OF publish_jobs_keeps(2)])
  moreover have "sv_events t1 = sv_events t" by (rule preservesD[OF message_event_keeps(2) ev])
  ultimately show ?thesis using rc message_event_fields[OF ev assms(2)] by auto
qed

subsection \<open>The flags of the rows\<close>

definition flag_sum :: "bool \<Rightarrow> bool \<Rightarrow> bool \<Rightarrow> bool \<Rightarrow> bool \<Rightarrow> int" where
  "flag_sum rd wild ment alert me =
     (let flags = (if rd then 1 else 0);
          flags = (if wild then or flags 16 else flags);
          flags = (if ment then or flags 8 else flags);
          flags = (if alert then or flags 512 else flags)
      in if me then or flags 2048 else flags)"

lemma um_flags_sum:
  "um_flags_for dl uid = flag_sum (uid = m_sender (dl_message dl) \<and> sent_by_human (snd (og_client (dl_out dl))))
     (r_mentions_wildcard (dl_rendering dl)) (uid \<in> set (r_mentions_user_ids (dl_rendering dl)))
     (uid \<in> set (r_user_ids_with_alert_words (dl_rendering dl))) (r_is_me_message (dl_rendering dl))"
  by (simp add: um_flags_for_def flag_sum_def Let_def)

lemma parse_flag_sum:
  "parse_usermessage_flags (flag_sum rd wild ment alert me) =
     (if rd then [''read''] else []) @ (if ment then [''mentioned''] else []) @
     (if wild then [''wildcard_mentioned''] else []) @ (if alert then [''has_alert_word''] else []) @
     (if me then [''is_me_message''] else [])"
  by (cases rd; cases wild; cases ment; cases alert; cases me;
      simp add: flag_sum_def parse_usermessage_flags_def ALL_FLAGS_def)

lemma user_flags_of:
  "user_flags dl = map (\<lambda>u. (u_id u, parse_usermessage_flags (um_flags_for dl (u_id u))))
     (filter (\<lambda>u. \<not> is_service_bot u) (dl_active dl))"
  by (simp add: user_flags_def ums_to_create_def comp_def)

subsection \<open>The steps of a successful send\<close>

lemma update_calculated_simps [simp]:
  "m_id (update_calculated_fields S m) = m_id m" "m_sender (update_calculated_fields S m) = m_sender m"
  "m_recipient (update_calculated_fields S m) = m_recipient m" "m_content (update_calculated_fields S m) = m_content m"
  "m_subject (update_calculated_fields S m) = m_subject m"
  "m_rendered_content (update_calculated_fields S m) = m_rendered_content m"
  "m_rendered_content_version (update_calculated_fields S m) = m_rendered_content_version m"
  by (simp_all add: update_calculated_fields_def)

definition send_steps ::
  "send_env \<Rightarrow> outgoing \<Rightarrow> server \<Rightarrow> int list \<Rightarrow> server \<Rightarrow> recipient \<Rightarrow> user_profile list \<Rightarrow> rendered_message \<Rightarrow>
   delivery \<Rightarrow> string list \<Rightarrow> server \<Rightarrow> bool" where
  "send_steps E og s ids s' rc rs r dl links t \<longleftrightarrow>
    message_recipient (og_message og) (sv_db s) = Inr rc \<and>
    get_recipient_user_profiles rc (m_sender (og_message og)) (sv_db s) = Inr rs \<and>
    render_incoming_message E (og_message og) (m_content (og_message og)) (map u_id (filter u_is_active rs)) (og_realm og) (sv_db s) = Inr r \<and>
    dl_active dl = filter u_is_active rs \<and> dl_rendering dl = r \<and>
    dl_message dl = (update_calculated_fields (se_settings E) ((og_message og)\<lparr>m_rendered_content := Some (r_content r),
       m_rendered_content_version := Some (bugdown_version (se_render E))\<rparr>)) \<and>
    og_client (dl_out dl) = og_client og \<and> og_stream (dl_out dl) = og_stream og \<and>
    store_messages [dl] s = (Inr [with_id (sv_next_id s) dl], t) \<and>
    send_message_notices E links (with_id (sv_next_id s) dl) t = (Inr (), s') \<and> ids = [sv_next_id s]"

lemma do_send_one:
  assumes "do_send_messages E [Some (NewMessage og)] s = (Inr ids, s')"
  shows "\<exists>rc rs r dl links t. send_steps E og s ids s' rc rs r dl links t"
proof -
  obtain p dl0 where p: "prepare_delivery og (sv_db s) = Inr p" and dl0: "render_delivery E p (sv_db s) = Inr dl0"
    and rest: "seq (store_messages [set_message (update_calculated_fields (se_settings E) (dl_message dl0)) dl0])
       (\<lambda>dls. andthen (for_each (send_message_notices E (remdups (r_links_for_preview (dl_rendering dl0)))) dls)
        (ret (map (\<lambda>dl. m_id (dl_message dl)) dls))) s = (Inr ids, s')"
    using assms by (auto simp: do_send_messages_def Let_def seq_Inr split: if_splits)
  let ?dl = "set_message (update_calculated_fields (se_settings E) (dl_message dl0)) dl0"
  obtain dls t where st: "store_messages [?dl] s = (Inr dls, t)"
    and notices: "andthen (for_each (send_message_notices E (remdups (r_links_for_preview (dl_rendering dl0)))) dls)
        (ret (map (\<lambda>dl. m_id (dl_message dl)) dls)) t = (Inr ids, s')"
    using rest by (auto simp: seq_Inr)
  have dls: "dls = [with_id (sv_next_id s) ?dl]" by (rule store_one(1)[OF st])
  obtain rc rs where rc: "message_recipient (og_message og) (sv_db s) = Inr rc"
    "get_recipient_user_profiles rc (m_sender (og_message og)) (sv_db s) = Inr rs" and p': "p = (og, rs, filter u_is_active rs)"
    using p by (auto simp: prepare_delivery_def)
  obtain r where r: "render_incoming_message E (og_message og) (m_content (og_message og)) (map u_id (filter u_is_active rs)) (og_realm og) (sv_db s) = Inr r"
    and dl0': "dl0 = \<lparr>dl_out = og\<lparr>og_message := (og_message og)\<lparr>m_rendered_content := Some (r_content r),
                 m_rendered_content_version := Some (bugdown_version (se_render E))\<rparr>\<rparr>,
               dl_recipients = rs, dl_active = filter u_is_active rs, dl_rendering = r\<rparr>"
    using dl0 p' by (auto simp: render_delivery_def split: if_splits)
  have "dl_active ?dl = filter u_is_active rs" "dl_rendering ?dl = r"
    "dl_message ?dl = (update_calculated_fields (se_settings E) ((og_message og)\<lparr>m_rendered_content := Some (r_content r),
       m_rendered_content_version := Some (bugdown_version (se_render E))\<rparr>))"
    "og_client (dl_out ?dl) = og_client og" "og_stream (dl_out ?dl) = og_stream og"
    by (simp_all add: dl0') (simp add: dl_message_def)
  moreover note rc r
  moreover have "send_message_notices E (remdups (r_links_for_preview (dl_rendering dl0))) (with_id (sv_next_id s) ?dl) t = (Inr (), s')"
    and "ids = [sv_next_id s]"
    using notices by (auto simp: dls andthen_Inr with_id_def)
  ultimately show ?thesis using st dls unfolding send_steps_def by blast
qed

lemma with_id_simps [simp]:
  "m_id (dl_message (with_id i dl)) = i" "dl_active (with_id i dl) = dl_active dl"
  "dl_rendering (with_id i dl) = dl_rendering dl" "og_client (dl_out (with_id i dl)) = og_client (dl_out dl)"
  "og_stream (dl_out (with_id i dl)) = og_stream (dl_out dl)"
  "m_sender (dl_message (with_id i dl)) = m_sender (dl_message dl)"
  "m_recipient (dl_message (with_id i dl)) = m_recipient (dl_message dl)"
  "m_rendered_content (dl_message (with_id i dl)) = m_rendered_content (dl_message dl)"
  "m_rendered_content_version (dl_message (with_id i dl)) = m_rendered_content_version (dl_message dl)"
  by (simp_all add: with_id_def)

lemma rendered_sent:
  "dl_message dl = update_calculated_fields S (m\<lparr>m_rendered_content := Some c,
     m_rendered_content_version := Some (bugdown_version (se_render E))\<rparr>) \<Longrightarrow> rendered E (dl_message (with_id i dl))"
  by (simp add: rendered_def need_to_render_content_def)

text \<open>
  C12: A message that is sent is stored once, and every active recipient that is not a service
  bot gets exactly one row for it. The row is flagged as read for a human sender, and as a
  mention, a wildcard mention, an alert or a \<open>/me\<close> message as rendering found.
\<close>

theorem send_stores_rows:
  assumes "do_send_messages E [Some (NewMessage og)] s = (Inr ids, s')"
  shows "\<exists>rc rs r m.
    message_recipient (og_message og) (sv_db s) = Inr rc \<and>
    get_recipient_user_profiles rc (m_sender (og_message og)) (sv_db s) = Inr rs \<and>
    render_incoming_message E (og_message og) (m_content (og_message og)) (map u_id (filter u_is_active rs)) (og_realm og) (sv_db s) = Inr r \<and>
    ids = [sv_next_id s] \<and>
    messages (sv_db s') = messages (sv_db s) @ [m] \<and> m_id m = sv_next_id s \<and> m_content m = m_content (og_message og) \<and>
    m_sender m = m_sender (og_message og) \<and> m_recipient m = m_recipient (og_message og) \<and>
    m_rendered_content m = Some (r_content r) \<and>
    map (\<lambda>x. (um_user_profile x, um_message x, parse_usermessage_flags (um_flags x))) (user_messages (sv_db s')) =
    map (\<lambda>x. (um_user_profile x, um_message x, parse_usermessage_flags (um_flags x))) (user_messages (sv_db s)) @
    map (\<lambda>u. (u_id u, sv_next_id s,
        (if u_id u = m_sender (og_message og) \<and> sent_by_human (snd (og_client og)) then [''read''] else []) @
        (if u_id u \<in> set (r_mentions_user_ids r) then [''mentioned''] else []) @
        (if r_mentions_wildcard r then [''wildcard_mentioned''] else []) @
        (if u_id u \<in> set (r_user_ids_with_alert_words r) then [''has_alert_word''] else []) @
        (if r_is_me_message r then [''is_me_message''] else [])))
      (filter (\<lambda>u. u_is_active u \<and> \<not> is_service_bot u) rs)"
proof -
  obtain rc rs r dl links t where steps: "send_steps E og s ids s' rc rs r dl links t"
    using do_send_one[OF assms] by blast
  then have run:
    "message_recipient (og_message og) (sv_db s) = Inr rc"
    "get_recipient_user_profiles rc (m_sender (og_message og)) (sv_db s) = Inr rs"
    "render_incoming_message E (og_message og) (m_content (og_message og)) (map u_id (filter u_is_active rs)) (og_realm og) (sv_db s) = Inr r"
    "dl_active dl = filter u_is_active rs" "dl_rendering dl = r"
    and msg: "dl_message dl = (update_calculated_fields (se_settings E) ((og_message og)\<lparr>m_rendered_content := Some (r_content r),
       m_rendered_content_version := Some (bugdown_version (se_render E))\<rparr>))"
    and out: "og_client (dl_out dl) = og_client og" "og_stream (dl_out dl) = og_stream og"
    and st: "store_messages [dl] s = (Inr [with_id (sv_next_id s) dl], t)"
    and nt: "send_message_notices E links (with_id (sv_next_id s) dl) t = (Inr (), s')" and ids: "ids = [sv_next_id s]"
    by (simp_all add: send_steps_def)
  have db: "sv_db s' = sv_db t" by (rule preservesD[OF notices_keep_db[OF rendered_sent[OF msg]] nt])
  let ?m = "dl_message (with_id (sv_next_id s) dl)"
  have "messages (sv_db s') = messages (sv_db s) @ [?m]"
    and um: "user_messages (sv_db s') = user_messages (sv_db s) @ ums_to_create (with_id (sv_next_id s) dl)"
    using store_one(2,3)[OF st] db by simp_all
  moreover have "m_content ?m = m_content (og_message og)" "m_sender ?m = m_sender (og_message og)"
    "m_recipient ?m = m_recipient (og_message og)" "m_rendered_content ?m = Some (r_content r)"
    using msg by (simp_all add: with_id_def)
  moreover have "map (\<lambda>x. (um_user_profile x, um_message x, parse_usermessage_flags (um_flags x)))
      (ums_to_create (with_id (sv_next_id s) dl)) =
    map (\<lambda>u. (u_id u, sv_next_id s,
        (if u_id u = m_sender (og_message og) \<and> sent_by_human (snd (og_client og)) then [''read''] else []) @
        (if u_id u \<in> set (r_mentions_user_ids r) then [''mentioned''] else []) @
        (if r_mentions_wildcard r then [''wildcard_mentioned''] else []) @
        (if u_id u \<in> set (r_user_ids_with_alert_words r) then [''has_alert_word''] else []) @
        (if r_is_me_message r then [''is_me_message''] else [])))
      (filter (\<lambda>u. u_is_active u \<and> \<not> is_service_bot u) rs)"
    by (simp add: ums_to_create_def um_flags_sum parse_flag_sum run(4,5) out msg conj_commute)
  ultimately show ?thesis using run(1,2,3) ids by (intro exI[of _ rc] exI[of _ rs] exI[of _ r] exI[of _ ?m]) simp
qed

section \<open>A sample server\<close>

definition demo_render :: render_env where
  "demo_render = \<lparr>ENABLE_GRAVATAR = True, DEFAULT_AVATAR_URI = ''/a'', gravatar_hash = (\<lambda>e. e),
     user_avatar_path_from_ids = (\<lambda>u r. int_str u), backend_avatar_url = (\<lambda>h m. h),
     subject_links = (\<lambda>r t. PList []), bugdown_version = 1,
     bugdown_convert = (\<lambda>c m r w b. Inr \<lparr>r_content = ''<p>'' @ c @ ''</p>'', r_mentions_wildcard = False,
       r_mentions_user_ids = [9], r_alert_words = [], r_links_for_preview = []\<rparr>),
     json_loads = (\<lambda>s. Inr (PList []))\<rparr>"

definition demo_env :: send_env where
  "demo_env = \<lparr>se_settings = demo_settings, se_render = demo_render, WELCOME_BOT = ''w'', NOTIFICATION_BOT = ''n'',
     ENABLE_FEEDBACK = False, FEEDBACK_BOT = ''f'', INLINE_URL_EMBED_PREVIEW = False, new_email_token = (\<lambda>i. ''t''),
     EMAIL_GATEWAY_PATTERN = None, unicode_word = (\<lambda>_. False)\<rparr>"

definition demo_server :: "bool \<Rightarrow> server" where
  "demo_server invite_only = \<lparr>sv_db = (demo_db invite_only)\<lparr>messages := [],
       subscriptions := [new_subscription 8 50, new_subscription 9 50], client_names := [(1, ''website'')]\<rparr>,
     sv_events = [], sv_jobs = [], sv_log = [], sv_next_id = 100, sv_now = 1000\<rparr>"

definition demo_outgoing :: outgoing where
  "demo_outgoing = \<lparr>og_message = demo_message, og_client = (1, ''website''), og_stream = None, og_local_id = None,
     og_sender_queue_id = None, og_realm = 4\<rparr>"

lemma demo_send_ok: "fst (do_send_messages demo_env [Some (NewMessage demo_outgoing)] (demo_server b)) = Inr [100]"
  by (cases b; code_simp)

lemma demo_server_simps: "user_messages (sv_db (demo_server b)) = []" "sv_next_id (demo_server b) = 100" "sv_events (demo_server b) = []"
  by (simp_all add: demo_server_def demo_db_def empty_db_def)

lemma demo_send: "\<exists>s'. do_send_messages demo_env [Some (NewMessage demo_outgoing)] (demo_server b) = (Inr [100], s')"
  using demo_send_ok[of b] by (metis prod.collapse)

lemma demo_recipients:
  "message_recipient (og_message demo_outgoing) (sv_db (demo_server b)) = Inr \<lparr>rc_id = 50, rc_type_id = 6, rc_type = STREAM\<rparr>"
  "get_recipient_user_profiles \<lparr>rc_id = 50, rc_type_id = 6, rc_type = STREAM\<rparr> 8 (sv_db (demo_server b)) =
     Inr [demo_user 8 4 ''bob@zulip.com'', demo_user 9 4 ''ann@zulip.com'']"
  by (cases b; code_simp)+

theorem send_stores_rows_witness:
  "map (\<lambda>x. (um_user_profile x, um_message x))
     (user_messages (sv_db (snd (do_send_messages demo_env [Some (NewMessage demo_outgoing)] (demo_server True))))) = [(8, 100), (9, 100)]"
proof -
  obtain s' where run: "do_send_messages demo_env [Some (NewMessage demo_outgoing)] (demo_server True) = (Inr [100], s')"
    using demo_send by blast
  from send_stores_rows[OF run] show ?thesis
  proof (elim exE conjE, goal_cases)
    case (1 rc rs r m)
    then have rs: "rs = [demo_user 8 4 ''bob@zulip.com'', demo_user 9 4 ''ann@zulip.com'']"
      using demo_recipients[of True] by (simp add: demo_outgoing_def demo_message_def)
    from arg_cong[OF 1(11), of "map (\<lambda>p. (fst p, fst (snd p)))"] show ?case
      by (simp add: run rs comp_def demo_user_def is_service_bot_def demo_server_simps)
  qed
qed

section \<open>Who the event of a message names\<close>

definition event_user_id :: "pyval \<Rightarrow> pyerr + int" where
  "event_user_id v = ebind (as_dict v) (\<lambda>d. get_int d ''id'')"

lemma event_user_id_message_user [simp]: "event_user_id (message_user flags u) = Inr (u_id u)"
  by (simp add: event_user_id_def message_user_def py_simps)

lemma stream_fields_public:
  assumes "stream_event_fields dl rc d = Inr fs"
  shows "(map_of fs ''realm_id'' \<noteq> None \<longleftrightarrow> rc_type rc = STREAM \<and>
      (\<exists>st. (case og_stream (dl_out dl) of Some s \<Rightarrow> Inr s | None \<Rightarrow> db_get ''Stream'' (\<lambda>s. st_id s = rc_type_id rc) (streams d)) = Inr st \<and>
        is_public d st = Inr True)) \<and>
    (map_of fs ''stream_name'' \<noteq> None \<longleftrightarrow> map_of fs ''realm_id'' \<noteq> None)"
  using assms by (auto simp: stream_event_fields_def split: if_splits)

lemma sent_event:
  assumes "do_send_messages E [Some (NewMessage og)] s = (Inr ids, s')"
  shows "\<exists>event us rc rs. sv_events s' = sv_events s @ [(event, us)] \<and>
    message_recipient (og_message og) (sv_db s) = Inr rc \<and>
    get_recipient_user_profiles rc (m_sender (og_message og)) (sv_db s) = Inr rs \<and>
    map event_user_id us = map (\<lambda>u. Inr (u_id u)) (filter u_is_active rs) \<and>
    map_of event ''message'' = Some (PInt (sv_next_id s)) \<and>
    (map_of event ''realm_id'' \<noteq> None \<longleftrightarrow> rc_type rc = STREAM \<and>
      (\<exists>st. (case og_stream og of Some st \<Rightarrow> Inr st
               | None \<Rightarrow> db_get ''Stream'' (\<lambda>st. st_id st = rc_type_id rc) (streams (sv_db s))) = Inr st \<and>
        is_public (sv_db s) st = Inr True)) \<and>
    (map_of event ''stream_name'' \<noteq> None \<longleftrightarrow> map_of event ''realm_id'' \<noteq> None)"
proof -
  obtain rc rs r dl links t where steps: "send_steps E og s ids s' rc rs r dl links t"
    using do_send_one[OF assms] by blast
  then have run:
    "message_recipient (og_message og) (sv_db s) = Inr rc"
    "get_recipient_user_profiles rc (m_sender (og_message og)) (sv_db s) = Inr rs"
    "render_incoming_message E (og_message og) (m_content (og_message og)) (map u_id (filter u_is_active rs)) (og_realm og) (sv_db s) = Inr r"
    "dl_active dl = filter u_is_active rs" "dl_rendering dl = r"
    and msg: "dl_message dl = (update_calculated_fields (se_settings E) ((og_message og)\<lparr>m_rendered_content := Some (r_content r),
       m_rendered_content_version := Some (bugdown_version (se_render E))\<rparr>))"
    and out: "og_client (dl_out dl) = og_client og" "og_stream (dl_out dl) = og_stream og"
    and st: "store_messages [dl] s = (Inr [with_id (sv_next_id s) dl], t)"
    and nt: "send_message_notices E links (with_id (sv_next_id s) dl) t = (Inr (), s')" and ids: "ids = [sv_next_id s]"
    by (simp_all add: send_steps_def)
  note same = store_one(4,7,8,9)[OF st]
  obtain rc' event fs where ev: "message_recipient (dl_message (with_id (sv_next_id s) dl)) (sv_db t) = Inr rc'"
    "sv_events s' = sv_events t @ [(event, map (message_user (user_flags (with_id (sv_next_id s) dl))) (filter u_is_active rs))]"
    "stream_event_fields (with_id (sv_next_id s) dl) rc' (sv_db t) = Inr fs"
    "map_of event ''message'' = Some (PInt (sv_next_id s))"
    "map_of event ''realm_id'' = map_of fs ''realm_id''" "map_of event ''stream_name'' = map_of fs ''stream_name''"
    using notices_event[OF nt rendered_sent[OF msg]] run(4) by auto
  have rc': "rc' = rc" using ev(1) run(1) same msg by (simp add: message_recipient_def)
  have pub: "is_public (sv_db t) st = is_public (sv_db s) st" for st
    using same by (simp add: is_public_def)
  have "map event_user_id (map (message_user f) l) = map (\<lambda>u. Inr (u_id u)) l" for f l by simp
  moreover have "(map_of fs ''realm_id'' \<noteq> None \<longleftrightarrow> rc_type rc = STREAM \<and>
      (\<exists>st. (case og_stream og of Some st \<Rightarrow> Inr st
               | None \<Rightarrow> db_get ''Stream'' (\<lambda>st. st_id st = rc_type_id rc) (streams (sv_db s))) = Inr st \<and>
        is_public (sv_db s) st = Inr True)) \<and> (map_of fs ''stream_name'' \<noteq> None \<longleftrightarrow> map_of fs ''realm_id'' \<noteq> None)"
    using stream_fields_public[OF ev(3)] by (simp only: rc' out pub same with_id_simps)
  ultimately show ?thesis using run(1,2) ev(2,4,5,6) same(1)
    by (intro exI[of _ event] exI[of _ "map (message_user (user_flags (with_id (sv_next_id s) dl))) (filter u_is_active rs)"]
        exI[of _ rc] exI[of _ rs]) simp
qed

text \<open>
  C11: A message that is sent causes one event. It is addressed to the active recipients
  only, and it carries the realm and the stream name, on which Tornado delivers it to other
  clients of the realm, exactly when the message is in a public stream.
\<close>

theorem message_event_visibility:
  assumes "do_send_messages E [Some (NewMessage og)] s = (Inr ids, s')"
  shows "\<exists>event us rc rs. sv_events s' = sv_events s @ [(event, us)] \<and>
    message_recipient (og_message og) (sv_db s) = Inr rc \<and>
    get_recipient_user_profiles rc (m_sender (og_message og)) (sv_db s) = Inr rs \<and>
    map event_user_id us = map (\<lambda>u. Inr (u_id u)) (filter u_is_active rs) \<and>
    map_of event ''message'' = Some (PInt (sv_next_id s)) \<and>
    (map_of event ''realm_id'' \<noteq> None \<longleftrightarrow> rc_type rc = STREAM \<and>
      (\<exists>st. (case og_stream og of Some st \<Rightarrow> Inr st
               | None \<Rightarrow> db_get ''Stream'' (\<lambda>st. st_id st = rc_type_id rc) (streams (sv_db s))) = Inr st \<and>
        is_public (sv_db s) st = Inr True)) \<and>
    (map_of event ''stream_name'' \<noteq> None \<longleftrightarrow> map_of event ''realm_id'' \<noteq> None)"
  using assms by (rule sent_event)

theorem message_event_visibility_witness:
  "\<exists>event us. sv_events (snd (do_send_messages demo_env [Some (NewMessage demo_outgoing)] (demo_server True))) = [(event, us)] \<and>
    map_of event ''stream_name'' = None \<and> map event_user_id us = [Inr 8, Inr 9]"
proof -
  obtain s' where run: "do_send_messages demo_env [Some (NewMessage demo_outgoing)] (demo_server True) = (Inr [100], s')"
    using demo_send by blast
  have hidden: "is_public (sv_db (demo_server True)) (demo_stream True) = Inr False" by code_simp
  have find: "db_get ''Stream'' (\<lambda>st. st_id st = 6) (streams (sv_db (demo_server True))) = Inr (demo_stream True)" by code_simp
  have og: "og_stream demo_outgoing = None" "m_sender (og_message demo_outgoing) = 8" "sv_events (demo_server True) = []"
    by (simp_all add: demo_outgoing_def demo_message_def demo_server_def)
  have "filter u_is_active [demo_user 8 4 ''bob@zulip.com'', demo_user 9 4 ''ann@zulip.com''] =
      [demo_user 8 4 ''bob@zulip.com'', demo_user 9 4 ''ann@zulip.com'']"
    "u_id (demo_user 8 4 ''bob@zulip.com'') = 8" "u_id (demo_user 9 4 ''ann@zulip.com'') = 9" by (simp_all add: demo_user_def)
  then show ?thesis using message_event_visibility[OF run] demo_recipients[of True] hidden find
    by (auto simp: run og)
qed

section \<open>Checked messages\<close>

lemma truncate_length: "length msg \<le> n \<Longrightarrow> length (truncate_content c n msg) \<le> n"
  by (simp add: truncate_content_def)

lemma truncate_nonempty: "0 < n \<Longrightarrow> msg \<noteq> [] \<Longrightarrow> truncate_content c n msg = [] \<longleftrightarrow> c = []"
  by (auto simp: truncate_content_def)

lemma rstrip_last: "str_rstrip c \<noteq> [] \<Longrightarrow> \<not> is_space (last (str_rstrip c))"
proof -
  assume "str_rstrip c \<noteq> []"
  then have ne: "dropWhile is_space (rev c) \<noteq> []" by (simp add: str_rstrip_def)
  then have "last (str_rstrip c) = hd (dropWhile is_space (rev c))" by (simp add: str_rstrip_def last_rev)
  then show ?thesis using hd_dropWhile[OF ne] by simp
qed

lemma truncate_last:
  "c \<noteq> [] \<Longrightarrow> \<not> is_space (last c) \<Longrightarrow> \<not> is_space (last (truncate_content c n ''...''))"
  by (simp add: truncate_content_def is_space_def)

lemma check_stream_message_ok:
  assumes "check_stream_message warn E sender message_to subject_name realm_id forwarder s = (Inr (rc, subject, st), s')"
  shows "\<exists>x. st = Some x \<and> subject \<noteq> [] \<and> length subject \<le> 60 \<and>
    (st_invite_only x \<noteq> Some True \<or> may_send_to_private_stream E sender forwarder x (sv_db s'))"
  using assms
  by (auto simp: check_stream_message_def Let_def seq_Inr truncate_topic_def MAX_SUBJECT_LENGTH_def
      truncate_nonempty intro!: truncate_length split: if_splits option.splits)

lemma try_except_Inr:
  "try_except m h s = (Inr x, s') \<longleftrightarrow> m s = (Inr x, s') \<or>
    (\<exists>e t n. m s = (Inl e, t) \<and> h e = Some n \<and> n t = (Inr x, s'))"
  by (auto simp: try_except_def split: prod.splits sum.splits option.splits)

lemma check_private_message_ok:
  "check_private_message E sender client_name message_to forged forwarder s = (Inr (rc, subject, st), s') \<Longrightarrow>
    subject = [] \<and> st = None"
  by (auto simp: check_private_message_def Let_def try_except_Inr seq_Inr split: pyerr.splits) (metis pyerr.exhaust)+

text \<open>
  C36: A message that passes the checks has content and at most 10000 characters of it, without
  a blank at the end; its topic has at most 60 characters, and at least one in a stream; and a
  message to a private stream is only let through for those who may send to it.
\<close>

theorem checked_message_bounds:
  assumes "check_message E sender client message_type_name message_to subject_name body rlm forged forged_timestamp
    forwarder local_id sender_queue_id s = (Inr (NewMessage og), s')"
  shows "0 < length (m_content (og_message og)) \<and> length (m_content (og_message og)) \<le> 10000 \<and>
    \<not> is_space (last (m_content (og_message og))) \<and> length (m_subject (og_message og)) \<le> 60 \<and>
    m_sender (og_message og) = u_id sender \<and>
    ((message_type_name = ''stream'' \<and> m_subject (og_message og) \<noteq> [] \<and>
       (\<exists>st. og_stream og = Some st \<and>
         (st_invite_only st \<noteq> Some True \<or> may_send_to_private_stream E sender forwarder st (sv_db s')))) \<or>
     (message_type_name = ''private'' \<and> m_subject (og_message og) = [] \<and> og_stream og = None))"
proof -
  let ?body = "str_rstrip body"
  have ne: "?body \<noteq> []" using assms by (auto simp: check_message_def check_message_gen_def Let_def seq_Inr split: if_splits)
  obtain message_to' where run: "seq (if message_type_name = ''stream''
              then check_stream_message (send_pm_if_empty_stream E) E sender message_to' subject_name (case rlm of None \<Rightarrow> u_realm sender | Some r \<Rightarrow> r) forwarder
              else if message_type_name = ''private''
              then check_private_message E sender (snd client) message_to' forged forwarder
              else raise (JsonableError ''Invalid message type'')) (\<lambda>(rc, subject, st).
         seq timezone_now (\<lambda>now.
         let pub_date = (case forged_timestamp of Some t \<Rightarrow> if forged then t else now | None \<Rightarrow> now);
             m = new_message (u_id sender) (truncate_body ?body) (rc_id rc) subject pub_date (fst client) in
         seq (lookup (already_sent_mirrored_message_id m (rc_type rc))) (\<lambda>sent.
           case sent of
             Some i \<Rightarrow> if snd client = ''zephyr_mirror'' then ret (AlreadySent i)
                       else ret (NewMessage \<lparr>og_message = m, og_client = client, og_stream = st,
                         og_local_id = local_id, og_sender_queue_id = sender_queue_id,
                         og_realm = (case rlm of None \<Rightarrow> u_realm sender | Some r \<Rightarrow> r)\<rparr>)
           | None \<Rightarrow> ret (NewMessage \<lparr>og_message = m, og_client = client, og_stream = st,
                         og_local_id = local_id, og_sender_queue_id = sender_queue_id,
                         og_realm = (case rlm of None \<Rightarrow> u_realm sender | Some r \<Rightarrow> r)\<rparr>)))) s = (Inr (NewMessage og), s')"
    using assms ne by (auto simp: check_message_def check_message_gen_def Let_def seq_query_Inr split: if_splits)
  have bnd: "truncate_body ?body \<noteq> []" "length (truncate_body ?body) \<le> 10000" "\<not> is_space (last (truncate_body ?body))"
    using ne truncate_nonempty[of 10000 "''...''" ?body] truncate_length[of "''...''" 10000 ?body]
      truncate_last[OF ne rstrip_last[OF ne]]
    by (simp_all add: truncate_body_def MAX_MESSAGE_LENGTH_def)
  have "\<exists>rc subject st. m_content (og_message og) = truncate_body ?body \<and> m_subject (og_message og) = subject \<and>
      m_sender (og_message og) = u_id sender \<and> og_stream og = st \<and>
      (if message_type_name = ''stream''
              then check_stream_message (send_pm_if_empty_stream E) E sender message_to' subject_name (case rlm of None \<Rightarrow> u_realm sender | Some r \<Rightarrow> r) forwarder
              else if message_type_name = ''private''
              then check_private_message E sender (snd client) message_to' forged forwarder
              else raise (JsonableError ''Invalid message type'')) s = (Inr (rc, subject, st), s')"
    using run by (auto simp: seq_Inr Let_def new_message_def split: option.splits if_splits)
  then show ?thesis using bnd
    by (auto split: if_splits dest: check_stream_message_ok check_private_message_ok)
qed

definition demo_check :: "server \<Rightarrow> (pyerr + prepared) \<times> server" where
  "demo_check = check_message demo_env (demo_user 9 4 ''ann@zulip.com'') (1, ''website'') ''stream'' [''devel''] (Some '' lunch '')
     ''hello  '' None False None None None None"

lemma demo_check_ok: "case fst (demo_check (demo_server True)) of Inr (NewMessage og) \<Rightarrow> True | _ \<Rightarrow> False"
  by code_simp

theorem checked_message_bounds_witness:
  "\<exists>og s'. demo_check (demo_server True) = (Inr (NewMessage og), s') \<and> 0 < length (m_content (og_message og)) \<and>
    (\<exists>st. og_stream og = Some st)"
proof -
  obtain og s' where run: "demo_check (demo_server True) = (Inr (NewMessage og), s')"
    using demo_check_ok by (cases "demo_check (demo_server True)") (auto split: sum.splits prepared.splits)
  then have "check_message demo_env (demo_user 9 4 ''ann@zulip.com'') (1, ''website'') ''stream'' [''devel''] (Some '' lunch '')
     ''hello  '' None False None None None None (demo_server True) = (Inr (NewMessage og), s')"
    by (simp add: demo_check_def)
  from checked_message_bounds[OF this] run show ?thesis by auto
qed

section \<open>Service bots\<close>

text \<open>
  A message sent by a bot starts no service bot: no job is published to the queues of
  outgoing webhooks and embedded bots, so bots cannot answer each other for ever.
\<close>

theorem bots_start_no_bots:
  assumes "do_send_messages E [Some (NewMessage og)] s = (Inr ids, s')"
    and "get_user_profile_by_id (m_sender (og_message og)) (sv_db s) = Inr sender" and "u_is_bot sender"
  shows "\<exists>jobs. sv_jobs s' = sv_jobs s @ jobs \<and> fst ` set jobs \<subseteq> {''embed_links'', ''feedback_messages''}"
proof -
  obtain rc rs r dl links t where steps: "send_steps E og s ids s' rc rs r dl links t"
    using do_send_one[OF assms(1)] by blast
  let ?dl = "with_id (sv_next_id s) dl"
  have st: "store_messages [dl] s = (Inr [?dl], t)" and nt: "send_message_notices E links ?dl t = (Inr (), s')"
    and snd: "m_sender (dl_message dl) = m_sender (og_message og)"
    using steps by (simp_all add: send_steps_def)
  have "get_user_profile_by_id (m_sender (dl_message ?dl)) (sv_db t) = Inr sender"
    using assms(2) store_one(10)[OF st] by (simp add: get_user_profile_by_id_def snd)
  then obtain rc' event t1 where ev: "message_event E ?dl sender rc' t = (Inr event, t1)"
    and rest: "publish_message_jobs E links ?dl sender rc'
      (t1\<lparr>sv_events := sv_events t1 @ [(event, map (message_user (user_flags ?dl)) (dl_active ?dl))]\<rparr>) = (Inr (), s')"
    using nt by (auto simp: send_message_notices_def seq_Inr andthen_Inr)
  have no: "service_queue_events ?dl k True = []" for k by (simp add: service_queue_events_def)
  have "\<exists>jobs. sv_jobs s' = sv_jobs t1 @ jobs \<and> fst ` set jobs \<subseteq> {''embed_links'', ''feedback_messages''}"
    using rest assms(3)
    by (auto simp: publish_message_jobs_def Let_def seq_Inr andthen_Inr no split: if_splits
        dest: preservesD[OF message_to_dict_others(2)])
  moreover have "sv_jobs t1 = sv_jobs s"
    using preservesD[OF message_event_keeps(3) ev] store_one(5)[OF st] by simp
  ultimately show ?thesis by simp
qed

definition bot_server :: server where
  "bot_server = (demo_server True)\<lparr>sv_db := (sv_db (demo_server True))\<lparr>users :=
     [(demo_user 8 4 ''bob@zulip.com'')\<lparr>u_is_bot := True, u_bot_type := Some DEFAULT_BOT\<rparr>,
      (demo_user 9 4 ''hook@zulip.com'')\<lparr>u_is_bot := True, u_bot_type := Some OUTGOING_WEBHOOK_BOT\<rparr>]\<rparr>\<rparr>"

theorem bots_start_no_bots_witness:
  "\<exists>ids s'. do_send_messages demo_env [Some (NewMessage demo_outgoing)] bot_server = (Inr ids, s') \<and>
    fst ` set (sv_jobs s') \<subseteq> {''embed_links'', ''feedback_messages''}"
proof -
  have "fst (do_send_messages demo_env [Some (NewMessage demo_outgoing)] bot_server) = Inr [100]" by code_simp
  then obtain s' where run: "do_send_messages demo_env [Some (NewMessage demo_outgoing)] bot_server = (Inr [100], s')"
    by (metis prod.collapse)
  have sender: "get_user_profile_by_id (m_sender (og_message demo_outgoing)) (sv_db bot_server) =
      Inr ((demo_user 8 4 ''bob@zulip.com'')\<lparr>u_is_bot := True, u_bot_type := Some DEFAULT_BOT\<rparr>)" by code_simp
  have "sv_jobs bot_server = []" by (simp add: bot_server_def demo_server_def)
  with bots_start_no_bots[OF run sender] run show ?thesis by simp
qed

end
