(* ===== verification/EndToEnd.thy ===== *)
theory EndToEnd
  imports SendingProps TornadoProps
begin

text \<open>
  A message from \<open>do_send_messages\<close> to the event queues: the event that the sending process
  publishes is the argument of \<open>process_message_event\<close> in Tornado (the JSON encoding in
  between is taken to be the identity).
\<close>

section \<open>Delivering a message event touches the chosen clients only\<close>

definition same_elsewhere :: "string set \<Rightarrow> tornado \<Rightarrow> tornado \<Rightarrow> bool" where
  "same_elsewhere S s s' \<longleftrightarrow> registry s' = registry s \<and> (\<forall>i. i \<notin> S \<longrightarrow> map_of (clients s') i = map_of (clients s) i)"

lemma same_elsewhere_refl [simp]: "same_elsewhere S s s"
  by (simp add: same_elsewhere_def)





section \<open>Which clients are chosen\<close>


lemma publish_fields [simp]: "clients (publish q n s) = clients s" "registry (publish q n s) = registry s"
  "heap (publish q n s) = heap s" "get_client_descriptors_for_user u (publish q n s) = get_client_descriptors_for_user u s"
  by (simp_all add: publish_def registry_def get_client_descriptors_for_user_def)









end
