(* ===== verification/Recipients.thy ===== *)
theory Recipients
  imports SendingProps
begin

text \<open>
  Whom a private message reaches: the recipient found or created for a list of addresses has
  as participants the addressed users and the sender, and the table of huddles stays
  consistent.
\<close>

section \<open>The key of a huddle determines its members\<close>

lemma huddle_hash_key_inject: "huddle_hash_key xs = huddle_hash_key ys \<longleftrightarrow> set xs = set ys"
proof
  assume eq: "huddle_hash_key xs = huddle_hash_key ys"
  have ok: "\<forall>w \<in> set (map int_str l). w \<noteq> [] \<and> CHR '','' \<notin> set w" for l
    by (auto simp: is_digit_def dest!: int_str_chars)
  have "map int_str (sort (remdups xs)) = map int_str (sort (remdups ys))"
    using eq by (intro str_join_inject[OF ok ok]) (simp add: huddle_hash_key_def)
  then have "sort (remdups xs) = sort (remdups ys)"
    by (rule map_injective[OF _ injI]) simp
  then show "set xs = set ys" by (metis set_remdups set_sort)
next
  assume "set xs = set ys"
  then have "sort (remdups xs) = sort (remdups ys)"
    by (metis sorted_list_of_set_sort_remdups)
  then show "huddle_hash_key xs = huddle_hash_key ys" by (simp add: huddle_hash_key_def)
qed

section \<open>The table of huddles\<close>

definition participants :: "db \<Rightarrow> recipient \<Rightarrow> int set" where
  "participants d rc = (if rc_type rc = PERSONAL then {rc_type_id rc}
     else sub_user_profile ` {x \<in> set (subscriptions d). sub_recipient x = rc_id rc \<and> sub_active x})"

text \<open>Every huddle has one recipient, whose participants are those of its key; ids are below the counter.\<close>

definition huddles_ok :: "server \<Rightarrow> bool" where
  "huddles_ok s \<longleftrightarrow>
     (\<forall>(h, key) \<in> set (huddle_hashes (sv_db s)). h < sv_next_id s \<and>
        (\<exists>ids rc. key = huddle_hash_key ids \<and>
          get_recipient HUDDLE h (sv_db s) = Inr rc \<and> participants (sv_db s) rc = set ids)) \<and>
     (\<forall>rc \<in> set (recipients (sv_db s)). rc_id rc < sv_next_id s \<and> (rc_type rc = HUDDLE \<longrightarrow> rc_type_id rc < sv_next_id s)) \<and>
     (\<forall>x \<in> set (subscriptions (sv_db s)). sub_recipient x < sv_next_id s)"

lemma get_recipient_type: "get_recipient ty i d = Inr rc \<Longrightarrow> rc \<in> set (recipients d) \<and> rc_type rc = ty \<and> rc_type_id rc = i"
  unfolding get_recipient_def by (drule db_get_Inr) simp

lemma get_huddle_ok:
  assumes "huddles_ok s" and "get_huddle id_list s = (Inr h, s')"
  shows "huddles_ok s' \<and> (\<exists>rc. get_recipient HUDDLE h (sv_db s') = Inr rc \<and> participants (sv_db s') rc = set id_list)"
proof (cases "find (\<lambda>h. snd h = huddle_hash_key id_list) (huddle_hashes (sv_db s))")
  case (Some p)
  have found: "p \<in> set (huddle_hashes (sv_db s))" "snd p = huddle_hash_key id_list" using find_Some[OF Some] by auto
  have run: "h = fst p" "s' = s" using assms(2) Some by (auto simp: get_huddle_def Let_def seq_Inr)
  obtain ids rc where "snd p = huddle_hash_key ids" "get_recipient HUDDLE (fst p) (sv_db s) = Inr rc"
    "participants (sv_db s) rc = set ids"
    using assms(1) found(1) by (cases p) (auto simp: huddles_ok_def)
  then show ?thesis using assms(1) found(2) run by (simp add: huddle_hash_key_inject)
next
  case None
  let ?n = "sv_next_id s" and ?d = "sv_db s"
  let ?rc = "\<lparr>rc_id = ?n + 1, rc_type_id = ?n, rc_type = HUDDLE\<rparr>"
  have run: "h = ?n" "s' = s\<lparr>sv_next_id := ?n + 2, sv_db := ?d\<lparr>huddle_hashes := huddle_hashes ?d @ [(?n, huddle_hash_key id_list)],
      recipients := recipients ?d @ [?rc],
      subscriptions := subscriptions ?d @ map (\<lambda>uid. new_subscription uid (?n + 1)) id_list\<rparr>\<rparr>"
    using assms(2) None by (auto simp: get_huddle_def Let_def seq_Inr andthen_Inr atomic_Inr add.commute)
  have bounds: "\<forall>rc \<in> set (recipients ?d). rc_id rc < ?n \<and> (rc_type rc = HUDDLE \<longrightarrow> rc_type_id rc < ?n)"
    "\<forall>x \<in> set (subscriptions ?d). sub_recipient x < ?n" using assms(1) by (simp_all add: huddles_ok_def)
  have "filter (\<lambda>r. rc_type_id r = ?n \<and> rc_type r = HUDDLE) (recipients ?d) = []"
    using bounds(1) by (auto simp: filter_empty_conv)
  then have new: "get_recipient HUDDLE ?n (sv_db s') = Inr ?rc" by (simp add: run get_recipient_def db_get_def)
  have parts: "participants (sv_db s') ?rc = set id_list"
  proof -
    have "{x \<in> set (subscriptions ?d). sub_recipient x = ?n + 1 \<and> sub_active x} = {}"
      using bounds(2) by force
    then have "{x \<in> set (subscriptions (sv_db s')). sub_recipient x = ?n + 1 \<and> sub_active x} =
        (\<lambda>uid. new_subscription uid (?n + 1)) ` set id_list"
      by (auto simp: run new_subscription_def)
    then show ?thesis by (simp add: participants_def image_image) (simp add: new_subscription_def)
  qed
  have old: "get_recipient HUDDLE h' (sv_db s') = Inr rc \<and> participants (sv_db s') rc = participants ?d rc"
    if "get_recipient HUDDLE h' ?d = Inr rc" "h' < ?n" for h' rc
  proof -
    have "rc_id rc < ?n" using get_recipient_type[OF that(1)] bounds(1) by simp
    then have "participants (sv_db s') rc = participants ?d rc"
      by (auto simp: run participants_def new_subscription_def)
    moreover have "get_recipient HUDDLE h' (sv_db s') = Inr rc"
      using that by (simp add: run get_recipient_def db_get_def)
    ultimately show ?thesis by simp
  qed
  have "huddles_ok s'"
    unfolding huddles_ok_def
  proof (intro conjI)
    show "\<forall>(h, key) \<in> set (huddle_hashes (sv_db s')). h < sv_next_id s' \<and>
        (\<exists>ids rc. key = huddle_hash_key ids \<and>
          get_recipient HUDDLE h (sv_db s') = Inr rc \<and> participants (sv_db s') rc = set ids)"
    proof (intro ballI, clarify)
      fix h' key assume "(h', key) \<in> set (huddle_hashes (sv_db s'))"
      then consider "(h', key) \<in> set (huddle_hashes ?d)" | "h' = ?n" "key = huddle_hash_key id_list" by (auto simp: run)
      then show "h' < sv_next_id s' \<and> (\<exists>ids rc. key = huddle_hash_key ids \<and>
          get_recipient HUDDLE h' (sv_db s') = Inr rc \<and> participants (sv_db s') rc = set ids)"
      proof cases
        case 1
        then have "h' < ?n" and "\<exists>ids rc. key = huddle_hash_key ids \<and>
          get_recipient HUDDLE h' ?d = Inr rc \<and> participants ?d rc = set ids"
          using assms(1) by (auto simp: huddles_ok_def)
        then show ?thesis using old by (fastforce simp: run)
      next
        case 2
        then show ?thesis using new parts by (auto simp: run)
      qed
    qed
    show "\<forall>rc \<in> set (recipients (sv_db s')). rc_id rc < sv_next_id s' \<and> (rc_type rc = HUDDLE \<longrightarrow> rc_type_id rc < sv_next_id s')"
      using bounds(1) by (auto simp: run dest!: bspec)
    show "\<forall>x \<in> set (subscriptions (sv_db s')). sub_recipient x < sv_next_id s'"
      using bounds(2) by (auto simp: run new_subscription_def dest!: bspec)
  qed
  then show ?thesis using new parts run by auto
qed

section \<open>The recipient of a private message\<close>

definition addressed :: "string list \<Rightarrow> db \<Rightarrow> int set" where
  "addressed emails d = {u_id u | u. \<exists>e \<in> set emails. get_user_profile_by_email e d = Inr u}"

lemma add_email_ids:
  assumes "add_email E d (ids, rlms) email = Inr (ids', rlms')"
  shows "set ids' = set ids \<union> addressed [email] d \<and> (distinct ids \<longrightarrow> distinct ids')"
proof -
  obtain u where "get_user_profile_by_email email d = Inr u" "ids' = set_add (u_id u) ids"
    using assms by (auto simp: add_email_def split: sum.splits pyerr.splits if_splits)
  then show ?thesis by (auto simp: addressed_def)
qed

lemma add_emails_ids:
  "efold (add_email E d) (ids, rlms) emails = Inr (ids', rlms') \<Longrightarrow> distinct ids \<Longrightarrow>
    set ids' = set ids \<union> addressed emails d \<and> distinct ids'"
proof (induction emails arbitrary: ids rlms)
  case Nil
  then show ?case by (simp add: addressed_def)
next
  case (Cons e emails)
  then obtain ids1 rlms1 where step: "add_email E d (ids, rlms) e = Inr (ids1, rlms1)"
    and rest: "efold (add_email E d) (ids1, rlms1) emails = Inr (ids', rlms')" by auto
  have "set ids1 = set ids \<union> addressed [e] d" "distinct ids1" using add_email_ids[OF step] Cons.prems(2) by simp_all
  moreover have "addressed (e # emails) d = addressed [e] d \<union> addressed emails d" by (auto simp: addressed_def)
  ultimately show ?case using Cons.IH[OF rest] by auto
qed

lemma recipient_profile_ids_set:
  assumes "recipient_profile_ids E emails nf forwarder sender d = Inr ids"
  shows "insert (u_id sender) (set ids) = insert (u_id sender) (addressed emails d)"
proof -
  obtain ids0 rlms0 rlms where "efold (add_email E d) ([], rlms0) emails = Inr (ids0, rlms)"
    and ids: "ids = (if length ids0 = 2 \<and> u_id sender \<in> set ids0 then removeAll (u_id sender) ids0 else ids0)"
    using assms by (auto simp: recipient_profile_ids_def split: if_splits)
  then have "set ids0 = addressed emails d" using add_emails_ids by fastforce
  then show ?thesis using ids by auto
qed

lemma recipient_for_emails_ok:
  assumes "huddles_ok s" and "recipient_for_emails E emails nf forwarder sender s = (Inr rc, s')"
  shows "huddles_ok s' \<and> rc_type rc \<in> {PERSONAL, HUDDLE} \<and> (rc_type rc = HUDDLE \<longrightarrow> u_id sender \<in> participants (sv_db s') rc) \<and>
    insert (u_id sender) (participants (sv_db s') rc) = insert (u_id sender) (addressed emails (sv_db s))"
proof -
  obtain ids where ids: "recipient_profile_ids E emails nf forwarder sender (sv_db s) = Inr ids"
    and rest: "(if length ids > 1 then
         seq (get_huddle (set_add (u_id sender) ids)) (\<lambda>huddle_id. query (get_recipient HUDDLE huddle_id))
       else case ids of [] \<Rightarrow> raise IndexError | i # _ \<Rightarrow> query (get_recipient PERSONAL i)) s = (Inr rc, s')"
    using assms(2) by (auto simp: recipient_for_emails_def seq_query_Inr)
  note addr = recipient_profile_ids_set[OF ids]
  show ?thesis
  proof (cases "length ids > 1")
    case True
    then obtain h t where h: "get_huddle (set_add (u_id sender) ids) s = (Inr h, t)"
      and rc: "get_recipient HUDDLE h (sv_db t) = Inr rc" "s' = t" using rest by (auto simp: seq_Inr)
    obtain rc' where "huddles_ok t" "get_recipient HUDDLE h (sv_db t) = Inr rc'"
      "participants (sv_db t) rc' = set (set_add (u_id sender) ids)" using get_huddle_ok[OF assms(1) h] by auto
    then have "huddles_ok s'" "participants (sv_db s') rc = insert (u_id sender) (set ids)" "rc_type rc = HUDDLE"
      using rc get_recipient_type[of HUDDLE h "sv_db t" rc] by simp_all
    then show ?thesis using addr by simp
  next
    case False
    then obtain i where i: "ids = [i]" using rest by (cases ids) auto
    then have "get_recipient PERSONAL i (sv_db s) = Inr rc" "s' = s" using rest by auto
    then show ?thesis using assms(1) addr i get_recipient_type[of PERSONAL i "sv_db s" rc]
      by (auto simp: participants_def)
  qed
qed

text \<open>
  The recipient for the addresses of a private message stands for exactly the addressed
  users and the sender, whether it is a user, a known group or a new one; a group includes the
  sender; and the table of groups stays consistent.
\<close>

theorem private_recipient_exact:
  assumes "huddles_ok s" and "recipient_for_emails E emails not_forged_mirror_message forwarder sender s = (Inr rc, s')"
  shows "huddles_ok s' \<and> rc_type rc \<in> {PERSONAL, HUDDLE} \<and> (rc_type rc = HUDDLE \<longrightarrow> u_id sender \<in> participants (sv_db s') rc) \<and>
    insert (u_id sender) (participants (sv_db s') rc) =
    insert (u_id sender) {u_id u | u. \<exists>e \<in> set emails. get_user_profile_by_email e (sv_db s) = Inr u}"
  using recipient_for_emails_ok[OF assms] by (simp add: addressed_def)

lemma demo_user_id: "u_id (demo_user i r e) = i"
  by (simp add: demo_user_def)

definition huddle_server :: server where
  "huddle_server = (demo_server True)\<lparr>sv_db := (sv_db (demo_server True))\<lparr>users :=
     [demo_user 7 4 ''cat@zulip.com'', demo_user 8 4 ''bob@zulip.com'', demo_user 9 4 ''ann@zulip.com'']\<rparr>\<rparr>"

theorem private_recipient_exact_witness:
  "\<exists>rc s'. recipient_for_emails demo_env [''Cat@zulip.com'', ''bob@zulip.com''] False None (demo_user 9 4 ''ann@zulip.com'') huddle_server =
      (Inr rc, s') \<and> insert 9 (participants (sv_db s') rc) = {7, 8, 9} \<and> huddles_ok s'"
proof -
  have ok: "huddles_ok huddle_server"
    by (simp add: huddles_ok_def huddle_server_def demo_server_def demo_db_def empty_db_def new_subscription_def)
  have "case fst (recipient_for_emails demo_env [''Cat@zulip.com'', ''bob@zulip.com''] False None (demo_user 9 4 ''ann@zulip.com'') huddle_server) of
      Inr rc \<Rightarrow> True | Inl _ \<Rightarrow> False" by code_simp
  then obtain rc s' where run: "recipient_for_emails demo_env [''Cat@zulip.com'', ''bob@zulip.com''] False None (demo_user 9 4 ''ann@zulip.com'') huddle_server =
      (Inr rc, s')"
    by (cases "recipient_for_emails demo_env [''Cat@zulip.com'', ''bob@zulip.com''] False None (demo_user 9 4 ''ann@zulip.com'') huddle_server")
      (auto split: sum.splits)
  have "get_user_profile_by_email ''Cat@zulip.com'' (sv_db huddle_server) = Inr (demo_user 7 4 ''cat@zulip.com'')"
    "get_user_profile_by_email ''bob@zulip.com'' (sv_db huddle_server) = Inr (demo_user 8 4 ''bob@zulip.com'')"
    by code_simp+
  then have "{u_id u | u. \<exists>e \<in> set [''Cat@zulip.com'', ''bob@zulip.com'']. get_user_profile_by_email e (sv_db huddle_server) = Inr u} = {7, 8}"
    by (auto simp: demo_user_id intro: exI[of _ "demo_user 7 4 ''cat@zulip.com''"] exI[of _ "demo_user 8 4 ''bob@zulip.com''"])
  moreover have "u_id (demo_user 9 4 ''ann@zulip.com'') = 9" by (simp add: demo_user_id)
  ultimately show ?thesis using private_recipient_exact[OF ok run] run by (auto simp: demo_user_id)
qed

end
