(* ===== verification/Validators.thy ===== *)
theory Validators
  imports Prelude
begin

text \<open>
  \<open>zerver/lib/validator.py\<close>: validators of parsed JSON and the combinators that build
  them, and \<open>zerver/lib/request.py\<close>: the extraction of a view's arguments from a request.

  A validator takes the name of the variable and the value and returns an error message or
  \<open>None\<close>; \<open>check_short_string\<close> may also raise. Messages are in the untranslated wording.
\<close>

section \<open>Validators\<close>

type_synonym validator = "string \<Rightarrow> pyval \<Rightarrow> pyerr + string option"

text \<open>\<open>if error:\<close> of an optional message\<close>

definition is_error :: "string option \<Rightarrow> bool" where
  "is_error e \<longleftrightarrow> e \<noteq> None \<and> e \<noteq> Some []"

definition check_string :: validator where
  "check_string var_name val =
     Inr (case val of PStr _ \<Rightarrow> None | _ \<Rightarrow> Some (var_name @ '' is not a string''))"

text \<open>\<open>len(val)\<close>, which raises for numbers, booleans and \<open>None\<close>\<close>

fun py_len :: "pyval \<Rightarrow> pyerr + nat" where
  "py_len (PStr s) = Inr (length s)"
| "py_len (PList xs) = Inr (length xs)"
| "py_len (PDict d) = Inr (length d)"
| "py_len v = Inl (TypeError ''object has no len()'')"

definition check_short_string :: validator where
  "check_short_string var_name val =
     (let max_length = 200
      in ebind (py_len val) (\<lambda>n.
           if n \<ge> max_length
           then Inr (Some (var_name @ '' is longer than '' @ int_str (int max_length) @ ''.''))
           else check_string var_name val))"

text \<open>\<open>isinstance(True, int)\<close> holds.\<close>

definition check_int :: validator where
  "check_int var_name val =
     Inr (case val of PInt _ \<Rightarrow> None | PBool _ \<Rightarrow> None | _ \<Rightarrow> Some (var_name @ '' is not an integer''))"

definition check_float :: validator where
  "check_float var_name val =
     Inr (case val of PFloat _ \<Rightarrow> None | _ \<Rightarrow> Some (var_name @ '' is not a float''))"

definition check_bool :: validator where
  "check_bool var_name val =
     Inr (case val of PBool _ \<Rightarrow> None | _ \<Rightarrow> Some (var_name @ '' is not a boolean''))"

definition check_none_or :: "validator \<Rightarrow> validator" where
  "check_none_or sub_validator var_name val =
     (if val = PNone then Inr None else sub_validator var_name val)"

text \<open>The loop over the items of a list, from index \<open>i\<close> on.\<close>

fun check_items :: "validator \<Rightarrow> string \<Rightarrow> nat \<Rightarrow> pyval list \<Rightarrow> pyerr + string option" where
  "check_items sub_validator var_name i [] = Inr None"
| "check_items sub_validator var_name i (item # rest) =
     ebind (sub_validator (var_name @ ''['' @ int_str (int i) @ '']'') item) (\<lambda>error.
       if is_error error then Inr error else check_items sub_validator var_name (Suc i) rest)"

definition check_list :: "validator option \<Rightarrow> nat option \<Rightarrow> validator" where
  "check_list sub_validator len var_name val =
     (case val of
        PList xs \<Rightarrow>
          (if len \<noteq> None \<and> len \<noteq> Some (length xs)
           then Inr (Some (var_name @ '' should have exactly '' @ int_str (int (the len)) @ '' items''))
           else case sub_validator of
                  None \<Rightarrow> Inr None
                | Some f \<Rightarrow> check_items f var_name 0 xs)
      | _ \<Rightarrow> Inr (Some (var_name @ '' is not a list'')))"

fun check_keys :: "(string \<times> validator) list \<Rightarrow> string \<Rightarrow> pydict \<Rightarrow> pyerr + string option" where
  "check_keys [] var_name d = Inr None"
| "check_keys ((k, sub_validator) # rest) var_name d =
     (case map_of d k of
        None \<Rightarrow> Inr (Some (k @ '' key is missing from '' @ var_name))
      | Some v \<Rightarrow>
          ebind (sub_validator (var_name @ ''[\"'' @ k @ ''\"]'') v) (\<lambda>error.
            if is_error error then Inr error else check_keys rest var_name d))"

text \<open>The unexpected keys are a set; here in the order of the value's keys.\<close>

definition check_dict :: "(string \<times> validator) list \<Rightarrow> bool \<Rightarrow> validator" where
  "check_dict required_keys allow_only_listed_keys var_name val =
     (case val of
        PDict d \<Rightarrow>
          ebind (check_keys required_keys var_name d) (\<lambda>error.
            if is_error error then Inr error
            else
              let delta_keys = filter (\<lambda>k. k \<notin> fst ` set required_keys) (map fst d)
              in if allow_only_listed_keys \<and> delta_keys \<noteq> []
                 then Inr (Some (''Unexpected arguments: '' @ str_join '', '' delta_keys))
                 else Inr None)
      | _ \<Rightarrow> Inr (Some (var_name @ '' is not a dict'')))"

definition check_dict_only :: "(string \<times> validator) list \<Rightarrow> validator" where
  "check_dict_only required_keys = check_dict required_keys True"

fun try_types :: "validator list \<Rightarrow> validator" where
  "try_types [] var_name val = Inr (Some (var_name @ '' is not an allowed_type''))"
| "try_types (func # rest) var_name val =
     ebind (func var_name val) (\<lambda>error.
       if \<not> is_error error then Inr None else try_types rest var_name val)"

definition check_variable_type :: "validator list \<Rightarrow> validator" where
  "check_variable_type allowed_type_funcs = try_types allowed_type_funcs"

section \<open>What a composed validator accepts\<close>

text \<open>
  The shapes of values the combinators describe. \<open>vtype_check\<close> is the composition of the
  code's combinators for a shape, \<open>has_type\<close> what it is meant to accept.
\<close>

datatype vtype =
    TString | TInt | TFloat | TBool
  | TNoneOr vtype
  | TList "vtype option" "nat option"
  | TDict "(string \<times> vtype) list" bool
  | TOneOf "vtype list"

primrec vtype_check :: "vtype \<Rightarrow> validator" where
  "vtype_check TString = check_string"
| "vtype_check TInt = check_int"
| "vtype_check TFloat = check_float"
| "vtype_check TBool = check_bool"
| "vtype_check (TNoneOr t) = check_none_or (vtype_check t)"
| "vtype_check (TList t n) = check_list (map_option vtype_check t) n"
| "vtype_check (TDict ts only) = check_dict (map (map_prod id vtype_check) ts) only"
| "vtype_check (TOneOf ts) = check_variable_type (map vtype_check ts)"

primrec has_type :: "vtype \<Rightarrow> pyval \<Rightarrow> bool" where
  "has_type TString v = (\<exists>s. v = PStr s)"
| "has_type TInt v = ((\<exists>i. v = PInt i) \<or> (\<exists>b. v = PBool b))"
| "has_type TFloat v = (\<exists>r. v = PFloat r)"
| "has_type TBool v = (\<exists>b. v = PBool b)"
| "has_type (TNoneOr t) v = (v = PNone \<or> has_type t v)"
| "has_type (TList t n) v = (\<exists>xs. v = PList xs \<and> (n = None \<or> n = Some (length xs)) \<and>
     (case map_option has_type t of None \<Rightarrow> True | Some p \<Rightarrow> list_all p xs))"
| "has_type (TDict ts only) v = (\<exists>d. v = PDict d \<and>
     list_all (\<lambda>(k, p). case map_of d k of None \<Rightarrow> False | Some w \<Rightarrow> p w) (map (map_prod id has_type) ts) \<and>
     (only \<longrightarrow> fst ` set d \<subseteq> fst ` set ts))"
| "has_type (TOneOf ts) v = list_ex (\<lambda>p. p v) (map has_type ts)"

text \<open>A validator decides a predicate: it never raises, and it has a message exactly for the rest.\<close>

definition decides :: "validator \<Rightarrow> (pyval \<Rightarrow> bool) \<Rightarrow> bool" where
  "decides f p \<longleftrightarrow> (\<forall>name v. \<exists>e. f name v = Inr e \<and> (is_error e \<longleftrightarrow> \<not> p v) \<and> (p v \<longrightarrow> e = None))"

named_theorems decides_intros \<open>combinators of deciding validators\<close>

lemma is_error_simps [simp]: "\<not> is_error None" "is_error (Some (s @ c # t))" "is_error (Some (c # t))"
  by (simp_all add: is_error_def)

lemma check_string_decides [decides_intros]: "decides check_string (has_type TString)"
  by (auto simp: decides_def check_string_def split: pyval.splits)

lemma check_int_decides [decides_intros]: "decides check_int (has_type TInt)"
  by (auto simp: decides_def check_int_def split: pyval.splits)

lemma check_float_decides [decides_intros]: "decides check_float (has_type TFloat)"
  by (auto simp: decides_def check_float_def split: pyval.splits)

lemma check_bool_decides [decides_intros]: "decides check_bool (has_type TBool)"
  by (auto simp: decides_def check_bool_def split: pyval.splits)

lemma decidesD: "decides f p \<Longrightarrow> \<exists>e. f name v = Inr e \<and> (is_error e \<longleftrightarrow> \<not> p v) \<and> (p v \<longrightarrow> e = None)"
  by (simp add: decides_def)

lemma check_none_or_decides: "decides f p \<Longrightarrow> decides (check_none_or f) (\<lambda>v. v = PNone \<or> p v)"
  by (auto simp: decides_def check_none_or_def)

lemma check_items_decides:
  "decides f p \<Longrightarrow> \<exists>e. check_items f name i xs = Inr e \<and> (is_error e \<longleftrightarrow> \<not> list_all p xs) \<and> (list_all p xs \<longrightarrow> e = None)"
proof (induction xs arbitrary: i)
  case (Cons x xs)
  obtain e where "f (name @ ''['' @ int_str (int i) @ '']'') x = Inr e" "is_error e \<longleftrightarrow> \<not> p x" "p x \<longrightarrow> e = None"
    using decidesD[OF Cons.prems] by blast
  then show ?case using Cons.IH[OF Cons.prems, of "Suc i"] by auto
qed simp

lemma check_list_decides:
  assumes "\<And>f. sub = Some f \<Longrightarrow> decides f (the p)" and "sub = None \<longleftrightarrow> p = None"
  shows "decides (check_list sub n) (\<lambda>v. \<exists>xs. v = PList xs \<and> (n = None \<or> n = Some (length xs)) \<and>
     (case p of None \<Rightarrow> True | Some q \<Rightarrow> list_all q xs))"
proof (unfold decides_def, intro allI)
  fix name v
  show "\<exists>e. check_list sub n name v = Inr e \<and>
      (is_error e \<longleftrightarrow> \<not> (\<exists>xs. v = PList xs \<and> (n = None \<or> n = Some (length xs)) \<and>
        (case p of None \<Rightarrow> True | Some q \<Rightarrow> list_all q xs))) \<and>
      ((\<exists>xs. v = PList xs \<and> (n = None \<or> n = Some (length xs)) \<and>
        (case p of None \<Rightarrow> True | Some q \<Rightarrow> list_all q xs)) \<longrightarrow> e = None)"
  proof (cases v)
    case (PList xs)
    show ?thesis
    proof (cases sub)
      case None
      then show ?thesis using PList assms(2) by (auto simp: check_list_def)
    next
      case (Some f)
      then obtain q where q: "p = Some q" using assms(2) by auto
      have "decides f q" using assms(1)[OF Some] q by simp
      then show ?thesis using PList Some q check_items_decides[of f q name 0 xs]
        by (auto simp: check_list_def)
    qed
  qed (simp_all add: check_list_def)
qed

abbreviation keys_match :: "pydict \<Rightarrow> (string \<times> (pyval \<Rightarrow> bool)) list \<Rightarrow> bool" where
  "keys_match d ps \<equiv> list_all (\<lambda>(k, p). case map_of d k of None \<Rightarrow> False | Some w \<Rightarrow> p w) ps"

lemma check_keys_decides:
  assumes "\<And>k t. (k, t) \<in> set ts \<Longrightarrow> decides (F t) (Q t)"
  shows "\<exists>e. check_keys (map (map_prod id F) ts) name d = Inr e \<and>
     (is_error e \<longleftrightarrow> \<not> keys_match d (map (map_prod id Q) ts)) \<and> (keys_match d (map (map_prod id Q) ts) \<longrightarrow> e = None)"
  using assms
proof (induction ts)
  case (Cons kt ts)
  obtain k t where kt: "kt = (k, t)" by (cases kt)
  have IH: "\<exists>e. check_keys (map (map_prod id F) ts) name d = Inr e \<and>
     (is_error e \<longleftrightarrow> \<not> keys_match d (map (map_prod id Q) ts)) \<and> (keys_match d (map (map_prod id Q) ts) \<longrightarrow> e = None)"
    by (rule Cons.IH) (meson Cons.prems list.set_intros(2))
  show ?case
  proof (cases "map_of d k")
    case None
    then show ?thesis using kt by (auto simp: is_error_def)
  next
    case (Some w)
    have "decides (F t) (Q t)" using Cons.prems[of k t] kt by simp
    then obtain e where "F t (name @ ''[\"'' @ k @ ''\"]'') w = Inr e" "is_error e \<longleftrightarrow> \<not> Q t w" "Q t w \<longrightarrow> e = None"
      using decidesD[of "F t" "Q t"] by blast
    then show ?thesis using IH Some kt by (cases "Q t w") (auto simp: id_def)
  qed
qed simp

lemma check_dict_decides:
  assumes "\<And>k t. (k, t) \<in> set ts \<Longrightarrow> decides (F t) (Q t)"
  shows "decides (check_dict (map (map_prod id F) ts) only) (\<lambda>v. \<exists>d. v = PDict d \<and>
     keys_match d (map (map_prod id Q) ts) \<and> (only \<longrightarrow> fst ` set d \<subseteq> fst ` set ts))"
proof (unfold decides_def, intro allI)
  fix name v
  let ?ks = "map (map_prod id F) ts"
  have keys: "fst ` set ?ks = fst ` set ts" by force
  show "\<exists>e. check_dict ?ks only name v = Inr e \<and>
      (is_error e \<longleftrightarrow> \<not> (\<exists>d. v = PDict d \<and> keys_match d (map (map_prod id Q) ts) \<and> (only \<longrightarrow> fst ` set d \<subseteq> fst ` set ts))) \<and>
      ((\<exists>d. v = PDict d \<and> keys_match d (map (map_prod id Q) ts) \<and> (only \<longrightarrow> fst ` set d \<subseteq> fst ` set ts)) \<longrightarrow> e = None)"
  proof (cases v)
    case (PDict d)
    have extra: "filter (\<lambda>k. k \<notin> fst ` set ?ks) (map fst d) = [] \<longleftrightarrow> fst ` set d \<subseteq> fst ` set ts"
      unfolding keys by (auto simp: filter_empty_conv)
    from assms obtain e where e: "check_keys ?ks name d = Inr e"
      "is_error e \<longleftrightarrow> \<not> keys_match d (map (map_prod id Q) ts)" "keys_match d (map (map_prod id Q) ts) \<longrightarrow> e = None"
      using check_keys_decides by metis
    show ?thesis
    proof (cases "keys_match d (map (map_prod id Q) ts)")
      case False
      then show ?thesis using PDict e by (simp add: check_dict_def)
    next
      case True
      then have "check_dict ?ks only name v = (if only \<and> \<not> fst ` set d \<subseteq> fst ` set ts
          then Inr (Some (''Unexpected arguments: '' @ str_join '', '' (filter (\<lambda>k. k \<notin> fst ` set ?ks) (map fst d))))
          else Inr None)"
        using PDict e extra by (simp add: check_dict_def Let_def)
      then show ?thesis using True PDict by (auto simp: is_error_def)
    qed
  qed (simp_all add: check_dict_def)
qed

lemma try_types_decides:
  assumes "\<And>t. t \<in> set ts \<Longrightarrow> decides (F t) (Q t)"
  shows "decides (try_types (map F ts)) (\<lambda>v. list_ex (\<lambda>p. p v) (map Q ts))"
  using assms
proof (induction ts)
  case Nil
  then show ?case by (simp add: decides_def is_error_def)
next
  case (Cons t ts)
  have "decides (F t) (Q t)" "decides (try_types (map F ts)) (\<lambda>v. list_ex (\<lambda>p. p v) (map Q ts))"
    using Cons.prems by (simp, intro Cons.IH) simp
  then show ?case unfolding decides_def
  proof (intro allI, goal_cases)
    case (1 name v)
    then obtain e e' where "F t name v = Inr e" "is_error e \<longleftrightarrow> \<not> Q t v"
      "try_types (map F ts) name v = Inr e'" "is_error e' \<longleftrightarrow> \<not> list_ex (\<lambda>p. p v) (map Q ts)"
      "list_ex (\<lambda>p. p v) (map Q ts) \<longrightarrow> e' = None"
      by metis
    then show ?case by auto
  qed
qed

lemma vtype_check_decides: "decides (vtype_check t) (has_type t)"
proof (induction t)
  case (TNoneOr t)
  then show ?case using check_none_or_decides[of "vtype_check t" "has_type t"] by (simp add: decides_def)
next
  case (TList t n)
  have "decides (check_list (map_option vtype_check t) n) (\<lambda>v. \<exists>xs. v = PList xs \<and> (n = None \<or> n = Some (length xs)) \<and>
     (case map_option has_type t of None \<Rightarrow> True | Some q \<Rightarrow> list_all q xs))"
    by (rule check_list_decides) (use TList in auto)
  then show ?case by (simp add: decides_def)
next
  case (TDict ts only)
  have "decides (vtype_check t) (has_type t)" if "(k, t) \<in> set ts" for k t
    using TDict[of "(k, t)" t] that by simp
  from check_dict_decides[OF this, of ts] show ?case by (simp add: decides_def)
next
  case (TOneOf ts)
  from try_types_decides[OF this, of ts] show ?case by (simp add: decides_def check_variable_type_def)
qed (simp_all only: vtype_check.simps decides_intros)

section \<open>Request variables\<close>

text \<open>
  A \<open>REQ\<close> parameter of a view. \<open>loads\<close> below stands for \<open>ujson.loads\<close>: \<open>None\<close> when it
  raises.
\<close>

record req =
  post_var_name :: "string option"
  func_var_name :: string
  req_converter :: "(string \<Rightarrow> pyerr + pyval) option"
  req_validator :: "validator option"
  req_default :: "pyval option"
  argument_type :: "string option"

definition new_req ::
  "string option \<Rightarrow> (string \<Rightarrow> pyerr + pyval) option \<Rightarrow> pyval option \<Rightarrow> validator option \<Rightarrow> string option \<Rightarrow> pyerr + req" where
  "new_req whence conv default_value vald argty =
     (if conv \<noteq> None \<and> vald \<noteq> None
      then Inl (AssertionError ''converter and validator are mutually exclusive'')
      else Inr \<lparr>post_var_name = whence, func_var_name = [], req_converter = conv, req_validator = vald,
                req_default = default_value, argument_type = argty\<rparr>)"

text \<open>The parameters of a view with their defaults: those that are \<open>REQ\<close> objects, named.\<close>

definition post_params :: "(string \<times> req option) list \<Rightarrow> req list" where
  "post_params ps = map (\<lambda>(name, r). (the r)\<lparr>func_var_name := name,
       post_var_name := (case post_var_name (the r) of None \<Rightarrow> Some name | Some w \<Rightarrow> Some w)\<rparr>)
     (filter (\<lambda>(name, r). r \<noteq> None) ps)"

record http_request =
  GET :: "(string \<times> string) list"
  POST :: "(string \<times> string) list"
  body :: string

definition query_param :: "http_request \<Rightarrow> string \<Rightarrow> string option" where
  "query_param r k = (case map_of (POST r) k of None \<Rightarrow> map_of (GET r) k | Some v \<Rightarrow> Some v)"

definition bind_param :: "(string \<Rightarrow> pyval option) \<Rightarrow> http_request \<Rightarrow> req \<Rightarrow> pyerr + pyval" where
  "bind_param loads request param =
     (let name = the (post_var_name param)
      in if argument_type param = Some ''body'' then
           the_some (JsonableError ''Malformed JSON'') (loads (body request))
         else if argument_type param \<noteq> None then Inl (OtherError ''Invalid argument type'')
         else
           case query_param request name of
             None \<Rightarrow> the_some (JsonableError (''Missing '' @ name @ '' argument'')) (req_default param)
           | Some val \<Rightarrow>
               ebind (case req_converter param of
                        None \<Rightarrow> Inr (PStr val)
                      | Some conv \<Rightarrow>
                          (case conv val of
                             Inl (JsonableError m) \<Rightarrow> Inl (JsonableError m)
                           | Inl e \<Rightarrow> Inl (JsonableError (''Bad value for '' @ name @ '': '' @ val))
                           | Inr v \<Rightarrow> Inr v)) (\<lambda>v1.
               case req_validator param of
                 None \<Rightarrow> Inr v1
               | Some vald \<Rightarrow>
                   ebind (the_some (JsonableError (''Argument '' @ name @ '' is not valid JSON.'')) (loads val)) (\<lambda>v2.
                   ebind (vald name v2) (\<lambda>error.
                     if is_error error then Inl (JsonableError (the error)) else Inr v2))))"

fun bind_params :: "(string \<Rightarrow> pyval option) \<Rightarrow> http_request \<Rightarrow> req list \<Rightarrow> pydict \<Rightarrow> pyerr + pydict" where
  "bind_params loads request [] kwargs = Inr kwargs"
| "bind_params loads request (param # rest) kwargs =
     (if dhas kwargs (func_var_name param) then bind_params loads request rest kwargs
      else ebind (bind_param loads request param) (\<lambda>v.
             bind_params loads request rest (dset (func_var_name param) v kwargs)))"

definition has_request_variables ::
  "(string \<Rightarrow> pyval option) \<Rightarrow> (string \<times> req option) list \<Rightarrow> (pydict \<Rightarrow> pyerr + 'r) \<Rightarrow> http_request \<Rightarrow> pydict \<Rightarrow> pyerr + 'r" where
  "has_request_variables loads params view_func request kwargs =
     ebind (bind_params loads request (post_params params) kwargs) view_func"

lemma bind_params_keeps:
  "bind_params loads request ps kwargs = Inr kw \<Longrightarrow> map_of kwargs k = Some v \<Longrightarrow> map_of kw k = Some v"
proof (induction ps arbitrary: kwargs)
  case (Cons p ps)
  show ?case
  proof (cases "map_of kwargs (func_var_name p)")
    case None
    then obtain w where "bind_params loads request ps (dset (func_var_name p) w kwargs) = Inr kw"
      using Cons.prems(1) by auto
    moreover have "map_of (dset (func_var_name p) w kwargs) k = Some v" using None Cons.prems(2) by auto
    ultimately show ?thesis by (rule Cons.IH)
  qed (use Cons in auto)
qed simp

lemma bind_params_bound:
  "bind_params loads request ps kwargs = Inr kw \<Longrightarrow> p \<in> set ps \<Longrightarrow> distinct (map func_var_name ps) \<Longrightarrow>
   map_of kwargs (func_var_name p) = None \<Longrightarrow>
   \<exists>v. bind_param loads request p = Inr v \<and> map_of kw (func_var_name p) = Some v"
proof (induction ps arbitrary: kwargs)
  case (Cons q ps)
  show ?case
  proof (cases "p = q")
    case True
    with Cons.prems obtain v where "bind_param loads request p = Inr v"
      "bind_params loads request ps (dset (func_var_name p) v kwargs) = Inr kw"
      by auto
    then show ?thesis using bind_params_keeps[of loads request ps _ kw "func_var_name p" v] by auto
  next
    case False
    then have p: "p \<in> set ps" "func_var_name p \<noteq> func_var_name q"
      using Cons.prems(2,3) by (auto simp: image_iff)
    show ?thesis
    proof (cases "map_of kwargs (func_var_name q)")
      case None
      with Cons.prems obtain v where "bind_params loads request ps (dset (func_var_name q) v kwargs) = Inr kw" by auto
      then show ?thesis using Cons.IH p Cons.prems by fastforce
    next
      case (Some w)
      then have "bind_params loads request ps kwargs = Inr kw" using Cons.prems(1) by simp
      then show ?thesis using Cons.IH p Cons.prems by fastforce
    qed
  qed
qed simp

text \<open>A validated parameter: the default when the request has none, else a value of the type.\<close>

lemma bind_param_validated:
  assumes "bind_param loads request p = Inr v" and "argument_type p = None" and "req_validator p = Some (vtype_check t)"
  shows "if query_param request (the (post_var_name p)) = None then req_default p = Some v else has_type t v"
proof (cases "query_param request (the (post_var_name p))")
  case None
  then show ?thesis using assms by (simp add: bind_param_def Let_def)
next
  case (Some val)
  then obtain v2 e where "v = v2" "vtype_check t (the (post_var_name p)) v2 = Inr e" "\<not> is_error e"
    using assms by (auto simp: bind_param_def Let_def split: if_splits)
  then show ?thesis using Some decidesD[OF vtype_check_decides[of t], of "the (post_var_name p)" v2] by auto
qed

section \<open>Properties\<close>

text \<open>
  C39: Validators composed with the code's combinators (string, integer, float, boolean,
  optional, list with an optional length, dictionary with required keys, one of several)
  never raise, accept exactly the values of the shape they describe, and give a message
  for every other value.
\<close>

theorem validators_exact:
  "\<exists>error. vtype_check t var_name v = Inr error \<and> (error = None \<longleftrightarrow> has_type t v) \<and> (is_error error \<longleftrightarrow> \<not> has_type t v)"
  using decidesD[OF vtype_check_decides[of t], of var_name v] by (auto simp: is_error_def)

text \<open>
  A view only runs with arguments that were checked: each validated parameter that the
  caller did not pass itself is bound to its default if the request has no such variable,
  and otherwise to a value of the type its validator describes.
\<close>

theorem view_arguments_validated:
  assumes "has_request_variables loads params Inr request kwargs = Inr kw"
    and "p \<in> set (post_params params)" and "distinct (map fst params)"
    and "map_of kwargs (func_var_name p) = None"
    and "argument_type p = None" and "req_validator p = Some (vtype_check t)"
  shows "\<exists>v. map_of kw (func_var_name p) = Some v \<and>
    (if query_param request (the (post_var_name p)) = None then req_default p = Some v else has_type t v)"
proof -
  have names: "map func_var_name (post_params params) = map fst (filter (\<lambda>(name, r). r \<noteq> None) params)"
    by (simp add: post_params_def comp_def case_prod_unfold)
  have "distinct (map func_var_name (post_params params))"
    unfolding names using assms(3) by (rule distinct_map_filter)
  then obtain v where "bind_param loads request p = Inr v" "map_of kw (func_var_name p) = Some v"
    using bind_params_bound[of loads request "post_params params" kwargs kw p] assms
    by (auto simp: has_request_variables_def)
  then show ?thesis using bind_param_validated assms by blast
qed

definition demo_req :: req where
  "demo_req = \<lparr>post_var_name = None, func_var_name = [], req_converter = None,
     req_validator = Some (vtype_check (TList (Some TInt) None)), req_default = None, argument_type = None\<rparr>"

definition demo_loads :: "string \<Rightarrow> pyval option" where
  "demo_loads s = (if s = ''[4, 5]'' then Some (PList [PInt 4, PInt 5]) else None)"

theorem view_arguments_validated_witness:
  "\<exists>v. map_of [(''messages'', PList [PInt 4, PInt 5])] ''messages'' = Some v \<and> has_type (TList (Some TInt) None) v"
proof -
  let ?r = "\<lparr>GET = [], POST = [(''messages'', ''[4, 5]'')], body = []\<rparr>"
  let ?p = "demo_req\<lparr>func_var_name := ''messages'', post_var_name := Some ''messages''\<rparr>"
  have "has_request_variables demo_loads [(''messages'', Some demo_req)] Inr ?r [] = Inr [(''messages'', PList [PInt 4, PInt 5])]"
    by code_simp
  from view_arguments_validated[OF this, of ?p "TList (Some TInt) None"]
  show ?thesis by (simp add: post_params_def demo_req_def query_param_def)
qed

text \<open>
  \<open>check_short_string\<close> is not such a validator: it takes the length before it looks at
  the type, so an integer makes it raise instead of returning a message, and a list of 200
  items is reported as a string that is too long.
\<close>

theorem check_short_string_raises:
  "check_short_string var_name (PInt i) = Inl (TypeError ''object has no len()'') \<and>
   check_short_string var_name (PList (replicate 200 v)) = Inr (Some (var_name @ '' is longer than 200.''))"
proof -
  have "int_str 200 = ''200''" by code_simp
  then show ?thesis by (simp add: check_short_string_def Let_def)
qed

end
