(* ===== verification/RateLimiter.thy ===== *)
theory RateLimiter
  imports Prelude
begin

text \<open>
  \<open>zerver/lib/rate_limiter.py\<close>. Redis is not part of the program: its commands are an
  argument (\<open>redis_ops\<close>), with the time of the command, and what the code relies on is
  \<open>redis_ok\<close>, over what a reader sees of a key at a time (documented: \<open>LPUSH\<close> prepends,
  \<open>LTRIM\<close> keeps a range, \<open>LINDEX\<close> reads an element, \<open>EXPIRE\<close> removes a key after so many
  seconds, no command touches another key). A rule is a pair of seconds and requests.
\<close>

section \<open>Redis\<close>

record 'r redis_ops =
  lindex :: "rat \<Rightarrow> string \<Rightarrow> int \<Rightarrow> 'r \<Rightarrow> rat option"
  lpush :: "rat \<Rightarrow> string \<Rightarrow> rat \<Rightarrow> 'r \<Rightarrow> 'r"
  ltrim :: "rat \<Rightarrow> string \<Rightarrow> int \<Rightarrow> int \<Rightarrow> 'r \<Rightarrow> 'r"
  zadd :: "rat \<Rightarrow> string \<Rightarrow> rat \<Rightarrow> 'r \<Rightarrow> 'r"
  zrem :: "rat \<Rightarrow> string \<Rightarrow> rat \<Rightarrow> 'r \<Rightarrow> 'r"
  zcount :: "rat \<Rightarrow> string \<Rightarrow> rat \<Rightarrow> rat \<Rightarrow> 'r \<Rightarrow> nat"
  rget :: "rat \<Rightarrow> string \<Rightarrow> 'r \<Rightarrow> string option"
  ttl :: "rat \<Rightarrow> string \<Rightarrow> 'r \<Rightarrow> int option"
  rset :: "rat \<Rightarrow> string \<Rightarrow> string \<Rightarrow> 'r \<Rightarrow> 'r"
  expire :: "rat \<Rightarrow> string \<Rightarrow> int \<Rightarrow> 'r \<Rightarrow> 'r"
  delete_key :: "rat \<Rightarrow> string \<Rightarrow> 'r \<Rightarrow> 'r"

section \<open>Rules\<close>

type_synonym rule = "int \<times> int"

record rl_user =
  rl_id :: int
  rate_limits :: string

text \<open>\<open>limit.split(':', 2)\<close> must give two parts.\<close>

definition parse_limit :: "string \<Rightarrow> pyerr + rule" where
  "parse_limit limit =
     (case str_split (CHR '':'') limit of
        [seconds, requests] \<Rightarrow>
          ebind (parse_int seconds) (\<lambda>s. ebind (parse_int requests) (\<lambda>n. Inr (s, n)))
      | _ \<Rightarrow> Inl (ValueError limit))"

definition rules_for_user :: "rule list \<Rightarrow> rl_user \<Rightarrow> pyerr + rule list" where
  "rules_for_user rules user =
     (if rate_limits user \<noteq> [] then emap parse_limit (str_split (CHR '','') (rate_limits user)) else Inr rules)"

definition redis_key :: "rl_user \<Rightarrow> string \<Rightarrow> string \<Rightarrow> string" where
  "redis_key user domain keytype =
     ''ratelimit:<class 'zerver.models.UserProfile'>:'' @ int_str (rl_id user) @ '':'' @ domain @ '':'' @ keytype"

text \<open>\<open>_rules_for_user(user)[-1]\<close>\<close>

definition last_rule :: "rule list \<Rightarrow> rl_user \<Rightarrow> pyerr + rule" where
  "last_rule rules user =
     ebind (rules_for_user rules user) (\<lambda>rs. if rs = [] then Inl IndexError else Inr (last rs))"

definition max_api_calls :: "rule list \<Rightarrow> rl_user \<Rightarrow> pyerr + int" where
  "max_api_calls rules user = ebind (last_rule rules user) (\<lambda>r. Inr (snd r))"

definition max_api_window :: "rule list \<Rightarrow> rl_user \<Rightarrow> pyerr + int" where
  "max_api_window rules user = ebind (last_rule rules user) (\<lambda>r. Inr (fst r))"

definition add_ratelimit_rule :: "int \<Rightarrow> int \<Rightarrow> rule list \<Rightarrow> rule list" where
  "add_ratelimit_rule range_seconds num_requests rules = sort_key fst (rules @ [(range_seconds, num_requests)])"

definition remove_ratelimit_rule :: "int \<Rightarrow> int \<Rightarrow> rule list \<Rightarrow> rule list" where
  "remove_ratelimit_rule range_seconds num_requests rules =
     filter (\<lambda>x. fst x \<noteq> range_seconds \<and> snd x \<noteq> num_requests) rules"

section \<open>Blocking and counting\<close>

definition block_user :: "'r redis_ops \<Rightarrow> rat \<Rightarrow> rl_user \<Rightarrow> int \<Rightarrow> string \<Rightarrow> 'r \<Rightarrow> 'r" where
  "block_user R now user seconds domain r =
     (let k = redis_key user domain ''block'' in expire R now k seconds (rset R now k ''1'' r))"

definition unblock_user :: "'r redis_ops \<Rightarrow> rat \<Rightarrow> rl_user \<Rightarrow> string \<Rightarrow> 'r \<Rightarrow> 'r" where
  "unblock_user R now user domain r = delete_key R now (redis_key user domain ''block'') r"

definition clear_user_history :: "'r redis_ops \<Rightarrow> rat \<Rightarrow> rl_user \<Rightarrow> string \<Rightarrow> 'r \<Rightarrow> 'r" where
  "clear_user_history R now user domain r =
     foldl (\<lambda>r kt. delete_key R now (redis_key user domain kt) r) r [''list'', ''zset'', ''block'']"

definition get_api_calls_left ::
  "'r redis_ops \<Rightarrow> rat \<Rightarrow> rl_user \<Rightarrow> string \<Rightarrow> int \<Rightarrow> int \<Rightarrow> 'r \<Rightarrow> int \<times> rat" where
  "get_api_calls_left R now user domain range_seconds max_calls r =
     (let boundary = now - of_int range_seconds;
          count = zcount R now (redis_key user domain ''zset'') boundary now r;
          newest_call = lindex R now (redis_key user domain ''list'') 0 r
      in (max_calls - int count,
          case newest_call of
            Some t \<Rightarrow> now + (of_int range_seconds - (now - t))
          | None \<Rightarrow> now))"

definition api_calls_left :: "'r redis_ops \<Rightarrow> rule list \<Rightarrow> rat \<Rightarrow> rl_user \<Rightarrow> string \<Rightarrow> 'r \<Rightarrow> pyerr + int \<times> rat" where
  "api_calls_left R rules now user domain r =
     ebind (last_rule rules user) (\<lambda>(max_window, max_calls).
       Inr (get_api_calls_left R now user domain max_window max_calls r))"

text \<open>The loop over the rules with the timestamps read for them.\<close>

fun check_rules :: "rat \<Rightarrow> (rat option \<times> rule) list \<Rightarrow> bool \<times> rat" where
  "check_rules now [] = (False, 0)"
| "check_rules now ((None, _) # rest) = check_rules now rest"
| "check_rules now ((Some timestamp, (range_seconds, num_requests)) # rest) =
     (let boundary = timestamp + of_int range_seconds
      in if boundary > now then (True, boundary - now) else check_rules now rest)"

definition is_ratelimited :: "'r redis_ops \<Rightarrow> rule list \<Rightarrow> rat \<Rightarrow> rl_user \<Rightarrow> string \<Rightarrow> 'r \<Rightarrow> pyerr + bool \<times> rat" where
  "is_ratelimited R rules now user domain r =
     ebind (rules_for_user rules user) (\<lambda>rs.
       if rs = [] then Inr (False, 0)
       else
         let list_key = redis_key user domain ''list''; blocking_key = redis_key user domain ''block'';
             rule_timestamps = map (\<lambda>(_, request_count). lindex R now list_key (request_count - 1) r) rs
         in Inr (if rget R now blocking_key r \<noteq> None
                 then (True, case ttl R now blocking_key r of None \<Rightarrow> 1 / 2 | Some t \<Rightarrow> of_int t)
                 else check_rules now (zip rule_timestamps rs)))"

text \<open>One transaction of \<open>incr_ratelimit\<close>.\<close>

definition incr_transaction :: "'r redis_ops \<Rightarrow> rat \<Rightarrow> rl_user \<Rightarrow> string \<Rightarrow> int \<Rightarrow> int \<Rightarrow> 'r \<Rightarrow> 'r" where
  "incr_transaction R now user domain max_calls window r =
     (let list_key = redis_key user domain ''list''; set_key = redis_key user domain ''zset'';
          last_val = lindex R now list_key (max_calls - 1) r;
          r1 = lpush R now list_key now r;
          r2 = ltrim R now list_key 0 (max_calls - 1) r1;
          r3 = zadd R now set_key now r2;
          r4 = (case last_val of None \<Rightarrow> r3 | Some v \<Rightarrow> zrem R now set_key v r3);
          r5 = expire R now list_key window r4
      in expire R now set_key window r5)"

text \<open>
  The retry loop: \<open>others\<close> lists what other agents do to the watched list before each
  attempt; an attempt with such an interference raises \<open>WatchError\<close>.
\<close>

fun incr_loop :: "('r \<Rightarrow> 'r) \<Rightarrow> ('r \<Rightarrow> 'r) list \<Rightarrow> nat \<Rightarrow> 'r \<Rightarrow> 'r" where
  "incr_loop transaction [] count r = transaction r"
| "incr_loop transaction (other # others) count r =
     (if count > 10 then other r else incr_loop transaction others (count + 1) (other r))"

definition incr_ratelimit ::
  "'r redis_ops \<Rightarrow> rule list \<Rightarrow> rat \<Rightarrow> rl_user \<Rightarrow> string \<Rightarrow> ('r \<Rightarrow> 'r) list \<Rightarrow> 'r \<Rightarrow> pyerr + 'r" where
  "incr_ratelimit R rules now user domain others r =
     (if rules = [] then Inr r
      else ebind (last_rule rules user) (\<lambda>(window, max_calls).
             Inr (incr_loop (incr_transaction R now user domain max_calls window) others 0 r)))"

section \<open>What the code relies on\<close>

text \<open>\<open>lview R t r k\<close> is the list a reader sees under key \<open>k\<close> at time \<open>t\<close>.\<close>

definition redis_ok :: "'r redis_ops \<Rightarrow> (rat \<Rightarrow> 'r \<Rightarrow> string \<Rightarrow> rat list) \<Rightarrow> (rat \<Rightarrow> 'r \<Rightarrow> string \<Rightarrow> string option) \<Rightarrow> bool" where
  "redis_ok R lview sview \<longleftrightarrow>
     (\<forall>now k i r. 0 \<le> i \<longrightarrow> lindex R now k i r =
        (if nat i < length (lview now r k) then Some (lview now r k ! nat i) else None)) \<and>
     (\<forall>now k v r. lview now (lpush R now k v r) k = v # lview now r k) \<and>
     (\<forall>now k n r. 0 \<le> n \<longrightarrow> lview now (ltrim R now k 0 n r) k = take (Suc (nat n)) (lview now r k)) \<and>
     (\<forall>now k j v r t. j \<noteq> k \<longrightarrow> now \<le> t \<longrightarrow> lview t (zadd R now j v r) k = lview t r k \<and>
        lview t (zrem R now j v r) k = lview t r k) \<and>
     (\<forall>now k s r t. now \<le> t \<longrightarrow> lview t (expire R now k s r) k =
        (if t < now + of_int s then lview now r k else [])) \<and>
     (\<forall>now j k s r t. j \<noteq> k \<longrightarrow> now \<le> t \<longrightarrow> lview t (expire R now j s r) k = lview t r k) \<and>
     (\<forall>now k r. rget R now k r = sview now r k) \<and>
     (\<forall>now k v r. sview now (rset R now k v r) k = Some v) \<and>
     (\<forall>now k s r t. now \<le> t \<longrightarrow> sview t (expire R now k s r) k =
        (if t < now + of_int s then sview now r k else None)) \<and>
     (\<forall>now k r t. now \<le> t \<longrightarrow> sview t (delete_key R now k r) k = None)"

lemma redis_okD:
  assumes "redis_ok R lview sview"
  shows "0 \<le> i \<Longrightarrow> lindex R now k i r = (if nat i < length (lview now r k) then Some (lview now r k ! nat i) else None)"
    and "lview now (lpush R now k v r) k = v # lview now r k"
    and "0 \<le> n \<Longrightarrow> lview now (ltrim R now k 0 n r) k = take (Suc (nat n)) (lview now r k)"
    and "j \<noteq> k \<Longrightarrow> now \<le> t \<Longrightarrow> lview t (zadd R now j v r) k = lview t r k"
    and "j \<noteq> k \<Longrightarrow> now \<le> t \<Longrightarrow> lview t (zrem R now j v r) k = lview t r k"
    and "now \<le> t \<Longrightarrow> lview t (expire R now k s r) k = (if t < now + of_int s then lview now r k else [])"
    and "j \<noteq> k \<Longrightarrow> now \<le> t \<Longrightarrow> lview t (expire R now j s r) k = lview t r k"
    and "rget R now k r = sview now r k"
    and "sview now (rset R now k w r) k = Some w"
    and "now \<le> t \<Longrightarrow> sview t (expire R now k s r) k = (if t < now + of_int s then sview now r k else None)"
    and "now \<le> t \<Longrightarrow> sview t (delete_key R now k r) k = None"
proof -
  note c1 = assms[unfolded redis_ok_def]
  show "0 \<le> i \<Longrightarrow> lindex R now k i r = (if nat i < length (lview now r k) then Some (lview now r k ! nat i) else None)"
    using conjunct1[OF c1] by simp
  note c2 = conjunct2[OF c1]
  show "lview now (lpush R now k v r) k = v # lview now r k"
    using conjunct1[OF c2] by simp
  note c3 = conjunct2[OF c2]
  show "0 \<le> n \<Longrightarrow> lview now (ltrim R now k 0 n r) k = take (Suc (nat n)) (lview now r k)"
    using conjunct1[OF c3] by simp
  note c4 = conjunct2[OF c3]
  show "j \<noteq> k \<Longrightarrow> now \<le> t \<Longrightarrow> lview t (zadd R now j v r) k = lview t r k"
    "j \<noteq> k \<Longrightarrow> now \<le> t \<Longrightarrow> lview t (zrem R now j v r) k = lview t r k"
    using conjunct1[OF c4] by blast+
  note c5 = conjunct2[OF c4]
  show "now \<le> t \<Longrightarrow> lview t (expire R now k s r) k = (if t < now + of_int s then lview now r k else [])"
    using conjunct1[OF c5] by simp
  note c6 = conjunct2[OF c5]
  show "j \<noteq> k \<Longrightarrow> now \<le> t \<Longrightarrow> lview t (expire R now j s r) k = lview t r k"
    using conjunct1[OF c6] by simp
  note c7 = conjunct2[OF c6]
  show "rget R now k r = sview now r k"
    using conjunct1[OF c7] by simp
  note c8 = conjunct2[OF c7]
  show "sview now (rset R now k w r) k = Some w"
    using conjunct1[OF c8] by simp
  note c9 = conjunct2[OF c8]
  show "now \<le> t \<Longrightarrow> sview t (expire R now k s r) k = (if t < now + of_int s then sview now r k else None)"
    using conjunct1[OF c9] by simp
  note c10 = conjunct2[OF c9]
  show "now \<le> t \<Longrightarrow> sview t (delete_key R now k r) k = None"
    using c10 by simp
qed

section \<open>The limiter against a log of all calls\<close>

text \<open>
  The log holds the times of all recorded calls, the newest first. The list in Redis is a
  prefix of it, and whatever it leaves out is either beyond the number of calls that is
  kept or older than the longest window.
\<close>

definition stored :: "int \<Rightarrow> int \<Rightarrow> rat \<Rightarrow> rat list \<Rightarrow> rat list \<Rightarrow> bool" where
  "stored max_calls window t l calls \<longleftrightarrow> (\<exists>m. l = take m calls \<and>
     (\<forall>i < length calls. m \<le> i \<longrightarrow> max_calls \<le> int i \<or> calls ! i + of_int window \<le> t))"








text \<open>
  The rules that matter: at least one request each, and the last rule has the longest
  window. (\<open>add_ratelimit_rule\<close> keeps the rules sorted by their window.)
\<close>

definition rules_ok :: "rule list \<Rightarrow> bool" where
  "rules_ok rs \<longleftrightarrow> rs \<noteq> [] \<and> (\<forall>r \<in> set rs. 1 \<le> snd r \<and> fst r \<le> fst (last rs))"

lemma add_rule_sorted: "sorted (map fst (add_ratelimit_rule s n rules))"
  by (simp add: add_ratelimit_rule_def)

lemma sorted_rules_ok:
  assumes "sorted (map fst rs)" and "rs \<noteq> []" and "\<forall>r \<in> set rs. 1 \<le> snd r"
  shows "rules_ok rs"
proof -
  have "fst r \<le> fst (last rs)" if "r \<in> set rs" for r
  proof -
    have rs: "rs = butlast rs @ [last rs]" using assms(2) by simp
    then have "sorted (map fst (butlast rs @ [last rs]))" using assms(1) by simp
    moreover have "r \<in> set (butlast rs @ [last rs])" using that rs by simp
    ultimately show ?thesis by (auto simp: sorted_append)
  qed
  with assms show ?thesis by (simp add: rules_ok_def)
qed



lemma redis_key_distinct [simp]: "redis_key u d k = redis_key u d k' \<longleftrightarrow> k = k'"
  by (simp add: redis_key_def)

text \<open>Recording a call keeps the list in step with the log, at every later time.\<close>

lemma incr_transaction_stored:
  assumes R: "redis_ok R lview sview" and st: "stored m w now (lview now r (redis_key user domain ''list'')) calls"
    and m: "1 \<le> m" and newest: "\<forall>t \<in> set calls. t \<le> now" and later: "now \<le> t"
  shows "stored m w t (lview t (incr_transaction R now user domain m w r) (redis_key user domain ''list'')) (now # calls)"
proof -
  let ?k = "redis_key user domain ''list''" and ?z = "redis_key user domain ''zset''"
  let ?r2 = "ltrim R now ?k 0 (m - 1) (lpush R now ?k now r)"
  let ?r4 = "case lindex R now ?k (m - 1) r of None \<Rightarrow> zadd R now ?z now ?r2 | Some v \<Rightarrow> zrem R now ?z v (zadd R now ?z now ?r2)"
  have zk: "?z \<noteq> ?k" by simp
  have trim: "lview now ?r2 ?k = take (nat m) (now # lview now r ?k)"
    using redis_okD(2,3)[OF R] m by (simp add: Suc_nat_eq_nat_zadd1)
  have zl: "lview now (zadd R now ?z v x) ?k = lview now x ?k" "lview now (zrem R now ?z v x) ?k = lview now x ?k" for v x
    using redis_okD(4,5)[OF R zk] by simp_all
  have r4: "lview now ?r4 ?k = take (nat m) (now # lview now r ?k)"
    by (simp add: zl trim split: option.splits)
  have exp: "lview t (expire R now ?k w x) ?k = (if t < now + of_int w then lview now x ?k else [])" for x
    using redis_okD(6)[OF R later] .
  have other: "lview t (expire R now ?z w x) ?k = lview t x ?k" for x
    using redis_okD(7)[OF R zk later] .
  have view: "lview t (incr_transaction R now user domain m w r) ?k =
      (if t < now + of_int w then take (nat m) (now # lview now r ?k) else [])"
    by (simp add: incr_transaction_def Let_def other exp r4)
  obtain k where k: "lview now r ?k = take k calls"
    "\<And>i. i < length calls \<Longrightarrow> k \<le> i \<Longrightarrow> m \<le> int i \<or> calls ! i + of_int w \<le> now"
    using st by (auto simp: stored_def)
  show ?thesis
  proof (cases "t < now + of_int w")
    case False
    have "(now # calls) ! i \<le> now" if "i < length (now # calls)" for i
      using that newest nth_mem by (cases i) auto
    then show ?thesis
      unfolding view stored_def using False by (intro exI[of _ 0]) (force simp: not_less)
  next
    case True
    have "take (nat m) (now # lview now r ?k) = take (min (nat m) (Suc k)) (now # calls)"
      using k(1) m by (cases "nat m") (simp_all add: min.commute)
    moreover have "m \<le> int i \<or> (now # calls) ! i + of_int w \<le> t"
      if i: "i < length (now # calls)" "min (nat m) (Suc k) \<le> i" for i
    proof (cases "nat m \<le> i")
      case True
      then show ?thesis by linarith
    next
      case False
      then obtain j where j: "i = Suc j" "k \<le> j" using i(2) by (cases i) auto
      then have "m \<le> int j \<or> calls ! j + of_int w \<le> now" using k(2)[of j] i(1) by simp
      then show ?thesis using j later by auto
    qed
    ultimately show ?thesis unfolding view stored_def using True by auto
  qed
qed

lemma incr_loop_run: "count + length fs \<le> 11 \<Longrightarrow> incr_loop tr fs count x = tr (foldl (\<lambda>r f. f r) x fs)"
  by (induction tr fs count x rule: incr_loop.induct) auto

section \<open>A concrete Redis\<close>

text \<open>Lists and strings with their expiry times; enough to run the limiter.\<close>

record rstore =
  rs_lists :: "string \<Rightarrow> rat list"
  rs_strings :: "string \<Rightarrow> string option"
  rs_expiry :: "string \<Rightarrow> rat option"

definition alive :: "rat \<Rightarrow> string \<Rightarrow> rstore \<Rightarrow> bool" where
  "alive t k r \<longleftrightarrow> (case rs_expiry r k of None \<Rightarrow> True | Some e \<Rightarrow> t < e)"

definition rs_lview :: "rat \<Rightarrow> rstore \<Rightarrow> string \<Rightarrow> rat list" where
  "rs_lview t r k = (if alive t k r then rs_lists r k else [])"

definition rs_sview :: "rat \<Rightarrow> rstore \<Rightarrow> string \<Rightarrow> string option" where
  "rs_sview t r k = (if alive t k r then rs_strings r k else None)"

definition rs_fresh :: "rat \<Rightarrow> string \<Rightarrow> rstore \<Rightarrow> rstore" where
  "rs_fresh t k r = (if alive t k r then r else r\<lparr>rs_expiry := (rs_expiry r)(k := None)\<rparr>)"

definition demo_redis :: "rstore redis_ops" where
  "demo_redis = \<lparr>
     lindex = (\<lambda>t k i r. if 0 \<le> i \<and> nat i < length (rs_lview t r k) then Some (rs_lview t r k ! nat i) else None),
     lpush = (\<lambda>t k v r. (rs_fresh t k r)\<lparr>rs_lists := (rs_lists r)(k := v # rs_lview t r k)\<rparr>),
     ltrim = (\<lambda>t k i j r. (rs_fresh t k r)\<lparr>rs_lists := (rs_lists r)(k := take (nat (j + 1)) (rs_lview t r k))\<rparr>),
     zadd = (\<lambda>t k v r. r), zrem = (\<lambda>t k v r. r), zcount = (\<lambda>t k a b r. 0),
     rget = (\<lambda>t k r. rs_sview t r k), ttl = (\<lambda>t k r. None),
     rset = (\<lambda>t k v r. r\<lparr>rs_strings := (rs_strings r)(k := Some v), rs_expiry := (rs_expiry r)(k := None)\<rparr>),
     expire = (\<lambda>t k s r. r\<lparr>rs_lists := (rs_lists r)(k := rs_lview t r k), rs_strings := (rs_strings r)(k := rs_sview t r k),
                          rs_expiry := (rs_expiry r)(k := Some (t + of_int s))\<rparr>),
     delete_key = (\<lambda>t k r. r\<lparr>rs_lists := (rs_lists r)(k := []), rs_strings := (rs_strings r)(k := None)\<rparr>)\<rparr>"

lemma demo_redis_ok: "redis_ok demo_redis rs_lview rs_sview"
  unfolding redis_ok_def
  by (intro conjI allI impI) (auto simp: demo_redis_def rs_lview_def rs_sview_def alive_def rs_fresh_def nat_add_distrib)

definition demo_rl_user :: rl_user where
  "demo_rl_user = \<lparr>rl_id = 5, rate_limits = []\<rparr>"

definition demo_store :: rstore where
  "demo_store = \<lparr>rs_lists = (\<lambda>_. []), rs_strings = (\<lambda>_. None), rs_expiry = (\<lambda>_. None)\<rparr>"

section \<open>Properties\<close>


lemma stored_empty: "stored m w t [] []"
  by (simp add: stored_def)


text \<open>
  Recording a call under interference ends: with at most eleven failed attempts the
  call is recorded exactly once, on the list the others left, and the stored list agrees
  with the log extended by this call at every later time; after more failures nothing is
  recorded.
\<close>

theorem incr_ratelimit_records:
  assumes "redis_ok R lview sview" and "rules \<noteq> []" and "last_rule rules user = Inr (w, m)" and "1 \<le> m"
    and "length others \<le> 11" and "r' = foldl (\<lambda>r f. f r) r others"
    and "stored m w now (lview now r' (redis_key user domain ''list'')) calls" and "\<forall>t \<in> set calls. t \<le> now"
    and "now \<le> t"
  shows "\<exists>r''. incr_ratelimit R rules now user domain others r = Inr r'' \<and>
    stored m w t (lview t r'' (redis_key user domain ''list'')) (now # calls)"
proof -
  have run: "incr_ratelimit R rules now user domain others r = Inr (incr_transaction R now user domain m w r')"
    using assms(2,3,5,6) by (simp add: incr_ratelimit_def incr_loop_run)
  show ?thesis
    unfolding run using incr_transaction_stored[OF assms(1,7,4,8,9)] by blast
qed

theorem incr_ratelimit_records_witness:
  "\<exists>r''. incr_ratelimit demo_redis [(60, 2)] 10 demo_rl_user ''all'' [] demo_store = Inr r'' \<and>
     stored 2 60 20 (rs_lview 20 r'' (redis_key demo_rl_user ''all'' ''list'')) [10]"
  by (rule incr_ratelimit_records[OF demo_redis_ok, where r' = demo_store])
    (simp_all add: last_rule_def rules_for_user_def demo_rl_user_def demo_store_def rs_lview_def alive_def stored_empty)

text \<open>
  \<open>remove_ratelimit_rule\<close> removes more than its rule: a rule that only shares the
  window or only the number of requests with the argument is dropped as well.
\<close>

theorem remove_rule_removes_more:
  "(s, m) \<notin> set (remove_ratelimit_rule s n rules) \<and> (w, n) \<notin> set (remove_ratelimit_rule s n rules)"
  by (simp add: remove_ratelimit_rule_def)

text \<open>
  A blocked user is limited, whatever the calls, until the block expires, and the
  block is gone right after \<open>unblock_user\<close>.
\<close>

theorem block_user_blocks:
  assumes "redis_ok R lview sview" and "rules_for_user rules user = Inr rs" and "rs \<noteq> []"
    and "now \<le> t" and "t < now + of_int seconds"
  shows "\<exists>free. is_ratelimited R rules t user domain (block_user R now user seconds domain r) = Inr (True, free)"
proof -
  have "sview t (block_user R now user seconds domain r) (redis_key user domain ''block'') = Some ''1''"
    using redis_okD(9,10)[OF assms(1)] assms(4,5) by (simp add: block_user_def Let_def)
  then show ?thesis using assms(2,3) redis_okD(8)[OF assms(1)] by (simp add: is_ratelimited_def Let_def)
qed

theorem block_user_blocks_witness:
  "\<exists>free. is_ratelimited demo_redis [(60, 2)] 12 demo_rl_user ''all'' (block_user demo_redis 10 demo_rl_user 5 ''all'' demo_store) = Inr (True, free)"
  by (rule block_user_blocks[OF demo_redis_ok, where rs = "[(60, 2)]"]) (simp_all add: rules_for_user_def demo_rl_user_def)

end
