(* ===== verification/Activity.thy ===== *)
theory Activity
  imports Sending
begin

text \<open>
  What the server records of a user's activity (\<open>zerver/lib/actions.py\<close>): the activity
  intervals, the counters by client and query, the presence of each client, and the pointer.
\<close>

section \<open>Activity intervals and counters\<close>

definition MIN_INTERVAL_LENGTH :: rat where
  "MIN_INTERVAL_LENGTH = 15 * 60"

text \<open>\<open>filter(user_profile=...).order_by("-end")[0]\<close>\<close>

definition last_interval :: "int \<Rightarrow> db \<Rightarrow> user_activity_interval option" where
  "last_interval uid d =
     (case sort_key (\<lambda>i. - ui_end i) (filter (\<lambda>i. ui_user_profile i = uid) (activity_intervals d)) of
        [] \<Rightarrow> None | i # _ \<Rightarrow> Some i)"

definition do_update_user_activity_interval :: "user_profile \<Rightarrow> rat \<Rightarrow> unit act" where
  "do_update_user_activity_interval u log_time =
     (let effective_end = log_time + MIN_INTERVAL_LENGTH;
          create = seq fresh_id (\<lambda>i. modify_db (\<lambda>d. d\<lparr>activity_intervals := activity_intervals d @
            [\<lparr>ui_id = i, ui_user_profile = u_id u, ui_start = log_time, ui_end = effective_end\<rparr>]\<rparr>)) in
      seq (lookup (last_interval (u_id u))) (\<lambda>found.
        case found of
          None \<Rightarrow> create
        | Some i \<Rightarrow>
            if (log_time \<le> ui_end i \<and> log_time \<ge> ui_start i) \<or> (effective_end \<le> ui_end i \<and> effective_end \<ge> ui_start i)
            then modify_db (\<lambda>d. d\<lparr>activity_intervals := map (\<lambda>x. if ui_id x = ui_id i
              then x\<lparr>ui_end := max (ui_end i) effective_end, ui_start := min (ui_start i) log_time\<rparr> else x)
              (activity_intervals d)\<rparr>)
            else create))"

definition do_update_user_activity :: "user_profile \<Rightarrow> string \<Rightarrow> string \<Rightarrow> rat \<Rightarrow> unit act" where
  "do_update_user_activity u client_name qry log_time =
     (let here = (\<lambda>a. ua_user_profile a = u_id u \<and> ua_client_name a = client_name \<and> ua_query a = qry) in
      seq (query (\<lambda>d. case db_get ''UserActivity'' here (activities d) of
            Inl (DoesNotExist _) \<Rightarrow> Inr True | Inl e \<Rightarrow> Inl e | Inr a \<Rightarrow> Inr False)) (\<lambda>created.
      andthen (if created
               then modify_db (\<lambda>d. d\<lparr>activities := activities d @ [\<lparr>ua_user_profile = u_id u, ua_client_name = client_name,
                      ua_query = qry, ua_count = 0, ua_last_visit = log_time\<rparr>]\<rparr>)
               else ret ())
        (modify_db (\<lambda>d. d\<lparr>activities := map (\<lambda>a. if here a
           then a\<lparr>ua_count := ua_count a + 1, ua_last_visit := log_time\<rparr> else a) (activities d)\<rparr>))))"

definition update_user_activity_interval :: "user_profile \<Rightarrow> rat \<Rightarrow> unit act" where
  "update_user_activity_interval u log_time = queue_json_publish ''user_activity_interval''
     [(''user_profile_id'', PInt (u_id u)), (''time'', PInt (datetime_to_timestamp log_time))]"

section \<open>Presence\<close>

definition consolidate_client :: "string \<Rightarrow> string act" where
  "consolidate_client client_name =
     (if client_name \<in> set [''ZulipDesktop''] then seq (get_or_create_client ''website'') (\<lambda>c. ret (snd c))
      else ret client_name)"

definition user_presence_to_dict :: "user_presence \<Rightarrow> pyerr + pydict" where
  "user_presence_to_dict p = to_presence_dict (pr_client_name p) (pr_status p) (pr_timestamp p) False False"

definition send_presence_changed :: "user_profile \<Rightarrow> user_presence \<Rightarrow> unit act" where
  "send_presence_changed u p =
     seq (query (\<lambda>_. user_presence_to_dict p)) (\<lambda>presence_dict.
     seq timezone_now (\<lambda>now.
     seq (lookup (active_user_ids (u_realm u))) (\<lambda>ids.
       send_event [(''type'', PStr ''presence''), (''email'', PStr (u_email u)), (''server_timestamp'', PFloat now),
         (''presence'', PDict [(pr_client_name p, PDict presence_dict)])] (map PInt ids))))"

definition presence_of :: "int \<Rightarrow> string \<Rightarrow> user_presence \<Rightarrow> bool" where
  "presence_of uid client_name p \<longleftrightarrow> pr_user_profile p = uid \<and> pr_client_name p = client_name"

definition get_or_create_presence :: "int \<Rightarrow> string \<Rightarrow> rat \<Rightarrow> int \<Rightarrow> (user_presence \<times> bool) act" where
  "get_or_create_presence uid client_name log_time status =
     seq (query (\<lambda>d. case db_get ''UserPresence'' (presence_of uid client_name) (presences d) of
            Inl (DoesNotExist _) \<Rightarrow> Inr None | Inl e \<Rightarrow> Inl e | Inr p \<Rightarrow> Inr (Some p))) (\<lambda>found.
       case found of
         Some p \<Rightarrow> ret (p, False)
       | None \<Rightarrow>
           let p = \<lparr>pr_user_profile = uid, pr_client_name = client_name, pr_timestamp = log_time, pr_status = status\<rparr>
           in andthen (modify_db (\<lambda>d. d\<lparr>presences := presences d @ [p]\<rparr>)) (ret (p, True)))"

definition ACTIVE :: int where
  "ACTIVE = 1"

definition IDLE :: int where
  "IDLE = 2"

definition do_update_user_presence :: "user_profile \<Rightarrow> string \<Rightarrow> rat \<Rightarrow> int \<Rightarrow> unit act" where
  "do_update_user_presence u client_name log_time status =
     seq (consolidate_client client_name) (\<lambda>client_name.
     seq (get_or_create_presence (u_id u) client_name log_time status) (\<lambda>(p, created).
     let stale_status = (log_time - pr_timestamp p > 70);
         was_idle = (pr_status p = IDLE);
         became_online = (status = ACTIVE \<and> (stale_status \<or> was_idle));
         update = (\<not> created \<and> stale_status \<or> was_idle \<or> status = pr_status p);
         p1 = (if update then p\<lparr>pr_timestamp := log_time, pr_status := status\<rparr> else p) in
     andthen (if update
              then modify_db (\<lambda>d. d\<lparr>presences := map (\<lambda>x. if presence_of (u_id u) client_name x then p1 else x) (presences d)\<rparr>)
              else ret ())
     (seq (query (the_realm (u_realm u))) (\<lambda>r.
        if \<not> is_zephyr_mirror_realm r \<and> (created \<or> became_online) then send_presence_changed u p1 else ret ()))))"

definition update_user_presence :: "user_profile \<Rightarrow> string \<Rightarrow> rat \<Rightarrow> int \<Rightarrow> bool \<Rightarrow> unit act" where
  "update_user_presence u client_name log_time status new_user_input =
     andthen (queue_json_publish ''user_presence'' [(''user_profile_id'', PInt (u_id u)), (''status'', PInt status),
        (''time'', PInt (datetime_to_timestamp log_time)), (''client'', PStr client_name)])
     (if new_user_input then update_user_activity_interval u log_time else ret ())"

section \<open>The pointer\<close>

definition do_update_pointer :: "user_profile \<Rightarrow> int \<Rightarrow> bool \<Rightarrow> unit act" where
  "do_update_pointer u ptr update_flags =
     andthen (modify_db (\<lambda>d. d\<lparr>users := map (\<lambda>x. if u_id x = u_id u then x\<lparr>u_pointer := ptr\<rparr> else x) (users d)\<rparr>))
     (andthen (if update_flags
        then modify_db (\<lambda>d. d\<lparr>user_messages := map (\<lambda>x. if um_user_profile x = u_id u \<and> u_pointer u < um_message x \<and>
               um_message x \<le> ptr \<and> um_unread x then x\<lparr>um_flags := or (um_flags x) 1\<rparr> else x) (user_messages d)\<rparr>)
        else ret ())
     (send_event [(''type'', PStr ''pointer''), (''pointer'', PInt ptr)] [PInt (u_id u)]))"

section \<open>What the intervals cover\<close>

definition covered :: "int \<Rightarrow> server \<Rightarrow> rat set" where
  "covered uid s = (\<Union>i \<in> {i \<in> set (activity_intervals (sv_db s)). ui_user_profile i = uid}. {ui_start i..ui_end i})"

definition intervals_ok :: "server \<Rightarrow> bool" where
  "intervals_ok s \<longleftrightarrow> distinct (map ui_id (activity_intervals (sv_db s))) \<and>
     (\<forall>i \<in> set (activity_intervals (sv_db s)). ui_start i + MIN_INTERVAL_LENGTH \<le> ui_end i \<and> ui_id i < sv_next_id s)"

lemma last_interval_in: "last_interval uid d = Some i \<Longrightarrow> i \<in> set (activity_intervals d) \<and> ui_user_profile i = uid"
proof -
  assume a: "last_interval uid d = Some i"
  let ?l = "sort_key (\<lambda>i. - ui_end i) (filter (\<lambda>i. ui_user_profile i = uid) (activity_intervals d))"
  have "i \<in> set ?l" using a by (cases ?l) (auto simp: last_interval_def)
  then show ?thesis by simp
qed

text \<open>Two overlapping intervals cover what their hull covers.\<close>

lemma hull_cover:
  fixes a :: rat
  assumes "a \<le> b" "c \<le> d" and "(c \<le> b \<and> a \<le> c) \<or> (d \<le> b \<and> a \<le> d)"
  shows "{min a c..max b d} = {a..b} \<union> {c..d}"
  using assms by (auto simp: min_def max_def)

lemma new_interval_ok:
  fixes uid :: int and t :: rat
  assumes "intervals_ok s"
  defines "i \<equiv> \<lparr>ui_id = sv_next_id s, ui_user_profile = uid, ui_start = t, ui_end = t + MIN_INTERVAL_LENGTH\<rparr>"
  defines "s' \<equiv> s\<lparr>sv_next_id := sv_next_id s + 1,
     sv_db := (sv_db s)\<lparr>activity_intervals := activity_intervals (sv_db s) @ [i]\<rparr>\<rparr>"
  shows "intervals_ok s'" and "covered v s' = covered v s \<union> (if v = uid then {t..t + MIN_INTERVAL_LENGTH} else {})"
proof -
  show "intervals_ok s'" using assms(1) by (auto simp: intervals_ok_def i_def s'_def)
  have i: "ui_user_profile i = uid" "ui_start i = t" "ui_end i = t + MIN_INTERVAL_LENGTH" by (simp_all add: i_def)
  have "{x \<in> set (activity_intervals (sv_db s')). ui_user_profile x = v} =
      {x \<in> set (activity_intervals (sv_db s)). ui_user_profile x = v} \<union> (if v = uid then {i} else {})"
    using i(1) by (auto simp: s'_def)
  then show "covered v s' = covered v s \<union> (if v = uid then {t..t + MIN_INTERVAL_LENGTH} else {})"
    by (simp add: covered_def i UN_Un)
qed

lemma extended_interval_ok:
  fixes t :: rat
  assumes ok: "intervals_ok s" and i: "i \<in> set (activity_intervals (sv_db s))"
    and overlap: "(t \<le> ui_end i \<and> ui_start i \<le> t) \<or> (t + MIN_INTERVAL_LENGTH \<le> ui_end i \<and> ui_start i \<le> t + MIN_INTERVAL_LENGTH)"
  defines "g \<equiv> \<lambda>x. if ui_id x = ui_id i
     then x\<lparr>ui_end := max (ui_end i) (t + MIN_INTERVAL_LENGTH), ui_start := min (ui_start i) t\<rparr> else x"
  defines "s' \<equiv> s\<lparr>sv_db := (sv_db s)\<lparr>activity_intervals := map g (activity_intervals (sv_db s))\<rparr>\<rparr>"
  shows "intervals_ok s'" and "covered v s' = covered v s \<union> (if v = ui_user_profile i then {t..t + MIN_INTERVAL_LENGTH} else {})"
proof -
  have same: "x = i" if "x \<in> set (activity_intervals (sv_db s))" "ui_id x = ui_id i" for x
    using ok i that by (auto simp: intervals_ok_def dest: inj_onD simp: distinct_map)
  have fixed: "ui_id (g x) = ui_id x" "ui_user_profile (g x) = ui_user_profile x" for x by (simp_all add: g_def)
  have "map ui_id (map g (activity_intervals (sv_db s))) = map ui_id (activity_intervals (sv_db s))"
    by (simp add: fixed comp_def)
  moreover have "ui_start (g x) + MIN_INTERVAL_LENGTH \<le> ui_end (g x)" if "x \<in> set (activity_intervals (sv_db s))" for x
    using ok i that by (auto simp: g_def intervals_ok_def min_def max_def)
  ultimately show "intervals_ok s'"
    using ok by (simp add: intervals_ok_def s'_def fixed del: map_map)
  have "ui_start i \<le> ui_end i" using ok i by (auto simp: intervals_ok_def MIN_INTERVAL_LENGTH_def)
  then have hull: "{ui_start (g i)..ui_end (g i)} = {ui_start i..ui_end i} \<union> {t..t + MIN_INTERVAL_LENGTH}"
    using hull_cover[OF _ _ overlap] by (simp add: g_def MIN_INTERVAL_LENGTH_def)
  have other: "g x = x" if "x \<in> set (activity_intervals (sv_db s))" "x \<noteq> i" for x
    using same that by (auto simp: g_def)
  let ?rows = "{x \<in> set (activity_intervals (sv_db s)). ui_user_profile x = v}"
  have cov': "covered v s' = (\<Union>x \<in> ?rows. {ui_start (g x)..ui_end (g x)})"
    by (auto simp: covered_def s'_def fixed)
  have rest: "(\<Union>x \<in> ?rows - {i}. {ui_start (g x)..ui_end (g x)}) = (\<Union>x \<in> ?rows - {i}. {ui_start x..ui_end x})"
    by (rule SUP_cong) (auto simp: other)
  show "covered v s' = covered v s \<union> (if v = ui_user_profile i then {t..t + MIN_INTERVAL_LENGTH} else {})"
  proof (cases "v = ui_user_profile i")
    case True
    then have "i \<in> ?rows" using i by simp
    then have split: "(\<Union>x \<in> ?rows. h x) = h i \<union> (\<Union>x \<in> ?rows - {i}. h x)" for h :: "_ \<Rightarrow> rat set" by auto
    have "covered v s' = {ui_start (g i)..ui_end (g i)} \<union> (\<Union>x \<in> ?rows - {i}. {ui_start (g x)..ui_end (g x)})"
      "covered v s = {ui_start i..ui_end i} \<union> (\<Union>x \<in> ?rows - {i}. {ui_start x..ui_end x})"
      by (simp only: cov' split[of "\<lambda>x. {ui_start (g x)..ui_end (g x)}"])
        (simp only: covered_def split[of "\<lambda>x. {ui_start x..ui_end x}"])
    note cov = this[unfolded rest hull]
    have "covered v s' = covered v s \<union> {t..t + MIN_INTERVAL_LENGTH}" unfolding cov by (simp only: Un_ac)
    then show ?thesis using True by simp
  next
    case False
    then have "?rows - {i} = ?rows" by auto
    with rest have "covered v s' = covered v s" unfolding cov' unfolding covered_def by simp
    then show ?thesis using False by simp
  qed
qed

text \<open>
  Recording an activity adds exactly the fifteen minutes from it to the time that the
  intervals of the user cover, takes no time from them, and changes no other user's intervals;
  every interval stays at least fifteen minutes long.
\<close>

theorem activity_intervals_cover:
  assumes "intervals_ok s" and "do_update_user_activity_interval u t s = (r, s')"
  shows "r = Inr () \<and> intervals_ok s' \<and>
    (\<forall>v. covered v s' = covered v s \<union> (if v = u_id u then {t..t + 15 * 60} else {}))"
proof -
  have len: "15 * 60 = MIN_INTERVAL_LENGTH" by (simp add: MIN_INTERVAL_LENGTH_def)
  show ?thesis
  proof (cases "\<exists>i. last_interval (u_id u) (sv_db s) = Some i \<and>
      ((t \<le> ui_end i \<and> ui_start i \<le> t) \<or> (t + MIN_INTERVAL_LENGTH \<le> ui_end i \<and> ui_start i \<le> t + MIN_INTERVAL_LENGTH))")
    case True
    then obtain i where last: "last_interval (u_id u) (sv_db s) = Some i"
      and overlap: "(t \<le> ui_end i \<and> ui_start i \<le> t) \<or> (t + MIN_INTERVAL_LENGTH \<le> ui_end i \<and> ui_start i \<le> t + MIN_INTERVAL_LENGTH)"
      by blast
    have i: "i \<in> set (activity_intervals (sv_db s))" "ui_user_profile i = u_id u" using last_interval_in[OF last] by auto
    have "r = Inr () \<and> s' = s\<lparr>sv_db := (sv_db s)\<lparr>activity_intervals := map (\<lambda>x. if ui_id x = ui_id i
       then x\<lparr>ui_end := max (ui_end i) (t + MIN_INTERVAL_LENGTH), ui_start := min (ui_start i) t\<rparr> else x)
       (activity_intervals (sv_db s))\<rparr>\<rparr>"
      using assms(2) overlap by (simp add: do_update_user_activity_interval_def Let_def last)
    then show ?thesis unfolding len using extended_interval_ok[OF assms(1) i(1) overlap] i(2) by simp
  next
    case False
    then have "r = Inr () \<and> s' = s\<lparr>sv_next_id := sv_next_id s + 1,
       sv_db := (sv_db s)\<lparr>activity_intervals := activity_intervals (sv_db s) @
         [\<lparr>ui_id = sv_next_id s, ui_user_profile = u_id u, ui_start = t, ui_end = t + MIN_INTERVAL_LENGTH\<rparr>]\<rparr>\<rparr>"
      using assms(2) by (auto simp: do_update_user_activity_interval_def Let_def split: option.splits if_splits)
    then show ?thesis unfolding len using new_interval_ok[OF assms(1), where uid = "u_id u" and t = t] by simp
  qed
qed

definition demo_active :: server where
  "demo_active = \<lparr>sv_db = empty_db\<lparr>realms := [demo_realm], users := [demo_user 9 (rm_id demo_realm) ''ann@zulip.com''],
       client_names := [(1, ''website'')],
       presences := [\<lparr>pr_user_profile = 9, pr_client_name = ''website'', pr_timestamp = 950, pr_status = 1\<rparr>],
       activity_intervals := [\<lparr>ui_id = 3, ui_user_profile = 9, ui_start = 0, ui_end = 900\<rparr>]\<rparr>,
     sv_events = [], sv_jobs = [], sv_log = [], sv_next_id = 100, sv_now = 1000\<rparr>"

theorem activity_intervals_cover_witness:
  "\<exists>s'. do_update_user_activity_interval (demo_user 9 4 ''ann@zulip.com'') 600 demo_active = (Inr (), s') \<and>
    covered 9 s' = {0..1500}"
proof -
  obtain r s' where run: "do_update_user_activity_interval (demo_user 9 4 ''ann@zulip.com'') 600 demo_active = (r, s')"
    by (cases "do_update_user_activity_interval (demo_user 9 4 ''ann@zulip.com'') 600 demo_active")
  have ok: "intervals_ok demo_active" and cov: "covered 9 demo_active = {0..900}"
    by (simp_all add: intervals_ok_def covered_def demo_active_def MIN_INTERVAL_LENGTH_def)
  have id: "u_id (demo_user 9 4 ''ann@zulip.com'') = 9" by (simp add: demo_user_def)
  have "r = Inr ()" "covered 9 s' = {0..900} \<union> {600..600 + 15 * 60}"
    using activity_intervals_cover[OF ok run] by (simp_all add: cov id)
  moreover have "{0..900} \<union> {600..600 + 15 * 60} = {0..1500 :: rat}" by auto
  ultimately show ?thesis using run by (intro exI[of _ s']) (simp only: simp_thms)
qed

section \<open>What a report of presence does\<close>

text \<open>The rows of a presence table are unique for each user and client.\<close>

definition presence_rows_ok :: "db \<Rightarrow> bool" where
  "presence_rows_ok d \<longleftrightarrow> distinct (map (\<lambda>p. (pr_user_profile p, pr_client_name p)) (presences d))"

definition presence_row :: "int \<Rightarrow> string \<Rightarrow> db \<Rightarrow> user_presence option" where
  "presence_row uid client_name d = find (presence_of uid client_name) (presences d)"

lemma find_db_get:
  assumes "length (filter p xs) \<le> 1"
  shows "db_get m p xs = (case find p xs of None \<Rightarrow> Inl (DoesNotExist m) | Some x \<Rightarrow> Inr x)"
proof -
  have "find p xs = (case filter p xs of [] \<Rightarrow> None | x # _ \<Rightarrow> Some x)" by (induction xs) auto
  then show ?thesis using assms by (cases "filter p xs") (auto simp: db_get_def)
qed

lemma presence_rows_filter: "presence_rows_ok d \<Longrightarrow> length (filter (presence_of uid c) (presences d)) \<le> 1"
proof -
  assume ok: "presence_rows_ok d"
  have "filter (presence_of uid c) (presences d) = filter (\<lambda>p. (pr_user_profile p, pr_client_name p) = (uid, c)) (presences d)"
    by (intro filter_cong) (auto simp: presence_of_def)
  moreover have "length (filter (\<lambda>p. f p = k) xs) \<le> 1" if "distinct (map f xs)" for f :: "user_presence \<Rightarrow> int \<times> string" and k xs
    using that by (induction xs) (auto simp: filter_empty_conv, metis image_eqI)
  ultimately show ?thesis using ok unfolding presence_rows_ok_def by metis
qed

lemma find_update:
  assumes "\<And>x. p x \<Longrightarrow> p (h x)"
  shows "find p (map (\<lambda>x. if p x then h x else x) xs) = map_option h (find p xs)"
  using assms by (induction xs) auto

lemma find_update_other:
  assumes "\<And>x. p x \<Longrightarrow> \<not> q x \<and> \<not> q (h x)"
  shows "find q (map (\<lambda>x. if p x then h x else x) xs) = find q xs"
  using assms by (induction xs) auto

lemma find_append: "find p (xs @ ys) = (case find p xs of None \<Rightarrow> find p ys | Some x \<Rightarrow> Some x)"
  by (induction xs) auto

text \<open>The row after a report, from the row before it.\<close>

definition presence_after :: "user_presence option \<Rightarrow> int \<Rightarrow> string \<Rightarrow> rat \<Rightarrow> int \<Rightarrow> user_presence" where
  "presence_after before uid client_name t status =
     (let new = \<lparr>pr_user_profile = uid, pr_client_name = client_name, pr_timestamp = t, pr_status = status\<rparr>
      in case before of
        None \<Rightarrow> new
      | Some p \<Rightarrow> if status = IDLE \<and> pr_status p = ACTIVE \<and> t \<le> pr_timestamp p + 70 then p else new)"

lemma get_or_create_presence_run:
  assumes "presence_rows_ok (sv_db s)"
  shows "get_or_create_presence uid c t status s = (case presence_row uid c (sv_db s) of
      Some p \<Rightarrow> (Inr (p, False), s)
    | None \<Rightarrow> (let p = \<lparr>pr_user_profile = uid, pr_client_name = c, pr_timestamp = t, pr_status = status\<rparr>
        in (Inr (p, True), s\<lparr>sv_db := (sv_db s)\<lparr>presences := presences (sv_db s) @ [p]\<rparr>\<rparr>)))"
  using find_db_get[OF presence_rows_filter[OF assms], of "''UserPresence''" uid c]
  by (cases "find (presence_of uid c) (presences (sv_db s))")
    (simp_all add: get_or_create_presence_def presence_row_def seq_apply Let_def)

lemma presence_row_Some: "presence_row uid c d = Some p \<Longrightarrow> p \<in> set (presences d) \<and> presence_of uid c p"
  unfolding presence_row_def find_Some_iff by (metis nth_mem)

lemma presence_row_append:
  "presence_row v c (d\<lparr>presences := presences d @ [p]\<rparr>) =
     (case presence_row v c d of None \<Rightarrow> (if presence_of v c p then Some p else None) | Some x \<Rightarrow> Some x)"
  by (simp add: presence_row_def find_append split: option.split)

lemma get_or_create_presence_row:
  fixes uid :: int and c :: string and t :: rat and status :: int
  assumes "presence_rows_ok (sv_db s)"
  defines "before \<equiv> presence_row uid c (sv_db s)"
  defines "p0 \<equiv> (case before of None \<Rightarrow> \<lparr>pr_user_profile = uid, pr_client_name = c, pr_timestamp = t, pr_status = status\<rparr>
      | Some p \<Rightarrow> p)"
  shows "\<exists>t1. get_or_create_presence uid c t status s = (Inr (p0, before = None), t1) \<and>
    presence_row uid c (sv_db t1) = Some p0 \<and> sv_events t1 = sv_events s \<and> realms (sv_db t1) = realms (sv_db s) \<and>
    users (sv_db t1) = users (sv_db s) \<and>
    (\<forall>v c'. (v, c') \<noteq> (uid, c) \<longrightarrow> presence_row v c' (sv_db t1) = presence_row v c' (sv_db s))"
proof (cases before)
  case None
  have "presence_of uid c p0" "\<And>v c'. (v, c') \<noteq> (uid, c) \<Longrightarrow> \<not> presence_of v c' p0"
    using None by (auto simp: p0_def presence_of_def)
  moreover have "get_or_create_presence uid c t status s =
      (Inr (p0, True), s\<lparr>sv_db := (sv_db s)\<lparr>presences := presences (sv_db s) @ [p0]\<rparr>\<rparr>)"
    using get_or_create_presence_run[OF assms(1), of uid c t status] None
    by (simp add: before_def p0_def Let_def)
  ultimately show ?thesis using None
    by (auto simp: presence_row_append before_def split: option.splits)
next
  case (Some p)
  then show ?thesis
    using get_or_create_presence_run[OF assms(1), of uid c t status] by (simp add: before_def p0_def)
qed

lemma consolidate_run:
  assumes "consolidate_client c s = (r, t)"
  shows "r = Inr (if c = ''ZulipDesktop'' then ''website'' else c) \<and> presences (sv_db t) = presences (sv_db s) \<and>
    users (sv_db t) = users (sv_db s) \<and> realms (sv_db t) = realms (sv_db s) \<and> sv_events t = sv_events s"
  using assms
  by (auto simp: consolidate_client_def get_or_create_client_def seq_apply split: if_splits option.splits
      simp: find_Some_iff)

text \<open>Storing what a report says, and announcing it.\<close>

lemma presence_row_update:
  fixes d :: db
  assumes "presence_of uid c p1"
  defines "d' \<equiv> d\<lparr>presences := map (\<lambda>x. if presence_of uid c x then p1 else x) (presences d)\<rparr>"
  shows "presence_row uid c d = Some p \<Longrightarrow> presence_row uid c d' = Some p1"
    and "(v, c') \<noteq> (uid, c) \<Longrightarrow> presence_row v c' d' = presence_row v c' d"
  using assms(1) find_update[of "presence_of uid c" "\<lambda>_. p1" "presences d"]
    find_update_other[of "presence_of uid c" "presence_of v c'" "\<lambda>_. p1" "presences d"]
  by (auto simp: presence_row_def d'_def presence_of_def)

definition announces_presence :: "user_presence option \<Rightarrow> rat \<Rightarrow> int \<Rightarrow> bool" where
  "announces_presence before t status \<longleftrightarrow>
     (case before of None \<Rightarrow> True
      | Some p \<Rightarrow> status = ACTIVE \<and> (pr_status p = IDLE \<or> pr_timestamp p + 70 < t))"

lemma send_presence_effect:
  assumes "send_presence_changed u p s = (Inr (), s')"
  shows "sv_db s' = sv_db s \<and> (\<exists>event. map_of event ''type'' = Some (PStr ''presence'') \<and>
    map_of event ''email'' = Some (PStr (u_email u)) \<and>
    sv_events s' = sv_events s @ [(event, map PInt (active_user_ids (u_realm u) (sv_db s)))])"
  using assms by (auto simp: send_presence_changed_def seq_Inr)

text \<open>
  A report of presence sets the state of the user's client to what it says at its time,
  except that an idle report within 70 seconds of an active one changes nothing; the desktop
  client counts as the website; no other client's state changes; and the realm is told
  exactly when the client is new or comes online.
\<close>

theorem presence_report:
  assumes "presence_rows_ok (sv_db s)" and "\<forall>p \<in> set (presences (sv_db s)). pr_status p \<in> {ACTIVE, IDLE}"
    and "status \<in> {ACTIVE, IDLE}" and "the_realm (u_realm u) (sv_db s) = Inr r"
    and "do_update_user_presence u client_name t status s = (Inr (), s')"
    and "c = (if client_name = ''ZulipDesktop'' then ''website'' else client_name)"
    and "before = presence_row (u_id u) c (sv_db s)"
  shows "presence_row (u_id u) c (sv_db s') = Some (presence_after before (u_id u) c t status) \<and>
    (\<forall>v c'. (v, c') \<noteq> (u_id u, c) \<longrightarrow> presence_row v c' (sv_db s') = presence_row v c' (sv_db s)) \<and>
    (if \<not> is_zephyr_mirror_realm r \<and> announces_presence before t status
     then \<exists>event. map_of event ''type'' = Some (PStr ''presence'') \<and> map_of event ''email'' = Some (PStr (u_email u)) \<and>
       sv_events s' = sv_events s @ [(event, map PInt (active_user_ids (u_realm u) (sv_db s)))]
     else sv_events s' = sv_events s)"
proof -
  obtain t0 where con: "consolidate_client client_name s = (Inr c, t0)"
    using assms(5,6) consolidate_run[of client_name s] by (auto simp: do_update_user_presence_def seq_Inr)
  have same: "presences (sv_db t0) = presences (sv_db s)" "users (sv_db t0) = users (sv_db s)"
    "realms (sv_db t0) = realms (sv_db s)" "sv_events t0 = sv_events s"
    using consolidate_run[OF con] by simp_all
  have ok0: "presence_rows_ok (sv_db t0)" and row0: "presence_row v c' (sv_db t0) = presence_row v c' (sv_db s)" for v c'
    using assms(1) same by (simp_all add: presence_rows_ok_def presence_row_def)
  define p0 where "p0 = (case before of None \<Rightarrow>
      \<lparr>pr_user_profile = u_id u, pr_client_name = c, pr_timestamp = t, pr_status = status\<rparr> | Some p \<Rightarrow> p)"
  obtain t1 where got: "get_or_create_presence (u_id u) c t status t0 = (Inr (p0, before = None), t1)"
    and t1: "presence_row (u_id u) c (sv_db t1) = Some p0" "sv_events t1 = sv_events s"
    "realms (sv_db t1) = realms (sv_db s)" "users (sv_db t1) = users (sv_db s)"
    "\<forall>v c'. (v, c') \<noteq> (u_id u, c) \<longrightarrow> presence_row v c' (sv_db t1) = presence_row v c' (sv_db s)"
    using get_or_create_presence_row[OF ok0, of "u_id u" c t status] unfolding row0 same assms(7)[symmetric] p0_def[symmetric]
    by blast
  have p0: "presence_of (u_id u) c p0 \<and> pr_status p0 \<in> {ACTIVE, IDLE}"
  proof (cases before)
    case None
    then show ?thesis using assms(3) by (simp add: p0_def presence_of_def)
  next
    case (Some p)
    then show ?thesis using assms(2,7) presence_row_Some[of "u_id u" c "sv_db s" p] by (simp add: p0_def)
  qed
  define upd where "upd \<longleftrightarrow> before \<noteq> None \<and> t - pr_timestamp p0 > 70 \<or> pr_status p0 = IDLE \<or> status = pr_status p0"
  define p1 where "p1 = (if upd then p0\<lparr>pr_timestamp := t, pr_status := status\<rparr> else p0)"
  define t2 where "t2 = (if upd then t1\<lparr>sv_db := (sv_db t1)\<lparr>presences := map (\<lambda>x. if presence_of (u_id u) c x then p1 else x)
      (presences (sv_db t1))\<rparr>\<rparr> else t1)"
  have p1: "presence_of (u_id u) c p1" using p0 by (simp add: p1_def presence_of_def)
  have t2: "presence_row (u_id u) c (sv_db t2) = Some p1" "sv_events t2 = sv_events s" "users (sv_db t2) = users (sv_db s)"
    "\<forall>v c'. (v, c') \<noteq> (u_id u, c) \<longrightarrow> presence_row v c' (sv_db t2) = presence_row v c' (sv_db s)"
    using t1 presence_row_update[OF p1, where d = "sv_db t1"] by (auto simp: t2_def p1_def)
  have realm: "the_realm (u_realm u) (sv_db t2) = Inr r" using assms(4) t1(3) by (simp add: the_realm_def t2_def)
  have after: "p1 = presence_after before (u_id u) c t status"
    using assms(3) p0 by (cases before) (auto simp: p1_def upd_def p0_def presence_after_def presence_of_def ACTIVE_def IDLE_def)
  have announce: "(before = None \<or> status = ACTIVE \<and> (t - pr_timestamp p0 > 70 \<or> pr_status p0 = IDLE)) =
      announces_presence before t status"
    by (cases before) (auto simp: announces_presence_def p0_def)
  have "do_update_user_presence u client_name t status s =
     andthen (if upd
              then modify_db (\<lambda>d. d\<lparr>presences := map (\<lambda>x. if presence_of (u_id u) c x then p1 else x) (presences d)\<rparr>)
              else ret ())
     (seq (query (the_realm (u_realm u))) (\<lambda>r.
        if \<not> is_zephyr_mirror_realm r \<and> announces_presence before t status then send_presence_changed u p1 else ret ())) t1"
    unfolding p1_def upd_def announce[symmetric] do_update_user_presence_def seq_simps(1)[where m = "consolidate_client client_name", OF con]
      seq_simps(1)[where m = "get_or_create_presence (u_id u) c t status", OF got] prod.case Let_def
    by (rule refl)
  moreover have "(if upd
              then modify_db (\<lambda>d. d\<lparr>presences := map (\<lambda>x. if presence_of (u_id u) c x then p1 else x) (presences d)\<rparr>)
              else ret ()) t1 = (Inr (), t2)"
    by (simp add: t2_def)
  ultimately have run: "(if \<not> is_zephyr_mirror_realm r \<and> announces_presence before t status
      then send_presence_changed u p1 else ret ()) t2 = (Inr (), s')"
    using assms(5) realm by (simp only: andthen_simps(1) seq_query_ok)
  have ids: "active_user_ids (u_realm u) (sv_db t2) = active_user_ids (u_realm u) (sv_db s)"
    using t2(3) by (simp add: active_user_ids_def)
  show ?thesis
  proof (cases "\<not> is_zephyr_mirror_realm r \<and> announces_presence before t status")
    case True
    then have "send_presence_changed u p1 t2 = (Inr (), s')" using run by simp
    from send_presence_effect[OF this] show ?thesis using t2 after ids True by simp
  next
    case False
    then have "s' = t2" using run by auto
    then show ?thesis using t2 after False by auto
  qed
qed

theorem presence_report_witness:
  "\<exists>s' event. do_update_user_presence (demo_user 9 (rm_id demo_realm) ''ann@zulip.com'') ''ZulipDesktop'' 1100 1 demo_active = (Inr (), s') \<and>
    presence_row 9 ''website'' (sv_db s') =
      Some \<lparr>pr_user_profile = 9, pr_client_name = ''website'', pr_timestamp = 1100, pr_status = 1\<rparr> \<and>
    sv_events s' = [(event, [PInt 9])]"
proof -
  let ?u = "demo_user 9 (rm_id demo_realm) ''ann@zulip.com''"
  have "fst (do_update_user_presence ?u ''ZulipDesktop'' 1100 1 demo_active) = Inr ()" by code_simp
  then obtain s' where run: "do_update_user_presence ?u ''ZulipDesktop'' 1100 1 demo_active = (Inr (), s')"
    by (metis prod.collapse)
  have rows: "presence_rows_ok (sv_db demo_active)" "\<forall>p \<in> set (presences (sv_db demo_active)). pr_status p \<in> {ACTIVE, IDLE}"
    and status: "(1 :: int) \<in> {ACTIVE, IDLE}"
    by (simp_all add: presence_rows_ok_def demo_active_def ACTIVE_def)
  have realm: "the_realm (u_realm ?u) (sv_db demo_active) = Inr demo_realm" by code_simp
  have ids: "active_user_ids (u_realm ?u) (sv_db demo_active) = [9]" and plain: "\<not> is_zephyr_mirror_realm demo_realm"
    by code_simp+
  let ?p = "\<lparr>pr_user_profile = 9, pr_client_name = ''website'', pr_timestamp = 950, pr_status = 1\<rparr>"
  have before: "Some ?p = presence_row (u_id ?u) ''website'' (sv_db demo_active)" by code_simp
  have id: "u_id ?u = 9" and ev: "sv_events demo_active = []" by (simp_all add: demo_user_def demo_active_def)
  have "announces_presence (Some ?p) 1100 1" by (simp add: announces_presence_def ACTIVE_def)
  moreover have "presence_after (Some ?p) 9 ''website'' 1100 1 =
      \<lparr>pr_user_profile = 9, pr_client_name = ''website'', pr_timestamp = 1100, pr_status = 1\<rparr>"
    by (simp add: presence_after_def IDLE_def)
  ultimately show ?thesis
    using presence_report[OF rows status realm run _ before, simplified] run plain
    by (auto simp: ids id ev)
qed

end
