(* ===== verification/Streams.thy ===== *)
theory Streams
  imports SendingProps "HOL-Library.List_Lexorder"
begin

text \<open>
  Streams: who may access one (\<open>zerver/lib/streams.py\<close>), who may see its subscribers, and the
  actions that change a stream or the default streams (\<open>zerver/lib/actions.py\<close>).
\<close>

section \<open>Access\<close>

text \<open>\<open>try: x = objects.get(...) except DoesNotExist: x = None\<close>\<close>

definition get_or_none :: "pyerr + 'a \<Rightarrow> pyerr + 'a option" where
  "get_or_none r = (case r of Inl (DoesNotExist _) \<Rightarrow> Inr None | Inl e \<Rightarrow> Inl e | Inr x \<Rightarrow> Inr (Some x))"

definition access_stream_common ::
  "user_profile \<Rightarrow> stream \<Rightarrow> string \<Rightarrow> db \<Rightarrow> pyerr + recipient \<times> subscription option" where
  "access_stream_common u st err d =
     (if st_realm st \<noteq> u_realm u then Inl (JsonableError err)
      else
        ebind (get_recipient STREAM (st_id st) d) (\<lambda>rc.
        ebind (get_or_none (db_get ''Subscription''
            (\<lambda>x. sub_user_profile x = u_id u \<and> sub_recipient x = rc_id rc \<and> sub_active x) (subscriptions d))) (\<lambda>sub.
        ebind (is_public d st) (\<lambda>public.
          if public then Inr (rc, sub)
          else if sub \<noteq> None then Inr (rc, sub)
          else Inl (JsonableError err)))))"

definition access_stream_by_id :: "user_profile \<Rightarrow> int \<Rightarrow> db \<Rightarrow> pyerr + stream \<times> recipient \<times> subscription option" where
  "access_stream_by_id u stream_id d =
     (let err = ''Invalid stream id'' in
      ebind (get_or_none (db_get ''Stream'' (\<lambda>s. st_id s = stream_id) (streams d))) (\<lambda>found.
        case found of
          None \<Rightarrow> Inl (JsonableError err)
        | Some st \<Rightarrow> ebind (access_stream_common u st err d) (\<lambda>(rc, sub). Inr (st, rc, sub))))"

definition access_stream_by_name :: "user_profile \<Rightarrow> string \<Rightarrow> db \<Rightarrow> pyerr + stream \<times> recipient \<times> subscription option" where
  "access_stream_by_name u stream_name d =
     (let err = ''Invalid stream name '' @ quoted stream_name in
      ebind (get_or_none (get_stream stream_name (u_realm u) d)) (\<lambda>found.
        case found of
          None \<Rightarrow> Inl (JsonableError err)
        | Some st \<Rightarrow> ebind (access_stream_common u st err d) (\<lambda>(rc, sub). Inr (st, rc, sub))))"

definition check_stream_name_available :: "int \<Rightarrow> string \<Rightarrow> db \<Rightarrow> pyerr + unit" where
  "check_stream_name_available realm_id name d =
     ebind (check_stream_name name) (\<lambda>_.
     ebind (get_or_none (get_stream name realm_id d)) (\<lambda>found.
       if found \<noteq> None then Inl (JsonableError (''Stream name '' @ quoted name @ '' is already taken'')) else Inr ()))"

definition filter_stream_authorization :: "user_profile \<Rightarrow> stream list \<Rightarrow> db \<Rightarrow> stream list \<times> stream list" where
  "filter_stream_authorization u sts d =
     (let rcs = map snd (bulk_get_recipients STREAM (map st_id sts) d);
          subscribed = map rc_type_id (filter (\<lambda>r. db_exists (\<lambda>x. sub_user_profile x = u_id u \<and>
            sub_recipient x = rc_id r \<and> sub_active x) (subscriptions d)) rcs);
          unauthorized = filter (\<lambda>st. st_id st \<notin> set subscribed \<and> st_invite_only st = Some True) sts
      in (filter (\<lambda>st. st_id st \<notin> set (map st_id unauthorized)) sts, unauthorized))"

text \<open>
  A stream dictionary is its name with the values of \<open>invite_only\<close> and \<open>description\<close>, or
  their defaults. \<open>list_to_streams\<close> gives the existing streams and those it created.
\<close>

type_synonym stream_dict = "string \<times> bool \<times> string"

definition check_raw_stream_name :: "string \<Rightarrow> unit act" where
  "check_raw_stream_name name =
     (if name \<noteq> str_strip name then raise (AssertionError []) else query (\<lambda>_. check_stream_name name))"

definition list_to_streams :: "send_env \<Rightarrow> stream_dict list \<Rightarrow> user_profile \<Rightarrow> bool \<Rightarrow> (stream list \<times> stream list) act" where
  "list_to_streams E streams_raw u autocreate =
     (let stream_set = remdups (map fst streams_raw) in
      andthen (for_each check_raw_stream_name stream_set)
      (seq (lookup (bulk_get_streams (u_realm u) stream_set)) (\<lambda>existing_stream_map.
       let existing_streams = List.map_filter (\<lambda>s. map_of existing_stream_map (str_lower (fst s))) streams_raw;
           missing = filter (\<lambda>s. map_of existing_stream_map (str_lower (fst s)) = None) streams_raw in
       if missing = [] then ret (existing_streams, [])
       else
         seq timezone_now (\<lambda>now.
         seq (query (the_realm (u_realm u))) (\<lambda>r.
         if \<not> can_create_streams now u r then raise (JsonableError ''User cannot create streams.'')
         else if \<not> autocreate
         then raise (JsonableError (''Stream(s) ('' @ str_join '', '' (map fst missing) @ '') do not exist''))
         else seq (create_streams_if_needed E (u_realm u) missing) (\<lambda>(created, dup).
                ret (existing_streams @ dup, created)))))))"

section \<open>Subscribers\<close>

definition subscribed_in :: "(int \<times> bool) list \<Rightarrow> int \<Rightarrow> pyerr + bool" where
  "subscribed_in sub_dict stream_id = (case map_of sub_dict stream_id of None \<Rightarrow> Inl (KeyError (int_str stream_id)) | Some b \<Rightarrow> Inr b)"

definition validate_user_access_to_subscribers_helper ::
  "user_profile option \<Rightarrow> int \<Rightarrow> bool option \<Rightarrow> (unit \<Rightarrow> pyerr + bool) \<Rightarrow> db \<Rightarrow> pyerr + unit" where
  "validate_user_access_to_subscribers_helper requesting_user realm_id invite_only check_user_subscribed d =
     (case requesting_user of
        None \<Rightarrow> Inl (ValidationError ''Missing user to validate access for'')
      | Some u \<Rightarrow>
          if u_realm u \<noteq> realm_id then Inl (ValidationError ''Requesting user not in given realm'')
          else ebind (the_realm (u_realm u) d) (\<lambda>r.
            if is_zephyr_mirror_realm r \<and> invite_only \<noteq> Some True
            then Inl (JsonableError ''You cannot get subscribers for public streams in this realm'')
            else if invite_only = Some True
            then ebind (check_user_subscribed ()) (\<lambda>subscribed.
              if \<not> subscribed then Inl (JsonableError ''Unable to retrieve subscribers for invite-only stream'') else Inr ())
            else Inr ()))"

definition validate_user_access_to_subscribers :: "user_profile option \<Rightarrow> stream \<Rightarrow> db \<Rightarrow> pyerr + unit" where
  "validate_user_access_to_subscribers requesting_user st d =
     validate_user_access_to_subscribers_helper requesting_user (st_realm st) (st_invite_only st)
       (\<lambda>_. case requesting_user of None \<Rightarrow> Inl (TypeError ''None'') | Some u \<Rightarrow> Inr (subscribed_to_stream (u_id u) st d)) d"

definition active_user :: "int \<Rightarrow> db \<Rightarrow> bool" where
  "active_user uid d \<longleftrightarrow> db_exists (\<lambda>u. u_id u = uid \<and> u_is_active u) (users d)"

definition stream_subscriptions :: "int \<Rightarrow> db \<Rightarrow> subscription list" where
  "stream_subscriptions stream_id d =
     filter (\<lambda>x. sub_recipient x \<in> set (stream_recipient_ids stream_id d) \<and> active_user (sub_user_profile x) d \<and> sub_active x)
       (subscriptions d)"

definition get_subscribers_query :: "stream \<Rightarrow> user_profile option \<Rightarrow> db \<Rightarrow> pyerr + subscription list" where
  "get_subscribers_query st requesting_user d =
     ebind (validate_user_access_to_subscribers requesting_user st d) (\<lambda>_. Inr (stream_subscriptions (st_id st) d))"

definition get_subscribers :: "stream \<Rightarrow> user_profile option \<Rightarrow> db \<Rightarrow> pyerr + user_profile list" where
  "get_subscribers st requesting_user d =
     ebind (get_subscribers_query st requesting_user d) (emap (\<lambda>x. get_user_profile_by_id (sub_user_profile x) d))"

definition get_subscriber_emails :: "stream \<Rightarrow> user_profile option \<Rightarrow> db \<Rightarrow> pyerr + string list" where
  "get_subscriber_emails st requesting_user d =
     ebind (get_subscribers_query st requesting_user d) (emap (\<lambda>x.
       ebind (get_user_profile_by_id (sub_user_profile x) d) (\<lambda>u. Inr (u_email u))))"

definition maybe_get_subscriber_emails :: "stream \<Rightarrow> user_profile \<Rightarrow> db \<Rightarrow> pyerr + string list" where
  "maybe_get_subscriber_emails st u d =
     (case get_subscriber_emails st (Some u) d of Inl (JsonableError _) \<Rightarrow> Inr [] | r \<Rightarrow> r)"

text \<open>The loop of \<open>bulk_get_subscriber_user_ids\<close>, which skips the streams the user may not see.\<close>

definition visible_subscribers :: "user_profile \<Rightarrow> (int \<times> bool) list \<Rightarrow> db \<Rightarrow> stream \<Rightarrow> pyerr + stream list" where
  "visible_subscribers u sub_dict d st =
     (case validate_user_access_to_subscribers_helper (Some u) (st_realm st) (st_invite_only st)
         (\<lambda>_. subscribed_in sub_dict (st_id st)) d of
        Inl (JsonableError _) \<Rightarrow> Inr [] | Inl e \<Rightarrow> Inl e | Inr _ \<Rightarrow> Inr [st])"

definition bulk_get_subscriber_user_ids ::
  "stream list \<Rightarrow> user_profile \<Rightarrow> (int \<times> bool) list \<Rightarrow> db \<Rightarrow> pyerr + (int \<times> int list) list" where
  "bulk_get_subscriber_user_ids sts u sub_dict d =
     ebind (emap (visible_subscribers u sub_dict d) sts) (\<lambda>targets.
       let ids = map st_id (concat targets) in
       Inr (map (\<lambda>i. (i, if i \<in> set ids then map sub_user_profile (stream_subscriptions i d) else []))
         (remdups (map st_id sts))))"

section \<open>Listing streams\<close>

definition get_occupied_streams :: "int \<Rightarrow> db \<Rightarrow> stream list" where
  "get_occupied_streams realm_id d =
     filter (\<lambda>st. st_realm st = realm_id \<and> \<not> st_deactivated st \<and>
       list_ex (\<lambda>x. sub_active x \<and> sub_recipient x \<in> set (stream_recipient_ids (st_id st) d) \<and>
         db_exists (\<lambda>u. u_id u = sub_user_profile x \<and> u_realm u = realm_id \<and> u_is_active u) (users d)) (subscriptions d))
     (streams d)"

definition name_points :: "stream \<Rightarrow> nat list" where
  "name_points st = points (st_name st)"

definition get_default_streams_for_realm :: "int \<Rightarrow> db \<Rightarrow> stream list" where
  "get_default_streams_for_realm realm_id d = List.map_filter (\<lambda>(r, i).
     if r = realm_id then find (\<lambda>st. st_id st = i) (streams d) else None) (default_streams d)"

definition get_default_subs :: "user_profile \<Rightarrow> db \<Rightarrow> stream list" where
  "get_default_subs u d = get_default_streams_for_realm (u_realm u) d"

definition streams_to_dicts_sorted :: "stream list \<Rightarrow> pyval list" where
  "streams_to_dicts_sorted sts = map (\<lambda>st. PDict (stream_to_dict st)) (sort_key name_points sts)"

definition subscribed_stream_ids :: "int \<Rightarrow> db \<Rightarrow> int list" where
  "subscribed_stream_ids uid d =
     concat (map (\<lambda>x. map rc_type_id (filter (\<lambda>r. rc_type r = STREAM \<and> rc_id r = sub_recipient x) (recipients d)))
       (filter (\<lambda>x. sub_active x \<and> sub_user_profile x = uid) (subscriptions d)))"

definition do_get_streams :: "user_profile \<Rightarrow> bool \<Rightarrow> bool \<Rightarrow> bool \<Rightarrow> bool \<Rightarrow> db \<Rightarrow> pyerr + pyval list" where
  "do_get_streams u include_public include_subscribed include_all_active include_default d =
     (if include_all_active \<and> \<not> u_is_api_super_user u then Inl (JsonableError ''User not authorized for this query'')
      else
        ebind (the_realm (u_realm u) d) (\<lambda>r.
        let include_public = (include_public \<and> \<not> is_zephyr_mirror_realm r);
            occupied = get_occupied_streams (u_realm u) d;
            subscribed = (\<lambda>st. st_id st \<in> set (subscribed_stream_ids (u_id u) d));
            public = (\<lambda>st. st_invite_only st = Some False);
            qry = (if include_all_active then occupied
                   else if include_subscribed \<and> include_public then filter (\<lambda>st. subscribed st \<or> public st) occupied
                   else if include_public then filter public occupied
                   else if include_subscribed then filter subscribed occupied
                   else []);
            defaults = map st_id (get_default_streams_for_realm (u_realm u) d)
        in Inr (map (\<lambda>st. PDict (stream_to_dict st @
             (if include_default then [(''is_default'', PBool (st_id st \<in> set defaults))] else []))) (sort_key name_points qry))))"

section \<open>Changing streams\<close>

definition notify_default_streams :: "int \<Rightarrow> unit act" where
  "notify_default_streams realm_id =
     seq (lookup (get_default_streams_for_realm realm_id)) (\<lambda>sts.
     seq (lookup (active_user_ids realm_id)) (\<lambda>ids.
       send_event [(''type'', PStr ''default_streams''), (''default_streams'', PList (streams_to_dicts_sorted sts))] (map PInt ids)))"

definition do_add_default_stream :: "stream \<Rightarrow> unit act" where
  "do_add_default_stream st =
     seq (lookup (\<lambda>d. (st_realm st, st_id st) \<in> set (default_streams d))) (\<lambda>exists.
       if exists then ret ()
       else andthen (modify_db (\<lambda>d. d\<lparr>default_streams := default_streams d @ [(st_realm st, st_id st)]\<rparr>))
         (notify_default_streams (st_realm st)))"

definition do_remove_default_stream :: "stream \<Rightarrow> unit act" where
  "do_remove_default_stream st =
     andthen (modify_db (\<lambda>d. d\<lparr>default_streams := filter (\<lambda>x. x \<noteq> (st_realm st, st_id st)) (default_streams d)\<rparr>))
       (notify_default_streams (st_realm st))"

text \<open>\<open>stream.save(...)\<close>, where \<open>update\<close> says what of the row is written: a row of the same realm with the same name violates the uniqueness of names.\<close>

definition save_stream :: "stream \<Rightarrow> (stream \<Rightarrow> stream) \<Rightarrow> unit act" where
  "save_stream st update =
     seq (lookup (\<lambda>d. db_exists (\<lambda>x. st_id x \<noteq> st_id st \<and> st_realm x = st_realm st \<and> st_name x = st_name st) (streams d))) (\<lambda>taken.
       if taken then raise (OtherError ''IntegrityError'')
       else modify_db (\<lambda>d. d\<lparr>streams := map (\<lambda>x. if st_id x = st_id st then update x else x) (streams d)\<rparr>))"

definition do_change_stream_invite_only :: "stream \<Rightarrow> bool \<Rightarrow> unit act" where
  "do_change_stream_invite_only st invite_only =
     modify_db (\<lambda>d. d\<lparr>streams := map (\<lambda>x. if st_id x = st_id st then x\<lparr>st_invite_only := Some invite_only\<rparr> else x) (streams d)\<rparr>)"

definition encode_email_address :: "send_env \<Rightarrow> stream \<Rightarrow> string" where
  "encode_email_address E st = map char_of (encode_email_address_helper (unicode_word E) (EMAIL_GATEWAY_PATTERN E)
     (points (st_name st)) (points (st_email_token st)))"

definition stream_update_event :: "stream \<Rightarrow> string \<Rightarrow> string \<Rightarrow> string \<Rightarrow> pydict" where
  "stream_update_event st name property value =
     [(''op'', PStr ''update''), (''type'', PStr ''stream''), (''property'', PStr property), (''value'', PStr value),
      (''stream_id'', PInt (st_id st)), (''name'', PStr name)]"

definition do_rename_stream :: "send_env \<Rightarrow> stream \<Rightarrow> string \<Rightarrow> pydict act" where
  "do_rename_stream E st new_name =
     (let old_name = st_name st;
          st = st\<lparr>st_name := new_name\<rparr> in
      andthen (save_stream st (\<lambda>x. x\<lparr>st_name := new_name\<rparr>))
      (seq (query (get_recipient STREAM (st_id st))) (\<lambda>_.
       let new_email = encode_email_address E st in
       andthen (for_each (\<lambda>(property, value).
           seq (query (can_access_stream_user_ids st)) (\<lambda>ids.
             send_event (stream_update_event st old_name property value) (map PInt ids)))
         [(''email_address'', new_email), (''name'', new_name)])
       (ret [(''email_address'', PStr new_email)]))))"

definition do_change_stream_description :: "stream \<Rightarrow> string \<Rightarrow> unit act" where
  "do_change_stream_description st new_description =
     andthen (modify_db (\<lambda>d. d\<lparr>streams := map (\<lambda>x. if st_id x = st_id st then x\<lparr>st_description := new_description\<rparr> else x) (streams d)\<rparr>))
     (seq (query (can_access_stream_user_ids st)) (\<lambda>ids.
        send_event (stream_update_event st (st_name st) ''description'' new_description) (map PInt ids)))"

text \<open>The loop that looks for a free name, at most twenty times; a stream that is not found ends it.\<close>

fun deactivated_name :: "nat \<Rightarrow> string \<Rightarrow> int \<Rightarrow> db \<Rightarrow> pyerr + string" where
  "deactivated_name 0 new_name realm_id d = Inr new_name"
| "deactivated_name (Suc n) new_name realm_id d =
     ebind (get_or_none (get_stream new_name realm_id d)) (\<lambda>found.
       if found = None then Inr new_name
       else deactivated_name n (take MAX_NAME_LENGTH (''!'' @ new_name)) realm_id d)"

definition do_deactivate_stream :: "stream \<Rightarrow> unit act" where
  "do_deactivate_stream st =
     seq (query (can_access_stream_user_ids st)) (\<lambda>affected_user_ids.
     andthen (modify_db (\<lambda>d. d\<lparr>subscriptions := map (\<lambda>x.
         if sub_recipient x \<in> set (stream_recipient_ids (st_id st) d) \<and> sub_active x then x\<lparr>sub_active := False\<rparr> else x)
         (subscriptions d)\<rparr>))
     (seq (query (deactivated_name 20 (take MAX_NAME_LENGTH (''!DEACTIVATED:'' @ st_name st)) (st_realm st))) (\<lambda>new_name.
      let st' = st\<lparr>st_deactivated := True, st_invite_only := Some True, st_name := take MAX_NAME_LENGTH new_name\<rparr> in
      andthen (save_stream st' (\<lambda>_. st'))
      (seq (lookup (\<lambda>d. (st_realm st, st_id st) \<in> set (default_streams d))) (\<lambda>is_default.
       andthen (if is_default then do_remove_default_stream st' else ret ())
       (send_event [(''type'', PStr ''stream''), (''op'', PStr ''delete''),
          (''streams'', PList [PDict (dupdate (stream_to_dict st')
             [(''name'', PStr (st_name st)), (''invite_only'', of_opt PBool (st_invite_only st))])])]
          (map PInt affected_user_ids)))))))"

end
