(* ===== verification/StreamProps.thy ===== *)
theory StreamProps
  imports Streams
begin

text \<open>
  What the access rules of streams promise, and that creating streams on demand does all of it
  or nothing.
\<close>

section \<open>Access\<close>

definition stream_tables_ok :: "db \<Rightarrow> bool" where
  "stream_tables_ok d \<longleftrightarrow> distinct (map st_id (streams d)) \<and>
     distinct (map (\<lambda>r. (rc_type r, rc_type_id r)) (recipients d)) \<and> distinct (map rc_id (recipients d)) \<and>
     distinct (map (\<lambda>x. (sub_user_profile x, sub_recipient x)) (subscriptions d)) \<and>
     distinct (map rm_id (realms d)) \<and>
     (\<forall>st \<in> set (streams d). st_realm st \<in> rm_id ` set (realms d) \<and>
        (\<exists>r \<in> set (recipients d). rc_type r = STREAM \<and> rc_type_id r = st_id st))"

definition may_access :: "user_profile \<Rightarrow> stream \<Rightarrow> db \<Rightarrow> bool" where
  "may_access u st d \<longleftrightarrow> st_realm st = u_realm u \<and> (is_public d st = Inr True \<or> subscribed_to_stream (u_id u) st d)"

lemma db_get_found: "distinct (map k table) \<Longrightarrow> x \<in> set table \<Longrightarrow> k x = v \<Longrightarrow> db_get m (\<lambda>y. k y = v) table = Inr x"
  using db_get_key[of k table x m] by simp

lemma db_get_filter: "db_get m p table = Inr x \<longleftrightarrow> filter p table = [x]"
  by (auto simp: db_get_def split: list.splits)

lemma get_or_none_simps:
  "get_or_none r = Inr None \<longleftrightarrow> (\<exists>e. r = Inl (DoesNotExist e))" "get_or_none r = Inr (Some x) \<longleftrightarrow> r = Inr x"
  by (auto simp: get_or_none_def split: sum.splits pyerr.splits)

text \<open>With a key, a row is found or there is none.\<close>

lemma get_or_none_key:
  assumes "distinct (map k table)" and "\<And>x. p x \<Longrightarrow> k x = v"
  shows "get_or_none (db_get m p table) = Inr (find p table)"
proof -
  have "filter p table = (case find p table of None \<Rightarrow> [] | Some x \<Rightarrow> [x])"
    using assms
  proof (induction table)
    case (Cons a table)
    show ?case
    proof (cases "p a")
      case True
      then have "\<forall>x \<in> set table. \<not> p x" using Cons.prems by (metis image_eqI list.set_map list.simps(9) distinct.simps(2))
      then show ?thesis using True by (simp add: filter_empty_conv)
    qed (use Cons in simp)
  qed simp
  then show ?thesis by (cases "find p table") (simp_all add: db_get_def get_or_none_def)
qed

lemma find_None_ex: "find p xs = None \<longleftrightarrow> \<not> list_ex p xs"
  by (induction xs) auto

lemma stream_recipient:
  assumes "stream_tables_ok d" and "st \<in> set (streams d)"
  shows "\<exists>rc. get_recipient STREAM (st_id st) d = Inr rc \<and> stream_recipient_ids (st_id st) d = [rc_id rc] \<and> rc \<in> set (recipients d)"
proof -
  obtain rc where rc: "rc \<in> set (recipients d)" "rc_type rc = STREAM" "rc_type_id rc = st_id st"
    using assms by (auto simp: stream_tables_ok_def)
  let ?p = "\<lambda>r. rc_type r = STREAM \<and> rc_type_id r = st_id st"
  have keys: "distinct (map (\<lambda>r. (rc_type r, rc_type_id r)) (recipients d))" using assms(1) by (simp add: stream_tables_ok_def)
  have "filter ?p (recipients d) = filter (\<lambda>r. (rc_type r, rc_type_id r) = (rc_type rc, rc_type_id rc)) (recipients d)"
    by (intro filter_cong) (auto simp: rc)
  moreover have "db_get m (\<lambda>r. (rc_type r, rc_type_id r) = (rc_type rc, rc_type_id rc)) (recipients d) = Inr rc" for m
    using db_get_key[OF keys rc(1)] .
  ultimately have one: "filter ?p (recipients d) = [rc]" unfolding db_get_filter by simp
  then have "filter (\<lambda>r. rc_type_id r = st_id st \<and> rc_type r = STREAM) (recipients d) = [rc]" by (simp add: conj_commute)
  then show ?thesis using one rc(1) by (simp add: get_recipient_def db_get_def stream_recipient_ids_def)
qed

lemma stream_public:
  assumes "stream_tables_ok d" and "st \<in> set (streams d)"
  shows "\<exists>b. is_public d st = Inr b"
proof -
  obtain r where "r \<in> set (realms d)" "rm_id r = st_realm st" using assms by (auto simp: stream_tables_ok_def)
  then have "db_get ''Realm'' (\<lambda>r. rm_id r = st_realm st) (realms d) = Inr r"
    using assms(1) by (intro db_get_found) (simp_all add: stream_tables_ok_def)
  then show ?thesis by (simp add: is_public_def)
qed

lemma access_common:
  assumes "stream_tables_ok d" and "st \<in> set (streams d)"
  shows "if may_access u st d
    then \<exists>rc sub. access_stream_common u st err d = Inr (rc, sub) \<and> rc_type rc = STREAM \<and> rc_type_id rc = st_id st \<and>
      (sub \<noteq> None \<longleftrightarrow> subscribed_to_stream (u_id u) st d)
    else access_stream_common u st err d = Inl (JsonableError err)"
proof -
  obtain rc where rc: "get_recipient STREAM (st_id st) d = Inr rc" "stream_recipient_ids (st_id st) d = [rc_id rc]"
    using stream_recipient[OF assms] by blast
  have rc': "rc_type rc = STREAM" "rc_type_id rc = st_id st" using db_get_Inr[OF rc(1)[unfolded get_recipient_def]] by auto
  obtain b where b: "is_public d st = Inr b" using stream_public[OF assms] by blast
  let ?p = "\<lambda>x. sub_user_profile x = u_id u \<and> sub_recipient x = rc_id rc \<and> sub_active x"
  have sub: "get_or_none (db_get ''Subscription'' ?p (subscriptions d)) = Inr (find ?p (subscriptions d))"
    using assms(1) by (intro get_or_none_key[where k = "\<lambda>x. (sub_user_profile x, sub_recipient x)" and v = "(u_id u, rc_id rc)"])
      (auto simp: stream_tables_ok_def)
  have "(\<exists>y. find ?p (subscriptions d) = Some y) \<longleftrightarrow> subscribed_to_stream (u_id u) st d"
    using find_None_ex[of ?p "subscriptions d"] by (auto simp: subscribed_to_stream_def db_exists_def rc list_ex_iff)
  then show ?thesis using rc rc' b sub by (auto simp: access_stream_common_def may_access_def)
qed

text \<open>
  C23: A stream can be accessed by its id by exactly those users of its realm who are
  subscribed to it or for whom it is public; to all others the answer is the same as for an id
  that no stream has.
\<close>

theorem access_stream_iff:
  assumes "stream_tables_ok d"
  shows "if \<exists>st \<in> set (streams d). st_id st = i \<and> may_access u st d
    then \<exists>st rc sub. access_stream_by_id u i d = Inr (st, rc, sub) \<and> st \<in> set (streams d) \<and> st_id st = i \<and>
      rc_type rc = STREAM \<and> rc_type_id rc = i \<and> (sub \<noteq> None \<longleftrightarrow> subscribed_to_stream (u_id u) st d)
    else access_stream_by_id u i d = Inl (JsonableError ''Invalid stream id'')"
proof -
  have keys: "distinct (map st_id (streams d))" using assms by (simp add: stream_tables_ok_def)
  have got: "get_or_none (db_get ''Stream'' (\<lambda>s. st_id s = i) (streams d)) = Inr (find (\<lambda>s. st_id s = i) (streams d))"
    by (rule get_or_none_key[OF keys]) simp
  show ?thesis
  proof (cases "find (\<lambda>s. st_id s = i) (streams d)")
    case None
    then have "\<not> (\<exists>st \<in> set (streams d). st_id st = i \<and> may_access u st d)" by (auto simp: find_None_iff)
    moreover have "access_stream_by_id u i d = Inl (JsonableError ''Invalid stream id'')"
      using got None by (simp add: access_stream_by_id_def)
    ultimately show ?thesis by simp
  next
    case (Some st)
    then have st: "st \<in> set (streams d)" "st_id st = i" by (auto simp: find_Some_iff)
    have only: "x = st" if "x \<in> set (streams d)" "st_id x = i" for x
      using keys st that by (metis inj_onD distinct_map)
    have run: "access_stream_by_id u i d = ebind (access_stream_common u st ''Invalid stream id'' d) (\<lambda>(rc, sub). Inr (st, rc, sub))"
      using got Some by (simp add: access_stream_by_id_def)
    show ?thesis
    proof (cases "may_access u st d")
      case True
      then obtain rc sub where "access_stream_common u st ''Invalid stream id'' d = Inr (rc, sub)" "rc_type rc = STREAM"
        "rc_type_id rc = st_id st" "sub \<noteq> None \<longleftrightarrow> subscribed_to_stream (u_id u) st d"
        using access_common[OF assms st(1), of u "''Invalid stream id''"] by auto
      then show ?thesis using run st True by auto
    next
      case False
      then have "access_stream_common u st ''Invalid stream id'' d = Inl (JsonableError ''Invalid stream id'')"
        using access_common[OF assms st(1), of u "''Invalid stream id''"] by simp
      then show ?thesis using run only False by auto
    qed
  qed
qed

theorem access_stream_iff_witness:
  "\<exists>st rc sub. access_stream_by_id (demo_user 9 4 ''ann@zulip.com'') 6 (sv_db (demo_server True)) = Inr (st, rc, sub) \<and> sub \<noteq> None"
proof -
  have ok: "stream_tables_ok (sv_db (demo_server True))" by code_simp
  have "may_access (demo_user 9 4 ''ann@zulip.com'') (demo_stream True) (sv_db (demo_server True))" by code_simp
  moreover have "subscribed_to_stream 9 (demo_stream True) (sv_db (demo_server True))" by code_simp
  moreover have "set (streams (sv_db (demo_server True))) = {demo_stream True}" "st_id (demo_stream True) = 6"
    "u_id (demo_user 9 4 ''ann@zulip.com'') = 9" by (simp_all add: demo_server_def demo_db_def demo_stream_def demo_user_def)
  ultimately show ?thesis
    using access_stream_iff[OF ok, of 6 "demo_user 9 4 ''ann@zulip.com''"] by (auto split: if_splits)
qed

section \<open>Creating streams on demand\<close>

definition stream_key :: "stream \<Rightarrow> int \<times> string" where
  "stream_key st = (st_realm st, str_lower (st_name st))"

definition names_ok :: "db \<Rightarrow> bool" where
  "names_ok d \<longleftrightarrow> distinct (map stream_key (streams d))"

lemma named_stream:
  assumes "names_ok d"
  shows "db_get m (\<lambda>x. st_realm x = r \<and> str_lower (st_name x) = n) (streams d) =
    (case find (\<lambda>x. stream_key x = (r, n)) (streams d) of None \<Rightarrow> Inl (DoesNotExist m) | Some st \<Rightarrow> Inr st)"
proof -
  have p: "(\<lambda>x. st_realm x = r \<and> str_lower (st_name x) = n) = (\<lambda>x. stream_key x = (r, n))"
    by (simp add: stream_key_def)
  have "get_or_none (db_get m (\<lambda>x. stream_key x = (r, n)) (streams d)) = Inr (find (\<lambda>x. stream_key x = (r, n)) (streams d))"
    using assms by (intro get_or_none_key[where k = stream_key]) (simp_all add: names_ok_def)
  then show ?thesis unfolding p
    by (cases "find (\<lambda>x. stream_key x = (r, n)) (streams d)") (auto simp: get_or_none_simps db_get_None)
qed

text \<open>What creating streams keeps and adds: \<open>grown\<close> holds between the states before and after.\<close>

definition grown :: "server \<Rightarrow> server \<Rightarrow> bool" where
  "grown s s' \<longleftrightarrow> names_ok (sv_db s') \<and> set (streams (sv_db s)) \<subseteq> set (streams (sv_db s')) \<and>
     users (sv_db s') = users (sv_db s) \<and> realms (sv_db s') = realms (sv_db s)"

lemma create_stream_run:
  assumes "names_ok (sv_db s)"
  shows "\<exists>st b s'. create_stream_if_needed E r name io desc s = (Inr (st, b), s') \<and> grown s s' \<and>
    st \<in> set (streams (sv_db s')) \<and> stream_key st = (r, str_lower name) \<and> (b \<longleftrightarrow> st \<notin> set (streams (sv_db s)))"
proof (cases "find (\<lambda>x. stream_key x = (r, str_lower name)) (streams (sv_db s))")
  case (Some st)
  then have "create_stream_if_needed E r name io desc s = (Inr (st, False), s)"
    using named_stream[OF assms] by (simp add: create_stream_if_needed_def)
  moreover have "st \<in> set (streams (sv_db s))" "stream_key st = (r, str_lower name)" using Some by (auto simp: find_Some_iff)
  ultimately show ?thesis using assms by (auto simp: grown_def)
next
  case None
  define st where "st = \<lparr>st_id = sv_next_id s, st_name = name, st_realm = r, st_invite_only = Some io,
                   st_email_token = new_email_token E (sv_next_id s), st_description = desc,
                   st_date_created = sv_now s, st_deactivated = False\<rparr>"
  define t where "t = s\<lparr>sv_next_id := sv_next_id s + 2, sv_db := (sv_db s)\<lparr>streams := streams (sv_db s) @ [st],
      recipients := recipients (sv_db s) @ [\<lparr>rc_id = sv_next_id s + 1, rc_type_id = sv_next_id s, rc_type = STREAM\<rparr>]\<rparr>\<rparr>"
  have "\<exists>s'. create_stream_if_needed E r name io desc s = (Inr (st, True), s') \<and> sv_db s' = sv_db t"
    using named_stream[OF assms] None
    by (cases io) (auto simp: create_stream_if_needed_def st_def t_def Let_def andthen_def seq_apply)
  moreover have new: "stream_key st \<notin> stream_key ` set (streams (sv_db s))" "stream_key st = (r, str_lower name)"
    using None by (auto simp: st_def stream_key_def find_None_iff)
  then have "names_ok (sv_db t)" using assms by (simp add: names_ok_def t_def)
  moreover have "st \<notin> set (streams (sv_db s))" using new(1) by blast
  ultimately show ?thesis using new(2) by (auto simp: grown_def t_def)
qed

lemma grown_trans: "grown s t \<Longrightarrow> grown t u \<Longrightarrow> grown s u"
  by (auto simp: grown_def)

lemma create_streams_run:
  assumes "names_ok (sv_db s)"
  shows "\<exists>created dup s'. create_streams_if_needed E r dicts s = (Inr (created, dup), s') \<and> grown s s' \<and>
    set (created @ dup) \<subseteq> set (streams (sv_db s')) \<and>
    stream_key ` set (created @ dup) = (\<lambda>x. (r, str_lower (fst x))) ` set dicts \<and>
    set created \<inter> set (streams (sv_db s)) = {}"
proof -
  let ?f = "\<lambda>(name, invite_only, description). create_stream_if_needed E r name invite_only description"
  have "\<exists>rs s'. collect ?f dicts s = (Inr rs, s') \<and> grown s s' \<and> fst ` set rs \<subseteq> set (streams (sv_db s')) \<and>
    stream_key ` fst ` set rs = (\<lambda>x. (r, str_lower (fst x))) ` set dicts \<and>
    fst ` set (filter snd rs) \<inter> set (streams (sv_db s)) = {}"
    using assms
  proof (induction dicts arbitrary: s)
    case Nil
    then show ?case by (simp add: grown_def)
  next
    case (Cons x dicts)
    obtain name io desc where x: "x = (name, io, desc)" by (cases x)
    obtain st b t where step: "create_stream_if_needed E r name io desc s = (Inr (st, b), t)" and t: "grown s t"
      "st \<in> set (streams (sv_db t))" "stream_key st = (r, str_lower name)" "b \<longleftrightarrow> st \<notin> set (streams (sv_db s))"
      using create_stream_run[OF Cons.prems] by blast
    obtain rs s' where rest: "collect ?f dicts t = (Inr rs, s')" "grown t s'" "fst ` set rs \<subseteq> set (streams (sv_db s'))"
      "stream_key ` fst ` set rs = (\<lambda>x. (r, str_lower (fst x))) ` set dicts"
      "fst ` set (filter snd rs) \<inter> set (streams (sv_db t)) = {}"
      using Cons.IH[of t] t(1) by (auto simp: grown_def)
    have "collect ?f (x # dicts) s = (Inr ((st, b) # rs), s')" using step rest(1) by (simp add: x)
    moreover have "fst ` set (filter snd ((st, b) # rs)) \<inter> set (streams (sv_db s)) = {}"
      using rest(5) t(1,4) by (auto simp: grown_def)
    moreover have "fst ` set ((st, b) # rs) \<subseteq> set (streams (sv_db s'))"
      using rest(2,3) t(2) by (auto simp: grown_def)
    moreover have "stream_key ` fst ` set ((st, b) # rs) = (\<lambda>x. (r, str_lower (fst x))) ` set (x # dicts)"
      by (simp only: list.set image_insert rest(4) fst_conv t(3) x)
    moreover have "grown s s'" by (rule grown_trans[OF t(1) rest(2)])
    ultimately show ?case by (intro exI[of _ "(st, b) # rs"] exI[of _ s'] conjI)
  qed
  then obtain rs s' where rs: "collect ?f dicts s = (Inr rs, s')" "grown s s'" "fst ` set rs \<subseteq> set (streams (sv_db s'))"
    "stream_key ` fst ` set rs = (\<lambda>x. (r, str_lower (fst x))) ` set dicts"
    "fst ` set (filter snd rs) \<inter> set (streams (sv_db s)) = {}" by (elim exE conjE) (rule that)
  let ?c = "map fst (filter snd rs)" and ?d = "map fst (filter (\<lambda>r. \<not> snd r) rs)"
  have "create_streams_if_needed E r dicts s = (Inr (?c, ?d), s')" using rs(1) by (simp add: create_streams_if_needed_def)
  moreover have all: "set (?c @ ?d) = fst ` set rs" by auto
  moreover have "set ?c \<inter> set (streams (sv_db s)) = {}" using rs(5) by simp
  ultimately show ?thesis using rs(2,3,4) unfolding all[symmetric]
    by (intro exI[of _ ?c] exI[of _ ?d] exI[of _ s'] conjI)
qed

lemma bulk_get_streams_find:
  assumes "names_ok d" and "n \<in> set names"
  shows "map_of (bulk_get_streams r names d) (str_lower n) = Some st \<Longrightarrow>
    st \<in> set (streams d) \<and> stream_key st = (r, str_lower n)"
  by (drule map_of_SomeD) (auto simp: bulk_get_streams_def get_active_streams_def stream_key_def)

lemma check_names_keep: "for_each check_raw_stream_name names s = (r, s') \<Longrightarrow> s' = s"
proof -
  assume run: "for_each check_raw_stream_name names s = (r, s')"
  have "preserves (\<lambda>s. s) (for_each check_raw_stream_name names)"
    unfolding check_raw_stream_name_def by (intro preserves_intros)
  then show ?thesis using run by (rule preservesD)
qed

text \<open>
  Looking up streams by name does all of it or nothing: when it raises, the database and
  the events are as before; otherwise each name has its stream of the realm among the results,
  and streams are only created on request and by users who may create them.
\<close>

theorem list_to_streams_atomic:
  assumes "names_ok (sv_db s)" and "list_to_streams E raw u autocreate s = (r, s')"
  shows "case r of
      Inl e \<Rightarrow> sv_db s' = sv_db s \<and> sv_events s' = sv_events s
    | Inr (existing, created) \<Rightarrow>
        names_ok (sv_db s') \<and> set (existing @ created) \<subseteq> set (streams (sv_db s')) \<and>
        stream_key ` set (existing @ created) = (\<lambda>x. (u_realm u, str_lower (fst x))) ` set raw \<and>
        set created \<inter> set (streams (sv_db s)) = {} \<and>
        (created \<noteq> [] \<longrightarrow> autocreate \<and> (\<exists>rm. the_realm (u_realm u) (sv_db s) = Inr rm \<and> can_create_streams (sv_now s) u rm))"
proof -
  let ?set = "remdups (map fst raw)"
  define look where "look x = map_of (bulk_get_streams (u_realm u) ?set (sv_db s)) (str_lower (fst x))" for x :: stream_dict
  define existing where "existing = List.map_filter look raw"
  define missing where "missing = filter (\<lambda>x. look x = None) raw"
  have found: "st \<in> set (streams (sv_db s)) \<and> stream_key st = (u_realm u, str_lower (fst x))"
    if "x \<in> set raw" "look x = Some st" for x st
    using bulk_get_streams_find[OF assms(1), of "fst x" ?set] that by (simp add: look_def)
  have ex: "set existing = {st. \<exists>x \<in> set raw. look x = Some st}"
    by (force simp: existing_def List.map_filter_def)
  have keys: "stream_key ` set existing = (\<lambda>x. (u_realm u, str_lower (fst x))) ` {x \<in> set raw. look x \<noteq> None}"
    (is "?L = ?R")
  proof
    show "?L \<subseteq> ?R"
    proof
      fix k
      assume "k \<in> ?L"
      then obtain x st where "x \<in> set raw" "look x = Some st" "k = stream_key st" unfolding ex by blast
      then show "k \<in> ?R" using found by auto
    qed
    show "?R \<subseteq> ?L"
    proof
      fix k
      assume "k \<in> ?R"
      then obtain x st where x: "x \<in> set raw" "look x = Some st" "k = (u_realm u, str_lower (fst x))" by auto
      then have "k = stream_key st" "st \<in> set existing" using found ex by auto
      then show "k \<in> ?L" by blast
    qed
  qed
  have sub: "set existing \<subseteq> set (streams (sv_db s))" unfolding ex using found by blast
  obtain r1 t where checks: "for_each check_raw_stream_name ?set s = (r1, t)" by (cases "for_each check_raw_stream_name ?set s")
  then have t: "t = s" by (rule check_names_keep)
  show ?thesis
  proof (cases r1)
    case (Inl e)
    then show ?thesis using assms(2) checks t by (auto simp: list_to_streams_def Let_def)
  next
    case (Inr x)
    then have run: "(if missing = [] then ret (existing, [])
       else
         seq timezone_now (\<lambda>now.
         seq (query (the_realm (u_realm u))) (\<lambda>r.
         if \<not> can_create_streams now u r then raise (JsonableError ''User cannot create streams.'')
         else if \<not> autocreate
         then raise (JsonableError (''Stream(s) ('' @ str_join '', '' (map fst missing) @ '') do not exist''))
         else seq (create_streams_if_needed E (u_realm u) missing) (\<lambda>(created, dup).
                ret (existing @ dup, created))))) s = (r, s')"
      using assms(2) checks t unfolding existing_def missing_def look_def[abs_def] by (simp add: list_to_streams_def Let_def)
    show ?thesis
    proof (cases "missing = []")
      case True
      then have "{x \<in> set raw. look x \<noteq> None} = set raw" by (auto simp: missing_def filter_empty_conv)
      then show ?thesis using run True keys sub assms(1) by auto
    next
      case False
      show ?thesis
      proof (cases "\<exists>rm. the_realm (u_realm u) (sv_db s) = Inr rm \<and> can_create_streams (sv_now s) u rm \<and> autocreate")
        case False
        then show ?thesis using run \<open>missing \<noteq> []\<close>
          by (cases "the_realm (u_realm u) (sv_db s)") (auto simp: seq_apply split: if_splits)
      next
        case True
        then obtain rm where rm: "the_realm (u_realm u) (sv_db s) = Inr rm" "can_create_streams (sv_now s) u rm" autocreate by blast
        obtain created dup t' where made: "create_streams_if_needed E (u_realm u) missing s = (Inr (created, dup), t')"
          "grown s t'" "set (created @ dup) \<subseteq> set (streams (sv_db t'))"
          "stream_key ` set (created @ dup) = (\<lambda>x. (u_realm u, str_lower (fst x))) ` set missing"
          "set created \<inter> set (streams (sv_db s)) = {}"
          using create_streams_run[OF assms(1), of E "u_realm u" missing] by blast
        have res: "r = Inr (existing @ dup, created)" "s' = t'"
          using run rm made(1) \<open>missing \<noteq> []\<close> by (auto simp: seq_apply)
        have "set raw = {x \<in> set raw. look x \<noteq> None} \<union> set missing" by (auto simp: missing_def)
        then have "stream_key ` set ((existing @ dup) @ created) = (\<lambda>x. (u_realm u, str_lower (fst x))) ` set raw"
          using made(4) keys by (metis (no_types, lifting) Un_assoc Un_commute image_Un set_append)
        then show ?thesis using res made sub rm by (auto simp: grown_def)
      qed
    qed
  qed
qed

definition demo_raw :: "stream_dict list" where
  "demo_raw = [(''devel'', False, []), (''Lunch'', False, ''food'')]"

theorem list_to_streams_atomic_witness:
  "\<exists>existing created s'. list_to_streams demo_env demo_raw ((demo_user 9 4 ''ann@zulip.com'')\<lparr>u_is_realm_admin := True\<rparr>) True (demo_server False) =
    (Inr (existing, created), s') \<and> stream_key ` set (existing @ created) = {(4, ''devel''), (4, ''lunch'')}"
proof -
  let ?u = "(demo_user 9 4 ''ann@zulip.com'')\<lparr>u_is_realm_admin := True\<rparr>"
  have "case fst (list_to_streams demo_env demo_raw ?u True (demo_server False)) of Inr _ \<Rightarrow> True | Inl _ \<Rightarrow> False" by code_simp
  then obtain existing created s' where run: "list_to_streams demo_env demo_raw ?u True (demo_server False) = (Inr (existing, created), s')"
    by (cases "list_to_streams demo_env demo_raw ?u True (demo_server False)") (auto split: sum.splits)
  have "names_ok (sv_db (demo_server False))" by code_simp
  from list_to_streams_atomic[OF this run]
  have "stream_key ` set (existing @ created) = (\<lambda>x. (u_realm ?u, str_lower (fst x))) ` set demo_raw" by simp
  also have "\<dots> = {(4, ''devel''), (4, ''lunch'')}" by code_simp
  finally show ?thesis using run by blast
qed

end
