(* ===== verification/Subscriptions.thy ===== *)
theory Subscriptions
  imports Streams
begin

text \<open>
  Subscribing users to streams and unsubscribing them (\<open>zerver/lib/actions.py\<close>). The row of a
  subscription is identified by its user and recipient, which are unique together. The sets of
  recipients that the code iterates over are taken in the order of the table.
\<close>

section \<open>Colors\<close>

definition STREAM_ASSIGNMENT_COLORS :: "string list" where
  "STREAM_ASSIGNMENT_COLORS = [
     ''#76ce90'', ''#fae589'', ''#a6c7e5'', ''#e79ab5'', ''#bfd56f'', ''#f4ae55'', ''#b0a5fd'', ''#addfe5'',
     ''#f5ce6e'', ''#c2726a'', ''#94c849'', ''#bd86e5'', ''#ee7e4a'', ''#a6dcbf'', ''#95a5fd'', ''#53a063'',
     ''#9987e1'', ''#e4523d'', ''#c2c2c2'', ''#4f8de4'', ''#c6a8ad'', ''#e7cc4d'', ''#c8bebf'', ''#a47462'']"

definition pick_color_helper :: "subscription list \<Rightarrow> string" where
  "pick_color_helper subs =
     (let used_colors = map sub_color (filter sub_active subs);
          available_colors = filter (\<lambda>c. c \<notin> set used_colors) STREAM_ASSIGNMENT_COLORS
      in if available_colors \<noteq> [] then hd available_colors
         else STREAM_ASSIGNMENT_COLORS ! (length used_colors mod length STREAM_ASSIGNMENT_COLORS))"

definition stream_subs_of :: "int \<Rightarrow> db \<Rightarrow> subscription list" where
  "stream_subs_of uid d = filter (\<lambda>x. sub_user_profile x = uid \<and>
     db_exists (\<lambda>r. rc_id r = sub_recipient x \<and> rc_type r = STREAM) (recipients d)) (subscriptions d)"

definition pick_color :: "user_profile \<Rightarrow> db \<Rightarrow> string" where
  "pick_color u d = pick_color_helper (filter sub_active (stream_subs_of (u_id u) d))"

section \<open>Events\<close>

definition all_subs_by_stream :: "db \<Rightarrow> int \<Rightarrow> pyerr + user_profile list" where
  "all_subs_by_stream d stream_id =
     emap (\<lambda>x. get_user_profile_by_id (sub_user_profile x) d) (stream_subscriptions stream_id d)"

definition get_peer_user_ids_for_stream_change :: "stream \<Rightarrow> user_profile list \<Rightarrow> user_profile list \<Rightarrow> db \<Rightarrow> int list" where
  "get_peer_user_ids_for_stream_change st altered_users subscribed_users d =
     filter (\<lambda>i. i \<notin> set (map u_id altered_users))
       (remdups (if st_invite_only st = Some True then map u_id subscribed_users else active_user_ids (st_realm st) d))"

definition subscription_payload :: "send_env \<Rightarrow> subscription \<times> stream \<Rightarrow> string list \<Rightarrow> pyval" where
  "subscription_payload E p emails = (case p of (sub, st) \<Rightarrow> PDict
     [(''name'', PStr (st_name st)), (''stream_id'', PInt (st_id st)), (''in_home_view'', of_opt PBool (sub_in_home_view sub)),
      (''invite_only'', of_opt PBool (st_invite_only st)), (''color'', PStr (sub_color sub)),
      (''email_address'', PStr (encode_email_address E st)),
      (''desktop_notifications'', PBool (sub_desktop_notifications sub)),
      (''audible_notifications'', PBool (sub_audible_notifications sub)), (''description'', PStr (st_description st)),
      (''pin_to_top'', PBool (sub_pin_to_top sub)), (''subscribers'', PList (map PStr emails))])"

definition notify_subscriptions_added ::
  "send_env \<Rightarrow> user_profile \<Rightarrow> (subscription \<times> stream) list \<Rightarrow> (stream \<Rightarrow> db \<Rightarrow> pyerr + string list) \<Rightarrow> unit act" where
  "notify_subscriptions_added E u sub_pairs stream_emails =
     seq (query (\<lambda>d. emap (\<lambda>p. ebind (stream_emails (snd p) d) (\<lambda>emails. Inr (subscription_payload E p emails))) sub_pairs))
       (\<lambda>payload. send_event [(''type'', PStr ''subscription''), (''op'', PStr ''add''), (''subscriptions'', PList payload)]
          [PInt (u_id u)])"

definition notify_subscriptions_removed :: "user_profile \<Rightarrow> stream list \<Rightarrow> unit act" where
  "notify_subscriptions_removed u sts =
     send_event [(''type'', PStr ''subscription''), (''op'', PStr ''remove''),
       (''subscriptions'', PList (map (\<lambda>st. PDict [(''name'', PStr (st_name st)), (''stream_id'', PInt (st_id st))]) sts))]
     [PInt (u_id u)]"

definition peer_event :: "string \<Rightarrow> stream \<Rightarrow> user_profile \<Rightarrow> pydict" where
  "peer_event operation st u =
     [(''type'', PStr ''subscription''), (''op'', PStr operation), (''subscriptions'', PList [PStr (st_name st)]),
      (''user_id'', PInt (u_id u))]"

text \<open>The last loop of both operations, for one stream and the users that were altered in it.\<close>

definition notify_peers :: "string \<Rightarrow> stream \<Rightarrow> user_profile list \<Rightarrow> unit act" where
  "notify_peers operation st altered_users =
     seq (query (the_realm (st_realm st))) (\<lambda>r.
     if is_zephyr_mirror_realm r \<and> st_invite_only st \<noteq> Some True then ret ()
     else
       seq (query (\<lambda>d. all_subs_by_stream d (st_id st))) (\<lambda>subscribed_users.
       seq (lookup (get_peer_user_ids_for_stream_change st altered_users subscribed_users)) (\<lambda>peer_user_ids.
         if peer_user_ids = [] then ret ()
         else for_each (\<lambda>u. send_event (peer_event operation st u) (map PInt peer_user_ids)) altered_users)))"

definition audit_row :: "user_profile \<Rightarrow> int option \<Rightarrow> stream \<Rightarrow> int option \<Rightarrow> string \<Rightarrow> rat \<Rightarrow> audit_log" where
  "audit_row u acting_user st last_message_id event_type now =
     \<lparr>al_realm = u_realm u, al_acting_user = acting_user, al_modified_user = Some (u_id u), al_modified_stream = Some (st_id st),
      al_event_last_message_id = last_message_id, al_event_type = event_type, al_event_time = now\<rparr>"

definition last_message_id :: "db \<Rightarrow> int option" where
  "last_message_id d = (if messages d = [] then None else Some (Max (set (map m_id (messages d)))))"

definition same_row :: "subscription \<Rightarrow> subscription \<Rightarrow> bool" where
  "same_row x y \<longleftrightarrow> sub_user_profile x = sub_user_profile y \<and> sub_recipient x = sub_recipient y"

definition set_active :: "bool \<Rightarrow> subscription list \<Rightarrow> db \<Rightarrow> db" where
  "set_active b subs d = d\<lparr>subscriptions := map (\<lambda>x. if list_ex (same_row x) subs then x\<lparr>sub_active := b\<rparr> else x) (subscriptions d)\<rparr>"

text \<open>\<open>stream_map\<close>, from the recipient ids to the streams; a stream without a recipient raises.\<close>

definition recipient_of :: "(int \<times> recipient) list \<Rightarrow> stream \<Rightarrow> pyerr + recipient" where
  "recipient_of recipients_map st =
     (case map_of recipients_map (st_id st) of None \<Rightarrow> Inl (KeyError (int_str (st_id st))) | Some rc \<Rightarrow> Inr rc)"

definition build_stream_map :: "stream list \<Rightarrow> db \<Rightarrow> pyerr + (int \<times> stream) list" where
  "build_stream_map sts d =
     efold (\<lambda>m st. ebind (recipient_of (bulk_get_recipients STREAM (map st_id sts) d) st) (\<lambda>rc. Inr (dset (rc_id rc) st m))) [] sts"

section \<open>Subscribing\<close>

text \<open>
  The loop over the subscriptions of a user: those to the streams that are active, those that are
  not, and the recipients left.
\<close>

fun scan_subs :: "int list \<Rightarrow> subscription list \<Rightarrow> subscription list \<times> subscription list \<times> int list" where
  "scan_subs needs_new_sub [] = ([], [], needs_new_sub)"
| "scan_subs needs_new_sub (x # xs) =
     (if sub_recipient x \<in> set needs_new_sub
      then let (already, inactive, rest) = scan_subs (removeAll (sub_recipient x) needs_new_sub) xs
           in if sub_active x then (x # already, inactive, rest) else (already, x # inactive, rest)
      else scan_subs needs_new_sub xs)"

definition mark_active :: "subscription list \<Rightarrow> subscription list \<Rightarrow> subscription list" where
  "mark_active activated subs = map (\<lambda>x. if list_ex (same_row x) activated then x\<lparr>sub_active := True\<rparr> else x) subs"

text \<open>The state of the loop over the users, and one round of it.\<close>

record sub_plan =
  sp_subs_by_user :: "(int \<times> subscription list) list"
  sp_already :: "(user_profile \<times> stream) list"
  sp_activate :: "(user_profile \<times> subscription \<times> stream) list"
  sp_new :: "(user_profile \<times> int \<times> stream) list"

definition plan_user :: "int list \<Rightarrow> (int \<times> stream) list \<Rightarrow> user_profile \<Rightarrow> sub_plan \<Rightarrow> sub_plan" where
  "plan_user rids stream_map u p =
     (let subs = (case map_of (sp_subs_by_user p) (u_id u) of None \<Rightarrow> [] | Some l \<Rightarrow> l);
          (already, inactive, rest) = scan_subs rids subs;
          stream_of = (\<lambda>rid. the (map_of stream_map rid))
      in \<lparr>sp_subs_by_user = dset (u_id u) (mark_active inactive subs) (sp_subs_by_user p),
          sp_already = sp_already p @ map (\<lambda>x. (u, stream_of (sub_recipient x))) already,
          sp_activate = sp_activate p @ map (\<lambda>x. (u, x\<lparr>sub_active := True\<rparr>, stream_of (sub_recipient x))) inactive,
          sp_new = sp_new p @ map (\<lambda>rid. (u, rid, stream_of rid)) rest\<rparr>)"

text \<open>The loop over the new subscriptions, each with the color that is free at that point.\<close>

fun build_new_subs ::
  "(int \<times> subscription list) list \<Rightarrow> (user_profile \<times> int \<times> stream) list \<Rightarrow> (user_profile \<times> subscription \<times> stream) list" where
  "build_new_subs subs_by_user [] = []"
| "build_new_subs subs_by_user ((u, rid, st) # new) =
     (let subs = (case map_of subs_by_user (u_id u) of None \<Rightarrow> [] | Some l \<Rightarrow> l);
          x = (new_subscription (u_id u) rid)\<lparr>sub_color := pick_color_helper subs,
                sub_desktop_notifications := u_enable_stream_desktop_notifications u,
                sub_audible_notifications := u_enable_stream_sounds u\<rparr>
      in (u, x, st) # build_new_subs (dset (u_id u) (subs @ [x]) subs_by_user) new)"

definition bulk_create_subscriptions :: "subscription list \<Rightarrow> unit act" where
  "bulk_create_subscriptions subs =
     seq (lookup subscriptions) (\<lambda>rows.
       if distinct (map (\<lambda>x. (sub_user_profile x, sub_recipient x)) (rows @ subs))
       then modify_db (\<lambda>d. d\<lparr>subscriptions := rows @ subs\<rparr>)
       else raise (OtherError ''IntegrityError''))"

definition fetch_stream_subscriber_emails :: "stream \<Rightarrow> db \<Rightarrow> pyerr + string list" where
  "fetch_stream_subscriber_emails st d =
     ebind (the_realm (st_realm st) d) (\<lambda>r.
       if is_zephyr_mirror_realm r \<and> st_invite_only st \<noteq> Some True then Inr []
       else ebind (all_subs_by_stream d (st_id st)) (\<lambda>us. Inr (map u_email us)))"

definition plan_subscriptions :: "stream list \<Rightarrow> user_profile list \<Rightarrow> db \<Rightarrow> pyerr + sub_plan" where
  "plan_subscriptions sts us d =
     ebind (build_stream_map sts d) (\<lambda>stream_map.
       Inr (fold (plan_user (map (\<lambda>p. rc_id (snd p)) (bulk_get_recipients STREAM (map st_id sts) d)) stream_map) us
         \<lparr>sp_subs_by_user = map (\<lambda>u. (u_id u, stream_subs_of (u_id u) d)) us, sp_already = [], sp_activate = [], sp_new = []\<rparr>))"

text \<open>The user that the loop variable \<open>user_profile\<close> is left with.\<close>

definition last_user :: "user_profile list \<Rightarrow> pyerr + user_profile" where
  "last_user us = (if us = [] then Inl (NameError ''user_profile'') else Inr (last us))"

text \<open>The transaction, and the events that follow; \<open>pairs\<close> are the subscriptions added and activated.\<close>

definition store_subscriptions ::
  "(user_profile \<times> subscription \<times> stream) list \<Rightarrow> (user_profile \<times> subscription \<times> stream) list \<Rightarrow> int \<Rightarrow>
   (stream list \<times> stream list) act" where
  "store_subscriptions to_add to_activate realm_id = atomic
     (seq (lookup (get_occupied_streams realm_id)) (\<lambda>before.
      andthen (bulk_create_subscriptions (map (\<lambda>p. fst (snd p)) to_add))
      (andthen (modify_db (set_active True (map (\<lambda>p. fst (snd p)) to_activate)))
      (seq (lookup (get_occupied_streams realm_id)) (\<lambda>after. ret (before, after))))))"

definition log_subscriptions ::
  "(user_profile \<times> subscription \<times> stream) list \<Rightarrow> (user_profile \<times> subscription \<times> stream) list \<Rightarrow> int option \<Rightarrow> unit act" where
  "log_subscriptions to_add to_activate acting_user =
     seq timezone_now (\<lambda>now.
       modify_db (\<lambda>d. d\<lparr>audit_logs := audit_logs d @
         map (\<lambda>(u, x, st). audit_row u acting_user st (Some 0) ''subscription_created'' now) to_add @
         map (\<lambda>(u, x, st). audit_row u acting_user st (last_message_id d) ''subscription_activated'' now) to_activate\<rparr>))"

definition stream_event :: "string \<Rightarrow> stream list \<Rightarrow> pydict" where
  "stream_event operation sts =
     [(''type'', PStr ''stream''), (''op'', PStr operation), (''streams'', PList (map (\<lambda>st. PDict (stream_to_dict st)) sts))]"

definition announce_occupied :: "int \<Rightarrow> bool \<Rightarrow> stream list \<Rightarrow> stream list \<Rightarrow> unit act" where
  "announce_occupied realm_id from_stream_creation before after =
     (let new_occupied = filter (\<lambda>st. st_id st \<notin> set (map st_id before) \<and> st_invite_only st \<noteq> Some True) after in
      if new_occupied \<noteq> [] \<and> \<not> from_stream_creation
      then seq (lookup (active_user_ids realm_id)) (\<lambda>ids. send_event (stream_event ''occupy'' new_occupied) (map PInt ids))
      else ret ())"

definition notify_added ::
  "send_env \<Rightarrow> stream list \<Rightarrow> user_profile list \<Rightarrow> (user_profile \<times> subscription \<times> stream) list \<Rightarrow> unit act" where
  "notify_added E sts us pairs =
     (let new_users = (\<lambda>st. filter (\<lambda>u. (u_id u, st_id st) \<in> set (map (\<lambda>(u, x, st). (u_id u, st_id st)) pairs)) us) in
      andthen (for_each (\<lambda>st.
          if st_invite_only st = Some True
          then send_event (stream_event ''create'' [st]) (map (\<lambda>u. PInt (u_id u)) (new_users st)) else ret ()) sts)
      (andthen (for_each (\<lambda>u.
          let sub_pairs = map snd (filter (\<lambda>p. u_id (fst p) = u_id u) pairs) in
          if sub_pairs = [] then ret () else notify_subscriptions_added E u sub_pairs fetch_stream_subscriber_emails) us)
      (for_each (\<lambda>st. notify_peers ''peer_add'' st (new_users st)) sts)))"

definition bulk_add_subscriptions ::
  "send_env \<Rightarrow> stream list \<Rightarrow> user_profile list \<Rightarrow> bool \<Rightarrow> int option \<Rightarrow>
   ((user_profile \<times> stream) list \<times> (user_profile \<times> stream) list) act" where
  "bulk_add_subscriptions E sts us from_stream_creation acting_user =
     seq (query (plan_subscriptions sts us)) (\<lambda>p.
     let subs_to_add = build_new_subs (sp_subs_by_user p) (sp_new p);
         subs_to_activate = sp_activate p in
     seq (query (\<lambda>_. last_user (us @ map fst (sp_new p)))) (\<lambda>u.
     seq (store_subscriptions subs_to_add subs_to_activate (u_realm u)) (\<lambda>(before, after).
     andthen (log_subscriptions subs_to_add subs_to_activate acting_user)
     (andthen (announce_occupied (u_realm u) from_stream_creation before after)
     (andthen (notify_added E sts us (subs_to_add @ subs_to_activate))
       (ret (map (\<lambda>(u, rid, st). (u, st)) (sp_new p) @ map (\<lambda>(u, x, st). (u, st)) subs_to_activate, sp_already p)))))))"

section \<open>Unsubscribing\<close>

text \<open>\<open>recipients_to_unsub.remove(...)\<close> raises for a recipient that is not in the set.\<close>

fun scan_unsubs :: "int list \<Rightarrow> subscription list \<Rightarrow> pyerr + int list" where
  "scan_unsubs rids [] = Inr rids"
| "scan_unsubs rids (x # xs) =
     (if sub_recipient x \<in> set rids then scan_unsubs (removeAll (sub_recipient x) rids) xs
      else Inl (KeyError (int_str (sub_recipient x))))"

record unsub_plan =
  up_deactivate :: "(user_profile \<times> subscription \<times> stream) list"
  up_not_subscribed :: "(user_profile \<times> stream) list"

definition plan_unsub_user :: "int list \<Rightarrow> (int \<times> stream) list \<Rightarrow> db \<Rightarrow> unsub_plan \<Rightarrow> user_profile \<Rightarrow> pyerr + unsub_plan" where
  "plan_unsub_user rids stream_map d p u =
     (let subs = filter (\<lambda>x. sub_user_profile x = u_id u \<and> sub_recipient x \<in> set rids \<and> sub_active x) (subscriptions d);
          stream_of = (\<lambda>rid. the (map_of stream_map rid)) in
      ebind (scan_unsubs rids subs) (\<lambda>rest.
        Inr \<lparr>up_deactivate = up_deactivate p @ map (\<lambda>x. (u, x, stream_of (sub_recipient x))) subs,
             up_not_subscribed = up_not_subscribed p @ map (\<lambda>rid. (u, stream_of rid)) rest\<rparr>))"

definition plan_unsubscriptions :: "user_profile list \<Rightarrow> stream list \<Rightarrow> db \<Rightarrow> pyerr + unsub_plan" where
  "plan_unsubscriptions us sts d =
     ebind (build_stream_map sts d) (\<lambda>stream_map.
       efold (plan_unsub_user (map (\<lambda>p. rc_id (snd p)) (bulk_get_recipients STREAM (map st_id sts) d)) stream_map d)
         \<lparr>up_deactivate = [], up_not_subscribed = []\<rparr> us)"

definition remove_subscriptions :: "subscription list \<Rightarrow> int \<Rightarrow> (stream list \<times> stream list) act" where
  "remove_subscriptions subs realm_id = atomic
     (seq (lookup (get_occupied_streams realm_id)) (\<lambda>before.
      andthen (modify_db (set_active False subs))
      (seq (lookup (get_occupied_streams realm_id)) (\<lambda>after. ret (before, after)))))"

definition log_unsubscriptions :: "(user_profile \<times> subscription \<times> stream) list \<Rightarrow> unit act" where
  "log_unsubscriptions removed =
     seq timezone_now (\<lambda>now.
       modify_db (\<lambda>d. d\<lparr>audit_logs := audit_logs d @
         map (\<lambda>(u, x, st). audit_row u None st (last_message_id d) ''subscription_deactivated'' now) removed\<rparr>))"

text \<open>Streams that nobody is subscribed to any more: public ones are announced, private ones deactivated.\<close>

definition handle_vacant_streams :: "int \<Rightarrow> stream list \<Rightarrow> unit act" where
  "handle_vacant_streams realm_id new_vacant =
     (let vacant_private = filter (\<lambda>st. st_invite_only st = Some True) new_vacant;
          vacant_public = filter (\<lambda>st. st_invite_only st \<noteq> Some True) new_vacant in
      andthen (if vacant_public \<noteq> []
        then seq (lookup (active_user_ids realm_id)) (\<lambda>ids. send_event (stream_event ''vacate'' vacant_public) (map PInt ids))
        else ret ())
      (for_each do_deactivate_stream vacant_private))"

definition notify_removed :: "user_profile list \<Rightarrow> stream list \<Rightarrow> (user_profile \<times> subscription \<times> stream) list \<Rightarrow> unit act" where
  "notify_removed us sts removed =
     andthen (for_each (\<lambda>u.
         let left = map (\<lambda>p. snd (snd p)) (filter (\<lambda>p. u_id (fst p) = u_id u) removed) in
         if left = [] then ret () else notify_subscriptions_removed u left) us)
     (for_each (\<lambda>st. notify_peers ''peer_remove'' st (map fst (filter (\<lambda>p. st_id (snd (snd p)) = st_id st) removed))) sts)"

definition bulk_remove_subscriptions ::
  "user_profile list \<Rightarrow> stream list \<Rightarrow> ((user_profile \<times> stream) list \<times> (user_profile \<times> stream) list) act" where
  "bulk_remove_subscriptions us sts =
     seq (query (plan_unsubscriptions us sts)) (\<lambda>p.
     seq (query (\<lambda>_. last_user us)) (\<lambda>u.
     seq (remove_subscriptions (map (\<lambda>p. fst (snd p)) (up_deactivate p)) (u_realm u)) (\<lambda>(before, after).
     andthen (log_unsubscriptions (up_deactivate p))
     (andthen (handle_vacant_streams (u_realm u) (filter (\<lambda>st. st_id st \<notin> set (map st_id after)) before))
     (andthen (notify_removed us sts (up_deactivate p))
       (ret (map (\<lambda>(u, x, st). (u, st)) (up_deactivate p), up_not_subscribed p)))))))"

section \<open>Properties of a subscription\<close>

text \<open>\<open>setattr(sub, property_name, value)\<close> for the properties that the view lets through.\<close>

definition set_sub_property :: "string \<Rightarrow> pyval \<Rightarrow> subscription \<Rightarrow> pyerr + subscription" where
  "set_sub_property property_name v x =
     (if property_name = ''color'' then ebind (as_str v) (\<lambda>c. Inr (x\<lparr>sub_color := c\<rparr>))
      else if property_name = ''in_home_view'' then ebind (as_bool v) (\<lambda>b. Inr (x\<lparr>sub_in_home_view := Some b\<rparr>))
      else if property_name = ''desktop_notifications'' then ebind (as_bool v) (\<lambda>b. Inr (x\<lparr>sub_desktop_notifications := b\<rparr>))
      else if property_name = ''audible_notifications'' then ebind (as_bool v) (\<lambda>b. Inr (x\<lparr>sub_audible_notifications := b\<rparr>))
      else if property_name = ''pin_to_top'' then ebind (as_bool v) (\<lambda>b. Inr (x\<lparr>sub_pin_to_top := b\<rparr>))
      else Inl (ValueError property_name))"

definition do_change_subscription_property ::
  "user_profile \<Rightarrow> subscription \<Rightarrow> stream \<Rightarrow> string \<Rightarrow> pyval \<Rightarrow> unit act" where
  "do_change_subscription_property u sub st property_name v =
     seq (query (\<lambda>_. set_sub_property property_name v sub)) (\<lambda>sub'.
     andthen (modify_db (\<lambda>d. d\<lparr>subscriptions := map (\<lambda>x. if same_row x sub
         then (case set_sub_property property_name v x of Inr x' \<Rightarrow> x' | Inl _ \<Rightarrow> x) else x) (subscriptions d)\<rparr>))
     (send_event [(''type'', PStr ''subscription''), (''op'', PStr ''update''), (''email'', PStr (u_email u)),
        (''property'', PStr property_name), (''value'', v), (''stream_id'', PInt (st_id st)), (''name'', PStr (st_name st))]
        [PInt (u_id u)]))"

end
