(* ===== verification/SubscriptionProps.thy ===== *)
theory SubscriptionProps
  imports StreamProps Subscriptions
begin

text \<open>
  What subscribing and unsubscribing users does to the table of subscriptions.
\<close>

section \<open>The plan for one user\<close>

lemma scan_subs_filter:
  assumes "distinct (map sub_recipient subs)"
  shows "scan_subs rids subs =
    (filter (\<lambda>x. sub_recipient x \<in> set rids \<and> sub_active x) subs,
     filter (\<lambda>x. sub_recipient x \<in> set rids \<and> \<not> sub_active x) subs,
     filter (\<lambda>r. r \<notin> sub_recipient ` set subs) rids)"
  using assms
proof (induction subs arbitrary: rids)
  case Nil
  then show ?case by simp
next
  case (Cons x xs)
  have "filter (\<lambda>y. sub_recipient y \<in> set rids \<and> sub_recipient y \<noteq> sub_recipient x \<and> P y) xs =
      filter (\<lambda>y. sub_recipient y \<in> set rids \<and> P y) xs" for P
    using Cons.prems by (intro filter_cong) (auto simp: image_iff)
  then show ?case using Cons.IH[of "removeAll (sub_recipient x) rids"] Cons.IH[of rids] Cons.prems
    by (auto simp: removeAll_filter_not_eq intro!: filter_cong)
qed

lemma distinct_map_pair:
  "distinct (map (\<lambda>r. (f r, g r)) l) \<Longrightarrow> \<forall>r \<in> set l. f r = c \<Longrightarrow> distinct (map g l)"
proof (induction l)
  case (Cons a l)
  then have "g a \<noteq> g r" if "r \<in> set l" for r using that by auto
  then show ?case using Cons by auto
qed simp

definition subs_active :: "db \<Rightarrow> (int \<times> int) set" where
  "subs_active d = {(sub_user_profile x, sub_recipient x) | x. x \<in> set (subscriptions d) \<and> sub_active x}"

lemma subscribed_active:
  "subscribed_to_stream v st d \<longleftrightarrow> (\<exists>rid \<in> set (stream_recipient_ids (st_id st) d). (v, rid) \<in> subs_active d)"
  by (auto simp: subscribed_to_stream_def db_exists_def list_ex_iff subs_active_def)

lemma in_subs_active: "x \<in> set (subscriptions d) \<Longrightarrow> sub_active x \<Longrightarrow> (sub_user_profile x, sub_recipient x) \<in> subs_active d"
  unfolding subs_active_def by blast

lemma stream_subs_distinct: "stream_tables_ok d \<Longrightarrow> distinct (map sub_recipient (stream_subs_of uid d))"
proof -
  assume "stream_tables_ok d"
  then have "distinct (map (\<lambda>x. (sub_user_profile x, sub_recipient x)) (stream_subs_of uid d))"
    by (simp add: stream_tables_ok_def stream_subs_of_def distinct_map_filter)
  moreover have "\<forall>x \<in> set (stream_subs_of uid d). sub_user_profile x = uid" by (simp add: stream_subs_of_def)
  ultimately show ?thesis by (rule distinct_map_pair)
qed

section \<open>The streams and their recipients\<close>

lemma bulk_recipients_ids:
  assumes "stream_tables_ok d" and "set sts \<subseteq> set (streams d)"
  shows "rid \<in> set (map (\<lambda>p. rc_id (snd p)) (bulk_get_recipients STREAM (map st_id sts) d)) \<longleftrightarrow>
    (\<exists>st \<in> set sts. rid \<in> set (stream_recipient_ids (st_id st) d))"
  by (auto simp: bulk_get_recipients_def stream_recipient_ids_def)

lemma recipient_of_run:
  assumes "stream_tables_ok d" and "set sts \<subseteq> set (streams d)" and "st \<in> set sts"
  shows "\<exists>rc. recipient_of (bulk_get_recipients STREAM (map st_id sts) d) st = Inr rc \<and> stream_recipient_ids (st_id st) d = [rc_id rc]"
proof -
  obtain rc where rc: "stream_recipient_ids (st_id st) d = [rc_id rc]" "rc \<in> set (recipients d)"
    "get_recipient STREAM (st_id st) d = Inr rc"
    using stream_recipient[OF assms(1)] assms(2,3) by blast
  have ty: "rc_type rc = STREAM" "rc_type_id rc = st_id st" using db_get_Inr[OF rc(3)[unfolded get_recipient_def]] by auto
  let ?l = "filter (\<lambda>r. rc_type r = STREAM \<and> rc_type_id r \<in> set (map st_id sts)) (recipients d)"
  have "distinct (map (\<lambda>r. (rc_type r, rc_type_id r)) ?l)"
    using assms(1) by (simp add: stream_tables_ok_def distinct_map_filter)
  moreover have "\<forall>r \<in> set ?l. rc_type r = STREAM" by simp
  ultimately have "distinct (map rc_type_id ?l)" by (rule distinct_map_pair)
  then have "distinct (map fst (map (\<lambda>r. (rc_type_id r, r)) ?l))" by (simp add: comp_def)
  moreover have "rc \<in> set ?l" using rc(2) ty assms(3) by simp
  then have "(rc_type_id rc, rc) \<in> set (map (\<lambda>r. (rc_type_id r, r)) ?l)" by simp
  ultimately have "map_of (map (\<lambda>r. (rc_type_id r, r)) ?l) (rc_type_id rc) = Some rc" by (rule map_of_is_SomeI)
  then show ?thesis using rc(1) by (simp add: recipient_of_def bulk_get_recipients_def ty)
qed

text \<open>The recipient id of a stream, and the map back.\<close>

definition rid_of :: "db \<Rightarrow> stream \<Rightarrow> int" where
  "rid_of d st = hd (stream_recipient_ids (st_id st) d)"

lemma rid_of_ids: "stream_tables_ok d \<Longrightarrow> st \<in> set (streams d) \<Longrightarrow> stream_recipient_ids (st_id st) d = [rid_of d st]"
  using stream_recipient by (fastforce simp: rid_of_def)

lemma recipient_row:
  "stream_tables_ok d \<Longrightarrow> st \<in> set (streams d) \<Longrightarrow> db_exists (\<lambda>r. rc_id r = rid_of d st \<and> rc_type r = STREAM) (recipients d)"
proof -
  assume "stream_tables_ok d" "st \<in> set (streams d)"
  then have "rid_of d st \<in> set (stream_recipient_ids (st_id st) d)" using rid_of_ids by simp
  then show ?thesis by (auto simp: stream_recipient_ids_def db_exists_def list_ex_iff)
qed

lemma rid_of_inj:
  assumes "stream_tables_ok d" and "a \<in> set (streams d)" and "b \<in> set (streams d)" and "rid_of d a = rid_of d b"
  shows "a = b"
proof -
  have ids: "distinct (map rc_id (recipients d))" and keys: "distinct (map st_id (streams d))"
    using assms(1) by (simp_all add: stream_tables_ok_def)
  have "rid_of d a \<in> set (stream_recipient_ids (st_id a) d)" "rid_of d a \<in> set (stream_recipient_ids (st_id b) d)"
    using rid_of_ids[OF assms(1,2)] rid_of_ids[OF assms(1,3)] assms(4) by simp_all
  then obtain r1 r2 where "r1 \<in> set (recipients d)" "r2 \<in> set (recipients d)" "rc_type_id r1 = st_id a" "rc_type_id r2 = st_id b"
    "rc_id r1 = rc_id r2" by (auto simp: stream_recipient_ids_def)
  then have "st_id a = st_id b" using ids by (metis distinct_map inj_onD)
  then show ?thesis using keys assms(2,3) by (metis distinct_map inj_onD)
qed

lemma stream_map_run:
  assumes "stream_tables_ok d" and "set sts \<subseteq> set (streams d)"
  shows "\<exists>m. build_stream_map sts d = Inr m \<and> (\<forall>st \<in> set sts. map_of m (rid_of d st) = Some st)"
proof -
  let ?R = "bulk_get_recipients STREAM (map st_id sts) d"
  define f where "f m st = ebind (recipient_of ?R st) (\<lambda>rc. Inr (dset (rc_id rc) st m))" for m :: "(int \<times> stream) list" and st
  have step: "f m st = Inr (dset (rid_of d st) st m)" if h: "st \<in> set sts" for m st
  proof -
    obtain rc where "recipient_of ?R st = Inr rc" "stream_recipient_ids (st_id st) d = [rc_id rc]"
      using recipient_of_run[OF assms h] by blast
    then show ?thesis by (simp add: rid_of_def f_def)
  qed
  have "\<exists>m'. efold f m l = Inr m' \<and> (\<forall>st \<in> set l. map_of m' (rid_of d st) = Some st) \<and>
      (\<forall>k. k \<notin> rid_of d ` set l \<longrightarrow> map_of m' k = map_of m k)" if "set l \<subseteq> set sts" for l m
    using that
  proof (induction l arbitrary: m)
    case Nil
    then show ?case by simp
  next
    case (Cons a l)
    have sub: "set l \<subseteq> set sts" using Cons.prems by simp
    obtain m' where m': "efold f (dset (rid_of d a) a m) l = Inr m'" "\<forall>st \<in> set l. map_of m' (rid_of d st) = Some st"
      "\<forall>k. k \<notin> rid_of d ` set l \<longrightarrow> map_of m' k = map_of (dset (rid_of d a) a m) k"
      using Cons.IH[OF sub, of "dset (rid_of d a) a m"] by blast
    have "map_of m' (rid_of d a) = Some a"
    proof (cases "rid_of d a \<in> rid_of d ` set l")
      case True
      then obtain b where "b \<in> set l" "rid_of d b = rid_of d a" by auto
      moreover from this have "b = a" using rid_of_inj[OF assms(1)] Cons.prems assms(2) by auto
      ultimately show ?thesis using m'(2) by auto
    next
      case False
      then show ?thesis using m'(3) by simp
    qed
    moreover have "efold f m (a # l) = Inr m'" using m'(1) Cons.prems by (simp add: step)
    ultimately show ?case using m'(2,3) by auto
  qed
  from this[of sts "[]"] show ?thesis by (auto simp: build_stream_map_def f_def[abs_def])
qed

section \<open>The plan for all users\<close>

definition active_in :: "db \<Rightarrow> int list \<Rightarrow> int \<Rightarrow> subscription list" where
  "active_in d rids uid = filter (\<lambda>x. sub_recipient x \<in> set rids \<and> sub_active x) (stream_subs_of uid d)"

definition inactive_in :: "db \<Rightarrow> int list \<Rightarrow> int \<Rightarrow> subscription list" where
  "inactive_in d rids uid = filter (\<lambda>x. sub_recipient x \<in> set rids \<and> \<not> sub_active x) (stream_subs_of uid d)"

definition missing_in :: "db \<Rightarrow> int list \<Rightarrow> int \<Rightarrow> int list" where
  "missing_in d rids uid = filter (\<lambda>r. r \<notin> sub_recipient ` set (stream_subs_of uid d)) rids"

lemma plan_fold:
  fixes m :: "(int \<times> stream) list"
  assumes "stream_tables_ok d" and "distinct (map u_id us)"
    and "\<forall>u \<in> set us. map_of (sp_subs_by_user p) (u_id u) = Some (stream_subs_of (u_id u) d)"
  defines "so \<equiv> \<lambda>rid. the (map_of m rid)"
  shows "sp_already (fold (plan_user rids m) us p) =
      sp_already p @ concat (map (\<lambda>u. map (\<lambda>x. (u, so (sub_recipient x))) (active_in d rids (u_id u))) us) \<and>
    sp_activate (fold (plan_user rids m) us p) =
      sp_activate p @ concat (map (\<lambda>u. map (\<lambda>x. (u, x\<lparr>sub_active := True\<rparr>, so (sub_recipient x))) (inactive_in d rids (u_id u))) us) \<and>
    sp_new (fold (plan_user rids m) us p) =
      sp_new p @ concat (map (\<lambda>u. map (\<lambda>rid. (u, rid, so rid)) (missing_in d rids (u_id u))) us)"
  using assms(2,3)
proof (induction us arbitrary: p)
  case Nil
  then show ?case by simp
next
  case (Cons u us)
  have subs: "map_of (sp_subs_by_user p) (u_id u) = Some (stream_subs_of (u_id u) d)" using Cons.prems by simp
  let ?p = "plan_user rids m u p"
  have now: "sp_already ?p = sp_already p @ map (\<lambda>x. (u, so (sub_recipient x))) (active_in d rids (u_id u))"
    "sp_activate ?p = sp_activate p @ map (\<lambda>x. (u, x\<lparr>sub_active := True\<rparr>, so (sub_recipient x))) (inactive_in d rids (u_id u))"
    "sp_new ?p = sp_new p @ map (\<lambda>rid. (u, rid, so rid)) (missing_in d rids (u_id u))"
    "\<And>i. i \<noteq> u_id u \<Longrightarrow> map_of (sp_subs_by_user ?p) i = map_of (sp_subs_by_user p) i"
    using scan_subs_filter[OF stream_subs_distinct[OF assms(1)], of rids "u_id u"]
    by (simp_all add: plan_user_def subs so_def active_in_def inactive_in_def missing_in_def Let_def)
  have "\<forall>v \<in> set us. map_of (sp_subs_by_user ?p) (u_id v) = Some (stream_subs_of (u_id v) d)"
    using Cons.prems now(4) by (auto simp: image_iff)
  with Cons.IH[of ?p] Cons.prems(1) now(1,2,3) show ?case by simp
qed

lemma map_of_users: "u \<in> set us \<Longrightarrow> map_of (map (\<lambda>u. (u_id u, f (u_id u))) us) (u_id u) = Some (f (u_id u))"
  by (induction us) auto

lemma recipient_ids_set:
  assumes "stream_tables_ok d" and "set sts \<subseteq> set (streams d)"
  shows "set (map (\<lambda>p. rc_id (snd p)) (bulk_get_recipients STREAM (map st_id sts) d)) = rid_of d ` set sts"
proof -
  have ids: "stream_recipient_ids (st_id st) d = [rid_of d st]" if "st \<in> set sts" for st
    using rid_of_ids[OF assms(1)] assms(2) that by blast
  then have "rid \<in> set (map (\<lambda>p. rc_id (snd p)) (bulk_get_recipients STREAM (map st_id sts) d)) \<longleftrightarrow> rid \<in> rid_of d ` set sts" for rid
    unfolding bulk_recipients_ids[OF assms(1,2)] by auto
  then show ?thesis by blast
qed

lemma plan_run:
  assumes "stream_tables_ok d" and "set sts \<subseteq> set (streams d)" and "distinct (map u_id us)"
    and "plan_subscriptions sts us d = Inr p"
  shows "\<exists>rids so. set rids = rid_of d ` set sts \<and> (\<forall>st \<in> set sts. so (rid_of d st) = st) \<and>
    sp_already p = concat (map (\<lambda>u. map (\<lambda>x. (u, so (sub_recipient x))) (active_in d rids (u_id u))) us) \<and>
    sp_activate p = concat (map (\<lambda>u. map (\<lambda>x. (u, x\<lparr>sub_active := True\<rparr>, so (sub_recipient x))) (inactive_in d rids (u_id u))) us) \<and>
    sp_new p = concat (map (\<lambda>u. map (\<lambda>rid. (u, rid, so rid)) (missing_in d rids (u_id u))) us)"
proof -
  obtain m where m: "build_stream_map sts d = Inr m" "\<forall>st \<in> set sts. map_of m (rid_of d st) = Some st"
    using stream_map_run[OF assms(1,2)] by blast
  let ?rids = "map (\<lambda>p. rc_id (snd p)) (bulk_get_recipients STREAM (map st_id sts) d)"
  let ?p0 = "\<lparr>sp_subs_by_user = map (\<lambda>u. (u_id u, stream_subs_of (u_id u) d)) us, sp_already = [], sp_activate = [], sp_new = []\<rparr>"
  have p: "p = fold (plan_user ?rids m) us ?p0" using assms(4) m(1) by (simp add: plan_subscriptions_def)
  have "set ?rids = rid_of d ` set sts" by (rule recipient_ids_set[OF assms(1,2)])
  moreover have "\<forall>u \<in> set us. map_of (sp_subs_by_user ?p0) (u_id u) = Some (stream_subs_of (u_id u) d)"
    using map_of_users[of _ us "\<lambda>i. stream_subs_of i d"] by simp
  ultimately show ?thesis
    using plan_fold[OF assms(1,3), of ?p0 ?rids m] m(2) unfolding p[symmetric]
    by (intro exI[of _ ?rids] exI[of _ "\<lambda>rid. the (map_of m rid)"]) simp
qed

text \<open>The rows of the plan, and what storing them makes active.\<close>

lemma new_rows:
  "map (\<lambda>p. (sub_user_profile (fst (snd p)), sub_recipient (fst (snd p)), sub_active (fst (snd p)))) (build_new_subs m new) =
   map (\<lambda>p. (u_id (fst p), fst (snd p), True)) new"
  by (induction m new rule: build_new_subs.induct) (simp_all add: Let_def new_subscription_def)

lemma active_after:
  "subs_active (set_active True acts (d\<lparr>subscriptions := subscriptions d @ adds\<rparr>)) =
   subs_active d \<union> {(sub_user_profile x, sub_recipient x) | x. x \<in> set adds \<and> (sub_active x \<or> list_ex (same_row x) acts)} \<union>
   {(sub_user_profile x, sub_recipient x) | x. x \<in> set (subscriptions d) \<and> list_ex (same_row x) acts}"
proof -
  have "subs_active (set_active True acts e) = {(sub_user_profile x, sub_recipient x) | x.
      x \<in> set (subscriptions e) \<and> (sub_active x \<or> list_ex (same_row x) acts)}" for e
  proof -
    have "subs_active (set_active True acts e) = (\<lambda>x. (sub_user_profile x, sub_recipient x)) `
        {x \<in> (\<lambda>x. if list_ex (same_row x) acts then x\<lparr>sub_active := True\<rparr> else x) ` set (subscriptions e). sub_active x}"
      by (auto simp: subs_active_def set_active_def)
    also have "\<dots> = (\<lambda>x. (sub_user_profile x, sub_recipient x)) `
        {x \<in> set (subscriptions e). sub_active x \<or> list_ex (same_row x) acts}" (is "?f ` ?A = ?f ` ?B")
    proof
      show "?f ` ?A \<subseteq> ?f ` ?B" by (auto split: if_splits)
      show "?f ` ?B \<subseteq> ?f ` ?A"
      proof
        fix k
        assume "k \<in> ?f ` ?B"
        then obtain x where x: "x \<in> ?B" "k = ?f x" by blast
        let ?y = "if list_ex (same_row x) acts then x\<lparr>sub_active := True\<rparr> else x"
        have "?y \<in> ?A" "?f ?y = k" using x by auto
        then show "k \<in> ?f ` ?A" by blast
      qed
    qed
    finally show ?thesis by blast
  qed
  then show ?thesis by (auto simp: subs_active_def)
qed

lemma same_row_update [simp]: "same_row x (y\<lparr>sub_active := b\<rparr>) = same_row x y"
  by (simp add: same_row_def)

lemma stream_subs_in: "x \<in> set (stream_subs_of uid d) \<Longrightarrow> x \<in> set (subscriptions d) \<and> sub_user_profile x = uid"
  by (simp add: stream_subs_of_def)

lemma planned_active:
  assumes "fst ` snd ` set acts = {x\<lparr>sub_active := True\<rparr> | x u. u \<in> U \<and> x \<in> set (inactive_in d rids (u_id u))}"
    and "(\<lambda>p. (sub_user_profile (fst (snd p)), sub_recipient (fst (snd p)))) ` set adds =
      {(u_id u, rid) | u rid. u \<in> U \<and> rid \<in> set (missing_in d rids (u_id u))}"
    and "\<forall>p \<in> set adds. sub_active (fst (snd p))"
    and "\<And>x. x \<in> set (subscriptions d) \<Longrightarrow> sub_recipient x \<in> set rids \<Longrightarrow> x \<in> set (stream_subs_of (sub_user_profile x) d)"
  shows "subs_active (set_active True (map (\<lambda>p. fst (snd p)) acts) (d\<lparr>subscriptions := subscriptions d @ map (\<lambda>p. fst (snd p)) adds\<rparr>)) =
    subs_active d \<union> u_id ` U \<times> set rids"
proof -
  let ?acts = "map (\<lambda>p. fst (snd p)) acts" and ?adds = "map (\<lambda>p. fst (snd p)) adds"
  have row: "list_ex (same_row x) ?acts \<longleftrightarrow> (\<exists>u y. u \<in> U \<and> y \<in> set (inactive_in d rids (u_id u)) \<and> same_row x y)" for x
  proof -
    have "list_ex (same_row x) ?acts \<longleftrightarrow> (\<exists>y \<in> fst ` snd ` set acts. same_row x y)" by (auto simp: list_ex_iff)
    also have "\<dots> \<longleftrightarrow> (\<exists>u y. u \<in> U \<and> y \<in> set (inactive_in d rids (u_id u)) \<and> same_row x (y\<lparr>sub_active := True\<rparr>))"
      unfolding assms(1) by blast
    finally show ?thesis by simp
  qed
  have add: "{(sub_user_profile x, sub_recipient x) | x. x \<in> set ?adds \<and> (sub_active x \<or> list_ex (same_row x) ?acts)} =
      {(u_id u, rid) | u rid. u \<in> U \<and> rid \<in> set (missing_in d rids (u_id u))}"
    unfolding assms(2)[symmetric] using assms(3) by auto
  have act: "{(sub_user_profile x, sub_recipient x) | x. x \<in> set (subscriptions d) \<and> list_ex (same_row x) ?acts} =
      {(u_id u, sub_recipient y) | u y. u \<in> U \<and> y \<in> set (inactive_in d rids (u_id u))}"
    unfolding row by (auto simp: same_row_def inactive_in_def dest: stream_subs_in) (metis stream_subs_in)+
  have new: "(u_id u, rid) \<in> subs_active d \<union> {(u_id u, rid) | u rid. u \<in> U \<and> rid \<in> set (missing_in d rids (u_id u))} \<union>
      {(u_id u, sub_recipient y) | u y. u \<in> U \<and> y \<in> set (inactive_in d rids (u_id u))}"
    if "u \<in> U" "rid \<in> set rids" for u rid
  proof (cases "rid \<in> sub_recipient ` set (stream_subs_of (u_id u) d)")
    case False
    then have "rid \<in> set (missing_in d rids (u_id u))" using that by (simp add: missing_in_def)
    then show ?thesis using that by blast
  next
    case True
    then obtain x where x: "x \<in> set (stream_subs_of (u_id u) d)" "rid = sub_recipient x" by blast
    show ?thesis
    proof (cases "sub_active x")
      case True
      then have "(u_id u, rid) \<in> subs_active d" using stream_subs_in[OF x(1)] x(2)
        unfolding subs_active_def by (intro CollectI exI[of _ x]) simp
      then show ?thesis by blast
    next
      case False
      then have "x \<in> set (inactive_in d rids (u_id u))" using x that by (simp add: inactive_in_def)
      then show ?thesis using x(2) that by blast
    qed
  qed
  have "missing_in d rids i = filter (\<lambda>r. r \<notin> sub_recipient ` set (stream_subs_of i d)) rids"
    "inactive_in d rids i = filter (\<lambda>x. sub_recipient x \<in> set rids \<and> \<not> sub_active x) (stream_subs_of i d)" for i
    by (simp_all add: missing_in_def inactive_in_def)
  then have old: "{(u_id u, rid) | u rid. u \<in> U \<and> rid \<in> set (missing_in d rids (u_id u))} \<subseteq> u_id ` U \<times> set rids"
    "{(u_id u, sub_recipient y) | u y. u \<in> U \<and> y \<in> set (inactive_in d rids (u_id u))} \<subseteq> u_id ` U \<times> set rids" by auto
  show ?thesis unfolding active_after add act using new old by blast
qed

section \<open>Running the operation\<close>

lemma store_run:
  assumes "store_subscriptions to_add to_activate r s = (Inr x, t)"
  shows "sv_db t = set_active True (map (\<lambda>p. fst (snd p)) to_activate)
    ((sv_db s)\<lparr>subscriptions := subscriptions (sv_db s) @ map (\<lambda>p. fst (snd p)) to_add\<rparr>)"
  using assms
  by (auto simp: store_subscriptions_def atomic_Inr seq_Inr andthen_Inr bulk_create_subscriptions_def split: if_splits)

lemma events_keep_db [preserves_intros]:
  "preserves sv_db (notify_peers operation st us)" "preserves sv_db (notify_subscriptions_added E u ps f)"
  "preserves sv_db (notify_subscriptions_removed u sts)"
  unfolding notify_peers_def notify_subscriptions_added_def notify_subscriptions_removed_def by (intro preserves_intros)+

lemma notify_added_db [preserves_intros]: "preserves sv_db (notify_added E sts us pairs)"
  unfolding notify_added_def Let_def by (intro preserves_intros)

lemma log_subscriptions_keeps: "preserves (\<lambda>s. (subscriptions (sv_db s), recipients (sv_db s))) (log_subscriptions a b c)"
  unfolding log_subscriptions_def by (intro preserves_intros preserves_modify_db[where g = "\<lambda>d. (subscriptions d, recipients d)"]) simp

lemma bulk_add_run:
  assumes "bulk_add_subscriptions E sts us from_creation actor s = (Inr (added, already), s')"
  shows "\<exists>p. plan_subscriptions sts us (sv_db s) = Inr p \<and>
    subscriptions (sv_db s') = subscriptions (set_active True (map (\<lambda>p. fst (snd p)) (sp_activate p))
      ((sv_db s)\<lparr>subscriptions := subscriptions (sv_db s) @ map (\<lambda>p. fst (snd p)) (build_new_subs (sp_subs_by_user p) (sp_new p))\<rparr>)) \<and>
    recipients (sv_db s') = recipients (sv_db s) \<and>
    added = map (\<lambda>(u, rid, st). (u, st)) (sp_new p) @ map (\<lambda>(u, x, st). (u, st)) (sp_activate p) \<and> already = sp_already p"
proof -
  obtain p and u :: user_profile where p: "plan_subscriptions sts us (sv_db s) = Inr p"
    and run: "seq (store_subscriptions (build_new_subs (sp_subs_by_user p) (sp_new p)) (sp_activate p) (u_realm u)) (\<lambda>(before, aft).
      andthen (log_subscriptions (build_new_subs (sp_subs_by_user p) (sp_new p)) (sp_activate p) actor)
      (andthen (announce_occupied (u_realm u) from_creation before aft)
     (andthen (notify_added E sts us (build_new_subs (sp_subs_by_user p) (sp_new p) @ sp_activate p))
       (ret (map (\<lambda>(u, rid, st). (u, st)) (sp_new p) @ map (\<lambda>(u, x, st). (u, st)) (sp_activate p), sp_already p))))) s =
      (Inr (added, already), s')"
    using assms unfolding bulk_add_subscriptions_def Let_def seq_query_Inr by (elim exE conjE) (rule that)
  obtain before aft t where st: "store_subscriptions (build_new_subs (sp_subs_by_user p) (sp_new p)) (sp_activate p) (u_realm u) s = (Inr (before, aft), t)"
    and run2: "andthen (log_subscriptions (build_new_subs (sp_subs_by_user p) (sp_new p)) (sp_activate p) actor)
      (andthen (announce_occupied (u_realm u) from_creation before aft)
     (andthen (notify_added E sts us (build_new_subs (sp_subs_by_user p) (sp_new p) @ sp_activate p))
       (ret (map (\<lambda>(u, rid, st). (u, st)) (sp_new p) @ map (\<lambda>(u, x, st). (u, st)) (sp_activate p), sp_already p)))) t =
      (Inr (added, already), s')"
    using run unfolding seq_Inr split_paired_Ex prod.case by (elim exE conjE) (rule that)
  obtain t1 where log: "log_subscriptions (build_new_subs (sp_subs_by_user p) (sp_new p)) (sp_activate p) actor t = (Inr (), t1)"
    and rest: "andthen (announce_occupied (u_realm u) from_creation before aft)
     (andthen (notify_added E sts us (build_new_subs (sp_subs_by_user p) (sp_new p) @ sp_activate p))
       (ret (map (\<lambda>(u, rid, st). (u, st)) (sp_new p) @ map (\<lambda>(u, x, st). (u, st)) (sp_activate p), sp_already p))) t1 =
      (Inr (added, already), s')"
    using run2[unfolded andthen_Inr[where m = "log_subscriptions _ _ _"]] by (elim exE conjE) (rule that)
  have "preserves sv_db (andthen (announce_occupied r from_creation before aft) (andthen (notify_added E sts us ps) (ret x)))"
    for r ps and x :: "'x"
    unfolding announce_occupied_def Let_def by (intro preserves_intros)
  from preservesD[OF this rest] have "sv_db s' = sv_db t1" .
  moreover have "(subscriptions (sv_db t1), recipients (sv_db t1)) = (subscriptions (sv_db t), recipients (sv_db t))"
    by (rule preservesD[OF log_subscriptions_keeps log])
  moreover have "added = map (\<lambda>(u, rid, st). (u, st)) (sp_new p) @ map (\<lambda>(u, x, st). (u, st)) (sp_activate p) \<and> already = sp_already p"
    using rest by (auto simp: andthen_Inr)
  ultimately show ?thesis using p store_run[OF st] by (auto simp: set_active_def)
qed

text \<open>The pairs that are reported, for one user and for all.\<close>

lemma pairs_set: "set (concat (map (\<lambda>u. map (\<lambda>x. (u, f x)) (g u)) us)) = {(u, y). u \<in> set us \<and> y \<in> f ` set (g u)}"
  by auto

lemma triples_set:
  "(\<lambda>(u, x, y). (u, y)) ` set (concat (map (\<lambda>u. map (\<lambda>x. (u, h x, f x)) (g u)) us)) = {(u, y). u \<in> set us \<and> y \<in> f ` set (g u)}"
  by force

lemma already_pairs:
  assumes "stream_tables_ok d" and "set sts \<subseteq> set (streams d)" and "set rids = rid_of d ` set sts"
    and "\<forall>st \<in> set sts. so (rid_of d st) = st"
  shows "(\<lambda>x. so (sub_recipient x)) ` set (active_in d rids uid) = {st \<in> set sts. subscribed_to_stream uid st d}"
proof -
  have subbed: "subscribed_to_stream uid st d \<longleftrightarrow> (uid, rid_of d st) \<in> subs_active d" if "st \<in> set sts" for st
    using rid_of_ids[OF assms(1)] assms(2) that by (auto simp: subscribed_active)
  have "(\<lambda>x. so (sub_recipient x)) ` set (active_in d rids uid) =
      so ` {rid_of d st | st. st \<in> set sts \<and> (uid, rid_of d st) \<in> subs_active d}"
  proof -
    have "sub_recipient ` set (active_in d rids uid) = {rid_of d st | st. st \<in> set sts \<and> (uid, rid_of d st) \<in> subs_active d}"
      (is "?L = ?R")
    proof
      show "?L \<subseteq> ?R"
      proof
        fix r
        assume "r \<in> ?L"
        then obtain x where x: "r = sub_recipient x" "x \<in> set (subscriptions d)" "sub_active x" "sub_user_profile x = uid" "r \<in> set rids"
          by (auto simp: active_in_def stream_subs_of_def)
        then have "(uid, r) \<in> subs_active d" using in_subs_active[of x d] by simp
        moreover obtain st where "st \<in> set sts" "r = rid_of d st" using x(5) assms(3) by blast
        ultimately show "r \<in> ?R" by blast
      qed
      show "?R \<subseteq> ?L"
      proof
        fix r
        assume "r \<in> ?R"
        then obtain st x where x: "st \<in> set sts" "r = rid_of d st" "x \<in> set (subscriptions d)" "sub_active x"
          "sub_user_profile x = uid" "sub_recipient x = r" by (auto simp: subs_active_def)
        then have "x \<in> set (active_in d rids uid)"
          using assms(2,3) recipient_row[OF assms(1)] by (auto simp: active_in_def stream_subs_of_def)
        then show "r \<in> ?L" using x(6) by (metis image_eqI)
      qed
    qed
    then show ?thesis by (metis image_image)
  qed
  also have "\<dots> = {st \<in> set sts. subscribed_to_stream uid st d}"
    using assms(4) subbed by (auto simp: image_iff) (metis+)
  finally show ?thesis .
qed

lemma added_pairs:
  assumes "stream_tables_ok d" and "set sts \<subseteq> set (streams d)" and "set rids = rid_of d ` set sts"
    and "\<forall>st \<in> set sts. so (rid_of d st) = st"
  shows "so ` set (missing_in d rids uid) \<union> (\<lambda>x. so (sub_recipient x)) ` set (inactive_in d rids uid) =
    {st \<in> set sts. \<not> subscribed_to_stream uid st d}"
proof -
  have recs: "set rids = sub_recipient ` set (active_in d rids uid) \<union> sub_recipient ` set (inactive_in d rids uid) \<union> set (missing_in d rids uid)"
    by (auto simp: active_in_def inactive_in_def missing_in_def)
  have "sub_recipient ` set (active_in d rids uid) \<inter> (sub_recipient ` set (inactive_in d rids uid) \<union> set (missing_in d rids uid)) = {}"
    using stream_subs_distinct[OF assms(1), of uid]
    by (auto simp: active_in_def inactive_in_def missing_in_def distinct_map dest: inj_onD)
  moreover have "inj_on so (set rids)" using assms(3,4) by (auto simp: inj_on_def)
  ultimately have "so ` (sub_recipient ` set (inactive_in d rids uid) \<union> set (missing_in d rids uid)) =
      so ` set rids - so ` sub_recipient ` set (active_in d rids uid)"
    unfolding recs by (subst inj_on_image_set_diff[symmetric, where C = "set rids"]) (auto simp: recs)
  moreover have "so ` set rids = set sts" using assms(3,4) by force
  moreover have "so ` sub_recipient ` set (active_in d rids uid) = {st \<in> set sts. subscribed_to_stream uid st d}"
    using already_pairs[OF assms, of uid] by (simp add: image_image)
  ultimately show ?thesis by (auto simp: image_Un image_image)
qed

text \<open>
  C24: Subscribing users to streams leaves exactly the pairs subscribed that were before or are
  among the given users and streams; the pairs it reports as added are those that were not
  subscribed before, and the others are reported as subscribed already.
\<close>

theorem bulk_add_subscribes:
  assumes "stream_tables_ok (sv_db s)" and "set sts \<subseteq> set (streams (sv_db s))" and "distinct (map u_id us)"
    and "bulk_add_subscriptions E sts us from_creation actor s = (Inr (added, already), s')"
  shows "(\<forall>v. \<forall>st \<in> set (streams (sv_db s)). subscribed_to_stream v st (sv_db s') \<longleftrightarrow>
      subscribed_to_stream v st (sv_db s) \<or> v \<in> u_id ` set us \<and> st \<in> set sts) \<and>
    set already = {(u, st). u \<in> set us \<and> st \<in> set sts \<and> subscribed_to_stream (u_id u) st (sv_db s)} \<and>
    set added = {(u, st). u \<in> set us \<and> st \<in> set sts \<and> \<not> subscribed_to_stream (u_id u) st (sv_db s)}"
proof -
  let ?d = "sv_db s"
  obtain p where p: "plan_subscriptions sts us ?d = Inr p" "recipients (sv_db s') = recipients ?d"
    "subscriptions (sv_db s') = subscriptions (set_active True (map (\<lambda>p. fst (snd p)) (sp_activate p))
      (?d\<lparr>subscriptions := subscriptions ?d @ map (\<lambda>p. fst (snd p)) (build_new_subs (sp_subs_by_user p) (sp_new p))\<rparr>))"
    "added = map (\<lambda>(u, rid, st). (u, st)) (sp_new p) @ map (\<lambda>(u, x, st). (u, st)) (sp_activate p)" "already = sp_already p"
    using bulk_add_run[OF assms(4)] by blast
  obtain rids so where rids: "set rids = rid_of ?d ` set sts" and so: "\<forall>st \<in> set sts. so (rid_of ?d st) = st"
    and plan: "sp_already p = concat (map (\<lambda>u. map (\<lambda>x. (u, so (sub_recipient x))) (active_in ?d rids (u_id u))) us)"
      "sp_activate p = concat (map (\<lambda>u. map (\<lambda>x. (u, x\<lparr>sub_active := True\<rparr>, so (sub_recipient x))) (inactive_in ?d rids (u_id u))) us)"
      "sp_new p = concat (map (\<lambda>u. map (\<lambda>rid. (u, rid, so rid)) (missing_in ?d rids (u_id u))) us)"
    using plan_run[OF assms(1,2,3) p(1)] by blast
  have ids: "stream_recipient_ids (st_id st) ?d = [rid_of ?d st]" if "st \<in> set (streams ?d)" for st
    by (rule rid_of_ids[OF assms(1) that])
  have subbed: "subscribed_to_stream v st ?d \<longleftrightarrow> (v, rid_of ?d st) \<in> subs_active ?d" if "st \<in> set (streams ?d)" for v st
    unfolding subscribed_active ids[OF that] by simp
  have listed: "x \<in> set (stream_subs_of (sub_user_profile x) ?d)" if "x \<in> set (subscriptions ?d)" "sub_recipient x \<in> set rids" for x
    using that rids ids assms(2) recipient_row[OF assms(1)] by (auto simp: stream_subs_of_def)
  have "subs_active (sv_db s') = subs_active (set_active True (map (\<lambda>p. fst (snd p)) (sp_activate p))
      (?d\<lparr>subscriptions := subscriptions ?d @ map (\<lambda>p. fst (snd p)) (build_new_subs (sp_subs_by_user p) (sp_new p))\<rparr>))"
    unfolding subs_active_def p(3) ..
  also have "\<dots> = subs_active ?d \<union> u_id ` set us \<times> set rids"
  proof (rule planned_active)
    show "fst ` snd ` set (sp_activate p) = {x\<lparr>sub_active := True\<rparr> | x u. u \<in> set us \<and> x \<in> set (inactive_in ?d rids (u_id u))}"
      unfolding plan(2) by force
    have rows: "(\<lambda>p. (sub_user_profile (fst (snd p)), sub_recipient (fst (snd p)), sub_active (fst (snd p)))) ` set (build_new_subs m new) =
        (\<lambda>p. (u_id (fst p), fst (snd p), True)) ` set new" for m new
      using arg_cong[OF new_rows[of m new], of set] by (simp only: set_map)
    show "\<forall>p \<in> set (build_new_subs (sp_subs_by_user p) (sp_new p)). sub_active (fst (snd p))"
      using rows[of "sp_subs_by_user p" "sp_new p"] by blast
    have "(\<lambda>p. (sub_user_profile (fst (snd p)), sub_recipient (fst (snd p)))) ` set (build_new_subs (sp_subs_by_user p) (sp_new p)) =
        (\<lambda>k. (fst k, fst (snd k))) ` (\<lambda>p. (u_id (fst p), fst (snd p), True)) ` set (sp_new p)"
      unfolding rows[of "sp_subs_by_user p" "sp_new p", symmetric] image_image by simp
    also have "\<dots> = {(u_id u, rid) | u rid. u \<in> set us \<and> rid \<in> set (missing_in ?d rids (u_id u))}"
      unfolding plan(3) by force
    finally show "(\<lambda>p. (sub_user_profile (fst (snd p)), sub_recipient (fst (snd p)))) ` set (build_new_subs (sp_subs_by_user p) (sp_new p)) =
        {(u_id u, rid) | u rid. u \<in> set us \<and> rid \<in> set (missing_in ?d rids (u_id u))}" .
  qed (rule listed)
  finally have active: "subs_active (sv_db s') = subs_active ?d \<union> u_id ` set us \<times> set rids" .
  have same: "stream_recipient_ids i (sv_db s') = stream_recipient_ids i ?d" for i
    using p(2) by (simp add: stream_recipient_ids_def)
  have member: "rid_of ?d st \<in> set rids \<longleftrightarrow> st \<in> set sts" if "st \<in> set (streams ?d)" for st
    using rid_of_inj[OF assms(1) that] rids assms(2) by blast
  have "subscribed_to_stream v st (sv_db s') \<longleftrightarrow> subscribed_to_stream v st ?d \<or> v \<in> u_id ` set us \<and> st \<in> set sts"
    if "st \<in> set (streams ?d)" for v st
    unfolding subscribed_active same ids[OF that] active using member[OF that] by auto
  moreover have "set already = {(u, st). u \<in> set us \<and> st \<in> set sts \<and> subscribed_to_stream (u_id u) st ?d}"
    unfolding p(5) plan(1) pairs_set already_pairs[OF assms(1,2) rids so] by simp
  moreover have "set added = {(u, st). u \<in> set us \<and> st \<in> so ` set (missing_in ?d rids (u_id u)) \<union>
      (\<lambda>x. so (sub_recipient x)) ` set (inactive_in ?d rids (u_id u))}"
    unfolding p(4) set_append set_map plan(2,3) triples_set by auto
  then have "set added = {(u, st). u \<in> set us \<and> st \<in> set sts \<and> \<not> subscribed_to_stream (u_id u) st ?d}"
    unfolding added_pairs[OF assms(1,2) rids so] by simp
  ultimately show ?thesis by blast
qed

definition sub_server :: server where
  "sub_server = (demo_server True)\<lparr>sv_db := (sv_db (demo_server True))\<lparr>users :=
     [demo_user 7 4 ''cat@zulip.com'', demo_user 8 4 ''bob@zulip.com'', demo_user 9 4 ''ann@zulip.com'']\<rparr>\<rparr>"

theorem bulk_add_subscribes_witness:
  "\<exists>added already s'. bulk_add_subscriptions demo_env [demo_stream True]
      [demo_user 7 4 ''cat@zulip.com'', demo_user 8 4 ''bob@zulip.com''] False None sub_server = (Inr (added, already), s') \<and>
    set added = {(demo_user 7 4 ''cat@zulip.com'', demo_stream True)} \<and> subscribed_to_stream 7 (demo_stream True) (sv_db s')"
proof -
  let ?us = "[demo_user 7 4 ''cat@zulip.com'', demo_user 8 4 ''bob@zulip.com'']"
  have "case fst (bulk_add_subscriptions demo_env [demo_stream True] ?us False None sub_server) of Inr _ \<Rightarrow> True | Inl _ \<Rightarrow> False"
    by code_simp
  then obtain added already s' where run: "bulk_add_subscriptions demo_env [demo_stream True] ?us False None sub_server =
      (Inr (added, already), s')"
    by (cases "bulk_add_subscriptions demo_env [demo_stream True] ?us False None sub_server") (auto split: sum.splits)
  have ok: "stream_tables_ok (sv_db sub_server)" by code_simp
  have streams: "set (streams (sv_db sub_server)) = {demo_stream True}"
    by (simp add: sub_server_def demo_server_def demo_db_def)
  have old: "\<not> subscribed_to_stream 7 (demo_stream True) (sv_db sub_server)" "subscribed_to_stream 8 (demo_stream True) (sv_db sub_server)"
    by code_simp+
  have ids: "u_id (demo_user 7 4 ''cat@zulip.com'') = 7" "u_id (demo_user 8 4 ''bob@zulip.com'') = 8" by (simp_all add: demo_user_def)
  have "distinct (map u_id ?us)" by (simp add: ids)
  from bulk_add_subscribes[OF ok _ this run] streams
  have "subscribed_to_stream 7 (demo_stream True) (sv_db s')"
    and "set added = {(u, st). u \<in> set ?us \<and> st \<in> {demo_stream True} \<and> \<not> subscribed_to_stream (u_id u) st (sv_db sub_server)}"
    by (simp_all add: ids)
  moreover have "{(u, st). u \<in> set ?us \<and> st \<in> {demo_stream True} \<and> \<not> subscribed_to_stream (u_id u) st (sv_db sub_server)} =
      {(demo_user 7 4 ''cat@zulip.com'', demo_stream True)}"
    using old ids by auto
  ultimately show ?thesis using run by blast
qed

section \<open>Unsubscribing\<close>

lemma scan_unsubs_run:
  assumes "distinct (map sub_recipient subs)" and "sub_recipient ` set subs \<subseteq> set rids"
  shows "scan_unsubs rids subs = Inr (filter (\<lambda>r. r \<notin> sub_recipient ` set subs) rids)"
  using assms
proof (induction subs arbitrary: rids)
  case (Cons x xs)
  have "sub_recipient ` set xs \<subseteq> set (removeAll (sub_recipient x) rids)" using Cons.prems by (auto, metis image_eqI)
  then have "scan_unsubs (removeAll (sub_recipient x) rids) xs =
      Inr (filter (\<lambda>r. r \<notin> sub_recipient ` set xs) (removeAll (sub_recipient x) rids))"
    using Cons by simp
  moreover have "filter (\<lambda>r. r \<notin> sub_recipient ` set xs) (removeAll (sub_recipient x) rids) =
      filter (\<lambda>r. r \<notin> sub_recipient ` set (x # xs)) rids"
    by (auto simp: removeAll_filter_not_eq intro: filter_cong)
  ultimately show ?case using Cons.prems(2) by simp
qed simp

definition active_rows :: "db \<Rightarrow> int list \<Rightarrow> int \<Rightarrow> subscription list" where
  "active_rows d rids uid = filter (\<lambda>x. sub_user_profile x = uid \<and> sub_recipient x \<in> set rids \<and> sub_active x) (subscriptions d)"

lemma active_rows_distinct: "stream_tables_ok d \<Longrightarrow> distinct (map sub_recipient (active_rows d rids uid))"
proof -
  assume "stream_tables_ok d"
  then have "distinct (map (\<lambda>x. (sub_user_profile x, sub_recipient x)) (active_rows d rids uid))"
    by (simp add: stream_tables_ok_def active_rows_def distinct_map_filter)
  moreover have "\<forall>x \<in> set (active_rows d rids uid). sub_user_profile x = uid" by (simp add: active_rows_def)
  ultimately show ?thesis by (rule distinct_map_pair)
qed

lemma active_rows_recipients: "sub_recipient ` set (active_rows d rids uid) = {r \<in> set rids. (uid, r) \<in> subs_active d}"
  by (force simp: active_rows_def subs_active_def)

lemma plan_unsub_fold:
  fixes m :: "(int \<times> stream) list"
  assumes "stream_tables_ok d"
  defines "so \<equiv> \<lambda>rid. the (map_of m rid)"
  shows "\<exists>p'. efold (plan_unsub_user rids m d) p us = Inr p' \<and>
    up_deactivate p' = up_deactivate p @ concat (map (\<lambda>u. map (\<lambda>x. (u, x, so (sub_recipient x))) (active_rows d rids (u_id u))) us) \<and>
    up_not_subscribed p' = up_not_subscribed p @ concat (map (\<lambda>u. map (\<lambda>rid. (u, so rid))
      (filter (\<lambda>r. (u_id u, r) \<notin> subs_active d) rids)) us)"
proof (induction us arbitrary: p)
  case Nil
  then show ?case by simp
next
  case (Cons u us)
  have sub: "sub_recipient ` set (active_rows d rids (u_id u)) \<subseteq> set rids" by (auto simp: active_rows_def)
  have "filter (\<lambda>r. r \<notin> sub_recipient ` set (active_rows d rids (u_id u))) rids = filter (\<lambda>r. (u_id u, r) \<notin> subs_active d) rids"
    unfolding active_rows_recipients by (intro filter_cong) auto
  then have "plan_unsub_user rids m d p u = Inr
      \<lparr>up_deactivate = up_deactivate p @ map (\<lambda>x. (u, x, so (sub_recipient x))) (active_rows d rids (u_id u)),
       up_not_subscribed = up_not_subscribed p @ map (\<lambda>rid. (u, so rid)) (filter (\<lambda>r. (u_id u, r) \<notin> subs_active d) rids)\<rparr>"
    using scan_unsubs_run[OF active_rows_distinct[OF assms(1)] sub]
    by (simp add: plan_unsub_user_def so_def Let_def active_rows_def[symmetric])
  then show ?case using Cons.IH by fastforce
qed

lemma removed_active:
  assumes "fst ` snd ` set ps = {x | x u. u \<in> U \<and> x \<in> set (active_rows d rids (u_id u))}"
  shows "subs_active (set_active False (map (\<lambda>p. fst (snd p)) ps) d) = subs_active d - u_id ` U \<times> set rids"
proof -
  let ?subs = "map (\<lambda>p. fst (snd p)) ps"
  have "list_ex (same_row x) ?subs \<longleftrightarrow> (\<exists>y \<in> fst ` snd ` set ps. same_row x y)" for x by (auto simp: list_ex_iff)
  then have row: "list_ex (same_row x) ?subs \<longleftrightarrow> (\<exists>u y. u \<in> U \<and> y \<in> set (active_rows d rids (u_id u)) \<and> same_row x y)" for x
    unfolding assms by blast
  have hit: "list_ex (same_row x) ?subs \<longleftrightarrow> sub_user_profile x \<in> u_id ` U \<and> sub_recipient x \<in> set rids"
    if "x \<in> set (subscriptions d)" "sub_active x" for x
    unfolding row using that by (auto simp: active_rows_def same_row_def)
  have "subs_active (set_active False ?subs d) =
      {(sub_user_profile x, sub_recipient x) | x. x \<in> set (subscriptions d) \<and> sub_active x \<and> \<not> list_ex (same_row x) ?subs}"
    by (auto simp: subs_active_def set_active_def split: if_splits)
  also have "\<dots> = subs_active d - u_id ` U \<times> set rids"
    using hit by (auto simp: subs_active_def)
  finally show ?thesis .
qed

lemma plan_unsub_run:
  assumes "stream_tables_ok d" and "set sts \<subseteq> set (streams d)" and "plan_unsubscriptions us sts d = Inr p"
  shows "\<exists>rids so. set rids = rid_of d ` set sts \<and> (\<forall>st \<in> set sts. so (rid_of d st) = st) \<and>
    up_deactivate p = concat (map (\<lambda>u. map (\<lambda>x. (u, x, so (sub_recipient x))) (active_rows d rids (u_id u))) us) \<and>
    up_not_subscribed p = concat (map (\<lambda>u. map (\<lambda>rid. (u, so rid)) (filter (\<lambda>r. (u_id u, r) \<notin> subs_active d) rids)) us)"
proof -
  obtain m where m: "build_stream_map sts d = Inr m" "\<forall>st \<in> set sts. map_of m (rid_of d st) = Some st"
    using stream_map_run[OF assms(1,2)] by blast
  let ?rids = "map (\<lambda>p. rc_id (snd p)) (bulk_get_recipients STREAM (map st_id sts) d)"
  let ?p0 = "\<lparr>up_deactivate = [], up_not_subscribed = []\<rparr>"
  have "efold (plan_unsub_user ?rids m d) ?p0 us = Inr p" using assms(3) m(1) by (simp add: plan_unsubscriptions_def)
  then show ?thesis
    using plan_unsub_fold[OF assms(1), of ?rids m ?p0 us] m(2) recipient_ids_set[OF assms(1,2)]
    by (intro exI[of _ ?rids] exI[of _ "\<lambda>rid. the (map_of m rid)"]) simp
qed

section \<open>Deactivating vacant streams\<close>

definition deactivates :: "int set \<Rightarrow> server \<Rightarrow> server \<Rightarrow> bool" where
  "deactivates V s s' \<longleftrightarrow> recipients (sv_db s') = recipients (sv_db s) \<and> users (sv_db s') = users (sv_db s) \<and>
     subs_active (sv_db s') = {p \<in> subs_active (sv_db s). \<forall>i \<in> V. snd p \<notin> set (stream_recipient_ids i (sv_db s))} \<and>
     map st_id (streams (sv_db s')) = map st_id (streams (sv_db s)) \<and>
     (\<forall>x \<in> set (streams (sv_db s')). st_id x \<in> V \<longrightarrow> st_deactivated x) \<and>
     {x \<in> set (streams (sv_db s')). st_id x \<notin> V} = {x \<in> set (streams (sv_db s)). st_id x \<notin> V}"

lemma deactivates_trans:
  assumes "deactivates V s t" and "deactivates W t u"
  shows "deactivates (V \<union> W) s u"
proof -
  have ids: "stream_recipient_ids i (sv_db t) = stream_recipient_ids i (sv_db s)" for i
    using assms(1) by (simp add: deactivates_def stream_recipient_ids_def)
  have "st_deactivated x" if x: "x \<in> set (streams (sv_db u))" "st_id x \<in> V \<union> W" for x
  proof (cases "st_id x \<in> W")
    case True
    then show ?thesis using assms(2) x by (simp add: deactivates_def)
  next
    case False
    then have "x \<in> {x \<in> set (streams (sv_db t)). st_id x \<notin> W}" using assms(2) x unfolding deactivates_def by blast
    then show ?thesis using assms(1) x False by (auto simp: deactivates_def)
  qed
  moreover have "{x \<in> set (streams (sv_db u)). st_id x \<notin> V \<union> W} = {x \<in> set (streams (sv_db s)). st_id x \<notin> V \<union> W}"
    using assms unfolding deactivates_def by blast
  ultimately show ?thesis using assms unfolding deactivates_def ids by auto
qed

lemma deactivates_refl: "deactivates {} s s"
  by (simp add: deactivates_def)

lemma notify_default_db [preserves_intros]: "preserves sv_db (notify_default_streams r)"
  unfolding notify_default_streams_def by (intro preserves_intros)

lemma remove_default_keeps:
  "preserves (\<lambda>s. (recipients (sv_db s), users (sv_db s), subscriptions (sv_db s), streams (sv_db s))) (do_remove_default_stream st)"
  unfolding do_remove_default_stream_def
  by (intro preserves_intros preserves_modify_db[where g = "\<lambda>d. (recipients d, users d, subscriptions d, streams d)"]
      preserves_db_part[where g = "\<lambda>d. (recipients d, users d, subscriptions d, streams d)"]) simp

lemma closed_subs_active:
  "subs_active (d\<lparr>subscriptions := map (\<lambda>x. if sub_recipient x \<in> R \<and> sub_active x then x\<lparr>sub_active := False\<rparr> else x) (subscriptions d)\<rparr>) =
   {p \<in> subs_active d. snd p \<notin> R}"
proof -
  have "x \<in> set (map (\<lambda>x. if sub_recipient x \<in> R \<and> sub_active x then x\<lparr>sub_active := False\<rparr> else x) l) \<and> sub_active x \<longleftrightarrow>
      x \<in> set l \<and> sub_active x \<and> sub_recipient x \<notin> R" for x l
    by (induction l) auto
  then show ?thesis by (auto simp: subs_active_def)
qed

lemma deactivate_effect:
  assumes "do_deactivate_stream st s = (Inr (), s')"
  shows "deactivates {st_id st} s s'"
proof -
  let ?R = "set (stream_recipient_ids (st_id st) (sv_db s))"
  define d1 where "d1 = (sv_db s)\<lparr>subscriptions := map (\<lambda>x. if sub_recipient x \<in> ?R \<and> sub_active x then x\<lparr>sub_active := False\<rparr> else x)
       (subscriptions (sv_db s))\<rparr>"
  define mk where "mk n = st\<lparr>st_deactivated := True, st_invite_only := Some True, st_name := take MAX_NAME_LENGTH n\<rparr>" for n
  obtain n t1 t2 where save: "save_stream (mk n) (\<lambda>_. mk n) (s\<lparr>sv_db := d1\<rparr>) = (Inr (), t1)"
    and def: "(if (st_realm st, st_id st) \<in> set (default_streams (sv_db t1)) then do_remove_default_stream (mk n) else ret ()) t1 = (Inr (), t2)"
    and last: "sv_db s' = sv_db t2"
    using assms
    by (auto simp: do_deactivate_stream_def seq_query_Inr andthen_Inr seq_Inr Let_def d1_def mk_def[symmetric])
  define st' where "st' = mk n"
  note save = save[folded st'_def] and def = def[folded st'_def]
  have st': "st_id st' = st_id st" "st_deactivated st'" by (simp_all add: st'_def mk_def)
  have db: "sv_db t1 = d1\<lparr>streams := map (\<lambda>x. if st_id x = st_id st' then st' else x) (streams d1)\<rparr>"
    using save by (auto simp: save_stream_def seq_Inr split: if_splits)
  have "preserves (\<lambda>s. (recipients (sv_db s), users (sv_db s), subscriptions (sv_db s), streams (sv_db s)))
      (if b then do_remove_default_stream st' else ret ())" for b
    by (intro preserves_if remove_default_keeps preserves_intros)
  from preservesD[OF this def] have keep: "recipients (sv_db s') = recipients d1" "users (sv_db s') = users d1"
    "subscriptions (sv_db s') = subscriptions d1" "streams (sv_db s') = map (\<lambda>x. if st_id x = st_id st' then st' else x) (streams d1)"
    by (simp_all add: last db)
  have "subs_active (sv_db s') = subs_active d1" using keep(3) by (simp add: subs_active_def)
  also have "\<dots> = {p \<in> subs_active (sv_db s). snd p \<notin> ?R}" unfolding d1_def by (rule closed_subs_active)
  finally show ?thesis using keep(1,2,4) st' by (auto simp: deactivates_def d1_def comp_def)
qed

lemma deactivate_all:
  "for_each do_deactivate_stream sts s = (Inr (), s') \<Longrightarrow> deactivates (st_id ` set sts) s s'"
proof (induction sts arbitrary: s)
  case Nil
  then show ?case by (simp add: deactivates_refl)
next
  case (Cons st sts)
  obtain t where "do_deactivate_stream st s = (Inr (), t)" "for_each do_deactivate_stream sts t = (Inr (), s')"
    using Cons.prems by (auto simp: andthen_Inr)
  then show ?case using deactivates_trans[OF deactivate_effect Cons.IH] by fastforce
qed

text \<open>A stream is occupied when an active user of its realm is subscribed to it.\<close>

definition active_member :: "int \<Rightarrow> int \<Rightarrow> db \<Rightarrow> bool" where
  "active_member r v d \<longleftrightarrow> db_exists (\<lambda>u. u_id u = v \<and> u_realm u = r \<and> u_is_active u) (users d)"

lemma occupied_iff:
  "st \<in> set (get_occupied_streams r d) \<longleftrightarrow> st \<in> set (streams d) \<and> st_realm st = r \<and> \<not> st_deactivated st \<and>
    (\<exists>v. active_member r v d \<and> subscribed_to_stream v st d)"
  unfolding get_occupied_streams_def active_member_def subscribed_to_stream_def db_exists_def list_ex_iff
  by auto metis

definition vacated :: "int \<Rightarrow> db \<Rightarrow> db \<Rightarrow> stream list" where
  "vacated r d d' = filter (\<lambda>st. st_id st \<notin> set (map st_id (get_occupied_streams r d'))) (get_occupied_streams r d)"

lemma handle_vacant_run:
  assumes "handle_vacant_streams r new_vacant s = (Inr (), s')"
  shows "deactivates (st_id ` {st \<in> set new_vacant. st_invite_only st = Some True}) s s'"
proof -
  let ?public = "filter (\<lambda>st. st_invite_only st \<noteq> Some True) new_vacant"
  obtain t where ann: "(if ?public \<noteq> []
        then seq (lookup (active_user_ids r)) (\<lambda>ids. send_event (stream_event ''vacate'' ?public) (map PInt ids))
        else ret ()) s = (Inr (), t)"
    and rest: "for_each do_deactivate_stream (filter (\<lambda>st. st_invite_only st = Some True) new_vacant) t = (Inr (), s')"
    using assms unfolding handle_vacant_streams_def andthen_Inr Let_def by (elim exE conjE) (rule that)
  have "preserves sv_db (if ?public \<noteq> []
        then seq (lookup (active_user_ids r)) (\<lambda>ids. send_event (stream_event ''vacate'' ?public) (map PInt ids)) else ret ())"
    by (intro preserves_intros)
  from preservesD[OF this ann] have t: "sv_db t = sv_db s" .
  from deactivate_all[OF rest] show ?thesis unfolding deactivates_def t by simp
qed

lemma remove_run:
  assumes "remove_subscriptions subs r s = (Inr (before, aft), t)"
  shows "sv_db t = set_active False subs (sv_db s) \<and>
    filter (\<lambda>st. st_id st \<notin> set (map st_id aft)) before = vacated r (sv_db s) (sv_db t)"
  using assms by (auto simp: remove_subscriptions_def atomic_Inr seq_Inr andthen_Inr vacated_def)

lemma log_unsubscriptions_keeps:
  "preserves (\<lambda>s. (subscriptions (sv_db s), recipients (sv_db s), users (sv_db s), streams (sv_db s))) (log_unsubscriptions ps)"
  unfolding log_unsubscriptions_def
  by (intro preserves_intros preserves_modify_db[where g = "\<lambda>d. (subscriptions d, recipients d, users d, streams d)"]) simp

lemma notify_removed_db [preserves_intros]: "preserves sv_db (notify_removed us sts ps)"
  unfolding notify_removed_def Let_def by (intro preserves_intros)

lemma deactivates_cong:
  "deactivates V t1 s' \<Longrightarrow> subscriptions (sv_db t1) = subscriptions (sv_db t) \<Longrightarrow> recipients (sv_db t1) = recipients (sv_db t) \<Longrightarrow>
   users (sv_db t1) = users (sv_db t) \<Longrightarrow> streams (sv_db t1) = streams (sv_db t) \<Longrightarrow> deactivates V t s'"
  by (simp add: deactivates_def subs_active_def stream_recipient_ids_def)

lemma image_rids: "\<forall>st \<in> set sts. so (f st) = st \<Longrightarrow> so ` {r \<in> f ` set sts. P r} = {st \<in> set sts. P (f st)}"
  by (force simp: image_iff)

lemma deactivates_db:
  assumes "sv_db s' = sv_db t2" and "deactivates V t t2"
  shows "deactivates V t s'"
  using assms(2) unfolding deactivates_def assms(1) .

lemma bulk_remove_run:
  assumes "bulk_remove_subscriptions us sts s = (Inr (removed, missing), s')"
  shows "\<exists>p t. plan_unsubscriptions us sts (sv_db s) = Inr p \<and> us \<noteq> [] \<and>
    sv_db t = set_active False (map (\<lambda>p. fst (snd p)) (up_deactivate p)) (sv_db s) \<and>
    deactivates (st_id ` {st \<in> set (vacated (u_realm (last us)) (sv_db s) (sv_db t)). st_invite_only st = Some True}) t s' \<and>
    removed = map (\<lambda>(u, x, st). (u, st)) (up_deactivate p) \<and> missing = up_not_subscribed p"
proof -
  obtain p and u :: user_profile where p: "plan_unsubscriptions us sts (sv_db s) = Inr p" and u: "last_user us = Inr u"
    and run: "seq (remove_subscriptions (map (\<lambda>p. fst (snd p)) (up_deactivate p)) (u_realm u)) (\<lambda>(before, aft).
     andthen (log_unsubscriptions (up_deactivate p))
     (andthen (handle_vacant_streams (u_realm u) (filter (\<lambda>st. st_id st \<notin> set (map st_id aft)) before))
     (andthen (notify_removed us sts (up_deactivate p))
       (ret (map (\<lambda>(u, x, st). (u, st)) (up_deactivate p), up_not_subscribed p))))) s = (Inr (removed, missing), s')"
    using assms unfolding bulk_remove_subscriptions_def seq_query_Inr by (elim exE conjE) (rule that)
  obtain before aft t where st: "remove_subscriptions (map (\<lambda>p. fst (snd p)) (up_deactivate p)) (u_realm u) s = (Inr (before, aft), t)"
    and run2: "andthen (log_unsubscriptions (up_deactivate p))
     (andthen (handle_vacant_streams (u_realm u) (filter (\<lambda>st. st_id st \<notin> set (map st_id aft)) before))
     (andthen (notify_removed us sts (up_deactivate p))
       (ret (map (\<lambda>(u, x, st). (u, st)) (up_deactivate p), up_not_subscribed p)))) t = (Inr (removed, missing), s')"
    using run unfolding seq_Inr split_paired_Ex prod.case by (elim exE conjE) (rule that)
  obtain t1 t2 where log: "log_unsubscriptions (up_deactivate p) t = (Inr (), t1)"
    and vac: "handle_vacant_streams (u_realm u) (filter (\<lambda>st. st_id st \<notin> set (map st_id aft)) before) t1 = (Inr (), t2)"
    and rest: "andthen (notify_removed us sts (up_deactivate p))
       (ret (map (\<lambda>(u, x, st). (u, st)) (up_deactivate p), up_not_subscribed p)) t2 = (Inr (removed, missing), s')"
    using run2 unfolding andthen_Inr[where m = "log_unsubscriptions _"] andthen_Inr[where m = "handle_vacant_streams _ _"]
    by (elim exE conjE) (rule that)
  have us: "us \<noteq> []" "u = last us" using u by (auto simp: last_user_def split: if_splits)
  have "preserves sv_db (andthen (notify_removed us sts ps) (ret x))" for ps and x :: "'x" by (intro preserves_intros)
  from preservesD[OF this rest] have db: "sv_db s' = sv_db t2" .
  have "deactivates (st_id ` {st \<in> set (vacated (u_realm u) (sv_db s) (sv_db t)). st_invite_only st = Some True}) t1 t2"
    using handle_vacant_run[OF vac] unfolding remove_run[OF st, THEN conjunct2] .
  then have "deactivates (st_id ` {st \<in> set (vacated (u_realm u) (sv_db s) (sv_db t)). st_invite_only st = Some True}) t t2"
    by (rule deactivates_cong) (use preservesD[OF log_unsubscriptions_keeps log] in simp_all)
  then have fin: "deactivates (st_id ` {st \<in> set (vacated (u_realm (last us)) (sv_db s) (sv_db t)). st_invite_only st = Some True}) t s'"
    unfolding us(2)[symmetric] by (rule deactivates_db[OF db])
  have res: "removed = map (\<lambda>(u, x, st). (u, st)) (up_deactivate p)" "missing = up_not_subscribed p"
    using rest unfolding andthen_Inr by (elim exE conjE, simp only: act_simps(1) prod.inject sum.inject)+
  show ?thesis
    by (intro exI[of _ p] exI[of _ t] conjI p us(1) remove_run[OF st, THEN conjunct1] fin res)
qed

text \<open>
  C25: Unsubscribing users from streams leaves, among the active users of the realm, exactly
  the pairs subscribed that were before and are not among the given users and streams; it
  reports which of the given pairs were subscribed and which were not; and a private stream
  that has lost its last active subscriber is deactivated.
\<close>

theorem bulk_remove_unsubscribes:
  assumes "stream_tables_ok (sv_db s)" and "set sts \<subseteq> set (streams (sv_db s))"
    and "bulk_remove_subscriptions us sts s = (Inr (removed, missing), s')" and "r = u_realm (last us)"
  shows "(\<forall>v. \<forall>st \<in> set (streams (sv_db s)). active_member r v (sv_db s) \<longrightarrow>
      (subscribed_to_stream v st (sv_db s') \<longleftrightarrow>
        subscribed_to_stream v st (sv_db s) \<and> \<not> (v \<in> u_id ` set us \<and> st \<in> set sts))) \<and>
    set removed = {(u, st). u \<in> set us \<and> st \<in> set sts \<and> subscribed_to_stream (u_id u) st (sv_db s)} \<and>
    set missing = {(u, st). u \<in> set us \<and> st \<in> set sts \<and> \<not> subscribed_to_stream (u_id u) st (sv_db s)} \<and>
    (\<forall>st \<in> set (get_occupied_streams r (sv_db s)). st_invite_only st = Some True \<and>
        (\<forall>v. active_member r v (sv_db s) \<longrightarrow> \<not> subscribed_to_stream v st (sv_db s')) \<longrightarrow>
      (\<forall>x \<in> set (streams (sv_db s')). st_id x = st_id st \<longrightarrow> st_deactivated x))"
proof -
  let ?d = "sv_db s"
  obtain p t where p: "plan_unsubscriptions us sts ?d = Inr p"
    and t: "sv_db t = set_active False (map (\<lambda>p. fst (snd p)) (up_deactivate p)) ?d"
    and de: "deactivates (st_id ` {st \<in> set (vacated r ?d (sv_db t)). st_invite_only st = Some True}) t s'"
    and res: "removed = map (\<lambda>(u, x, st). (u, st)) (up_deactivate p)" "missing = up_not_subscribed p"
    using bulk_remove_run[OF assms(3)] unfolding assms(4)[symmetric] by (elim exE conjE) (rule that)
  let ?V = "st_id ` {st \<in> set (vacated r ?d (sv_db t)). st_invite_only st = Some True}"
  obtain rids so where rids: "set rids = rid_of ?d ` set sts" and so: "\<forall>st \<in> set sts. so (rid_of ?d st) = st"
    and plan: "up_deactivate p = concat (map (\<lambda>u. map (\<lambda>x. (u, x, so (sub_recipient x))) (active_rows ?d rids (u_id u))) us)"
      "up_not_subscribed p = concat (map (\<lambda>u. map (\<lambda>rid. (u, so rid)) (filter (\<lambda>r. (u_id u, r) \<notin> subs_active ?d) rids)) us)"
    using plan_unsub_run[OF assms(1,2) p] by blast
  have ids: "stream_recipient_ids (st_id st) ?d = [rid_of ?d st]" if "st \<in> set (streams ?d)" for st
    by (rule rid_of_ids[OF assms(1) that])
  have subbed: "subscribed_to_stream v st ?d \<longleftrightarrow> (v, rid_of ?d st) \<in> subs_active ?d" if "st \<in> set (streams ?d)" for v st
    unfolding subscribed_active ids[OF that] by simp
  have same_t: "recipients (sv_db t) = recipients ?d" "users (sv_db t) = users ?d" "streams (sv_db t) = streams ?d"
    by (simp_all add: t set_active_def)
  have recs_t: "stream_recipient_ids i (sv_db t) = stream_recipient_ids i ?d"
    and recs': "stream_recipient_ids i (sv_db s') = stream_recipient_ids i ?d" for i
    using same_t de by (simp_all add: stream_recipient_ids_def deactivates_def)
  have active_t: "subs_active (sv_db t) = subs_active ?d - u_id ` set us \<times> set rids"
    unfolding t by (rule removed_active) (unfold plan(1), force)
  have member: "rid_of ?d st \<in> set rids \<longleftrightarrow> st \<in> set sts" if "st \<in> set (streams ?d)" for st
    using rid_of_inj[OF assms(1) that] rids assms(2) by blast
  have sub_t: "subscribed_to_stream v st (sv_db t) \<longleftrightarrow>
      subscribed_to_stream v st ?d \<and> \<not> (v \<in> u_id ` set us \<and> st \<in> set sts)" if "st \<in> set (streams ?d)" for v st
    unfolding subscribed_active recs_t ids[OF that] active_t using member[OF that] by auto
  have mem_t: "active_member r v (sv_db t) \<longleftrightarrow> active_member r v ?d" for v by (simp add: active_member_def same_t)
  have vac_in: "st \<in> set (streams ?d)" if "st \<in> set (vacated r ?d (sv_db t))" for st
    using that by (auto simp: vacated_def occupied_iff)
  have one: "a = b" if "a \<in> set (streams ?d)" "b \<in> set (streams ?d)" "st_id a = st_id b" for a b
    using assms(1) that by (auto simp: stream_tables_ok_def distinct_map dest: inj_onD)
  have sub': "subscribed_to_stream v st (sv_db s') \<longleftrightarrow> subscribed_to_stream v st (sv_db t) \<and> st_id st \<notin> ?V"
    if st: "st \<in> set (streams ?d)" for v st
  proof -
    have "(\<forall>i \<in> ?V. rid_of ?d st \<notin> set (stream_recipient_ids i (sv_db t))) \<longleftrightarrow> st_id st \<notin> ?V"
    proof -
      have "rid_of ?d st \<in> set (stream_recipient_ids (st_id x) (sv_db t)) \<longleftrightarrow> x = st" if "x \<in> set (vacated r ?d (sv_db t))" for x
        using ids[OF vac_in[OF that]] rid_of_inj[OF assms(1) st vac_in[OF that]] by (auto simp: recs_t)
      then show ?thesis using one[OF st] vac_in by auto
    qed
    moreover have "subs_active (sv_db s') = {p \<in> subs_active (sv_db t). \<forall>i \<in> ?V. snd p \<notin> set (stream_recipient_ids i (sv_db t))}"
      using de by (simp add: deactivates_def)
    ultimately show ?thesis unfolding subscribed_active recs' recs_t ids[OF st] by auto
  qed
  have vacant: "\<not> subscribed_to_stream v st (sv_db t)" if h: "st \<in> set (streams ?d)" "st_id st \<in> ?V" "active_member r v ?d" for v st
  proof -
    obtain x where x: "x \<in> set (vacated r ?d (sv_db t))" "st_id x = st_id st" using h(2) by auto
    then have "x = st" using one vac_in h(1) by blast
    then have "st \<in> set (get_occupied_streams r ?d)" "st \<notin> set (get_occupied_streams r (sv_db t))"
      using x(1) by (auto simp: vacated_def)
    then show ?thesis using h(1,3) by (auto simp: occupied_iff same_t mem_t)
  qed
  have "\<forall>v. \<forall>st \<in> set (streams ?d). active_member r v ?d \<longrightarrow> (subscribed_to_stream v st (sv_db s') \<longleftrightarrow>
        subscribed_to_stream v st ?d \<and> \<not> (v \<in> u_id ` set us \<and> st \<in> set sts))"
    using sub' sub_t vacant by blast
  moreover have "set removed = {(u, st). u \<in> set us \<and> st \<in> so ` sub_recipient ` set (active_rows ?d rids (u_id u))}"
    unfolding res(1) set_map plan(1) triples_set by (auto simp: image_image)
  then have "set removed = {(u, st). u \<in> set us \<and> st \<in> set sts \<and> subscribed_to_stream (u_id u) st ?d}"
    unfolding active_rows_recipients rids image_rids[where so = so and f = "rid_of ?d", OF so] using subbed assms(2) by auto
  moreover have "set missing = {(u, st). u \<in> set us \<and> st \<in> so ` {r \<in> set rids. (u_id u, r) \<notin> subs_active ?d}}"
    unfolding res(2) plan(2) pairs_set by simp
  then have "set missing = {(u, st). u \<in> set us \<and> st \<in> set sts \<and> \<not> subscribed_to_stream (u_id u) st ?d}"
    unfolding rids image_rids[where so = so and f = "rid_of ?d", OF so] using subbed assms(2) by auto
  moreover have "st_deactivated x" if st: "st \<in> set (get_occupied_streams r ?d)" "st_invite_only st = Some True"
    "\<forall>v. active_member r v ?d \<longrightarrow> \<not> subscribed_to_stream v st (sv_db s')" "x \<in> set (streams (sv_db s'))" "st_id x = st_id st" for st x
  proof -
    have in_d: "st \<in> set (streams ?d)" using st(1) by (simp add: occupied_iff)
    have "st_id st \<in> ?V"
    proof (rule ccontr)
      assume no: "st_id st \<notin> ?V"
      then have "st \<notin> set (vacated r ?d (sv_db t))" using st(2) by auto
      then obtain y where "y \<in> set (get_occupied_streams r (sv_db t))" "st_id y = st_id st"
        using st(1) by (auto simp: vacated_def)
      moreover from this have "y = st" using one in_d by (simp add: occupied_iff same_t)
      ultimately obtain v where "active_member r v ?d" "subscribed_to_stream v st (sv_db t)"
        by (auto simp: occupied_iff mem_t)
      then show False using st(3) sub'[OF in_d] no by blast
    qed
    then show ?thesis using de st(4,5) by (simp add: deactivates_def)
  qed
  ultimately show ?thesis by blast
qed

theorem bulk_remove_unsubscribes_witness:
  "\<exists>removed missing s'. bulk_remove_subscriptions [demo_user 8 4 ''bob@zulip.com'', demo_user 9 4 ''ann@zulip.com'']
      [demo_stream True] sub_server = (Inr (removed, missing), s') \<and> missing = [] \<and>
    \<not> subscribed_to_stream 8 (demo_stream True) (sv_db s') \<and> list_all st_deactivated (streams (sv_db s'))"
proof -
  let ?us = "[demo_user 8 4 ''bob@zulip.com'', demo_user 9 4 ''ann@zulip.com'']"
  have run_ok: "case fst (bulk_remove_subscriptions ?us [demo_stream True] sub_server) of Inr (a, b) \<Rightarrow> True | Inl _ \<Rightarrow> False"
    by code_simp
  obtain removed missing s' where run: "bulk_remove_subscriptions ?us [demo_stream True] sub_server = (Inr (removed, missing), s')"
    using run_ok by (cases "bulk_remove_subscriptions ?us [demo_stream True] sub_server") (auto split: sum.splits)
  have ok: "stream_tables_ok (sv_db sub_server)" by code_simp
  have streams: "set (streams (sv_db sub_server)) = {demo_stream True}" "st_id (demo_stream True) = 6"
    by (simp_all add: sub_server_def demo_server_def demo_db_def demo_stream_def)
  have ids: "u_id (demo_user 8 4 ''bob@zulip.com'') = 8" "u_id (demo_user 9 4 ''ann@zulip.com'') = 9"
    "u_realm (demo_user 9 4 ''ann@zulip.com'') = 4" by (simp_all add: demo_user_def)
  have members: "active_member 4 v (sv_db sub_server) \<longleftrightarrow> v \<in> {7, 8, 9}" for v
    by (auto simp: active_member_def sub_server_def db_exists_def demo_user_def)
  have old: "\<not> subscribed_to_stream 7 (demo_stream True) (sv_db sub_server)" "subscribed_to_stream 8 (demo_stream True) (sv_db sub_server)"
    "subscribed_to_stream 9 (demo_stream True) (sv_db sub_server)" by code_simp+
  have occ: "demo_stream True \<in> set (get_occupied_streams 4 (sv_db sub_server))" "st_invite_only (demo_stream True) = Some True"
    by code_simp+
  have sub: "set [demo_stream True] \<subseteq> set (streams (sv_db sub_server))" using streams(1) by simp
  note eff = bulk_remove_unsubscribes[OF ok sub run refl]
  have "\<not> subscribed_to_stream v (demo_stream True) (sv_db s')" if "active_member 4 v (sv_db sub_server)" for v
    using eff that old by (auto simp: members ids streams)
  then have gone: "\<forall>v. active_member 4 v (sv_db sub_server) \<longrightarrow> \<not> subscribed_to_stream v (demo_stream True) (sv_db s')" by blast
  have "set missing = {}" using eff old by (auto simp: ids)
  moreover have "\<forall>x \<in> set (streams (sv_db s')). st_id x = 6"
  proof -
    have "list_all (\<lambda>x. st_id x = 6) (streams (sv_db (snd (bulk_remove_subscriptions ?us [demo_stream True] sub_server))))" by code_simp
    then show ?thesis by (simp add: run list_all_iff)
  qed
  then have "\<forall>x \<in> set (streams (sv_db s')). st_deactivated x"
    using eff occ gone streams(2) by (simp add: ids)
  moreover have "\<not> subscribed_to_stream 8 (demo_stream True) (sv_db s')" using gone by (simp add: members)
  ultimately show ?thesis using run by (simp add: list_all_iff)
qed

end
