(* ===== verification/MessageFlags.thy ===== *)
theory MessageFlags
  imports Streams
begin

text \<open>
  What readers do with messages: the flags of their rows (\<open>do_update_message_flags\<close> and the
  view \<open>update_message_flags\<close>), the pointer, reactions with the emoji checks
  (\<open>zerver/lib/emoji.py\<close>, \<open>zerver/views/reactions.py\<close>) and typing notifications. The table
  of unicode emoji, a generated file, and the URLs of the upload backend are the record
  \<open>emoji_env\<close>.
\<close>

section \<open>Flags\<close>

text \<open>\<open>getattr(UserMessage.flags, flag)\<close>\<close>

definition flag_mask :: "string \<Rightarrow> pyerr + int" where
  "flag_mask flag = the_some (OtherError ''AttributeError'')
     (map_of (zip ALL_FLAGS (map (\<lambda>k. push_bit k 1) [0..<length ALL_FLAGS])) flag)"

definition READ :: int where "READ = 1"
definition HISTORICAL :: int where "HISTORICAL = 1024"

definition has_flag :: "int \<Rightarrow> user_message \<Rightarrow> bool" where
  "has_flag m um \<longleftrightarrow> and (um_flags um) m \<noteq> 0"

definition set_flag :: "int \<Rightarrow> user_message \<Rightarrow> user_message" where
  "set_flag m um = um\<lparr>um_flags := or (um_flags um) m\<rparr>"

definition clear_flag :: "int \<Rightarrow> user_message \<Rightarrow> user_message" where
  "clear_flag m um = um\<lparr>um_flags := and (um_flags um) (not m)\<rparr>"

definition update_rows :: "(user_message \<Rightarrow> bool) \<Rightarrow> (user_message \<Rightarrow> user_message) \<Rightarrow> db \<Rightarrow> db" where
  "update_rows P f d = d\<lparr>user_messages := map (\<lambda>um. if P um then f um else um) (user_messages d)\<rparr>"

definition historical_row :: "user_profile \<Rightarrow> message \<Rightarrow> user_message" where
  "historical_row u m = \<lparr>um_user_profile = u_id u, um_message = m_id m, um_flags = or HISTORICAL READ\<rparr>"

definition create_user_message :: "user_message \<Rightarrow> unit act" where
  "create_user_message um = (\<lambda>s.
     if db_exists (\<lambda>x. um_user_profile x = um_user_profile um \<and> um_message x = um_message um) (user_messages (sv_db s))
     then (Inl (OtherError ''IntegrityError''), s)
     else modify_db (\<lambda>d. d\<lparr>user_messages := user_messages d @ [um]\<rparr>) s)"

text \<open>The query of the rows; a query is evaluated again each time it is used, in the state at that point.\<close>

type_synonym row_query = "db \<Rightarrow> user_message \<Rightarrow> bool"

definition all_rows :: "user_profile \<Rightarrow> row_query" where
  "all_rows u d um \<longleftrightarrow> um_user_profile um = u_id u"

definition stream_rows :: "user_profile \<Rightarrow> recipient \<Rightarrow> string option \<Rightarrow> row_query" where
  "stream_rows u rc topic_name d um \<longleftrightarrow> um_user_profile um = u_id u \<and>
     db_exists (\<lambda>m. m_id m = um_message um \<and> m_recipient m = rc_id rc \<and>
       (case topic_name of None \<Rightarrow> True | Some t \<Rightarrow> t = [] \<or> str_lower (m_subject m) = str_lower t)) (messages d)"

definition listed_rows :: "user_profile \<Rightarrow> int list \<Rightarrow> row_query" where
  "listed_rows u ids d um \<longleftrightarrow> um_user_profile um = u_id u \<and> um_message um \<in> set ids"

definition matching :: "row_query \<Rightarrow> db \<Rightarrow> user_message list" where
  "matching msgs d = filter (msgs d) (user_messages d)"

text \<open>The hack to let a user star any message that it can read.\<close>

definition star_any_message :: "user_profile \<Rightarrow> string \<Rightarrow> int list \<Rightarrow> unit act" where
  "star_any_message u flag ids =
     (if length ids \<noteq> 1 then raise invalid_message
      else if flag \<noteq> ''starred'' then raise invalid_message
      else seq (query (access_message u (hd ids))) (\<lambda>(m, _). create_user_message (historical_row u m)))"

definition select_rows ::
  "user_profile \<Rightarrow> string \<Rightarrow> int list option \<Rightarrow> bool \<Rightarrow> stream option \<Rightarrow> string option \<Rightarrow> row_query act" where
  "select_rows u flag msg_ids all stream_obj topic_name =
     (if all then ret (all_rows u)
      else case stream_obj of
        Some st \<Rightarrow> seq (query (get_recipient STREAM (st_id st))) (\<lambda>rc. ret (stream_rows u rc topic_name))
      | None \<Rightarrow> (case msg_ids of
          None \<Rightarrow> raise (AssertionError [])
        | Some ids \<Rightarrow>
            seq (lookup (\<lambda>d. matching (listed_rows u ids) d)) (\<lambda>rows.
            andthen (if rows = [] then star_any_message u flag ids else ret ()) (ret (listed_rows u ids)))))"

text \<open>Both operations change the rows whose bit is not as wanted yet; another operation changes nothing.\<close>

definition pending_rows :: "string \<Rightarrow> int \<Rightarrow> row_query \<Rightarrow> row_query" where
  "pending_rows operation m msgs d um \<longleftrightarrow> msgs d um \<and>
     (if operation = ''add'' then \<not> has_flag m um else operation = ''remove'' \<and> has_flag m um)"

definition flip_flag :: "string \<Rightarrow> int \<Rightarrow> user_message \<Rightarrow> user_message" where
  "flip_flag operation m = (if operation = ''add'' then set_flag m else clear_flag m)"

definition flags_event :: "string \<Rightarrow> string \<Rightarrow> int list option \<Rightarrow> bool \<Rightarrow> pydict" where
  "flags_event operation flag msg_ids all =
     [(''type'', PStr ''update_message_flags''), (''operation'', PStr operation), (''flag'', PStr flag),
      (''messages'', of_opt (\<lambda>l. PList (map PInt l)) msg_ids), (''all'', PBool all)]"

definition do_update_message_flags ::
  "user_profile \<Rightarrow> string \<Rightarrow> string \<Rightarrow> int list option \<Rightarrow> bool \<Rightarrow> stream option \<Rightarrow> string option \<Rightarrow> nat act" where
  "do_update_message_flags u operation flag msg_ids all stream_obj topic_name =
     seq (query (\<lambda>_. flag_mask flag)) (\<lambda>flagattr.
     seq (select_rows u flag msg_ids all stream_obj topic_name) (\<lambda>msgs.
     let known = operation = ''add'' \<or> operation = ''remove'' in
     seq (lookup (matching (pending_rows operation flagattr msgs))) (\<lambda>rows.
     let msg_ids = (if known \<and> stream_obj \<noteq> None then Some (map um_message rows) else msg_ids) in
     andthen (modify_db (\<lambda>d. update_rows (pending_rows operation flagattr msgs d) (flip_flag operation flagattr) d))
     (andthen (send_event (flags_event operation flag msg_ids all) [PInt (u_id u)])
       (if known then ret (length rows) else raise (NameError ''count''))))))"

definition update_message_flags ::
  "user_profile \<Rightarrow> int list \<Rightarrow> string \<Rightarrow> string \<Rightarrow> bool \<Rightarrow> string option \<Rightarrow> string option \<Rightarrow> pydict act" where
  "update_message_flags u msg_ids operation flag all stream_name topic_name =
     seq (case stream_name of
            None \<Rightarrow> ret None
          | Some name \<Rightarrow>
              seq (query (\<lambda>d. case get_stream name (u_realm u) d of
                     Inl (DoesNotExist _) \<Rightarrow> Inl (JsonableError (''No such stream '' @ quoted name)) | r \<Rightarrow> r)) (\<lambda>st.
              case topic_name of
                None \<Rightarrow> ret (Some st)
              | Some topic \<Rightarrow>
                  if topic = [] then ret (Some st)
                  else seq (lookup (\<lambda>d. db_exists (\<lambda>um. um_user_profile um = u_id u \<and>
                         db_exists (\<lambda>m. m_id m = um_message um \<and> str_lower (m_subject m) = str_lower topic \<and>
                           m_recipient m \<in> set (stream_recipient_ids (st_id st) d)) (messages d)) (user_messages d))) (\<lambda>topic_exists.
                    if topic_exists then ret (Some st) else raise (JsonableError (''No such topic '' @ quoted topic))))) (\<lambda>st.
     seq (do_update_message_flags u operation flag (Some msg_ids) all st topic_name) (\<lambda>count.
       ret [(''result'', PStr ''success''), (''messages'', PList (map PInt msg_ids)), (''msg'', PStr [])]))"

section \<open>The pointer\<close>

definition do_update_pointer :: "user_profile \<Rightarrow> int \<Rightarrow> bool \<Rightarrow> unit act" where
  "do_update_pointer u pointer update_flags =
     andthen (modify_db (\<lambda>d. d\<lparr>users := map (\<lambda>x. if u_id x = u_id u then x\<lparr>u_pointer := pointer\<rparr> else x) (users d)\<rparr>))
     (andthen (if update_flags
               then modify_db (update_rows (\<lambda>um. um_user_profile um = u_id u \<and> u_pointer u < um_message um \<and>
                      um_message um \<le> pointer \<and> \<not> has_flag READ um) (set_flag READ))
               else ret ())
       (send_event [(''type'', PStr ''pointer''), (''pointer'', PInt pointer)] [PInt (u_id u)]))"

definition update_pointer_backend :: "string \<Rightarrow> user_profile \<Rightarrow> int \<Rightarrow> unit act" where
  "update_pointer_backend client_name u pointer =
     (if pointer \<le> u_pointer u then ret ()
      else seq (query (\<lambda>d. case db_get ''UserMessage'' (\<lambda>x. um_user_profile x = u_id u \<and> um_message x = pointer) (user_messages d) of
                  Inl (DoesNotExist _) \<Rightarrow> Inl (JsonableError ''Invalid message ID'') | r \<Rightarrow> r)) (\<lambda>_.
             do_update_pointer u pointer (str_lower client_name \<in> set [''android'', ''zulipandroid''])))"

section \<open>Emoji\<close>

record emoji_env =
  name_to_codepoint :: "string \<Rightarrow> bool"
  emoji_url :: "string option \<Rightarrow> int \<Rightarrow> string"

definition emoji_author :: "db \<Rightarrow> realm_emoji \<Rightarrow> pyerr + pyval" where
  "emoji_author d e = (case ej_author e of
       None \<Rightarrow> Inr PNone
     | Some a \<Rightarrow> ebind (get_user_profile_by_id a d) (\<lambda>u.
         Inr (PDict [(''id'', PInt (u_id u)), (''email'', PStr (u_email u)), (''full_name'', PStr (u_full_name u))])))"

definition get_realm_emoji :: "emoji_env \<Rightarrow> int \<Rightarrow> db \<Rightarrow> pyerr + (string \<times> string \<times> bool \<times> pyval) list" where
  "get_realm_emoji J realm_id d =
     efold (\<lambda>acc e. ebind (emoji_author d e) (\<lambda>author.
         Inr (dset (ej_name e) (emoji_url J (ej_file_name e) (ej_realm e), ej_deactivated e, author) acc))) []
       (filter (\<lambda>e. ej_realm e = realm_id) (realm_emojis d))"

definition check_valid_emoji :: "emoji_env \<Rightarrow> int \<Rightarrow> string \<Rightarrow> db \<Rightarrow> pyerr + unit" where
  "check_valid_emoji J realm_id emoji_name d =
     ebind (get_realm_emoji J realm_id d) (\<lambda>emojis.
       if (case map_of emojis emoji_name of None \<Rightarrow> False | Some (_, deactivated, _) \<Rightarrow> \<not> deactivated) then Inr ()
       else if name_to_codepoint J emoji_name then Inr ()
       else if emoji_name = ''zulip'' then Inr ()
       else Inl (JsonableError (''Emoji '' @ quoted emoji_name @ '' does not exist'')))"

text \<open>The author is that of the first emoji with the name, in any realm.\<close>

definition check_emoji_admin :: "user_profile \<Rightarrow> string option \<Rightarrow> db \<Rightarrow> pyerr + unit" where
  "check_emoji_admin u emoji_name d =
     (if u_is_realm_admin u then Inr ()
      else ebind (the_realm (u_realm u) d) (\<lambda>r.
        if rm_add_emoji_by_admins_only r then Inl (JsonableError ''Must be a realm administrator'')
        else case emoji_name of
          None \<Rightarrow> Inr ()
        | Some name \<Rightarrow>
            (let current_user_is_author = (case db_first (\<lambda>e. ej_name e = name) (realm_emojis d) of
                   None \<Rightarrow> False | Some e \<Rightarrow> ej_author e = Some (u_id u))
             in if \<not> u_is_realm_admin u \<and> \<not> current_user_is_author
                then Inl (JsonableError ''Must be a realm administrator or emoji author'') else Inr ())))"

text \<open>\<open>^[0-9a-z.\-_]+(?<![.\-_])$\<close>; the dollar also matches before a final newline.\<close>

definition emoji_name_char :: "char \<Rightarrow> bool" where
  "emoji_name_char c \<longleftrightarrow> is_digit c \<or> (CHR ''a'' \<le> c \<and> c \<le> CHR ''z'') \<or> c \<in> set ''.-_''"

definition emoji_name_matches :: "string \<Rightarrow> bool" where
  "emoji_name_matches s \<longleftrightarrow>
     (let t = (if s \<noteq> [] \<and> last s = CHR ''\<newline>'' then butlast s else s)
      in t \<noteq> [] \<and> list_all emoji_name_char t \<and> last t \<notin> set ''.-_'')"

definition check_valid_emoji_name :: "string \<Rightarrow> pyerr + unit" where
  "check_valid_emoji_name emoji_name =
     (if emoji_name_matches emoji_name then Inr () else Inl (JsonableError ''Invalid characters in emoji name''))"

definition emoji_entry :: "string \<times> string \<times> bool \<times> pyval \<Rightarrow> string \<times> pyval" where
  "emoji_entry e = (case e of (name, source_url, deactivated, author) \<Rightarrow>
     (name, PDict [(''source_url'', PStr source_url), (''deactivated'', PBool deactivated), (''author'', author)]))"

definition notify_realm_emoji :: "emoji_env \<Rightarrow> int \<Rightarrow> unit act" where
  "notify_realm_emoji J realm_id =
     seq (query (get_realm_emoji J realm_id)) (\<lambda>emojis.
     seq (lookup (active_user_ids realm_id)) (\<lambda>ids.
       send_event [(''type'', PStr ''realm_emoji''), (''op'', PStr ''update''),
         (''realm_emoji'', PDict (map emoji_entry emojis))] (map PInt ids)))"

definition check_add_realm_emoji :: "emoji_env \<Rightarrow> int \<Rightarrow> string \<Rightarrow> string \<Rightarrow> int option \<Rightarrow> unit act" where
  "check_add_realm_emoji J realm_id name file_name author =
     seq (lookup (\<lambda>d. db_exists (\<lambda>e. ej_realm e = realm_id \<and> ej_name e = name) (realm_emojis d))) (\<lambda>found.
       if name = [] then raise (ValidationError ''This field cannot be blank.'')
       else if \<not> emoji_name_matches name then raise (ValidationError ''Invalid characters in emoji name'')
       else if found then raise (ValidationError ''Realm emoji with this Realm and Name already exists.'')
       else andthen (modify_db (\<lambda>d. d\<lparr>realm_emojis := realm_emojis d @
              [\<lparr>ej_author = author, ej_realm = realm_id, ej_name = name, ej_file_name = Some file_name, ej_deactivated = False\<rparr>]\<rparr>))
            (notify_realm_emoji J realm_id))"

definition do_remove_realm_emoji :: "emoji_env \<Rightarrow> int \<Rightarrow> string \<Rightarrow> unit act" where
  "do_remove_realm_emoji J realm_id name =
     seq (query (\<lambda>d. db_get ''RealmEmoji'' (\<lambda>e. ej_realm e = realm_id \<and> ej_name e = name) (realm_emojis d))) (\<lambda>_.
     andthen (modify_db (\<lambda>d. d\<lparr>realm_emojis := map (\<lambda>e. if ej_realm e = realm_id \<and> ej_name e = name
                then e\<lparr>ej_deactivated := True\<rparr> else e) (realm_emojis d)\<rparr>))
       (notify_realm_emoji J realm_id))"

definition delete_emoji :: "emoji_env \<Rightarrow> user_profile \<Rightarrow> string \<Rightarrow> unit act" where
  "delete_emoji J u emoji_name =
     seq (query (check_valid_emoji J (u_realm u) emoji_name)) (\<lambda>_.
     seq (query (check_emoji_admin u (Some emoji_name))) (\<lambda>_.
       do_remove_realm_emoji J (u_realm u) emoji_name))"

section \<open>Reactions\<close>

text \<open>The dictionaries of the changed messages are built again for the cache, which may store a rendering.\<close>

definition update_to_dict_cache :: "send_env \<Rightarrow> message list \<Rightarrow> int list act" where
  "update_to_dict_cache E changed_messages =
     andthen (for_each (\<lambda>m. seq (message_to_dict E m True) (\<lambda>_. seq (message_to_dict E m False) (\<lambda>_. ret ()))) changed_messages)
       (ret (map m_id changed_messages))"

definition message_row_user_ids :: "int \<Rightarrow> db \<Rightarrow> int list" where
  "message_row_user_ids mid d = map um_user_profile (filter (\<lambda>um. um_message um = mid) (user_messages d))"

definition notify_reaction_update :: "send_env \<Rightarrow> user_profile \<Rightarrow> message \<Rightarrow> string \<Rightarrow> string \<Rightarrow> unit act" where
  "notify_reaction_update E u m emoji_name op1 =
     (let event = [(''type'', PStr ''reaction''), (''op'', PStr op1),
            (''user'', PDict [(''user_id'', PInt (u_id u)), (''email'', PStr (u_email u)), (''full_name'', PStr (u_full_name u))]),
            (''message_id'', PInt (m_id m)), (''emoji_name'', PStr emoji_name)] in
      seq (update_to_dict_cache E [m]) (\<lambda>_.
      seq (lookup (message_row_user_ids (m_id m))) (\<lambda>ids. send_event event (map PInt ids))))"

definition is_reaction :: "user_profile \<Rightarrow> message \<Rightarrow> string \<Rightarrow> reaction \<Rightarrow> bool" where
  "is_reaction u m emoji_name x \<longleftrightarrow> re_user_profile x = u_id u \<and> re_message x = m_id m \<and> re_emoji_name x = emoji_name"

definition do_add_reaction :: "send_env \<Rightarrow> user_profile \<Rightarrow> message \<Rightarrow> string \<Rightarrow> unit act" where
  "do_add_reaction E u m emoji_name =
     seq (lookup (\<lambda>d. db_exists (is_reaction u m emoji_name) (reactions d))) (\<lambda>found.
       if found then raise (OtherError ''IntegrityError'')
       else andthen (modify_db (\<lambda>d. d\<lparr>reactions := reactions d @
                [\<lparr>re_user_profile = u_id u, re_message = m_id m, re_emoji_name = emoji_name\<rparr>]\<rparr>))
              (notify_reaction_update E u m emoji_name ''add''))"

definition do_remove_reaction :: "send_env \<Rightarrow> user_profile \<Rightarrow> message \<Rightarrow> string \<Rightarrow> unit act" where
  "do_remove_reaction E u m emoji_name =
     andthen (modify_db (\<lambda>d. d\<lparr>reactions := filter (\<lambda>x. \<not> is_reaction u m emoji_name x) (reactions d)\<rparr>))
       (notify_reaction_update E u m emoji_name ''remove'')"

definition sender_realm_id :: "message \<Rightarrow> db \<Rightarrow> pyerr + int" where
  "sender_realm_id m d = ebind (get_user_profile_by_id (m_sender m) d) (\<lambda>u. Inr (u_realm u))"

definition add_reaction_backend :: "send_env \<Rightarrow> emoji_env \<Rightarrow> user_profile \<Rightarrow> int \<Rightarrow> string \<Rightarrow> unit act" where
  "add_reaction_backend E J u message_id emoji_name =
     seq (query (access_message u message_id)) (\<lambda>(m, user_message).
     seq (query (\<lambda>d. ebind (sender_realm_id m d) (\<lambda>r. check_valid_emoji J r emoji_name d))) (\<lambda>_.
     seq (lookup (\<lambda>d. db_exists (is_reaction u m emoji_name) (reactions d))) (\<lambda>found.
       if found then raise (JsonableError ''Reaction already exists'')
       else andthen (if user_message = None then create_user_message (historical_row u m) else ret ())
              (do_add_reaction E u m emoji_name))))"

definition remove_reaction_backend :: "send_env \<Rightarrow> emoji_env \<Rightarrow> user_profile \<Rightarrow> int \<Rightarrow> string \<Rightarrow> unit act" where
  "remove_reaction_backend E J u message_id emoji_name =
     seq (query (access_message u message_id)) (\<lambda>(m, _).
     seq (query (\<lambda>d. ebind (sender_realm_id m d) (\<lambda>r. check_valid_emoji J r emoji_name d))) (\<lambda>_.
     seq (lookup (\<lambda>d. db_exists (is_reaction u m emoji_name) (reactions d))) (\<lambda>found.
       if \<not> found then raise (JsonableError ''Reaction does not exist'')
       else do_remove_reaction E u m emoji_name)))"

section \<open>Typing notifications\<close>

definition check_typing_notification :: "send_env \<Rightarrow> user_profile \<Rightarrow> string list \<Rightarrow> string \<Rightarrow> recipient act" where
  "check_typing_notification E sender notification_to operator =
     (if notification_to = [] then raise (JsonableError ''Missing parameter: 'to' (recipient)'')
      else if operator \<notin> set [''start'', ''stop''] then raise (JsonableError ''Invalid 'op' value (should be start or stop)'')
      else seq (try_except (recipient_for_emails E notification_to False (Some sender) sender)
                  (\<lambda>e. case e of ValidationError msg \<Rightarrow> Some (raise (JsonableError msg)) | _ \<Rightarrow> None)) (\<lambda>rc.
           if rc_type rc = STREAM then raise (ValueError ''Forbidden recipient type'') else ret rc))"

definition typing_user :: "user_profile \<Rightarrow> pyval" where
  "typing_user u = PDict [(''user_id'', PInt (u_id u)), (''email'', PStr (u_email u))]"

definition do_send_typing_notification :: "user_profile \<Rightarrow> recipient \<Rightarrow> string \<Rightarrow> unit act" where
  "do_send_typing_notification sender rc operator =
     seq (query (get_recipient_user_profiles rc (u_id sender))) (\<lambda>us.
       send_event [(''type'', PStr ''typing''), (''op'', PStr operator), (''sender'', typing_user sender),
           (''recipients'', PList (map typing_user us))]
         (map (\<lambda>u. PInt (u_id u)) (filter u_is_active us)))"

definition check_send_typing_notification :: "send_env \<Rightarrow> user_profile \<Rightarrow> string list \<Rightarrow> string \<Rightarrow> unit act" where
  "check_send_typing_notification E sender notification_to operator =
     seq (check_typing_notification E sender notification_to operator) (\<lambda>rc.
       do_send_typing_notification sender rc operator)"

end
