(* ===== verification/MessageEdit.thy ===== *)
theory MessageEdit
  imports MessageFlags
begin

text \<open>
  Changing a message after it was sent: the update of the flags of its readers, edits of the
  content and of the topic with their propagation to other messages of the topic, the edit
  history and its presentation, and deletion with the archive (\<open>zerver/lib/retention.py\<close>).
  The JSON printer and the highlighting of differences are parameters. A view that returns
  \<open>json_error\<close> is modelled as raising \<open>JsonableError\<close>, which gives the same response.
\<close>

section \<open>The flags of the readers\<close>

definition update_flag :: "bool \<Rightarrow> int \<Rightarrow> user_message \<Rightarrow> user_message" where
  "update_flag should_set m um =
     (if should_set then (if \<not> has_flag m um then set_flag m um else um)
      else (if has_flag m um then clear_flag m um else um))"

definition reprocess_flags :: "rendered_message \<Rightarrow> user_message \<Rightarrow> user_message" where
  "reprocess_flags r um =
     update_flag (r_is_me_message r) 2048
       (update_flag (r_mentions_wildcard r) 16
         (update_flag (um_user_profile um \<in> set (r_mentions_user_ids r)) 8
           (update_flag (um_user_profile um \<in> set (r_user_ids_with_alert_words r)) 512 um)))"

definition update_user_message_flags :: "int \<Rightarrow> rendered_message \<Rightarrow> db \<Rightarrow> db" where
  "update_user_message_flags mid r = update_rows (\<lambda>um. um_message um = mid) (reprocess_flags r)"

definition user_info :: "user_message \<Rightarrow> pyval" where
  "user_info um = PDict [(''id'', PInt (um_user_profile um)),
     (''flags'', PList (map PStr (parse_usermessage_flags (um_flags um))))]"

definition message_row_infos :: "int \<Rightarrow> db \<Rightarrow> pyval list" where
  "message_row_infos mid d = map user_info (filter (\<lambda>um. um_message um = mid) (user_messages d))"

text \<open>\<open>message.save(update_fields=[...])\<close>: \<open>f\<close> writes the named fields.\<close>

definition save_message :: "int \<Rightarrow> (message \<Rightarrow> message) \<Rightarrow> unit act" where
  "save_message mid f = (\<lambda>s.
     if db_exists (\<lambda>x. m_id x = mid) (messages (sv_db s))
     then modify_db (\<lambda>d. d\<lparr>messages := map (\<lambda>x. if m_id x = mid then f x else x) (messages d)\<rparr>) s
     else (Inl (OtherError ''DatabaseError''), s))"

definition do_update_embedded_data ::
  "send_env \<Rightarrow> user_profile \<Rightarrow> message \<Rightarrow> rendered_message \<Rightarrow> string option \<Rightarrow> string option \<Rightarrow> unit act" where
  "do_update_embedded_data E u m r content rendered_content = atomic
     (let event = [(''type'', PStr ''update_message''), (''sender'', PStr (u_email u)), (''message_id'', PInt (m_id m))] in
      seq (case content of
             None \<Rightarrow> ret (m, event)
           | Some c \<Rightarrow> andthen (modify_db (update_user_message_flags (m_id m) r))
               (ret (m\<lparr>m_content := c, m_rendered_content := rendered_content,
                       m_rendered_content_version := Some (bugdown_version (se_render E))\<rparr>,
                     event @ [(''content'', PStr c), (''rendered_content'', of_opt PStr rendered_content)]))) (\<lambda>(m, event).
      andthen (save_message (m_id m) (\<lambda>x. x\<lparr>m_content := m_content m, m_rendered_content := m_rendered_content m\<rparr>))
      (seq (update_to_dict_cache E [m]) (\<lambda>ids.
       seq (lookup (message_row_infos (m_id m))) (\<lambda>infos.
         send_event (event @ [(''message_ids'', PList (map PInt ids))]) infos)))))"

section \<open>Edits\<close>

text \<open>The recorded edits, newest first; the first rendered content that the code also looks up is not used.\<close>

definition edit_history_of :: "send_env \<Rightarrow> message \<Rightarrow> pyerr + pyval list" where
  "edit_history_of E m =
     (case m_edit_history m of
        None \<Rightarrow> Inr []
      | Some h \<Rightarrow> ebind (json_loads (se_render E) h) as_list)"

definition check_attachment_reference_change :: "string \<Rightarrow> message \<Rightarrow> unit act" where
  "check_attachment_reference_change prev_content m =
     (let prev_attachments = find_attachment_urls 0 prev_content;
          new_attachments = find_attachment_urls 0 (m_content m);
          path_ids = map attachment_url_to_path_id (filter (\<lambda>x. x \<notin> set new_attachments) prev_attachments);
          to_add = filter (\<lambda>x. x \<notin> set prev_attachments) new_attachments in
      andthen (modify_db (\<lambda>d. d\<lparr>attachments := map (\<lambda>a. if at_path_id a \<in> set path_ids
                 then a\<lparr>at_messages := filter (\<lambda>i. i \<noteq> m_id m) (at_messages a)\<rparr> else a) (attachments d)\<rparr>))
        (if to_add \<noteq> [] then do_claim_attachments m else ret ()))"

definition edit_content ::
  "send_env \<Rightarrow> message \<Rightarrow> rendered_message \<Rightarrow> string \<Rightarrow> string option \<Rightarrow> (message \<times> pydict \<times> pydict) act" where
  "edit_content E m r content rendered_content =
     (let m' = m\<lparr>m_content := content, m_rendered_content := rendered_content,
                 m_rendered_content_version := Some (bugdown_version (se_render E))\<rparr>;
          event = [(''orig_content'', PStr (m_content m)), (''orig_rendered_content'', of_opt PStr (m_rendered_content m)),
            (''content'', PStr content), (''rendered_content'', of_opt PStr rendered_content),
            (''prev_rendered_content_version'', of_opt PInt (m_rendered_content_version m'))];
          hist = [(''prev_content'', PStr (m_content m)), (''prev_rendered_content'', of_opt PStr (m_rendered_content m)),
            (''prev_rendered_content_version'', of_opt PInt (m_rendered_content_version m))] in
      andthen (modify_db (update_user_message_flags (m_id m) r))
      (andthen (if content_has_attachment (m_content m) \<or> content_has_attachment (m_content m')
                then check_attachment_reference_change (m_content m) m' else ret ())
        (ret (m', event, hist))))"

text \<open>The messages that a change of topic reaches, besides the edited one.\<close>

definition propagate_query :: "string \<Rightarrow> message \<Rightarrow> string \<Rightarrow> rat \<Rightarrow> message \<Rightarrow> bool" where
  "propagate_query propagate_mode m orig_subject now x \<longleftrightarrow>
     m_recipient x = m_recipient m \<and> m_subject x = orig_subject \<and>
     (propagate_mode = ''change_all'' \<longrightarrow> m_id x \<noteq> m_id m \<and> now - 172800 \<le> m_pub_date x \<and> m_pub_date x \<le> now) \<and>
     (propagate_mode = ''change_later'' \<longrightarrow> m_id x > m_id m)"

definition edit_topic ::
  "send_env \<Rightarrow> message \<Rightarrow> string \<Rightarrow> string \<Rightarrow> (message \<times> message list \<times> pydict \<times> pydict) act" where
  "edit_topic E m subject propagate_mode =
     (let orig_subject = m_subject m;
          subject = truncate_topic subject;
          m' = m\<lparr>m_subject := subject\<rparr> in
      seq (query (message_recipient m)) (\<lambda>rc.
      seq (query (sender_realm_id m)) (\<lambda>realm_id.
      seq timezone_now (\<lambda>now.
      let event = [(''orig_subject'', PStr orig_subject), (''propagate_mode'', PStr propagate_mode),
            (''stream_id'', PInt (rc_type_id rc)), (''subject'', PStr subject),
            (''subject_links'', subject_links (se_render E) realm_id subject)];
          hist = [(''prev_subject'', PStr orig_subject)];
          p = propagate_query propagate_mode m orig_subject now in
      if propagate_mode \<in> set [''change_later'', ''change_all''] then
        seq (lookup (\<lambda>d. filter p (messages d))) (\<lambda>found.
        andthen (modify_db (\<lambda>d. d\<lparr>messages := map (\<lambda>x. if p x then x\<lparr>m_subject := subject\<rparr> else x) (messages d)\<rparr>))
          (ret (m', map (\<lambda>x. x\<lparr>m_subject := subject\<rparr>) found, event, hist)))
      else ret (m', [], event, hist)))))"

definition stamp_edit :: "(pyval \<Rightarrow> string) \<Rightarrow> pyval list \<Rightarrow> pydict \<Rightarrow> rat \<Rightarrow> message \<Rightarrow> message" where
  "stamp_edit dumps edit_history entry now m =
     m\<lparr>m_last_edit_time := Some now, m_edit_history := Some (dumps (PList (PDict entry # edit_history)))\<rparr>"

definition save_edited :: "message \<Rightarrow> message \<Rightarrow> message" where
  "save_edited m x = x\<lparr>m_subject := m_subject m, m_content := m_content m, m_rendered_content := m_rendered_content m,
     m_rendered_content_version := m_rendered_content_version m, m_last_edit_time := m_last_edit_time m,
     m_edit_history := m_edit_history m\<rparr>"

definition do_update_message ::
  "send_env \<Rightarrow> (pyval \<Rightarrow> string) \<Rightarrow> user_profile \<Rightarrow> message \<Rightarrow> rendered_message \<Rightarrow> string option \<Rightarrow> string \<Rightarrow>
   string option \<Rightarrow> string option \<Rightarrow> nat act" where
  "do_update_message E dumps u m r subject propagate_mode content rendered_content = atomic
     (seq (query (\<lambda>_. edit_history_of E m)) (\<lambda>edit_history.
      seq (case content of None \<Rightarrow> ret (m, [], []) | Some c \<Rightarrow> edit_content E m r c rendered_content) (\<lambda>(m, event1, hist1).
      seq (case subject of None \<Rightarrow> ret (m, [], [], []) | Some t \<Rightarrow> edit_topic E m t propagate_mode) (\<lambda>(m, others, event2, hist2).
      seq timezone_now (\<lambda>now.
      let timestamp = datetime_to_timestamp now;
          m = stamp_edit dumps edit_history
            ((''user_id'', PInt (u_id u)) # hist1 @ hist2 @ [(''timestamp'', PInt timestamp)]) now m in
      andthen (save_message (m_id m) (save_edited m))
      (seq (update_to_dict_cache E (m # others)) (\<lambda>ids.
       seq (lookup (message_row_infos (m_id m))) (\<lambda>infos.
       andthen (send_event ([(''type'', PStr ''update_message''), (''sender'', PStr (u_email u)),
            (''user_id'', PInt (u_id u)), (''message_id'', PInt (m_id m))] @ event1 @ event2 @
            [(''edit_timestamp'', PInt timestamp), (''message_ids'', PList (map PInt ids))]) infos)
         (ret (length (m # others)))))))))))"

section \<open>The presentation of the edit history\<close>

text \<open>The loop goes from the newest edit back, carrying the content and the topic before the edit.\<close>

record version =
  v_content :: pyval
  v_rendered :: pyval
  v_topic :: pyval

definition fill_edit_history_entry :: "(pyval \<Rightarrow> pyval \<Rightarrow> pyerr + string) \<Rightarrow> version \<Rightarrow> pydict \<Rightarrow> pyerr + version \<times> pydict" where
  "fill_edit_history_entry html_differences v entry =
     (let entry = dset ''topic'' (v_topic v) entry;
          (v, entry) = (case map_of entry ''prev_subject'' of
              None \<Rightarrow> (v, entry)
            | Some t \<Rightarrow> (v\<lparr>v_topic := t\<rparr>, ddel ''prev_subject'' (dset ''prev_topic'' t entry)));
          rendered = v_rendered v;
          entry = dset ''rendered_content'' rendered (dset ''content'' (v_content v) entry) in
      case map_of entry ''prev_content'' of
        None \<Rightarrow> Inr (v, entry)
      | Some prev_content \<Rightarrow>
          if \<not> dhas entry ''prev_rendered_content_version'' then Inl (KeyError ''prev_rendered_content_version'')
          else
            let entry = ddel ''prev_rendered_content_version'' entry in
            ebind (dget entry ''prev_rendered_content'') (\<lambda>prev_rendered_content.
            ebind (html_differences prev_rendered_content rendered) (\<lambda>diff.
              Inr (v\<lparr>v_content := prev_content, v_rendered := prev_rendered_content\<rparr>,
                   dset ''content_html_diff'' (PStr diff) entry))))"

fun fill_edit_history_loop ::
  "(pyval \<Rightarrow> pyval \<Rightarrow> pyerr + string) \<Rightarrow> version \<Rightarrow> pydict list \<Rightarrow> pyerr + version \<times> pydict list" where
  "fill_edit_history_loop df v [] = Inr (v, [])"
| "fill_edit_history_loop df v (e # es) =
     ebind (fill_edit_history_entry df v e) (\<lambda>(v, e).
     ebind (fill_edit_history_loop df v es) (\<lambda>(v, es). Inr (v, e # es)))"

definition fill_edit_history_entries ::
  "(pyval \<Rightarrow> pyval \<Rightarrow> pyerr + string) \<Rightarrow> pydict list \<Rightarrow> message \<Rightarrow> pyerr + pydict list" where
  "fill_edit_history_entries df message_history m =
     (case m_last_edit_time m of
        None \<Rightarrow> Inl (OtherError ''AttributeError'')
      | Some t \<Rightarrow>
          ebind (case message_history of [] \<Rightarrow> Inl IndexError | e # _ \<Rightarrow> dget e ''timestamp'') (\<lambda>newest.
          if newest \<noteq> PInt (datetime_to_timestamp t) then Inl (AssertionError [])
          else
            ebind (fill_edit_history_loop df
              \<lparr>v_content = PStr (m_content m), v_rendered = of_opt PStr (m_rendered_content m), v_topic = PStr (m_subject m)\<rparr>
              message_history) (\<lambda>(v, es).
              Inr (es @ [[(''topic'', v_topic v), (''content'', v_content v), (''rendered_content'', v_rendered v),
                (''timestamp'', PInt (datetime_to_timestamp (m_pub_date m))), (''user_id'', PInt (m_sender m))]]))))"

definition get_message_edit_history ::
  "send_env \<Rightarrow> (pyval \<Rightarrow> pyval \<Rightarrow> pyerr + string) \<Rightarrow> user_profile \<Rightarrow> int \<Rightarrow> db \<Rightarrow> pyerr + pydict" where
  "get_message_edit_history E df u message_id d =
     ebind (the_realm (u_realm u) d) (\<lambda>r.
     if \<not> rm_allow_edit_history r then Inl (JsonableError ''Message edit history is disabled in this organization'')
     else
       ebind (access_message u message_id d) (\<lambda>(m, _).
       ebind (the_some (TypeError ''Expected String or Unicode'') (m_edit_history m)) (\<lambda>h.
       ebind (json_loads (se_render E) h) (\<lambda>v.
       ebind (as_list v) (\<lambda>l.
       ebind (emap as_dict l) (\<lambda>message_history.
       ebind (fill_edit_history_entries df message_history m) (\<lambda>message_history.
         Inr [(''message_history'', PList (map PDict (rev message_history)))])))))))"

section \<open>The view of an edit\<close>

definition may_edit :: "user_profile \<Rightarrow> message \<Rightarrow> string option \<Rightarrow> bool" where
  "may_edit u m content \<longleftrightarrow>
     (if m_sender m = u_id u then True
      else content = None \<and> (m_subject m = ''(no topic)'' \<or> u_is_realm_admin u))"

definition edited_content :: "string \<Rightarrow> string" where
  "edited_content content =
     (let content = str_strip content; content = (if content = [] then ''(deleted)'' else content) in truncate_body content)"

definition too_late :: "realm \<Rightarrow> message \<Rightarrow> rat \<Rightarrow> bool" where
  "too_late r m now \<longleftrightarrow> rm_message_content_edit_limit_seconds r > 0 \<and>
     now - m_pub_date m > of_int (rm_message_content_edit_limit_seconds r + 20)"

definition no_rendering :: rendered_message where
  "no_rendering = \<lparr>r_content = [], r_mentions_wildcard = False, r_mentions_user_ids = [], r_alert_words = [],
     r_links_for_preview = [], r_is_me_message = False, r_user_ids_with_alert_words = []\<rparr>"

definition message_users :: "int \<Rightarrow> db \<Rightarrow> int list" where
  "message_users mid d =
     (let ids = map um_user_profile (filter (\<lambda>um. um_message um = mid \<and> \<not> has_flag HISTORICAL um) (user_messages d))
      in map u_id (filter (\<lambda>u. u_id u \<in> set ids) (users d)))"

definition edit_rendering :: "send_env \<Rightarrow> user_profile \<Rightarrow> message \<Rightarrow> string option \<Rightarrow> rendered_message option act" where
  "edit_rendering E u m content =
     (case content of
        None \<Rightarrow> ret None
      | Some c \<Rightarrow> seq (lookup (message_users (m_id m))) (\<lambda>us.
          seq (query (render_incoming_message E m c us (u_realm u))) (\<lambda>rendering. ret (Some rendering))))"

definition queue_edit_links :: "send_env \<Rightarrow> user_profile \<Rightarrow> message \<Rightarrow> string option \<Rightarrow> rendered_message option \<Rightarrow> unit act" where
  "queue_edit_links E u m content rendering =
     (case rendering of
        None \<Rightarrow> ret ()
      | Some x \<Rightarrow>
          if r_links_for_preview x = [] then ret ()
          else seq (query (\<lambda>d. ebind (sender_realm_id m d) (\<lambda>i. the_realm i d))) (\<lambda>sender_realm.
            if INLINE_URL_EMBED_PREVIEW E \<and> rm_inline_url_embed_preview sender_realm
            then queue_json_publish ''embed_links'' [(''message_id'', PInt (m_id m)),
              (''message_content'', of_opt PStr content), (''message_realm_id'', PInt (u_realm u)),
              (''urls'', PList (map PStr (r_links_for_preview x)))]
            else ret ()))"

definition apply_edit ::
  "send_env \<Rightarrow> (pyval \<Rightarrow> string) \<Rightarrow> user_profile \<Rightarrow> message \<Rightarrow> string option \<Rightarrow> string \<Rightarrow> string option \<Rightarrow> unit act" where
  "apply_edit E dumps u m subject propagate_mode content =
     seq (edit_rendering E u m content) (\<lambda>rendering.
     seq (do_update_message E dumps u m (case rendering of None \<Rightarrow> no_rendering | Some x \<Rightarrow> x)
            subject propagate_mode content (map_option r_content rendering)) (\<lambda>number_changed.
       queue_edit_links E u m content rendering))"

definition update_message_backend ::
  "send_env \<Rightarrow> (pyval \<Rightarrow> string) \<Rightarrow> user_profile \<Rightarrow> int \<Rightarrow> string option \<Rightarrow> string \<Rightarrow> string option \<Rightarrow> unit act" where
  "update_message_backend E dumps u message_id subject propagate_mode content =
     seq (query (the_realm (u_realm u))) (\<lambda>r.
     if \<not> rm_allow_message_editing r then raise (JsonableError ''Your organization has turned off message editing'')
     else
       seq (query (access_message u message_id)) (\<lambda>(m, _).
       if \<not> may_edit u m content then raise (JsonableError ''You don't have permission to edit this message'')
       else
         seq timezone_now (\<lambda>now.
         if content \<noteq> None \<and> too_late r m now then raise (JsonableError ''The time limit for editing this message has past'')
         else if subject = None \<and> content = None then raise (JsonableError ''Nothing to change'')
         else
           let subject = map_option str_strip subject in
           if subject = Some [] then raise (JsonableError ''Topic can't be empty'')
           else apply_edit E dumps u m subject propagate_mode (map_option edited_content content))))"

section \<open>Deletion and the archive\<close>

definition get_realm_expired_messages :: "realm \<Rightarrow> int \<Rightarrow> rat \<Rightarrow> db \<Rightarrow> (int \<times> message list) option" where
  "get_realm_expired_messages r retention_days now d =
     (let expired_date = now - of_int retention_days * 86400;
          in_realm = (\<lambda>m. db_exists (\<lambda>u. u_id u = m_sender m \<and> u_realm u = rm_id r) (users d));
          expired = sort_key m_id (filter (\<lambda>m. in_realm m \<and> m_pub_date m < expired_date) (messages d))
      in if expired = [] then None else Some (rm_id r, expired))"

definition get_expired_messages :: "rat \<Rightarrow> db \<Rightarrow> (int \<times> message list) list" where
  "get_expired_messages now d =
     concat (map (\<lambda>r. case rm_message_retention_days r of
         None \<Rightarrow> []
       | Some days \<Rightarrow> (case get_realm_expired_messages r days now d of None \<Rightarrow> [] | Some x \<Rightarrow> [x]))
       (sort_key rm_string_id (filter (\<lambda>r. \<not> rm_deactivated r) (realms d))))"

definition move_attachment_message_to_archive_by_message :: "int \<Rightarrow> db \<Rightarrow> db" where
  "move_attachment_message_to_archive_by_message mid d =
     d\<lparr>archived_attachments := map (\<lambda>(a, t).
         if db_exists (\<lambda>x. at_id x = at_id a \<and> mid \<in> set (at_messages x)) (attachments d) \<and> mid \<notin> set (at_messages a)
         then (a\<lparr>at_messages := at_messages a @ [mid]\<rparr>, t) else (a, t)) (archived_attachments d)\<rparr>"

text \<open>Rows are archived once: the ids of the archive are those of the rows, which a reader and a message determine.\<close>

definition archive_user_messages :: "int \<Rightarrow> rat \<Rightarrow> db \<Rightarrow> db" where
  "archive_user_messages mid now d =
     d\<lparr>archived_user_messages := archived_user_messages d @ map (\<lambda>um. (um, now)) (filter (\<lambda>um. um_message um = mid \<and>
         \<not> db_exists (\<lambda>(x, _). um_user_profile x = um_user_profile um \<and> um_message x = um_message um)
            (archived_user_messages d)) (user_messages d))\<rparr>"

definition archive_attachments :: "int \<Rightarrow> rat \<Rightarrow> db \<Rightarrow> db" where
  "archive_attachments mid now d =
     d\<lparr>archived_attachments := archived_attachments d @ map (\<lambda>a. (a\<lparr>at_messages := []\<rparr>, now)) (filter (\<lambda>a.
         mid \<in> set (at_messages a) \<and> \<not> db_exists (\<lambda>(x, _). at_id x = at_id a) (archived_attachments d)) (attachments d))\<rparr>"

text \<open>Deleting a message deletes what refers to it.\<close>

definition delete_message_cascade :: "int \<Rightarrow> db \<Rightarrow> db" where
  "delete_message_cascade mid d =
     d\<lparr>messages := filter (\<lambda>m. m_id m \<noteq> mid) (messages d),
       user_messages := filter (\<lambda>um. um_message um \<noteq> mid) (user_messages d),
       reactions := filter (\<lambda>x. re_message x \<noteq> mid) (reactions d),
       attachments := map (\<lambda>a. a\<lparr>at_messages := filter (\<lambda>i. i \<noteq> mid) (at_messages a)\<rparr>) (attachments d)\<rparr>"

definition delete_archived_attachments :: "int \<Rightarrow> db \<Rightarrow> db" where
  "delete_archived_attachments mid d =
     d\<lparr>attachments := filter (\<lambda>a. \<not> (at_messages a = [] \<and>
         db_exists (\<lambda>(x, _). at_id x = at_id a \<and> mid \<in> set (at_messages x)) (archived_attachments d))) (attachments d)\<rparr>"

definition move_message_to_archive :: "int \<Rightarrow> unit act" where
  "move_message_to_archive mid = atomic
     (seq (query (\<lambda>d. case filter (\<lambda>m. m_id m = mid) (messages d) of [] \<Rightarrow> Inl (DoesNotExist ''Message'') | m # _ \<Rightarrow> Inr m)) (\<lambda>msg.
      seq timezone_now (\<lambda>now.
      andthen (modify_db (\<lambda>d. d\<lparr>archived_messages := archived_messages d @ [(msg, now)]\<rparr>))
      (andthen (modify_db (archive_user_messages mid now))
      (andthen (modify_db (archive_attachments mid now))
      (andthen (modify_db (move_attachment_message_to_archive_by_message mid))
      (andthen (seq (query (\<lambda>d. db_get ''Message'' (\<lambda>m. m_id m = mid) (messages d))) (\<lambda>_.
                  modify_db (delete_message_cascade mid)))
        (modify_db (delete_archived_attachments mid)))))))))"

definition do_delete_message :: "user_profile \<Rightarrow> message \<Rightarrow> unit act" where
  "do_delete_message u m =
     seq (lookup (message_row_user_ids (m_id m))) (\<lambda>ids.
     andthen (move_message_to_archive (m_id m))
       (send_event [(''type'', PStr ''delete_message''), (''sender'', PStr (u_email u)), (''message_id'', PInt (m_id m))]
         (map (\<lambda>i. PDict [(''id'', PInt i)]) ids)))"

definition delete_message_backend :: "user_profile \<Rightarrow> int \<Rightarrow> unit act" where
  "delete_message_backend u message_id =
     seq (query (access_message u message_id)) (\<lambda>(m, _).
       if \<not> u_is_realm_admin u then raise (JsonableError ''You don't have permission to edit this message'')
       else do_delete_message u m)"

definition json_fetch_raw_message :: "user_profile \<Rightarrow> int \<Rightarrow> db \<Rightarrow> pyerr + pydict" where
  "json_fetch_raw_message u message_id d =
     ebind (access_message u message_id d) (\<lambda>(m, _). Inr [(''raw_content'', PStr (m_content m))])"

end
