(* ===== verification/ClientState.thy ===== *)
theory ClientState
  imports MessageEdit Activity
begin

text \<open>
  The state that a client registers with (\<open>zerver/lib/events.py\<close>): \<open>apply_event\<close> and
  \<open>apply_events\<close>, which bring the fetched state up to date with the events that came in
  meanwhile. The state is the dictionary of the code, except that its \<open>unread_msgs\<close> is the
  record of \<open>Messages\<close>.
\<close>

record client_state =
  cs_values :: pydict
  cs_unread :: "unread_msgs option"

type_synonym state_step = "client_state \<Rightarrow> pyerr + client_state"

section \<open>Lists of dictionaries in the state\<close>

definition the_unread :: "client_state \<Rightarrow> pyerr + unread_msgs" where
  "the_unread st = the_some (KeyError ''unread_msgs'') (cs_unread st)"

definition set_value :: "string \<Rightarrow> pyval \<Rightarrow> client_state \<Rightarrow> client_state" where
  "set_value k v st = st\<lparr>cs_values := dset k v (cs_values st)\<rparr>"

definition state_dicts :: "string \<Rightarrow> client_state \<Rightarrow> pyerr + pydict list" where
  "state_dicts k st = ebind (get_list (cs_values st) k) (emap as_dict)"

definition set_dicts :: "string \<Rightarrow> pydict list \<Rightarrow> client_state \<Rightarrow> client_state" where
  "set_dicts k ds = set_value k (PList (map PDict ds))"

definition on_dicts :: "string \<Rightarrow> (pydict list \<Rightarrow> pyerr + pydict list) \<Rightarrow> state_step" where
  "on_dicts k f st = ebind (state_dicts k st) (\<lambda>ds. ebind (f ds) (\<lambda>ds'. Inr (set_dicts k ds' st)))"

definition event_dicts :: "pydict \<Rightarrow> string \<Rightarrow> pyerr + pydict list" where
  "event_dicts event k = ebind (get_list event k) (emap as_dict)"

text \<open>\<open>[x for x in l if p(x)]\<close>, where \<open>p\<close> may raise.\<close>

fun efilter :: "('a \<Rightarrow> pyerr + bool) \<Rightarrow> 'a list \<Rightarrow> pyerr + 'a list" where
  "efilter p [] = Inr []"
| "efilter p (x # xs) = ebind (p x) (\<lambda>b. ebind (efilter p xs) (\<lambda>ys. Inr (if b then x # ys else ys)))"

text \<open>\<open>for x in l: if p(x): change x\<close>\<close>

definition update_where :: "('a \<Rightarrow> pyerr + bool) \<Rightarrow> ('a \<Rightarrow> pyerr + 'a) \<Rightarrow> 'a list \<Rightarrow> pyerr + 'a list" where
  "update_where p f = emap (\<lambda>x. ebind (p x) (\<lambda>b. if b then f x else Inr x))"

definition lower_name :: "pydict \<Rightarrow> pyerr + string" where
  "lower_name x = ebind (get_str x ''name'') (\<lambda>n. Inr (str_lower n))"

definition sort_by_name :: "pydict list \<Rightarrow> pyerr + pydict list" where
  "sort_by_name ds = ebind (emap (\<lambda>x. ebind (get_str x ''name'') (\<lambda>n. Inr (points n, x))) ds) (\<lambda>l.
     Inr (map snd (sort_key fst l)))"

definition has_value :: "pydict \<Rightarrow> string \<Rightarrow> pyval \<Rightarrow> pyerr + bool" where
  "has_value x k v = ebind (dget x k) (\<lambda>w. Inr (w = v))"

section \<open>Unread messages\<close>

definition drop_unread_id :: "int \<Rightarrow> ('k \<times> int list) list \<Rightarrow> ('k \<times> int list) list" where
  "drop_unread_id i threads = filter (\<lambda>(k, ids). ids \<noteq> []) (map (\<lambda>(k, ids). (k, remove1 i ids)) threads)"

definition remove_message_id_from_unread_mgs :: "int \<Rightarrow> unread_msgs \<Rightarrow> unread_msgs" where
  "remove_message_id_from_unread_mgs i un =
     un\<lparr>pms := drop_unread_id i (pms un), unread_streams := drop_unread_id i (unread_streams un),
        huddles := drop_unread_id i (huddles un), mentions := remove1 i (mentions un)\<rparr>"

definition on_unread :: "(unread_msgs \<Rightarrow> pyerr + unread_msgs) \<Rightarrow> state_step" where
  "on_unread f st = ebind (the_unread st) (\<lambda>un. ebind (f un) (\<lambda>un'. Inr (st\<lparr>cs_unread := Some un'\<rparr>)))"

text \<open>A new topic of a message renames the unread conversation of the old one.\<close>

definition rename_unread_topic :: "int \<Rightarrow> string \<Rightarrow> string \<Rightarrow> unread_msgs \<Rightarrow> unread_msgs" where
  "rename_unread_topic stream_id orig_subject subject un =
     un\<lparr>unread_streams := map (\<lambda>((i, topic), ids). (if i = stream_id \<and> topic = orig_subject then (i, subject) else (i, topic), ids))
         (unread_streams un)\<rparr>"

text \<open>The part of the message of an event that the update reads.\<close>

definition event_message_of :: "pydict \<Rightarrow> pyerr + event_message" where
  "event_message_of m =
     ebind (get_int m ''id'') (\<lambda>i. ebind (get_str m ''type'') (\<lambda>ty. ebind (get_int m ''sender_id'') (\<lambda>sender.
     ebind (get_str m ''subject'') (\<lambda>subject. ebind (get_bool m ''is_mentioned'') (\<lambda>ment.
     ebind (if ty = ''stream'' then get_int m ''stream_id'' else Inr 0) (\<lambda>stream_id.
     ebind (if ty = ''private'' then ebind (event_dicts m ''display_recipient'') (emap (\<lambda>x. get_int x ''id'')) else Inr []) (\<lambda>us.
       Inr \<lparr>em_id = i, em_type = ty, em_sender_id = sender, em_display_recipient = us, em_stream_id = stream_id,
            em_subject = subject, em_is_mentioned = ment\<rparr>)))))))"

definition max_message_id :: "user_profile \<Rightarrow> db \<Rightarrow> int" where
  "max_message_id u d =
     (let ids = map m_id (filter (\<lambda>m. db_exists (\<lambda>um. um_user_profile um = u_id u \<and> um_message um = m_id m) (user_messages d)) (messages d))
      in if ids = [] then -1 else foldl max (hd ids) (tl ids))"

section \<open>Bots and people\<close>

definition owned_bots :: "user_profile \<Rightarrow> bool \<Rightarrow> db \<Rightarrow> user_profile list" where
  "owned_bots u include_all_realm_bots_if_admin d =
     filter (\<lambda>b. u_realm b = u_realm u \<and> u_is_bot b \<and>
       ((u_is_realm_admin u \<and> include_all_realm_bots_if_admin) \<or> u_bot_owner b = Some (u_id u))) (users d)"

definition stream_name_of :: "int option \<Rightarrow> db \<Rightarrow> pyerr + pyval" where
  "stream_name_of i d = (case i of None \<Rightarrow> Inr PNone
     | Some j \<Rightarrow> ebind (db_get ''Stream'' (\<lambda>s. st_id s = j) (streams d)) (\<lambda>s. Inr (PStr (st_name s))))"

definition bot_dict :: "render_env \<Rightarrow> db \<Rightarrow> user_profile \<Rightarrow> pyerr + pydict" where
  "bot_dict R d b =
     ebind (stream_name_of (u_default_sending_stream b) d) (\<lambda>sending.
     ebind (stream_name_of (u_default_events_register_stream b) d) (\<lambda>register.
     ebind (case u_bot_owner b of None \<Rightarrow> Inr PNone
            | Some i \<Rightarrow> ebind (get_user_profile_by_id i d) (\<lambda>x. Inr (PStr (u_email x)))) (\<lambda>owner.
       Inr [(''email'', PStr (u_email b)), (''user_id'', PInt (u_id b)), (''full_name'', PStr (u_full_name b)),
            (''bot_type'', of_opt PInt (u_bot_type b)), (''is_active'', PBool (u_is_active b)), (''api_key'', PStr (u_api_key b)),
            (''default_sending_stream'', sending), (''default_events_register_stream'', register),
            (''default_all_public_streams'', PBool (u_default_all_public_streams b)), (''owner'', owner),
            (''avatar_url'', PStr (avatar_url R b False))])))"

definition get_owned_bot_dicts :: "render_env \<Rightarrow> user_profile \<Rightarrow> bool \<Rightarrow> db \<Rightarrow> pyerr + pydict list" where
  "get_owned_bot_dicts R u include_all d = emap (bot_dict R d) (owned_bots u include_all d)"

text \<open>The event of a changed person, on the fields about the user itself and then on the list of people.\<close>

definition set_if :: "bool \<Rightarrow> string \<Rightarrow> pydict \<Rightarrow> string \<Rightarrow> state_step" where
  "set_if b k person f st = (if b then ebind (dget person f) (\<lambda>v. Inr (set_value k v st)) else Inr st)"

definition own_fields :: "user_profile \<Rightarrow> pydict \<Rightarrow> state_step" where
  "own_fields u person st =
     ebind (has_value person ''user_id'' (PInt (u_id u))) (\<lambda>own.
     let avatar = own \<and> dhas person ''avatar_url'' \<and> dhas (cs_values st) ''avatar_url'' in
     ebind (set_if avatar ''avatar_source'' person ''avatar_source'' st) (\<lambda>st.
     ebind (set_if avatar ''avatar_url'' person ''avatar_url'' st) (\<lambda>st.
     ebind (set_if avatar ''avatar_url_medium'' person ''avatar_url_medium'' st) (\<lambda>st.
       efold (\<lambda>st f. set_if (own \<and> dhas person f \<and> dhas (cs_values st) f) f person f st) st [''is_admin'', ''email'', ''full_name'']))))"

definition visible_person :: "pydict \<Rightarrow> pyerr + pydict" where
  "visible_person person =
     (if dhas person ''avatar_source'' then
        (if dhas person ''avatar_url_medium'' then Inr (ddel ''avatar_url_medium'' (ddel ''avatar_source'' person))
         else Inl (KeyError ''avatar_url_medium''))
      else Inr person)"

definition admin_bots :: "render_env \<Rightarrow> user_profile \<Rightarrow> db \<Rightarrow> pydict \<Rightarrow> pydict \<Rightarrow> state_step" where
  "admin_bots R u d person p st =
     (if dhas person ''is_admin'' \<and> dhas (cs_values st) ''realm_bots'' then
        ebind (has_value person ''email'' (PStr (u_email u))) (\<lambda>us.
        if \<not> us then Inr st
        else
          ebind (get_bool p ''is_admin'') (\<lambda>was. ebind (get_bool person ''is_admin'') (\<lambda>now_admin.
            if was \<and> \<not> now_admin then Inr (set_dicts ''realm_bots'' [] st)
            else if \<not> was \<and> now_admin then ebind (get_owned_bot_dicts R u True d) (\<lambda>bots. Inr (set_dicts ''realm_bots'' bots st))
            else Inr st)))
      else Inr st)"

definition update_person :: "render_env \<Rightarrow> user_profile \<Rightarrow> db \<Rightarrow> pydict \<Rightarrow> state_step" where
  "update_person R u d person st =
     ebind (own_fields u person st) (\<lambda>st.
     ebind (visible_person person) (\<lambda>person.
     ebind (dget person ''user_id'') (\<lambda>uid.
     ebind (state_dicts ''realm_users'' st) (\<lambda>people.
     ebind (efold (\<lambda>(st, done) p. ebind (has_value p ''user_id'' uid) (\<lambda>ours.
         if ours then ebind (admin_bots R u d person p st) (\<lambda>st. Inr (st, done @ [dupdate p person])) else Inr (st, done @ [p])))
       (st, []) people) (\<lambda>(st, people). Inr (set_dicts ''realm_users'' people st))))))"

definition apply_realm_user :: "render_env \<Rightarrow> user_profile \<Rightarrow> db \<Rightarrow> pydict \<Rightarrow> state_step" where
  "apply_realm_user R u d event st =
     ebind (get_dict event ''person'') (\<lambda>person.
     ebind (get_str event ''op'') (\<lambda>op1.
       if op1 = ''add'' then on_dicts ''realm_users'' (\<lambda>l. Inr (l @ [person])) st
       else if op1 = ''remove'' then
         ebind (dget person ''user_id'') (\<lambda>uid.
           on_dicts ''realm_users'' (efilter (\<lambda>x. ebind (has_value x ''user_id'' uid) (\<lambda>b. Inr (\<not> b)))) st)
       else if op1 = ''update'' then update_person R u d person st
       else Inr st))"

definition apply_realm_bot :: "db \<Rightarrow> pydict \<Rightarrow> state_step" where
  "apply_realm_bot d event st =
     ebind (get_str event ''op'') (\<lambda>op1.
       if op1 = ''add'' then ebind (get_dict event ''bot'') (\<lambda>bot. on_dicts ''realm_bots'' (\<lambda>l. Inr (l @ [bot])) st)
       else if op1 = ''remove'' then
         ebind (get_dict event ''bot'') (\<lambda>bot. ebind (dget bot ''email'') (\<lambda>email.
           on_dicts ''realm_bots'' (update_where (\<lambda>b. has_value b ''email'' email) (\<lambda>b. Inr (dset ''is_active'' (PBool False) b))) st))
       else if op1 = ''update'' then
         ebind (get_dict event ''bot'') (\<lambda>bot. ebind (dget bot ''email'') (\<lambda>email.
           on_dicts ''realm_bots'' (update_where (\<lambda>b. has_value b ''email'' email) (\<lambda>b.
             if dhas bot ''owner_id'' then ebind (get_int bot ''owner_id'') (\<lambda>i. ebind (get_user_profile_by_id i d) (\<lambda>x.
               Inr (dset ''owner'' (PStr (u_email x)) b)))
             else Inr (dupdate b bot))) st))
       else Inr st)"

section \<open>Streams and subscriptions\<close>

definition stream_created :: "bool \<Rightarrow> client_state \<Rightarrow> pydict \<Rightarrow> pyerr + client_state" where
  "stream_created include_subscribers st stream =
     ebind (dget stream ''invite_only'') (\<lambda>invite_only.
     ebind (if \<not> truthy invite_only then on_dicts ''never_subscribed'' (\<lambda>l. Inr (l @ [if include_subscribers
              then dset ''subscribers'' (PList []) stream else stream])) st else Inr st) (\<lambda>st.
       on_dicts ''streams'' (\<lambda>l. Inr (l @ [stream])) st))"

definition without_ids :: "pyval list \<Rightarrow> pydict list \<Rightarrow> pyerr + pydict list" where
  "without_ids ids = efilter (\<lambda>x. ebind (dget x ''stream_id'') (\<lambda>i. Inr (i \<notin> set ids)))"

definition apply_stream :: "bool \<Rightarrow> pydict \<Rightarrow> state_step" where
  "apply_stream include_subscribers event st =
     ebind (get_str event ''op'') (\<lambda>op1.
       if op1 = ''create'' then
         ebind (event_dicts event ''streams'') (\<lambda>sts.
         ebind (efold (stream_created include_subscribers) st sts) (\<lambda>st. on_dicts ''streams'' sort_by_name st))
       else if op1 = ''delete'' then
         ebind (event_dicts event ''streams'') (\<lambda>sts.
         ebind (emap (\<lambda>x. dget x ''stream_id'') sts) (\<lambda>ids.
         ebind (on_dicts ''streams'' (without_ids ids) st) (\<lambda>st. on_dicts ''never_subscribed'' (without_ids ids) st)))
       else if op1 = ''update'' then
         ebind (get_str event ''name'') (\<lambda>name. ebind (get_str event ''property'') (\<lambda>prop. ebind (dget event ''value'') (\<lambda>v.
         let named = (\<lambda>x. ebind (lower_name x) (\<lambda>n. Inr (n = str_lower name))) in
         ebind (on_dicts ''subscriptions'' (update_where named (\<lambda>x. Inr (dset prop v x))) st) (\<lambda>st.
           on_dicts ''streams'' (update_where named (\<lambda>x. Inr (if dhas x prop then dset prop v x else x))) st))))
       else if op1 = ''occupy'' then
         ebind (event_dicts event ''streams'') (\<lambda>sts. on_dicts ''streams'' (\<lambda>l. Inr (l @ sts)) st)
       else if op1 = ''vacate'' then
         ebind (event_dicts event ''streams'') (\<lambda>sts. ebind (emap (\<lambda>x. dget x ''stream_id'') sts) (\<lambda>ids.
           on_dicts ''streams'' (without_ids ids) st))
       else Inr st)"

text \<open>The subscribers in the event of new subscriptions: emails become ids, or they are left out.\<close>

definition added_subscription :: "bool \<Rightarrow> user_profile \<Rightarrow> db \<Rightarrow> pydict \<Rightarrow> pyerr + pydict" where
  "added_subscription include_subscribers u d x =
     (if include_subscribers then
        ebind (get_list x ''subscribers'') (\<lambda>emails.
        ebind (emap (\<lambda>e. ebind (as_str e) (\<lambda>email. ebind (get_user email (u_realm u) d) (\<lambda>v. Inr (PInt (u_id v))))) emails) (\<lambda>ids.
          Inr (dset ''subscribers'' (PList ids) x)))
      else if dhas x ''subscribers'' then Inr (ddel ''subscribers'' x) else Inl (KeyError ''subscribers''))"

definition not_named :: "string list \<Rightarrow> pydict list \<Rightarrow> pyerr + pydict list" where
  "not_named names = efilter (\<lambda>x. ebind (lower_name x) (\<lambda>n. Inr (n \<notin> set names)))"

definition add_subscriptions :: "bool \<Rightarrow> user_profile \<Rightarrow> db \<Rightarrow> pydict \<Rightarrow> state_step" where
  "add_subscriptions include_subscribers u d event st =
     ebind (event_dicts event ''subscriptions'') (\<lambda>subs.
     ebind (emap (added_subscription include_subscribers u d) subs) (\<lambda>subs.
     ebind (emap lower_name subs) (\<lambda>names.
     ebind (on_dicts ''subscriptions'' (\<lambda>l. Inr (l @ subs)) st) (\<lambda>st.
     ebind (on_dicts ''unsubscribed'' (not_named names) st) (\<lambda>st.
       on_dicts ''never_subscribed'' (not_named names) st)))))"

definition drop_subscriber :: "int \<Rightarrow> pydict \<Rightarrow> pyerr + pydict" where
  "drop_subscriber uid x = ebind (get_list x ''subscribers'') (\<lambda>l.
     Inr (dset ''subscribers'' (PList (filter (\<lambda>i. i \<noteq> PInt uid) l)) x))"

definition remove_state_subscriptions :: "bool \<Rightarrow> user_profile \<Rightarrow> pydict \<Rightarrow> state_step" where
  "remove_state_subscriptions include_subscribers u event st =
     ebind (event_dicts event ''subscriptions'') (\<lambda>subs.
     ebind (emap lower_name subs) (\<lambda>names.
     ebind (state_dicts ''subscriptions'' st) (\<lambda>current.
     ebind (efilter (\<lambda>x. ebind (lower_name x) (\<lambda>n. Inr (n \<in> set names))) current) (\<lambda>removed.
     ebind (if include_subscribers then emap (drop_subscriber (u_id u)) removed else Inr removed) (\<lambda>removed.
     ebind (on_dicts ''unsubscribed'' (\<lambda>l. Inr (l @ removed)) st) (\<lambda>st.
       on_dicts ''subscriptions'' (not_named names) st))))))"

definition add_peer :: "pyval list \<Rightarrow> int \<Rightarrow> pydict \<Rightarrow> pyerr + pydict" where
  "add_peer names uid x = ebind (dget x ''name'') (\<lambda>n.
     if n \<notin> set names then Inr x
     else ebind (get_list x ''subscribers'') (\<lambda>l.
       Inr (if PInt uid \<in> set l then x else dset ''subscribers'' (PList (l @ [PInt uid])) x)))"

definition remove_peer :: "pyval list \<Rightarrow> int \<Rightarrow> pydict \<Rightarrow> pyerr + pydict" where
  "remove_peer names uid x = ebind (dget x ''name'') (\<lambda>n.
     if n \<notin> set names then Inr x
     else ebind (get_list x ''subscribers'') (\<lambda>l.
       Inr (if PInt uid \<in> set l then dset ''subscribers'' (PList (remove1 (PInt uid) l)) x else x)))"

definition apply_subscription :: "bool \<Rightarrow> user_profile \<Rightarrow> db \<Rightarrow> pydict \<Rightarrow> state_step" where
  "apply_subscription include_subscribers u d event st =
     ebind (get_str event ''op'') (\<lambda>op1.
       if \<not> include_subscribers \<and> op1 \<in> set [''peer_add'', ''peer_remove''] then Inr st
       else if op1 = ''add'' then add_subscriptions include_subscribers u d event st
       else if op1 = ''remove'' then remove_state_subscriptions include_subscribers u event st
       else if op1 = ''update'' then
         ebind (get_str event ''name'') (\<lambda>name. ebind (get_str event ''property'') (\<lambda>prop. ebind (dget event ''value'') (\<lambda>v.
           on_dicts ''subscriptions'' (update_where (\<lambda>x. ebind (lower_name x) (\<lambda>n. Inr (n = str_lower name)))
             (\<lambda>x. Inr (dset prop v x))) st)))
       else if op1 = ''peer_add'' then
         ebind (get_int event ''user_id'') (\<lambda>uid. ebind (get_list event ''subscriptions'') (\<lambda>names.
         ebind (on_dicts ''subscriptions'' (emap (add_peer names uid)) st) (\<lambda>st.
           on_dicts ''never_subscribed'' (emap (add_peer names uid)) st)))
       else if op1 = ''peer_remove'' then
         ebind (get_int event ''user_id'') (\<lambda>uid. ebind (get_list event ''subscriptions'') (\<lambda>names.
           on_dicts ''subscriptions'' (emap (remove_peer names uid)) st))
       else Inr st)"

section \<open>Realms, presence and messages\<close>

text \<open>
  \<open>ee_now\<close> is the time and \<open>ee_realm\<close> the realm object that the request loaded together with its
  user, which a change of the realm meanwhile does not touch.
\<close>

record events_env =
  ee_send :: send_env
  ee_now :: rat
  ee_realm :: realm

definition copy_value :: "pydict \<Rightarrow> string \<Rightarrow> string \<Rightarrow> state_step" where
  "copy_value event k key st = ebind (dget event k) (\<lambda>v. Inr (set_value key v st))"

definition apply_realm_update :: "events_env \<Rightarrow> user_profile \<Rightarrow> pydict \<Rightarrow> state_step" where
  "apply_realm_update E u event st =
     ebind (get_str event ''property'') (\<lambda>prop.
     let field = ''realm_'' @ prop in
     ebind (copy_value event ''value'' field st) (\<lambda>st.
       if field \<in> set [''realm_create_stream_by_admins_only'', ''realm_waiting_period_threshold''] \<and> dhas (cs_values st) ''can_create_streams''
       then Inr (set_value ''can_create_streams'' (PBool (can_create_streams (ee_now E) u (ee_realm E))) st) else Inr st))"

definition realm_entry :: "client_state \<Rightarrow> string \<times> pyval \<Rightarrow> pyerr + client_state" where
  "realm_entry st kv =
     (case kv of (key, value) \<Rightarrow>
       let st = set_value (''realm_'' @ key) value st in
       if key = ''authentication_methods'' then
         ebind (as_dict value) (\<lambda>methods. ebind (dget methods ''Email'') (\<lambda>email.
           if truthy email then Inr (set_value ''realm_password_auth_enabled'' email st)
           else ebind (dget methods ''LDAP'') (\<lambda>ldap. Inr (set_value ''realm_password_auth_enabled'' ldap st))))
       else Inr st)"

definition apply_realm :: "events_env \<Rightarrow> user_profile \<Rightarrow> pydict \<Rightarrow> state_step" where
  "apply_realm E u event st =
     ebind (get_str event ''op'') (\<lambda>op1.
       if op1 = ''update'' then apply_realm_update E u event st
       else if op1 = ''update_dict'' then ebind (get_dict event ''data'') (efold realm_entry st)
       else Inr st)"

definition apply_presence :: "user_profile \<Rightarrow> db \<Rightarrow> pydict \<Rightarrow> state_step" where
  "apply_presence u d event st =
     ebind (get_str event ''email'') (\<lambda>email.
     ebind (get_user email (u_realm u) d) (\<lambda>v.
     ebind (get_status_dict_by_user v d) (\<lambda>statuses.
     ebind (the_some (KeyError email) (map_of statuses email)) (\<lambda>l.
     ebind (get_dict (cs_values st) ''presences'') (\<lambda>presences.
       Inr (set_value ''presences'' (PDict (dset email (presence_val l) presences)) st))))))"

definition apply_message :: "pydict \<Rightarrow> state_step" where
  "apply_message event st =
     ebind (get_int (cs_values st) ''max_message_id'') (\<lambda>old.
     ebind (get_dict event ''message'') (\<lambda>m.
     ebind (get_int m ''id'') (\<lambda>i.
     on_unread (\<lambda>un. ebind (event_message_of m) (apply_unread_message_event un))
       (set_value ''max_message_id'' (PInt (max old i)) st))))"

definition apply_update_message :: "pydict \<Rightarrow> state_step" where
  "apply_update_message event st =
     (if dhas event ''subject'' \<and> cs_unread st \<noteq> None then
        on_unread (\<lambda>un.
          if unread_streams un = [] then Inr un
          else ebind (get_int event ''stream_id'') (\<lambda>stream_id. ebind (get_str event ''orig_subject'') (\<lambda>orig_subject.
            ebind (get_str event ''subject'') (\<lambda>subject. Inr (rename_unread_topic stream_id orig_subject subject un))))) st
      else Inr st)"

definition apply_delete_message :: "user_profile \<Rightarrow> db \<Rightarrow> pydict \<Rightarrow> state_step" where
  "apply_delete_message u d event st =
     (let st = set_value ''max_message_id'' (PInt (max_message_id u d)) st in
      ebind (get_int event ''message_id'') (\<lambda>i. on_unread (\<lambda>un. Inr (remove_message_id_from_unread_mgs i un)) st))"

definition apply_flags :: "pydict \<Rightarrow> state_step" where
  "apply_flags event st =
     ebind (get_str event ''flag'') (\<lambda>flag.
     if flag = ''read'' then
       ebind (get_str event ''operation'') (\<lambda>operation.
       if operation = ''add'' then
         ebind (get_list event ''messages'') (\<lambda>ids. ebind (emap as_int ids) (\<lambda>ids.
           efold (\<lambda>st i. on_unread (\<lambda>un. Inr (remove_message_id_from_unread_mgs i un)) st) st ids))
       else Inr st)
     else Inr st)"

definition apply_realm_domains :: "pydict \<Rightarrow> state_step" where
  "apply_realm_domains event st =
     ebind (get_str event ''op'') (\<lambda>op1.
       if op1 = ''add'' then ebind (get_dict event ''realm_domain'') (\<lambda>x. on_dicts ''realm_domains'' (\<lambda>l. Inr (l @ [x])) st)
       else if op1 = ''change'' then
         ebind (get_dict event ''realm_domain'') (\<lambda>x. ebind (dget x ''domain'') (\<lambda>dom. ebind (dget x ''allow_subdomains'') (\<lambda>allow.
           on_dicts ''realm_domains'' (update_where (\<lambda>y. has_value y ''domain'' dom) (\<lambda>y. Inr (dset ''allow_subdomains'' allow y))) st)))
       else if op1 = ''remove'' then
         ebind (dget event ''domain'') (\<lambda>dom.
           on_dicts ''realm_domains'' (efilter (\<lambda>y. ebind (has_value y ''domain'' dom) (\<lambda>b. Inr (\<not> b)))) st)
       else Inr st)"

definition DISPLAY_SETTINGS :: "string list" where
  "DISPLAY_SETTINGS = [''default_language'', ''emoji_alt_code'', ''emojiset'', ''left_side_userlist'', ''timezone'',
     ''twenty_four_hour_time'', ''high_contrast_mode'']"

definition NOTIFICATION_SETTINGS :: "string list" where
  "NOTIFICATION_SETTINGS = [''enable_desktop_notifications'', ''enable_digest_emails'', ''enable_offline_email_notifications'',
     ''enable_offline_push_notifications'', ''enable_online_push_notifications'', ''enable_sounds'',
     ''enable_stream_desktop_notifications'', ''enable_stream_sounds'', ''pm_content_in_desktop_notifications'']"

definition apply_setting :: "string list \<Rightarrow> string \<Rightarrow> pydict \<Rightarrow> state_step" where
  "apply_setting known k event st =
     ebind (get_str event k) (\<lambda>name. if name \<notin> set known then Inl (AssertionError []) else copy_value event ''setting'' name st)"

section \<open>Events\<close>

definition apply_event :: "events_env \<Rightarrow> user_profile \<Rightarrow> bool \<Rightarrow> db \<Rightarrow> pydict \<Rightarrow> state_step" where
  "apply_event E u include_subscribers d event st =
     ebind (get_str event ''type'') (\<lambda>ty.
       if ty = ''message'' then apply_message event st
       else if ty = ''hotspots'' then copy_value event ''hotspots'' ''hotspots'' st
       else if ty = ''custom_profile_fields'' then copy_value event ''fields'' ''custom_profile_fields'' st
       else if ty = ''pointer'' then
         ebind (get_int (cs_values st) ''pointer'') (\<lambda>old. ebind (get_int event ''pointer'') (\<lambda>new.
           Inr (set_value ''pointer'' (PInt (max old new)) st)))
       else if ty = ''realm_user'' then apply_realm_user (se_render (ee_send E)) u d event st
       else if ty = ''realm_bot'' then apply_realm_bot d event st
       else if ty = ''stream'' then apply_stream include_subscribers event st
       else if ty = ''default_streams'' then copy_value event ''default_streams'' ''realm_default_streams'' st
       else if ty = ''realm'' then apply_realm E u event st
       else if ty = ''subscription'' then apply_subscription include_subscribers u d event st
       else if ty = ''presence'' then apply_presence u d event st
       else if ty = ''update_message'' then apply_update_message event st
       else if ty = ''delete_message'' then apply_delete_message u d event st
       else if ty = ''reaction'' then Inr st
       else if ty = ''typing'' then Inr st
       else if ty = ''update_message_flags'' then apply_flags event st
       else if ty = ''realm_domains'' then apply_realm_domains event st
       else if ty = ''realm_emoji'' then copy_value event ''realm_emoji'' ''realm_emoji'' st
       else if ty = ''alert_words'' then copy_value event ''alert_words'' ''alert_words'' st
       else if ty = ''muted_topics'' then copy_value event ''muted_topics'' ''muted_topics'' st
       else if ty = ''realm_filters'' then copy_value event ''realm_filters'' ''realm_filters'' st
       else if ty = ''update_display_settings'' then apply_setting DISPLAY_SETTINGS ''setting_name'' event st
       else if ty = ''update_global_notifications'' then apply_setting NOTIFICATION_SETTINGS ''notification_name'' event st
       else Inl (AssertionError (''Unexpected event type '' @ ty)))"

fun apply_events :: "events_env \<Rightarrow> user_profile \<Rightarrow> bool \<Rightarrow> string list option \<Rightarrow> db \<Rightarrow> pydict list \<Rightarrow> state_step" where
  "apply_events E u include_subscribers fetch_event_types d [] st = Inr st"
| "apply_events E u include_subscribers fetch_event_types d (event # events) st =
     (case fetch_event_types of
        None \<Rightarrow> ebind (apply_event E u include_subscribers d event st) (apply_events E u include_subscribers fetch_event_types d events)
      | Some types \<Rightarrow> ebind (get_str event ''type'') (\<lambda>ty.
          if ty \<notin> set types then apply_events E u include_subscribers fetch_event_types d events st
          else ebind (apply_event E u include_subscribers d event st) (apply_events E u include_subscribers fetch_event_types d events)))"

section \<open>Subscriptions of a user\<close>

definition stream_sub_rows :: "user_profile \<Rightarrow> db \<Rightarrow> (int \<times> subscription) list" where
  "stream_sub_rows u d = List.map_filter (\<lambda>x. if sub_user_profile x \<noteq> u_id u then None
     else map_option (\<lambda>r. (rc_type_id r, x)) (find (\<lambda>r. rc_id r = sub_recipient x \<and> rc_type r = STREAM) (recipients d)))
     (subscriptions d)"

definition subscribed_map :: "(int \<times> subscription) list \<Rightarrow> stream list \<Rightarrow> (int \<times> bool) list" where
  "subscribed_map rows all_streams =
     dupdate (dupdate [] (map (\<lambda>(i, x). (i, sub_active x)) rows))
       (map (\<lambda>st. (st_id st, False)) (filter (\<lambda>st. st_id st \<notin> fst ` set rows) all_streams))"

definition subscribers_entry :: "int list option \<Rightarrow> pydict" where
  "subscribers_entry ids = (case ids of None \<Rightarrow> [] | Some l \<Rightarrow> [(''subscribers'', PList (map PInt l))])"

definition own_stream_dict :: "send_env \<Rightarrow> (int \<Rightarrow> pyerr + int list option) \<Rightarrow> stream \<times> subscription \<Rightarrow> pyerr + pydict" where
  "own_stream_dict E subscriber_map p =
     (case p of (st, x) \<Rightarrow>
       ebind (subscriber_map (st_id st)) (\<lambda>subscribers.
       let subscribers = (if st_invite_only st = Some True \<and> \<not> sub_active x then None else subscribers) in
       Inr ([(''name'', PStr (st_name st)), (''in_home_view'', of_opt PBool (sub_in_home_view x)),
             (''invite_only'', of_opt PBool (st_invite_only st)), (''color'', PStr (sub_color x)),
             (''desktop_notifications'', PBool (sub_desktop_notifications x)),
             (''audible_notifications'', PBool (sub_audible_notifications x)), (''pin_to_top'', PBool (sub_pin_to_top x)),
             (''stream_id'', PInt (st_id st)), (''description'', PStr (st_description st)),
             (''email_address'', PStr (encode_email_address E st))] @ subscribers_entry subscribers)))"

definition never_stream_dict :: "(int \<Rightarrow> pyerr + int list option) \<Rightarrow> stream \<Rightarrow> pyerr + pydict" where
  "never_stream_dict subscriber_map st =
     ebind (subscriber_map (st_id st)) (\<lambda>subscribers.
       Inr ([(''name'', PStr (st_name st)), (''invite_only'', of_opt PBool (st_invite_only st)),
             (''stream_id'', PInt (st_id st)), (''description'', PStr (st_description st))] @ subscribers_entry subscribers))"

definition gather_subscriptions_helper ::
  "send_env \<Rightarrow> user_profile \<Rightarrow> bool \<Rightarrow> db \<Rightarrow> pyerr + pydict list \<times> pydict list \<times> pydict list" where
  "gather_subscriptions_helper E u include_subscribers d =
     (let rows = stream_sub_rows u d;
          all_streams = get_active_streams (u_realm u) d;
          known = List.map_filter (\<lambda>(i, x). map_option (\<lambda>st. (st, x)) (find (\<lambda>st. st_id st = i) all_streams)) rows in
      ebind (if include_subscribers
             then ebind (bulk_get_subscriber_user_ids all_streams u (subscribed_map rows all_streams) d) (\<lambda>m.
               Inr (\<lambda>i. ebind (the_some (KeyError (int_str i)) (map_of m i)) (\<lambda>l. Inr (Some l))))
             else Inr (\<lambda>i. Inr None)) (\<lambda>subscriber_map.
      ebind (emap (own_stream_dict E subscriber_map) (filter (\<lambda>(st, x). sub_active x) known)) (\<lambda>subscribed.
      ebind (emap (own_stream_dict E subscriber_map) (filter (\<lambda>(st, x). \<not> sub_active x) known)) (\<lambda>unsubscribed.
      ebind (the_realm (u_realm u) d) (\<lambda>r.
      let never = (if is_zephyr_mirror_realm r then []
                   else filter (\<lambda>st. st_id st \<notin> fst ` set rows \<and> st_invite_only st \<noteq> Some True) all_streams) in
      ebind (emap (never_stream_dict subscriber_map) never) (\<lambda>never_subscribed.
      ebind (sort_by_name subscribed) (\<lambda>subscribed.
      ebind (sort_by_name unsubscribed) (\<lambda>unsubscribed.
      ebind (sort_by_name never_subscribed) (\<lambda>never_subscribed.
        Inr (subscribed, unsubscribed, never_subscribed))))))))))"

section \<open>The initial state\<close>

definition get_next_hotspots :: "user_profile \<Rightarrow> db \<Rightarrow> pyval" where
  "get_next_hotspots u d =
     (let seen = map snd (filter (\<lambda>h. fst h = u_id u) (user_hotspots d));
          all = [(''click_to_reply'', ''Click anywhere on a message to reply.''),
            (''new_topic_botton'', ''Click the \"New topic\" button to start a new conversation.''),
            (''stream_settings'', ''Most discussion on Zulip happens in streams. Click here to create or join additional streams.'')]
      in PList (case filter (\<lambda>h. fst h \<notin> set seen) all of
           [] \<Rightarrow> []
         | (name, description) # _ \<Rightarrow> [PDict [(''name'', PStr name), (''description'', PStr description)]]))"

definition get_realm_user_dicts :: "render_env \<Rightarrow> user_profile \<Rightarrow> db \<Rightarrow> pydict list" where
  "get_realm_user_dicts R u d =
     map (\<lambda>x. [(''email'', PStr (u_email x)), (''user_id'', PInt (u_id x)), (''avatar_url'', PStr (avatar_url R x False)),
               (''is_admin'', PBool (u_is_realm_admin x)), (''is_bot'', PBool (u_is_bot x)),
               (''full_name'', PStr (u_full_name x)), (''timezone'', PStr (u_timezone x))])
       (filter (\<lambda>x. u_realm x = u_realm u \<and> u_is_active x) (users d))"

definition realm_property :: "realm \<Rightarrow> (string \<times> pyval) list" where
  "realm_property r =
     [(''add_emoji_by_admins_only'', PBool (rm_add_emoji_by_admins_only r)), (''allow_edit_history'', PBool (rm_allow_edit_history r)),
      (''create_stream_by_admins_only'', PBool (rm_create_stream_by_admins_only r)), (''default_language'', PStr (rm_default_language r)),
      (''description'', of_opt PStr (rm_description r)), (''email_changes_disabled'', PBool (rm_email_changes_disabled r)),
      (''invite_required'', PBool (rm_invite_required r)), (''invite_by_admins_only'', PBool (rm_invite_by_admins_only r)),
      (''inline_image_preview'', PBool (rm_inline_image_preview r)), (''inline_url_embed_preview'', PBool (rm_inline_url_embed_preview r)),
      (''mandatory_topics'', PBool (rm_mandatory_topics r)), (''message_retention_days'', of_opt PInt (rm_message_retention_days r)),
      (''name'', of_opt PStr (rm_name r)), (''name_changes_disabled'', PBool (rm_name_changes_disabled r)),
      (''restricted_to_domain'', PBool (rm_restricted_to_domain r)), (''waiting_period_threshold'', PInt (rm_waiting_period_threshold r))]"

definition user_setting :: "user_profile \<Rightarrow> (string \<times> pyval) list" where
  "user_setting u =
     [(''default_language'', PStr (u_default_language u)), (''emoji_alt_code'', PBool (u_emoji_alt_code u)),
      (''emojiset'', PStr (u_emojiset u)), (''left_side_userlist'', PBool (u_left_side_userlist u)),
      (''timezone'', PStr (u_timezone u)), (''twenty_four_hour_time'', PBool (u_twenty_four_hour_time u)),
      (''high_contrast_mode'', PBool (u_high_contrast_mode u))]"

definition notification_setting :: "user_profile \<Rightarrow> (string \<times> pyval) list" where
  "notification_setting u =
     [(''enable_desktop_notifications'', PBool (u_enable_desktop_notifications u)), (''enable_digest_emails'', PBool (u_enable_digest_emails u)),
      (''enable_offline_email_notifications'', PBool (u_enable_offline_email_notifications u)),
      (''enable_offline_push_notifications'', PBool (u_enable_offline_push_notifications u)),
      (''enable_online_push_notifications'', PBool (u_enable_online_push_notifications u)), (''enable_sounds'', PBool (u_enable_sounds u)),
      (''enable_stream_desktop_notifications'', PBool (u_enable_stream_desktop_notifications u)),
      (''enable_stream_sounds'', PBool (u_enable_stream_sounds u)),
      (''pm_content_in_desktop_notifications'', PBool (u_pm_content_in_desktop_notifications u))]"

text \<open>
  The parts that come from outside the model: profile fields, the attachments of the user, the
  authentication methods, icon and limits of the realm, the bots of all realms, the choices of
  emoji sets and the version.
\<close>

record fetch_env =
  fe_events :: events_env
  fe_emoji :: emoji_env
  outer_state :: "string \<Rightarrow> user_profile \<Rightarrow> pydict"

definition state_parts :: "fetch_env \<Rightarrow> user_profile \<Rightarrow> bool \<Rightarrow> rat \<Rightarrow> db \<Rightarrow> (string \<times> (unit \<Rightarrow> pyerr + pydict)) list" where
  "state_parts F u include_subscribers now d =
     (let E = ee_send (fe_events F); R = se_render E; rest = (\<lambda>k. outer_state F k u) in
     [(''alert_words'', \<lambda>_. ebind (json_loads R (u_alert_words u)) (\<lambda>v. Inr [(''alert_words'', v)])),
      (''custom_profile_fields'', \<lambda>_. Inr (rest ''custom_profile_fields'')),
      (''attachments'', \<lambda>_. Inr (rest ''attachments'')),
      (''hotspots'', \<lambda>_. Inr [(''hotspots'', get_next_hotspots u d)]),
      (''message'', \<lambda>_. Inr [(''max_message_id'', PInt (max_message_id u d))]),
      (''muted_topics'', \<lambda>_. ebind (json_loads R (u_muted_topics u)) (\<lambda>v. Inr [(''muted_topics'', v)])),
      (''pointer'', \<lambda>_. Inr [(''pointer'', PInt (u_pointer u))]),
      (''presence'', \<lambda>_. ebind (get_status_dict now u d) (\<lambda>l. Inr [(''presences'', PDict (map (\<lambda>(k, v). (k, presence_val v)) l))])),
      (''realm'', \<lambda>_. ebind (the_realm (u_realm u) d) (\<lambda>r.
         Inr (map (\<lambda>(k, v). (''realm_'' @ k, v)) (realm_property r) @
          [(''realm_allow_message_editing'', PBool (rm_allow_message_editing r)),
           (''realm_message_content_edit_limit_seconds'', PInt (rm_message_content_edit_limit_seconds r)),
           (''realm_icon_source'', PStr (rm_icon_source r)), (''realm_bot_domain'', PStr (get_bot_domain (se_settings E) r d)),
           (''realm_uri'', PStr (realm_uri (se_settings E) r)), (''realm_presence_disabled'', PBool (is_zephyr_mirror_realm r)),
           (''realm_show_digest_email'', PBool (rm_show_digest_email r)),
           (''realm_is_zephyr_mirror_realm'', PBool (is_zephyr_mirror_realm r)),
           (''realm_notifications_stream_id'', PInt (case rm_notifications_stream r of None \<Rightarrow> -1
              | Some i \<Rightarrow> if db_exists (\<lambda>s. st_id s = i \<and> \<not> st_deactivated s) (streams d) then i else -1))] @ rest ''realm''))),
      (''realm_domains'', \<lambda>_. ebind (the_realm (u_realm u) d) (\<lambda>r. Inr [(''realm_domains'',
         PList (map (\<lambda>(dom, sub). PDict [(''domain'', PStr dom), (''allow_subdomains'', PBool sub)]) (get_realm_domains r d)))])),
      (''realm_emoji'', \<lambda>_. ebind (get_realm_emoji (fe_emoji F) (u_realm u) d) (\<lambda>l. Inr [(''realm_emoji'', PDict (map emoji_entry l))])),
      (''realm_filters'', \<lambda>_. Inr [(''realm_filters'', PList (map (\<lambda>x. PList [PStr (rf_pattern x), PStr (rf_url_format_string x), PInt (rf_id x)])
         (filter (\<lambda>x. rf_realm x = u_realm u) (realm_filters d))))]),
      (''realm_user'', \<lambda>_. ebind (the_realm (u_realm u) d) (\<lambda>r.
         Inr ([(''realm_users'', PList (map PDict (get_realm_user_dicts R u d))), (''avatar_source'', PStr (u_avatar_source u)),
          (''avatar_url_medium'', PStr (avatar_url R u True)), (''avatar_url'', PStr (avatar_url R u False)),
          (''can_create_streams'', PBool (can_create_streams now u r)), (''is_admin'', PBool (u_is_realm_admin u)),
          (''user_id'', PInt (u_id u)), (''enter_sends'', of_opt PBool (u_enter_sends u)), (''email'', PStr (u_email u)),
          (''full_name'', PStr (u_full_name u))] @ rest ''realm_user''))),
      (''realm_bot'', \<lambda>_. ebind (get_owned_bot_dicts R u True d) (\<lambda>l. Inr [(''realm_bots'', PList (map PDict l))])),
      (''subscription'', \<lambda>_. ebind (gather_subscriptions_helper E u include_subscribers d) (\<lambda>(subscribed, unsubscribed, never_subscribed).
         Inr [(''subscriptions'', PList (map PDict subscribed)), (''unsubscribed'', PList (map PDict unsubscribed)),
              (''never_subscribed'', PList (map PDict never_subscribed))])),
      (''stream'', \<lambda>_. ebind (do_get_streams u True True False False d) (\<lambda>l. Inr [(''streams'', PList l)])),
      (''default_streams'', \<lambda>_. Inr [(''realm_default_streams'', PList (streams_to_dicts_sorted (get_default_streams_for_realm (u_realm u) d)))]),
      (''update_display_settings'', \<lambda>_. Inr (user_setting u @ [(''autoscroll_forever'', PBool (u_autoscroll_forever u))] @ rest ''update_display_settings'')),
      (''update_global_notifications'', \<lambda>_. Inr (notification_setting u @ [(''default_desktop_notifications'', PBool (u_default_desktop_notifications u))])),
      (''zulip_version'', \<lambda>_. Inr (rest ''zulip_version''))])"

definition fetch_initial_state_data ::
  "fetch_env \<Rightarrow> user_profile \<Rightarrow> string list option \<Rightarrow> string \<Rightarrow> bool \<Rightarrow> rat \<Rightarrow> db \<Rightarrow> pyerr + client_state" where
  "fetch_initial_state_data F u event_types queue_id include_subscribers now d =
     (let want = (\<lambda>k. case event_types of None \<Rightarrow> True | Some l \<Rightarrow> k \<in> set l) in
      ebind (emap (\<lambda>(k, part). part ()) (filter (\<lambda>(k, part). want k) (state_parts F u include_subscribers now d))) (\<lambda>parts.
      ebind (if want ''update_message_flags'' \<and> want ''message''
             then ebind (get_unread_message_ids_per_recipient u d) (\<lambda>un. Inr (Some un)) else Inr None) (\<lambda>un.
        Inr \<lparr>cs_values = dupdate [] ((''queue_id'', PStr queue_id) # concat parts), cs_unread = un\<rparr>)))"

end
