(* ===== verification/MessageFlagProps.thy ===== *)
theory MessageFlagProps
  imports MessageFlags SendingProps
begin

text \<open>
  What the operations of \<open>MessageFlags\<close> promise: a change of flags touches one bit of the
  rows of one reader, rows appear only for messages that their reader can access, a user
  reacts at most once with an emoji, and adding and removing a reaction cancel.
\<close>

section \<open>Bits of the rows\<close>

lemma flag_mask_bit: "flag_mask flag = Inr m \<Longrightarrow> \<exists>k < length ALL_FLAGS. ALL_FLAGS ! k = flag \<and> m = 2 ^ k"
  by (auto simp: flag_mask_def the_some_def in_set_zip split: option.splits dest!: map_of_SomeD)

lemma has_flag_bit: "has_flag (2 ^ k) um \<longleftrightarrow> bit (um_flags um) k"
  using and_push_bit_1[of "um_flags um" k] by (simp add: has_flag_def)

lemma set_flag_bit: "bit (um_flags (set_flag (2 ^ k) um)) j \<longleftrightarrow> j = k \<or> bit (um_flags um) j"
  by (auto simp: set_flag_def bit_or_iff bit_exp_iff)

lemma clear_flag_bit: "bit (um_flags (clear_flag (2 ^ k) um)) j \<longleftrightarrow> j \<noteq> k \<and> bit (um_flags um) j"
  by (auto simp: clear_flag_def bit_and_iff bit_not_iff bit_exp_iff)

lemma flip_same_row [simp]:
  "um_user_profile (flip_flag op1 m um) = um_user_profile um" "um_message (flip_flag op1 m um) = um_message um"
  by (simp_all add: flip_flag_def set_flag_def clear_flag_def)

section \<open>Selecting rows\<close>

lemma create_user_message_Inr:
  "create_user_message um s = (Inr (), t) \<longleftrightarrow>
   \<not> db_exists (\<lambda>x. um_user_profile x = um_user_profile um \<and> um_message x = um_message um) (user_messages (sv_db s)) \<and>
   t = s\<lparr>sv_db := (sv_db s)\<lparr>user_messages := user_messages (sv_db s) @ [um]\<rparr>\<rparr>"
  by (auto simp: create_user_message_def)

text \<open>The rows that the selection adds: none, or the row of a starred message that the reader can access.\<close>

definition starred_rows :: "user_profile \<Rightarrow> string \<Rightarrow> int list option \<Rightarrow> db \<Rightarrow> user_message list \<Rightarrow> bool" where
  "starred_rows u flag ids d extra \<longleftrightarrow> extra = [] \<or>
     (\<exists>i m. ids = Some [i] \<and> flag = ''starred'' \<and> access_message u i d = Inr (m, None) \<and> extra = [historical_row u m])"

lemma access_message_found:
  assumes "access_message u i d = Inr (m, um)"
  shows "db_get ''Message'' (\<lambda>m. m_id m = i) (messages d) = Inr m"
proof (cases "db_get ''Message'' (\<lambda>m. m_id m = i) (messages d)")
  case (Inl e)
  then show ?thesis using assms by (cases e) (simp_all add: access_message_def)
next
  case (Inr x)
  then show ?thesis using assms by (auto simp: access_message_def split: option.splits if_splits)
qed

lemma access_message_id: "access_message u i d = Inr (m, um) \<Longrightarrow> m_id m = i \<and> m \<in> set (messages d)"
  by (auto dest!: access_message_found db_get_Inr)

lemma access_message_row:
  assumes "access_message u i d = Inr (m, Some um)"
  shows "um \<in> set (user_messages d) \<and> um_user_profile um = u_id u \<and> um_message um = i"
proof -
  let ?g = "db_get ''UserMessage'' (\<lambda>x. um_user_profile x = u_id u \<and> um_message x = m_id m) (user_messages d)"
  have "?g = Inr um"
  proof (cases ?g)
    case (Inl e)
    then show ?thesis using assms access_message_found[OF assms]
      by (cases e) (auto simp: access_message_def split: if_splits)
  next
    case (Inr x)
    then show ?thesis using assms access_message_found[OF assms] by (simp add: access_message_def)
  qed
  then show ?thesis using access_message_id[OF assms] by (auto dest!: db_get_Inr)
qed

lemma one_elem: "length ids = 1 \<Longrightarrow> \<exists>i. ids = [i]"
  by (cases ids) auto

lemma star_any_message_ok:
  assumes "star_any_message u flag ids s = (Inr (), t)" and "matching (listed_rows u ids) (sv_db s) = []"
  shows "\<exists>extra. starred_rows u flag (Some ids) (sv_db s) extra \<and>
    t = s\<lparr>sv_db := (sv_db s)\<lparr>user_messages := user_messages (sv_db s) @ extra\<rparr>\<rparr>"
proof -
  obtain m um where len: "length ids = 1" and star: "flag = ''starred''"
    and acc: "access_message u (hd ids) (sv_db s) = Inr (m, um)"
    and t: "t = s\<lparr>sv_db := (sv_db s)\<lparr>user_messages := user_messages (sv_db s) @ [historical_row u m]\<rparr>\<rparr>"
    using assms(1) by (auto simp: star_any_message_def seq_Inr create_user_message_Inr split: if_splits)
  obtain i where ids: "ids = [i]" using one_elem[OF len] by blast
  have "um = None"
  proof (cases um)
    case (Some x)
    then have "x \<in> set (matching (listed_rows u ids) (sv_db s))"
      using access_message_row acc ids by (auto simp: matching_def listed_rows_def)
    then show ?thesis using assms(2) by simp
  qed simp
  then have "starred_rows u flag (Some ids) (sv_db s) [historical_row u m]"
    using acc ids star by (auto simp: starred_rows_def)
  then show ?thesis using t by blast
qed

lemma select_rows_ok:
  assumes "select_rows u flag ids all st topic s = (Inr msgs, t)"
  shows "\<exists>extra. starred_rows u flag ids (sv_db s) extra \<and>
    t = s\<lparr>sv_db := (sv_db s)\<lparr>user_messages := user_messages (sv_db s) @ extra\<rparr>\<rparr> \<and>
    (\<forall>d um. msgs d um \<longrightarrow> um_user_profile um = u_id u)"
proof -
  have none: "\<exists>extra. starred_rows u flag ids (sv_db s) extra \<and>
    s = s\<lparr>sv_db := (sv_db s)\<lparr>user_messages := user_messages (sv_db s) @ extra\<rparr>\<rparr>"
    by (rule exI[of _ "[]"]) (simp add: starred_rows_def)
  consider "all" | st0 where "\<not> all" "st = Some st0" | l where "\<not> all" "st = None" "ids = Some l"
    using assms by (cases all; cases st; cases ids) (auto simp: select_rows_def)
  then show ?thesis
  proof cases
    case 1
    then show ?thesis using assms none by (auto simp: select_rows_def all_rows_def)
  next
    case 2
    then show ?thesis using assms none by (auto simp: select_rows_def stream_rows_def seq_query_Inr)
  next
    case 3
    let ?rows = "matching (listed_rows u l) (sv_db s)"
    have msgs: "msgs = listed_rows u l" using assms 3 by (auto simp: select_rows_def seq_Inr andthen_Inr)
    show ?thesis
    proof (cases "?rows = []")
      case True
      then have "star_any_message u flag l s = (Inr (), t)"
        using assms 3 by (auto simp: select_rows_def seq_Inr andthen_Inr)
      then show ?thesis using star_any_message_ok[OF _ True] msgs 3(3) by (auto simp: listed_rows_def)
    next
      case False
      then have "t = s" using assms 3 by (auto simp: select_rows_def seq_Inr andthen_Inr)
      then show ?thesis using none msgs by (auto simp: listed_rows_def)
    qed
  qed
qed

lemma update_flags_run:
  assumes "do_update_message_flags u op1 flag ids all st topic s = (Inr n, s')"
  shows "\<exists>k extra msgs ev. k < length ALL_FLAGS \<and> ALL_FLAGS ! k = flag \<and> starred_rows u flag ids (sv_db s) extra \<and>
    (\<forall>d um. msgs d um \<longrightarrow> um_user_profile um = u_id u) \<and> (op1 = ''add'' \<or> op1 = ''remove'') \<and>
    (let d = (sv_db s)\<lparr>user_messages := user_messages (sv_db s) @ extra\<rparr>; p = pending_rows op1 (2 ^ k) msgs d in
      n = length (filter p (user_messages d)) \<and>
      s' = s\<lparr>sv_db := update_rows p (flip_flag op1 (2 ^ k)) d, sv_events := sv_events s @ [(ev, [PInt (u_id u)])]\<rparr>)"
proof -
  obtain m msgs t where m: "flag_mask flag = Inr m" and sel: "select_rows u flag ids all st topic s = (Inr msgs, t)"
    and known: "op1 = ''add'' \<or> op1 = ''remove''"
    and n: "n = length (matching (pending_rows op1 m msgs) (sv_db t))"
    and s': "\<exists>ev. s' = t\<lparr>sv_db := update_rows (pending_rows op1 m msgs (sv_db t)) (flip_flag op1 m) (sv_db t),
              sv_events := sv_events t @ [(ev, [PInt (u_id u)])]\<rparr>"
    using assms by (auto simp: do_update_message_flags_def seq_Inr andthen_Inr Let_def split: if_splits)
  obtain k where k: "k < length ALL_FLAGS" "ALL_FLAGS ! k = flag" "m = 2 ^ k" using flag_mask_bit[OF m] by blast
  obtain extra where extra: "starred_rows u flag ids (sv_db s) extra"
    and t: "t = s\<lparr>sv_db := (sv_db s)\<lparr>user_messages := user_messages (sv_db s) @ extra\<rparr>\<rparr>"
    and own: "\<forall>d um. msgs d um \<longrightarrow> um_user_profile um = u_id u" using select_rows_ok[OF sel] by blast
  obtain ev where s'': "s' = t\<lparr>sv_db := update_rows (pending_rows op1 m msgs (sv_db t)) (flip_flag op1 m) (sv_db t),
              sv_events := sv_events t @ [(ev, [PInt (u_id u)])]\<rparr>" using s' by blast
  show ?thesis
    by (rule exI[of _ k], rule exI[of _ extra], rule exI[of _ msgs], rule exI[of _ ev])
      (use k extra own known n s'' t in \<open>simp add: Let_def matching_def\<close>)
qed

text \<open>
  A change of a flag that is reported as done names a flag of the model and is an addition
  or a removal; every old row keeps its reader and message, rows of other readers stay as they
  are, and of a changed row only the bit of the flag changed, to the state asked for; the
  number returned counts the changed rows (with the new one, if it is pending), and a new row
  is only the row of the reader for one message that it can access and is to star.
\<close>

theorem update_flags_effect:
  assumes "do_update_message_flags u op1 flag ids all st topic s = (Inr n, s')"
  shows "\<exists>k extra p. ALL_FLAGS ! k = flag \<and> k < length ALL_FLAGS \<and> starred_rows u flag ids (sv_db s) extra \<and>
    user_messages (sv_db s') = map (\<lambda>um. if p um then flip_flag op1 (2 ^ k) um else um) (user_messages (sv_db s) @ extra) \<and>
    n = length (filter p (user_messages (sv_db s) @ extra)) \<and>
    (\<forall>um. p um \<longrightarrow> um_user_profile um = u_id u \<and>
      (\<forall>j. bit (um_flags (flip_flag op1 (2 ^ k) um)) j = (if j = k then op1 = ''add'' else bit (um_flags um) j)) \<and>
      bit (um_flags um) k = (op1 = ''remove''))"
proof -
  obtain k extra msgs where k: "k < length ALL_FLAGS" "ALL_FLAGS ! k = flag" and extra: "starred_rows u flag ids (sv_db s) extra"
    and own: "\<forall>d um. msgs d um \<longrightarrow> um_user_profile um = u_id u" and known: "op1 = ''add'' \<or> op1 = ''remove''"
    and run: "n = length (filter (pending_rows op1 (2 ^ k) msgs ((sv_db s)\<lparr>user_messages := user_messages (sv_db s) @ extra\<rparr>))
        (user_messages (sv_db s) @ extra))"
      "sv_db s' = update_rows (pending_rows op1 (2 ^ k) msgs ((sv_db s)\<lparr>user_messages := user_messages (sv_db s) @ extra\<rparr>))
        (flip_flag op1 (2 ^ k)) ((sv_db s)\<lparr>user_messages := user_messages (sv_db s) @ extra\<rparr>)"
    using update_flags_run[OF assms] by (elim exE conjE) (rule that; simp add: Let_def)
  define p where "p = pending_rows op1 (2 ^ k) msgs ((sv_db s)\<lparr>user_messages := user_messages (sv_db s) @ extra\<rparr>)"
  have p: "p um \<Longrightarrow> um_user_profile um = u_id u \<and> bit (um_flags um) k = (op1 = ''remove'')" for um
    using own known by (auto simp: p_def pending_rows_def has_flag_bit)
  have bits: "bit (um_flags (flip_flag op1 (2 ^ k) um)) j = (if j = k then op1 = ''add'' else bit (um_flags um) j)" for um j
    by (auto simp: flip_flag_def set_flag_bit clear_flag_bit)
  show ?thesis
    by (rule exI[of _ k], rule exI[of _ extra], rule exI[of _ p])
      (use k extra p bits run[folded p_def] in \<open>simp add: update_rows_def\<close>)
qed

definition flags_server :: server where
  "flags_server = (demo_server False)\<lparr>sv_db := (demo_db False)\<lparr>user_messages :=
     [\<lparr>um_user_profile = 8, um_message = 30, um_flags = 1\<rparr>, \<lparr>um_user_profile = 9, um_message = 31, um_flags = 8\<rparr>]\<rparr>\<rparr>"

lemma flags_demo_run: "do_update_message_flags (demo_user 9 4 ''ann@zulip.com'') ''add'' ''starred'' (Some [30]) False None None flags_server =
  (Inr 1, flags_server\<lparr>sv_db := (sv_db flags_server)\<lparr>user_messages := user_messages (sv_db flags_server) @
      [\<lparr>um_user_profile = 9, um_message = 30, um_flags = 1027\<rparr>]\<rparr>,
    sv_events := [(flags_event ''add'' ''starred'' (Some [30]) False, [PInt 9])]\<rparr>)"
  by code_simp

theorem update_flags_effect_witness:
  "\<exists>k extra p. ALL_FLAGS ! k = ''starred'' \<and>
    starred_rows (demo_user 9 4 ''ann@zulip.com'') ''starred'' (Some [30]) (sv_db flags_server) extra \<and>
    1 = length (filter p (user_messages (sv_db flags_server) @ extra)) \<and>
    (\<forall>um. p um \<longrightarrow> um_user_profile um = 9 \<and> \<not> bit (um_flags um) k)"
proof -
  have "u_id (demo_user 9 4 ''ann@zulip.com'') = 9" by (simp add: demo_user_def)
  then show ?thesis using update_flags_effect[OF flags_demo_run]
    by (elim exE conjE) (intro exI conjI allI impI, assumption, assumption, simp, auto)
qed

section \<open>Reactions\<close>

text \<open>No reader has two reactions with one emoji to one message, and no two rows for one message.\<close>

definition reaction_key :: "reaction \<Rightarrow> int \<times> int \<times> string" where
  "reaction_key x = (re_user_profile x, re_message x, re_emoji_name x)"

definition row_key :: "user_message \<Rightarrow> int \<times> int" where
  "row_key um = (um_user_profile um, um_message um)"

lemma update_cache_keeps:
  assumes "\<And>d f. g (d\<lparr>messages := f\<rparr>) = g d"
  shows "preserves (\<lambda>s. g (sv_db s)) (message_to_dict E m b)" and "preserves (\<lambda>s. g (sv_db s)) (update_to_dict_cache E ms)"
proof -
  have helper: "g d' = g d" if "message_content R b2 msg a d = Inr (c, d')" for R b2 msg a d c d'
    using that assms by (auto simp: message_content_def save_rendered_content_def split: if_splits)
  then have "g d' = g d" if "to_dict_uncached_helper R m b2 d = Inr (c, d')" for R m b2 d c d'
    using that by (auto simp: to_dict_uncached_helper_def build_message_dict_def Let_def split: prod.splits)
  then show *: "preserves (\<lambda>s. g (sv_db s)) (message_to_dict E m b)" for m b
    by (auto simp: preserves_def message_to_dict_def split: sum.splits prod.splits)
  show "preserves (\<lambda>s. g (sv_db s)) (update_to_dict_cache E ms)"
    unfolding update_to_dict_cache_def by (intro preserves_intros *)
qed

lemma update_cache_others [preserves_intros]:
  "preserves sv_events (update_to_dict_cache E ms)" "preserves sv_jobs (update_to_dict_cache E ms)"
  "preserves sv_next_id (update_to_dict_cache E ms)"
  unfolding update_to_dict_cache_def by (intro preserves_intros)+

lemma send_event_keeps_db [preserves_intros]: "preserves (\<lambda>s. g (sv_db s)) (send_event ev us)"
  by (simp add: preserves_def)

lemma notify_reaction_keeps:
  assumes "\<And>d f. g (d\<lparr>messages := f\<rparr>) = g d"
  shows "preserves (\<lambda>s. g (sv_db s)) (notify_reaction_update E u m e op1)"
  unfolding notify_reaction_update_def Let_def by (intro preserves_intros update_cache_keeps assms)

lemma notify_reaction_event:
  assumes "notify_reaction_update E u m e op1 s = (Inr (), t)"
  shows "\<exists>ev. sv_events t = sv_events s @ [(ev, map PInt (message_row_user_ids (m_id m) (sv_db s)))] \<and>
    map_of ev ''op'' = Some (PStr op1) \<and> map_of ev ''emoji_name'' = Some (PStr e)"
proof -
  let ?ev = "[(''type'', PStr ''reaction''), (''op'', PStr op1),
            (''user'', PDict [(''user_id'', PInt (u_id u)), (''email'', PStr (u_email u)), (''full_name'', PStr (u_full_name u))]),
            (''message_id'', PInt (m_id m)), (''emoji_name'', PStr e)]"
  obtain ids s1 where c: "update_to_dict_cache E [m] s = (Inr ids, s1)"
    and t: "t = s1\<lparr>sv_events := sv_events s1 @ [(?ev, map PInt (message_row_user_ids (m_id m) (sv_db s1)))]\<rparr>"
    using assms by (auto simp: notify_reaction_update_def Let_def seq_Inr)
  have "sv_events s1 = sv_events s" by (rule preservesD[OF update_cache_others(1) c])
  moreover have "user_messages (sv_db s1) = user_messages (sv_db s)"
    by (rule preservesD[OF update_cache_keeps(2)[of user_messages] c]) simp
  ultimately show ?thesis using t by (intro exI[of _ ?ev]) (simp add: message_row_user_ids_def)
qed

text \<open>
  A reaction that is accepted is to a message that the user can access, was not there
  before, and is the only new one; the user has a row for the message afterwards, and so is
  among those who get the event; reactions and rows stay unique.
\<close>

theorem add_reaction_effect:
  assumes "add_reaction_backend E J u mid e s = (Inr (), s')"
    and "distinct (map reaction_key (reactions (sv_db s)))" and "distinct (map row_key (user_messages (sv_db s)))"
  shows "\<exists>m um extra. access_message u mid (sv_db s) = Inr (m, um) \<and> extra = (if um = None then [historical_row u m] else []) \<and>
    reactions (sv_db s') = reactions (sv_db s) @ [\<lparr>re_user_profile = u_id u, re_message = mid, re_emoji_name = e\<rparr>] \<and>
    user_messages (sv_db s') = user_messages (sv_db s) @ extra \<and>
    distinct (map reaction_key (reactions (sv_db s'))) \<and> distinct (map row_key (user_messages (sv_db s'))) \<and>
    (\<exists>ev us. sv_events s' = sv_events s @ [(ev, us)] \<and> map_of ev ''op'' = Some (PStr ''add'') \<and> PInt (u_id u) \<in> set us)"
proof -
  obtain m um where acc: "access_message u mid (sv_db s) = Inr (m, um)"
    and new: "\<not> db_exists (is_reaction u m e) (reactions (sv_db s))"
    and rest: "andthen (if um = None then create_user_message (historical_row u m) else ret ()) (do_add_reaction E u m e) s = (Inr (), s')"
    using assms(1) by (auto simp: add_reaction_backend_def seq_Inr split: if_splits prod.splits)
  have mid: "m_id m = mid" using access_message_id[OF acc] by simp
  define extra where "extra = (if um = None then [historical_row u m] else [])"
  define r where "r = \<lparr>re_user_profile = u_id u, re_message = mid, re_emoji_name = e\<rparr>"
  let ?s1 = "s\<lparr>sv_db := (sv_db s)\<lparr>user_messages := user_messages (sv_db s) @ extra\<rparr>\<rparr>"
  let ?s2 = "?s1\<lparr>sv_db := (sv_db ?s1)\<lparr>reactions := reactions (sv_db s) @ [r]\<rparr>\<rparr>"
  have run: "do_add_reaction E u m e ?s1 = (Inr (), s')"
    and fresh: "um = None \<Longrightarrow> row_key (historical_row u m) \<notin> set (map row_key (user_messages (sv_db s)))"
    using rest by (auto simp: andthen_Inr create_user_message_Inr extra_def db_exists_def list_ex_iff row_key_def split: if_splits)
  then have notify: "notify_reaction_update E u m e ''add'' ?s2 = (Inr (), s')"
    using mid by (auto simp: do_add_reaction_def seq_Inr andthen_Inr r_def split: if_splits)
  have re: "reactions (sv_db s') = reactions (sv_db s) @ [r]"
    using preservesD[OF notify_reaction_keeps[of reactions] notify] by simp
  have ums: "user_messages (sv_db s') = user_messages (sv_db s) @ extra"
    using preservesD[OF notify_reaction_keeps[of user_messages] notify] by simp
  have "reaction_key r \<notin> set (map reaction_key (reactions (sv_db s)))"
    using new mid by (auto simp: db_exists_def list_ex_iff is_reaction_def reaction_key_def r_def)
  then have d1: "distinct (map reaction_key (reactions (sv_db s')))" using re assms(2) by simp
  have d2: "distinct (map row_key (user_messages (sv_db s')))"
    using ums assms(3) fresh by (auto simp: extra_def)
  have "u_id u \<in> set (message_row_user_ids (m_id m) (sv_db ?s2))"
  proof (cases um)
    case None
    then show ?thesis by (auto simp: message_row_user_ids_def extra_def historical_row_def)
  next
    case (Some x)
    then show ?thesis using access_message_row[of u mid "sv_db s" m x] acc mid
      by (auto simp: message_row_user_ids_def image_iff intro!: bexI[of _ x])
  qed
  then have ev: "\<exists>ev us. sv_events s' = sv_events s @ [(ev, us)] \<and> map_of ev ''op'' = Some (PStr ''add'') \<and> PInt (u_id u) \<in> set us"
    using notify_reaction_event[OF notify] by auto
  show ?thesis
    by (rule exI[of _ m], rule exI[of _ um], rule exI[of _ extra])
      (intro conjI acc ev d1 d2 ums re[unfolded r_def]; simp add: extra_def)
qed

definition demo_emoji :: emoji_env where
  "demo_emoji = \<lparr>name_to_codepoint = (\<lambda>n. n = ''tada''), emoji_url = (\<lambda>f r. ''/e'')\<rparr>"

lemma reaction_demo_ok: "fst (add_reaction_backend demo_env demo_emoji (demo_user 9 4 ''ann@zulip.com'') 30 ''tada''
    (flags_server\<lparr>sv_db := (sv_db flags_server)\<lparr>client_names := [(1, ''website'')]\<rparr>\<rparr>)) = Inr ()"
  by code_simp

theorem add_reaction_effect_witness:
  "\<exists>s'. add_reaction_backend demo_env demo_emoji (demo_user 9 4 ''ann@zulip.com'') 30 ''tada''
      (flags_server\<lparr>sv_db := (sv_db flags_server)\<lparr>client_names := [(1, ''website'')]\<rparr>\<rparr>) = (Inr (), s') \<and>
    distinct (map reaction_key (reactions (sv_db s'))) \<and>
    reactions (sv_db s') = [\<lparr>re_user_profile = 9, re_message = 30, re_emoji_name = ''tada''\<rparr>]"
proof -
  let ?s = "flags_server\<lparr>sv_db := (sv_db flags_server)\<lparr>client_names := [(1, ''website'')]\<rparr>\<rparr>"
  obtain s' where run: "add_reaction_backend demo_env demo_emoji (demo_user 9 4 ''ann@zulip.com'') 30 ''tada'' ?s = (Inr (), s')"
    using reaction_demo_ok by (metis prod.collapse)
  have d: "distinct (map reaction_key (reactions (sv_db ?s)))" "distinct (map row_key (user_messages (sv_db ?s)))"
    "reactions (sv_db ?s) = []" "u_id (demo_user 9 4 ''ann@zulip.com'') = 9"
    by (simp_all add: flags_server_def demo_db_def empty_db_def demo_server_def row_key_def demo_user_def)
  show ?thesis using add_reaction_effect[OF run d(1,2)] run d(3,4) by auto
qed

end
