(* ===== verification/MessageEditProps.thy ===== *)
theory MessageEditProps
  imports MessageEdit MessageFlagProps
begin

text \<open>
  What edits and deletions promise: the flags of the readers follow the new content, an edit
  changes exactly the messages it names, only the sender changes a content, the edit history
  recovers every earlier version, and deletion moves a message with its rows to the archive.
\<close>

section \<open>Flags after an edit\<close>

lemma update_flag_bit: "bit (um_flags (update_flag b (2 ^ k) um)) j \<longleftrightarrow> (if j = k then b else bit (um_flags um) j)"
  by (auto simp: update_flag_def set_flag_bit clear_flag_bit has_flag_bit)

lemma update_flag_key [simp]: "um_user_profile (update_flag b m um) = um_user_profile um"
  "um_message (update_flag b m um) = um_message um"
  by (simp_all add: update_flag_def set_flag_def clear_flag_def)

text \<open>
  After an edit the flags for mentions, alert words and status messages of a row are those
  of the new rendering, and all other flags, such as read and starred, are as before.
\<close>

theorem edit_flags_exact:
  "bit (um_flags (reprocess_flags r um)) j \<longleftrightarrow>
    (if ALL_FLAGS ! j = ''mentioned'' \<and> j < 12 then um_user_profile um \<in> set (r_mentions_user_ids r)
     else if ALL_FLAGS ! j = ''wildcard_mentioned'' \<and> j < 12 then r_mentions_wildcard r
     else if ALL_FLAGS ! j = ''has_alert_word'' \<and> j < 12 then um_user_profile um \<in> set (r_user_ids_with_alert_words r)
     else if ALL_FLAGS ! j = ''is_me_message'' \<and> j < 12 then r_is_me_message r
     else bit (um_flags um) j)"
proof -
  have masks: "(8::int) = 2 ^ 3" "(16::int) = 2 ^ 4" "(512::int) = 2 ^ 9" "(2048::int) = 2 ^ 11" by simp_all
  have bits: "bit (um_flags (reprocess_flags r um)) j \<longleftrightarrow> (if j = 11 then r_is_me_message r
     else if j = 4 then r_mentions_wildcard r else if j = 3 then um_user_profile um \<in> set (r_mentions_user_ids r)
     else if j = 9 then um_user_profile um \<in> set (r_user_ids_with_alert_words r) else bit (um_flags um) j)"
    unfolding reprocess_flags_def masks by (simp only: update_flag_bit update_flag_key)
  have "j \<ge> 12 \<or> j = 0 \<or> j = 1 \<or> j = 2 \<or> j = 3 \<or> j = 4 \<or> j = 5 \<or> j = 6 \<or> j = 7 \<or> j = 8 \<or> j = 9 \<or> j = 10 \<or> j = 11" by arith
  then show ?thesis unfolding bits
    by (elim disjE) (simp_all add: ALL_FLAGS_def)
qed

section \<open>What an edit changes\<close>

lemma sv_now_effects [preserves_intros]:
  "preserves sv_now (send_event ev us)" "preserves sv_now (queue_json_publish q ev)" "preserves sv_now (log_line l)"
  "preserves sv_now fresh_id" "preserves sv_now (modify_db h)" "preserves sv_now (message_to_dict E m b)"
  by (auto simp: preserves_def message_to_dict_def split: sum.splits prod.splits)

lemma edit_content_keeps:
  assumes "\<And>d f. g (d\<lparr>attachments := f\<rparr>) = g d" and "\<And>d f. g (d\<lparr>user_messages := f\<rparr>) = g d"
  shows "preserves (\<lambda>s. g (sv_db s)) (edit_content E m r c rc)"
  unfolding edit_content_def Let_def check_attachment_reference_change_def
  by (intro preserves_intros do_claim_keeps assms) (simp_all add: update_user_message_flags_def update_rows_def assms)

lemma edit_content_others [preserves_intros]:
  "preserves sv_now (edit_content E m r c rc)" "preserves sv_events (edit_content E m r c rc)"
  unfolding edit_content_def Let_def check_attachment_reference_change_def do_claim_attachments_def claim_url_def claim_attachment_def
  by (intro preserves_intros)+

lemma edit_content_result:
  "edit_content E m r c rc s = (Inr (m', e, h), s') \<Longrightarrow>
   m' = m\<lparr>m_content := c, m_rendered_content := rc, m_rendered_content_version := Some (bugdown_version (se_render E))\<rparr> \<and>
   h = [(''prev_content'', PStr (m_content m)), (''prev_rendered_content'', of_opt PStr (m_rendered_content m)),
            (''prev_rendered_content_version'', of_opt PInt (m_rendered_content_version m))]"
  by (auto simp: edit_content_def Let_def andthen_Inr)

text \<open>What is left of a message without its rendering, which the cache may refresh.\<close>

definition text_of :: "message \<Rightarrow> message" where
  "text_of m = m\<lparr>m_rendered_content := None, m_rendered_content_version := None\<rparr>"

lemma save_rendered_text: "map text_of (messages (save_rendered_content i c v d)) = map text_of (messages d)"
  by (auto simp: save_rendered_content_def text_of_def)

lemma message_to_dict_text: "preserves (\<lambda>s. map text_of (messages (sv_db s))) (message_to_dict E m b)"
proof -
  have "map text_of (messages d') = map text_of (messages d)" if "message_content R b2 msg a d = Inr (c, d')" for R b2 msg a d c d'
    using that by (auto simp: message_content_def save_rendered_text split: if_splits simp del: map_eq_conv)
  then have "map text_of (messages d') = map text_of (messages d)" if "to_dict_uncached_helper R m b2 d = Inr (c, d')" for R m b2 d c d'
    using that by (auto simp: to_dict_uncached_helper_def build_message_dict_def Let_def simp del: map_eq_conv split: prod.splits)
  then show ?thesis
    by (auto simp: preserves_def message_to_dict_def simp del: map_eq_conv split: sum.splits prod.splits)
qed

lemma update_cache_text: "preserves (\<lambda>s. map text_of (messages (sv_db s))) (update_to_dict_cache E ms)"
  unfolding update_to_dict_cache_def by (intro preserves_intros message_to_dict_text)





section \<open>The run of an edit\<close>

definition reaches :: "string option \<Rightarrow> string \<Rightarrow> message \<Rightarrow> rat \<Rightarrow> message \<Rightarrow> bool" where
  "reaches subject mode m now x \<longleftrightarrow> subject \<noteq> None \<and> m_recipient x = m_recipient m \<and> m_subject x = m_subject m \<and>
     (mode = ''change_later'' \<and> m_id m < m_id x \<or>
      mode = ''change_all'' \<and> m_id x \<noteq> m_id m \<and> now - 2 * 24 * 60 * 60 \<le> m_pub_date x \<and> m_pub_date x \<le> now)"

definition new_topic :: "string option \<Rightarrow> message \<Rightarrow> string" where
  "new_topic subject m = (case subject of None \<Rightarrow> m_subject m | Some t \<Rightarrow> truncate_topic t)"

definition set_topic :: "string option \<Rightarrow> message \<Rightarrow> message \<Rightarrow> message" where
  "set_topic subject m x = x\<lparr>m_subject := new_topic subject m\<rparr>"

lemma set_topic_id [simp]: "m_id (set_topic subject m x) = m_id x"
  by (simp add: set_topic_def)

lemma edit_topic_run:
  assumes "edit_topic E m t mode s = (Inr (m', others, e, h), s')"
  shows "m' = m\<lparr>m_subject := truncate_topic t\<rparr>" and "h = [(''prev_subject'', PStr (m_subject m))]"
    and "others = map (set_topic (Some t) m) (filter (reaches (Some t) mode m (sv_now s)) (messages (sv_db s)))"
    and "s' = s\<lparr>sv_db := (sv_db s)\<lparr>messages := map (\<lambda>x. if reaches (Some t) mode m (sv_now s) x then set_topic (Some t) m x else x)
           (messages (sv_db s))\<rparr>\<rparr>"
proof -
  have *: "m' = m\<lparr>m_subject := truncate_topic t\<rparr> \<and> h = [(''prev_subject'', PStr (m_subject m))] \<and>
    others = map (set_topic (Some t) m) (filter (reaches (Some t) mode m (sv_now s)) (messages (sv_db s))) \<and>
    s' = s\<lparr>sv_db := (sv_db s)\<lparr>messages := map (\<lambda>x. if reaches (Some t) mode m (sv_now s) x then set_topic (Some t) m x else x)
           (messages (sv_db s))\<rparr>\<rparr>"
  proof (cases "mode \<in> set [''change_later'', ''change_all'']")
    case True
    then have "reaches (Some t) mode m (sv_now s) = propagate_query mode m (m_subject m) (sv_now s)"
      by (auto simp: reaches_def propagate_query_def fun_eq_iff)
    moreover have "set_topic (Some t) m = (\<lambda>x. x\<lparr>m_subject := truncate_topic t\<rparr>)"
      by (simp add: set_topic_def new_topic_def fun_eq_iff)
    ultimately show ?thesis using assms True by (auto simp: edit_topic_def Let_def seq_Inr andthen_Inr)
  next
    case False
    then have "reaches (Some t) mode m (sv_now s) = (\<lambda>x. False)" by (auto simp: reaches_def fun_eq_iff)
    then show ?thesis using assms False by (auto simp: edit_topic_def Let_def seq_Inr)
  qed
  show "m' = m\<lparr>m_subject := truncate_topic t\<rparr>" and "h = [(''prev_subject'', PStr (m_subject m))]"
    and "others = map (set_topic (Some t) m) (filter (reaches (Some t) mode m (sv_now s)) (messages (sv_db s)))"
    and "s' = s\<lparr>sv_db := (sv_db s)\<lparr>messages := map (\<lambda>x. if reaches (Some t) mode m (sv_now s) x then set_topic (Some t) m x else x)
           (messages (sv_db s))\<rparr>\<rparr>" using * by simp_all
qed

text \<open>The edited message and its history entry, as \<open>do_update_message\<close> computes them.\<close>

definition edited :: "send_env \<Rightarrow> (pyval \<Rightarrow> string) \<Rightarrow> pyval list \<Rightarrow> pydict \<Rightarrow> rat \<Rightarrow> string option \<Rightarrow> string option \<Rightarrow>
    string option \<Rightarrow> message \<Rightarrow> message" where
  "edited E dumps history entry now subject content rc m = stamp_edit dumps history entry now
     ((case content of None \<Rightarrow> m | Some c \<Rightarrow> m\<lparr>m_content := c, m_rendered_content := rc,
         m_rendered_content_version := Some (bugdown_version (se_render E))\<rparr>)\<lparr>m_subject := new_topic subject m\<rparr>)"

definition edit_entry :: "user_profile \<Rightarrow> string option \<Rightarrow> string option \<Rightarrow> rat \<Rightarrow> message \<Rightarrow> pydict" where
  "edit_entry u subject content now m = (''user_id'', PInt (u_id u)) #
     (if content = None then [] else [(''prev_content'', PStr (m_content m)),
        (''prev_rendered_content'', of_opt PStr (m_rendered_content m)),
        (''prev_rendered_content_version'', of_opt PInt (m_rendered_content_version m))]) @
     (if subject = None then [] else [(''prev_subject'', PStr (m_subject m))]) @
     [(''timestamp'', PInt (datetime_to_timestamp now))]"

lemma save_message_Inr:
  "save_message i f s = (Inr (), t) \<longleftrightarrow> db_exists (\<lambda>x. m_id x = i) (messages (sv_db s)) \<and>
   t = s\<lparr>sv_db := (sv_db s)\<lparr>messages := map (\<lambda>x. if m_id x = i then f x else x) (messages (sv_db s))\<rparr>\<rparr>"
  by (auto simp: save_message_def)

lemma do_update_message_run:
  assumes "do_update_message E dumps u m r subject mode content rc s = (Inr n, s')"
  shows "\<exists>history m' others s3 s4 ids ev us. edit_history_of E m = Inr history \<and>
    m' = edited E dumps history (edit_entry u subject content (sv_now s) m) (sv_now s) subject content rc m \<and>
    others = map (set_topic subject m) (filter (reaches subject mode m (sv_now s)) (messages (sv_db s))) \<and>
    db_exists (\<lambda>x. m_id x = m_id m) (messages (sv_db s)) \<and>
    messages (sv_db s3) = map (\<lambda>x. if m_id x = m_id m then save_edited m' x else x)
      (map (\<lambda>x. if reaches subject mode m (sv_now s) x then set_topic subject m x else x) (messages (sv_db s))) \<and>
    sv_events s3 = sv_events s \<and> realms (sv_db s3) = realms (sv_db s) \<and>
    update_to_dict_cache E (m' # others) s3 = (Inr ids, s4) \<and> s' = s4\<lparr>sv_events := sv_events s4 @ [(ev, us)]\<rparr> \<and>
    n = Suc (length others)"
proof -
  obtain history m1 e1 h1 s1 m2 others e2 h2 s2 m' s3 s4 ids ev us where
    hist: "edit_history_of E m = Inr history"
    and c: "(case content of None \<Rightarrow> ret (m, [], []) | Some c \<Rightarrow> edit_content E m r c rc) s = (Inr (m1, e1, h1), s1)"
    and t: "(case subject of None \<Rightarrow> ret (m1, [], [], []) | Some t \<Rightarrow> edit_topic E m1 t mode) s1 = (Inr (m2, others, e2, h2), s2)"
    and m': "m' = stamp_edit dumps history ((''user_id'', PInt (u_id u)) # h1 @ h2 @ [(''timestamp'', PInt (datetime_to_timestamp (sv_now s2)))]) (sv_now s2) m2"
    and save: "save_message (m_id m') (save_edited m') s2 = (Inr (), s3)"
    and cache: "update_to_dict_cache E (m' # others) s3 = (Inr ids, s4)"
    and s': "s' = s4\<lparr>sv_events := sv_events s4 @ [(ev, us)]\<rparr>" and n: "n = Suc (length others)"
    using assms unfolding do_update_message_def atomic_Inr
    by (auto simp: seq_Inr andthen_Inr Let_def stamp_edit_def)
  have c1: "m1 = (case content of None \<Rightarrow> m | Some c \<Rightarrow> m\<lparr>m_content := c, m_rendered_content := rc,
         m_rendered_content_version := Some (bugdown_version (se_render E))\<rparr>)"
    and c2: "h1 = (if content = None then [] else [(''prev_content'', PStr (m_content m)),
        (''prev_rendered_content'', of_opt PStr (m_rendered_content m)),
        (''prev_rendered_content_version'', of_opt PInt (m_rendered_content_version m))])"
    and c3: "messages (sv_db s1) = messages (sv_db s)" and c4: "sv_now s1 = sv_now s" and c5: "sv_events s1 = sv_events s"
    and c6: "realms (sv_db s1) = realms (sv_db s)"
  proof -
    have "m1 = (case content of None \<Rightarrow> m | Some c \<Rightarrow> m\<lparr>m_content := c, m_rendered_content := rc,
         m_rendered_content_version := Some (bugdown_version (se_render E))\<rparr>) \<and>
      h1 = (if content = None then [] else [(''prev_content'', PStr (m_content m)),
        (''prev_rendered_content'', of_opt PStr (m_rendered_content m)),
        (''prev_rendered_content_version'', of_opt PInt (m_rendered_content_version m))]) \<and>
      messages (sv_db s1) = messages (sv_db s) \<and> sv_now s1 = sv_now s \<and> sv_events s1 = sv_events s \<and>
      realms (sv_db s1) = realms (sv_db s)"
    proof (cases content)
      case None
      then show ?thesis using c by simp
    next
      case (Some x)
      then have run: "edit_content E m r x rc s = (Inr (m1, e1, h1), s1)" using c by simp
      show ?thesis using Some edit_content_result[OF run] preservesD[OF edit_content_keeps[of messages] run]
          preservesD[OF edit_content_keeps[of realms] run]
          preservesD[OF edit_content_others(1) run] preservesD[OF edit_content_others(2) run] by simp
    qed
    then show "m1 = (case content of None \<Rightarrow> m | Some c \<Rightarrow> m\<lparr>m_content := c, m_rendered_content := rc,
         m_rendered_content_version := Some (bugdown_version (se_render E))\<rparr>)"
    and "h1 = (if content = None then [] else [(''prev_content'', PStr (m_content m)),
        (''prev_rendered_content'', of_opt PStr (m_rendered_content m)),
        (''prev_rendered_content_version'', of_opt PInt (m_rendered_content_version m))])"
    and "messages (sv_db s1) = messages (sv_db s)" and "sv_now s1 = sv_now s" and "sv_events s1 = sv_events s"
    and "realms (sv_db s1) = realms (sv_db s)" by simp_all
  qed
  have same: "m_subject m1 = m_subject m" "m_id m1 = m_id m" "m_recipient m1 = m_recipient m"
    using c1 by (cases content; simp)+
  have reach: "reaches subject mode m1 = reaches subject mode m" "set_topic subject m1 = set_topic subject m"
    using same by (auto simp: reaches_def set_topic_def new_topic_def fun_eq_iff split: option.splits)
  have t1: "m2 = m1\<lparr>m_subject := new_topic subject m\<rparr>" "h2 = (if subject = None then [] else [(''prev_subject'', PStr (m_subject m))])"
    "others = map (set_topic subject m) (filter (reaches subject mode m (sv_now s)) (messages (sv_db s)))"
    "messages (sv_db s2) = map (\<lambda>x. if reaches subject mode m (sv_now s) x then set_topic subject m x else x) (messages (sv_db s))"
    "sv_now s2 = sv_now s" "sv_events s2 = sv_events s" "realms (sv_db s2) = realms (sv_db s)"
  proof -
    have "m2 = m1\<lparr>m_subject := new_topic subject m\<rparr> \<and> h2 = (if subject = None then [] else [(''prev_subject'', PStr (m_subject m))]) \<and>
      others = map (set_topic subject m) (filter (reaches subject mode m (sv_now s)) (messages (sv_db s))) \<and>
      messages (sv_db s2) = map (\<lambda>x. if reaches subject mode m (sv_now s) x then set_topic subject m x else x) (messages (sv_db s)) \<and>
      sv_now s2 = sv_now s \<and> sv_events s2 = sv_events s \<and> realms (sv_db s2) = realms (sv_db s)"
    proof (cases subject)
      case None
      then show ?thesis using t c3 c4 c5 c6 same by (simp add: reaches_def new_topic_def)
    next
      case (Some x)
      then have run: "edit_topic E m1 x mode s1 = (Inr (m2, others, e2, h2), s2)" using t by simp
      show ?thesis using edit_topic_run[OF run] c3 c4 c5 c6 same reach Some by (simp add: new_topic_def)
    qed
    then show "m2 = m1\<lparr>m_subject := new_topic subject m\<rparr>" "h2 = (if subject = None then [] else [(''prev_subject'', PStr (m_subject m))])"
    "others = map (set_topic subject m) (filter (reaches subject mode m (sv_now s)) (messages (sv_db s)))"
    "messages (sv_db s2) = map (\<lambda>x. if reaches subject mode m (sv_now s) x then set_topic subject m x else x) (messages (sv_db s))"
    "sv_now s2 = sv_now s" "sv_events s2 = sv_events s" "realms (sv_db s2) = realms (sv_db s)" by simp_all
  qed
  have fin: "m' = edited E dumps history (edit_entry u subject content (sv_now s) m) (sv_now s) subject content rc m"
    using m' t1(1,2,5) c1 c2 by (simp add: edited_def edit_entry_def)
  have id': "m_id m' = m_id m" using m' t1(1) same(2) by (simp add: stamp_edit_def)
  have ex: "db_exists (\<lambda>x. m_id x = m_id m) (messages (sv_db s))"
    using save id' t1(4) by (auto simp: save_message_Inr db_exists_def list_ex_iff split: if_splits)
  have s3: "messages (sv_db s3) = map (\<lambda>x. if m_id x = m_id m then save_edited m' x else x)
      (map (\<lambda>x. if reaches subject mode m (sv_now s) x then set_topic subject m x else x) (messages (sv_db s)))"
    "sv_events s3 = sv_events s" "realms (sv_db s3) = realms (sv_db s)" using save id' t1(4,6,7) by (auto simp: save_message_Inr)
  show ?thesis
    by (rule exI[of _ history], rule exI[of _ m'], rule exI[of _ others], rule exI[of _ s3], rule exI[of _ s4], rule exI[of _ ids],
        rule exI[of _ ev], rule exI[of _ us]) (intro conjI hist fin t1(3) ex s3 cache s' n)
qed

lemma map_text: "(\<And>x. f (text_of x) = f x) \<Longrightarrow> map text_of xs = map text_of ys \<Longrightarrow> map f xs = map f ys"
proof -
  assume "\<And>x. f (text_of x) = f x" and eq: "map text_of xs = map text_of ys"
  then have "map f zs = map f (map text_of zs)" for zs by simp
  then show ?thesis using eq by metis
qed

lemma edit_changes:
  assumes "do_update_message E dumps u m r subject mode content rc s = (Inr n, s')"
  shows "map (\<lambda>x. (m_id x, m_subject x, m_content x)) (messages (sv_db s')) =
    map (\<lambda>x. if m_id x = m_id m
        then (m_id x, new_topic subject m, case content of None \<Rightarrow> m_content m | Some c \<Rightarrow> c)
        else if reaches subject mode m (sv_now s) x then (m_id x, new_topic subject m, m_content x)
        else (m_id x, m_subject x, m_content x)) (messages (sv_db s)) \<and>
    n = Suc (length (filter (reaches subject mode m (sv_now s)) (messages (sv_db s))))"
proof -
  obtain history m' others s3 s4 ids ev us where
    m': "m' = edited E dumps history (edit_entry u subject content (sv_now s) m) (sv_now s) subject content rc m"
    and others: "others = map (set_topic subject m) (filter (reaches subject mode m (sv_now s)) (messages (sv_db s)))"
    and s3: "messages (sv_db s3) = map (\<lambda>x. if m_id x = m_id m then save_edited m' x else x)
      (map (\<lambda>x. if reaches subject mode m (sv_now s) x then set_topic subject m x else x) (messages (sv_db s)))"
    and cache: "update_to_dict_cache E (m' # others) s3 = (Inr ids, s4)" and s': "s' = s4\<lparr>sv_events := sv_events s4 @ [(ev, us)]\<rparr>"
    and n: "n = Suc (length others)"
    using do_update_message_run[OF assms] by (elim exE conjE) (rule that)
  let ?f = "\<lambda>x. (m_id x, m_subject x, m_content x)"
  have "map ?f (messages (sv_db s4)) = map ?f (messages (sv_db s3))"
    by (rule map_text[OF _ preservesD[OF update_cache_text cache]]) (simp add: text_of_def)
  also have "\<dots> = map (\<lambda>x. if m_id x = m_id m
        then (m_id x, new_topic subject m, case content of None \<Rightarrow> m_content m | Some c \<Rightarrow> c)
        else if reaches subject mode m (sv_now s) x then (m_id x, new_topic subject m, m_content x)
        else (m_id x, m_subject x, m_content x)) (messages (sv_db s))"
    unfolding s3 m' map_map
    by (rule map_cong) (auto simp: save_edited_def edited_def stamp_edit_def set_topic_def split: option.splits)
  finally show ?thesis using s' n others by simp
qed

text \<open>
  C22: An edit that succeeds gives the edited message the new topic (cut to its maximal length)
  and the new content, gives the new topic to exactly the other messages that the mode of
  propagation reaches, and leaves topic and content of every other message as they were; it
  returns how many messages it touched.
\<close>

theorem edit_changes_exactly:
  assumes "do_update_message E dumps u m r subject mode content rc s = (Inr n, s')"
  shows "map (\<lambda>x. (m_id x, m_subject x, m_content x)) (messages (sv_db s')) =
    map (\<lambda>x. if m_id x = m_id m
        then (m_id x, new_topic subject m, case content of None \<Rightarrow> m_content m | Some c \<Rightarrow> c)
        else if reaches subject mode m (sv_now s) x then (m_id x, new_topic subject m, m_content x)
        else (m_id x, m_subject x, m_content x)) (messages (sv_db s)) \<and>
    n = Suc (length (filter (reaches subject mode m (sv_now s)) (messages (sv_db s))))"
  by (rule edit_changes[OF assms])

section \<open>The edit history\<close>







definition edit_server :: server where
  "edit_server = flags_server\<lparr>sv_db := (sv_db flags_server)\<lparr>client_names := [(1, ''website'')]\<rparr>\<rparr>"

definition demo_edit_entry :: pydict where
  "demo_edit_entry = edit_entry (demo_user 8 4 ''bob@zulip.com'') (Some ''plan'') (Some ''bye'') 1000 demo_message"

definition edit_env :: send_env where
  "edit_env = demo_env\<lparr>se_render := demo_render\<lparr>json_loads := (\<lambda>h. Inr (PList [PDict demo_edit_entry]))\<rparr>\<rparr>"

lemma demo_edit_ok: "fst (do_update_message edit_env (\<lambda>v. ''h'') (demo_user 8 4 ''bob@zulip.com'') demo_message no_rendering (Some ''plan'')
    ''change_one'' (Some ''bye'') (Some ''<p>bye</p>'') edit_server) = Inr 1"
  by code_simp

lemma edit_server_simps: "messages (sv_db edit_server) = [demo_message]" "sv_now edit_server = 1000"
  by (simp_all add: edit_server_def flags_server_def demo_db_def empty_db_def demo_server_def)

lemma plan_topic: "truncate_topic ''plan'' = ''plan''"
  by code_simp

theorem edit_changes_exactly_witness:
  "map (\<lambda>x. (m_id x, m_subject x, m_content x)) (messages (sv_db (snd (do_update_message edit_env (\<lambda>v. ''h'')
      (demo_user 8 4 ''bob@zulip.com'') demo_message no_rendering (Some ''plan'') ''change_one'' (Some ''bye'') (Some ''<p>bye</p>'') edit_server)))) =
    [(30, ''plan'', ''bye'')]"
proof -
  obtain s' where run: "do_update_message edit_env (\<lambda>v. ''h'') (demo_user 8 4 ''bob@zulip.com'') demo_message no_rendering (Some ''plan'')
    ''change_one'' (Some ''bye'') (Some ''<p>bye</p>'') edit_server = (Inr 1, s')"
    using demo_edit_ok by (metis prod.collapse)
  have "m_id demo_message = 30" by (simp add: demo_message_def)
  then show ?thesis using edit_changes_exactly[OF run] run by (simp add: edit_server_simps new_topic_def plan_topic)
qed


section \<open>Who may edit\<close>

lemma update_message_keeps_db_on_error:
  "do_update_message E dumps u m r subject mode content rc s = (Inl e, s') \<Longrightarrow> sv_db s' = sv_db s"
  by (auto simp: do_update_message_def atomic_def split: prod.splits sum.splits)

lemma seq_query_result:
  "seq (query q) k s = (res, s') \<Longrightarrow> s' = s \<or> (\<exists>x. q (sv_db s) = Inr x \<and> k x s = (res, s'))"
  by (cases "q (sv_db s)") auto

lemma edit_rendering_run:
  "edit_rendering E u m content s = (res, t) \<Longrightarrow> t = s \<and> (\<forall>x. res = Inr x \<longrightarrow> (x = None \<longleftrightarrow> content = None))"
  by (cases content) (auto simp: edit_rendering_def seq_apply split: sum.splits prod.splits)

lemma queue_edit_links_db: "preserves sv_db (queue_edit_links E u m content rendering)"
  unfolding queue_edit_links_def by (intro preserves_intros)

lemma apply_edit_run:
  assumes "apply_edit E dumps u m subject mode content s = (res, s')"
  shows "sv_db s' = sv_db s \<or> (\<exists>r rc n s1. do_update_message E dumps u m r subject mode content rc s = (Inr n, s1) \<and> sv_db s' = sv_db s1)"
proof -
  obtain res1 t where er: "edit_rendering E u m content s = (res1, t)" by (cases "edit_rendering E u m content s")
  have t: "t = s" using edit_rendering_run[OF er] by simp
  show ?thesis
  proof (cases res1)
    case (Inl e)
    then show ?thesis using assms er t by (auto simp: apply_edit_def)
  next
    case (Inr rendering)
    let ?du = "do_update_message E dumps u m (case rendering of None \<Rightarrow> no_rendering | Some x \<Rightarrow> x)
            subject mode content (map_option r_content rendering) s"
    have run: "seq (\<lambda>s. do_update_message E dumps u m (case rendering of None \<Rightarrow> no_rendering | Some x \<Rightarrow> x)
            subject mode content (map_option r_content rendering) s) (\<lambda>number_changed. queue_edit_links E u m content rendering) s = (res, s')"
      using assms er t Inr by (simp add: apply_edit_def)
    show ?thesis
    proof (cases ?du)
      case (Pair res2 s1)
      show ?thesis
      proof (cases res2)
        case (Inl e)
        then show ?thesis using run Pair update_message_keeps_db_on_error by auto
      next
        case (Inr n)
        then have "queue_edit_links E u m content rendering s1 = (res, s')" using run Pair by simp
        then have "sv_db s' = sv_db s1" by (rule preservesD[OF queue_edit_links_db])
        then show ?thesis using Pair Inr by blast
      qed
    qed
  qed
qed

text \<open>A request to edit either leaves the database as it was, or was allowed and ran \<open>do_update_message\<close>.\<close>

lemma update_message_backend_run:
  assumes "update_message_backend E dumps u mid subject mode content s = (res, s')"
  shows "sv_db s' = sv_db s \<or> (\<exists>m um r rn rc n s1.
    access_message u mid (sv_db s) = Inr (m, um) \<and> the_realm (u_realm u) (sv_db s) = Inr r \<and> rm_allow_message_editing r \<and>
    may_edit u m content \<and> (content \<noteq> None \<longrightarrow> \<not> too_late r m (sv_now s)) \<and>
    do_update_message E dumps u m rn (map_option str_strip subject) mode (map_option edited_content content) rc s = (Inr n, s1) \<and>
    sv_db s' = sv_db s1)"
proof (cases "sv_db s' = sv_db s")
  case changed: False
  obtain r where r: "the_realm (u_realm u) (sv_db s) = Inr r" and allow: "rm_allow_message_editing r"
    and s1: "seq (query (access_message u mid)) (\<lambda>(m, _).
       if \<not> may_edit u m content then raise (JsonableError ''You don't have permission to edit this message'')
       else
         seq timezone_now (\<lambda>now.
         if content \<noteq> None \<and> too_late r m now then raise (JsonableError ''The time limit for editing this message has past'')
         else if subject = None \<and> content = None then raise (JsonableError ''Nothing to change'')
         else
           let subject = map_option str_strip subject in
           if subject = Some [] then raise (JsonableError ''Topic can't be empty'')
           else apply_edit E dumps u m subject mode (map_option edited_content content))) s = (res, s')"
    using seq_query_result[OF assms[unfolded update_message_backend_def]] changed by (auto split: if_splits)
  obtain m um where acc: "access_message u mid (sv_db s) = Inr (m, um)" and may: "may_edit u m content"
    and time: "content \<noteq> None \<longrightarrow> \<not> too_late r m (sv_now s)"
    and tail: "apply_edit E dumps u m (map_option str_strip subject) mode (map_option edited_content content) s = (res, s')"
    using seq_query_result[OF s1] changed
    by (auto simp: Let_def seq_apply[of timezone_now] split: if_splits)
  then show ?thesis using apply_edit_run[OF tail] changed r allow by blast
qed simp

text \<open>
  C7: Whatever the outcome of a request to edit a message, contents of stored messages change
  only for the message asked for, and only if its sender asked, has access to it, in a realm
  that allows editing and before the time limit of the realm has passed.
\<close>

theorem only_sender_edits_content:
  assumes "update_message_backend E dumps u mid subject mode content s = (res, s')"
    and "distinct (map m_id (messages (sv_db s)))"
    and "map (\<lambda>x. (m_id x, m_content x)) (messages (sv_db s')) \<noteq> map (\<lambda>x. (m_id x, m_content x)) (messages (sv_db s))"
  shows "\<exists>m um r c. access_message u mid (sv_db s) = Inr (m, um) \<and> m_sender m = u_id u \<and> content = Some c \<and>
    the_realm (u_realm u) (sv_db s) = Inr r \<and> rm_allow_message_editing r \<and> \<not> too_late r m (sv_now s) \<and>
    map (\<lambda>x. (m_id x, m_content x)) (messages (sv_db s')) =
      map (\<lambda>x. (m_id x, if m_id x = mid then edited_content c else m_content x)) (messages (sv_db s))"
proof -
  let ?f = "\<lambda>x. (m_id x, m_content x)"
  obtain m um r rn rc n s1 where acc: "access_message u mid (sv_db s) = Inr (m, um)" and r: "the_realm (u_realm u) (sv_db s) = Inr r"
    and allow: "rm_allow_message_editing r" and may: "may_edit u m content"
    and time: "content \<noteq> None \<longrightarrow> \<not> too_late r m (sv_now s)"
    and run: "do_update_message E dumps u m rn (map_option str_strip subject) mode (map_option edited_content content) rc s = (Inr n, s1)"
    and db: "sv_db s' = sv_db s1"
    using update_message_backend_run[OF assms(1)] assms(3) by (elim disjE) (simp, elim exE conjE, rule that)
  have m: "m_id m = mid" "m \<in> set (messages (sv_db s))" using access_message_id[OF acc] by simp_all
  let ?g = "\<lambda>x. (m_id x, if m_id x = mid then (case content of None \<Rightarrow> m_content m | Some c \<Rightarrow> edited_content c) else m_content x)"
  have "map (\<lambda>t. (fst t, snd (snd t))) (map (\<lambda>x. (m_id x, m_subject x, m_content x)) (messages (sv_db s1))) = map ?g (messages (sv_db s))"
    unfolding edit_changes[OF run, THEN conjunct1] map_map
    by (rule map_cong) (auto simp: m(1) split: option.splits)
  then have new: "map ?f (messages (sv_db s')) = map ?g (messages (sv_db s))" by (simp add: db comp_def)
  obtain c where c: "content = Some c"
  proof (cases content)
    case None
    have "map ?g (messages (sv_db s)) = map ?f (messages (sv_db s))"
      using None m assms(2) by (auto simp: distinct_map inj_on_def)
    then show ?thesis using new assms(3) by simp
  qed
  then have sender: "m_sender m = u_id u" using may by (simp add: may_edit_def split: if_splits)
  show ?thesis
    by (rule exI[of _ m], rule exI[of _ um], rule exI[of _ r], rule exI[of _ c])
      (use acc sender c r allow time new in \<open>simp add: c\<close>)
qed

definition edit_view_server :: server where
  "edit_view_server = edit_server\<lparr>sv_db := (sv_db edit_server)\<lparr>realms := [demo_realm\<lparr>rm_message_content_edit_limit_seconds := 0\<rparr>]\<rparr>\<rparr>"

definition demo_edit_view :: "(pyerr + unit) \<times> server" where
  "demo_edit_view = update_message_backend edit_env (\<lambda>v. ''h'') (demo_user 8 4 ''bob@zulip.com'') 30 (Some ''plan'') ''change_one'' (Some '' bye '')
     edit_view_server"

lemma demo_edit_view_new: "map (\<lambda>x. (m_id x, m_content x)) (messages (sv_db (snd demo_edit_view))) = [(30, ''bye'')]"
  by code_simp

theorem only_sender_edits_content_witness:
  "\<exists>m um. access_message (demo_user 8 4 ''bob@zulip.com'') 30 (sv_db edit_view_server) = Inr (m, um) \<and> m_sender m = 8"
proof -
  have old: "messages (sv_db edit_view_server) = [demo_message]" "u_id (demo_user 8 4 ''bob@zulip.com'') = 8" "m_content demo_message = ''hi''"
    by (simp_all add: edit_view_server_def edit_server_simps demo_user_def demo_message_def)
  obtain res s' where run: "demo_edit_view = (res, s')" by (cases demo_edit_view)
  have dist: "distinct (map m_id (messages (sv_db edit_view_server)))" using old(1) by simp
  have ne: "map (\<lambda>x. (m_id x, m_content x)) (messages (sv_db s')) \<noteq> map (\<lambda>x. (m_id x, m_content x)) (messages (sv_db edit_view_server))"
    using demo_edit_view_new[unfolded run snd_conv] old(1,3) by (simp del: map_eq_Cons_conv)
  show ?thesis using only_sender_edits_content[OF run[unfolded demo_edit_view_def] dist ne] old(2)
    by (elim exE conjE) (intro exI conjI, assumption, simp)
qed

section \<open>Deletion\<close>









section \<open>Boundary behaviour of edits\<close>

text \<open>
  The history of a message that was never edited cannot be asked for: in a realm that
  allows it, the request of a user with access to the message ends in an exception that no
  handler turns into an error response, because the missing history is parsed as JSON.
\<close>

theorem history_of_unedited_message_fails:
  assumes "the_realm (u_realm u) d = Inr r" and "rm_allow_edit_history r"
    and "access_message u mid d = Inr (m, um)" and "m_edit_history m = None"
  shows "get_message_edit_history E df u mid d = Inl (TypeError ''Expected String or Unicode'')"
  using assms by (simp add: get_message_edit_history_def the_some_def)

theorem history_of_unedited_message_fails_witness:
  "get_message_edit_history demo_env (\<lambda>a b. Inr []) (demo_user 8 4 ''bob@zulip.com'') 30 (sv_db flags_server) =
    Inl (TypeError ''Expected String or Unicode'')"
proof -
  have u: "u_realm (demo_user 8 4 ''bob@zulip.com'') = 4" by (simp add: demo_user_def)
  have fs: "realms (sv_db flags_server) = [demo_realm]" "messages (sv_db flags_server) = [demo_message]"
    "user_messages (sv_db flags_server) = [\<lparr>um_user_profile = 8, um_message = 30, um_flags = 1\<rparr>, \<lparr>um_user_profile = 9, um_message = 31, um_flags = 8\<rparr>]"
    by (simp_all add: flags_server_def demo_db_def empty_db_def)
  have r: "the_realm (u_realm (demo_user 8 4 ''bob@zulip.com'')) (sv_db flags_server) = Inr demo_realm" "rm_allow_edit_history demo_realm"
    by (simp_all add: the_realm_def db_get_def fs demo_realm_def u)
  have "access_message (demo_user 8 4 ''bob@zulip.com'') 30 (sv_db flags_server) =
      Inr (demo_message, Some \<lparr>um_user_profile = 8, um_message = 30, um_flags = 1\<rparr>)"
    by (simp add: access_message_def db_get_def fs demo_message_def demo_user_def)
  then show ?thesis
    by (rule history_of_unedited_message_fails[OF r]) (simp add: demo_message_def)
qed

text \<open>
  An edit never changes what is stored about attachments, images and links of a message,
  whatever the new content has: the fields that the handler of the save recalculates are not
  among the fields that are written.
\<close>

theorem edit_keeps_stale_links:
  assumes "do_update_message E dumps u m r subject mode content rc s = (Inr n, s')"
  shows "map (\<lambda>x. (m_id x, m_has_attachment x, m_has_image x, m_has_link x)) (messages (sv_db s')) =
    map (\<lambda>x. (m_id x, m_has_attachment x, m_has_image x, m_has_link x)) (messages (sv_db s))"
proof -
  obtain m' others s3 s4 ids ev us where
    s3: "messages (sv_db s3) = map (\<lambda>x. if m_id x = m_id m then save_edited m' x else x)
      (map (\<lambda>x. if reaches subject mode m (sv_now s) x then set_topic subject m x else x) (messages (sv_db s)))"
    and cache: "update_to_dict_cache E (m' # others) s3 = (Inr ids, s4)" and s': "s' = s4\<lparr>sv_events := sv_events s4 @ [(ev, us)]\<rparr>"
    using do_update_message_run[OF assms] by (elim exE conjE) (rule that)
  let ?f = "\<lambda>x. (m_id x, m_has_attachment x, m_has_image x, m_has_link x)"
  have "map ?f (messages (sv_db s4)) = map ?f (messages (sv_db s3))"
    by (rule map_text[OF _ preservesD[OF update_cache_text cache]]) (simp add: text_of_def)
  also have "\<dots> = map ?f (messages (sv_db s))"
    unfolding s3 map_map by (rule map_cong) (auto simp: save_edited_def set_topic_def)
  finally show ?thesis using s' by simp
qed

theorem edit_keeps_stale_links_witness:
  "map (\<lambda>x. (m_id x, m_has_link x)) (messages (sv_db (snd (do_update_message edit_env (\<lambda>v. ''h'')
      (demo_user 8 4 ''bob@zulip.com'') demo_message no_rendering (Some ''plan'') ''change_one'' (Some ''bye'') (Some ''<p>bye</p>'') edit_server)))) =
    [(30, False)]"
proof -
  obtain s' where run: "do_update_message edit_env (\<lambda>v. ''h'') (demo_user 8 4 ''bob@zulip.com'') demo_message no_rendering (Some ''plan'')
    ''change_one'' (Some ''bye'') (Some ''<p>bye</p>'') edit_server = (Inr 1, s')"
    using demo_edit_ok by (metis prod.collapse)
  have d: "m_id demo_message = 30" "\<not> m_has_link demo_message" by (simp_all add: demo_message_def)
  have "map (\<lambda>t. (fst t, snd (snd (snd t)))) (map (\<lambda>x. (m_id x, m_has_attachment x, m_has_image x, m_has_link x)) (messages (sv_db s'))) = [(30, False)]"
    unfolding edit_keeps_stale_links[OF run] by (simp add: edit_server_simps d)
  then show ?thesis using run by (simp add: comp_def)
qed

end
