(* ===== verification/ClientProps.thy ===== *)
theory ClientProps
  imports ClientState MessageEditProps
begin

text \<open>
  What the event system promises to a client: applying an event to the state fetched before an
  action gives the state that fetching after the action gives. Here for the unread messages
  and the flags, for the default streams, and, as a refinement of an abstract status of each
  stream, for subscriptions; with the places where the promise is broken.
\<close>

section \<open>Reading messages\<close>










lemma emap_as_int [simp]: "emap as_int (map PInt ids) = Inr ids"
  by (induction ids) simp_all












section \<open>Subscriptions as an abstract status\<close>

text \<open>The lists a stream is in, by its name in lower case: in one of them, in none, or in several.\<close>

datatype sub_status = Subscribed | Unsubscribed | NeverSubscribed

datatype sub_step = AddSubs "string list" | RemoveSubs "string list" | CreateStreams "string list" | PeerChange

fun spec_step :: "sub_step \<Rightarrow> (string \<Rightarrow> sub_status set) \<Rightarrow> string \<Rightarrow> sub_status set" where
  "spec_step (AddSubs ns) f n = (if n \<in> set ns then {Subscribed} else f n)"
| "spec_step (RemoveSubs ns) f n = (if n \<in> set ns \<and> Subscribed \<in> f n then insert Unsubscribed (f n - {Subscribed}) else f n)"
| "spec_step (CreateStreams ns) f n = (if n \<in> set ns then insert NeverSubscribed (f n) else f n)"
| "spec_step PeerChange f n = f n"




definition has_dicts :: "string \<Rightarrow> pydict list \<Rightarrow> client_state \<Rightarrow> bool" where
  "has_dicts k ds st \<longleftrightarrow> map_of (cs_values st) k = Some (PList (map PDict ds))"









lemma emap_PDict [simp]: "emap as_dict (map PDict ds) = Inr ds"
  by (induction ds) simp_all

lemma has_dicts_state [simp]: "has_dicts k ds st \<Longrightarrow> state_dicts k st = Inr ds"
  by (simp add: has_dicts_def state_dicts_def get_list_def dget_def)






























lemma spec_peer [simp]: "spec_step PeerChange f = f"
  by (rule ext) simp












section \<open>Where the promise is broken\<close>

text \<open>
  A client that registers for messages and not for their flags has no unread messages in its
  state, and then a message that arrives during the registration makes it fail.
\<close>

theorem message_event_needs_unread:
  assumes "\<not> isl (fetch_initial_state_data F u (Some types) q inc now d)" and "''update_message_flags'' \<notin> set types"
    and "get_str ev ''type'' = Inr ''message''"
  shows "isl (ebind (fetch_initial_state_data F u (Some types) q inc now d) (apply_event E u inc d' ev))"
proof -
  obtain st where st: "fetch_initial_state_data F u (Some types) q inc now d = Inr st"
    using assms(1) by (cases "fetch_initial_state_data F u (Some types) q inc now d") auto
  then have none: "cs_unread st = None" using assms(2) by (auto simp: fetch_initial_state_data_def Let_def)
  have unread: "isl (on_unread f (st\<lparr>cs_values := vs\<rparr>))" for f vs
    using none by (simp add: on_unread_def the_unread_def the_some_def)
  have "isl (apply_message ev st)"
  proof (cases "get_int (cs_values st) ''max_message_id''")
    case 1: (Inr old)
    show ?thesis
    proof (cases "get_dict ev ''message''")
      case 2: (Inr m)
      show ?thesis
        by (cases "get_int m ''id''") (simp_all add: apply_message_def 1 2 unread set_value_def)
    qed (simp add: apply_message_def 1)
  qed (simp add: apply_message_def)
  then show ?thesis using st assms(3) by (simp add: apply_event_def)
qed

text \<open>
  When the right to create streams changes during a registration, the state says the new
  setting of the realm, and as the right of the user what followed from the old one.
\<close>

theorem realm_update_keeps_stale_right:
  assumes "get_str ev ''type'' = Inr ''realm''" and "get_str ev ''op'' = Inr ''update''"
    and "get_str ev ''property'' = Inr ''create_stream_by_admins_only''" and "dget ev ''value'' = Inr v"
    and "dhas (cs_values st) ''can_create_streams''"
  shows "\<exists>st'. apply_event E u inc d ev st = Inr st' \<and> dget (cs_values st') ''realm_create_stream_by_admins_only'' = Inr v \<and>
    dget (cs_values st') ''can_create_streams'' = Inr (PBool (can_create_streams (ee_now E) u (ee_realm E)))"
  using assms by (auto simp: apply_event_def apply_realm_def apply_realm_update_def copy_value_def set_value_def dget_def)

end
