(* ===== verification/Registration.thy ===== *)
theory Registration
  imports ClientProps TornadoProps
begin

text \<open>
  Registration of a client (\<open>zerver/views/events_register.py\<close>, \<open>do_events_register\<close> of
  \<open>zerver/lib/events.py\<close>, \<open>request_event_queue\<close> and \<open>get_user_events\<close> of
  \<open>zerver/tornado/event_queue.py\<close>): the Django process asks Tornado for a queue, fetches the
  state, and applies the events that the queue holds by then. What the rest of the system does
  between these steps is a pair of arbitrary functions on the states of Tornado and the database.
\<close>

section \<open>Requests to Tornado\<close>

text \<open>
  The Tornado server is reached over HTTP: \<open>wire\<close> is what JSON makes of an event, an answer
  with an error status raises, and without a configured server there is no queue and no event.
  \<open>tornado_gen\<close> and \<open>email_of\<close> are the parameters of the Tornado process.
\<close>

record tornado_env =
  te_server :: bool
  te_gen :: int
  te_email_of :: "int \<Rightarrow> pyerr + string"
  wire :: "pydict \<Rightarrow> pydict"

definition tornado_get :: "tornado_env \<Rightarrow> rat \<Rightarrow> events_request \<Rightarrow> tornado \<Rightarrow> pyerr + (pydict list \<times> string option) \<times> tornado" where
  "tornado_get T now r s =
     ebind (handle_events_request (te_gen T) (te_email_of T) now r s) (\<lambda>(res, s').
       case res of
         Response events hid queue_id \<Rightarrow> Inr ((map (wire T) events, queue_id), s')
       | _ \<Rightarrow> Inl (OtherError ''HTTPError''))"

definition request_event_queue ::
  "tornado_env \<Rightarrow> rat \<Rightarrow> user_profile \<Rightarrow> string \<Rightarrow> bool \<Rightarrow> int \<Rightarrow> string list option \<Rightarrow> bool \<Rightarrow> string list list \<Rightarrow>
   tornado \<Rightarrow> pyerr + string option \<times> tornado" where
  "request_event_queue T now u client_name markdown queue_lifespan_secs types all_public nrw s =
     (if te_server T then
        ebind (tornado_get T now
          \<lparr>r_user_id = u_id u, r_email = u_email u, r_realm_id = u_realm u, r_client_name = client_name,
           r_last_event_id = None, r_queue_id = None, r_apply_markdown = markdown,
           r_all_public_streams = all_public, r_event_types = types, r_dont_block = True,
           r_narrow = nrw, r_lifespan_secs = queue_lifespan_secs\<rparr> s) (\<lambda>((events, queue_id), s').
          case queue_id of None \<Rightarrow> Inl (KeyError ''queue_id'') | Some q \<Rightarrow> Inr (Some q, s'))
      else Inr (None, s))"

definition get_user_events ::
  "tornado_env \<Rightarrow> rat \<Rightarrow> user_profile \<Rightarrow> string \<Rightarrow> int \<Rightarrow> tornado \<Rightarrow> pyerr + pydict list \<times> tornado" where
  "get_user_events T now u queue_id last_event_id s =
     (if te_server T then
        ebind (tornado_get T now
          \<lparr>r_user_id = u_id u, r_email = u_email u, r_realm_id = u_realm u, r_client_name = ''internal'',
           r_last_event_id = Some last_event_id, r_queue_id = Some queue_id, r_apply_markdown = False,
           r_all_public_streams = False, r_event_types = None, r_dont_block = True,
           r_narrow = [], r_lifespan_secs = 0\<rparr> s) (\<lambda>((events, _), s'). Inr (events, s'))
      else Inr ([], s))"

section \<open>Registering\<close>

text \<open>
  \<open>before_fetch\<close> and \<open>before_poll\<close>: what happens in the system, events of other requests
  included, before the state is fetched and before the events are collected.
\<close>

record interleaving =
  before_fetch :: "tornado \<times> db \<Rightarrow> tornado \<times> db"
  before_poll :: "tornado \<times> db \<Rightarrow> tornado \<times> db"

definition do_events_register ::
  "fetch_env \<Rightarrow> tornado_env \<Rightarrow> interleaving \<Rightarrow> rat \<Rightarrow> user_profile \<Rightarrow> string \<Rightarrow> bool \<Rightarrow> string list option \<Rightarrow> int \<Rightarrow> bool \<Rightarrow>
   bool \<Rightarrow> string list list \<Rightarrow> string list option \<Rightarrow> tornado \<times> db \<Rightarrow> pyerr + client_state \<times> tornado \<times> db" where
  "do_events_register F T I now u client_name markdown types queue_lifespan_secs all_public
     include_subscribers nrw fetch_event_types sys =
     ebind (check_supported_events_narrow_filter nrw) (\<lambda>_.
     ebind (request_event_queue T now u client_name markdown queue_lifespan_secs types all_public nrw
             (fst sys)) (\<lambda>(queue_id, s1).
     case queue_id of
       None \<Rightarrow> Inl (JsonableError ''Could not allocate event queue'')
     | Some q \<Rightarrow>
         (case before_fetch I (s1, snd sys) of (s2, d2) \<Rightarrow>
         ebind (fetch_initial_state_data F u (if fetch_event_types \<noteq> None then fetch_event_types else types) q
                 include_subscribers now d2) (\<lambda>ret.
         case before_poll I (s2, d2) of (s3, d3) \<Rightarrow>
         ebind (get_user_events T now u q (-1) s3) (\<lambda>(events, s4).
         ebind (apply_events (fe_events F) u include_subscribers fetch_event_types d3 events ret) (\<lambda>ret.
         if events = [] then Inr (set_value ''last_event_id'' (PInt (-1)) ret, s4, d3)
         else ebind (dget (last events) ''id'') (\<lambda>i. Inr (set_value ''last_event_id'' i ret, s4, d3))))))))"

text \<open>The view and its defaults.\<close>

definition default_all_public_streams :: "user_profile \<Rightarrow> bool option \<Rightarrow> bool" where
  "default_all_public_streams u all_public =
     (case all_public of Some b \<Rightarrow> b | None \<Rightarrow> u_default_all_public_streams u)"

definition default_narrow :: "user_profile \<Rightarrow> string list list \<Rightarrow> db \<Rightarrow> pyerr + string list list" where
  "default_narrow u nrw d =
     (case u_default_events_register_stream u of
        Some i \<Rightarrow> if nrw = [] then ebind (db_get ''Stream'' (\<lambda>s. st_id s = i) (streams d)) (\<lambda>s. Inr [[''stream'', st_name s]])
                  else Inr nrw
      | None \<Rightarrow> Inr nrw)"

definition events_register_backend ::
  "fetch_env \<Rightarrow> tornado_env \<Rightarrow> interleaving \<Rightarrow> rat \<Rightarrow> user_profile \<Rightarrow> string \<Rightarrow> bool \<Rightarrow> bool option \<Rightarrow> bool \<Rightarrow>
   string list option \<Rightarrow> string list option \<Rightarrow> string list list \<Rightarrow> int \<Rightarrow> tornado \<times> db \<Rightarrow> pyerr + client_state \<times> tornado \<times> db" where
  "events_register_backend F T I now u client_name markdown all_public include_subscribers types
     fetch_event_types nrw queue_lifespan_secs sys =
     ebind (default_narrow u nrw (snd sys)) (\<lambda>nrw.
       do_events_register F T I now u client_name markdown types queue_lifespan_secs
         (default_all_public_streams u all_public) include_subscribers nrw fetch_event_types sys)"

end
