(* ===== verification/RegistrationProps.thy ===== *)
theory RegistrationProps
  imports Registration
begin























end
