(* ===== verification/Analytics.thy ===== *)
theory Analytics
  imports Models
begin

text \<open>
  The analytics tables (\<open>analytics/lib/counts.py\<close>, \<open>analytics/models.py\<close>, \<open>analytics/lib/time_utils.py\<close>,
  \<open>zerver/lib/timestamp.py\<close>): the queries that count, the aggregation per realm and installation, and
  \<open>process_count_stat\<close>, which fills a statistic hour by hour or day by day and recovers from an
  interrupted run. A task yields, besides its result, every database state it committed, so that an
  interruption is a prefix of them. Times are seconds since the epoch, in UTC; the log is left out.
\<close>

section \<open>Hours and days\<close>

definition floor_to_hour :: "rat \<Rightarrow> rat" where
  "floor_to_hour dt = of_int (\<lfloor>dt / 3600\<rfloor> * 3600)"

definition floor_to_day :: "rat \<Rightarrow> rat" where
  "floor_to_day dt = of_int (\<lfloor>dt / 86400\<rfloor> * 86400)"

definition ceiling_to_hour :: "rat \<Rightarrow> rat" where
  "ceiling_to_hour dt = (if floor_to_hour dt = dt then floor_to_hour dt else floor_to_hour dt + 3600)"

definition ceiling_to_day :: "rat \<Rightarrow> rat" where
  "ceiling_to_day dt = (if floor_to_day dt = dt then floor_to_day dt else floor_to_day dt + 86400)"

datatype frequency = HOUR | DAY

fun time_increment :: "frequency \<Rightarrow> rat" where
  "time_increment HOUR = 3600"
| "time_increment DAY = 86400"

lemma time_increment_pos [simp]: "0 < time_increment f" "time_increment f \<noteq> 0"
  by (cases f; simp)+

text \<open>\<open>while current >= start\<close>, collected from the end of the range backwards.\<close>

function times_back :: "frequency \<Rightarrow> rat \<Rightarrow> rat \<Rightarrow> rat list" where
  "times_back f start current =
     (if current \<ge> start then current # times_back f start (current - time_increment f) else [])"
  by pat_completeness auto
termination
proof (relation "measure (\<lambda>(f, start, current). nat (\<lfloor>(current - start) / time_increment f\<rfloor> + 1))")
  fix f :: frequency and start current :: rat
  assume "start \<le> current"
  then have "0 \<le> (current - start) / time_increment f" by (intro divide_nonneg_pos) simp_all
  moreover have "(current - time_increment f - start) / time_increment f = (current - start) / time_increment f - 1"
    by (simp add: diff_divide_distrib)
  ultimately show "((f, start, current - time_increment f), f, start, current) \<in>
      measure (\<lambda>(f, start, current). nat (\<lfloor>(current - start) / time_increment f\<rfloor> + 1))"
    by simp
qed simp

declare times_back.simps [simp del]

definition time_range :: "rat \<Rightarrow> rat \<Rightarrow> frequency \<Rightarrow> int option \<Rightarrow> rat list" where
  "time_range start end1 f min_length =
     (let end1 = (case f of HOUR \<Rightarrow> floor_to_hour end1 | DAY \<Rightarrow> floor_to_day end1);
          start = (case min_length of None \<Rightarrow> start | Some n \<Rightarrow> min start (end1 - of_int (n - 1) * time_increment f))
      in rev (times_back f start end1))"

section \<open>Queries\<close>

text \<open>\<open>SELECT k, count(*) ... GROUP BY k\<close>\<close>

definition group_count :: "'k list \<Rightarrow> ('k \<times> int) list" where
  "group_count ks = map (\<lambda>k. (k, int (count_list ks k))) (remdups ks)"

datatype group_by = NoGroup | ByIsBot | ByClient

definition sql_bool :: "bool \<Rightarrow> string" where
  "sql_bool b = (if b then ''true'' else ''false'')"

definition subgroup :: "group_by \<Rightarrow> user_profile \<Rightarrow> message option \<Rightarrow> string option" where
  "subgroup g u m = (case g of NoGroup \<Rightarrow> None | ByIsBot \<Rightarrow> Some (sql_bool (u_is_bot u))
     | ByClient \<Rightarrow> map_option (\<lambda>m. int_str (m_sending_client m)) m)"

definition user_row :: "string \<Rightarrow> rat \<Rightarrow> (int \<times> int \<times> string option) \<times> int \<Rightarrow> user_count" where
  "user_row prop end1 x = (case x of ((uid, realm, sg), n) \<Rightarrow>
     \<lparr>bc_property = prop, bc_subgroup = sg, bc_end_time = end1, bc_value = n, bc_realm = realm, uc_user = uid\<rparr>)"

definition stream_row :: "string \<Rightarrow> rat \<Rightarrow> (int \<times> int \<times> string option) \<times> int \<Rightarrow> stream_count" where
  "stream_row prop end1 x = (case x of ((sid, realm, sg), n) \<Rightarrow>
     \<lparr>bc_property = prop, bc_subgroup = sg, bc_end_time = end1, bc_value = n, bc_realm = realm, sc_stream = sid\<rparr>)"

definition realm_row :: "string \<Rightarrow> rat \<Rightarrow> (int \<times> string option) \<times> int \<Rightarrow> realm_count" where
  "realm_row prop end1 x = (case x of ((realm, sg), n) \<Rightarrow>
     \<lparr>bc_property = prop, bc_subgroup = sg, bc_end_time = end1, bc_value = n, bc_realm = realm\<rparr>)"

type_synonym 'r counting = "string \<Rightarrow> rat \<Rightarrow> rat \<Rightarrow> db \<Rightarrow> 'r list"

definition count_message_by_user_query :: "group_by \<Rightarrow> user_count counting" where
  "count_message_by_user_query g prop start end1 d =
     map (user_row prop end1) (group_count [(u_id u, u_realm u, subgroup g u (Some m)).
       u \<leftarrow> users d, u_date_joined u < end1, m \<leftarrow> messages d, m_sender m = u_id u \<and> start \<le> m_pub_date m \<and> m_pub_date m < end1])"

definition message_type :: "recipient \<Rightarrow> db \<Rightarrow> string" where
  "message_type rc d =
     (if rc_type rc = PERSONAL then ''private_message''
      else if rc_type rc = HUDDLE then ''huddle_message''
      else if (case find (\<lambda>st. st_id st = rc_type_id rc) (streams d) of Some st \<Rightarrow> st_invite_only st = Some True | None \<Rightarrow> False)
      then ''private_stream'' else ''public_stream'')"

definition count_message_type_by_user_query :: "user_count counting" where
  "count_message_type_by_user_query prop start end1 d =
     map (user_row prop end1) (group_count [(u_id u, u_realm u, Some (message_type rc d)).
       u \<leftarrow> users d, m \<leftarrow> messages d, m_sender m = u_id u \<and> start \<le> m_pub_date m \<and> m_pub_date m < end1,
       rc \<leftarrow> recipients d, rc_id rc = m_recipient m])"

definition count_message_by_stream_query :: "group_by \<Rightarrow> stream_count counting" where
  "count_message_by_stream_query g prop start end1 d =
     map (stream_row prop end1) (group_count [(st_id st, st_realm st, subgroup g u (Some m)).
       st \<leftarrow> streams d, st_date_created st < end1, rc \<leftarrow> recipients d, rc_type_id rc = st_id st \<and> rc_type rc = STREAM,
       m \<leftarrow> messages d, m_recipient m = rc_id rc \<and> start \<le> m_pub_date m \<and> m_pub_date m < end1,
       u \<leftarrow> users d, u_id u = m_sender m])"

definition count_user_by_realm_query :: "group_by \<Rightarrow> realm_count counting" where
  "count_user_by_realm_query g prop start end1 d =
     map (realm_row prop end1) (group_count [(rm_id r, subgroup g u None).
       r \<leftarrow> realms d, rm_date_created r < end1,
       u \<leftarrow> users d, u_realm u = rm_id r \<and> start \<le> u_date_joined u \<and> u_date_joined u < end1 \<and> u_is_active u])"

definition ACTIVITY_CHANGES :: "string list" where
  "ACTIVITY_CHANGES = [''user_created'', ''user_deactivated'', ''user_activated'', ''user_reactivated'']"

definition latest_activity_change :: "rat \<Rightarrow> int option \<Rightarrow> db \<Rightarrow> rat option" where
  "latest_activity_change end1 uid d =
     (let ts = map al_event_time (filter (\<lambda>l. al_event_type l \<in> set ACTIVITY_CHANGES \<and> al_event_time l < end1 \<and>
            al_modified_user l = uid) (audit_logs d))
      in if ts = [] then None else Some (foldl max (hd ts) (tl ts)))"

definition check_realmauditlog_by_user_query :: "group_by \<Rightarrow> user_count counting" where
  "check_realmauditlog_by_user_query g prop start end1 d =
     map (user_row prop end1) [((u_id u, al_realm l, subgroup g u None), 1).
       l \<leftarrow> audit_logs d, al_event_type l \<in> set [''user_created'', ''user_activated'', ''user_reactivated''] \<and>
         latest_activity_change end1 (al_modified_user l) d = Some (al_event_time l),
       u \<leftarrow> users d, al_modified_user l = Some (u_id u)]"

definition check_useractivityinterval_by_user_query :: "group_by \<Rightarrow> user_count counting" where
  "check_useractivityinterval_by_user_query g prop start end1 d =
     map (\<lambda>(k, n). user_row prop end1 (k, 1)) (group_count [(u_id u, u_realm u, subgroup g u None).
       u \<leftarrow> users d, i \<leftarrow> activity_intervals d, ui_user_profile i = u_id u \<and> start \<le> ui_end i \<and> ui_start i < end1])"

definition count_realm_active_humans_query :: "realm_count counting" where
  "count_realm_active_humans_query prop start end1 d =
     map (realm_row prop end1) (group_count [(bc_realm c, None).
       c \<leftarrow> user_counts d, bc_property c = ''active_users_audit:is_bot:day'' \<and> bc_subgroup c = Some ''false'' \<and> bc_end_time c = end1,
       c2 \<leftarrow> user_counts d, bc_property c2 = ''15day_actives::day'' \<and> bc_end_time c2 = end1 \<and> uc_user c2 = uc_user c])"

definition overlap :: "rat \<Rightarrow> rat \<Rightarrow> user_activity_interval \<Rightarrow> rat" where
  "overlap start end1 i = min end1 (ui_end i) - max start (ui_start i)"

definition seconds_active :: "rat \<Rightarrow> rat \<Rightarrow> db \<Rightarrow> ((int \<times> int) \<times> rat) list" where
  "seconds_active start end1 d =
     foldl (\<lambda>acc (k, s). dset k ((case map_of acc k of None \<Rightarrow> 0 | Some t \<Rightarrow> t) + s) acc) []
       [((u_id u, u_realm u), overlap start end1 i).
         i \<leftarrow> activity_intervals d, ui_end i > start \<and> ui_start i < end1, u \<leftarrow> users d, u_id u = ui_user_profile i]"

definition do_pull_minutes_active :: "user_count counting" where
  "do_pull_minutes_active prop start end1 d =
     map (\<lambda>((uid, realm), s). user_row prop end1 ((uid, realm, None), \<lfloor>s / 60\<rfloor>))
       (filter (\<lambda>(k, s). s \<ge> 60) (seconds_active start end1 d))"


section \<open>Statistics\<close>

datatype output_table = UserCount | StreamCount | RealmCount

text \<open>
  What \<open>isinstance\<close> tells apart: a plain statistic, one that other code logs to, and one that needs
  others to be filled first. A pull function inserts the rows of its query.
\<close>

datatype stat_kind = Plain | Logging | Dependent "string list"

record count_stat =
  cst_property :: string
  cst_table :: output_table
  cst_pull :: "(string \<Rightarrow> rat \<Rightarrow> rat \<Rightarrow> db \<Rightarrow> db) option"
  cst_frequency :: frequency
  cst_interval :: rat
  cst_kind :: stat_kind

definition insert_user_counts :: "user_count counting \<Rightarrow> string \<Rightarrow> rat \<Rightarrow> rat \<Rightarrow> db \<Rightarrow> db" where
  "insert_user_counts q prop start end1 d = d\<lparr>user_counts := user_counts d @ q prop start end1 d\<rparr>"

definition insert_stream_counts :: "stream_count counting \<Rightarrow> string \<Rightarrow> rat \<Rightarrow> rat \<Rightarrow> db \<Rightarrow> db" where
  "insert_stream_counts q prop start end1 d = d\<lparr>stream_counts := stream_counts d @ q prop start end1 d\<rparr>"

definition insert_realm_counts :: "realm_count counting \<Rightarrow> string \<Rightarrow> rat \<Rightarrow> rat \<Rightarrow> db \<Rightarrow> db" where
  "insert_realm_counts q prop start end1 d = d\<lparr>realm_counts := realm_counts d @ q prop start end1 d\<rparr>"

definition TIMEDELTA_MAX :: rat where
  "TIMEDELTA_MAX = 365 * 1000 * 86400"

definition MIN_INTERVAL_LENGTH :: rat where
  "MIN_INTERVAL_LENGTH = 15 * 60"

definition count_stats :: "count_stat list" where
  "count_stats =
     [\<lparr>cst_property = ''messages_sent:is_bot:hour'', cst_table = UserCount,
       cst_pull = Some (insert_user_counts (count_message_by_user_query ByIsBot)),
       cst_frequency = HOUR, cst_interval = 3600, cst_kind = Plain\<rparr>,
      \<lparr>cst_property = ''messages_sent:message_type:day'', cst_table = UserCount,
       cst_pull = Some (insert_user_counts count_message_type_by_user_query),
       cst_frequency = DAY, cst_interval = 86400, cst_kind = Plain\<rparr>,
      \<lparr>cst_property = ''messages_sent:client:day'', cst_table = UserCount,
       cst_pull = Some (insert_user_counts (count_message_by_user_query ByClient)),
       cst_frequency = DAY, cst_interval = 86400, cst_kind = Plain\<rparr>,
      \<lparr>cst_property = ''messages_in_stream:is_bot:day'', cst_table = StreamCount,
       cst_pull = Some (insert_stream_counts (count_message_by_stream_query ByIsBot)),
       cst_frequency = DAY, cst_interval = 86400, cst_kind = Plain\<rparr>,
      \<lparr>cst_property = ''active_users_audit:is_bot:day'', cst_table = UserCount,
       cst_pull = Some (insert_user_counts (check_realmauditlog_by_user_query ByIsBot)),
       cst_frequency = DAY, cst_interval = 86400, cst_kind = Plain\<rparr>,
      \<lparr>cst_property = ''active_users_log:is_bot:day'', cst_table = RealmCount, cst_pull = None,
       cst_frequency = DAY, cst_interval = 86400, cst_kind = Logging\<rparr>,
      \<lparr>cst_property = ''active_users:is_bot:day'', cst_table = RealmCount,
       cst_pull = Some (insert_realm_counts (count_user_by_realm_query ByIsBot)),
       cst_frequency = DAY, cst_interval = TIMEDELTA_MAX, cst_kind = Plain\<rparr>,
      \<lparr>cst_property = ''15day_actives::day'', cst_table = UserCount,
       cst_pull = Some (insert_user_counts (check_useractivityinterval_by_user_query NoGroup)),
       cst_frequency = DAY, cst_interval = 15 * 86400 - MIN_INTERVAL_LENGTH, cst_kind = Plain\<rparr>,
      \<lparr>cst_property = ''minutes_active::day'', cst_table = UserCount,
       cst_pull = Some (insert_user_counts do_pull_minutes_active),
       cst_frequency = DAY, cst_interval = 86400, cst_kind = Plain\<rparr>,
      \<lparr>cst_property = ''realm_active_humans::day'', cst_table = RealmCount,
       cst_pull = Some (insert_realm_counts count_realm_active_humans_query),
       cst_frequency = DAY, cst_interval = 86400,
       cst_kind = Dependent [''active_users_audit:is_bot:day'', ''15day_actives::day'']\<rparr>]"

section \<open>Aggregation\<close>

text \<open>\<open>SELECT k, sum(value) ... GROUP BY k\<close>\<close>

definition group_sum :: "('k \<times> int) list \<Rightarrow> ('k \<times> int) list" where
  "group_sum xs = map (\<lambda>k. (k, sum_list (map snd (filter (\<lambda>x. fst x = k) xs)))) (remdups (map fst xs))"

definition counts_at :: "string \<Rightarrow> rat \<Rightarrow> 'a base_count_scheme list \<Rightarrow> 'a base_count_scheme list" where
  "counts_at prop t = filter (\<lambda>c. bc_property c = prop \<and> bc_end_time c = t)"

definition realm_sums :: "string \<Rightarrow> rat \<Rightarrow> 'a realm_count_scheme list \<Rightarrow> db \<Rightarrow> realm_count list" where
  "realm_sums prop end1 rows d =
     map (realm_row prop end1) (group_sum [((rm_id r, bc_subgroup c), bc_value c).
       r \<leftarrow> realms d, c \<leftarrow> counts_at prop end1 rows, bc_realm c = rm_id r])"

definition aggregate_into_realms :: "count_stat \<Rightarrow> rat \<Rightarrow> db \<Rightarrow> db" where
  "aggregate_into_realms stat end1 d =
     (case cst_table stat of
        UserCount \<Rightarrow> d\<lparr>realm_counts := realm_counts d @ realm_sums (cst_property stat) end1 (user_counts d) d\<rparr>
      | StreamCount \<Rightarrow> d\<lparr>realm_counts := realm_counts d @ realm_sums (cst_property stat) end1 (stream_counts d) d\<rparr>
      | RealmCount \<Rightarrow> d)"

definition installation_sums :: "string \<Rightarrow> rat \<Rightarrow> realm_count list \<Rightarrow> installation_count list" where
  "installation_sums prop end1 rows =
     map (\<lambda>(sg, n). \<lparr>bc_property = prop, bc_subgroup = sg, bc_end_time = end1, bc_value = n\<rparr>)
       (group_sum (map (\<lambda>c. (bc_subgroup c, bc_value c)) (counts_at prop end1 rows)))"

definition aggregate_into_installation :: "count_stat \<Rightarrow> rat \<Rightarrow> db \<Rightarrow> db" where
  "aggregate_into_installation stat end1 d =
     d\<lparr>installation_counts := installation_counts d @ installation_sums (cst_property stat) end1 (realm_counts d)\<rparr>"

section \<open>Tasks and their commits\<close>

type_synonym 'a task = "db \<Rightarrow> (pyerr + 'a) \<times> db list"

definition commit :: "(db \<Rightarrow> db) \<Rightarrow> unit task" where
  "commit f d = (Inr (), [f d])"

definition look :: "(db \<Rightarrow> pyerr + 'a) \<Rightarrow> 'a task" where
  "look f d = (f d, [])"

definition after :: "'a task \<Rightarrow> ('a \<Rightarrow> 'b task) \<Rightarrow> 'b task" where
  "after m f d =
     (case m d of
        (Inl e, ds) \<Rightarrow> (Inl e, ds)
      | (Inr x, ds) \<Rightarrow> (case f x (last (d # ds)) of (r, ds') \<Rightarrow> (r, ds @ ds')))"

definition final :: "'a task \<Rightarrow> db \<Rightarrow> db" where
  "final m d = last (d # snd (m d))"

definition do_aggregate_to_summary_table :: "count_stat \<Rightarrow> rat \<Rightarrow> unit task" where
  "do_aggregate_to_summary_table stat end1 =
     after (if cst_table stat = RealmCount then look (\<lambda>d. Inr ()) else commit (aggregate_into_realms stat end1))
       (\<lambda>_. commit (aggregate_into_installation stat end1))"

definition do_fill_count_stat_at_hour :: "count_stat \<Rightarrow> rat \<Rightarrow> unit task" where
  "do_fill_count_stat_at_hour stat end1 =
     (let start = end1 - cst_interval stat in
      after (if cst_kind stat \<noteq> Logging then
               (case cst_pull stat of
                  None \<Rightarrow> look (\<lambda>d. Inl (AssertionError []))
                | Some pull_function \<Rightarrow> commit (pull_function (cst_property stat) start end1))
             else look (\<lambda>d. Inr ()))
        (\<lambda>_. do_aggregate_to_summary_table stat end1))"

definition without :: "string \<Rightarrow> rat \<Rightarrow> 'a base_count_scheme list \<Rightarrow> 'a base_count_scheme list" where
  "without prop t = filter (\<lambda>c. \<not> (bc_property c = prop \<and> bc_end_time c = t))"

definition delete_installation :: "string \<Rightarrow> rat \<Rightarrow> unit task" where
  "delete_installation prop t = commit (\<lambda>d. d\<lparr>installation_counts := without prop t (installation_counts d)\<rparr>)"

definition delete_realm :: "string \<Rightarrow> rat \<Rightarrow> unit task" where
  "delete_realm prop t = commit (\<lambda>d. d\<lparr>realm_counts := without prop t (realm_counts d)\<rparr>)"

definition do_delete_counts_at_hour :: "count_stat \<Rightarrow> rat \<Rightarrow> unit task" where
  "do_delete_counts_at_hour stat end1 =
     (let prop = cst_property stat in
      if cst_kind stat = Logging then
        after (delete_installation prop end1) (\<lambda>_.
          if cst_table stat \<in> {UserCount, StreamCount} then delete_realm prop end1 else look (\<lambda>d. Inr ()))
      else
        after (commit (\<lambda>d. d\<lparr>user_counts := without prop end1 (user_counts d)\<rparr>)) (\<lambda>_.
        after (commit (\<lambda>d. d\<lparr>stream_counts := without prop end1 (stream_counts d)\<rparr>)) (\<lambda>_.
        after (delete_realm prop end1) (\<lambda>_. delete_installation prop end1))))"

section \<open>process_count_stat\<close>

definition DONE :: int where "DONE = 1"
definition STARTED :: int where "STARTED = 2"

definition installation_epoch :: "db \<Rightarrow> pyerr + rat" where
  "installation_epoch d =
     (case map rm_date_created (realms d) of
        [] \<Rightarrow> Inl (OtherError ''AttributeError'')
      | t # ts \<Rightarrow> Inr (floor_to_day (foldl min t ts)))"

definition fill_state_of :: "string \<Rightarrow> db \<Rightarrow> fill_state option" where
  "fill_state_of prop d = find (\<lambda>f. fs_property f = prop) (fill_states d)"

definition last_successful_fill :: "string \<Rightarrow> db \<Rightarrow> rat option" where
  "last_successful_fill prop d =
     (case fill_state_of prop d of
        None \<Rightarrow> None
      | Some f \<Rightarrow> Some (if fs_state f = DONE then fs_end_time f else fs_end_time f - 3600))"

definition do_update_fill_state :: "string \<Rightarrow> rat \<Rightarrow> int \<Rightarrow> unit task" where
  "do_update_fill_state prop end1 state = commit (\<lambda>d.
     d\<lparr>fill_states := map (\<lambda>f. if fs_property f = prop then f\<lparr>fs_end_time := end1, fs_state := state\<rparr> else f) (fill_states d)\<rparr>)"

text \<open>The state the run starts from, after an interrupted run is undone.\<close>

definition start_state :: "count_stat \<Rightarrow> rat task" where
  "start_state stat =
     (let prop = cst_property stat in
      after (look (\<lambda>d. Inr (fill_state_of prop d))) (\<lambda>fill_state.
      case fill_state of
        None \<Rightarrow>
          after (look installation_epoch) (\<lambda>currently_filled.
          after (commit (\<lambda>d. d\<lparr>fill_states := fill_states d @ [\<lparr>fs_property = prop, fs_end_time = currently_filled, fs_state = DONE\<rparr>]\<rparr>))
            (\<lambda>_. look (\<lambda>d. Inr currently_filled)))
      | Some f \<Rightarrow>
          if fs_state f = STARTED then
            after (do_delete_counts_at_hour stat (fs_end_time f)) (\<lambda>_.
            (let currently_filled = fs_end_time f - time_increment (cst_frequency stat) in
             after (do_update_fill_state prop currently_filled DONE) (\<lambda>_. look (\<lambda>d. Inr currently_filled))))
          else if fs_state f = DONE then look (\<lambda>d. Inr (fs_end_time f))
          else look (\<lambda>d. Inl (AssertionError ''Unknown value for FillState.state''))))"

text \<open>The time up to which the dependencies allow to fill, or none when one was never run.\<close>

fun dependency_bound :: "string list \<Rightarrow> rat \<Rightarrow> db \<Rightarrow> rat option" where
  "dependency_bound [] fill_to_time d = Some fill_to_time"
| "dependency_bound (dependency # rest) fill_to_time d =
     (case last_successful_fill dependency d of
        None \<Rightarrow> None
      | Some t \<Rightarrow> dependency_bound rest (min fill_to_time t) d)"

definition fill_one :: "count_stat \<Rightarrow> rat \<Rightarrow> unit task" where
  "fill_one stat t =
     after (do_update_fill_state (cst_property stat) t STARTED) (\<lambda>_.
     after (do_fill_count_stat_at_hour stat t) (\<lambda>_. do_update_fill_state (cst_property stat) t DONE))"

function fill_loop :: "count_stat \<Rightarrow> rat \<Rightarrow> rat \<Rightarrow> unit task" where
  "fill_loop stat fill_to_time currently_filled =
     (if currently_filled \<le> fill_to_time then
        after (fill_one stat currently_filled)
          (\<lambda>_. fill_loop stat fill_to_time (currently_filled + time_increment (cst_frequency stat)))
      else look (\<lambda>d. Inr ()))"
  by pat_completeness auto
termination
proof (relation "measure (\<lambda>(stat, b, t). nat (\<lfloor>(b - t) / time_increment (cst_frequency stat)\<rfloor> + 1))")
  fix stat :: count_stat and b t :: rat
  assume "t \<le> b"
  then have "0 \<le> (b - t) / time_increment (cst_frequency stat)" by (intro divide_nonneg_pos) simp_all
  moreover have "(b - (t + time_increment (cst_frequency stat))) / time_increment (cst_frequency stat) =
      (b - t) / time_increment (cst_frequency stat) - 1"
    by (simp add: diff_divide_distrib add_divide_distrib)
  ultimately show "((stat, b, t + time_increment (cst_frequency stat)), stat, b, t) \<in>
      measure (\<lambda>(stat, b, t). nat (\<lfloor>(b - t) / time_increment (cst_frequency stat)\<rfloor> + 1))"
    by simp
qed simp

declare fill_loop.simps [simp del]

definition process_count_stat :: "count_stat \<Rightarrow> rat \<Rightarrow> unit task" where
  "process_count_stat stat fill_to_time =
     (if floor_to_hour fill_to_time \<noteq> fill_to_time then look (\<lambda>d. Inl (ValueError ''fill_to_time must be on an hour boundary''))
      else
        after (start_state stat) (\<lambda>currently_filled.
        after (look (\<lambda>d. Inr (case cst_kind stat of
                 Dependent deps \<Rightarrow> dependency_bound deps fill_to_time d | _ \<Rightarrow> Some fill_to_time))) (\<lambda>bound.
        case bound of
          None \<Rightarrow> look (\<lambda>d. Inr ())
        | Some fill_to_time \<Rightarrow> fill_loop stat fill_to_time (currently_filled + time_increment (cst_frequency stat)))))"

definition run_update_analytics_counts :: "rat \<Rightarrow> unit task" where
  "run_update_analytics_counts fill_to_time =
     foldr (\<lambda>stat rest. after (process_count_stat stat (floor_to_hour fill_to_time)) (\<lambda>_. rest)) count_stats (look (\<lambda>d. Inr ()))"

section \<open>Statistics that other code logs to\<close>

datatype logged_object = LogRealm int | LogUser user_profile | LogStream stream

definition event_end :: "frequency \<Rightarrow> rat \<Rightarrow> rat" where
  "event_end f event_time = (case f of DAY \<Rightarrow> ceiling_to_day event_time | HOUR \<Rightarrow> ceiling_to_hour event_time)"

text \<open>\<open>get_or_create\<close> and the increment of a row that was there.\<close>

definition increment_row :: "('r \<Rightarrow> bool) \<Rightarrow> ('r \<Rightarrow> 'r) \<Rightarrow> 'r \<Rightarrow> 'r list \<Rightarrow> pyerr + 'r list" where
  "increment_row p add_to new rows =
     (case filter p rows of
        [] \<Rightarrow> Inr (rows @ [new])
      | [_] \<Rightarrow> Inr (map (\<lambda>r. if p r then add_to r else r) rows)
      | _ \<Rightarrow> Inl (OtherError ''MultipleObjectsReturned''))"

definition counted_at :: "string \<Rightarrow> string option \<Rightarrow> rat \<Rightarrow> 'a base_count_scheme \<Rightarrow> bool" where
  "counted_at prop sg end1 c \<longleftrightarrow> bc_property c = prop \<and> bc_subgroup c = sg \<and> bc_end_time c = end1"

definition do_increment_logging_stat ::
  "logged_object \<Rightarrow> count_stat \<Rightarrow> string option \<Rightarrow> rat \<Rightarrow> int \<Rightarrow> db \<Rightarrow> pyerr + db" where
  "do_increment_logging_stat obj stat sg event_time increment d =
     (let prop = cst_property stat; end1 = event_end (cst_frequency stat) event_time in
      case obj of
        LogRealm realm \<Rightarrow>
          ebind (increment_row (\<lambda>c. counted_at prop sg end1 c \<and> bc_realm c = realm) (\<lambda>c. c\<lparr>bc_value := bc_value c + increment\<rparr>)
            (realm_row prop end1 ((realm, sg), increment)) (realm_counts d)) (\<lambda>l. Inr (d\<lparr>realm_counts := l\<rparr>))
      | LogUser u \<Rightarrow>
          ebind (increment_row (\<lambda>c. counted_at prop sg end1 c \<and> bc_realm c = u_realm u \<and> uc_user c = u_id u)
            (\<lambda>c. c\<lparr>bc_value := bc_value c + increment\<rparr>)
            (user_row prop end1 ((u_id u, u_realm u, sg), increment)) (user_counts d)) (\<lambda>l. Inr (d\<lparr>user_counts := l\<rparr>))
      | LogStream st \<Rightarrow>
          ebind (increment_row (\<lambda>c. counted_at prop sg end1 c \<and> bc_realm c = st_realm st \<and> sc_stream c = st_id st)
            (\<lambda>c. c\<lparr>bc_value := bc_value c + increment\<rparr>)
            (stream_row prop end1 ((st_id st, st_realm st, sg), increment)) (stream_counts d)) (\<lambda>l. Inr (d\<lparr>stream_counts := l\<rparr>)))"

definition do_drop_all_analytics_tables :: "db \<Rightarrow> db" where
  "do_drop_all_analytics_tables d =
     d\<lparr>user_counts := [], stream_counts := [], realm_counts := [], installation_counts := [], fill_states := []\<rparr>"

end
