(* ===== verification/AnalyticsProps.thy ===== *)
theory AnalyticsProps
  imports Analytics
begin

text \<open>
  What the analytics guarantee: however often the cron job is interrupted, every hour or day is
  counted exactly once; a run ends and fills everything there is to fill; and the sums per realm
  and installation are those of the rows they aggregate. The proofs use triples over tasks: a
  precondition, a postcondition for the state a task ends in, and an invariant of every state it
  commits on the way, where it may be interrupted.
\<close>

section \<open>Steps that touch one property at one time\<close>

text \<open>The database without the rows and the fill state of a property, and its rows at one time.\<close>

definition elsewhere :: "string \<Rightarrow> db \<Rightarrow> db" where
  "elsewhere p d = d\<lparr>user_counts := filter (\<lambda>c. bc_property c \<noteq> p) (user_counts d),
     stream_counts := filter (\<lambda>c. bc_property c \<noteq> p) (stream_counts d),
     realm_counts := filter (\<lambda>c. bc_property c \<noteq> p) (realm_counts d),
     installation_counts := filter (\<lambda>c. bc_property c \<noteq> p) (installation_counts d),
     fill_states := filter (\<lambda>f. fs_property f \<noteq> p) (fill_states d)\<rparr>"

type_synonym counts = "user_count list \<times> stream_count list \<times> realm_count list \<times> installation_count list"

definition counts_view :: "string \<Rightarrow> rat \<Rightarrow> db \<Rightarrow> counts" where
  "counts_view p t d = (counts_at p t (user_counts d), counts_at p t (stream_counts d), counts_at p t (realm_counts d),
     counts_at p t (installation_counts d))"

abbreviation no_counts :: counts where
  "no_counts \<equiv> ([], [], [], [])"

definition local_step :: "string \<Rightarrow> rat \<Rightarrow> (db \<Rightarrow> db) \<Rightarrow> bool" where
  "local_step p e f \<longleftrightarrow> (\<forall>d. elsewhere p (f d) = elsewhere p d \<and> fill_states (f d) = fill_states d \<and>
     (\<forall>t. t \<noteq> e \<longrightarrow> counts_view p t (f d) = counts_view p t d) \<and>
     (\<forall>d'. elsewhere p d' = elsewhere p d \<longrightarrow> counts_view p e d' = counts_view p e d \<longrightarrow> counts_view p e (f d') = counts_view p e (f d)))"

lemma local_stepI:
  assumes "\<And>d. elsewhere p (f d) = elsewhere p d" and "\<And>d. fill_states (f d) = fill_states d"
    and "\<And>t d. t \<noteq> e \<Longrightarrow> counts_view p t (f d) = counts_view p t d"
    and "\<And>d d'. elsewhere p d' = elsewhere p d \<Longrightarrow> counts_view p e d' = counts_view p e d \<Longrightarrow> counts_view p e (f d') = counts_view p e (f d)"
  shows "local_step p e f"
  unfolding local_step_def using assms by blast

lemma local_stepD:
  assumes "local_step p e f"
  shows "elsewhere p (f d) = elsewhere p d" and "fill_states (f d) = fill_states d"
    and "t \<noteq> e \<Longrightarrow> counts_view p t (f d) = counts_view p t d"
    and "elsewhere p d' = elsewhere p d \<Longrightarrow> counts_view p e d' = counts_view p e d \<Longrightarrow> counts_view p e (f d') = counts_view p e (f d)"
  using assms unfolding local_step_def by blast+

lemma local_comp:
  assumes "local_step p e f" and "local_step p e g"
  shows "local_step p e (\<lambda>d. g (f d))"
proof (rule local_stepI)
  show "elsewhere p (g (f d)) = elsewhere p d" "fill_states (g (f d)) = fill_states d" for d
    by (simp_all add: local_stepD(1,2)[OF assms(1)] local_stepD(1,2)[OF assms(2)])
  show "counts_view p t (g (f d)) = counts_view p t d" if "t \<noteq> e" for t d
    by (simp add: local_stepD(3)[OF assms(1) that] local_stepD(3)[OF assms(2) that])
  show "counts_view p e (g (f d')) = counts_view p e (g (f d))"
    if "elsewhere p d' = elsewhere p d" "counts_view p e d' = counts_view p e d" for d d'
    by (rule local_stepD(4)[OF assms(2)]) (simp_all add: local_stepD(1)[OF assms(1)] local_stepD(4)[OF assms(1) that] that)
qed

lemma counts_at_append: "counts_at p t (xs @ ys) = counts_at p t xs @ counts_at p t ys"
  by (simp add: counts_at_def)

text \<open>What a query has to promise: it writes rows of its property and time, and does not read them.\<close>

locale collector =
  fixes q :: "string \<Rightarrow> rat \<Rightarrow> rat \<Rightarrow> db \<Rightarrow> 'a base_count_scheme list" and p :: string
  assumes tagged: "c \<in> set (q p s e d) \<Longrightarrow> bc_property c = p \<and> bc_end_time c = e"
    and framed: "elsewhere p d = elsewhere p d' \<Longrightarrow> q p s e d = q p s e d'"
begin

lemma added_view: "counts_at p t (rows @ q p s e d) = counts_at p t rows @ (if t = e then q p s e d else [])"
proof -
  have "counts_at p t (q p s e d) = (if t = e then q p s e d else [])"
    using tagged by (auto simp: counts_at_def intro: filter_True filter_False)
  then show ?thesis by (simp add: counts_at_append)
qed

lemma added_elsewhere: "filter (\<lambda>c. bc_property c \<noteq> p) (rows @ q p s e d) = filter (\<lambda>c. bc_property c \<noteq> p) rows"
  using tagged by (auto intro: filter_False)

end

lemma insert_user_counts_local:
  assumes "collector q p"
  shows "local_step p e (insert_user_counts q p s e)"
proof (rule local_stepI)
  note view = collector.added_view[OF assms] and away = collector.added_elsewhere[OF assms] and framed = collector.framed[OF assms]
  show "elsewhere p (insert_user_counts q p s e d) = elsewhere p d" "fill_states (insert_user_counts q p s e d) = fill_states d" for d
    by (simp_all add: insert_user_counts_def elsewhere_def away del: filter_append)
  show "counts_view p t (insert_user_counts q p s e d) = counts_view p t d" if "t \<noteq> e" for t d
    using that by (simp add: insert_user_counts_def counts_view_def view)
  show "counts_view p e (insert_user_counts q p s e d') = counts_view p e (insert_user_counts q p s e d)"
    if "elsewhere p d' = elsewhere p d" "counts_view p e d' = counts_view p e d" for d d'
    using that(2) framed[OF that(1)] by (simp add: insert_user_counts_def counts_view_def view)
qed

lemma insert_stream_counts_local:
  assumes "collector q p"
  shows "local_step p e (insert_stream_counts q p s e)"
proof (rule local_stepI)
  note view = collector.added_view[OF assms] and away = collector.added_elsewhere[OF assms] and framed = collector.framed[OF assms]
  show "elsewhere p (insert_stream_counts q p s e d) = elsewhere p d" "fill_states (insert_stream_counts q p s e d) = fill_states d" for d
    by (simp_all add: insert_stream_counts_def elsewhere_def away del: filter_append)
  show "counts_view p t (insert_stream_counts q p s e d) = counts_view p t d" if "t \<noteq> e" for t d
    using that by (simp add: insert_stream_counts_def counts_view_def view)
  show "counts_view p e (insert_stream_counts q p s e d') = counts_view p e (insert_stream_counts q p s e d)"
    if "elsewhere p d' = elsewhere p d" "counts_view p e d' = counts_view p e d" for d d'
    using that(2) framed[OF that(1)] by (simp add: insert_stream_counts_def counts_view_def view)
qed

lemma insert_realm_counts_local:
  assumes "collector q p"
  shows "local_step p e (insert_realm_counts q p s e)"
proof (rule local_stepI)
  note view = collector.added_view[OF assms] and away = collector.added_elsewhere[OF assms] and framed = collector.framed[OF assms]
  show "elsewhere p (insert_realm_counts q p s e d) = elsewhere p d" "fill_states (insert_realm_counts q p s e d) = fill_states d" for d
    by (simp_all add: insert_realm_counts_def elsewhere_def away del: filter_append)
  show "counts_view p t (insert_realm_counts q p s e d) = counts_view p t d" if "t \<noteq> e" for t d
    using that by (simp add: insert_realm_counts_def counts_view_def view)
  show "counts_view p e (insert_realm_counts q p s e d') = counts_view p e (insert_realm_counts q p s e d)"
    if "elsewhere p d' = elsewhere p d" "counts_view p e d' = counts_view p e d" for d d'
    using that(2) framed[OF that(1)] by (simp add: insert_realm_counts_def counts_view_def view)
qed

text \<open>The queries of the statistics keep the promise.\<close>

lemma elsewhere_tables:
  assumes "elsewhere p d = elsewhere p d'"
  shows "users d = users d'" "realms d = realms d'" "streams d = streams d'" "messages d = messages d'" "recipients d = recipients d'"
    "audit_logs d = audit_logs d'" "activity_intervals d = activity_intervals d'"
    "filter (\<lambda>c. bc_property c \<noteq> p) (user_counts d) = filter (\<lambda>c. bc_property c \<noteq> p) (user_counts d')"
    "filter (\<lambda>f. fs_property f \<noteq> p) (fill_states d) = filter (\<lambda>f. fs_property f \<noteq> p) (fill_states d')"
  using arg_cong[OF assms, of users] arg_cong[OF assms, of realms] arg_cong[OF assms, of streams] arg_cong[OF assms, of messages]
    arg_cong[OF assms, of recipients] arg_cong[OF assms, of audit_logs] arg_cong[OF assms, of activity_intervals]
    arg_cong[OF assms, of user_counts] arg_cong[OF assms, of fill_states]
  by (simp_all add: elsewhere_def)

lemma collectorI:
  assumes "\<And>s e d. list_all (\<lambda>c. bc_property c = p \<and> bc_end_time c = e) (q p s e d)"
    and "\<And>s e d d'. users d = users d' \<Longrightarrow> realms d = realms d' \<Longrightarrow> streams d = streams d' \<Longrightarrow> messages d = messages d' \<Longrightarrow>
      recipients d = recipients d' \<Longrightarrow> audit_logs d = audit_logs d' \<Longrightarrow> activity_intervals d = activity_intervals d' \<Longrightarrow>
      filter (\<lambda>c. bc_property c \<noteq> p) (user_counts d) = filter (\<lambda>c. bc_property c \<noteq> p) (user_counts d') \<Longrightarrow> q p s e d = q p s e d'"
  shows "collector q p"
proof
  show "bc_property c = p \<and> bc_end_time c = e" if "c \<in> set (q p s e d)" for c s e d
    using assms(1) that by (simp add: list_all_iff)
  show "q p s e d = q p s e d'" if "elsewhere p d = elsewhere p d'" for s e d d'
    by (rule assms(2)) (rule elsewhere_tables[OF that])+
qed

lemma rows_tagged [simp]:
  "list_all (\<lambda>c. bc_property c = p \<and> bc_end_time c = e) (map (user_row p e) l)"
  "list_all (\<lambda>c. bc_property c = p \<and> bc_end_time c = e) (map (stream_row p e) l')"
  "list_all (\<lambda>c. bc_property c = p \<and> bc_end_time c = e) (map (realm_row p e) l'')"
  by (auto simp: list_all_iff user_row_def stream_row_def realm_row_def)

interpretation by_user: collector "count_message_by_user_query g" p for g p
  by (rule collectorI) (simp_all only: count_message_by_user_query_def rows_tagged)

interpretation by_type: collector count_message_type_by_user_query p for p
  by (rule collectorI) (simp_all only: count_message_type_by_user_query_def message_type_def rows_tagged)

interpretation by_stream: collector "count_message_by_stream_query g" p for g p
  by (rule collectorI) (simp_all only: count_message_by_stream_query_def rows_tagged)

interpretation users_of_realm: collector "count_user_by_realm_query g" p for g p
  by (rule collectorI) (simp_all only: count_user_by_realm_query_def rows_tagged)

interpretation audited: collector "check_realmauditlog_by_user_query g" p for g p
  by (rule collectorI) (simp_all only: check_realmauditlog_by_user_query_def latest_activity_change_def rows_tagged)

interpretation active_intervals: collector "check_useractivityinterval_by_user_query g" p for g p
  by (rule collectorI) (simp_all add: check_useractivityinterval_by_user_query_def list_all_iff user_row_def split_beta)

interpretation minutes_active: collector do_pull_minutes_active p for p
  by (rule collectorI) (simp_all add: do_pull_minutes_active_def seconds_active_def list_all_iff user_row_def split_beta cong: if_cong)

lemma filter_filter_imp: "(\<And>x. P x \<Longrightarrow> Q x) \<Longrightarrow> filter P (filter Q xs) = filter P xs"
  by (induction xs) auto

interpretation active_humans: collector count_realm_active_humans_query "''realm_active_humans::day''"
proof (rule collectorI)
  show "list_all (\<lambda>c. bc_property c = ''realm_active_humans::day'' \<and> bc_end_time c = e)
      (count_realm_active_humans_query ''realm_active_humans::day'' s e d)" for s e d
    by (simp only: count_realm_active_humans_query_def rows_tagged)
next
  fix s e and d d' :: db
  assume eq: "filter (\<lambda>c. bc_property c \<noteq> ''realm_active_humans::day'') (user_counts d) =
    filter (\<lambda>c. bc_property c \<noteq> ''realm_active_humans::day'') (user_counts d')"
  show "count_realm_active_humans_query ''realm_active_humans::day'' s e d = count_realm_active_humans_query ''realm_active_humans::day'' s e d'"
  proof -
    let ?p = "''realm_active_humans::day''"
    have rows: "filter (\<lambda>c. bc_property c = x \<and> R c) (user_counts d) = filter (\<lambda>c. bc_property c = x \<and> R c) (user_counts d')"
      if "x \<noteq> ?p" for x R
    proof -
      have "filter (\<lambda>c. bc_property c = x \<and> R c) l = filter (\<lambda>c. bc_property c = x \<and> R c) (filter (\<lambda>c. bc_property c \<noteq> ?p) l)" for l
        by (rule filter_filter_imp[symmetric]) (use that in blast)
      from this[of "user_counts d"] this[of "user_counts d'"] show ?thesis by (simp only: eq)
    qed
    have conc: "concat (map (\<lambda>c. if Q c then g c else []) l) = concat (map g (filter Q l))"
      for g :: "user_count \<Rightarrow> 'y list" and Q l by (induction l) simp_all
    have "''active_users_audit:is_bot:day'' \<noteq> ?p" and "''15day_actives::day'' \<noteq> ?p" by simp_all
    note same = rows[OF this(1)] rows[OF this(2)]
    show ?thesis
      unfolding count_realm_active_humans_query_def by (simp only: conc same)
  qed
qed

lemma realm_sums_tagged: "list_all (\<lambda>c. bc_property c = p \<and> bc_end_time c = e) (realm_sums p e rows d)"
  by (simp only: realm_sums_def rows_tagged)

lemma tagged_view:
  "list_all (\<lambda>c. bc_property c = p \<and> bc_end_time c = e) l \<Longrightarrow> counts_at p t (rows @ l) = counts_at p t rows @ (if t = e then l else [])"
  by (simp add: counts_at_append) (auto simp: counts_at_def list_all_iff intro: filter_True filter_False)

lemma tagged_away:
  "list_all (\<lambda>c. bc_property c = p \<and> bc_end_time c = e) l \<Longrightarrow> filter (\<lambda>c. bc_property c \<noteq> p) (rows @ l) = filter (\<lambda>c. bc_property c \<noteq> p) rows"
  by (auto simp: list_all_iff intro: filter_False)

lemma aggregate_into_realms_local: "local_step (cst_property stat) e (aggregate_into_realms stat e)"
proof (rule local_stepI)
  let ?p = "cst_property stat"
  note view = tagged_view[OF realm_sums_tagged] and away = tagged_away[OF realm_sums_tagged]
  show "elsewhere ?p (aggregate_into_realms stat e d) = elsewhere ?p d" "fill_states (aggregate_into_realms stat e d) = fill_states d" for d
    by (cases "cst_table stat"; simp add: aggregate_into_realms_def elsewhere_def away del: filter_append)+
  show "counts_view ?p t (aggregate_into_realms stat e d) = counts_view ?p t d" if "t \<noteq> e" for t d
    using that by (cases "cst_table stat"; simp add: aggregate_into_realms_def counts_view_def view)
  show "counts_view ?p e (aggregate_into_realms stat e d') = counts_view ?p e (aggregate_into_realms stat e d)"
    if "elsewhere ?p d' = elsewhere ?p d" "counts_view ?p e d' = counts_view ?p e d" for d d'
  proof -
    have "realm_sums ?p e (user_counts d') d' = realm_sums ?p e (user_counts d) d"
      "realm_sums ?p e (stream_counts d') d' = realm_sums ?p e (stream_counts d) d"
      using that(2) elsewhere_tables(2)[OF that(1)] by (simp_all add: realm_sums_def counts_view_def)
    then show ?thesis using that(2) by (cases "cst_table stat"; simp add: aggregate_into_realms_def counts_view_def view)
  qed
qed

lemma installation_sums_tagged: "list_all (\<lambda>c. bc_property c = p \<and> bc_end_time c = e) (installation_sums p e rows)"
  by (auto simp: installation_sums_def list_all_iff)

lemma aggregate_into_installation_local: "local_step (cst_property stat) e (aggregate_into_installation stat e)"
proof (rule local_stepI)
  let ?p = "cst_property stat"
  note view = tagged_view[OF installation_sums_tagged] and away = tagged_away[OF installation_sums_tagged]
  show "elsewhere ?p (aggregate_into_installation stat e d) = elsewhere ?p d"
    "fill_states (aggregate_into_installation stat e d) = fill_states d" for d
    by (simp_all add: aggregate_into_installation_def elsewhere_def away del: filter_append)
  show "counts_view ?p t (aggregate_into_installation stat e d) = counts_view ?p t d" if "t \<noteq> e" for t d
    using that by (simp add: aggregate_into_installation_def counts_view_def view)
  show "counts_view ?p e (aggregate_into_installation stat e d') = counts_view ?p e (aggregate_into_installation stat e d)"
    if "elsewhere ?p d' = elsewhere ?p d" "counts_view ?p e d' = counts_view ?p e d" for d d'
  proof -
    have "installation_sums ?p e (realm_counts d') = installation_sums ?p e (realm_counts d)"
      using that(2) by (simp add: installation_sums_def counts_view_def)
    then show ?thesis using that(2) by (simp add: aggregate_into_installation_def counts_view_def view)
  qed
qed

text \<open>Every statistic that counts does so locally.\<close>

lemmas pulls_local =
  insert_user_counts_local[OF by_user.collector_axioms] insert_user_counts_local[OF by_type.collector_axioms]
  insert_stream_counts_local[OF by_stream.collector_axioms] insert_user_counts_local[OF audited.collector_axioms]
  insert_realm_counts_local[OF users_of_realm.collector_axioms] insert_user_counts_local[OF active_intervals.collector_axioms]
  insert_user_counts_local[OF minutes_active.collector_axioms] insert_realm_counts_local[OF active_humans.collector_axioms]

lemma count_stats_local:
  assumes "stat \<in> set count_stats" and "cst_kind stat \<noteq> Logging"
  shows "\<exists>pull. cst_pull stat = Some pull \<and> (\<forall>s e. local_step (cst_property stat) e (pull (cst_property stat) s e))"
  using assms unfolding count_stats_def by (auto simp: pulls_local)

section \<open>Triples over tasks\<close>

definition holds :: "(db \<Rightarrow> bool) \<Rightarrow> 'a task \<Rightarrow> ('a \<Rightarrow> db \<Rightarrow> bool) \<Rightarrow> (db \<Rightarrow> bool) \<Rightarrow> bool" where
  "holds P m Q I \<longleftrightarrow> (\<forall>d. P d \<longrightarrow> list_all I (snd (m d)) \<and> (\<exists>x. fst (m d) = Inr x \<and> Q x (final m d)))"

lemma holdsD: "holds P m Q I \<Longrightarrow> P d \<Longrightarrow> \<exists>x ds. m d = (Inr x, ds) \<and> list_all I ds \<and> Q x (last (d # ds))"
  by (metis prod.collapse final_def holds_def)

lemma holds_commit: "(\<And>d. P d \<Longrightarrow> I (f d) \<and> Q () (f d)) \<Longrightarrow> holds P (commit f) Q I"
  by (simp add: holds_def commit_def final_def)

lemma holds_look: "(\<And>d. P d \<Longrightarrow> Q (f d) d) \<Longrightarrow> holds P (look (\<lambda>d. Inr (f d))) Q I"
  by (simp add: holds_def look_def final_def)

lemma holds_after:
  assumes m: "holds P m R I" and f: "\<And>x. holds (R x) (f x) Q I"
  shows "holds P (after m f) Q I"
  unfolding holds_def
proof (intro allI impI)
  fix d
  assume "P d"
  then obtain x ds where one: "m d = (Inr x, ds)" "list_all I ds" "R x (last (d # ds))" using holdsD[OF m] by blast
  then obtain y ds' where two: "f x (last (d # ds)) = (Inr y, ds')" "list_all I ds'" "Q y (last (last (d # ds) # ds'))"
    using holdsD[OF f] by blast
  have "last (last (d # ds) # ds') = last (d # ds @ ds')" by (cases ds') simp_all
  then show "list_all I (snd (after m f d)) \<and> (\<exists>x. fst (after m f d) = Inr x \<and> Q x (final (after m f) d))"
    using one two by (simp add: after_def final_def del: last.simps)
qed

lemma holds_pre: "holds P m Q I \<Longrightarrow> (\<And>d. P' d \<Longrightarrow> P d) \<Longrightarrow> holds P' m Q I"
  by (simp add: holds_def)

lemma holds_post: "holds P m Q I \<Longrightarrow> (\<And>x d. Q x d \<Longrightarrow> Q' x d) \<Longrightarrow> holds P m Q' I"
  unfolding holds_def by meson

lemma holds_skip: "(\<And>d. P d \<Longrightarrow> Q () d) \<Longrightarrow> holds P (look (\<lambda>d. Inr ())) Q I"
  by (rule holds_look) simp


section \<open>Filling exactly once\<close>

text \<open>The times to fill, and what filling one of them for the first time writes.\<close>

definition boundary :: "count_stat \<Rightarrow> rat \<Rightarrow> nat \<Rightarrow> rat" where
  "boundary stat ep k = ep + of_nat k * time_increment (cst_frequency stat)"

definition expected :: "count_stat \<Rightarrow> db \<Rightarrow> rat \<Rightarrow> counts" where
  "expected stat d0 t = counts_view (cst_property stat) t (final (do_fill_count_stat_at_hour stat t) d0)"

text \<open>Filled exactly up to the \<open>n\<close>-th time, up to what happened at the times in \<open>X\<close>.\<close>

definition filled :: "count_stat \<Rightarrow> db \<Rightarrow> rat \<Rightarrow> nat \<Rightarrow> rat set \<Rightarrow> db \<Rightarrow> bool" where
  "filled stat d0 ep n X d \<longleftrightarrow> elsewhere (cst_property stat) d = elsewhere (cst_property stat) d0 \<and>
     (\<forall>t. t \<notin> X \<longrightarrow> counts_view (cst_property stat) t d =
        (if t \<in> boundary stat ep ` {1..n} then expected stat d0 t else no_counts))"

definition marked :: "count_stat \<Rightarrow> int \<Rightarrow> rat \<Rightarrow> db \<Rightarrow> bool" where
  "marked stat st t d \<longleftrightarrow>
     filter (\<lambda>f. fs_property f = cst_property stat) (fill_states d) = [\<lparr>fs_property = cst_property stat, fs_end_time = t, fs_state = st\<rparr>]"

definition fresh :: "count_stat \<Rightarrow> db \<Rightarrow> rat \<Rightarrow> db \<Rightarrow> bool" where
  "fresh stat d0 ep d \<longleftrightarrow> filled stat d0 ep 0 {} d \<and> filter (\<lambda>f. fs_property f = cst_property stat) (fill_states d) = []"

definition at_rest :: "count_stat \<Rightarrow> db \<Rightarrow> rat \<Rightarrow> nat \<Rightarrow> db \<Rightarrow> bool" where
  "at_rest stat d0 ep k d \<longleftrightarrow> filled stat d0 ep k {} d \<and> marked stat DONE (boundary stat ep k) d"

definition in_progress :: "count_stat \<Rightarrow> db \<Rightarrow> rat \<Rightarrow> nat \<Rightarrow> db \<Rightarrow> bool" where
  "in_progress stat d0 ep k d \<longleftrightarrow>
     filled stat d0 ep k {boundary stat ep (Suc k)} d \<and> marked stat STARTED (boundary stat ep (Suc k)) d"

definition recoverable :: "count_stat \<Rightarrow> db \<Rightarrow> rat \<Rightarrow> db \<Rightarrow> bool" where
  "recoverable stat d0 ep d \<longleftrightarrow> fresh stat d0 ep d \<or> (\<exists>k. at_rest stat d0 ep k d) \<or> (\<exists>k. in_progress stat d0 ep k d)"

lemma boundary_eq [simp]: "boundary stat ep j = boundary stat ep k \<longleftrightarrow> j = k"
  by (simp add: boundary_def)

lemma boundary_Suc: "boundary stat ep (Suc k) = boundary stat ep k + time_increment (cst_frequency stat)"
  by (simp add: boundary_def algebra_simps)

lemma filled_at: "filled stat d0 ep n X d \<Longrightarrow> t \<notin> X \<Longrightarrow> counts_view (cst_property stat) t d =
    (if t \<in> boundary stat ep ` {1..n} then expected stat d0 t else no_counts)"
  by (simp add: filled_def)

lemma local_keeps_progress:
  assumes "local_step (cst_property stat) (boundary stat ep (Suc k)) f" and "in_progress stat d0 ep k d"
  shows "in_progress stat d0 ep k (f d)"
  using assms(2) local_stepD(1-3)[OF assms(1)] by (auto simp: in_progress_def filled_def marked_def)

text \<open>Writing the fill state touches nothing else.\<close>

definition set_mark :: "string \<Rightarrow> rat \<Rightarrow> int \<Rightarrow> db \<Rightarrow> db" where
  "set_mark prop t st d = d\<lparr>fill_states := map (\<lambda>f. if fs_property f = prop then f\<lparr>fs_end_time := t, fs_state := st\<rparr> else f) (fill_states d)\<rparr>"

lemma do_update_fill_state_mark: "do_update_fill_state prop t st = commit (set_mark prop t st)"
  by (simp add: do_update_fill_state_def set_mark_def[abs_def])

lemma set_mark_view [simp]: "counts_view p t (set_mark prop e st d) = counts_view p t d"
  by (simp add: counts_view_def set_mark_def)

lemma filter_update_other: "filter (\<lambda>f. fs_property f \<noteq> p) (map (\<lambda>f. if fs_property f = p then f\<lparr>fs_end_time := t, fs_state := st\<rparr> else f) fs) =
    filter (\<lambda>f. fs_property f \<noteq> p) fs"
  by (induction fs) auto

lemma set_mark_elsewhere [simp]: "elsewhere p (set_mark p t st d) = elsewhere p d"
  by (simp add: elsewhere_def set_mark_def filter_update_other)

lemma filter_update_same: "filter (\<lambda>f. fs_property f = p) (map (\<lambda>f. if fs_property f = p then f\<lparr>fs_end_time := t, fs_state := st\<rparr> else f) fs) =
    map (\<lambda>f. f\<lparr>fs_end_time := t, fs_state := st\<rparr>) (filter (\<lambda>f. fs_property f = p) fs)"
  by (induction fs) auto

lemma set_mark_marked: "marked stat st' t' d \<Longrightarrow> marked stat st t (set_mark (cst_property stat) t st d)"
  by (simp add: marked_def set_mark_def filter_update_same)

lemma set_mark_filled: "filled stat d0 ep n X (set_mark (cst_property stat) t st d) = filled stat d0 ep n X d"
  by (simp add: filled_def)

lemma filled_exclude: "filled stat d0 ep n {} d \<Longrightarrow> filled stat d0 ep n X d"
  by (simp add: filled_def)

lemma recoverableI:
  "at_rest stat d0 ep k d \<Longrightarrow> recoverable stat d0 ep d" "in_progress stat d0 ep k d \<Longrightarrow> recoverable stat d0 ep d"
  "fresh stat d0 ep d \<Longrightarrow> recoverable stat d0 ep d"
  by (auto simp: recoverable_def)

lemma start_filling:
  "holds (at_rest stat d0 ep k) (do_update_fill_state (cst_property stat) (boundary stat ep (Suc k)) STARTED)
     (\<lambda>_ d. in_progress stat d0 ep k d \<and> counts_view (cst_property stat) (boundary stat ep (Suc k)) d = no_counts) (recoverable stat d0 ep)"
  unfolding do_update_fill_state_mark
proof (rule holds_commit)
  fix d
  assume rest: "at_rest stat d0 ep k d"
  let ?d = "set_mark (cst_property stat) (boundary stat ep (Suc k)) STARTED d"
  have "in_progress stat d0 ep k ?d"
    using rest by (auto simp: at_rest_def in_progress_def set_mark_filled intro: filled_exclude set_mark_marked)
  moreover have "counts_view (cst_property stat) (boundary stat ep (Suc k)) ?d = no_counts"
    using rest filled_at[of stat d0 ep k "{}" d "boundary stat ep (Suc k)"] by (auto simp: at_rest_def)
  ultimately show "recoverable stat d0 ep ?d \<and> in_progress stat d0 ep k ?d \<and>
      counts_view (cst_property stat) (boundary stat ep (Suc k)) ?d = no_counts"
    by (auto intro: recoverableI)
qed

lemma end_filling:
  "holds (\<lambda>d. in_progress stat d0 ep k d \<and>
       counts_view (cst_property stat) (boundary stat ep (Suc k)) d = expected stat d0 (boundary stat ep (Suc k)))
     (do_update_fill_state (cst_property stat) (boundary stat ep (Suc k)) DONE)
     (\<lambda>_. at_rest stat d0 ep (Suc k)) (recoverable stat d0 ep)"
  unfolding do_update_fill_state_mark
proof (rule holds_commit)
  fix d
  let ?e = "boundary stat ep (Suc k)"
  assume prog: "in_progress stat d0 ep k d \<and> counts_view (cst_property stat) ?e d = expected stat d0 ?e"
  have "counts_view (cst_property stat) t d = (if t \<in> boundary stat ep ` {1..Suc k} then expected stat d0 t else no_counts)" for t
  proof (cases "t = ?e")
    case False
    then have "t \<in> boundary stat ep ` {1..Suc k} \<longleftrightarrow> t \<in> boundary stat ep ` {1..k}"
      by (auto simp: image_iff atLeastAtMostSuc_conv)
    then show ?thesis using prog False filled_at[of stat d0 ep k "{?e}" d t] by (simp add: in_progress_def)
  qed (use prog in auto)
  then have "at_rest stat d0 ep (Suc k) (set_mark (cst_property stat) ?e DONE d)"
    using prog by (auto simp: at_rest_def in_progress_def filled_def intro: set_mark_marked)
  then show "recoverable stat d0 ep (set_mark (cst_property stat) ?e DONE d) \<and> at_rest stat d0 ep (Suc k) (set_mark (cst_property stat) ?e DONE d)"
    by (auto intro: recoverableI)
qed


text \<open>A fill commits local steps only, and the state it ends in is their composition.\<close>

definition fill_step :: "count_stat \<Rightarrow> (string \<Rightarrow> rat \<Rightarrow> rat \<Rightarrow> db \<Rightarrow> db) \<Rightarrow> rat \<Rightarrow> db \<Rightarrow> db" where
  "fill_step stat pull t d =
     aggregate_into_installation stat t (aggregate_into_realms stat t (pull (cst_property stat) (t - cst_interval stat) t d))"

lemma do_fill_run:
  assumes "cst_kind stat \<noteq> Logging" and "cst_pull stat = Some pull"
  shows "fst (do_fill_count_stat_at_hour stat t d) = Inr ()" and "final (do_fill_count_stat_at_hour stat t) d = fill_step stat pull t d"
    and "set (snd (do_fill_count_stat_at_hour stat t d)) \<subseteq> {pull (cst_property stat) (t - cst_interval stat) t d,
      aggregate_into_realms stat t (pull (cst_property stat) (t - cst_interval stat) t d), fill_step stat pull t d}"
proof -
  have "aggregate_into_realms stat t = (\<lambda>d. d)" if "cst_table stat = RealmCount"
    using that by (simp add: aggregate_into_realms_def fun_eq_iff)
  then show "fst (do_fill_count_stat_at_hour stat t d) = Inr ()" "final (do_fill_count_stat_at_hour stat t) d = fill_step stat pull t d"
    "set (snd (do_fill_count_stat_at_hour stat t d)) \<subseteq> {pull (cst_property stat) (t - cst_interval stat) t d,
      aggregate_into_realms stat t (pull (cst_property stat) (t - cst_interval stat) t d), fill_step stat pull t d}"
    using assms by (cases "cst_table stat = RealmCount";
      simp add: do_fill_count_stat_at_hour_def do_aggregate_to_summary_table_def after_def commit_def look_def final_def fill_step_def)+
qed

lemma fill_hour:
  assumes stat: "stat \<in> set count_stats" "cst_kind stat \<noteq> Logging" and clean: "\<And>t. counts_view (cst_property stat) t d0 = no_counts"
  shows "holds (\<lambda>d. in_progress stat d0 ep k d \<and> counts_view (cst_property stat) (boundary stat ep (Suc k)) d = no_counts)
     (do_fill_count_stat_at_hour stat (boundary stat ep (Suc k)))
     (\<lambda>_ d. in_progress stat d0 ep k d \<and>
        counts_view (cst_property stat) (boundary stat ep (Suc k)) d = expected stat d0 (boundary stat ep (Suc k))) (recoverable stat d0 ep)"
  unfolding holds_def
proof (intro allI impI)
  fix d
  let ?e = "boundary stat ep (Suc k)" and ?p = "cst_property stat"
  let ?fill = "do_fill_count_stat_at_hour stat ?e"
  assume prog: "in_progress stat d0 ep k d \<and> counts_view ?p ?e d = no_counts"
  obtain pull where pull: "cst_pull stat = Some pull" and loc: "\<And>s e. local_step ?p e (pull ?p s e)"
    using count_stats_local[OF stat] by blast
  let ?pull = "pull ?p (?e - cst_interval stat) ?e"
  have l2: "local_step ?p ?e (\<lambda>d. aggregate_into_realms stat ?e (?pull d))"
    by (rule local_comp[OF loc aggregate_into_realms_local])
  have l3: "local_step ?p ?e (fill_step stat pull ?e)"
    unfolding fill_step_def[abs_def] by (rule local_comp[OF l2 aggregate_into_installation_local])
  have keep: "in_progress stat d0 ep k (?pull d)" "in_progress stat d0 ep k (aggregate_into_realms stat ?e (?pull d))"
    "in_progress stat d0 ep k (fill_step stat pull ?e d)"
    using prog local_keeps_progress[OF loc] local_keeps_progress[OF l2] local_keeps_progress[OF l3] by blast+
  note run = do_fill_run[OF stat(2) pull]
  have "list_all (recoverable stat d0 ep) (snd (?fill d))"
    using run(3)[of ?e d] keep by (auto simp: list_all_iff intro: recoverableI)
  moreover have "counts_view ?p ?e (final ?fill d) = expected stat d0 ?e"
  proof -
    have "elsewhere ?p d = elsewhere ?p d0" using prog by (simp add: in_progress_def filled_def)
    moreover have "counts_view ?p ?e d = counts_view ?p ?e d0" using prog clean by simp
    ultimately show ?thesis unfolding expected_def run(2) by (rule local_stepD(4)[OF l3])
  qed
  ultimately show "list_all (recoverable stat d0 ep) (snd (?fill d)) \<and> (\<exists>x. fst (?fill d) = Inr x \<and>
      in_progress stat d0 ep k (final ?fill d) \<and> counts_view ?p ?e (final ?fill d) = expected stat d0 ?e)"
    using keep(3) run(1,2)[of ?e d] by simp
qed

lemma fill_one_holds:
  assumes "stat \<in> set count_stats" "cst_kind stat \<noteq> Logging" and "\<And>t. counts_view (cst_property stat) t d0 = no_counts"
  shows "holds (at_rest stat d0 ep k) (fill_one stat (boundary stat ep (Suc k))) (\<lambda>_. at_rest stat d0 ep (Suc k)) (recoverable stat d0 ep)"
  unfolding fill_one_def by (intro holds_after[OF start_filling] holds_after[OF fill_hour[OF assms]] end_filling)

lemma fill_loop_holds:
  assumes stat: "stat \<in> set count_stats" "cst_kind stat \<noteq> Logging" and clean: "\<And>t. counts_view (cst_property stat) t d0 = no_counts"
  shows "holds (at_rest stat d0 ep k) (fill_loop stat b (boundary stat ep (Suc k)))
    (\<lambda>_ d. \<exists>n. at_rest stat d0 ep n d \<and> b < boundary stat ep (Suc n) \<and> (n = k \<or> boundary stat ep n \<le> b)) (recoverable stat d0 ep)"
  using stat clean
proof (induction stat b "boundary stat ep (Suc k)" arbitrary: k rule: fill_loop.induct)
  case (1 stat b)
  show ?case
  proof (cases "boundary stat ep (Suc k) \<le> b")
    case True
    have next_time: "boundary stat ep (Suc k) + time_increment (cst_frequency stat) = boundary stat ep (Suc (Suc k))"
      by (simp add: boundary_Suc)
    have "holds (at_rest stat d0 ep k)
        (after (fill_one stat (boundary stat ep (Suc k))) (\<lambda>_. fill_loop stat b (boundary stat ep (Suc (Suc k)))))
        (\<lambda>_ d. \<exists>n. at_rest stat d0 ep n d \<and> b < boundary stat ep (Suc n) \<and> (n = Suc k \<or> boundary stat ep n \<le> b)) (recoverable stat d0 ep)"
      by (rule holds_after[OF fill_one_holds[OF 1(2-4)] 1(1)[OF True next_time 1(2-4)]])
    then show ?thesis using True by (subst fill_loop.simps) (auto simp: next_time elim!: holds_post)
  next
    case False
    then show ?thesis by (subst fill_loop.simps) (auto intro!: holds_skip)
  qed
qed


text \<open>Undoing an interrupted fill.\<close>

lemma counts_at_without: "counts_at p t (without p e l) = (if t = e then [] else counts_at p t l)"
  by (induction l) (auto simp: counts_at_def without_def)

lemma filter_without: "filter (\<lambda>c. bc_property c \<noteq> p) (without p e l) = filter (\<lambda>c. bc_property c \<noteq> p) l"
  by (induction l) (auto simp: without_def)

lemma delete_steps_local:
  "local_step p e (\<lambda>d. d\<lparr>user_counts := without p e (user_counts d)\<rparr>)"
  "local_step p e (\<lambda>d. d\<lparr>stream_counts := without p e (stream_counts d)\<rparr>)"
  "local_step p e (\<lambda>d. d\<lparr>realm_counts := without p e (realm_counts d)\<rparr>)"
  "local_step p e (\<lambda>d. d\<lparr>installation_counts := without p e (installation_counts d)\<rparr>)"
  by (rule local_stepI; simp add: elsewhere_def filter_without counts_view_def counts_at_without)+

lemma holds_local:
  assumes "local_step (cst_property stat) (boundary stat ep (Suc k)) f"
    and "\<And>d. P d \<Longrightarrow> Q (f d)"
  shows "holds (\<lambda>d. in_progress stat d0 ep k d \<and> P d) (commit f) (\<lambda>_ d. in_progress stat d0 ep k d \<and> Q d) (recoverable stat d0 ep)"
  by (rule holds_commit) (auto intro: assms(2) local_keeps_progress[OF assms(1)] recoverableI)

lemma delete_holds:
  assumes "cst_kind stat \<noteq> Logging"
  shows "holds (in_progress stat d0 ep k) (do_delete_counts_at_hour stat (boundary stat ep (Suc k)))
    (\<lambda>_ d. in_progress stat d0 ep k d \<and> counts_view (cst_property stat) (boundary stat ep (Suc k)) d = no_counts) (recoverable stat d0 ep)"
proof -
  let ?p = "cst_property stat" and ?e = "boundary stat ep (Suc k)"
  let ?Q1 = "\<lambda>d. counts_at ?p ?e (user_counts d) = []"
  let ?Q2 = "\<lambda>d. ?Q1 d \<and> counts_at ?p ?e (stream_counts d) = []"
  let ?Q3 = "\<lambda>d. ?Q2 d \<and> counts_at ?p ?e (realm_counts d) = []"
  have 1: "holds (\<lambda>d. in_progress stat d0 ep k d \<and> True) (commit (\<lambda>d. d\<lparr>user_counts := without ?p ?e (user_counts d)\<rparr>))
      (\<lambda>_ d. in_progress stat d0 ep k d \<and> ?Q1 d) (recoverable stat d0 ep)"
    by (rule holds_local[OF delete_steps_local(1)]) (simp add: counts_at_without)
  have 2: "holds (\<lambda>d. in_progress stat d0 ep k d \<and> ?Q1 d) (commit (\<lambda>d. d\<lparr>stream_counts := without ?p ?e (stream_counts d)\<rparr>))
      (\<lambda>_ d. in_progress stat d0 ep k d \<and> ?Q2 d) (recoverable stat d0 ep)"
    by (rule holds_local[OF delete_steps_local(2)]) (simp add: counts_at_without)
  have 3: "holds (\<lambda>d. in_progress stat d0 ep k d \<and> ?Q2 d) (delete_realm ?p ?e)
      (\<lambda>_ d. in_progress stat d0 ep k d \<and> ?Q3 d) (recoverable stat d0 ep)"
    unfolding delete_realm_def by (rule holds_local[OF delete_steps_local(3)]) (simp add: counts_at_without)
  have 4: "holds (\<lambda>d. in_progress stat d0 ep k d \<and> ?Q3 d) (delete_installation ?p ?e)
      (\<lambda>_ d. in_progress stat d0 ep k d \<and> counts_view ?p ?e d = no_counts) (recoverable stat d0 ep)"
    unfolding delete_installation_def by (rule holds_local[OF delete_steps_local(4)]) (simp add: counts_at_without counts_view_def)
  show ?thesis
    unfolding do_delete_counts_at_hour_def Let_def using assms
    by (simp del: simp_thms add: if_False) (intro holds_after[OF holds_pre[OF 1]] holds_after[OF 2] holds_after[OF 3] 4, simp)
qed

lemma undo_mark:
  "holds (\<lambda>d. in_progress stat d0 ep k d \<and> counts_view (cst_property stat) (boundary stat ep (Suc k)) d = no_counts)
     (do_update_fill_state (cst_property stat) (boundary stat ep k) DONE) (\<lambda>_. at_rest stat d0 ep k) (recoverable stat d0 ep)"
  unfolding do_update_fill_state_mark
proof (rule holds_commit)
  fix d
  let ?e = "boundary stat ep (Suc k)"
  assume prog: "in_progress stat d0 ep k d \<and> counts_view (cst_property stat) ?e d = no_counts"
  have "counts_view (cst_property stat) t d = (if t \<in> boundary stat ep ` {1..k} then expected stat d0 t else no_counts)" for t
    using prog filled_at[of stat d0 ep k "{?e}" d t] by (cases "t = ?e") (auto simp: in_progress_def)
  then have "at_rest stat d0 ep k (set_mark (cst_property stat) (boundary stat ep k) DONE d)"
    using prog by (auto simp: at_rest_def in_progress_def filled_def intro: set_mark_marked)
  then show "recoverable stat d0 ep (set_mark (cst_property stat) (boundary stat ep k) DONE d) \<and>
      at_rest stat d0 ep k (set_mark (cst_property stat) (boundary stat ep k) DONE d)"
    by (auto intro: recoverableI)
qed

lemma find_as_filter: "find P xs = (case filter P xs of [] \<Rightarrow> None | x # _ \<Rightarrow> Some x)"
  by (induction xs) auto

lemma fill_state_marked: "marked stat st t d \<Longrightarrow>
    fill_state_of (cst_property stat) d = Some \<lparr>fs_property = cst_property stat, fs_end_time = t, fs_state = st\<rparr>"
  by (simp add: fill_state_of_def find_as_filter marked_def)

lemma create_mark:
  "holds (fresh stat d0 ep)
     (commit (\<lambda>d. d\<lparr>fill_states := fill_states d @ [\<lparr>fs_property = cst_property stat, fs_end_time = ep, fs_state = DONE\<rparr>]\<rparr>))
     (\<lambda>_. at_rest stat d0 ep 0) (recoverable stat d0 ep)"
proof (rule holds_commit)
  fix d :: db
  let ?d = "d\<lparr>fill_states := fill_states d @ [\<lparr>fs_property = cst_property stat, fs_end_time = ep, fs_state = DONE\<rparr>]\<rparr>"
  assume "fresh stat d0 ep d"
  then have "at_rest stat d0 ep 0 ?d"
    by (auto simp: fresh_def at_rest_def filled_def marked_def boundary_def elsewhere_def counts_view_def)
  then show "recoverable stat d0 ep ?d \<and> at_rest stat d0 ep 0 ?d" by (auto intro: recoverableI)
qed

lemma holds_split:
  assumes "\<And>d. P d \<Longrightarrow> \<exists>i. P' i d" and "\<And>i. holds (P' i) m Q I"
  shows "holds P m Q I"
  using assms unfolding holds_def by blast

lemma holds_run: "(\<And>d. P d \<Longrightarrow> m d = m' d) \<Longrightarrow> holds P m' Q I \<Longrightarrow> holds P m Q I"
  by (simp add: holds_def final_def)

lemma after_look: "after (look f) g d = (case f d of Inl e \<Rightarrow> (Inl e, []) | Inr x \<Rightarrow> g x d)"
  by (simp add: after_def look_def split: sum.splits)

text \<open>Whatever an earlier run left, the next one starts from a state at rest.\<close>

lemma start_state_holds:
  assumes "cst_kind stat \<noteq> Logging" and "installation_epoch d0 = Inr ep"
  shows "holds (recoverable stat d0 ep) (start_state stat) (\<lambda>t d. \<exists>k. t = boundary stat ep k \<and> at_rest stat d0 ep k d) (recoverable stat d0 ep)"
proof -
  let ?p = "cst_property stat" and ?Q = "\<lambda>t d. \<exists>k. t = boundary stat ep k \<and> at_rest stat d0 ep k d"
  have fresh: "holds (fresh stat d0 ep) (start_state stat) ?Q (recoverable stat d0 ep)"
  proof (rule holds_run)
    fix d
    assume fr: "fresh stat d0 ep d"
    then have "fill_state_of ?p d = None" by (simp add: fresh_def fill_state_of_def find_as_filter)
    moreover have "installation_epoch d = Inr ep"
      using fr assms(2) elsewhere_tables(2)[of ?p d d0] by (simp add: fresh_def filled_def installation_epoch_def)
    ultimately show "start_state stat d =
        after (commit (\<lambda>d. d\<lparr>fill_states := fill_states d @ [\<lparr>fs_property = ?p, fs_end_time = ep, fs_state = DONE\<rparr>]\<rparr>)) (\<lambda>_. look (\<lambda>d. Inr ep)) d"
      by (simp add: start_state_def Let_def after_look)
  next
    show "holds (fresh stat d0 ep) (after (commit (\<lambda>d. d\<lparr>fill_states := fill_states d @ [\<lparr>fs_property = ?p, fs_end_time = ep, fs_state = DONE\<rparr>]\<rparr>))
        (\<lambda>_. look (\<lambda>d. Inr ep))) ?Q (recoverable stat d0 ep)"
      by (rule holds_after[OF create_mark]) (rule holds_look, auto intro!: exI[of _ 0] simp: boundary_def)
  qed
  have rest: "holds (at_rest stat d0 ep k) (start_state stat) ?Q (recoverable stat d0 ep)" for k
  proof (rule holds_run)
    fix d
    assume "at_rest stat d0 ep k d"
    then have "fill_state_of ?p d = Some \<lparr>fs_property = ?p, fs_end_time = boundary stat ep k, fs_state = DONE\<rparr>"
      by (intro fill_state_marked) (simp add: at_rest_def)
    then show "start_state stat d = look (\<lambda>d. Inr (boundary stat ep k)) d"
      by (simp add: start_state_def Let_def after_look DONE_def STARTED_def)
  qed (rule holds_look, auto)
  have progress: "holds (in_progress stat d0 ep k) (start_state stat) ?Q (recoverable stat d0 ep)" for k
  proof (rule holds_run)
    fix d
    assume "in_progress stat d0 ep k d"
    then have "fill_state_of ?p d = Some \<lparr>fs_property = ?p, fs_end_time = boundary stat ep (Suc k), fs_state = STARTED\<rparr>"
      by (intro fill_state_marked) (simp add: in_progress_def)
    moreover have "boundary stat ep (Suc k) - time_increment (cst_frequency stat) = boundary stat ep k" by (simp add: boundary_Suc)
    ultimately show "start_state stat d = after (do_delete_counts_at_hour stat (boundary stat ep (Suc k))) (\<lambda>_.
        after (do_update_fill_state ?p (boundary stat ep k) DONE) (\<lambda>_. look (\<lambda>d. Inr (boundary stat ep k)))) d"
      by (simp add: start_state_def Let_def after_look DONE_def STARTED_def)
  next
    show "holds (in_progress stat d0 ep k) (after (do_delete_counts_at_hour stat (boundary stat ep (Suc k))) (\<lambda>_.
        after (do_update_fill_state ?p (boundary stat ep k) DONE) (\<lambda>_. look (\<lambda>d. Inr (boundary stat ep k))))) ?Q (recoverable stat d0 ep)"
      by (intro holds_after[OF delete_holds[OF assms(1)]] holds_after[OF undo_mark] holds_look) auto
  qed
  show ?thesis using fresh rest progress unfolding holds_def recoverable_def by blast
qed

lemma process_holds:
  assumes stat: "stat \<in> set count_stats" "cst_kind stat \<noteq> Logging" and clean: "\<And>t. counts_view (cst_property stat) t d0 = no_counts"
    and ep: "installation_epoch d0 = Inr ep" and b: "floor_to_hour b = b"
  shows "holds (recoverable stat d0 ep) (process_count_stat stat b)
    (\<lambda>_ d. \<exists>k. at_rest stat d0 ep k d \<and> (cst_kind stat = Plain \<longrightarrow> b < boundary stat ep (Suc k))) (recoverable stat d0 ep)"
proof -
  let ?Q = "\<lambda>(_ :: unit) d. \<exists>k. at_rest stat d0 ep k d \<and> (cst_kind stat = Plain \<longrightarrow> b < boundary stat ep (Suc k))"
  let ?bound = "\<lambda>d. case cst_kind stat of Dependent deps \<Rightarrow> dependency_bound deps b d | _ \<Rightarrow> Some b"
  have loop: "holds (\<lambda>d. at_rest stat d0 ep k d \<and> ?bound d = Some b')
      (fill_loop stat b' (boundary stat ep k + time_increment (cst_frequency stat))) ?Q (recoverable stat d0 ep)" for k b'
  proof (cases "cst_kind stat")
    case Plain
    show ?thesis
    proof (cases "b' = b")
      case True
      have "holds (at_rest stat d0 ep k) (fill_loop stat b' (boundary stat ep (Suc k))) ?Q (recoverable stat d0 ep)"
        by (rule holds_post[OF fill_loop_holds[OF stat clean]]) (auto simp: True)
      then show ?thesis unfolding boundary_Suc[symmetric] by (rule holds_pre) simp
    qed (simp add: holds_def Plain)
  next
    case Logging
    then show ?thesis using stat(2) by simp
  next
    case (Dependent deps)
    have "holds (at_rest stat d0 ep k) (fill_loop stat b' (boundary stat ep (Suc k))) ?Q (recoverable stat d0 ep)"
      by (rule holds_post[OF fill_loop_holds[OF stat clean]]) (auto simp: Dependent)
    then show ?thesis unfolding boundary_Suc[symmetric] by (rule holds_pre) simp
  qed
  have body: "holds (\<lambda>d. \<exists>k. t = boundary stat ep k \<and> at_rest stat d0 ep k d)
      (after (look (\<lambda>d. Inr (?bound d))) (\<lambda>bound. case bound of None \<Rightarrow> look (\<lambda>d. Inr ())
        | Some b' \<Rightarrow> fill_loop stat b' (t + time_increment (cst_frequency stat)))) ?Q (recoverable stat d0 ep)" for t
  proof (rule holds_split)
    show "\<exists>k. t = boundary stat ep k \<and> at_rest stat d0 ep k d" if "\<exists>k. t = boundary stat ep k \<and> at_rest stat d0 ep k d" for d
      by (rule that)
    fix k
    have after_look: "holds (\<lambda>d. t = boundary stat ep k \<and> at_rest stat d0 ep k d) (look (\<lambda>d. Inr (?bound d)))
        (\<lambda>bo d. t = boundary stat ep k \<and> at_rest stat d0 ep k d \<and> ?bound d = bo) (recoverable stat d0 ep)"
      by (rule holds_look) simp
    show "holds (\<lambda>d. t = boundary stat ep k \<and> at_rest stat d0 ep k d)
      (after (look (\<lambda>d. Inr (?bound d))) (\<lambda>bound. case bound of None \<Rightarrow> look (\<lambda>d. Inr ())
        | Some b' \<Rightarrow> fill_loop stat b' (t + time_increment (cst_frequency stat)))) ?Q (recoverable stat d0 ep)"
    proof (rule holds_after[OF after_look])
      fix bo
      show "holds (\<lambda>d. t = boundary stat ep k \<and> at_rest stat d0 ep k d \<and> ?bound d = bo)
        (case bo of None \<Rightarrow> look (\<lambda>d. Inr ()) | Some b' \<Rightarrow> fill_loop stat b' (t + time_increment (cst_frequency stat))) ?Q (recoverable stat d0 ep)"
      proof (cases bo)
        case None
        then show ?thesis by (auto intro!: holds_skip)
      next
        case (Some b')
        show ?thesis
        proof (cases "t = boundary stat ep k")
          case True
          then show ?thesis using Some loop[of k b'] by simp
        qed (simp add: holds_def)
      qed
    qed
  qed
  show ?thesis
    unfolding process_count_stat_def using b
    by (simp only: not_not simp_thms if_False if_not_P) (rule holds_after[OF start_state_holds[OF stat(2) ep] body])
qed


text \<open>The states that runs leave behind, each of them stopped after any of its commits or at its end.\<close>

inductive interrupted :: "count_stat \<Rightarrow> db \<Rightarrow> db \<Rightarrow> bool" for stat d0 where
  unstarted: "interrupted stat d0 d0"
| stopped: "\<lbrakk>interrupted stat d0 d; process_count_stat stat b d = (r, ds); d' \<in> set ds\<rbrakk> \<Longrightarrow> interrupted stat d0 d'"

definition never_run :: "count_stat \<Rightarrow> db \<Rightarrow> bool" where
  "never_run stat d \<longleftrightarrow> (\<forall>t. counts_view (cst_property stat) t d = no_counts) \<and> fill_state_of (cst_property stat) d = None"

lemma never_run_fresh: "never_run stat d0 \<Longrightarrow> fresh stat d0 ep d0"
  by (simp add: never_run_def fresh_def filled_def fill_state_of_def find_None_iff filter_empty_conv)

lemma wrong_hour: "floor_to_hour b \<noteq> b \<Longrightarrow> process_count_stat stat b d = (Inl (ValueError ''fill_to_time must be on an hour boundary''), [])"
  by (simp add: process_count_stat_def look_def)

lemma interrupted_recoverable:
  assumes "interrupted stat d0 d" and stat: "stat \<in> set count_stats" "cst_kind stat \<noteq> Logging" and "never_run stat d0"
    and ep: "installation_epoch d0 = Inr ep"
  shows "recoverable stat d0 ep d"
  using assms(1)
proof induction
  case unstarted
  then show ?case using never_run_fresh[OF assms(4)] by (rule recoverableI)
next
  case (stopped d b r ds d')
  have clean: "counts_view (cst_property stat) t d0 = no_counts" for t using assms(4) by (simp add: never_run_def)
  show ?case
  proof (cases "floor_to_hour b = b")
    case True
    from holdsD[OF process_holds[OF stat clean ep True] stopped.IH] stopped.hyps show ?thesis by (auto simp: list_all_iff)
  next
    case False
    then show ?thesis using stopped.hyps wrong_hour by simp
  qed
qed

lemma process_fills:
  assumes "interrupted stat d0 d" and stat: "stat \<in> set count_stats" "cst_kind stat \<noteq> Logging" and "never_run stat d0"
    and ep: "installation_epoch d0 = Inr ep" and b: "floor_to_hour b = b"
  shows "\<exists>ds n. process_count_stat stat b d = (Inr (), ds) \<and> at_rest stat d0 ep n (last (d # ds)) \<and>
    (cst_kind stat = Plain \<longrightarrow> b < boundary stat ep (Suc n))"
proof -
  have clean: "counts_view (cst_property stat) t d0 = no_counts" for t using assms(4) by (simp add: never_run_def)
  from holdsD[OF process_holds[OF stat clean ep b] interrupted_recoverable[OF assms(1-5)]] show ?thesis
    by (elim exE conjE) (intro exI conjI, simp, assumption+)
qed

lemma at_rest_view:
  assumes "at_rest stat d0 ep n d"
  shows "fill_state_of (cst_property stat) d =
      Some \<lparr>fs_property = cst_property stat, fs_end_time = ep + of_nat n * time_increment (cst_frequency stat), fs_state = DONE\<rparr>"
    and "elsewhere (cst_property stat) d = elsewhere (cst_property stat) d0"
    and "counts_view (cst_property stat) t d =
      (if \<exists>j. 1 \<le> j \<and> j \<le> n \<and> t = ep + of_nat j * time_increment (cst_frequency stat)
       then counts_view (cst_property stat) t (final (do_fill_count_stat_at_hour stat t) d0) else no_counts)"
proof -
  show "fill_state_of (cst_property stat) d =
      Some \<lparr>fs_property = cst_property stat, fs_end_time = ep + of_nat n * time_increment (cst_frequency stat), fs_state = DONE\<rparr>"
    using assms by (intro fill_state_marked) (simp add: at_rest_def boundary_def)
  show "elsewhere (cst_property stat) d = elsewhere (cst_property stat) d0" using assms by (simp add: at_rest_def filled_def)
  have mem: "t \<in> boundary stat ep ` {1..n} \<longleftrightarrow> (\<exists>j. 1 \<le> j \<and> j \<le> n \<and> t = ep + of_nat j * time_increment (cst_frequency stat))"
    by (auto simp: boundary_def image_iff)
  have "counts_view (cst_property stat) t d = (if t \<in> boundary stat ep ` {1..n} then expected stat d0 t else no_counts)"
    using filled_at[of stat d0 ep n "{}" d t] assms by (simp add: at_rest_def)
  then show "counts_view (cst_property stat) t d =
      (if \<exists>j. 1 \<le> j \<and> j \<le> n \<and> t = ep + of_nat j * time_increment (cst_frequency stat)
       then counts_view (cst_property stat) t (final (do_fill_count_stat_at_hour stat t) d0) else no_counts)"
    unfolding mem expected_def .
qed

text \<open>
  C17: However many runs of the cron job were stopped, after any of their commits, a run that
  comes through leaves every hour or day up to the one it is done with counted exactly once: the
  rows of the statistic are those that filling each of these times alone, on the database before
  the first run, would write, and all other rows are untouched.
\<close>

theorem counted_exactly_once:
  assumes "stat \<in> set count_stats" and "cst_kind stat \<noteq> Logging" and "never_run stat d0" and "installation_epoch d0 = Inr ep"
    and "interrupted stat d0 d" and "process_count_stat stat b d = (Inr (), ds)"
  shows "\<exists>n. fill_state_of (cst_property stat) (last (d # ds)) =
      Some \<lparr>fs_property = cst_property stat, fs_end_time = ep + of_nat n * time_increment (cst_frequency stat), fs_state = DONE\<rparr> \<and>
    elsewhere (cst_property stat) (last (d # ds)) = elsewhere (cst_property stat) d0 \<and>
    (\<forall>t. counts_view (cst_property stat) t (last (d # ds)) =
      (if \<exists>j. 1 \<le> j \<and> j \<le> n \<and> t = ep + of_nat j * time_increment (cst_frequency stat)
       then counts_view (cst_property stat) t (final (do_fill_count_stat_at_hour stat t) d0) else no_counts))"
proof -
  have "floor_to_hour b = b" using assms(6) wrong_hour by fastforce
  then obtain ds' n where "process_count_stat stat b d = (Inr (), ds')" "at_rest stat d0 ep n (last (d # ds'))"
    using process_fills[OF assms(5,1-4)] by blast
  then have "at_rest stat d0 ep n (last (d # ds))" using assms(6) by simp
  from at_rest_view[OF this] show ?thesis by blast
qed

text \<open>
  C19: A run of a statistic that depends on no other comes to an end, without an error, also after
  interrupted runs, and then everything up to the requested time is filled: the next hour or day
  ends after it.
\<close>

theorem filling_completes:
  assumes "stat \<in> set count_stats" and "cst_kind stat = Plain" and "never_run stat d0" and "installation_epoch d0 = Inr ep"
    and "interrupted stat d0 d" and "floor_to_hour b = b"
  shows "\<exists>ds n. process_count_stat stat b d = (Inr (), ds) \<and> fill_state_of (cst_property stat) (last (d # ds)) =
      Some \<lparr>fs_property = cst_property stat, fs_end_time = ep + of_nat n * time_increment (cst_frequency stat), fs_state = DONE\<rparr> \<and>
    b < ep + of_nat (Suc n) * time_increment (cst_frequency stat)"
proof -
  have kind: "cst_kind stat \<noteq> Logging" using assms(2) by simp
  obtain ds n where run: "process_count_stat stat b d = (Inr (), ds)" "at_rest stat d0 ep n (last (d # ds))"
      "cst_kind stat = Plain \<longrightarrow> b < boundary stat ep (Suc n)"
    using process_fills[OF assms(5,1) kind assms(3,4,6)] by blast
  have "fill_state_of (cst_property stat) (last (d # ds)) =
      Some \<lparr>fs_property = cst_property stat, fs_end_time = ep + of_nat n * time_increment (cst_frequency stat), fs_state = DONE\<rparr>"
    by (rule at_rest_view(1)[OF run(2)])
  moreover have "b < ep + of_nat (Suc n) * time_increment (cst_frequency stat)" using run(3) assms(2) by (simp add: boundary_def)
  ultimately show ?thesis using run(1) by blast
qed

section \<open>Sums that agree\<close>

lemma sum_group: "sum_list (map snd (filter (\<lambda>x. P (fst x)) (group_sum xs))) = sum_list (map snd (filter (\<lambda>x. P (fst x)) xs))"
proof -
  have "sum_list (map snd (filter (\<lambda>x. P (fst x)) (group_sum xs))) =
      sum_list (map (\<lambda>k. sum_list (map snd (filter (\<lambda>x. fst x = k) xs))) (filter P (remdups (map fst xs))))"
    by (simp add: group_sum_def filter_map comp_def)
  also have "\<dots> = (\<Sum>k \<in> {k \<in> fst ` set xs. P k}. sum_list (map snd (filter (\<lambda>x. fst x = k) xs)))"
    by (subst sum_list_distinct_conv_sum_set) (simp_all add: Collect_conj_eq inf_commute)
  also have "\<dots> = sum_list (map snd (filter (\<lambda>x. P (fst x)) xs))"
  proof (induction xs)
    case (Cons y ys)
    let ?A = "{k \<in> fst ` set (y # ys). P k}" and ?B = "{k \<in> fst ` set ys. P k}"
    let ?f = "\<lambda>k. sum_list (map snd (filter (\<lambda>x. fst x = k) ys))"
    have none: "?f k = 0" if "k \<notin> fst ` set ys" for k
      using that by (metis (mono_tags, lifting) filter_False image_eqI list.simps(8) sum_list.Nil)
    have "(\<Sum>k \<in> ?A. sum_list (map snd (filter (\<lambda>x. fst x = k) (y # ys)))) = (\<Sum>k \<in> ?A. (if k = fst y then snd y else 0) + ?f k)"
      by (rule sum.cong) auto
    also have "\<dots> = (\<Sum>k \<in> ?A. if k = fst y then snd y else 0) + (\<Sum>k \<in> ?A. ?f k)" by (rule sum.distrib)
    also have "(\<Sum>k \<in> ?A. if k = fst y then snd y else 0) = (if P (fst y) then snd y else 0)"
      by (simp add: sum.delta)
    also have "(\<Sum>k \<in> ?A. ?f k) = (\<Sum>k \<in> ?B. ?f k)"
      by (rule sum.mono_neutral_right) (auto intro: none)
    finally show ?case using Cons.IH by simp
  qed simp
  finally show ?thesis .
qed

lemma sum_group_all: "sum_list (map snd (group_sum xs)) = sum_list (map snd xs)"
  using sum_group[where P = "\<lambda>_. True" and xs = xs] by simp

lemma sum_joined:
  assumes "distinct (map rm_id rs)" and "\<And>c. c \<in> set rows \<Longrightarrow> bc_realm c \<in> rm_id ` set rs"
  shows "sum_list (map snd (filter (\<lambda>x. P (fst x)) [((rm_id r, bc_subgroup c), bc_value c). r \<leftarrow> rs, c \<leftarrow> rows, bc_realm c = rm_id r])) =
    sum_list (map bc_value (filter (\<lambda>c. P (bc_realm c, bc_subgroup c)) rows))"
proof -
  let ?F = "\<lambda>r c. if bc_realm c = rm_id r \<and> P (rm_id r, bc_subgroup c) then bc_value c else 0"
  have row: "sum_list (map snd (filter (\<lambda>x. P (fst x)) [((rm_id r, bc_subgroup c), bc_value c). c \<leftarrow> rows, bc_realm c = rm_id r])) =
      (\<Sum>c\<leftarrow>rows. ?F r c)" for r
    by (induction rows) auto
  have "sum_list (map snd (filter (\<lambda>x. P (fst x)) [((rm_id r, bc_subgroup c), bc_value c). r \<leftarrow> rs, c \<leftarrow> rows, bc_realm c = rm_id r])) =
      (\<Sum>r\<leftarrow>rs. \<Sum>c\<leftarrow>rows. ?F r c)"
    by (induction rs) (simp_all add: row)
  also have "\<dots> = (\<Sum>c\<leftarrow>rows. \<Sum>r\<leftarrow>rs. ?F r c)" by (induction rs) (simp_all add: sum_list_addf)
  also have "\<dots> = (\<Sum>c\<leftarrow>rows. if P (bc_realm c, bc_subgroup c) then bc_value c else 0)"
  proof (rule arg_cong[of _ _ sum_list], rule map_cong[OF refl])
    fix c
    assume "c \<in> set rows"
    then have "bc_realm c \<in> rm_id ` set rs" by (rule assms(2))
    moreover have "(\<Sum>r\<leftarrow>rs. ?F r c) = (if bc_realm c \<in> rm_id ` set rs \<and> P (bc_realm c, bc_subgroup c) then bc_value c else 0)"
      using assms(1) by (induction rs) auto
    ultimately show "(\<Sum>r\<leftarrow>rs. ?F r c) = (if P (bc_realm c, bc_subgroup c) then bc_value c else 0)" by simp
  qed
  also have "\<dots> = sum_list (map bc_value (filter (\<lambda>c. P (bc_realm c, bc_subgroup c)) rows))" by (simp add: sum_list_map_filter')
  finally show ?thesis .
qed


lemma sum_group_count: "sum_list (map snd (group_count ks)) = int (length ks)"
proof -
  have "sum_list (map snd (group_count ks)) = (\<Sum>k \<in> set ks. int (count_list ks k))"
    by (simp add: group_count_def comp_def sum_list_distinct_conv_sum_set)
  also have "\<dots> = int (length ks)" by (simp add: sum_count_set flip: of_nat_sum)
  finally show ?thesis .
qed

lemma counts_at_user_rows: "counts_at p t (map (user_row p t) xs) = map (user_row p t) xs"
  by (simp add: counts_at_def filter_id_conv user_row_def split: prod.split)

lemma counts_at_realm_rows: "counts_at p t (map (realm_row p t) xs) = map (realm_row p t) xs"
  by (simp add: counts_at_def filter_id_conv realm_row_def split: prod.split)

lemma row_values: "bc_value (user_row p t x) = snd x" "bc_value (realm_row p t y) = snd y" "bc_realm (user_row p t x) = fst (snd (fst x))"
  by (simp_all add: user_row_def realm_row_def split: prod.split)

lemma realm_total:
  assumes "distinct (map rm_id (realms d))" and "\<And>c. c \<in> set (counts_at p t rows) \<Longrightarrow> bc_realm c \<in> rm_id ` set (realms d)"
  shows "sum_list (map bc_value (realm_sums p t rows d)) = sum_list (map bc_value (counts_at p t rows))"
  using sum_joined[OF assms(1), where rows = "counts_at p t rows" and P = "\<lambda>_. True"] assms(2)
  by (simp add: realm_sums_def comp_def row_values sum_group_all)

lemma installation_total:
  "sum_list (map bc_value (installation_sums p t rows)) = sum_list (map bc_value (counts_at p t rows))"
  by (simp add: installation_sums_def comp_def split_beta sum_group_all)

lemma counts_at_installation: "counts_at p t (installation_sums p t rows) = installation_sums p t rows"
  by (auto simp: counts_at_def filter_id_conv installation_sums_def)

lemma sent_once:
  assumes "distinct (map u_id us)"
  shows "length [k u m. u \<leftarrow> us, J u, m \<leftarrow> ms, m_sender m = u_id u \<and> I m] =
    length (filter (\<lambda>m. I m \<and> (\<exists>u \<in> set us. u_id u = m_sender m \<and> J u)) ms)"
  using assms
proof (induction us)
  case (Cons u us)
  let ?N = "\<lambda>us. length (filter (\<lambda>m. I m \<and> (\<exists>u \<in> set us. u_id u = m_sender m \<and> J u)) ms)"
  have own: "length [k u m. m \<leftarrow> ms, m_sender m = u_id u \<and> I m] = length (filter (\<lambda>m. m_sender m = u_id u \<and> I m) ms)"
    by (induction ms) auto
  have fresh: "v \<in> set us \<Longrightarrow> u_id v \<noteq> u_id u" for v using Cons.prems by (auto simp: rev_image_eqI)
  have "?N (u # us) = (if J u then length (filter (\<lambda>m. m_sender m = u_id u \<and> I m) ms) else 0) + ?N us"
    by (induction ms) (auto dest: fresh)
  then show ?case using Cons own by simp
qed simp

lemma sent_stats:
  assumes "stat \<in> set count_stats" and "cst_property stat \<in> {''messages_sent:is_bot:hour'', ''messages_sent:client:day''}"
  obtains g where "cst_pull stat = Some (insert_user_counts (count_message_by_user_query g))" "cst_table stat = UserCount"
    "cst_kind stat \<noteq> Logging"
  using assms by (auto simp: count_stats_def)

text \<open>
  C18: For an hour or a day of messages, what \<open>do_fill_count_stat_at_hour\<close> leaves in the installation's counts of
  sent messages adds up to the number of messages of that time whose sender had joined by its end: through the
  query, the sums per realm and the sums per installation no message is lost or counted twice.
\<close>

theorem every_message_counted:
  assumes "stat \<in> set count_stats" and "cst_property stat \<in> {''messages_sent:is_bot:hour'', ''messages_sent:client:day''}"
    and "distinct (map u_id (users d))" and "distinct (map rm_id (realms d))"
    and "\<forall>u \<in> set (users d). u_realm u \<in> rm_id ` set (realms d)"
    and "counts_view (cst_property stat) t d = no_counts"
  shows "sum_list (map bc_value (counts_at (cst_property stat) t (installation_counts (final (do_fill_count_stat_at_hour stat t) d)))) =
    int (length (filter (\<lambda>m. t - cst_interval stat \<le> m_pub_date m \<and> m_pub_date m < t \<and>
      (\<exists>u \<in> set (users d). u_id u = m_sender m \<and> u_date_joined u < t)) (messages d)))"
proof -
  let ?p = "cst_property stat" and ?s = "t - cst_interval stat"
  obtain g where pull: "cst_pull stat = Some (insert_user_counts (count_message_by_user_query g))"
    and table: "cst_table stat = UserCount" and kind: "cst_kind stat \<noteq> Logging" using sent_stats[OF assms(1,2)] .
  let ?keys = "[(u_id u, u_realm u, subgroup g u (Some m)). u \<leftarrow> users d, u_date_joined u < t,
    m \<leftarrow> messages d, m_sender m = u_id u \<and> ?s \<le> m_pub_date m \<and> m_pub_date m < t]"
  let ?rows = "map (user_row ?p t) (group_count ?keys)"
  have query: "count_message_by_user_query g ?p ?s t d = ?rows" by (simp add: count_message_by_user_query_def)
  have old: "counts_at ?p t (user_counts d) = []" "counts_at ?p t (realm_counts d) = []" "counts_at ?p t (installation_counts d) = []"
    using assms(6) by (simp_all add: counts_view_def)
  let ?d1 = "insert_user_counts (count_message_by_user_query g) ?p ?s t d"
  have d1: "counts_at ?p t (user_counts ?d1) = ?rows" "realms ?d1 = realms d" "realm_counts ?d1 = realm_counts d"
      "installation_counts ?d1 = installation_counts d"
    by (simp_all add: insert_user_counts_def query counts_at_append counts_at_user_rows old)
  let ?rs = "realm_sums ?p t (user_counts ?d1) ?d1"
  have known: "bc_realm c \<in> rm_id ` set (realms ?d1)" if "c \<in> set (counts_at ?p t (user_counts ?d1))" for c
  proof -
    have "\<exists>u \<in> set (users d). bc_realm c = u_realm u"
      using that unfolding d1(1) by (auto simp: group_count_def row_values)
    then show ?thesis using assms(5) d1(2) by auto
  qed
  have rs: "counts_at ?p t (realm_counts d @ ?rs) = ?rs"
    by (simp add: counts_at_append old realm_sums_def counts_at_realm_rows)
  have "sum_list (map bc_value (counts_at ?p t (installation_counts (final (do_fill_count_stat_at_hour stat t) d)))) =
      sum_list (map bc_value (installation_sums ?p t (realm_counts d @ ?rs)))"
    by (simp add: do_fill_run(2)[OF kind pull] fill_step_def aggregate_into_realms_def aggregate_into_installation_def table
        counts_at_append d1 old counts_at_installation)
  also have "\<dots> = sum_list (map bc_value ?rs)" by (simp add: installation_total rs)
  also have "\<dots> = sum_list (map bc_value ?rows)"
    using realm_total[of ?d1 ?p t "user_counts ?d1"] known assms(4) unfolding d1(1,2) by simp
  also have "\<dots> = int (length ?keys)" by (simp only: list.map_comp comp_def row_values sum_group_count)
  also have "length ?keys = length (filter (\<lambda>m. (?s \<le> m_pub_date m \<and> m_pub_date m < t) \<and>
      (\<exists>u \<in> set (users d). u_id u = m_sender m \<and> u_date_joined u < t)) (messages d))"
    by (rule sent_once[OF assms(3)])
  finally show ?thesis by (simp add: conj_assoc)
qed

section \<open>A run on a small database\<close>

definition hourly :: count_stat where
  "hourly = hd count_stats"

definition counted_db :: db where
  "counted_db = empty_db\<lparr>realms := [demo_realm], users := [demo_user 9 4 ''ann@zulip.com''],
     messages := [\<lparr>m_id = 1, m_sender = 9, m_recipient = 2, m_subject = [], m_content = ''hi'', m_rendered_content = None,
       m_rendered_content_version = None, m_pub_date = 100, m_sending_client = 1, m_last_edit_time = None, m_edit_history = None,
       m_has_attachment = False, m_has_image = False, m_has_link = False\<rparr>]\<rparr>"

lemma hourly_simps: "hourly \<in> set count_stats" "cst_kind hourly = Plain" "cst_property hourly = ''messages_sent:is_bot:hour''"
  "cst_frequency hourly = HOUR" "cst_table hourly = UserCount" "cst_interval hourly = 3600"
  "cst_pull hourly = Some (insert_user_counts (count_message_by_user_query ByIsBot))"
  by (simp_all add: hourly_def count_stats_def)

lemma counted_db_ok: "never_run hourly counted_db" "installation_epoch counted_db = Inr 0"
  by (simp_all add: never_run_def counts_view_def counts_at_def fill_state_of_def counted_db_def empty_db_def installation_epoch_def
      demo_realm_def floor_to_day_def)

lemma counted_once: "map bc_value (counts_at ''messages_sent:is_bot:hour'' 3600
    (installation_counts (final (do_fill_count_stat_at_hour hourly 3600) counted_db))) = [1]"
proof -
  have "cst_kind hourly \<noteq> Logging" by (simp add: hourly_simps)
  note run = do_fill_run(2)[OF this hourly_simps(7)]
  show ?thesis
    by (simp add: run fill_step_def hourly_simps insert_user_counts_def count_message_by_user_query_def counted_db_def empty_db_def
        aggregate_into_realms_def aggregate_into_installation_def realm_sums_def installation_sums_def group_count_def group_sum_def
        counts_at_def user_row_def realm_row_def demo_user_def demo_realm_def subgroup_def)
qed

theorem counted_exactly_once_witness:
  "\<exists>ds. process_count_stat hourly 7200 counted_db = (Inr (), ds) \<and>
    map bc_value (counts_at ''messages_sent:is_bot:hour'' 3600 (installation_counts (last (counted_db # ds)))) = [1]"
proof -
  have stat: "hourly \<in> set count_stats" "cst_kind hourly \<noteq> Logging" by (simp_all add: hourly_simps)
  have b: "floor_to_hour 7200 = 7200" by (simp add: floor_to_hour_def)
  obtain ds n where run: "process_count_stat hourly 7200 counted_db = (Inr (), ds)" "at_rest hourly counted_db 0 n (last (counted_db # ds))"
      "7200 < boundary hourly 0 (Suc n)"
    using process_fills[OF interrupted.unstarted stat counted_db_ok b] hourly_simps(2) by blast
  from counted_exactly_once[OF stat counted_db_ok interrupted.unstarted run(1)]
  obtain m where m: "fill_state_of (cst_property hourly) (last (counted_db # ds)) =
      Some \<lparr>fs_property = cst_property hourly, fs_end_time = 0 + of_nat m * time_increment (cst_frequency hourly), fs_state = DONE\<rparr>"
    and view: "\<And>t. counts_view (cst_property hourly) t (last (counted_db # ds)) =
      (if \<exists>j. 1 \<le> j \<and> j \<le> m \<and> t = 0 + of_nat j * time_increment (cst_frequency hourly)
       then counts_view (cst_property hourly) t (final (do_fill_count_stat_at_hour hourly t) counted_db) else no_counts)" by blast
  have "m = n" using m at_rest_view(1)[OF run(2)] by (simp add: hourly_simps)
  then have "1 \<le> m" using run(3) by (cases n) (simp_all add: boundary_def hourly_simps)
  then have "counts_view (cst_property hourly) 3600 (last (counted_db # ds)) =
      counts_view (cst_property hourly) 3600 (final (do_fill_count_stat_at_hour hourly 3600) counted_db)"
    using view[of 3600] by (auto simp: hourly_simps)
  then have "counts_at ''messages_sent:is_bot:hour'' 3600 (installation_counts (last (counted_db # ds))) =
      counts_at ''messages_sent:is_bot:hour'' 3600 (installation_counts (final (do_fill_count_stat_at_hour hourly 3600) counted_db))"
    by (simp add: counts_view_def hourly_simps)
  then show ?thesis using run(1) counted_once by simp
qed

theorem filling_completes_witness:
  "\<exists>ds t. process_count_stat hourly 7200 counted_db = (Inr (), ds) \<and>
    fill_state_of ''messages_sent:is_bot:hour'' (last (counted_db # ds)) =
      Some \<lparr>fs_property = ''messages_sent:is_bot:hour'', fs_end_time = t, fs_state = DONE\<rparr> \<and> 3600 < t"
proof -
  have "floor_to_hour 7200 = 7200" by (simp add: floor_to_hour_def)
  from filling_completes[OF hourly_simps(1,2) counted_db_ok interrupted.unstarted this]
  obtain ds n where run: "process_count_stat hourly 7200 counted_db = (Inr (), ds)"
    "fill_state_of (cst_property hourly) (last (counted_db # ds)) =
      Some \<lparr>fs_property = cst_property hourly, fs_end_time = 0 + of_nat n * time_increment (cst_frequency hourly), fs_state = DONE\<rparr>"
    "7200 < 0 + of_nat (Suc n) * time_increment (cst_frequency hourly)" by blast
  then show ?thesis by (intro exI[of _ ds] exI[of _ "of_nat n * 3600"]) (simp add: hourly_simps)
qed


theorem every_message_counted_witness:
  "sum_list (map bc_value (counts_at ''messages_sent:is_bot:hour'' 3600
     (installation_counts (final (do_fill_count_stat_at_hour hourly 3600) counted_db)))) = 1 \<and>
   counts_view ''messages_sent:is_bot:hour'' 3600 counted_db = no_counts"
proof -
  have stat: "cst_property hourly \<in> {''messages_sent:is_bot:hour'', ''messages_sent:client:day''}" by (simp add: hourly_simps)
  have dist: "distinct (map u_id (users counted_db))" "distinct (map rm_id (realms counted_db))"
    by (simp_all add: counted_db_def)
  have home: "\<forall>u \<in> set (users counted_db). u_realm u \<in> rm_id ` set (realms counted_db)"
    by (simp add: counted_db_def demo_user_def demo_realm_def)
  have clean: "counts_view (cst_property hourly) 3600 counted_db = no_counts"
    using counted_db_ok(1) by (simp add: never_run_def)
  have sent: "length (filter (\<lambda>m. 3600 - cst_interval hourly \<le> m_pub_date m \<and> m_pub_date m < 3600 \<and>
      (\<exists>u \<in> set (users counted_db). u_id u = m_sender m \<and> u_date_joined u < 3600)) (messages counted_db)) = 1"
    by (simp add: counted_db_def hourly_simps demo_user_def)
  show ?thesis using every_message_counted[OF hourly_simps(1) stat dist home clean] clean
    unfolding sent by (simp add: hourly_simps)
qed

end
