(* ===== verification/UserActions.thy ===== *)
theory UserActions
  imports Subscriptions Analytics
begin

text \<open>
  Accounts (\<open>zerver/lib/create_user.py\<close>, \<open>zerver/lib/sessions.py\<close> and the actions on users of
  \<open>zerver/lib/actions.py\<close>): creation of a user with all that follows from it, deactivation,
  activation, and the changes of an account. What comes from outside the code is a parameter: the
  random bytes, Django's hashing of passwords and normalisation of addresses. The
  event log, the statistics daemon and the caches are left out.
\<close>

record user_env =
  ue_send :: send_env
  NEW_USER_BOT :: "string option"
  NOTIFICATION_BOT_SET :: bool
  TOS_VERSION :: "string option"
  normalize_email :: "string \<Rightarrow> string"
  make_password :: "string option \<Rightarrow> string"
  urandom :: "int \<Rightarrow> nat list"

section \<open>API keys\<close>

definition ascii_letters :: string where
  "ascii_letters = ''abcdefghijklmnopqrstuvwxyzABCDEFGHIJKLMNOPQRSTUVWXYZ''"

definition digits :: string where
  "digits = ''0123456789''"

text \<open>\<open>base64.b64encode\<close> with the two characters that follow the letters and digits of its alphabet.\<close>

definition b64_alphabet :: "string \<Rightarrow> string" where
  "b64_alphabet altchars = drop 26 ascii_letters @ take 26 ascii_letters @ digits @ altchars"

fun b64encode :: "string \<Rightarrow> nat list \<Rightarrow> string" where
  "b64encode al (a # b # c # rest) =
     [al ! (a div 4), al ! ((a mod 4) * 16 + b div 16), al ! ((b mod 16) * 4 + c div 64), al ! (c mod 64)] @ b64encode al rest"
| "b64encode al [a, b] = [al ! (a div 4), al ! ((a mod 4) * 16 + b div 16), al ! ((b mod 16) * 4), CHR ''='']"
| "b64encode al [a] = [al ! (a div 4), al ! ((a mod 4) * 16), CHR ''='', CHR ''='']"
| "b64encode al [] = []"

text \<open>The bytes drawn: one for each alternative character, then the twenty-four of the key.\<close>

definition random_api_key :: "nat list \<Rightarrow> string" where
  "random_api_key bs =
     (let choices = ascii_letters @ digits;
          altchars = map (\<lambda>b. choices ! (b mod 62)) (take 2 bs)
      in b64encode (b64_alphabet altchars) (drop 2 bs))"

section \<open>Creating the row of a user\<close>

text \<open>The arguments of \<open>create_user\<close>.\<close>

record new_user =
  nu_email :: string
  nu_password :: "string option"
  nu_realm :: int
  nu_full_name :: string
  nu_short_name :: string
  nu_active :: bool
  nu_bot_type :: "int option"
  nu_bot_owner :: "int option"
  nu_tos_version :: "string option"
  nu_timezone :: string
  nu_avatar_source :: string
  nu_is_mirror_dummy :: bool
  nu_default_sending_stream :: "int option"
  nu_default_events_register_stream :: "int option"
  nu_default_all_public_streams :: "bool option"
  nu_user_profile_id :: "int option"

definition truthy_type :: "int option \<Rightarrow> bool" where
  "truthy_type bot_type \<longleftrightarrow> bot_type \<noteq> None \<and> bot_type \<noteq> Some 0"

text \<open>\<open>create_user_profile\<close>: the row, with the defaults of the model, and the password it is given.\<close>

definition create_user_profile ::
  "user_env \<Rightarrow> new_user \<Rightarrow> realm \<Rightarrow> string \<Rightarrow> rat \<Rightarrow> string \<Rightarrow> string \<Rightarrow> bool \<Rightarrow> user_profile \<times> string" where
  "create_user_profile E n r tutorial_status now api_key onboarding_steps enter_sends =
     (\<lparr>u_id = 0, u_email = normalize_email E (nu_email n), u_is_staff = False, u_is_active = nu_active n, u_is_realm_admin = False,
       u_is_bot = truthy_type (nu_bot_type n), u_bot_type = nu_bot_type n, u_is_api_super_user = False, u_date_joined = now,
       u_is_mirror_dummy = nu_is_mirror_dummy n, u_bot_owner = nu_bot_owner n, u_long_term_idle = False,
       u_full_name = nu_full_name n, u_short_name = nu_short_name n, u_pointer = -1, u_last_pointer_updater = [],
       u_realm = rm_id r, u_api_key = api_key, u_tos_version = nu_tos_version n, u_last_active_message_id = None,
       u_enable_stream_desktop_notifications = False, u_enable_stream_sounds = False,
       u_enable_desktop_notifications = True, u_pm_content_in_desktop_notifications = True,
       u_enable_sounds = True, u_enable_offline_email_notifications = True,
       u_enable_offline_push_notifications = True, u_enable_online_push_notifications = False,
       u_enable_digest_emails = True, u_default_desktop_notifications = True, u_last_reminder = Some now,
       u_rate_limits = [], u_default_sending_stream = None, u_default_events_register_stream = None,
       u_default_all_public_streams = False, u_enter_sends = Some enter_sends, u_autoscroll_forever = False,
       u_left_side_userlist = False, u_emoji_alt_code = False, u_twenty_four_hour_time = False,
       u_default_language = rm_default_language r, u_high_contrast_mode = False, u_avatar_source = ''G'',
       u_avatar_version = 1, u_tutorial_status = tutorial_status, u_onboarding_steps = onboarding_steps, u_alert_words = ''[]'',
       u_muted_topics = ''[]'', u_quota = 1024 * 1024 * 1024, u_timezone = nu_timezone n, u_emojiset = ''google''\<rparr>,
      make_password E (if truthy_type (nu_bot_type n) \<or> \<not> nu_active n then None else nu_password n))"

text \<open>The first \<open>save\<close> of a row: addresses are unique; a given id that exists overwrites its row.\<close>

definition save_new_user :: "user_profile \<Rightarrow> string \<Rightarrow> unit act" where
  "save_new_user u password =
     seq (lookup (\<lambda>d. db_exists (\<lambda>x. u_email x = u_email u \<and> u_id x \<noteq> u_id u) (users d))) (\<lambda>taken.
       if taken then raise (OtherError ''IntegrityError'')
       else modify_db (\<lambda>d. d\<lparr>
         users := (if db_exists (\<lambda>x. u_id x = u_id u) (users d) then map (\<lambda>x. if u_id x = u_id u then u else x) (users d)
                   else users d @ [u]),
         passwords := dset (u_id u) password (passwords d)\<rparr>))"

definition create_user :: "user_env \<Rightarrow> new_user \<Rightarrow> user_profile act" where
  "create_user E n =
     seq (query (the_realm (nu_realm n))) (\<lambda>r.
     seq timezone_now (\<lambda>now.
     seq fresh_id (\<lambda>draw.
     seq (case nu_user_profile_id n of None \<Rightarrow> fresh_id | Some i \<Rightarrow> ret i) (\<lambda>uid.
     case create_user_profile E n r ''W'' now (random_api_key (urandom E draw)) ''[]'' False of (u, password) \<Rightarrow>
     let u = u\<lparr>u_avatar_source := nu_avatar_source n, u_timezone := nu_timezone n,
               u_default_sending_stream := nu_default_sending_stream n,
               u_default_events_register_stream := nu_default_events_register_stream n,
               u_default_all_public_streams := (case nu_default_all_public_streams n of
                   None \<Rightarrow> u_default_all_public_streams u | Some b \<Rightarrow> b),
               u_id := uid\<rparr> in
     andthen (save_new_user u password)
     (seq fresh_id (\<lambda>recipient_id.
      andthen (modify_db (\<lambda>d. d\<lparr>recipients := recipients d @ [\<lparr>rc_id = recipient_id, rc_type_id = uid, rc_type = PERSONAL\<rparr>],
          subscriptions := subscriptions d @ [new_subscription uid recipient_id]\<rparr>))
        (ret u)))))))"

section \<open>Sessions and scheduled mail\<close>

definition delete_user_sessions :: "int \<Rightarrow> unit act" where
  "delete_user_sessions uid = modify_db (\<lambda>d. d\<lparr>user_sessions := filter (\<lambda>s. snd s \<noteq> Some uid) (user_sessions d)\<rparr>)"

text \<open>Sessions carry no date of expiry here: \<open>live\<close> tells which are not expired.\<close>

definition delete_realm_user_sessions :: "(string \<Rightarrow> bool) \<Rightarrow> int \<Rightarrow> unit act" where
  "delete_realm_user_sessions live realm_id =
     modify_db (\<lambda>d. let realm_user_ids = map u_id (filter (\<lambda>u. u_realm u = realm_id) (users d)) in
       d\<lparr>user_sessions := filter (\<lambda>s. \<not> (live (fst s) \<and> (case snd s of None \<Rightarrow> False | Some i \<Rightarrow> i \<in> set realm_user_ids)))
           (user_sessions d)\<rparr>)"

definition delete_all_user_sessions :: "unit act" where
  "delete_all_user_sessions = modify_db (\<lambda>d. d\<lparr>user_sessions := []\<rparr>)"

definition delete_session :: "string \<Rightarrow> unit act" where
  "delete_session key = modify_db (\<lambda>d. d\<lparr>user_sessions := filter (\<lambda>s. fst s \<noteq> key) (user_sessions d)\<rparr>)"

definition deactivated_session :: "string \<times> int option \<Rightarrow> unit act" where
  "deactivated_session s =
     (case snd s of
        None \<Rightarrow> ret ()
      | Some uid \<Rightarrow>
          seq (query (get_user_profile_by_id uid)) (\<lambda>u.
          if \<not> u_is_active u then andthen (log_line (''Deactivating session for deactivated user '' @ u_email u)) (delete_session (fst s))
          else seq (query (the_realm (u_realm u))) (\<lambda>r.
            if rm_deactivated r
            then andthen (log_line (''Deactivating session for deactivated user '' @ u_email u)) (delete_session (fst s))
            else ret ())))"

definition delete_all_deactivated_user_sessions :: "unit act" where
  "delete_all_deactivated_user_sessions = seq (lookup user_sessions) (for_each deactivated_session)"

definition clear_scheduled_emails :: "int \<Rightarrow> int option \<Rightarrow> unit act" where
  "clear_scheduled_emails uid email_type =
     modify_db (\<lambda>d. d\<lparr>scheduled_emails := filter (\<lambda>e. \<not> (fst e = Some uid \<and>
         (case email_type of None \<Rightarrow> True | Some t \<Rightarrow> snd e = t))) (scheduled_emails d)\<rparr>)"

section \<open>Notices about users\<close>

text \<open>A stream that a user profile names by its id.\<close>

definition stream_of :: "int option \<Rightarrow> db \<Rightarrow> pyerr + stream option" where
  "stream_of i d =
     (case i of None \<Rightarrow> Inr None | Some i \<Rightarrow> ebind (db_get ''Stream'' (\<lambda>s. st_id s = i) (streams d)) (\<lambda>s. Inr (Some s)))"

definition stream_private :: "stream option \<Rightarrow> bool" where
  "stream_private st = (case st of None \<Rightarrow> False | Some s \<Rightarrow> st_invite_only s = Some True)"

definition bot_owner_userids :: "user_profile \<Rightarrow> db \<Rightarrow> pyerr + pyval list" where
  "bot_owner_userids u d =
     ebind (stream_of (u_default_sending_stream u) d) (\<lambda>sending.
     ebind (stream_of (u_default_events_register_stream u) d) (\<lambda>events_register.
       if stream_private sending \<or> stream_private events_register then Inr [of_opt PInt (u_bot_owner u)]
       else ebind (the_realm (u_realm u) d) (\<lambda>r.
         Inr (set_add (of_opt PInt (u_bot_owner u)) (remdups (map (\<lambda>a. PInt (u_id a)) (get_admin_users r d)))))))"

definition notify_created_user :: "user_env \<Rightarrow> user_profile \<Rightarrow> unit act" where
  "notify_created_user E u =
     seq (lookup (active_user_ids (u_realm u))) (\<lambda>ids.
       send_event [(''type'', PStr ''realm_user''), (''op'', PStr ''add''),
         (''person'', PDict [(''email'', PStr (u_email u)), (''user_id'', PInt (u_id u)), (''is_admin'', PBool (u_is_realm_admin u)),
            (''full_name'', PStr (u_full_name u)), (''avatar_url'', PStr (avatar_url (se_render (ue_send E)) u False)),
            (''timezone'', PStr (u_timezone u)), (''is_bot'', PBool (u_is_bot u))])] (map PInt ids))"

definition opt_stream_name :: "stream option \<Rightarrow> pyval" where
  "opt_stream_name st = of_opt (\<lambda>s. PStr (st_name s)) st"

definition notify_created_bot :: "user_env \<Rightarrow> user_profile \<Rightarrow> unit act" where
  "notify_created_bot E u =
     seq (query (stream_of (u_default_sending_stream u))) (\<lambda>sending.
     seq (query (stream_of (u_default_events_register_stream u))) (\<lambda>events_register.
     seq (query (\<lambda>d. case u_bot_owner u of None \<Rightarrow> Inr []
            | Some o1 \<Rightarrow> ebind (get_user_profile_by_id o1 d) (\<lambda>x. Inr [(''owner'', PStr (u_email x))]))) (\<lambda>owner.
     let bot = [(''email'', PStr (u_email u)), (''user_id'', PInt (u_id u)), (''full_name'', PStr (u_full_name u)),
            (''bot_type'', of_opt PInt (u_bot_type u)), (''is_active'', PBool (u_is_active u)), (''api_key'', PStr (u_api_key u)),
            (''default_sending_stream'', opt_stream_name sending),
            (''default_events_register_stream'', opt_stream_name events_register),
            (''default_all_public_streams'', PBool (u_default_all_public_streams u)),
            (''avatar_url'', PStr (avatar_url (se_render (ue_send E)) u False))] @ owner in
     seq (query (bot_owner_userids u)) (\<lambda>ids.
       send_event [(''type'', PStr ''realm_bot''), (''op'', PStr ''add''), (''bot'', PDict bot)] ids))))"

section \<open>Signing up\<close>

definition realm_user_count :: "int \<Rightarrow> db \<Rightarrow> int" where
  "realm_user_count realm_id d = int (length (filter (\<lambda>u. u_realm u = realm_id \<and> u_is_active u \<and> \<not> u_is_bot u) (users d)))"

definition extract_recipients :: "(string \<Rightarrow> pyerr + pyval) \<Rightarrow> string \<Rightarrow> pyerr + string list" where
  "extract_recipients loads s =
     ebind (case loads s of Inl (ValueError _) \<Rightarrow> Inr (PStr s) | r \<Rightarrow> r) (\<lambda>data.
     ebind (case data of
        PStr t \<Rightarrow> Inr (map PStr (str_split (CHR '','') t))
      | PList vs \<Rightarrow> Inr vs
      | _ \<Rightarrow> Inl (ValueError ''Invalid data type for recipients'')) (\<lambda>recipients.
     ebind (emap (\<lambda>v. case v of PStr t \<Rightarrow> Inr (str_strip t) | _ \<Rightarrow> Inl (OtherError ''AttributeError'')) recipients) (\<lambda>recipients.
       Inr (remdups (filter (\<lambda>r. r \<noteq> []) recipients)))))"

text \<open>\<open>internal_send_message\<close> on the text that names the recipients; \<open>parsed_recipients[0]\<close> raises when there is none.\<close>

definition internal_send_message_to ::
  "user_env \<Rightarrow> int \<Rightarrow> string \<Rightarrow> string \<Rightarrow> string \<Rightarrow> string \<Rightarrow> string \<Rightarrow> unit act" where
  "internal_send_message_to E realm_id sender_email recipient_type_name addressees subject content =
     seq (query (get_system_bot sender_email)) (\<lambda>_.
     seq (query (\<lambda>_. extract_recipients (json_loads (se_render (ue_send E))) addressees)) (\<lambda>parsed_recipients.
       if recipient_type_name = ''stream'' \<and> parsed_recipients = [] then raise IndexError
       else internal_send_message (ue_send E) (Some realm_id) sender_email recipient_type_name parsed_recipients subject content))"

definition send_signup_message :: "user_env \<Rightarrow> string \<Rightarrow> string \<Rightarrow> user_profile \<Rightarrow> bool \<Rightarrow> unit act" where
  "send_signup_message E sender signups_stream u internal =
     (let internal_blurb = (if internal then '' **INTERNAL SIGNUP** '' else '' '') in
      seq (lookup (realm_user_count (u_realm u))) (\<lambda>user_count.
      seq (query (the_realm (u_realm u))) (\<lambda>r.
      seq (query (stream_of (rm_notifications_stream r))) (\<lambda>notifications_stream.
      andthen (case notifications_stream of
           Some st \<Rightarrow> if user_count > 1
             then internal_send_message_to E (u_realm u) sender ''stream'' (st_name st) ''New users''
                    (u_full_name u @ '' just signed up for Zulip. Say hello!'')
             else ret ()
         | None \<Rightarrow> ret ())
      (seq (query (get_system_bot sender)) (\<lambda>sender_bot.
       seq (query (\<lambda>d. get_or_none (get_stream signups_stream (u_realm sender_bot) d))) (\<lambda>found.
         if found = None then ret ()
         else internal_send_message_to E (u_realm sender_bot) sender ''stream'' signups_stream (rm_string_id r)
                (u_full_name u @ '' <`'' @ u_email u @ ''`> just signed up for Zulip!'' @ internal_blurb @
                 ''(total: **'' @ int_str user_count @ ''**)''))))))))"

definition notify_new_user :: "user_env \<Rightarrow> user_profile \<Rightarrow> bool \<Rightarrow> unit act" where
  "notify_new_user E u internal =
     (case NEW_USER_BOT E of None \<Rightarrow> ret () | Some sender \<Rightarrow> send_signup_message E sender ''signups'' u internal)"

definition history_candidates :: "stream list \<Rightarrow> rat \<Rightarrow> db \<Rightarrow> int list" where
  "history_candidates sts now d =
     (let one_week_ago = now - 604800;
          public_ids = map st_id (filter (\<lambda>st. st_invite_only st \<noteq> Some True) sts);
          rids = map rc_id (filter (\<lambda>r. rc_type r = STREAM \<and> rc_type_id r \<in> set public_ids) (recipients d));
          recent = filter (\<lambda>m. m_recipient m \<in> set rids \<and> m_pub_date m > one_week_ago) (messages d)
      in rev (take 1000 (map m_id (sort_key (\<lambda>m. - m_id m) recent))))"

definition add_new_user_history :: "user_profile \<Rightarrow> stream list \<Rightarrow> unit act" where
  "add_new_user_history u sts =
     seq timezone_now (\<lambda>now.
     seq (lookup (history_candidates sts now)) (\<lambda>message_ids_to_use.
     if message_ids_to_use = [] then ret ()
     else modify_db (\<lambda>d.
       let already_ids = map um_message (filter (\<lambda>x. um_message x \<in> set message_ids_to_use \<and> um_user_profile x = u_id u) (user_messages d))
       in d\<lparr>user_messages := user_messages d @
            map (\<lambda>i. \<lparr>um_user_profile = u_id u, um_message = i, um_flags = 1\<rparr>)
              (filter (\<lambda>i. i \<notin> set already_ids) message_ids_to_use)\<rparr>)))"

text \<open>\<open>datetime.isoformat\<close> of a time in UTC without its microseconds.\<close>

definition civil_from_days :: "int \<Rightarrow> int \<times> int \<times> int" where
  "civil_from_days days =
     (let z = days + 719468; era = z div 146097; doe = z mod 146097;
          yoe = (doe - doe div 1460 + doe div 36524 - doe div 146096) div 365;
          doy = doe - (365 * yoe + yoe div 4 - yoe div 100);
          mp = (5 * doy + 2) div 153;
          month = (if mp < 10 then mp + 3 else mp - 9)
      in (yoe + era * 400 + (if month \<le> 2 then 1 else 0), month, doy - (153 * mp + 2) div 5 + 1))"

definition pad :: "nat \<Rightarrow> int \<Rightarrow> string" where
  "pad n i = (let s = int_str i in replicate (n - length s) (CHR ''0'') @ s)"

definition isoformat :: "rat \<Rightarrow> string" where
  "isoformat t =
     (let secs = \<lfloor>t\<rfloor>; rest = secs mod 86400 in
      case civil_from_days (secs div 86400) of (y, month, day) \<Rightarrow>
        pad 4 y @ ''-'' @ pad 2 month @ ''-'' @ pad 2 day @ ''T'' @ pad 2 (rest div 3600) @ '':'' @
        pad 2 (rest mod 3600 div 60) @ '':'' @ pad 2 (rest mod 60) @ ''+00:00'')"

definition newsletter_job :: "user_profile \<Rightarrow> string \<Rightarrow> rat \<Rightarrow> pydict" where
  "newsletter_job u ip now =
     [(''email_address'', PStr (u_email u)), (''user_id'', PInt (u_id u)),
      (''merge_fields'', PDict [(''NAME'', PStr (u_full_name u)), (''REALM_ID'', PInt (u_realm u)), (''OPTIN_IP'', PStr ip),
         (''OPTIN_TIME'', PStr (isoformat now))])]"

definition retire_invitations :: "string \<Rightarrow> int option \<Rightarrow> unit act" where
  "retire_invitations email keep =
     modify_db (\<lambda>d. d\<lparr>prereg_users := map (\<lambda>p. if str_lower (pu_email p) = str_lower email \<and> Some (pu_id p) \<noteq> keep
         then p\<lparr>pu_status := 0\<rparr> else p) (prereg_users d)\<rparr>)"

text \<open>The streams of the invitation, or the default streams; the acting user is kept only with the former.\<close>

definition signup_streams :: "user_profile \<Rightarrow> prereg_user option \<Rightarrow> db \<Rightarrow> stream list \<times> int option" where
  "signup_streams u prereg d =
     (let invited = (case prereg of None \<Rightarrow> [] | Some p \<Rightarrow> filter (\<lambda>st. st_id st \<in> set (pu_streams p)) (streams d)) in
      if invited = [] then (get_default_subs u d, None)
      else (invited, case prereg of None \<Rightarrow> None | Some p \<Rightarrow> pu_referred_by p))"

definition thank_referrer :: "user_env \<Rightarrow> user_profile \<Rightarrow> prereg_user option \<Rightarrow> unit act" where
  "thank_referrer E u prereg =
     seq (query (the_realm (u_realm u))) (\<lambda>r.
     case (case prereg of None \<Rightarrow> None | Some p \<Rightarrow> pu_referred_by p) of
       Some referrer \<Rightarrow>
         if \<not> is_zephyr_mirror_realm r \<and> NOTIFICATION_BOT_SET E
         then seq (query (get_user_profile_by_id referrer)) (\<lambda>x.
                internal_send_message_to E (u_realm u) (NOTIFICATION_BOT (ue_send E)) ''private'' (u_email x) (rm_string_id r)
                  (u_full_name u @ '' <`'' @ u_email u @ ''`> accepted your invitation to join Zulip!''))
         else ret ()
     | None \<Rightarrow> ret ())"

definition process_new_human_user :: "user_env \<Rightarrow> user_profile \<Rightarrow> prereg_user option \<Rightarrow> string option \<Rightarrow> unit act" where
  "process_new_human_user E u prereg newsletter_ip =
     seq (lookup (signup_streams u prereg)) (\<lambda>(sts, acting_user).
     seq (bulk_add_subscriptions (ue_send E) sts [u] False acting_user) (\<lambda>_.
     andthen (add_new_user_history u sts)
     (andthen (thank_referrer E u prereg)
     (andthen (retire_invitations (u_email u) (map_option pu_id prereg))
     (andthen (notify_new_user E u False)
     (case newsletter_ip of
        None \<Rightarrow> ret ()
      | Some ip \<Rightarrow> seq timezone_now (\<lambda>now. queue_json_publish ''signups'' (newsletter_job u ip now))))))))"


section \<open>Accounts that come and go\<close>

text \<open>\<open>user_profile.save(update_fields=...)\<close>\<close>

definition save_user :: "int \<Rightarrow> (user_profile \<Rightarrow> user_profile) \<Rightarrow> unit act" where
  "save_user uid f = modify_db (\<lambda>d. d\<lparr>users := map (\<lambda>x. if u_id x = uid then f x else x) (users d)\<rparr>)"

definition account_event :: "user_profile \<Rightarrow> int option \<Rightarrow> string \<Rightarrow> rat \<Rightarrow> audit_log" where
  "account_event u acting_user event_type event_time =
     \<lparr>al_realm = u_realm u, al_acting_user = acting_user, al_modified_user = Some (u_id u), al_modified_stream = None,
      al_event_last_message_id = None, al_event_type = event_type, al_event_time = event_time\<rparr>"

definition log_account :: "user_profile \<Rightarrow> int option \<Rightarrow> string \<Rightarrow> rat \<Rightarrow> unit act" where
  "log_account u acting_user event_type event_time =
     modify_db (\<lambda>d. d\<lparr>audit_logs := audit_logs d @ [account_event u acting_user event_type event_time]\<rparr>)"

definition py_bool_str :: "bool \<Rightarrow> string" where
  "py_bool_str b = (if b then ''True'' else ''False'')"

definition active_users_log :: count_stat where
  "active_users_log = count_stats ! 5"

definition count_account :: "user_profile \<Rightarrow> rat \<Rightarrow> int \<Rightarrow> unit act" where
  "count_account u event_time increment = (\<lambda>s.
     case do_increment_logging_stat (LogRealm (u_realm u)) active_users_log (Some (py_bool_str (u_is_bot u))) event_time increment (sv_db s) of
       Inl e \<Rightarrow> (Inl e, s)
     | Inr d \<Rightarrow> (Inr (), s\<lparr>sv_db := d\<rparr>))"

definition do_create_user :: "user_env \<Rightarrow> new_user \<Rightarrow> prereg_user option \<Rightarrow> string option \<Rightarrow> user_profile act" where
  "do_create_user E n prereg newsletter_ip =
     seq (create_user E (n\<lparr>nu_is_mirror_dummy := False, nu_user_profile_id := None\<rparr>)) (\<lambda>u.
     let event_time = u_date_joined u in
     andthen (log_account u None ''user_created'' event_time)
     (andthen (count_account u event_time 1)
     (andthen (notify_created_user E u)
     (andthen (if truthy_type (nu_bot_type n) then notify_created_bot E u
               else process_new_human_user E u prereg newsletter_ip)
       (ret u)))))"

definition removed_person :: "user_profile \<Rightarrow> pydict" where
  "removed_person u = [(''email'', PStr (u_email u)), (''user_id'', PInt (u_id u)), (''full_name'', PStr (u_full_name u))]"

definition deactivate_one :: "user_profile \<Rightarrow> unit act" where
  "deactivate_one u =
     (if \<not> u_is_active u then ret ()
      else
        andthen (save_user (u_id u) (\<lambda>x. x\<lparr>u_is_active := False\<rparr>))
        (andthen (delete_user_sessions (u_id u))
        (andthen (clear_scheduled_emails (u_id u) None)
        (seq timezone_now (\<lambda>event_time.
         andthen (log_account u None ''user_deactivated'' event_time)
         (andthen (count_account u event_time (-1))
         (seq (lookup (active_user_ids (u_realm u))) (\<lambda>ids.
          andthen (send_event [(''type'', PStr ''realm_user''), (''op'', PStr ''remove''), (''person'', PDict (removed_person u))] (map PInt ids))
          (if u_is_bot u
           then seq (query (bot_owner_userids u)) (\<lambda>owner_ids.
             send_event [(''type'', PStr ''realm_bot''), (''op'', PStr ''remove''), (''bot'', PDict (removed_person u))] owner_ids)
           else ret ())))))))))"

text \<open>With \<open>_cascade\<close> the active bots of the user go with it; a user that is not active ends the action.\<close>

definition do_deactivate_user :: "user_profile \<Rightarrow> unit act" where
  "do_deactivate_user u =
     (if \<not> u_is_active u then ret ()
      else andthen (deactivate_one u)
        (seq (lookup (\<lambda>d. filter (\<lambda>x. u_is_bot x \<and> u_is_active x \<and> u_bot_owner x = Some (u_id u)) (users d)))
           (for_each deactivate_one)))"

definition do_activate_user :: "user_env \<Rightarrow> user_profile \<Rightarrow> unit act" where
  "do_activate_user E u =
     seq timezone_now (\<lambda>now.
     let activate = (\<lambda>x. x\<lparr>u_is_active := True, u_is_mirror_dummy := False, u_date_joined := now, u_tos_version := TOS_VERSION E\<rparr>);
         u = activate u in
     andthen (save_user (u_id u) activate)
     (andthen (modify_db (\<lambda>d. d\<lparr>passwords := dset (u_id u) (make_password E None) (passwords d)\<rparr>))
     (andthen (log_account u None ''user_activated'' now)
     (andthen (count_account u now 1)
       (notify_created_user E u)))))"

definition do_reactivate_user :: "user_env \<Rightarrow> user_profile \<Rightarrow> unit act" where
  "do_reactivate_user E u =
     (let u = u\<lparr>u_is_active := True\<rparr> in
      andthen (save_user (u_id u) (\<lambda>x. x\<lparr>u_is_active := True\<rparr>))
      (seq timezone_now (\<lambda>event_time.
       andthen (log_account u None ''user_reactivated'' event_time)
       (andthen (count_account u event_time 1)
       (andthen (notify_created_user E u)
         (if u_is_bot u then notify_created_bot E u else ret ()))))))"


section \<open>Changes of an account\<close>

text \<open>The event that tells the owner of a bot, or the administrators, of a change of it.\<close>

definition send_bot_update :: "user_profile \<Rightarrow> (string \<times> pyval) list \<Rightarrow> unit act" where
  "send_bot_update u changed =
     seq (query (bot_owner_userids u)) (\<lambda>ids.
       send_event [(''type'', PStr ''realm_bot''), (''op'', PStr ''update''),
         (''bot'', PDict ([(''email'', PStr (u_email u)), (''user_id'', PInt (u_id u))] @ changed))] ids)"

definition send_person_update :: "user_profile \<Rightarrow> pydict \<Rightarrow> unit act" where
  "send_person_update u person =
     seq (lookup (active_user_ids (u_realm u))) (\<lambda>ids.
       send_event [(''type'', PStr ''realm_user''), (''op'', PStr ''update''), (''person'', PDict person)] (map PInt ids))"

text \<open>Both branches of \<open>hashed_password\<close> call \<open>set_password\<close>, so it makes no difference.\<close>

definition do_change_password :: "user_env \<Rightarrow> user_profile \<Rightarrow> string option \<Rightarrow> bool \<Rightarrow> bool \<Rightarrow> unit act" where
  "do_change_password E u password do_commit hashed_password =
     (let hash = (if hashed_password then make_password E password else make_password E password) in
      andthen (if do_commit then modify_db (\<lambda>d. d\<lparr>passwords := dset (u_id u) hash (passwords d)\<rparr>) else ret ())
      (seq timezone_now (\<lambda>event_time. log_account u (Some (u_id u)) ''user_change_password'' event_time)))"

definition do_change_full_name :: "user_profile \<Rightarrow> string \<Rightarrow> user_profile \<Rightarrow> unit act" where
  "do_change_full_name u full_name acting_user =
     (let u = u\<lparr>u_full_name := full_name\<rparr> in
      andthen (save_user (u_id u) (\<lambda>x. x\<lparr>u_full_name := full_name\<rparr>))
      (seq timezone_now (\<lambda>event_time.
       andthen (log_account u (Some (u_id acting_user)) ''user_full_name_changed'' event_time)
       (andthen (send_person_update u [(''email'', PStr (u_email u)), (''user_id'', PInt (u_id u)), (''full_name'', PStr (u_full_name u))])
       (if u_is_bot u then send_bot_update u [(''full_name'', PStr (u_full_name u))] else ret ())))))"

text \<open>\<open>user_profile.save()\<close> writes the whole object.\<close>

definition do_change_bot_owner :: "user_profile \<Rightarrow> user_profile \<Rightarrow> user_profile \<Rightarrow> unit act" where
  "do_change_bot_owner u bot_owner acting_user =
     (let u = u\<lparr>u_bot_owner := Some (u_id bot_owner)\<rparr> in
      andthen (save_user (u_id u) (\<lambda>_. u))
      (seq timezone_now (\<lambda>event_time.
       andthen (log_account u (Some (u_id acting_user)) ''bot_owner_changed'' event_time)
       (send_bot_update u [(''owner_id'', PInt (u_id bot_owner))]))))"

definition do_change_tos_version :: "user_profile \<Rightarrow> string option \<Rightarrow> unit act" where
  "do_change_tos_version u tos_version =
     andthen (save_user (u_id u) (\<lambda>x. x\<lparr>u_tos_version := tos_version\<rparr>))
     (seq timezone_now (\<lambda>event_time. log_account u (Some (u_id u)) ''user_tos_version_changed'' event_time))"

definition do_regenerate_api_key :: "user_env \<Rightarrow> user_profile \<Rightarrow> user_profile \<Rightarrow> unit act" where
  "do_regenerate_api_key E u acting_user =
     seq fresh_id (\<lambda>draw.
     let api_key = random_api_key (urandom E draw) in
     andthen (save_user (u_id u) (\<lambda>x. x\<lparr>u_api_key := api_key\<rparr>))
     (seq timezone_now (\<lambda>event_time.
      andthen (log_account u (Some (u_id acting_user)) ''user_api_key_changed'' event_time)
      (if u_is_bot u then send_bot_update u [(''api_key'', PStr api_key)] else ret ()))))"

definition do_change_avatar_fields :: "user_env \<Rightarrow> user_profile \<Rightarrow> string \<Rightarrow> unit act" where
  "do_change_avatar_fields E u avatar_source =
     (let u = u\<lparr>u_avatar_source := avatar_source, u_avatar_version := u_avatar_version u + 1\<rparr>;
          url = avatar_url (se_render (ue_send E)) u False in
      andthen (save_user (u_id u) (\<lambda>x. x\<lparr>u_avatar_source := u_avatar_source u, u_avatar_version := u_avatar_version u\<rparr>))
      (seq timezone_now (\<lambda>event_time.
       andthen (log_account u None ''user_change_avatar_source'' event_time)
       (andthen (if u_is_bot u then send_bot_update u [(''avatar_url'', PStr url)] else ret ())
       (send_person_update u [(''email'', PStr (u_email u)), (''avatar_source'', PStr (u_avatar_source u)), (''avatar_url'', PStr url),
          (''avatar_url_medium'', PStr (avatar_url (se_render (ue_send E)) u True)), (''user_id'', PInt (u_id u))])))))"

definition default_stream_permission_check :: "user_profile \<Rightarrow> stream option \<Rightarrow> db \<Rightarrow> pyerr + unit" where
  "default_stream_permission_check u st d =
     (case st of
        None \<Rightarrow> Inr ()
      | Some s \<Rightarrow>
          let user = (if u_is_bot u then u_bot_owner u else Some (u_id u)) in
          if st_invite_only s = Some True \<and> (case user of None \<Rightarrow> True | Some i \<Rightarrow> \<not> subscribed_to_stream i s d)
          then Inl (JsonableError ''Insufficient permission'') else Inr ())"

definition do_change_default_sending_stream :: "user_profile \<Rightarrow> stream option \<Rightarrow> unit act" where
  "do_change_default_sending_stream u st =
     seq (query (default_stream_permission_check u st)) (\<lambda>_.
     let u = u\<lparr>u_default_sending_stream := map_option st_id st\<rparr> in
     andthen (save_user (u_id u) (\<lambda>x. x\<lparr>u_default_sending_stream := map_option st_id st\<rparr>))
     (if u_is_bot u then send_bot_update u [(''default_sending_stream'', opt_stream_name st)] else ret ()))"

definition do_change_default_events_register_stream :: "user_profile \<Rightarrow> stream option \<Rightarrow> unit act" where
  "do_change_default_events_register_stream u st =
     seq (query (default_stream_permission_check u st)) (\<lambda>_.
     let u = u\<lparr>u_default_events_register_stream := map_option st_id st\<rparr> in
     andthen (save_user (u_id u) (\<lambda>x. x\<lparr>u_default_events_register_stream := map_option st_id st\<rparr>))
     (if u_is_bot u then send_bot_update u [(''default_events_register_stream'', opt_stream_name st)] else ret ()))"

definition do_change_default_all_public_streams :: "user_profile \<Rightarrow> bool \<Rightarrow> unit act" where
  "do_change_default_all_public_streams u value1 =
     (let u = u\<lparr>u_default_all_public_streams := value1\<rparr> in
      andthen (save_user (u_id u) (\<lambda>x. x\<lparr>u_default_all_public_streams := value1\<rparr>))
      (if u_is_bot u then send_bot_update u [(''default_all_public_streams'', PBool value1)] else ret ()))"

definition do_change_is_admin :: "user_profile \<Rightarrow> bool \<Rightarrow> string \<Rightarrow> unit act" where
  "do_change_is_admin u value1 permission =
     (if permission = ''administer''
      then andthen (save_user (u_id u) (\<lambda>x. x\<lparr>u_is_realm_admin := value1\<rparr>))
        (send_person_update u [(''email'', PStr (u_email u)), (''user_id'', PInt (u_id u)), (''is_admin'', PBool value1)])
      else if permission = ''api_super_user'' then save_user (u_id u) (\<lambda>x. x\<lparr>u_is_api_super_user := value1\<rparr>)
      else raise (OtherError ''Unknown permission''))"

definition do_change_bot_type :: "user_profile \<Rightarrow> int \<Rightarrow> unit act" where
  "do_change_bot_type u value1 = save_user (u_id u) (\<lambda>x. x\<lparr>u_bot_type := Some value1\<rparr>)"


end
