(* ===== verification/Accounts.thy ===== *)
theory Accounts
  imports UserActions SubscriptionProps MessageEditProps AnalyticsProps
begin

text \<open>
  The life of accounts: a step relation over everything that creates, deactivates or activates
  users, with two invariants of the states it reaches. The logged statistic of active users adds up
  to the number of active users, and the audit log tells of every user whether it is active.
\<close>

section \<open>The part of the state that accounts are\<close>

definition core :: "user_profile \<Rightarrow> int \<times> int \<times> bool \<times> bool" where
  "core u = (u_id u, u_realm u, u_is_bot u, u_is_active u)"

definition log_rows :: "db \<Rightarrow> realm_count list" where
  "log_rows d = filter (\<lambda>c. bc_property c = ''active_users_log:is_bot:day'') (realm_counts d)"

definition activity_rows :: "db \<Rightarrow> audit_log list" where
  "activity_rows d = filter (\<lambda>l. al_event_type l \<in> set ACTIVITY_CHANGES) (audit_logs d)"

definition acct :: "db \<Rightarrow> (int \<times> int \<times> bool \<times> bool) list \<times> realm_count list \<times> audit_log list" where
  "acct d = (map core (users d), log_rows d, activity_rows d)"

abbreviation quiet :: "'a act \<Rightarrow> bool" where
  "quiet \<equiv> preserves (\<lambda>s. acct (sv_db s))"

lemma acct_simps [simp]:
  "acct (d\<lparr>messages := a1\<rparr>) = acct d" "acct (d\<lparr>user_messages := a2\<rparr>) = acct d" "acct (d\<lparr>streams := a3\<rparr>) = acct d"
  "acct (d\<lparr>recipients := a4\<rparr>) = acct d" "acct (d\<lparr>subscriptions := a5\<rparr>) = acct d" "acct (d\<lparr>attachments := a6\<rparr>) = acct d"
  "acct (d\<lparr>client_names := a7\<rparr>) = acct d" "acct (d\<lparr>huddle_hashes := a8\<rparr>) = acct d" "acct (d\<lparr>default_streams := a9\<rparr>) = acct d"
  "acct (d\<lparr>user_sessions := a10\<rparr>) = acct d" "acct (d\<lparr>scheduled_emails := a11\<rparr>) = acct d" "acct (d\<lparr>prereg_users := a12\<rparr>) = acct d"
  "acct (d\<lparr>passwords := a13\<rparr>) = acct d"
  by (simp_all add: acct_def log_rows_def activity_rows_def)

lemma quiet_touch:
  assumes "\<And>u. core (f u) = core u"
  shows "acct (d\<lparr>users := map (\<lambda>u. if p u then f u else u) (users d)\<rparr>) = acct d"
  using assms by (simp add: acct_def log_rows_def activity_rows_def comp_def if_distrib cong: if_cong)

lemma quiet_audit:
  assumes "\<And>l. l \<in> set ls \<Longrightarrow> al_event_type l \<notin> set ACTIVITY_CHANGES"
  shows "acct (d\<lparr>audit_logs := audit_logs d @ ls\<rparr>) = acct d"
proof -
  have "filter (\<lambda>l. al_event_type l \<in> set ACTIVITY_CHANGES) ls = []" using assms by (simp add: filter_empty_conv)
  then show ?thesis by (simp add: acct_def log_rows_def activity_rows_def)
qed

section \<open>Sending messages leaves accounts alone\<close>

lemma quiet_query_act [preserves_intros]: "quiet (\<lambda>s. (r s, s))"
  by (simp add: preserves_def)

lemma quiet_fresh [preserves_intros]: "quiet fresh_id" "quiet (queue_json_publish q ev)"
  by (simp_all add: preserves_def)

lemma quiet_to_dict [preserves_intros]: "quiet (message_to_dict E m b)"
  by (rule update_cache_keeps(1)) simp

lemma quiet_claim [preserves_intros]: "quiet (claim_message_attachments dl)"
  by (rule claim_message_keeps) simp

lemma quiet_do_send [preserves_intros]: "quiet (do_send_messages E ms)"
  unfolding do_send_messages_def store_messages_def create_message_def send_message_notices_def message_event_def
    publish_message_jobs_def Let_def
  by (intro preserves_intros) simp_all

lemma quiet_client [preserves_intros]: "quiet (get_or_create_client n)"
  unfolding get_or_create_client_def by (intro preserves_intros) simp_all

lemma quiet_create_stream [preserves_intros]: "quiet (create_stream_if_needed E r n i ds)"
proof -
  let ?new = "seq fresh_id (\<lambda>stream_id. seq fresh_id (\<lambda>recipient_id. seq timezone_now (\<lambda>now.
         let st = \<lparr>st_id = stream_id, st_name = n, st_realm = r, st_invite_only = Some i,
                   st_email_token = new_email_token E stream_id, st_description = ds,
                   st_date_created = now, st_deactivated = False\<rparr> in
         andthen (modify_db (\<lambda>d. d\<lparr>streams := streams d @ [st],
             recipients := recipients d @ [\<lparr>rc_id = recipient_id, rc_type_id = stream_id, rc_type = STREAM\<rparr>]\<rparr>))
         (andthen (if \<not> i
                   then seq (lookup (active_user_ids r)) (\<lambda>ids. send_event
                     [(''type'', PStr ''stream''), (''op'', PStr ''create''),
                      (''streams'', PList [PDict (stream_to_dict st)])] (map PInt ids))
                   else ret ())
           (ret (st, True))))))"
  have "quiet ?new" unfolding Let_def by (intro preserves_intros) simp_all
  then show ?thesis unfolding preserves_def create_stream_if_needed_def
    by (auto split: sum.splits pyerr.splits)
qed

lemma preserves_list [preserves_intros]:
  "preserves f m \<Longrightarrow> (\<And>x xs. preserves f (k x xs)) \<Longrightarrow> preserves f (case l of [] \<Rightarrow> m | x # xs \<Rightarrow> k x xs)"
  by (cases l) simp_all

lemma quiet_recipient [preserves_intros]: "quiet (recipient_for_emails E l nf fw sender)"
  unfolding recipient_for_emails_def recipient_profile_ids_def get_huddle_def Let_def
  by (intro preserves_intros) simp_all

lemma quiet_private [preserves_intros]: "quiet (check_private_message E sender c l f fw)"
  unfolding check_private_message_def Let_def
  by (intro preserves_intros) (auto split: pyerr.splits intro: preserves_intros)


lemma quiet_stream_message:
  assumes "\<And>u st n r. quiet (warn u st n r)"
  shows "quiet (check_stream_message warn E sender l subj r fw)"
  unfolding check_stream_message_def Let_def
  by (intro preserves_intros assms) (auto split: if_splits intro!: preserves_intros assms)

lemma quiet_check:
  assumes "\<And>u st n r. quiet (warn u st n r)"
  shows "quiet (check_message_gen warn E sender c ty l subj body r f ft fw li qi)"
  unfolding check_message_gen_def Let_def
  by (intro preserves_intros quiet_stream_message assms)

lemma quiet_internal_gen:
  assumes "\<And>u st n r. quiet (warn u st n r)"
  shows "quiet (internal_prep_message_gen warn E r sender ty l subj body)"
  unfolding internal_prep_message_gen_def Let_def
  by (intro preserves_intros quiet_check assms) (auto split: pyerr.splits intro!: preserves_intros)

lemma quiet_private_send [preserves_intros]: "quiet (internal_send_private_message E r sender email body)"
  unfolding internal_send_private_message_def internal_prep_private_message_def
  by (intro preserves_intros quiet_internal_gen) (simp add: no_warning_def preserves_intros)

lemma quiet_warning [preserves_intros]: "quiet (send_pm_if_empty_stream E u st n r)"
  unfolding send_pm_if_empty_stream_def Let_def
  by (intro preserves_intros) (auto split: bool.splits option.splits intro!: preserves_intros quiet_touch simp: core_def)

lemma quiet_internal_send [preserves_intros]: "quiet (internal_send_message E r sender ty l subj body)"
  unfolding internal_send_message_def internal_prep_message_def
  by (intro preserves_intros quiet_internal_gen)

section \<open>What follows from signing up leaves accounts alone\<close>

lemma quiet_send_to [preserves_intros]: "quiet (internal_send_message_to E r sender ty l subj body)"
  unfolding internal_send_message_to_def by (intro preserves_intros)

lemma quiet_notify_new [preserves_intros]: "quiet (notify_new_user E u internal)"
  unfolding notify_new_user_def send_signup_message_def Let_def by (intro preserves_intros)

lemma quiet_history [preserves_intros]: "quiet (add_new_user_history u sts)"
  unfolding add_new_user_history_def Let_def by (intro preserves_intros) simp_all

lemma quiet_thank [preserves_intros]: "quiet (thank_referrer E u p)"
  unfolding thank_referrer_def by (intro preserves_intros)

lemma quiet_bulk_add [preserves_intros]: "quiet (bulk_add_subscriptions E sts us b acting)"
  unfolding bulk_add_subscriptions_def store_subscriptions_def bulk_create_subscriptions_def log_subscriptions_def
    announce_occupied_def notify_added_def notify_subscriptions_added_def notify_peers_def Let_def set_active_def
  by (intro preserves_intros) (auto intro!: quiet_audit simp: audit_row_def ACTIVITY_CHANGES_def)

lemma quiet_new_human [preserves_intros]: "quiet (process_new_human_user E u p ip)"
  unfolding process_new_human_user_def retire_invitations_def by (intro preserves_intros) simp_all

lemma quiet_notices [preserves_intros]: "quiet (notify_created_user E u)" "quiet (notify_created_bot E u)"
  unfolding notify_created_user_def notify_created_bot_def Let_def by (intro preserves_intros)+

section \<open>The invariant\<close>

type_synonym account = "int \<times> int \<times> bool \<times> bool"

definition log_total :: "realm_count list \<Rightarrow> int \<Rightarrow> bool \<Rightarrow> int" where
  "log_total rows r b = sum_list (map bc_value (filter (\<lambda>c. bc_realm c = r \<and> bc_subgroup c = Some (py_bool_str b)) rows))"

definition active_total :: "account list \<Rightarrow> int \<Rightarrow> bool \<Rightarrow> int" where
  "active_total cs r b = int (length (filter (\<lambda>(i, r', b', a). r' = r \<and> b' = b \<and> a) cs))"

definition log_key :: "realm_count \<Rightarrow> string option \<times> rat \<times> int" where
  "log_key c = (bc_subgroup c, bc_end_time c, bc_realm c)"

text \<open>The latest of the entries about a user tells whether it is active.\<close>

definition latest_tells :: "audit_log list \<Rightarrow> account \<Rightarrow> bool" where
  "latest_tells ls c \<longleftrightarrow> (case c of (i, r, b, a) \<Rightarrow>
     \<exists>xs l ys. ls = xs @ l # ys \<and> al_modified_user l = Some i \<and> al_realm l = r \<and> (al_event_type l \<noteq> ''user_deactivated'') = a \<and>
       (\<forall>l' \<in> set xs \<union> set ys. al_modified_user l' = Some i \<longrightarrow> al_event_time l' < al_event_time l))"

definition accounts_ok :: "account list \<times> realm_count list \<times> audit_log list \<Rightarrow> bool" where
  "accounts_ok v \<longleftrightarrow> (case v of (cs, rows, ls) \<Rightarrow>
     distinct (map fst cs) \<and> distinct (map log_key rows) \<and> (\<forall>r b. log_total rows r b = active_total cs r b) \<and>
     (\<forall>c \<in> set cs. latest_tells ls c))"

definition counted :: "int \<Rightarrow> bool \<Rightarrow> int \<Rightarrow> realm_count list \<Rightarrow> realm_count list \<Rightarrow> bool" where
  "counted r b inc rows rows' \<longleftrightarrow> distinct (map log_key rows') \<and>
     (\<forall>r' b'. log_total rows' r' b' = log_total rows r' b' + (if r' = r \<and> b' = b then inc else 0))"

lemma py_bool_str_inject [simp]: "py_bool_str a = py_bool_str b \<longleftrightarrow> a = b"
  by (cases a; cases b) (simp_all add: py_bool_str_def)

lemma latest_tells_append:
  assumes "latest_tells ls (i, r, b, a)" and "al_modified_user e \<noteq> Some i"
  shows "latest_tells (ls @ [e]) (i, r, b, a)"
proof -
  obtain xs l ys where "ls = xs @ l # ys" "al_modified_user l = Some i" "al_realm l = r"
    "(al_event_type l \<noteq> ''user_deactivated'') = a"
    "\<forall>l' \<in> set xs \<union> set ys. al_modified_user l' = Some i \<longrightarrow> al_event_time l' < al_event_time l"
    using assms(1) by (auto simp: latest_tells_def)
  then show ?thesis using assms(2) unfolding latest_tells_def
    by (simp, intro exI[of _ xs] exI[of _ l] exI[of _ "ys @ [e]"]) auto
qed

lemma latest_tells_last:
  assumes "\<forall>l \<in> set ls. al_modified_user l = Some i \<longrightarrow> al_event_time l < al_event_time e"
    and "al_modified_user e = Some i" and "al_realm e = r" and "(al_event_type e \<noteq> ''user_deactivated'') = a"
  shows "latest_tells (ls @ [e]) (i, r, b, a)"
  unfolding latest_tells_def using assms by (simp, intro exI[of _ ls] exI[of _ e] exI[of _ "[]"]) auto

lemma accounts_ok_create:
  assumes "accounts_ok (cs, rows, ls)" and "i \<notin> fst ` set cs" and "counted r b 1 rows rows'"
    and "\<forall>l \<in> set ls. al_modified_user l = Some i \<longrightarrow> al_event_time l < al_event_time e"
    and "al_modified_user e = Some i" and "al_realm e = r" and "al_event_type e \<noteq> ''user_deactivated''"
  shows "accounts_ok (cs @ [(i, r, b, True)], rows', ls @ [e])"
proof -
  have "latest_tells (ls @ [e]) c" if "c \<in> set cs" for c
    using that assms(1,2,5) latest_tells_append[of ls "fst c" "fst (snd c)" "fst (snd (snd c))" "snd (snd (snd c))" e]
    by (force simp: accounts_ok_def)
  moreover have "latest_tells (ls @ [e]) (i, r, b, True)" using assms by (intro latest_tells_last) auto
  ultimately show ?thesis using assms(1,2,3)
    by (auto simp: accounts_ok_def counted_def active_total_def)
qed

lemma active_total_change:
  assumes "distinct (map fst cs)" and "(i, r, b, \<not> a) \<in> set cs"
  shows "active_total (map (\<lambda>c. if fst c = i then (i, r, b, a) else c) cs) r' b' =
    active_total cs r' b' + (if r' = r \<and> b' = b then (if a then 1 else -1) else 0)"
  using assms
proof (induction cs)
  case (Cons c cs)
  show ?case
  proof (cases "fst c = i")
    case True
    then have "i \<notin> fst ` set cs" using Cons.prems(1) by auto
    moreover from this have "map (\<lambda>c. if fst c = i then (i, r, b, a) else c) cs = cs" by (intro map_idI) force
    moreover have "c = (i, r, b, \<not> a)" using True Cons.prems calculation(1) by (auto simp: rev_image_eqI)
    ultimately show ?thesis by (cases a) (simp_all add: active_total_def)
  next
    case False
    then have "(i, r, b, \<not> a) \<in> set cs" "distinct (map fst cs)" using Cons.prems by auto
    then have IH: "active_total (map (\<lambda>c. if fst c = i then (i, r, b, a) else c) cs) r' b' =
        active_total cs r' b' + (if r' = r \<and> b' = b then (if a then 1 else -1) else 0)" by (intro Cons.IH)
    have split: "active_total (c # xs) r' b' = active_total [c] r' b' + active_total xs r' b'" for xs
      by (simp add: active_total_def)
    show ?thesis using IH False split[of cs] split[of "map (\<lambda>c. if fst c = i then (i, r, b, a) else c) cs"] by simp
  qed
qed simp

lemma accounts_ok_change:
  assumes "accounts_ok (cs, rows, ls)" and "(i, r, b, \<not> a) \<in> set cs" and "counted r b (if a then 1 else -1) rows rows'"
    and "\<forall>l \<in> set ls. al_modified_user l = Some i \<longrightarrow> al_event_time l < al_event_time e"
    and "al_modified_user e = Some i" and "al_realm e = r" and "(al_event_type e \<noteq> ''user_deactivated'') = a"
  shows "accounts_ok (map (\<lambda>c. if fst c = i then (i, r, b, a) else c) cs, rows', ls @ [e])"
proof -
  let ?f = "\<lambda>c. if fst c = i then (i, r, b, a) else c"
  have "map fst (map ?f cs) = map fst cs" by (induction cs) auto
  then have ids: "distinct (map fst (map ?f cs))" using assms(1) by (simp only: accounts_ok_def prod.case)
  have tells: "latest_tells (ls @ [e]) (?f c)" if "c \<in> set cs" for c
  proof (cases "fst c = i")
    case True
    then show ?thesis using assms by (simp add: latest_tells_last)
  next
    case False
    have "latest_tells ls c" using assms(1) that by (simp add: accounts_ok_def)
    then show ?thesis using False assms(5) latest_tells_append[of ls "fst c" "fst (snd c)" "fst (snd (snd c))" "snd (snd (snd c))" e]
      by simp
  qed
  have "log_total rows' r' b' = active_total (map ?f cs) r' b'" for r' b'
    using assms(1,3) active_total_change[OF _ assms(2)] by (simp add: accounts_ok_def counted_def)
  moreover have "\<forall>c \<in> set (map ?f cs). latest_tells (ls @ [e]) c" using tells unfolding list.set_map by blast
  ultimately show ?thesis using assms(3) ids unfolding accounts_ok_def counted_def prod.case by (intro conjI) blast+
qed

section \<open>The logged statistic\<close>

lemma increment_row_counted:
  fixes rows :: "realm_count list"
  assumes "distinct (map log_key rows)" and "p = (\<lambda>c. log_key c = (Some (py_bool_str b), t, r))"
    and "log_key new = (Some (py_bool_str b), t, r)" and "bc_value new = inc"
  shows "counted r b inc rows (if filter p rows = [] then rows @ [new]
      else map (\<lambda>c. if p c then c\<lparr>bc_value := bc_value c + inc\<rparr> else c) rows) \<and> length (filter p rows) \<le> 1"
proof (cases "filter p rows = []")
  case True
  then have "log_key new \<notin> log_key ` set rows" using assms(2,3) by (auto simp: filter_empty_conv)
  then show ?thesis using True assms by (auto simp: counted_def log_total_def log_key_def)
next
  case False
  let ?f = "\<lambda>c. if p c then c\<lparr>bc_value := bc_value c + inc\<rparr> else c"
  have keys: "map log_key (map ?f rows) = map log_key rows" for rows by (induction rows) (auto simp: log_key_def)
  have total: "distinct (map log_key rows) \<Longrightarrow> log_total (map ?f rows) r' b' = log_total rows r' b' +
      (if r' = r \<and> b' = b \<and> filter p rows \<noteq> [] then inc else 0) \<and> length (filter p rows) \<le> 1" for rows r' b'
  proof (induction rows)
    case (Cons c rows)
    have none: "filter p rows = []" "map ?f rows = rows" if "p c"
    proof -
      have "\<not> p x" if "x \<in> set rows" for x
        using that \<open>p c\<close> Cons.prems unfolding assms(2) by (metis distinct.simps(2) image_eqI list.set_map list.simps(9))
      then show "filter p rows = []" "map ?f rows = rows" by (simp_all add: filter_empty_conv map_idI)
    qed
    have split: "log_total (y # ys) r' b' = log_total [y] r' b' + log_total ys r' b'" for y ys by (simp add: log_total_def)
    show ?case
    proof (cases "p c")
      case True
      then have "log_total [?f c] r' b' = log_total [c] r' b' + (if r' = r \<and> b' = b then inc else 0)"
        by (auto simp: log_total_def assms(2) log_key_def)
      then show ?thesis using True none by (simp add: split[of _ rows])
    next
      case False
      then show ?thesis using Cons by (simp add: split[of _ rows] split[of _ "map ?f rows"])
    qed
  qed simp
  have "distinct (map log_key (map ?f rows))" using assms(1) unfolding keys .
  then show ?thesis using False assms(1) total[OF assms(1)] unfolding counted_def by simp
qed

lemma count_account_run:
  assumes "distinct (map log_key (log_rows (sv_db s)))"
  obtains rows where "count_account u t inc s = (Inr (), s\<lparr>sv_db := (sv_db s)\<lparr>realm_counts := rows\<rparr>\<rparr>)"
    and "counted (u_realm u) (u_is_bot u) inc (log_rows (sv_db s)) (log_rows ((sv_db s)\<lparr>realm_counts := rows\<rparr>))"
proof -
  let ?pr = "''active_users_log:is_bot:day''" and ?d = "sv_db s"
  let ?t = "event_end DAY t" and ?sg = "Some (py_bool_str (u_is_bot u))"
  let ?new = "realm_row ?pr ?t ((u_realm u, ?sg), inc)"
  let ?p = "\<lambda>c. counted_at ?pr ?sg ?t c \<and> bc_realm c = u_realm u"
  let ?q = "\<lambda>c. log_key c = (?sg, ?t, u_realm u)"
  let ?upd = "\<lambda>c. c\<lparr>bc_value := bc_value c + inc\<rparr>"
  have stat: "cst_property active_users_log = ?pr" "cst_frequency active_users_log = DAY"
    by (simp_all add: active_users_log_def count_stats_def)
  have pq: "?p c \<longleftrightarrow> bc_property c = ?pr \<and> ?q c" for c :: realm_count
    by (auto simp: counted_at_def log_key_def)
  have same: "filter ?p (realm_counts ?d) = filter ?q (log_rows ?d)" unfolding pq by (simp add: log_rows_def conj_commute)
  note inc = increment_row_counted[OF assms refl, of ?new "u_is_bot u" ?t "u_realm u" inc]
  have new: "log_key ?new = (?sg, ?t, u_realm u)" "bc_value ?new = inc" "bc_property ?new = ?pr"
    by (simp_all add: log_key_def realm_row_def)
  let ?rows = "if filter ?p (realm_counts ?d) = [] then realm_counts ?d @ [?new]
      else map (\<lambda>c. if ?p c then ?upd c else c) (realm_counts ?d)"
  have "increment_row ?p ?upd ?new (realm_counts ?d) = Inr ?rows"
    using inc[OF new(1,2)] unfolding increment_row_def same by (auto split: list.splits)
  then have run: "count_account u t inc s = (Inr (), s\<lparr>sv_db := ?d\<lparr>realm_counts := ?rows\<rparr>\<rparr>)"
    by (simp add: count_account_def do_increment_logging_stat_def stat Let_def)
  have logs: "log_rows (?d\<lparr>realm_counts := ?rows\<rparr>) = (if filter ?q (log_rows ?d) = [] then log_rows ?d @ [?new]
      else map (\<lambda>c. if ?q c then ?upd c else c) (log_rows ?d))"
  proof -
    have "filter (\<lambda>c. bc_property c = ?pr) (map (\<lambda>c. if ?p c then ?upd c else c) l) =
        map (\<lambda>c. if ?q c then ?upd c else c) (filter (\<lambda>c. bc_property c = ?pr) l)" for l :: "realm_count list"
      by (induction l) (auto simp: pq)
    then show ?thesis unfolding same by (simp add: log_rows_def new)
  qed
  show ?thesis by (rule that[OF run]) (use inc[OF new(1,2)] in \<open>simp add: logs\<close>)
qed

section \<open>Switching an account on and off\<close>

lemma quiet_now [preserves_intros]: "preserves sv_now (count_account u t inc)"
  by (auto simp: preserves_def count_account_def split: sum.splits)

definition older :: "db \<Rightarrow> int \<Rightarrow> rat \<Rightarrow> bool" where
  "older d i t \<longleftrightarrow> (\<forall>l \<in> set (activity_rows d). al_modified_user l = Some i \<longrightarrow> al_event_time l < t)"

text \<open>What writing the log and counting do, for an account that was switched or is new.\<close>

lemma log_and_count:
  assumes "distinct (map log_key (log_rows (sv_db s)))" and "ty \<in> set ACTIVITY_CHANGES"
  obtains s' rows' where "andthen (log_account u None ty t) (andthen (count_account u t inc) k) s = k s'"
    and "acct (sv_db s') = (map core (users (sv_db s)), rows', activity_rows (sv_db s) @ [account_event u None ty t])"
    and "counted (u_realm u) (u_is_bot u) inc (log_rows (sv_db s)) rows'" and "users (sv_db s') = users (sv_db s)"
    and "sv_now s' = sv_now s"
proof -
  let ?s1 = "s\<lparr>sv_db := (sv_db s)\<lparr>audit_logs := audit_logs (sv_db s) @ [account_event u None ty t]\<rparr>\<rparr>"
  have logged: "log_account u None ty t s = (Inr (), ?s1)" by (simp add: log_account_def)
  have "distinct (map log_key (log_rows (sv_db ?s1)))" using assms(1) by (simp add: log_rows_def)
  then obtain rows where run: "count_account u t inc ?s1 = (Inr (), ?s1\<lparr>sv_db := (sv_db ?s1)\<lparr>realm_counts := rows\<rparr>\<rparr>)"
    and counted: "counted (u_realm u) (u_is_bot u) inc (log_rows (sv_db ?s1)) (log_rows ((sv_db ?s1)\<lparr>realm_counts := rows\<rparr>))"
    by (rule count_account_run)
  have new: "al_event_type (account_event u None ty t) = ty" by (simp add: account_event_def)
  let ?s2 = "?s1\<lparr>sv_db := (sv_db ?s1)\<lparr>realm_counts := rows\<rparr>\<rparr>"
  show ?thesis
  proof (rule that[of ?s2 "log_rows (sv_db ?s2)"])
    show "andthen (log_account u None ty t) (andthen (count_account u t inc) k) s = k ?s2"
      unfolding andthen_def seq_def logged by (simp add: run)
    show "acct (sv_db ?s2) = (map core (users (sv_db s)), log_rows (sv_db ?s2), activity_rows (sv_db s) @ [account_event u None ty t])"
      using assms(2) by (simp add: acct_def activity_rows_def log_rows_def new)
    show "counted (u_realm u) (u_is_bot u) inc (log_rows (sv_db s)) (log_rows (sv_db ?s2))"
      using counted by (simp add: log_rows_def)
  qed simp_all
qed

lemma switched_cores:
  assumes "distinct (map fst (map core us))" and "(u_id u, u_realm u, u_is_bot u, b) \<in> set (map core us)"
    and "\<And>x. core (f x) = (u_id x, u_realm x, u_is_bot x, a)"
  shows "map core (map (\<lambda>x. if u_id x = u_id u then f x else x) us) =
    map (\<lambda>c. if fst c = u_id u then (u_id u, u_realm u, u_is_bot u, a) else c) (map core us)"
proof -
  have "u_realm x = u_realm u \<and> u_is_bot x = u_is_bot u" if "x \<in> set us" "u_id x = u_id u" for x
  proof -
    obtain y where y: "y \<in> set us" "core y = (u_id u, u_realm u, u_is_bot u, b)" using assms(2) by auto
    have "inj_on (fst \<circ> core) (set us)" using assms(1) by (simp add: distinct_map)
    moreover have "(fst \<circ> core) x = (fst \<circ> core) y" using that y by (simp add: core_def)
    ultimately have "x = y" using that(1) y(1) by (metis inj_on_eq_iff)
    then show ?thesis using y by (simp add: core_def)
  qed
  then show ?thesis unfolding map_map o_def by (intro map_cong refl) (auto simp: core_def assms(3)[unfolded core_def])
qed

lemma switch_ok:
  assumes "accounts_ok (acct (sv_db s))" and "(u_id u, u_realm u, u_is_bot u, \<not> a) \<in> set (map core (users (sv_db s)))"
    and "\<And>x. core (f x) = (u_id x, u_realm x, u_is_bot x, a)" and "older (sv_db s) (u_id u) t"
    and "ty \<in> set ACTIVITY_CHANGES" and "(ty \<noteq> ''user_deactivated'') = a"
    and "acct (sv_db s1) = acct ((sv_db s)\<lparr>users := map (\<lambda>x. if u_id x = u_id u then f x else x) (users (sv_db s))\<rparr>)"
    and "sv_now s1 = sv_now s"
  shows "\<exists>s'. andthen (log_account u None ty t) (andthen (count_account u t (if a then 1 else -1)) k) s1 = k s' \<and>
    accounts_ok (acct (sv_db s')) \<and> sv_now s' = sv_now s \<and>
    fst (acct (sv_db s')) = map (\<lambda>c. if fst c = u_id u then (u_id u, u_realm u, u_is_bot u, a) else c) (map core (users (sv_db s))) \<and>
    activity_rows (sv_db s') = activity_rows (sv_db s) @ [account_event u None ty t]"
proof -
  let ?d = "sv_db s" and ?i = "u_id u"
  let ?us = "map (\<lambda>x. if u_id x = ?i then f x else x) (users ?d)"
  have ok: "accounts_ok (map core (users ?d), log_rows ?d, activity_rows ?d)" using assms(1) by (simp add: acct_def)
  have s1: "map core (users (sv_db s1)) = map core ?us" "log_rows (sv_db s1) = log_rows ?d" "activity_rows (sv_db s1) = activity_rows ?d"
    using assms(7) by (simp_all add: acct_def log_rows_def activity_rows_def)
  have "distinct (map log_key (log_rows (sv_db s1)))" using ok s1 by (simp add: accounts_ok_def)
  then obtain s' rows' where run: "andthen (log_account u None ty t) (andthen (count_account u t (if a then 1 else -1)) k) s1 = k s'"
    and v: "acct (sv_db s') = (map core (users (sv_db s1)), rows', activity_rows (sv_db s1) @ [account_event u None ty t])"
    and cnt: "counted (u_realm u) (u_is_bot u) (if a then 1 else -1) (log_rows (sv_db s1)) rows'"
    and now: "sv_now s' = sv_now s1"
    using log_and_count[OF _ assms(5)] by metis
  have ids: "distinct (map fst (map core (users ?d)))" using ok by (simp add: accounts_ok_def)
  have cores: "map core ?us = map (\<lambda>c. if fst c = ?i then (?i, u_realm u, u_is_bot u, a) else c) (map core (users ?d))"
    by (rule switched_cores[OF ids assms(2,3)])
  have "accounts_ok (acct (sv_db s'))"
    unfolding v s1 cores
    by (rule accounts_ok_change[OF ok assms(2)]) (use cnt s1 assms(4,6) in \<open>auto simp: older_def account_event_def\<close>)
  moreover have "fst (acct (sv_db s')) = map (\<lambda>c. if fst c = ?i then (?i, u_realm u, u_is_bot u, a) else c) (map core (users ?d))"
    unfolding v s1(1) cores by (rule fst_conv)
  moreover have "activity_rows (sv_db s') = activity_rows ?d @ [account_event u None ty t]"
    using v s1 by (simp add: acct_def)
  ultimately show ?thesis using run now assms(8) by (intro exI[of _ s']) simp
qed

lemma quiet_snd: "quiet m \<Longrightarrow> m s = (r, s') \<Longrightarrow> acct (sv_db s') = acct (sv_db s)"
  by (metis preservesD)

lemma activated_type: "(''user_deactivated'' \<noteq> ''user_deactivated'') = False" "''user_deactivated'' \<in> set ACTIVITY_CHANGES"
  "''user_activated'' \<in> set ACTIVITY_CHANGES" "''user_reactivated'' \<in> set ACTIVITY_CHANGES" "''user_created'' \<in> set ACTIVITY_CHANGES"
  by (simp_all add: ACTIVITY_CHANGES_def)

lemma deactivate_one_ok:
  assumes "accounts_ok (acct (sv_db s))" and "core u \<in> set (map core (users (sv_db s)))" and "u_is_active u"
    and "older (sv_db s) (u_id u) (sv_now s)" and "deactivate_one u s = (r, s')"
  shows "accounts_ok (acct (sv_db s'))" and "sv_now s' = sv_now s"
    and "c \<in> set (map core (users (sv_db s))) \<Longrightarrow> fst c \<noteq> u_id u \<Longrightarrow> c \<in> set (map core (users (sv_db s')))"
    and "activity_rows (sv_db s') = activity_rows (sv_db s) @ [account_event u None ''user_deactivated'' (sv_now s)]"
proof -
  let ?f = "\<lambda>x :: user_profile. x\<lparr>u_is_active := False\<rparr>" and ?us = "users (sv_db s)"
  let ?s1 = "s\<lparr>sv_db := (sv_db s)\<lparr>users := map (\<lambda>x. if u_id x = u_id u then ?f x else x) ?us,
      user_sessions := filter (\<lambda>x. snd x \<noteq> Some (u_id u)) (user_sessions (sv_db s)),
      scheduled_emails := filter (\<lambda>e. \<not> fst e = Some (u_id u)) (scheduled_emails (sv_db s))\<rparr>\<rparr>"
  define k where "k = seq (lookup (active_user_ids (u_realm u))) (\<lambda>ids.
          andthen (send_event [(''type'', PStr ''realm_user''), (''op'', PStr ''remove''), (''person'', PDict (removed_person u))] (map PInt ids))
          (if u_is_bot u
           then seq (query (bot_owner_userids u)) (\<lambda>owner_ids.
             send_event [(''type'', PStr ''realm_bot''), (''op'', PStr ''remove''), (''bot'', PDict (removed_person u))] owner_ids)
           else ret ()))"
  have k: "quiet k" "preserves sv_now k" unfolding k_def by (intro preserves_intros sv_now_effects)+
  have run: "deactivate_one u s = andthen (log_account u None ''user_deactivated'' (sv_now s))
      (andthen (count_account u (sv_now s) (if False then 1 else -1)) k) ?s1"
    using assms(3) by (simp add: deactivate_one_def save_user_def delete_user_sessions_def clear_scheduled_emails_def k_def)
  have was: "(u_id u, u_realm u, u_is_bot u, \<not> False) \<in> set (map core ?us)" using assms(2,3) by (simp add: core_def)
  have new: "core (?f x) = (u_id x, u_realm x, u_is_bot x, False)" for x by (simp add: core_def)
  have saved: "acct (sv_db ?s1) = acct ((sv_db s)\<lparr>users := map (\<lambda>x. if u_id x = u_id u then ?f x else x) ?us\<rparr>)"
    by (simp add: acct_def log_rows_def activity_rows_def)
  have now1: "sv_now ?s1 = sv_now s" by simp
  obtain s2 where s2: "andthen (log_account u None ''user_deactivated'' (sv_now s))
      (andthen (count_account u (sv_now s) (if False then 1 else -1)) k) ?s1 = k s2"
    and ok: "accounts_ok (acct (sv_db s2))" "sv_now s2 = sv_now s"
    and cores: "fst (acct (sv_db s2)) = map (\<lambda>c. if fst c = u_id u then (u_id u, u_realm u, u_is_bot u, False) else c) (map core ?us)"
    and rows: "activity_rows (sv_db s2) = activity_rows (sv_db s) @ [account_event u None ''user_deactivated'' (sv_now s)]"
    using switch_ok[where k = k, OF assms(1) was new assms(4) activated_type(2,1) saved now1] by metis
  have "k s2 = (r, s')" using assms(5) run s2 by simp
  then have end1: "acct (sv_db s') = acct (sv_db s2)" "sv_now s' = sv_now s2"
    using quiet_snd[OF k(1)] preservesD[OF k(2)] by blast+
  then show "accounts_ok (acct (sv_db s'))" "sv_now s' = sv_now s" using ok by simp_all
  show "activity_rows (sv_db s') = activity_rows (sv_db s) @ [account_event u None ''user_deactivated'' (sv_now s)]"
    using end1 rows by (simp add: acct_def)
  show "c \<in> set (map core (users (sv_db s')))" if "c \<in> set (map core ?us)" "fst c \<noteq> u_id u"
  proof -
    let ?g = "\<lambda>c. if fst c = u_id u then (u_id u, u_realm u, u_is_bot u, False) else c"
    have after: "map core (users (sv_db s')) = map ?g (map core ?us)" using end1(1) cores by (simp add: acct_def)
    have "?g c \<in> set (map ?g (map core ?us))" unfolding list.set_map[of ?g] by (rule imageI[OF that(1)])
    moreover have "?g c = c" using that(2) by (rule if_not_P)
    ultimately show ?thesis unfolding after by (simp only:)
  qed
qed

lemma cascade_ok:
  assumes "accounts_ok (acct (sv_db s))" and "distinct (map u_id xs)" and "\<forall>x \<in> set xs. core x \<in> set (map core (users (sv_db s))) \<and> u_is_active x"
    and "\<forall>x \<in> set xs. older (sv_db s) (u_id x) (sv_now s)" and "for_each deactivate_one xs s = (r, s')"
  shows "accounts_ok (acct (sv_db s'))"
  using assms
proof (induction xs arbitrary: s)
  case (Cons x xs)
  obtain r1 s1 where step: "deactivate_one x s = (r1, s1)" by (cases "deactivate_one x s")
  have x: "core x \<in> set (map core (users (sv_db s)))" "u_is_active x" "older (sv_db s) (u_id x) (sv_now s)" using Cons.prems by simp_all
  note one = deactivate_one_ok[OF Cons.prems(1) x step]
  show ?case
  proof (cases r1)
    case (Inl e)
    then show ?thesis using Cons.prems(5) step one by (simp add: andthen_def seq_def)
  next
    case (Inr w)
    then have rest: "for_each deactivate_one xs s1 = (r, s')" using Cons.prems(5) step by (simp add: andthen_def seq_def)
    have "core y \<in> set (map core (users (sv_db s1))) \<and> u_is_active y" if "y \<in> set xs" for y
    proof -
      have "u_id y \<noteq> u_id x" using Cons.prems(2) that by (auto simp: rev_image_eqI)
      then have "fst (core y) \<noteq> u_id x" by (simp add: core_def)
      then show ?thesis using one(3)[of "core y"] Cons.prems(3) that by simp
    qed
    moreover have "older (sv_db s1) (u_id y) (sv_now s1)" if "y \<in> set xs" for y
    proof -
      have "u_id y \<noteq> u_id x" using Cons.prems(2) that by (auto simp: rev_image_eqI)
      then show ?thesis using Cons.prems(4) that one(2,4) by (auto simp: older_def account_event_def)
    qed
    ultimately show ?thesis using Cons.IH[OF one(1) _ _ _ rest] Cons.prems(2) by simp
  qed
qed simp

lemma deactivate_user_ok:
  assumes "accounts_ok (acct (sv_db s))" and "u \<in> set (users (sv_db s))" and "\<And>i. older (sv_db s) i (sv_now s)"
    and "do_deactivate_user u s = (r, s')"
  shows "accounts_ok (acct (sv_db s'))"
proof (cases "u_is_active u")
  case True
  obtain r1 s1 where step: "deactivate_one u s = (r1, s1)" by (cases "deactivate_one u s")
  have "core u \<in> set (map core (users (sv_db s)))" using assms(2) by simp
  note one = deactivate_one_ok[OF assms(1) this True assms(3) step]
  show ?thesis
  proof (cases r1)
    case (Inl e)
    then show ?thesis using assms(4) step one True by (simp add: do_deactivate_user_def andthen_def seq_def)
  next
    case (Inr w)
    let ?bots = "filter (\<lambda>x. u_is_bot x \<and> u_is_active x \<and> u_bot_owner x = Some (u_id u)) (users (sv_db s1))"
    have rest: "for_each deactivate_one ?bots s1 = (r, s')"
      using assms(4) step Inr True by (simp add: do_deactivate_user_def andthen_def seq_def)
    have ids: "map u_id us = map fst (map core us)" for us by (simp add: core_def)
    have dist: "distinct (map u_id (users (sv_db s1)))"
      using one(1) unfolding ids by (simp add: accounts_ok_def acct_def)
    have "u_id x \<noteq> u_id u" if bot: "x \<in> set ?bots" for x
    proof
      assume eq: "u_id x = u_id u"
      have row: "latest_tells (activity_rows (sv_db s1)) (core x)"
        using one(1) bot by (auto simp: accounts_ok_def acct_def)
      moreover have "\<not> latest_tells (activity_rows (sv_db s1)) (core x)"
      proof
        assume "latest_tells (activity_rows (sv_db s1)) (core x)"
        then obtain xs l ys where ls: "activity_rows (sv_db s) @ [account_event u None ''user_deactivated'' (sv_now s)] = xs @ l # ys"
          and l: "al_modified_user l = Some (u_id u)" "al_event_type l \<noteq> ''user_deactivated''"
          and last: "\<forall>l' \<in> set xs \<union> set ys. al_modified_user l' = Some (u_id u) \<longrightarrow> al_event_time l' < al_event_time l"
          using bot eq unfolding one(4) by (auto simp: latest_tells_def core_def)
        let ?e = "account_event u None ''user_deactivated'' (sv_now s)"
        have "?e \<in> set (xs @ l # ys)" unfolding ls[symmetric] by simp
        moreover have "?e \<noteq> l" using l(2) by (auto simp: account_event_def)
        moreover have "al_modified_user ?e = Some (u_id u)" "al_event_time ?e = sv_now s" by (simp_all add: account_event_def)
        ultimately have "sv_now s < al_event_time l" using last by auto
        moreover have "l \<in> set (activity_rows (sv_db s))"
        proof -
          have "l \<in> set (activity_rows (sv_db s) @ [?e])" unfolding ls by simp
          then show ?thesis using \<open>?e \<noteq> l\<close> by auto
        qed
        ultimately show False using assms(3)[of "u_id u"] l(1) by (force simp: older_def)
      qed
      ultimately show False by contradiction
    qed
    note other = this
    have "older (sv_db s1) (u_id x) (sv_now s1)" if "x \<in> set ?bots" for x
      using other[OF that] assms(3)[of "u_id x"] one(2,4) unfolding older_def by (auto simp: account_event_def)
    then have "\<forall>x \<in> set ?bots. older (sv_db s1) (u_id x) (sv_now s1)" by blast
    moreover have "\<forall>x \<in> set ?bots. core x \<in> set (map core (users (sv_db s1))) \<and> u_is_active x" by auto
    moreover have "distinct (map u_id ?bots)" using dist by (rule distinct_map_filter)
    ultimately show ?thesis using cascade_ok[OF one(1) _ _ _ rest] by blast
  qed
next
  case False
  then show ?thesis using assms by (simp add: do_deactivate_user_def)
qed

lemma activate_ok:
  assumes "accounts_ok (acct (sv_db s))" and "u \<in> set (users (sv_db s))" and "\<not> u_is_active u"
    and "older (sv_db s) (u_id u) (sv_now s)"
  shows "do_activate_user E u s = (r, s') \<Longrightarrow> accounts_ok (acct (sv_db s'))"
    and "do_reactivate_user E u s = (r, s') \<Longrightarrow> accounts_ok (acct (sv_db s'))"
proof -
  let ?us = "users (sv_db s)"
  have was: "(u_id u, u_realm u, u_is_bot u, \<not> True) \<in> set (map core ?us)" using assms(2,3) by (force simp: core_def)
  {
    let ?f = "\<lambda>x :: user_profile. x\<lparr>u_is_active := True, u_is_mirror_dummy := False, u_date_joined := sv_now s, u_tos_version := TOS_VERSION E\<rparr>"
    let ?s1 = "s\<lparr>sv_db := (sv_db s)\<lparr>users := map (\<lambda>x. if u_id x = u_id u then ?f x else x) ?us,
        passwords := dset (u_id u) (make_password E None) (passwords (sv_db s))\<rparr>\<rparr>"
    let ?k = "notify_created_user E (?f u)"
    have run: "do_activate_user E u s = andthen (log_account (?f u) None ''user_activated'' (sv_now s))
        (andthen (count_account (?f u) (sv_now s) (if True then 1 else -1)) ?k) ?s1"
      by (simp add: do_activate_user_def save_user_def Let_def)
    have was': "(u_id (?f u), u_realm (?f u), u_is_bot (?f u), \<not> True) \<in> set (map core ?us)" using was by simp
    have new: "core (?f x) = (u_id x, u_realm x, u_is_bot x, True)" for x by (simp add: core_def)
    have old: "older (sv_db s) (u_id (?f u)) (sv_now s)" using assms(4) by simp
    have ty: "(''user_activated'' \<noteq> ''user_deactivated'') = True" by simp
    have saved: "acct (sv_db ?s1) = acct ((sv_db s)\<lparr>users := map (\<lambda>x. if u_id x = u_id (?f u) then ?f x else x) ?us\<rparr>)"
      by (simp add: acct_def log_rows_def activity_rows_def)
    have now1: "sv_now ?s1 = sv_now s" by simp
    obtain s2 where s2: "do_activate_user E u s = ?k s2" "accounts_ok (acct (sv_db s2))"
      using switch_ok[where k = ?k, OF assms(1) was' new old activated_type(3) ty saved now1] unfolding run by metis
    show "accounts_ok (acct (sv_db s'))" if "do_activate_user E u s = (r, s')"
      using quiet_snd[OF quiet_notices(1), of E "?f u" s2 r s'] s2 that by simp
  }
  {
    let ?f = "\<lambda>x :: user_profile. x\<lparr>u_is_active := True\<rparr>"
    let ?s1 = "s\<lparr>sv_db := (sv_db s)\<lparr>users := map (\<lambda>x. if u_id x = u_id u then ?f x else x) ?us\<rparr>\<rparr>"
    let ?k = "andthen (notify_created_user E (?f u)) (if u_is_bot u then notify_created_bot E (?f u) else ret ())"
    have run: "do_reactivate_user E u s = andthen (log_account (?f u) None ''user_reactivated'' (sv_now s))
        (andthen (count_account (?f u) (sv_now s) (if True then 1 else -1)) ?k) ?s1"
      by (simp add: do_reactivate_user_def save_user_def Let_def)
    have was': "(u_id (?f u), u_realm (?f u), u_is_bot (?f u), \<not> True) \<in> set (map core ?us)" using was by simp
    have new: "core (?f x) = (u_id x, u_realm x, u_is_bot x, True)" for x by (simp add: core_def)
    have old: "older (sv_db s) (u_id (?f u)) (sv_now s)" using assms(4) by simp
    have ty: "(''user_reactivated'' \<noteq> ''user_deactivated'') = True" by simp
    have saved: "acct (sv_db ?s1) = acct ((sv_db s)\<lparr>users := map (\<lambda>x. if u_id x = u_id (?f u) then ?f x else x) ?us\<rparr>)"
      by simp
    have now1: "sv_now ?s1 = sv_now s" by simp
    obtain s2 where s2: "do_reactivate_user E u s = ?k s2" "accounts_ok (acct (sv_db s2))"
      using switch_ok[where k = ?k, OF assms(1) was' new old activated_type(4) ty saved now1] unfolding run by metis
    have "quiet ?k" by (intro preserves_intros)
    from quiet_snd[OF this, of s2 r s'] show "accounts_ok (acct (sv_db s'))" if "do_reactivate_user E u s = (r, s')"
      using s2 that by simp
  }
qed

lemma create_user_run:
  assumes "nu_user_profile_id n = None" and "\<forall>x \<in> set (users (sv_db s)). u_id x < sv_next_id s" and "create_user E n s = (r, s')"
  shows "(\<exists>e. r = Inl e \<and> acct (sv_db s') = acct (sv_db s)) \<or>
    (\<exists>u. r = Inr u \<and> users (sv_db s') = users (sv_db s) @ [u] \<and> u_id u \<notin> u_id ` set (users (sv_db s)) \<and> sv_now s' = sv_now s \<and>
       u_date_joined u = sv_now s \<and> u_is_active u = nu_active n \<and>
       log_rows (sv_db s') = log_rows (sv_db s) \<and> activity_rows (sv_db s') = activity_rows (sv_db s))"
proof (cases "the_realm (nu_realm n) (sv_db s)")
  case (Inl e)
  then show ?thesis using assms(3) by (auto simp: create_user_def)
next
  case (Inr rl)
  let ?uid = "sv_next_id s + 1" and ?d = "sv_db s"
  have fresh: "?uid \<notin> u_id ` set (users ?d)" using assms(2) by force
  define prof where "prof = create_user_profile E n rl ''W'' (sv_now s) (random_api_key (urandom E (sv_next_id s))) ''[]'' False"
  define u where "u = (fst prof)\<lparr>u_avatar_source := nu_avatar_source n, u_timezone := nu_timezone n,
      u_default_sending_stream := nu_default_sending_stream n, u_default_events_register_stream := nu_default_events_register_stream n,
      u_default_all_public_streams := (case nu_default_all_public_streams n of
          None \<Rightarrow> u_default_all_public_streams (fst prof) | Some b \<Rightarrow> b), u_id := ?uid\<rparr>"
  have u: "u_id u = ?uid" "u_date_joined u = sv_now s" "u_is_active u = nu_active n"
    by (simp_all add: u_def prof_def create_user_profile_def)
  let ?rest = "seq fresh_id (\<lambda>recipient_id.
      andthen (modify_db (\<lambda>d. d\<lparr>recipients := recipients d @ [\<lparr>rc_id = recipient_id, rc_type_id = ?uid, rc_type = PERSONAL\<rparr>],
          subscriptions := subscriptions d @ [new_subscription ?uid recipient_id]\<rparr>)) (ret u))"
  have "create_user E n s = andthen (save_new_user u (snd prof)) ?rest (s\<lparr>sv_next_id := sv_next_id s + 1 + 1\<rparr>)"
    using Inr assms(1) by (simp add: create_user_def prof_def[symmetric] u_def case_prod_beta Let_def cong: option.case_cong)
  moreover have "\<not> db_exists (\<lambda>x. u_id x = u_id u) (users ?d)" using fresh u(1) by (force simp: db_exists_def list_ex_iff)
  ultimately show ?thesis using assms(3) u fresh
    by (cases "db_exists (\<lambda>x. u_email x = u_email u \<and> u_id x \<noteq> u_id u) (users ?d)")
      (auto simp: save_new_user_def andthen_def seq_def log_rows_def activity_rows_def)
qed

lemma create_ok:
  assumes "accounts_ok (acct (sv_db s))" and "\<forall>x \<in> set (users (sv_db s)). u_id x < sv_next_id s" and "nu_active n"
    and "\<And>i. older (sv_db s) i (sv_now s)" and "do_create_user E n prereg ip s = (r, s')"
  shows "accounts_ok (acct (sv_db s'))"
proof -
  let ?n = "n\<lparr>nu_is_mirror_dummy := False, nu_user_profile_id := None\<rparr>"
  obtain r1 s1 where step: "create_user E ?n s = (r1, s1)" by (cases "create_user E ?n s")
  have none: "nu_user_profile_id ?n = None" by simp
  from create_user_run[OF none assms(2) step] show ?thesis
  proof (elim disjE exE conjE)
    fix e assume "r1 = Inl e" "acct (sv_db s1) = acct (sv_db s)"
    then show ?thesis using assms(1,5) step by (simp add: do_create_user_def)
  next
    fix u assume r1: "r1 = Inr u" and us: "users (sv_db s1) = users (sv_db s) @ [u]" and new: "u_id u \<notin> u_id ` set (users (sv_db s))"
      and now: "sv_now s1 = sv_now s" "u_date_joined u = sv_now s" and act: "u_is_active u = nu_active ?n"
      and rows: "log_rows (sv_db s1) = log_rows (sv_db s)" "activity_rows (sv_db s1) = activity_rows (sv_db s)"
    define k where "k = andthen (notify_created_user E u)
      (andthen (if truthy_type (nu_bot_type n) then notify_created_bot E u else process_new_human_user E u prereg ip) (ret u))"
    have k: "quiet k" unfolding k_def by (intro preserves_intros)
    have run: "do_create_user E n prereg ip s = andthen (log_account u None ''user_created'' (sv_now s)) (andthen (count_account u (sv_now s) 1) k) s1"
      using step r1 now by (simp add: do_create_user_def k_def Let_def)
    have ok: "accounts_ok (map core (users (sv_db s)), log_rows (sv_db s), activity_rows (sv_db s))" using assms(1) by (simp add: acct_def)
    then have "distinct (map log_key (log_rows (sv_db s1)))" by (simp add: accounts_ok_def rows)
    from log_and_count[where k = k, OF this activated_type(5), of u "sv_now s" 1] obtain s2 rows' where
      s2: "andthen (log_account u None ''user_created'' (sv_now s)) (andthen (count_account u (sv_now s) 1) k) s1 = k s2"
      and v: "acct (sv_db s2) = (map core (users (sv_db s1)), rows', activity_rows (sv_db s1) @ [account_event u None ''user_created'' (sv_now s)])"
      and cnt: "counted (u_realm u) (u_is_bot u) 1 (log_rows (sv_db s1)) rows'" by metis
    have fresh: "u_id u \<notin> fst ` set (map core (users (sv_db s)))" using new by (force simp: core_def)
    have "core u = (u_id u, u_realm u, u_is_bot u, True)" using act assms(3) by (simp add: core_def)
    then have "map core (users (sv_db s1)) = map core (users (sv_db s)) @ [(u_id u, u_realm u, u_is_bot u, True)]" by (simp add: us)
    then have "accounts_ok (acct (sv_db s2))" unfolding v
      using accounts_ok_create[OF ok fresh cnt[unfolded rows(1)], of "account_event u None ''user_created'' (sv_now s)"] assms(4)[of "u_id u"] rows(2)
      by (simp add: older_def account_event_def)
    moreover have "k s2 = (r, s')" using assms(5) run s2 by simp
    ultimately show ?thesis using quiet_snd[OF k] by simp
  qed
qed

section \<open>Every reachable state\<close>

text \<open>
  A step is one of the four actions on a row of the table, as the database knows it, ending well or with an
  exception, or anything else that leaves accounts alone. The ids that are given out are ahead of those in
  use, and time has passed since the last entry of the log, as \<open>check_realmauditlog_by_user_query\<close> asks for.
\<close>

definition ready :: "server \<Rightarrow> bool" where
  "ready s \<longleftrightarrow> (\<forall>x \<in> set (users (sv_db s)). u_id x < sv_next_id s) \<and> (\<forall>l \<in> set (audit_logs (sv_db s)). al_event_time l < sv_now s)"

inductive account_step :: "user_env \<Rightarrow> server \<Rightarrow> server \<Rightarrow> bool" for E where
  created: "ready s \<Longrightarrow> nu_active n \<Longrightarrow> do_create_user E n prereg ip s = (r, s') \<Longrightarrow> account_step E s s'"
| deactivated: "ready s \<Longrightarrow> u \<in> set (users (sv_db s)) \<Longrightarrow> do_deactivate_user u s = (r, s') \<Longrightarrow> account_step E s s'"
| activated: "ready s \<Longrightarrow> u \<in> set (users (sv_db s)) \<Longrightarrow> \<not> u_is_active u \<Longrightarrow> do_activate_user E u s = (r, s') \<Longrightarrow> account_step E s s'"
| reactivated: "ready s \<Longrightarrow> u \<in> set (users (sv_db s)) \<Longrightarrow> \<not> u_is_active u \<Longrightarrow> do_reactivate_user E u s = (r, s') \<Longrightarrow> account_step E s s'"
| elsewhere1: "acct (sv_db s') = acct (sv_db s) \<Longrightarrow> account_step E s s'"

inductive accounts_reachable :: "user_env \<Rightarrow> server \<Rightarrow> bool" for E where
  empty1: "users (sv_db s) = [] \<Longrightarrow> log_rows (sv_db s) = [] \<Longrightarrow> accounts_reachable E s"
| step1: "accounts_reachable E s \<Longrightarrow> account_step E s s' \<Longrightarrow> accounts_reachable E s'"

lemma ready_older: "ready s \<Longrightarrow> older (sv_db s) i (sv_now s)"
  by (simp add: ready_def older_def activity_rows_def)

lemma reachable_ok: "accounts_reachable E s \<Longrightarrow> accounts_ok (acct (sv_db s))"
proof (induction rule: accounts_reachable.induct)
  case (empty1 s)
  then show ?case by (simp add: accounts_ok_def acct_def log_total_def active_total_def)
next
  case (step1 s s')
  from step1.hyps(2) step1.IH show ?case
  proof cases
    case (created n prereg ip r)
    then show ?thesis using create_ok[OF step1.IH _ _ ready_older] by (auto simp: ready_def)
  next
    case (deactivated u r)
    then show ?thesis using deactivate_user_ok[OF step1.IH _ ready_older] by blast
  next
    case (activated u r)
    then show ?thesis using activate_ok(1)[OF step1.IH _ _ ready_older] by blast
  next
    case (reactivated u r)
    then show ?thesis using activate_ok(2)[OF step1.IH _ _ ready_older] by blast
  qed simp
qed

section \<open>What the analytics tell about accounts\<close>


lemma foldl_max_all: "foldl max (x :: rat) xs = Max (set (x # xs))"
proof -
  have "(\<lambda>x s. max s x) = (max :: rat \<Rightarrow> rat \<Rightarrow> rat)" by (intro ext) (rule max.commute)
  then show ?thesis by (simp only: foldl_conv_fold Max.set_eq_fold)
qed

lemma latest_of_split:
  assumes "activity_rows d = xs @ l # ys" and "al_modified_user l = Some i" and "al_event_time l < t"
    and "\<forall>l' \<in> set xs \<union> set ys. al_modified_user l' = Some i \<longrightarrow> al_event_time l' < al_event_time l"
  shows "latest_activity_change t (Some i) d = Some (al_event_time l)"
proof -
  define ts where "ts = map al_event_time (filter (\<lambda>l. al_event_type l \<in> set ACTIVITY_CHANGES \<and> al_event_time l < t \<and>
    al_modified_user l = Some i) (audit_logs d))"
  have "set ts = al_event_time ` {l' \<in> set (activity_rows d). al_event_time l' < t \<and> al_modified_user l' = Some i}"
    by (auto simp: ts_def activity_rows_def)
  then have "set ts = al_event_time ` {l' \<in> set (xs @ l # ys). al_event_time l' < t \<and> al_modified_user l' = Some i}"
    unfolding assms(1) .
  then have in1: "al_event_time l \<in> set ts" and max1: "\<forall>x \<in> set ts. x \<le> al_event_time l"
    using assms(2-4) by (auto intro: less_imp_le)
  then have "Max (set ts) = al_event_time l" by (intro Max_eqI) auto
  moreover have "ts \<noteq> []" using in1 by (metis empty_iff list.set(1))
  moreover from this have "foldl max (hd ts) (tl ts) = Max (set ts)" by (cases ts) (simp_all only: foldl_max_all list.sel)
  ultimately show ?thesis unfolding latest_activity_change_def Let_def ts_def[symmetric] by (simp only: if_False)
qed

definition counts_entry :: "rat \<Rightarrow> db \<Rightarrow> audit_log \<Rightarrow> bool" where
  "counts_entry t d l \<longleftrightarrow> al_event_type l \<in> set [''user_created'', ''user_activated'', ''user_reactivated''] \<and>
     latest_activity_change t (al_modified_user l) d = Some (al_event_time l)"

lemma own_entries:
  assumes "latest_tells (activity_rows d) (i, r, b, a)" and "\<forall>l \<in> set (audit_logs d). al_event_time l < t"
  shows "length (filter (\<lambda>l. counts_entry t d l \<and> al_modified_user l = Some i) (audit_logs d)) = (if a then 1 else 0)"
proof -
  obtain xs l ys where ls: "activity_rows d = xs @ l # ys" and l: "al_modified_user l = Some i"
    "(al_event_type l \<noteq> ''user_deactivated'') = a"
    and last: "\<forall>l' \<in> set xs \<union> set ys. al_modified_user l' = Some i \<longrightarrow> al_event_time l' < al_event_time l"
    using assms(1) by (auto simp: latest_tells_def)
  have mem: "l \<in> set (activity_rows d)" unfolding ls by simp
  then have "al_event_time l < t" using assms(2) by (simp add: activity_rows_def)
  then have latest: "latest_activity_change t (Some i) d = Some (al_event_time l)" using latest_of_split[OF ls l(1)] last by blast
  have "filter (\<lambda>l. counts_entry t d l \<and> al_modified_user l = Some i) (audit_logs d) =
      filter (\<lambda>l. counts_entry t d l \<and> al_modified_user l = Some i) (activity_rows d)"
    unfolding activity_rows_def filter_filter by (rule filter_cong) (auto simp: counts_entry_def ACTIVITY_CHANGES_def)
  also have "\<dots> = filter (\<lambda>l. counts_entry t d l \<and> al_modified_user l = Some i) [l]"
  proof -
    have "filter (\<lambda>l. counts_entry t d l \<and> al_modified_user l = Some i) zs = []" if "set zs \<subseteq> set xs \<union> set ys" for zs
      using that last latest by (auto simp: filter_empty_conv counts_entry_def)
    then show ?thesis unfolding ls by simp
  qed
  also have "counts_entry t d l \<longleftrightarrow> a"
    using l latest mem by (auto simp: counts_entry_def activity_rows_def ACTIVITY_CHANGES_def)
  then have "filter (\<lambda>l. counts_entry t d l \<and> al_modified_user l = Some i) [l] = (if a then [l] else [])" using l(1) by simp
  finally show ?thesis by simp
qed

lemma audit_query_count:
  assumes "distinct (map u_id (users d))"
  shows "count (mset (map uc_user (check_realmauditlog_by_user_query g prop start t d))) i =
    (if i \<in> u_id ` set (users d) then length (filter (\<lambda>l. counts_entry t d l \<and> al_modified_user l = Some i) (audit_logs d)) else 0)"
proof -
  let ?own = "\<lambda>l. [u_id u. u \<leftarrow> users d, al_modified_user l = Some (u_id u)]"
  have rows: "map uc_user (check_realmauditlog_by_user_query g prop start t d) = concat (map (\<lambda>l. if counts_entry t d l then ?own l else []) (audit_logs d))"
    unfolding check_realmauditlog_by_user_query_def counts_entry_def map_map map_concat
    by (intro arg_cong[where f = concat] map_cong refl) (auto simp: map_concat user_row_def comp_def if_distrib intro!: arg_cong[where f = concat] cong: if_cong)
  have "distinct (map u_id us) \<Longrightarrow> count (mset [u_id u. u \<leftarrow> us, al_modified_user l = Some (u_id u)]) i =
      (if al_modified_user l = Some i \<and> i \<in> u_id ` set us then 1 else 0)" for l and us :: "user_profile list"
    by (induction us) (auto simp: rev_image_eqI)
  from this[OF assms] have own: "count (mset (?own l)) i = (if al_modified_user l = Some i \<and> i \<in> u_id ` set (users d) then 1 else 0)" for l .
  have "count (mset (concat (map (\<lambda>l. if counts_entry t d l then ?own l else []) ls))) i =
      (if i \<in> u_id ` set (users d) then length (filter (\<lambda>l. counts_entry t d l \<and> al_modified_user l = Some i) ls) else 0)" for ls
  proof (induction ls)
    case (Cons l ls)
    have "count (mset (concat (map (\<lambda>l. if counts_entry t d l then ?own l else []) (l # ls)))) i =
        (if counts_entry t d l then count (mset (?own l)) i else 0) +
        count (mset (concat (map (\<lambda>l. if counts_entry t d l then ?own l else []) ls))) i" by (simp del: map_map)
    then show ?case unfolding own Cons.IH by simp
  qed simp
  then show ?thesis unfolding rows .
qed

text \<open>
  C21: \<open>check_realmauditlog_by_user_query\<close>, asked for a time after the last entry, finds from the audit log every user that is
  active once, and no other user.
\<close>

theorem audit_query_finds_active_users:
  assumes "accounts_reachable E s" and "\<forall>l \<in> set (audit_logs (sv_db s)). al_event_time l < end1"
  shows "mset (map uc_user (check_realmauditlog_by_user_query g prop start end1 (sv_db s))) =
    mset (map u_id (filter u_is_active (users (sv_db s))))"
proof (rule multiset_eqI)
  fix i
  let ?d = "sv_db s"
  have ok: "accounts_ok (acct ?d)" by (rule reachable_ok[OF assms(1)])
  have "map u_id (users ?d) = map fst (map core (users ?d))" by (simp add: core_def)
  then have ids: "distinct (map u_id (users ?d))" using ok by (simp only: accounts_ok_def acct_def prod.case)
  note entries = audit_query_count[OF ids]
  show "count (mset (map uc_user (check_realmauditlog_by_user_query g prop start end1 ?d))) i =
      count (mset (map u_id (filter u_is_active (users ?d)))) i"
  proof (cases "i \<in> u_id ` set (users ?d)")
    case True
    then obtain u where u: "u \<in> set (users ?d)" "i = u_id u" by auto
    have "latest_tells (activity_rows ?d) (core u)" using ok u(1) by (simp add: accounts_ok_def acct_def)
    then have "length (filter (\<lambda>l. counts_entry end1 ?d l \<and> al_modified_user l = Some i) (audit_logs ?d)) = (if u_is_active u then 1 else 0)"
      using own_entries[OF _ assms(2)] by (simp add: core_def u(2))
    moreover have "u_is_active u \<longleftrightarrow> i \<in> set (map u_id (filter u_is_active (users ?d)))"
      using u ids by (auto simp: distinct_map dest: inj_onD)
    moreover have "distinct (map u_id (filter u_is_active (users ?d)))" using ids by (rule distinct_map_filter)
    ultimately show ?thesis using True entries by (simp add: distinct_count_atmost_1)
  next
    case False
    then have "i \<notin> set (map u_id (filter u_is_active (users ?d)))" by auto
    then show ?thesis using entries False by (metis count_mset_0_iff)
  qed
qed

section \<open>A small run\<close>

definition signup_env :: user_env where
  "signup_env = \<lparr>ue_send = demo_env, NEW_USER_BOT = None, NOTIFICATION_BOT_SET = False, TOS_VERSION = None,
     normalize_email = (\<lambda>s. s), make_password = (\<lambda>p. ''!''), urandom = (\<lambda>n. replicate 26 0)\<rparr>"

definition new_bot :: new_user where
  "new_bot = \<lparr>nu_email = ''hook-bot@zulip.com'', nu_password = None, nu_realm = 4, nu_full_name = ''Hook'', nu_short_name = ''hook'',
     nu_active = True, nu_bot_type = Some 1, nu_bot_owner = None, nu_tos_version = None, nu_timezone = [], nu_avatar_source = ''G'',
     nu_is_mirror_dummy = False, nu_default_sending_stream = None, nu_default_events_register_stream = None,
     nu_default_all_public_streams = None, nu_user_profile_id = None\<rparr>"

definition empty_server :: server where
  "empty_server = \<lparr>sv_db = empty_db\<lparr>realms := [demo_realm]\<rparr>, sv_events = [], sv_jobs = [], sv_log = [], sv_next_id = 10, sv_now = 100\<rparr>"

lemma bot_created:
  "map core (users (sv_db (snd (do_create_user signup_env new_bot None None empty_server)))) = [(11, 4, True, True)] \<and>
   map al_event_time (audit_logs (sv_db (snd (do_create_user signup_env new_bot None None empty_server)))) = [100]"
  by (simp add: do_create_user_def create_user_def create_user_profile_def save_new_user_def signup_env_def new_bot_def empty_server_def
      empty_db_def the_realm_def db_get_def demo_realm_def Let_def truthy_type_def db_exists_def log_account_def count_account_def
      do_increment_logging_stat_def increment_row_def notify_created_user_def notify_created_bot_def stream_of_def
      bot_owner_userids_def stream_private_def account_event_def andthen_def seq_def core_def)

abbreviation bot_server :: server where
  "bot_server \<equiv> snd (do_create_user signup_env new_bot None None empty_server)"

lemma bot_reachable: "accounts_reachable signup_env bot_server"
proof (rule accounts_reachable.step1)
  show "accounts_reachable signup_env empty_server"
    by (rule accounts_reachable.empty1) (simp_all add: empty_server_def empty_db_def log_rows_def)
  have "ready empty_server" by (simp add: ready_def empty_server_def empty_db_def)
  then show "account_step signup_env empty_server bot_server"
    by (rule account_step.created[where n = new_bot and prereg = None and ip = None
          and r = "fst (do_create_user signup_env new_bot None None empty_server)"]) (simp_all add: new_bot_def)
qed

lemma bot_row: obtains u where "users (sv_db bot_server) = [u]" "u_id u = 11" "u_realm u = 4" "u_is_bot u" "u_is_active u"
  using bot_created by (auto simp: core_def)


theorem audit_query_finds_active_users_witness:
  "mset (map uc_user (check_realmauditlog_by_user_query ByIsBot ''active_users_audit:is_bot:day'' 0 200 (sv_db bot_server))) = {#11#}"
proof -
  obtain u where u: "users (sv_db bot_server) = [u]" "u_id u = 11" "u_realm u = 4" "u_is_bot u" "u_is_active u" by (rule bot_row)
  have "\<forall>l \<in> set (audit_logs (sv_db bot_server)). al_event_time l < 200" using bot_created by auto
  from audit_query_finds_active_users[OF bot_reachable this, of ByIsBot "''active_users_audit:is_bot:day''" 0]
  show ?thesis unfolding u(1) by (simp add: u)
qed

end
