(* ===== verification/UserProps.thy ===== *)
theory UserProps
  imports Accounts
begin

text \<open>
  What the actions on users promise beyond the accounts themselves: the shape of API keys, the end of
  all sessions of a deactivated user, and the history that a new user is given.
\<close>

section \<open>API keys\<close>

lemma b64_alphabet_nth: "length (b64_alphabet alt) = 62 + length alt"
  by (simp add: b64_alphabet_def ascii_letters_def digits_def)

lemma b64encode_shape:
  assumes "length al = 64" and "\<forall>b \<in> set bs. b < 256"
  shows "length bs = 3 * n \<Longrightarrow> length (b64encode al bs) = 4 * n \<and> set (b64encode al bs) \<subseteq> set al"
  using assms(2)
proof (induction n arbitrary: bs)
  case (Suc n)
  then obtain a b c rest where bs: "bs = a # b # c # rest" and rest: "length rest = 3 * n"
    by (cases bs; cases "tl bs"; cases "tl (tl bs)") auto
  have "a < 256" "b < 256" "c < 256" using Suc.prems(2) bs by auto
  then have "a div 4 < 64" "a mod 4 * 16 + b div 16 < 64" "b mod 16 * 4 + c div 64 < 64" "c mod 64 < 64" by auto
  then have "{al ! (a div 4), al ! (a mod 4 * 16 + b div 16), al ! (b mod 16 * 4 + c div 64), al ! (c mod 64)} \<subseteq> set al"
    using assms(1) by simp
  then show ?case using Suc.IH[OF rest] Suc.prems(2) by (simp add: bs)
qed simp

text \<open>
  C40: Whatever bytes the random generator gives, an API key has the 32 characters that its column holds
  (\<open>UserProfile.API_KEY_LENGTH\<close>), all of them letters and digits.
\<close>

theorem api_key_well_formed:
  assumes "length bs = 26" and "\<forall>b \<in> set bs. b < 256"
  shows "length (random_api_key bs) = 32 \<and> set (random_api_key bs) \<subseteq> set (ascii_letters @ digits)"
proof -
  let ?choices = "ascii_letters @ digits"
  let ?alt = "map (\<lambda>b. ?choices ! (b mod 62)) (take 2 bs)"
  have "length ?choices = 62" by (simp add: ascii_letters_def digits_def)
  then have alt: "set ?alt \<subseteq> set ?choices" by (auto simp del: set_append)
  have "set (b64_alphabet ?alt) \<subseteq> set ?choices"
    using alt by (auto simp: b64_alphabet_def dest: in_set_dropD in_set_takeD)
  moreover have "length (b64_alphabet ?alt) = 64" using assms(1) by (simp add: b64_alphabet_nth)
  from b64encode_shape[OF this, of "drop 2 bs" 8] assms
  have "length (b64encode (b64_alphabet ?alt) (drop 2 bs)) = 32 \<and>
      set (b64encode (b64_alphabet ?alt) (drop 2 bs)) \<subseteq> set (b64_alphabet ?alt)"
    by (auto dest: in_set_dropD)
  ultimately show ?thesis by (auto simp: random_api_key_def Let_def)
qed

theorem api_key_well_formed_witness: "length (random_api_key (replicate 26 255)) = 32"
  using api_key_well_formed[of "replicate 26 255"] by simp

section \<open>Deactivation\<close>

definition logged_out :: "int set \<Rightarrow> db \<Rightarrow> db \<Rightarrow> bool" where
  "logged_out gone d d' \<longleftrightarrow>
     users d' = map (\<lambda>x. if u_id x \<in> gone then x\<lparr>u_is_active := False\<rparr> else x) (users d) \<and>
     user_sessions d' = filter (\<lambda>x. \<forall>i \<in> gone. snd x \<noteq> Some i) (user_sessions d) \<and>
     scheduled_emails d' = filter (\<lambda>e. \<forall>i \<in> gone. fst e \<noteq> Some i) (scheduled_emails d)"

lemma logged_out_trans: "logged_out A d d1 \<Longrightarrow> logged_out B d1 d2 \<Longrightarrow> logged_out (A \<union> B) d d2"
  by (auto simp: logged_out_def filter_filter conj_ac intro!: filter_cong)

lemma logged_out_none: "logged_out {} d d"
  by (simp add: logged_out_def)

lemma count_account_others:
  assumes "count_account u t inc s = (r, s')"
  shows "users (sv_db s') = users (sv_db s) \<and> user_sessions (sv_db s') = user_sessions (sv_db s) \<and>
    scheduled_emails (sv_db s') = scheduled_emails (sv_db s)"
  using assms
  by (auto simp: count_account_def do_increment_logging_stat_def Let_def ebind_def split: sum.splits)

lemma deactivate_one_logs_out:
  assumes "deactivate_one u s = (Inr (), s')" and "u_is_active u"
  shows "logged_out {u_id u} (sv_db s) (sv_db s')"
  using assms
  by (auto simp: deactivate_one_def andthen_Inr seq_Inr save_user_def delete_user_sessions_def clear_scheduled_emails_def
      log_account_def logged_out_def split: if_splits dest!: count_account_others)

lemma deactivate_all_logs_out:
  assumes "for_each deactivate_one xs s = (Inr (), s')" and "\<forall>x \<in> set xs. u_is_active x"
  shows "logged_out (u_id ` set xs) (sv_db s) (sv_db s')"
  using assms
proof (induction xs arbitrary: s)
  case (Cons x xs)
  then obtain s1 where "deactivate_one x s = (Inr (), s1)" "for_each deactivate_one xs s1 = (Inr (), s')" by (auto simp: andthen_Inr)
  then have "logged_out ({u_id x} \<union> u_id ` set xs) (sv_db s) (sv_db s')"
    using Cons deactivate_one_logs_out logged_out_trans by (metis list.set_intros)
  then show ?case by simp
qed (simp add: logged_out_none)

text \<open>
  deactivating an active user, when it succeeds, deactivates the user and the active bots it owns and nobody else,
  ends all sessions of these and only these, and drops the mail that is scheduled for them.
\<close>

theorem deactivation_logs_out:
  assumes "do_deactivate_user u s = (Inr (), s')" and "u_is_active u" and "u \<in> set (users (sv_db s))"
    and "distinct (map u_id (users (sv_db s)))"
  shows "logged_out ({u_id u} \<union> u_id ` {x \<in> set (users (sv_db s)). u_is_bot x \<and> u_is_active x \<and> u_bot_owner x = Some (u_id u)})
    (sv_db s) (sv_db s')"
proof -
  obtain s1 where one: "deactivate_one u s = (Inr (), s1)"
    and rest: "for_each deactivate_one (filter (\<lambda>x. u_is_bot x \<and> u_is_active x \<and> u_bot_owner x = Some (u_id u)) (users (sv_db s1))) s1 = (Inr (), s')"
    using assms(1,2) by (auto simp: do_deactivate_user_def andthen_Inr seq_Inr)
  have step1: "logged_out {u_id u} (sv_db s) (sv_db s1)" by (rule deactivate_one_logs_out[OF one assms(2)])
  let ?bots = "{x \<in> set (users (sv_db s)). u_is_bot x \<and> u_is_active x \<and> u_bot_owner x = Some (u_id u)}"
  let ?left = "{x \<in> set (users (sv_db s1)). u_is_bot x \<and> u_is_active x \<and> u_bot_owner x = Some (u_id u)}"
  have us: "users (sv_db s1) = map (\<lambda>x. if u_id x = u_id u then x\<lparr>u_is_active := False\<rparr> else x) (users (sv_db s))"
    using step1 by (simp add: logged_out_def)
  have "?left = {x \<in> ?bots. u_id x \<noteq> u_id u}" unfolding us by (auto split: if_splits)
  then have both: "{u_id u} \<union> u_id ` ?left = {u_id u} \<union> u_id ` ?bots" by auto
  have "logged_out (u_id ` ?left) (sv_db s1) (sv_db s')"
    using deactivate_all_logs_out[OF rest] by simp
  from logged_out_trans[OF step1 this] show ?thesis unfolding both .
qed

lemma demo_user_simps:
  "u_id (demo_user i r e) = i" "u_realm (demo_user i r e) = r" "u_email (demo_user i r e) = e" "u_is_active (demo_user i r e)"
  "\<not> u_is_bot (demo_user i r e)" "\<not> u_is_realm_admin (demo_user i r e)" "u_bot_owner (demo_user i r e) = None"
  "u_default_sending_stream (demo_user i r e) = None" "u_default_events_register_stream (demo_user i r e) = None"
  by (simp_all add: demo_user_def)

definition sessions_server :: server where
  "sessions_server = empty_server\<lparr>sv_db := empty_db\<lparr>realms := [demo_realm],
     users := [demo_user 9 4 ''ann@zulip.com'', (demo_user 12 4 ''b-bot@zulip.com'')\<lparr>u_is_bot := True, u_bot_owner := Some 9\<rparr>,
       demo_user 8 4 ''bob@zulip.com''],
     user_sessions := [(''a'', Some 9), (''b'', None), (''c'', Some 12), (''d'', Some 8)], scheduled_emails := [(Some 9, 1), (Some 8, 1)]\<rparr>\<rparr>"

lemma sessions_run: "fst (do_deactivate_user (demo_user 9 4 ''ann@zulip.com'') sessions_server) = Inr ()"
  by (simp add: do_deactivate_user_def deactivate_one_def sessions_server_def empty_server_def empty_db_def save_user_def demo_user_simps
      delete_user_sessions_def clear_scheduled_emails_def log_account_def count_account_def do_increment_logging_stat_def
      increment_row_def stream_of_def bot_owner_userids_def stream_private_def the_realm_def db_get_def demo_realm_def
      andthen_def seq_def Let_def active_users_log_def count_stats_def counted_at_def realm_row_def py_bool_str_def)

theorem deactivation_logs_out_witness:
  "user_sessions (sv_db (snd (do_deactivate_user (demo_user 9 4 ''ann@zulip.com'') sessions_server))) = [(''b'', None), (''d'', Some 8)] \<and>
   map u_is_active (users (sv_db (snd (do_deactivate_user (demo_user 9 4 ''ann@zulip.com'') sessions_server)))) = [False, False, True]"
proof -
  let ?u = "demo_user 9 4 ''ann@zulip.com''" and ?d = "sv_db sessions_server"
  let ?s' = "snd (do_deactivate_user ?u sessions_server)"
  have run: "do_deactivate_user ?u sessions_server = (Inr (), ?s')" using sessions_run by (metis prod.collapse)
  have hyps: "u_is_active ?u" "?u \<in> set (users ?d)" "distinct (map u_id (users ?d))"
    by (simp_all add: sessions_server_def demo_user_simps)
  have gone: "{u_id ?u} \<union> u_id ` {x \<in> set (users ?d). u_is_bot x \<and> u_is_active x \<and> u_bot_owner x = Some (u_id ?u)} = {9, 12}"
    unfolding sessions_server_def by (force simp: demo_user_simps image_iff)
  show ?thesis using deactivation_logs_out[OF run hyps] unfolding gone
    by (simp add: logged_out_def sessions_server_def empty_server_def demo_user_simps)
qed

section \<open>The history of a new user\<close>

lemma take_sorted_newest:
  assumes "sorted (map f xs)" and "x \<in> set xs" and "x \<notin> set (take n xs)" and "y \<in> set (take n xs)"
  shows "f y \<le> f x"
proof -
  have "x \<in> set (drop n xs)" using assms(2,3) by (metis Un_iff append_take_drop_id set_append)
  moreover have "sorted (map f (take n xs) @ map f (drop n xs))" using assms(1) by (metis append_take_drop_id map_append)
  ultimately show ?thesis using assms(4) by (auto simp: sorted_append)
qed

definition recent_public :: "stream list \<Rightarrow> rat \<Rightarrow> db \<Rightarrow> message \<Rightarrow> bool" where
  "recent_public sts now d m \<longleftrightarrow> now - 604800 < m_pub_date m \<and>
     (\<exists>st \<in> set sts. st_invite_only st \<noteq> Some True \<and>
       (\<exists>r \<in> set (recipients d). rc_type r = STREAM \<and> rc_type_id r = st_id st \<and> rc_id r = m_recipient m))"

lemma history_candidates_sound:
  assumes "distinct (map m_id (messages d))"
  shows "set (history_candidates sts now d) \<subseteq> m_id ` {m \<in> set (messages d). recent_public sts now d m}"
    and "distinct (history_candidates sts now d)" and "length (history_candidates sts now d) \<le> 1000"
    and "m \<in> set (messages d) \<Longrightarrow> recent_public sts now d m \<Longrightarrow> m_id m \<notin> set (history_candidates sts now d) \<Longrightarrow>
      length (history_candidates sts now d) = 1000 \<and> (\<forall>i \<in> set (history_candidates sts now d). m_id m \<le> i)"
proof -
  let ?P = "recent_public sts now d"
  define sorted1 where "sorted1 = sort_key (\<lambda>m. - m_id m) (filter ?P (messages d))"
  have cand: "history_candidates sts now d = rev (take 1000 (map m_id sorted1))"
  proof -
    have mem: "x \<in> set (map f (filter Q xs)) \<longleftrightarrow> (\<exists>y \<in> set xs. Q y \<and> f y = x)" for x :: int and f Q and xs :: "'z list"
      by auto
    have member: "m_recipient m \<in> set (map rc_id (filter (\<lambda>r. rc_type r = STREAM \<and>
        rc_type_id r \<in> set (map st_id (filter (\<lambda>st. st_invite_only st \<noteq> Some True) sts))) (recipients d))) \<longleftrightarrow>
      (\<exists>st \<in> set sts. st_invite_only st \<noteq> Some True \<and>
        (\<exists>r \<in> set (recipients d). rc_type r = STREAM \<and> rc_type_id r = st_id st \<and> rc_id r = m_recipient m))" for m
      unfolding mem by metis
    show ?thesis unfolding history_candidates_def sorted1_def Let_def recent_public_def member by (simp only: conj_commute)
  qed
  have set1: "set sorted1 = {m \<in> set (messages d). ?P m}" by (simp add: sorted1_def)
  have "distinct (map m_id sorted1)"
  proof -
    have "distinct sorted1" "inj_on m_id (set sorted1)" using assms
      by (auto simp: sorted1_def distinct_map intro: inj_on_subset)
    then show ?thesis by (simp add: distinct_map)
  qed
  then show "distinct (history_candidates sts now d)" by (simp add: cand)
  show "set (history_candidates sts now d) \<subseteq> m_id ` {m \<in> set (messages d). ?P m}"
    using set_take_subset[of 1000 "map m_id sorted1"] set1 by (simp add: cand)
  show "length (history_candidates sts now d) \<le> 1000" by (simp add: cand)
  show "length (history_candidates sts now d) = 1000 \<and> (\<forall>i \<in> set (history_candidates sts now d). m_id m \<le> i)"
    if m: "m \<in> set (messages d)" "?P m" "m_id m \<notin> set (history_candidates sts now d)"
  proof -
    have out: "m_id m \<in> set (map m_id sorted1)" "m_id m \<notin> set (take 1000 (map m_id sorted1))" using m set1 by (auto simp: cand)
    have "sorted (map uminus (map m_id sorted1))" using sorted_sort_key[of "\<lambda>m. - m_id m" "filter ?P (messages d)"]
      by (simp add: sorted1_def comp_def)
    then have "\<forall>i \<in> set (take 1000 (map m_id sorted1)). - i \<le> - m_id m" using take_sorted_newest[OF _ out] by blast
    moreover have "1000 \<le> length sorted1"
    proof (rule ccontr)
      assume "\<not> 1000 \<le> length sorted1"
      then have "take 1000 (map m_id sorted1) = map m_id sorted1" by simp
      then show False using out by argo
    qed
    ultimately show ?thesis by (simp add: cand)
  qed
qed

text \<open>
  a new user gets rows, marked as read, for recent messages of the public ones among the given streams only, at most
  a thousand, none twice, and a message of these streams that it gets no row for is older than the thousand it gets.
\<close>

theorem new_user_history:
  assumes "add_new_user_history u sts s = (Inr (), s')" and "distinct (map m_id (messages (sv_db s)))"
    and "\<forall>um \<in> set (user_messages (sv_db s)). um_user_profile um \<noteq> u_id u"
  shows "\<exists>ids. sv_db s' = (sv_db s)\<lparr>user_messages := user_messages (sv_db s) @
      map (\<lambda>i. \<lparr>um_user_profile = u_id u, um_message = i, um_flags = 1\<rparr>) ids\<rparr> \<and> distinct ids \<and> length ids \<le> 1000 \<and>
    set ids \<subseteq> m_id ` {m \<in> set (messages (sv_db s)). recent_public sts (sv_now s) (sv_db s) m} \<and>
    (\<forall>m \<in> set (messages (sv_db s)). recent_public sts (sv_now s) (sv_db s) m \<and> m_id m \<notin> set ids \<longrightarrow>
      length ids = 1000 \<and> (\<forall>i \<in> set ids. m_id m \<le> i))"
proof -
  let ?ids = "history_candidates sts (sv_now s) (sv_db s)"
  have none: "filter (\<lambda>x. um_message x \<in> set ?ids \<and> um_user_profile x = u_id u) (user_messages (sv_db s)) = []"
    using assms(3) by (simp add: filter_empty_conv)
  have "sv_db s' = (sv_db s)\<lparr>user_messages := user_messages (sv_db s) @
      map (\<lambda>i. \<lparr>um_user_profile = u_id u, um_message = i, um_flags = 1\<rparr>) ?ids\<rparr>"
  proof (cases "?ids = []")
    case False
    have "s' = s\<lparr>sv_db := (sv_db s)\<lparr>user_messages := user_messages (sv_db s) @
        map (\<lambda>i. \<lparr>um_user_profile = u_id u, um_message = i, um_flags = 1\<rparr>)
          (filter (\<lambda>i. i \<notin> set (map um_message (filter (\<lambda>x. um_message x \<in> set ?ids \<and> um_user_profile x = u_id u)
            (user_messages (sv_db s))))) ?ids)\<rparr>\<rparr>"
      using assms(1) False by (simp add: add_new_user_history_def Let_def)
    then show ?thesis unfolding none by simp
  qed (use assms(1) in \<open>simp add: add_new_user_history_def\<close>)
  then show ?thesis using history_candidates_sound[OF assms(2)] by blast
qed

definition history_server :: server where
  "history_server = empty_server\<lparr>sv_db := empty_db\<lparr>
     streams := [\<lparr>st_id = 5, st_name = ''s'', st_realm = 4, st_invite_only = Some False, st_email_token = [], st_description = [],
       st_date_created = 0, st_deactivated = False\<rparr>],
     recipients := [\<lparr>rc_id = 2, rc_type_id = 5, rc_type = STREAM\<rparr>], messages := messages counted_db\<rparr>\<rparr>"

theorem new_user_history_witness:
  "\<exists>ids. length ids \<le> 1000 \<and> user_messages (sv_db (snd (add_new_user_history (demo_user 9 4 ''ann@zulip.com'')
     (streams (sv_db history_server)) history_server))) = map (\<lambda>i. \<lparr>um_user_profile = 9, um_message = i, um_flags = 1\<rparr>) ids"
proof -
  let ?u = "demo_user 9 4 ''ann@zulip.com''" and ?sts = "streams (sv_db history_server)"
  have run: "add_new_user_history ?u ?sts history_server = (Inr (), snd (add_new_user_history ?u ?sts history_server))"
    by (simp add: add_new_user_history_def seq_def)
  have "distinct (map m_id (messages (sv_db history_server)))" by (simp add: history_server_def counted_db_def)
  moreover have "\<forall>um \<in> set (user_messages (sv_db history_server)). um_user_profile um \<noteq> u_id ?u"
    by (simp add: history_server_def empty_db_def)
  ultimately obtain ids where "sv_db (snd (add_new_user_history ?u ?sts history_server)) = (sv_db history_server)\<lparr>user_messages :=
      user_messages (sv_db history_server) @ map (\<lambda>i. \<lparr>um_user_profile = u_id ?u, um_message = i, um_flags = 1\<rparr>) ids\<rparr>"
    and "length ids \<le> 1000" using new_user_history[OF run] by blast
  moreover have "user_messages (sv_db history_server) = []" by (simp add: history_server_def empty_db_def)
  ultimately show ?thesis by (intro exI[of _ ids]) (simp add: demo_user_simps(1))
qed

text \<open>\<open>do_reactivate_user\<close> does not ask whether the user is active: it counts an active user once more.\<close>

lemma reactivation_counts_again:
  assumes "accounts_ok (acct (sv_db s))" and "u \<in> set (users (sv_db s))" and "u_is_active u"
    and "do_reactivate_user E u s = (r, s')"
  shows "log_total (log_rows (sv_db s')) (u_realm u) (u_is_bot u) =
    active_total (map core (users (sv_db s'))) (u_realm u) (u_is_bot u) + 1"
proof -
  define v where "v = u\<lparr>u_is_active := True\<rparr>"
  let ?us = "users (sv_db s)"
  define s1 where "s1 = s\<lparr>sv_db := (sv_db s)\<lparr>users := map (\<lambda>x. if u_id x = u_id u then x\<lparr>u_is_active := True\<rparr> else x) ?us\<rparr>\<rparr>"
  define k where "k = andthen (notify_created_user E v) (if u_is_bot u then notify_created_bot E v else ret ())"
  have v: "u_realm v = u_realm u" "u_is_bot v = u_is_bot u" by (simp_all add: v_def)
  have run: "do_reactivate_user E u s = andthen (log_account v None ''user_reactivated'' (sv_now s))
      (andthen (count_account v (sv_now s) 1) k) s1"
    by (simp add: do_reactivate_user_def save_user_def Let_def v_def s1_def k_def)
  have ok: "distinct (map fst (map core ?us))" "distinct (map log_key (log_rows (sv_db s)))"
    "\<And>r b. log_total (log_rows (sv_db s)) r b = active_total (map core ?us) r b"
    using assms(1) by (simp_all add: accounts_ok_def acct_def)
  have "x = u" if "x \<in> set ?us" "u_id x = u_id u" for x
    using ok(1) that assms(2) by (auto simp: distinct_map core_def inj_on_def)
  then have same: "map core (users (sv_db s1)) = map core ?us" using assms(3) by (auto simp: s1_def core_def)
  have rows: "log_rows (sv_db s1) = log_rows (sv_db s)" by (simp add: s1_def log_rows_def)
  have "distinct (map log_key (log_rows (sv_db s1)))" using ok(2) unfolding rows .
  from log_and_count[where k = k, OF this activated_type(4), of v "sv_now s" 1] obtain s2 rows' where
    s2: "andthen (log_account v None ''user_reactivated'' (sv_now s)) (andthen (count_account v (sv_now s) 1) k) s1 = k s2"
    and after: "acct (sv_db s2) = (map core (users (sv_db s1)), rows', activity_rows (sv_db s1) @ [account_event v None ''user_reactivated'' (sv_now s)])"
    and cnt: "counted (u_realm v) (u_is_bot v) 1 (log_rows (sv_db s1)) rows'" by metis
  have "quiet k" unfolding k_def by (intro preserves_intros)
  then have "acct (sv_db s') = acct (sv_db s2)" using quiet_snd assms(4) s2 unfolding run by metis
  then have "map core (users (sv_db s')) = map core ?us" "log_rows (sv_db s') = rows'"
    using after same by (simp_all add: acct_def del: map_map)
  then show ?thesis using cnt ok(3) rows v by (simp add: counted_def del: map_map)
qed

end
