(* ===== verification/Settings.thy ===== *)
theory Settings
  imports UserActions ClientState
begin

text \<open>
  Settings of realms and users and the lists that belong to them (\<open>zerver/lib/actions.py\<close>,
  \<open>zerver/lib/alert_words.py\<close>, \<open>zerver/lib/domains.py\<close>, \<open>zerver/lib/realm_icon.py\<close>): every action writes a
  column or a row and tells the clients. Parameters are the JSON writer, Django's check of an e-mail
  address, the checks of a realm filter's regular expression, the upload backend and the enabled
  authentication backends. Names of attributes are strings, as in the code.
\<close>

record settings_env =
  sg_users :: user_env
  json_dumps :: "pyval \<Rightarrow> string"
  supported_backend :: "string \<Rightarrow> bool"
  backend_icon_url :: "int \<Rightarrow> int \<Rightarrow> string"
  valid_filter :: "string \<Rightarrow> string \<Rightarrow> bool"
  valid_address :: "string \<Rightarrow> bool"

abbreviation sg_loads :: "settings_env \<Rightarrow> string \<Rightarrow> pyerr + pyval" where
  "sg_loads E \<equiv> json_loads (se_render (ue_send (sg_users E)))"

section \<open>Properties by name\<close>

datatype property_type = TBool | TText | TInt | TOptInt

text \<open>\<open>isinstance\<close>; a Python bool is an int.\<close>

fun isinstance :: "pyval \<Rightarrow> property_type \<Rightarrow> bool" where
  "isinstance v TBool \<longleftrightarrow> (case v of PBool _ \<Rightarrow> True | _ \<Rightarrow> False)"
| "isinstance v TText \<longleftrightarrow> (case v of PStr _ \<Rightarrow> True | _ \<Rightarrow> False)"
| "isinstance v TInt \<longleftrightarrow> (case v of PInt _ \<Rightarrow> True | PBool _ \<Rightarrow> True | _ \<Rightarrow> False)"
| "isinstance v TOptInt \<longleftrightarrow> (case v of PInt _ \<Rightarrow> True | PBool _ \<Rightarrow> True | PNone \<Rightarrow> True | _ \<Rightarrow> False)"

definition realm_property_types :: "(string \<times> property_type) list" where
  "realm_property_types =
     [(''add_emoji_by_admins_only'', TBool), (''allow_edit_history'', TBool), (''create_stream_by_admins_only'', TBool),
      (''default_language'', TText), (''description'', TText), (''email_changes_disabled'', TBool), (''invite_required'', TBool),
      (''invite_by_admins_only'', TBool), (''inline_image_preview'', TBool), (''inline_url_embed_preview'', TBool),
      (''mandatory_topics'', TBool), (''message_retention_days'', TOptInt), (''name'', TText), (''name_changes_disabled'', TBool),
      (''restricted_to_domain'', TBool), (''waiting_period_threshold'', TInt)]"

definition user_property_types :: "(string \<times> property_type) list" where
  "user_property_types =
     [(''default_language'', TText), (''emoji_alt_code'', TBool), (''emojiset'', TText), (''left_side_userlist'', TBool),
      (''timezone'', TText), (''twenty_four_hour_time'', TBool), (''high_contrast_mode'', TBool)]"

definition notification_setting_types :: "(string \<times> property_type) list" where
  "notification_setting_types =
     [(''enable_desktop_notifications'', TBool), (''enable_digest_emails'', TBool), (''enable_offline_email_notifications'', TBool),
      (''enable_offline_push_notifications'', TBool), (''enable_online_push_notifications'', TBool), (''enable_sounds'', TBool),
      (''enable_stream_desktop_notifications'', TBool), (''enable_stream_sounds'', TBool), (''pm_content_in_desktop_notifications'', TBool)]"

text \<open>What the database keeps of a value: a bool in an integer column is its number.\<close>

fun bool_of :: "pyval \<Rightarrow> bool" where
  "bool_of (PBool b) = b"
| "bool_of _ = False"

fun str_of :: "pyval \<Rightarrow> string" where
  "str_of (PStr s) = s"
| "str_of _ = []"

fun int_of_val :: "pyval \<Rightarrow> int" where
  "int_of_val (PInt i) = i"
| "int_of_val (PBool b) = (if b then 1 else 0)"
| "int_of_val _ = 0"

definition opt_int_of :: "pyval \<Rightarrow> int option" where
  "opt_int_of v = (if v = PNone then None else Some (int_of_val v))"

text \<open>\<open>setattr(realm, name, value)\<close> and the update of the column, for the names above.\<close>

definition set_realm_attr :: "string \<Rightarrow> pyval \<Rightarrow> realm \<Rightarrow> realm" where
  "set_realm_attr name v r =
     (if name = ''add_emoji_by_admins_only'' then r\<lparr>rm_add_emoji_by_admins_only := bool_of v\<rparr>
      else if name = ''allow_edit_history'' then r\<lparr>rm_allow_edit_history := bool_of v\<rparr>
      else if name = ''create_stream_by_admins_only'' then r\<lparr>rm_create_stream_by_admins_only := bool_of v\<rparr>
      else if name = ''default_language'' then r\<lparr>rm_default_language := str_of v\<rparr>
      else if name = ''description'' then r\<lparr>rm_description := Some (str_of v)\<rparr>
      else if name = ''email_changes_disabled'' then r\<lparr>rm_email_changes_disabled := bool_of v\<rparr>
      else if name = ''invite_required'' then r\<lparr>rm_invite_required := bool_of v\<rparr>
      else if name = ''invite_by_admins_only'' then r\<lparr>rm_invite_by_admins_only := bool_of v\<rparr>
      else if name = ''inline_image_preview'' then r\<lparr>rm_inline_image_preview := bool_of v\<rparr>
      else if name = ''inline_url_embed_preview'' then r\<lparr>rm_inline_url_embed_preview := bool_of v\<rparr>
      else if name = ''mandatory_topics'' then r\<lparr>rm_mandatory_topics := bool_of v\<rparr>
      else if name = ''message_retention_days'' then r\<lparr>rm_message_retention_days := opt_int_of v\<rparr>
      else if name = ''name'' then r\<lparr>rm_name := Some (str_of v)\<rparr>
      else if name = ''name_changes_disabled'' then r\<lparr>rm_name_changes_disabled := bool_of v\<rparr>
      else if name = ''restricted_to_domain'' then r\<lparr>rm_restricted_to_domain := bool_of v\<rparr>
      else if name = ''waiting_period_threshold'' then r\<lparr>rm_waiting_period_threshold := int_of_val v\<rparr>
      else r)"

definition set_user_attr :: "string \<Rightarrow> pyval \<Rightarrow> user_profile \<Rightarrow> user_profile" where
  "set_user_attr name v u =
     (if name = ''default_language'' then u\<lparr>u_default_language := str_of v\<rparr>
      else if name = ''emoji_alt_code'' then u\<lparr>u_emoji_alt_code := bool_of v\<rparr>
      else if name = ''emojiset'' then u\<lparr>u_emojiset := str_of v\<rparr>
      else if name = ''left_side_userlist'' then u\<lparr>u_left_side_userlist := bool_of v\<rparr>
      else if name = ''timezone'' then u\<lparr>u_timezone := str_of v\<rparr>
      else if name = ''twenty_four_hour_time'' then u\<lparr>u_twenty_four_hour_time := bool_of v\<rparr>
      else if name = ''high_contrast_mode'' then u\<lparr>u_high_contrast_mode := bool_of v\<rparr>
      else u)"

definition set_notification_attr :: "string \<Rightarrow> pyval \<Rightarrow> user_profile \<Rightarrow> user_profile" where
  "set_notification_attr name v u =
     (if name = ''enable_desktop_notifications'' then u\<lparr>u_enable_desktop_notifications := bool_of v\<rparr>
      else if name = ''enable_digest_emails'' then u\<lparr>u_enable_digest_emails := bool_of v\<rparr>
      else if name = ''enable_offline_email_notifications'' then u\<lparr>u_enable_offline_email_notifications := bool_of v\<rparr>
      else if name = ''enable_offline_push_notifications'' then u\<lparr>u_enable_offline_push_notifications := bool_of v\<rparr>
      else if name = ''enable_online_push_notifications'' then u\<lparr>u_enable_online_push_notifications := bool_of v\<rparr>
      else if name = ''enable_sounds'' then u\<lparr>u_enable_sounds := bool_of v\<rparr>
      else if name = ''enable_stream_desktop_notifications'' then u\<lparr>u_enable_stream_desktop_notifications := bool_of v\<rparr>
      else if name = ''enable_stream_sounds'' then u\<lparr>u_enable_stream_sounds := bool_of v\<rparr>
      else if name = ''pm_content_in_desktop_notifications'' then u\<lparr>u_pm_content_in_desktop_notifications := bool_of v\<rparr>
      else u)"

definition save_realm :: "int \<Rightarrow> (realm \<Rightarrow> realm) \<Rightarrow> unit act" where
  "save_realm realm_id f = modify_db (\<lambda>d. d\<lparr>realms := map (\<lambda>x. if rm_id x = realm_id then f x else x) (realms d)\<rparr>)"

definition send_to_realm :: "int \<Rightarrow> pydict \<Rightarrow> unit act" where
  "send_to_realm realm_id event = seq (lookup (active_user_ids realm_id)) (\<lambda>ids. send_event event (map PInt ids))"

definition realm_update_event :: "string \<Rightarrow> pyval \<Rightarrow> pydict" where
  "realm_update_event name value1 =
     [(''type'', PStr ''realm''), (''op'', PStr ''update''), (''property'', PStr name), (''value'', value1)]"

definition do_set_realm_property :: "int \<Rightarrow> string \<Rightarrow> pyval \<Rightarrow> unit act" where
  "do_set_realm_property realm_id name value1 =
     (case map_of realm_property_types name of
        None \<Rightarrow> raise (KeyError name)
      | Some ty \<Rightarrow>
          if \<not> isinstance value1 ty then raise (AssertionError (''Cannot update '' @ name))
          else andthen (save_realm realm_id (set_realm_attr name value1))
            (send_to_realm realm_id (realm_update_event name value1)))"

definition do_set_user_display_setting :: "user_profile \<Rightarrow> string \<Rightarrow> pyval \<Rightarrow> unit act" where
  "do_set_user_display_setting u name value1 =
     (case map_of user_property_types name of
        None \<Rightarrow> raise (KeyError name)
      | Some ty \<Rightarrow>
          if \<not> isinstance value1 ty then raise (AssertionError [])
          else
            andthen (save_user (u_id u) (set_user_attr name value1))
            (andthen (send_event [(''type'', PStr ''update_display_settings''), (''user'', PStr (u_email u)),
               (''setting_name'', PStr name), (''setting'', value1)] [PInt (u_id u)])
            (if name = ''timezone''
             then send_person_update u [(''email'', PStr (u_email u)), (''user_id'', PInt (u_id u)), (''timezone'', PStr (str_of value1))]
             else ret ())))"

definition DIGEST :: int where "DIGEST = 2"

definition do_change_notification_settings :: "user_profile \<Rightarrow> string \<Rightarrow> pyval \<Rightarrow> unit act" where
  "do_change_notification_settings u name value1 =
     (case map_of notification_setting_types name of
        None \<Rightarrow> raise (KeyError name)
      | Some ty \<Rightarrow>
          if \<not> isinstance value1 ty then raise (AssertionError (''Cannot update '' @ name))
          else
            andthen (if name = ''enable_digest_emails'' \<and> \<not> truthy value1 then clear_scheduled_emails (u_id u) (Some DIGEST) else ret ())
            (andthen (save_user (u_id u) (set_notification_attr name value1))
             (send_event [(''type'', PStr ''update_global_notifications''), (''user'', PStr (u_email u)),
               (''notification_name'', PStr name), (''setting'', value1)] [PInt (u_id u)])))"

definition do_change_autoscroll_forever :: "user_profile \<Rightarrow> bool \<Rightarrow> unit act" where
  "do_change_autoscroll_forever u b = save_user (u_id u) (\<lambda>x. x\<lparr>u_autoscroll_forever := b\<rparr>)"

definition do_change_enter_sends :: "user_profile \<Rightarrow> bool \<Rightarrow> unit act" where
  "do_change_enter_sends u b = save_user (u_id u) (\<lambda>x. x\<lparr>u_enter_sends := Some b\<rparr>)"

definition do_change_default_desktop_notifications :: "user_profile \<Rightarrow> bool \<Rightarrow> unit act" where
  "do_change_default_desktop_notifications u b = save_user (u_id u) (\<lambda>x. x\<lparr>u_default_desktop_notifications := b\<rparr>)"

section \<open>Settings of a realm\<close>

definition AUTHENTICATION_FLAGS :: "string list" where
  "AUTHENTICATION_FLAGS = [''Google'', ''Email'', ''GitHub'', ''LDAP'', ''Dev'', ''RemoteUser'']"

definition flag_index :: "string \<Rightarrow> string list \<Rightarrow> nat option" where
  "flag_index k ks = (if k \<in> set ks then Some (length (takeWhile (\<lambda>x. x \<noteq> k) ks)) else None)"

definition authentication_methods_dict :: "settings_env \<Rightarrow> realm \<Rightarrow> pydict" where
  "authentication_methods_dict E r =
     map (\<lambda>(i, k). (k, PBool (bit (rm_authentication_methods r) i)))
       (filter (\<lambda>(i, k). supported_backend E k) (enumerate 0 AUTHENTICATION_FLAGS))"

definition update_dict_event :: "string \<Rightarrow> pydict \<Rightarrow> pydict" where
  "update_dict_event property1 data1 =
     [(''type'', PStr ''realm''), (''op'', PStr ''update_dict''), (''property'', PStr property1), (''data'', PDict data1)]"

text \<open>The realm object is the one that the caller holds; its flags and no others are saved.\<close>

fun set_authentication_bits :: "int \<Rightarrow> (string \<times> bool) list \<Rightarrow> pyerr + int" where
  "set_authentication_bits m [] = Inr m"
| "set_authentication_bits m ((k, b) # rest) =
     (case flag_index k AUTHENTICATION_FLAGS of
        None \<Rightarrow> Inl (OtherError ''AttributeError'')
      | Some i \<Rightarrow> set_authentication_bits (if b then set_bit i m else unset_bit i m) rest)"

definition do_set_realm_authentication_methods :: "settings_env \<Rightarrow> realm \<Rightarrow> (string \<times> bool) list \<Rightarrow> unit act" where
  "do_set_realm_authentication_methods E r authentication_methods =
     seq (query (\<lambda>_. set_authentication_bits (rm_authentication_methods r) authentication_methods)) (\<lambda>m.
     andthen (save_realm (rm_id r) (\<lambda>x. x\<lparr>rm_authentication_methods := m\<rparr>))
       (send_to_realm (rm_id r) (update_dict_event ''default''
          [(''authentication_methods'', PDict (authentication_methods_dict E (r\<lparr>rm_authentication_methods := m\<rparr>)))])))"

definition do_set_realm_message_editing :: "int \<Rightarrow> bool \<Rightarrow> int \<Rightarrow> unit act" where
  "do_set_realm_message_editing realm_id allow limit =
     andthen (save_realm realm_id (\<lambda>x. x\<lparr>rm_allow_message_editing := allow, rm_message_content_edit_limit_seconds := limit\<rparr>))
       (send_to_realm realm_id (update_dict_event ''default''
          [(''allow_message_editing'', PBool allow), (''message_content_edit_limit_seconds'', PInt limit)]))"

definition do_set_realm_notifications_stream :: "int \<Rightarrow> stream option \<Rightarrow> int \<Rightarrow> unit act" where
  "do_set_realm_notifications_stream realm_id st stream_id =
     andthen (save_realm realm_id (\<lambda>x. x\<lparr>rm_notifications_stream := map_option st_id st\<rparr>))
       (send_to_realm realm_id (realm_update_event ''notifications_stream_id'' (PInt stream_id)))"

definition active_humans_in_realm :: "int \<Rightarrow> db \<Rightarrow> user_profile list" where
  "active_humans_in_realm realm_id d = filter (\<lambda>u. u_realm u = realm_id \<and> u_is_active u \<and> \<not> u_is_bot u) (users d)"

definition do_deactivate_realm :: "realm \<Rightarrow> unit act" where
  "do_deactivate_realm r =
     (if rm_deactivated r then ret ()
      else andthen (save_realm (rm_id r) (\<lambda>x. x\<lparr>rm_deactivated := True\<rparr>))
        (seq (lookup (active_humans_in_realm (rm_id r)))
          (for_each (\<lambda>u. andthen (delete_user_sessions (u_id u)) (clear_scheduled_emails (u_id u) None)))))"

definition do_reactivate_realm :: "int \<Rightarrow> unit act" where
  "do_reactivate_realm realm_id = save_realm realm_id (\<lambda>x. x\<lparr>rm_deactivated := False\<rparr>)"

text \<open>\<open>zerver/lib/realm_icon.py\<close>\<close>

definition get_realm_icon_url :: "settings_env \<Rightarrow> realm \<Rightarrow> string" where
  "get_realm_icon_url E r =
     (let R = se_render (ue_send (sg_users E)) in
      if rm_icon_source r = ''U'' then backend_icon_url E (rm_id r) (rm_icon_version r)
      else if ENABLE_GRAVATAR R
      then ''https://secure.gravatar.com/avatar/'' @ gravatar_hash R (rm_string_id r) @ ''?d=identicon''
      else DEFAULT_AVATAR_URI R @ ''?version=0'')"

definition do_change_icon_source :: "settings_env \<Rightarrow> realm \<Rightarrow> string \<Rightarrow> unit act" where
  "do_change_icon_source E r icon_source =
     (let r' = r\<lparr>rm_icon_source := icon_source, rm_icon_version := rm_icon_version r + 1\<rparr> in
      andthen (save_realm (rm_id r) (\<lambda>x. x\<lparr>rm_icon_source := rm_icon_source r', rm_icon_version := rm_icon_version r'\<rparr>))
        (send_to_realm (rm_id r) (update_dict_event ''icon''
           [(''icon_source'', PStr (rm_icon_source r')), (''icon_url'', PStr (get_realm_icon_url E r'))])))"

section \<open>Domains and filters of a realm\<close>

text \<open>\<open>zerver/lib/domains.py\<close>. In \<open>re.match\<close> the dollar sign also matches before a newline that ends the text.\<close>

definition domain_char :: "char \<Rightarrow> bool" where
  "domain_char c \<longleftrightarrow> c \<in> set ''abcdefghijklmnopqrstuvwxyz0123456789-''"

definition matches_subdomain :: "string \<Rightarrow> bool" where
  "matches_subdomain s \<longleftrightarrow> list_all domain_char (if s \<noteq> [] \<and> last s = CHR ''\<newline>'' then butlast s else s)"

fun validate_subdomains :: "string list \<Rightarrow> pyerr + unit" where
  "validate_subdomains [] = Inr ()"
| "validate_subdomains (s # rest) =
     (if s = [] then Inl (ValidationError ''Consecutive '.' are not allowed.'')
      else if hd s = CHR ''-'' \<or> last s = CHR ''-'' then Inl (ValidationError ''Subdomains cannot start or end with a '-'.'')
      else if \<not> matches_subdomain s then Inl (ValidationError ''Domain can only have letters, numbers, '.' and '-'s.'')
      else validate_subdomains rest)"

definition validate_domain :: "string option \<Rightarrow> pyerr + unit" where
  "validate_domain d =
     (case d of
        None \<Rightarrow> Inl (ValidationError ''Domain can't be empty.'')
      | Some s \<Rightarrow>
          if length s = 0 then Inl (ValidationError ''Domain can't be empty.'')
          else if CHR ''.'' \<notin> set s then Inl (ValidationError ''Domain must have at least one dot (.)'')
          else if hd s = CHR ''.'' \<or> last s = CHR ''.'' then Inl (ValidationError ''Domain cannot start or end with a dot (.)'')
          else validate_subdomains (str_split (CHR ''.'') s))"

text \<open>A row of \<open>RealmDomain\<close> is known by its realm and its domain, which are unique together.\<close>

definition realm_domain_dict :: "realm_domain \<Rightarrow> pyval" where
  "realm_domain_dict x = PDict [(''domain'', PStr (rd_domain x)), (''allow_subdomains'', PBool (rd_allow_subdomains x))]"

definition do_add_realm_domain :: "int \<Rightarrow> string \<Rightarrow> bool \<Rightarrow> realm_domain act" where
  "do_add_realm_domain realm_id domain1 allow_subdomains =
     (let x = \<lparr>rd_realm = realm_id, rd_domain = domain1, rd_allow_subdomains = allow_subdomains\<rparr> in
      seq (lookup (\<lambda>d. db_exists (\<lambda>y. rd_realm y = realm_id \<and> rd_domain y = domain1) (realm_domains d))) (\<lambda>taken.
      if taken then raise (OtherError ''IntegrityError'')
      else andthen (modify_db (\<lambda>d. d\<lparr>realm_domains := realm_domains d @ [x]\<rparr>))
        (andthen (send_to_realm realm_id [(''type'', PStr ''realm_domains''), (''op'', PStr ''add''), (''realm_domain'', realm_domain_dict x)])
          (ret x))))"

definition do_change_realm_domain :: "realm_domain \<Rightarrow> bool \<Rightarrow> unit act" where
  "do_change_realm_domain x allow_subdomains =
     andthen (modify_db (\<lambda>d. d\<lparr>realm_domains := map (\<lambda>y. if rd_realm y = rd_realm x \<and> rd_domain y = rd_domain x
          then y\<lparr>rd_allow_subdomains := allow_subdomains\<rparr> else y) (realm_domains d)\<rparr>))
       (send_to_realm (rd_realm x) [(''type'', PStr ''realm_domains''), (''op'', PStr ''change''),
          (''realm_domain'', realm_domain_dict (x\<lparr>rd_allow_subdomains := allow_subdomains\<rparr>))])"

definition do_remove_realm_domain :: "realm_domain \<Rightarrow> unit act" where
  "do_remove_realm_domain x =
     seq (query (the_realm (rd_realm x))) (\<lambda>r.
     andthen (modify_db (\<lambda>d. d\<lparr>realm_domains := filter (\<lambda>y. \<not> (rd_realm y = rd_realm x \<and> rd_domain y = rd_domain x)) (realm_domains d)\<rparr>))
     (seq (lookup (\<lambda>d. length (filter (\<lambda>y. rd_realm y = rm_id r) (realm_domains d)))) (\<lambda>count.
      andthen (if count = 0 \<and> rm_restricted_to_domain r
               then do_set_realm_property (rm_id r) ''restricted_to_domain'' (PBool False) else ret ())
        (send_to_realm (rm_id r) [(''type'', PStr ''realm_domains''), (''op'', PStr ''remove''), (''domain'', PStr (rd_domain x))]))))"

definition realm_filters_for_realm :: "int \<Rightarrow> db \<Rightarrow> (string \<times> string \<times> int) list" where
  "realm_filters_for_realm realm_id d =
     map (\<lambda>x. (rf_pattern x, rf_url_format_string x, rf_id x)) (filter (\<lambda>x. rf_realm x = realm_id) (realm_filters d))"

definition all_realm_filters :: "db \<Rightarrow> (int \<times> (string \<times> string \<times> int) list) list" where
  "all_realm_filters d = map (\<lambda>i. (i, realm_filters_for_realm i d)) (remdups (map rf_realm (realm_filters d)))"

definition notify_realm_filters :: "int \<Rightarrow> unit act" where
  "notify_realm_filters realm_id =
     seq (lookup (realm_filters_for_realm realm_id)) (\<lambda>fs.
       send_to_realm realm_id [(''type'', PStr ''realm_filters''),
         (''realm_filters'', PList (map (\<lambda>(p, f, i). PList [PStr p, PStr f, PInt i]) fs))])"

definition do_add_realm_filter :: "settings_env \<Rightarrow> int \<Rightarrow> string \<Rightarrow> string \<Rightarrow> int act" where
  "do_add_realm_filter E realm_id pattern url_format_string =
     (let p = str_strip pattern; f = str_strip url_format_string in
      seq (lookup (\<lambda>d. db_exists (\<lambda>y. rf_realm y = realm_id \<and> rf_pattern y = p) (realm_filters d))) (\<lambda>taken.
      if taken \<or> \<not> valid_filter E p f then raise (ValidationError ''RealmFilter'')
      else seq fresh_id (\<lambda>i.
        andthen (modify_db (\<lambda>d. d\<lparr>realm_filters := realm_filters d @ [\<lparr>rf_id = i, rf_realm = realm_id, rf_pattern = p, rf_url_format_string = f\<rparr>]\<rparr>))
        (andthen (notify_realm_filters realm_id) (ret i)))))"

definition do_remove_realm_filter :: "int \<Rightarrow> string option \<Rightarrow> int \<Rightarrow> unit act" where
  "do_remove_realm_filter realm_id pattern i =
     seq (query (\<lambda>d. db_get ''RealmFilter'' (\<lambda>y. rf_realm y = realm_id \<and>
            (case pattern of Some p \<Rightarrow> rf_pattern y = p | None \<Rightarrow> rf_id y = i)) (realm_filters d))) (\<lambda>x.
     andthen (modify_db (\<lambda>d. d\<lparr>realm_filters := filter (\<lambda>y. rf_id y \<noteq> rf_id x) (realm_filters d)\<rparr>))
       (notify_realm_filters realm_id))"

section \<open>Lists that belong to a user\<close>

definition user_alert_words :: "settings_env \<Rightarrow> user_profile \<Rightarrow> pyerr + string list" where
  "user_alert_words E u = ebind (sg_loads E (u_alert_words u)) as_str_list"

definition set_user_alert_words :: "settings_env \<Rightarrow> user_profile \<Rightarrow> string list \<Rightarrow> unit act" where
  "set_user_alert_words E u words = save_user (u_id u) (\<lambda>x. x\<lparr>u_alert_words := json_dumps E (PList (map PStr words))\<rparr>)"

text \<open>The comprehension looks at the words before the extension, so that a word given twice is added twice.\<close>

definition with_new_words :: "string list \<Rightarrow> string list \<Rightarrow> string list" where
  "with_new_words words alert_words = words @ filter (\<lambda>w. w \<notin> set words) alert_words"

definition add_user_alert_words :: "settings_env \<Rightarrow> user_profile \<Rightarrow> string list \<Rightarrow> string list act" where
  "add_user_alert_words E u alert_words =
     seq (query (\<lambda>_. user_alert_words E u)) (\<lambda>words.
     andthen (set_user_alert_words E u (with_new_words words alert_words)) (ret (with_new_words words alert_words)))"

definition remove_user_alert_words :: "settings_env \<Rightarrow> user_profile \<Rightarrow> string list \<Rightarrow> string list act" where
  "remove_user_alert_words E u alert_words =
     seq (query (\<lambda>_. user_alert_words E u)) (\<lambda>words.
     let words = filter (\<lambda>w. w \<notin> set alert_words) words in
     andthen (set_user_alert_words E u words) (ret words))"

definition notify_alert_words :: "user_profile \<Rightarrow> string list \<Rightarrow> unit act" where
  "notify_alert_words u words =
     send_event [(''type'', PStr ''alert_words''), (''alert_words'', PList (map PStr words))] [PInt (u_id u)]"

definition do_add_alert_words :: "settings_env \<Rightarrow> user_profile \<Rightarrow> string list \<Rightarrow> unit act" where
  "do_add_alert_words E u alert_words = seq (add_user_alert_words E u alert_words) (notify_alert_words u)"

definition do_remove_alert_words :: "settings_env \<Rightarrow> user_profile \<Rightarrow> string list \<Rightarrow> unit act" where
  "do_remove_alert_words E u alert_words = seq (remove_user_alert_words E u alert_words) (notify_alert_words u)"

definition do_set_alert_words :: "settings_env \<Rightarrow> user_profile \<Rightarrow> string list \<Rightarrow> unit act" where
  "do_set_alert_words E u alert_words = andthen (set_user_alert_words E u alert_words) (notify_alert_words u alert_words)"

definition do_set_muted_topics :: "settings_env \<Rightarrow> user_profile \<Rightarrow> pyval list \<Rightarrow> unit act" where
  "do_set_muted_topics E u muted_topics =
     andthen (save_user (u_id u) (\<lambda>x. x\<lparr>u_muted_topics := json_dumps E (PList muted_topics)\<rparr>))
       (send_event [(''type'', PStr ''muted_topics''), (''muted_topics'', PList muted_topics)] [PInt (u_id u)])"

definition change_muted_topics :: "string \<Rightarrow> pyval \<Rightarrow> pyval list \<Rightarrow> pyerr + pyval list" where
  "change_muted_topics op1 entry muted_topics =
     (if op1 = ''add'' then Inr (muted_topics @ [entry])
      else if op1 = ''remove'' then
        (if entry \<in> set muted_topics then Inr (remove1 entry muted_topics) else Inl (ValueError ''list.remove(x): x not in list''))
      else Inr muted_topics)"

definition do_update_muted_topic :: "settings_env \<Rightarrow> user_profile \<Rightarrow> string \<Rightarrow> string \<Rightarrow> string \<Rightarrow> unit act" where
  "do_update_muted_topic E u stream1 topic op1 =
     seq (query (\<lambda>_. ebind (sg_loads E (u_muted_topics u)) (\<lambda>v. ebind (as_list v)
            (change_muted_topics op1 (PList [PStr stream1, PStr topic]))))) (do_set_muted_topics E u)"

definition do_mark_hotspot_as_read :: "user_profile \<Rightarrow> string \<Rightarrow> unit act" where
  "do_mark_hotspot_as_read u hotspot =
     andthen (modify_db (\<lambda>d. if (u_id u, hotspot) \<in> set (user_hotspots d) then d
                else d\<lparr>user_hotspots := user_hotspots d @ [(u_id u, hotspot)]\<rparr>))
       (seq (lookup (get_next_hotspots u)) (\<lambda>hs.
         send_event [(''type'', PStr ''hotspots''), (''hotspots'', hs)] [PInt (u_id u)]))"

section \<open>Addresses and invitations\<close>

definition do_change_user_email :: "user_profile \<Rightarrow> string \<Rightarrow> unit act" where
  "do_change_user_email u new_email =
     andthen (save_user (u_id u) (\<lambda>x. x\<lparr>u_email := new_email\<rparr>))
     (andthen (send_person_update u [(''user_id'', PInt (u_id u)), (''new_email'', PStr new_email)])
     (seq timezone_now (\<lambda>event_time. log_account u (Some (u_id u)) ''user_email_changed'' event_time)))"

definition compute_irc_user_fullname :: "string \<Rightarrow> string" where
  "compute_irc_user_fullname email = hd (str_split (CHR ''@'') email) @ '' (IRC)''"

definition compute_jabber_user_fullname :: "string \<Rightarrow> string" where
  "compute_jabber_user_fullname email = hd (str_split (CHR ''@'') email) @ '' (XMPP)''"

definition mirror_user :: "string \<Rightarrow> string \<Rightarrow> int \<Rightarrow> new_user" where
  "mirror_user email full_name realm_id =
     \<lparr>nu_email = email, nu_password = None, nu_realm = realm_id, nu_full_name = full_name, nu_short_name = email_to_username email,
      nu_active = False, nu_bot_type = None, nu_bot_owner = None, nu_tos_version = None, nu_timezone = [], nu_avatar_source = ''G'',
      nu_is_mirror_dummy = True, nu_default_sending_stream = None, nu_default_events_register_stream = None,
      nu_default_all_public_streams = None, nu_user_profile_id = None\<rparr>"

definition create_mirror_user_if_needed :: "user_env \<Rightarrow> int \<Rightarrow> string \<Rightarrow> (string \<Rightarrow> string) \<Rightarrow> user_profile act" where
  "create_mirror_user_if_needed E realm_id email email_to_fullname =
     try_except (query (get_user email realm_id)) (\<lambda>e. case e of
        DoesNotExist _ \<Rightarrow> Some (try_except (create_user E (mirror_user email (email_to_fullname email) realm_id)) (\<lambda>e.
          if e = OtherError ''IntegrityError'' then Some (query (get_user email realm_id)) else None))
      | _ \<Rightarrow> None)"

definition is_inactive :: "string \<Rightarrow> db \<Rightarrow> pyerr + unit" where
  "is_inactive email d =
     (case get_user_profile_by_email email d of
        Inr u \<Rightarrow> if u_is_active u then Inl (ValidationError (email @ '' is already active'')) else Inr ()
      | Inl (DoesNotExist _) \<Rightarrow> Inr ()
      | Inl e \<Rightarrow> Inl e)"

definition user_email_is_unique :: "string \<Rightarrow> db \<Rightarrow> pyerr + unit" where
  "user_email_is_unique email d =
     (case get_user_profile_by_email email d of
        Inr _ \<Rightarrow> Inl (ValidationError (email @ '' is already registered''))
      | Inl (DoesNotExist _) \<Rightarrow> Inr ()
      | Inl e \<Rightarrow> Inl e)"

text \<open>The error and the reason to skip the address, as the pair of the code.\<close>

definition validate_email :: "settings_env \<Rightarrow> user_profile \<Rightarrow> string \<Rightarrow> db \<Rightarrow> pyerr + string option \<times> string option" where
  "validate_email E u email d =
     (if \<not> valid_address E email then Inr (Some ''Invalid address.'', None)
      else ebind (the_realm (u_realm u) d) (\<lambda>r.
        if \<not> email_allowed_for_realm email r d then Inr (Some ''Outside your domain.'', None)
        else ebind (case get_user_profile_by_email email d of
                 Inr x \<Rightarrow> Inr (Some x) | Inl (DoesNotExist _) \<Rightarrow> Inr None | Inl e \<Rightarrow> Inl e) (\<lambda>existing.
          case (if (case existing of Some x \<Rightarrow> u_is_mirror_dummy x | None \<Rightarrow> False)
                then is_inactive email d else user_email_is_unique email d) of
            Inr _ \<Rightarrow> Inr (None, None)
          | Inl (ValidationError _) \<Rightarrow> Inr (None, Some ''Already has an account.'')
          | Inl e \<Rightarrow> Inl e)))"

text \<open>The loop over the addresses: those that are valid, the errors and the skipped ones.\<close>

fun sort_invitees ::
  "settings_env \<Rightarrow> user_profile \<Rightarrow> db \<Rightarrow> string list \<Rightarrow> pyerr + string list \<times> (string \<times> string) list \<times> (string \<times> string) list" where
  "sort_invitees E u d [] = Inr ([], [], [])"
| "sort_invitees E u d (email # rest) =
     (if email = [] then sort_invitees E u d rest
      else ebind (validate_email E u email d) (\<lambda>(email_error, email_skipped).
        ebind (sort_invitees E u d rest) (\<lambda>(validated, errors, skipped).
          case (email_error, email_skipped) of
            (None, None) \<Rightarrow> Inr (email # validated, errors, skipped)
          | (Some e, _) \<Rightarrow> Inr (validated, (email, e) # errors, skipped)
          | (None, Some r) \<Rightarrow> Inr (validated, errors, (email, r) # skipped))))"

text \<open>\<open>InvitationError\<close> carries data, so the call returns it as a value.\<close>

datatype invite_result = Invited | InvitationError string "(string \<times> string) list" bool

definition invite_one :: "user_profile \<Rightarrow> int list \<Rightarrow> string option \<Rightarrow> string \<Rightarrow> unit act" where
  "invite_one u stream_ids body email =
     seq fresh_id (\<lambda>i.
     andthen (modify_db (\<lambda>d. d\<lparr>prereg_users := prereg_users d @
         [\<lparr>pu_id = i, pu_email = email, pu_referred_by = Some (u_id u), pu_streams = stream_ids, pu_status = 0, pu_realm = None\<rparr>]\<rparr>))
       (queue_json_publish ''invites'' [(''email'', PStr email), (''referrer_id'', PInt (u_id u)), (''email_body'', of_opt PStr body)]))"

definition do_invite_users :: "settings_env \<Rightarrow> user_profile \<Rightarrow> string list \<Rightarrow> int list \<Rightarrow> string option \<Rightarrow> invite_result act" where
  "do_invite_users E u invitee_emails stream_ids body =
     seq (query (\<lambda>d. sort_invitees E u d invitee_emails)) (\<lambda>(validated_emails, errors, skipped).
     if errors \<noteq> [] then
       ret (InvitationError ''Some emails did not validate, so we didn't send any invitations.'' (errors @ skipped) False)
     else if skipped \<noteq> [] \<and> length skipped = length invitee_emails then
       ret (InvitationError ''We weren't able to invite anyone.'' skipped False)
     else andthen (for_each (invite_one u stream_ids body) validated_emails)
       (if skipped \<noteq> [] then
          ret (InvitationError (''Some of those addresses are already using Zulip, so we didn't send them an invitation. '' @
            ''We did send invitations to everyone else!'') skipped True)
        else ret Invited))"

section \<open>Creating a realm and its streams\<close>

definition new_realm :: "int \<Rightarrow> string \<Rightarrow> string \<Rightarrow> bool option \<Rightarrow> bool option \<Rightarrow> int option \<Rightarrow> rat \<Rightarrow> realm" where
  "new_realm i string_id name restricted_to_domain invite_required org_type now =
     \<lparr>rm_id = i, rm_name = Some name, rm_string_id = string_id,
      rm_restricted_to_domain = (case restricted_to_domain of None \<Rightarrow> False | Some b \<Rightarrow> b),
      rm_invite_required = (case invite_required of None \<Rightarrow> True | Some b \<Rightarrow> b),
      rm_invite_by_admins_only = False, rm_inline_image_preview = True, rm_inline_url_embed_preview = True,
      rm_create_stream_by_admins_only = False, rm_add_emoji_by_admins_only = False, rm_mandatory_topics = False,
      rm_show_digest_email = True, rm_name_changes_disabled = False, rm_email_changes_disabled = False, rm_description = None,
      rm_allow_message_editing = True, rm_message_content_edit_limit_seconds = 600, rm_message_retention_days = None,
      rm_allow_edit_history = True, rm_org_type = (case org_type of None \<Rightarrow> 1 | Some t \<Rightarrow> t), rm_date_created = now,
      rm_notifications_stream = None, rm_deactivated = False, rm_default_language = ''en'',
      rm_authentication_methods = 2 ^ 31 - 1, rm_waiting_period_threshold = 0, rm_icon_source = ''G'', rm_icon_version = 1\<rparr>"

definition realm_welcome :: "string \<Rightarrow> string" where
  "realm_welcome stream_name =
     ''Hello, and welcome to Zulip!\<newline>\<newline>This is a message on stream `'' @ stream_name @
     ''` with the topic `welcome`. We'll use this stream for\<newline>system-generated notifications.''"

definition do_create_realm ::
  "settings_env \<Rightarrow> string \<Rightarrow> string \<Rightarrow> bool option \<Rightarrow> bool option \<Rightarrow> int option \<Rightarrow> (realm \<times> bool) act" where
  "do_create_realm E string_id name restricted_to_domain invite_required org_type =
     (let S = ue_send (sg_users E) in
      seq (lookup (get_realm string_id)) (\<lambda>old.
      case old of
        Some r \<Rightarrow> ret (r, False)
      | None \<Rightarrow>
          seq fresh_id (\<lambda>i. seq timezone_now (\<lambda>now.
          let r = new_realm i string_id name restricted_to_domain invite_required org_type now in
          andthen (modify_db (\<lambda>d. d\<lparr>realms := realms d @ [r]\<rparr>))
          (seq (create_stream_if_needed S i ''announce'' False []) (\<lambda>(st, _).
           let r = r\<lparr>rm_notifications_stream := Some (st_id st)\<rparr> in
           andthen (save_realm i (\<lambda>x. x\<lparr>rm_notifications_stream := Some (st_id st)\<rparr>))
           (seq (query (get_system_bot (WELCOME_BOT S))) (\<lambda>sender.
            seq (internal_prep_stream_message S (Some i) sender (st_name st) ''welcome'' (realm_welcome (st_name st))) (\<lambda>msg.
            seq (do_send_messages S [msg]) (\<lambda>_.
            andthen (case NEW_USER_BOT (sg_users E) of
                None \<Rightarrow> ret ()
              | Some bot1 \<Rightarrow> seq (query (get_system_bot bot1)) (\<lambda>b.
                  internal_send_message_to (sg_users E) (u_realm b) bot1 ''stream'' ''signups'' string_id ''Signups enabled''))
              (ret (r, True))))))))))))"

definition stream_welcome_message :: "stream \<Rightarrow> string" where
  "stream_welcome_message st =
     ''Welcome to #**'' @ st_name st @ ''**.'' @
     (if st_description st \<noteq> [] then ''\<newline>\<newline>**'' @ ''Description'' @ ''**: '' @ st_description st else [])"

definition prep_stream_welcome_message :: "send_env \<Rightarrow> stream \<Rightarrow> prepared option act" where
  "prep_stream_welcome_message S st =
     seq (query (get_system_bot (WELCOME_BOT S))) (\<lambda>sender.
       internal_prep_stream_message S (Some (st_realm st)) sender (st_name st) ''hello'' (stream_welcome_message st))"

text \<open>The dictionary of streams has, for every name, its \<open>invite_only\<close> and its description.\<close>

definition create_streams_with_welcome_messages :: "send_env \<Rightarrow> int \<Rightarrow> (string \<times> bool \<times> string) list \<Rightarrow> unit act" where
  "create_streams_with_welcome_messages S realm_id stream_dict =
     seq (collect (\<lambda>(name, invite_only, description).
            seq (create_stream_if_needed S realm_id name invite_only description) (\<lambda>(st, created).
              if created then seq (prep_stream_welcome_message S st) (\<lambda>m. ret [m]) else ret [])) stream_dict) (\<lambda>msgs.
     if concat msgs \<noteq> [] then seq (do_send_messages S (concat msgs)) (\<lambda>_. ret ()) else ret ())"

definition add_default_stream_row :: "int \<Rightarrow> int \<Rightarrow> unit act" where
  "add_default_stream_row realm_id stream_id =
     seq (lookup (\<lambda>d. (realm_id, stream_id) \<in> set (default_streams d))) (\<lambda>taken.
       if taken then raise (OtherError ''IntegrityError'')
       else modify_db (\<lambda>d. d\<lparr>default_streams := default_streams d @ [(realm_id, stream_id)]\<rparr>))"

definition set_default_streams :: "send_env \<Rightarrow> realm \<Rightarrow> (string \<times> bool \<times> string) list \<Rightarrow> unit act" where
  "set_default_streams S r stream_dict =
     andthen (modify_db (\<lambda>d. d\<lparr>default_streams := filter (\<lambda>x. fst x \<noteq> rm_id r) (default_streams d)\<rparr>))
     (andthen (for_each (\<lambda>(name, invite_only, description).
         seq (create_stream_if_needed S (rm_id r) name invite_only description) (\<lambda>(st, _).
           add_default_stream_row (rm_id r) (st_id st))) stream_dict)
       (case rm_notifications_stream r of
          None \<Rightarrow> ret ()
        | Some i \<Rightarrow> modify_db (\<lambda>d. if (rm_id r, i) \<in> set (default_streams d) then d
            else d\<lparr>default_streams := default_streams d @ [(rm_id r, i)]\<rparr>)))"

section \<open>Topics, subscriptions and bots shown to clients\<close>

text \<open>The rows of the query, a topic and its largest message id, in descending order of the ids.\<close>

definition topic_rows :: "int \<Rightarrow> int \<Rightarrow> db \<Rightarrow> (string \<times> int) list" where
  "topic_rows uid recipient_id d =
     (let ms = filter (\<lambda>m. m_recipient m = recipient_id \<and>
                 db_exists (\<lambda>um. um_message um = m_id m \<and> um_user_profile um = uid) (user_messages d)) (messages d);
          topics = remdups (map m_subject ms)
      in rev (sort_key snd (map (\<lambda>t. (t, Max (set (map m_id (filter (\<lambda>m. m_subject m = t) ms))))) topics)))"

fun canonical_history :: "string list \<Rightarrow> (string \<times> int) list \<Rightarrow> (string \<times> int) list" where
  "canonical_history seen [] = []"
| "canonical_history seen ((topic_name, max_id) # rows) =
     (if str_lower topic_name \<in> set seen then canonical_history seen rows
      else (topic_name, max_id) # canonical_history (str_lower topic_name # seen) rows)"

definition get_topic_history_for_stream :: "int \<Rightarrow> int \<Rightarrow> db \<Rightarrow> (string \<times> int) list" where
  "get_topic_history_for_stream uid recipient_id d = canonical_history [] (topic_rows uid recipient_id d)"

definition emails_from_ids :: "int list \<Rightarrow> db \<Rightarrow> (int \<times> string) list" where
  "emails_from_ids ids d = map (\<lambda>u. (u_id u, u_email u)) (filter (\<lambda>u. u_id u \<in> set ids) (users d))"

definition sub_with_emails :: "(int \<times> string) list \<Rightarrow> pydict \<Rightarrow> pyerr + pydict" where
  "sub_with_emails email_dict sub =
     (if dhas sub ''subscribers'' then
        ebind (get_list sub ''subscribers'') (\<lambda>ids. ebind (emap as_int ids) (\<lambda>ids.
        ebind (emap (\<lambda>i. the_some (KeyError (int_str i)) (map_of email_dict i)) ids) (\<lambda>emails.
          Inr (dset ''subscribers'' (PList (map PStr emails)) sub))))
      else Inr sub)"

definition sub_subscriber_ids :: "pydict \<Rightarrow> pyerr + int list" where
  "sub_subscriber_ids sub =
     (if dhas sub ''subscribers'' then ebind (get_list sub ''subscribers'') (emap as_int) else Inr [])"

definition gather_subscriptions :: "send_env \<Rightarrow> user_profile \<Rightarrow> db \<Rightarrow> pyerr + pydict list \<times> pydict list" where
  "gather_subscriptions S u d =
     ebind (gather_subscriptions_helper S u True d) (\<lambda>(subscribed, unsubscribed, never_subscribed).
     ebind (emap sub_subscriber_ids (subscribed @ unsubscribed @ never_subscribed)) (\<lambda>idss.
     let email_dict = emails_from_ids (remdups (concat idss)) d in
     ebind (emap (sub_with_emails email_dict) subscribed) (\<lambda>subscribed.
     ebind (emap (sub_with_emails email_dict) unsubscribed) (\<lambda>unsubscribed.
       Inr (subscribed, unsubscribed)))))"

definition get_cross_realm_dicts :: "settings \<Rightarrow> db \<Rightarrow> pyerr + pydict list" where
  "get_cross_realm_dicts S d =
     emap (\<lambda>email. ebind (get_system_bot email d) (\<lambda>u.
       Inr [(''email'', PStr (u_email u)), (''user_id'', PInt (u_id u)), (''is_admin'', PBool (u_is_realm_admin u)),
            (''is_bot'', PBool (u_is_bot u)), (''full_name'', PStr (u_full_name u))])) (remdups (CROSS_REALM_BOT_EMAILS S))"

end
