(* ===== verification/Auth.thy ===== *)
theory Auth
  imports Settings RateLimiter
begin

text \<open>
  Requests and who makes them (\<open>zerver/decorator.py\<close>, \<open>zerver/lib/rest.py\<close>,
  \<open>zerver/lib/utils.py\<close>, \<open>zproject/backends.py\<close>): subdomains, clients, API keys, sessions, the
  decorators of views and the dispatch of REST requests.

  A request is the data the decorators read; what they write to the request object (the user, the
  name for the log, the client, the rate limits) are fields too. Views are arguments. Django's session
  and CSRF check, the parsing of a request body and the table of remote servers are parameters.
\<close>

section \<open>Requests, views and responses\<close>

record remote_server =
  rz_id :: int
  rz_uuid :: string
  rz_api_key :: string

datatype principal = Anonymous | User user_profile | Server remote_server

record http_request =
  hr_method :: string
  hr_path :: string
  hr_host :: string
  hr_get :: "(string \<times> string) list"
  hr_post :: "(string \<times> string) list"
  hr_meta :: "(string \<times> string) list"
  hr_tornado_handler :: bool
  hr_user :: principal
  hr_email :: "string option"
  hr_query :: "string option"
  hr_client :: "(int \<times> string) option"
  hr_over_limit :: "bool option"
  hr_secs_to_freedom :: "rat option"
  hr_remaining :: "int option"

datatype 'v response =
    FromView 'v
  | JsonError string int
  | Unauthorized string bool
  | MethodNotAllowed "string list"
  | Redirect string
  | CsrfFailure
  | Allowed "string list"

text \<open>What a view may change: the server and the rate limiter's store.\<close>

type_synonym ('r, 'v) web = "server \<times> 'r \<Rightarrow> (pyerr + 'v) \<times> (server \<times> 'r)"
type_synonym ('r, 'v) view = "http_request \<Rightarrow> principal \<Rightarrow> ('r, 'v response) web"

record 'r auth_env =
  ae_settings :: settings
  ae_redis :: "'r redis_ops"
  ae_rules :: "rule list"
  ae_others :: "('r \<Rightarrow> 'r) list"
  ZILENCER_ENABLED :: bool
  RUNNING_INSIDE_TORNADO :: bool
  RATE_LIMITING :: bool
  DEBUG_RATE_LIMITING :: bool
  SHARED_SECRET :: string
  HOME_NOT_LOGGED_IN :: string
  ROOT_SUBDOMAIN_ALIASES :: "string list"
  get_remote_server_by_uuid :: "string \<Rightarrow> pyerr + remote_server"
  csrf_ok :: "http_request \<Rightarrow> bool"
  login_redirect :: "http_request \<Rightarrow> string"
  body_params :: "http_request \<Rightarrow> (string \<times> string) list"

definition wraise :: "pyerr \<Rightarrow> ('r, 'a) web" where
  "wraise e = (\<lambda>w. (Inl e, w))"

definition wret :: "'a \<Rightarrow> ('r, 'a) web" where
  "wret x = (\<lambda>w. (Inr x, w))"

definition wbind :: "('r, 'a) web \<Rightarrow> ('a \<Rightarrow> ('r, 'b) web) \<Rightarrow> ('r, 'b) web" where
  "wbind m f = (\<lambda>w. case m w of (Inl e, w') \<Rightarrow> (Inl e, w') | (Inr x, w') \<Rightarrow> f x w')"

definition on_server :: "'a act \<Rightarrow> ('r, 'a) web" where
  "on_server m = (\<lambda>(s, r). case m s of (x, s') \<Rightarrow> (x, (s', r)))"

lemma web_simps [simp]:
  "wraise e w = (Inl e, w)" "wret x w = (Inr x, w)"
  by (simp_all add: wraise_def wret_def)

lemma wbind_Inr: "wbind m f w = (Inr y, w') \<longleftrightarrow> (\<exists>x t. m w = (Inr x, t) \<and> f x t = (Inr y, w'))"
  by (auto simp: wbind_def split: prod.splits sum.splits)

lemma wbind_apply:
  "m w = (Inr x, t) \<Longrightarrow> wbind m f w = f x t"
  "m w = (Inl e, t) \<Longrightarrow> wbind m f w = (Inl e, t)"
  by (simp_all add: wbind_def)

section \<open>Subdomains\<close>

fun find_sub :: "string \<Rightarrow> string \<Rightarrow> nat \<Rightarrow> nat option" where
  "find_sub pat [] i = (if pat = [] then Some i else None)"
| "find_sub pat (c # s) i = (if starts_with (c # s) pat then Some i else find_sub pat s (Suc i))"

definition extract_subdomain :: "'r auth_env \<Rightarrow> http_request \<Rightarrow> string" where
  "extract_subdomain E req =
     (let domain = str_lower (hr_host req) in
      case find_sub (''.'' @ EXTERNAL_HOST (ae_settings E)) domain 0 of None \<Rightarrow> [] | Some i \<Rightarrow> take i domain)"

definition get_subdomain :: "'r auth_env \<Rightarrow> http_request \<Rightarrow> string" where
  "get_subdomain E req =
     (let s = extract_subdomain E req in if s \<in> set (ROOT_SUBDOMAIN_ALIASES E) then [] else s)"

definition is_subdomain_root_or_alias :: "'r auth_env \<Rightarrow> http_request \<Rightarrow> bool" where
  "is_subdomain_root_or_alias E req =
     (let s = extract_subdomain E req in s = [] \<or> s \<in> set (ROOT_SUBDOMAIN_ALIASES E))"

definition check_subdomain :: "settings \<Rightarrow> string option \<Rightarrow> string option \<Rightarrow> bool" where
  "check_subdomain S realm_subdomain user_subdomain =
     (if REALMS_HAVE_SUBDOMAINS S \<and> realm_subdomain \<noteq> None
      then (if realm_subdomain = Some [] \<and> user_subdomain = None then True else realm_subdomain = user_subdomain)
      else True)"

definition is_remote_server :: "string \<Rightarrow> bool" where
  "is_remote_server identifier \<longleftrightarrow> CHR ''@'' \<notin> set identifier"

section \<open>Clients\<close>

text \<open>
  The regular expression of \<open>parse_user_agent\<close>. The first alternative of its two leading runs for which
  the rest matches gives the name; \<open>.\<close> matches no newline and \<open>$\<close> also matches before a last newline.
\<close>

definition at_end :: "string \<Rightarrow> bool" where
  "at_end s \<longleftrightarrow> s = [] \<or> s = [CHR 0x0A]"

definition dots_to_end :: "string \<Rightarrow> bool" where
  "dots_to_end s \<longleftrightarrow> at_end (dropWhile (\<lambda>c. c \<noteq> CHR 0x0A) s)"

definition rest_group :: "string \<Rightarrow> bool" where
  "rest_group s \<longleftrightarrow> at_end s \<or> (case s of [] \<Rightarrow> False | c # t \<Rightarrow> c \<in> {CHR '' '', CHR ''/''} \<and> dots_to_end t)"

definition name_chars :: "string \<Rightarrow> nat" where
  "name_chars s = length (takeWhile (\<lambda>c. c \<notin> {CHR ''/'', CHR '' ''}) s)"

definition agent_tail :: "string \<Rightarrow> bool" where
  "agent_tail s \<longleftrightarrow> rest_group s \<or>
     (case s of [] \<Rightarrow> False
      | c # t \<Rightarrow> c = CHR ''/'' \<and> list_ex (\<lambda>k. rest_group (drop k t)) [0..<Suc (name_chars t)])"

definition parse_user_agent :: "string \<Rightarrow> string option" where
  "parse_user_agent s =
     (let second = (\<lambda>i. length (takeWhile (\<lambda>c. c \<notin> set ''0123456789/('') (drop i s)));
          splits = concat (map (\<lambda>i. map (\<lambda>j. i + j) (rev [0..<Suc (second i)])) (rev [0..<Suc (name_chars s)]))
      in map_option (\<lambda>n. take n s) (db_first (\<lambda>n. agent_tail (drop n s)) splits))"

definition get_client_name :: "http_request \<Rightarrow> bool \<Rightarrow> string" where
  "get_client_name req is_json_view =
     (case map_of (hr_get req) ''client'' of Some c \<Rightarrow> c | None \<Rightarrow>
      (case map_of (hr_post req) ''client'' of Some c \<Rightarrow> c | None \<Rightarrow>
       (case (case map_of (hr_meta req) ''HTTP_USER_AGENT'' of Some a \<Rightarrow> parse_user_agent a | None \<Rightarrow> None) of
          Some name \<Rightarrow> if is_json_view \<and> name \<notin> {''ZulipDesktop'', ''ZulipElectron''} then ''website'' else name
        | None \<Rightarrow> if is_json_view then ''website'' else ''Unspecified'')))"

text \<open>\<open>Client.objects.get_or_create\<close>; the name has at most 30 characters in the database.\<close>

definition get_client_row :: "string \<Rightarrow> (int \<times> string) act" where
  "get_client_row name =
     (\<lambda>s. case db_first (\<lambda>c. snd c = name) (client_names (sv_db s)) of
        Some c \<Rightarrow> (Inr c, s)
      | None \<Rightarrow> if length name > 30 then (Inl (OtherError ''DataError''), s)
          else seq fresh_id (\<lambda>i. andthen (modify_db (\<lambda>d. d\<lparr>client_names := client_names d @ [(i, name)]\<rparr>)) (ret (i, name))) s)"

definition meta :: "http_request \<Rightarrow> string \<Rightarrow> pyerr + string" where
  "meta req k = the_some (KeyError k) (map_of (hr_meta req) k)"

definition update_user_activity :: "http_request \<Rightarrow> user_profile \<Rightarrow> unit act" where
  "update_user_activity req u =
     seq (query (\<lambda>_. meta req ''PATH_INFO'')) (\<lambda>path.
       if path = ''/json/users/me/presence'' then ret ()
       else
         seq timezone_now (\<lambda>now.
           queue_json_publish ''user_activity''
             [(''query'', PStr (case hr_query req of Some q \<Rightarrow> q | None \<Rightarrow> path)), (''user_profile_id'', PInt (u_id u)),
              (''time'', PInt (datetime_to_timestamp now)), (''client'', PStr (case hr_client req of Some c \<Rightarrow> snd c | None \<Rightarrow> []))]))"

definition process_client :: "http_request \<Rightarrow> principal \<Rightarrow> bool \<Rightarrow> string option \<Rightarrow> bool \<Rightarrow> http_request act" where
  "process_client req p is_json_view client_name remote_server_request =
     (let name = (case client_name of Some n \<Rightarrow> n | None \<Rightarrow> get_client_name req is_json_view);
          name = (if name = ''ios'' then ''ZulipiOS'' else name)
      in seq (get_client_row name) (\<lambda>c.
         let req = req\<lparr>hr_client := Some c\<rparr> in
         andthen (case p of User u \<Rightarrow> if remote_server_request then ret () else update_user_activity req u | _ \<Rightarrow> ret ())
           (ret req)))"

section \<open>Rate limits\<close>

definition is_local_addr :: "string \<Rightarrow> bool" where
  "is_local_addr addr \<longleftrightarrow> addr \<in> {''127.0.0.1'', ''::1''}"

definition client_is_exempt_from_rate_limiting :: "'r auth_env \<Rightarrow> http_request \<Rightarrow> pyerr + bool" where
  "client_is_exempt_from_rate_limiting E req =
     (if (case hr_client req of Some c \<Rightarrow> str_lower (snd c) = ''internal'' | None \<Rightarrow> False)
      then ebind (meta req ''REMOTE_ADDR'') (\<lambda>addr. Inr (is_local_addr addr \<or> DEBUG_RATE_LIMITING E))
      else Inr False)"

text \<open>A remote server has \<open>rate_limits\<close> set to the empty string for the request.\<close>

definition limited_as :: "principal \<Rightarrow> pyerr + rl_user" where
  "limited_as p =
     (case p of User u \<Rightarrow> Inr \<lparr>rl_id = u_id u, rate_limits = u_rate_limits u\<rparr>
      | Server z \<Rightarrow> Inr \<lparr>rl_id = rz_id z, rate_limits = []\<rparr>
      | Anonymous \<Rightarrow> Inl (OtherError ''AttributeError''))"

definition RateLimited :: pyerr where "RateLimited = OtherError ''RateLimited''"

definition rate_limit_user :: "'r auth_env \<Rightarrow> http_request \<Rightarrow> principal \<Rightarrow> string \<Rightarrow> ('r, http_request) web" where
  "rate_limit_user E req p domain = (\<lambda>(s, r).
     let now = sv_now s in
     case ebind (limited_as p) (\<lambda>user. ebind (is_ratelimited (ae_redis E) (ae_rules E) now user domain r) (\<lambda>x. Inr (user, x))) of
       Inl e \<Rightarrow> (Inl e, (s, r))
     | Inr (user, (ratelimited, time)) \<Rightarrow>
         if ratelimited then (Inl RateLimited, (s, r))
         else
           (case incr_ratelimit (ae_redis E) (ae_rules E) now user domain (ae_others E) r of
              Inl e \<Rightarrow> (Inl e, (s, r))
            | Inr r' \<Rightarrow>
                (case api_calls_left (ae_redis E) (ae_rules E) now user domain r' of
                   Inl e \<Rightarrow> (Inl e, (s, r'))
                 | Inr (calls_remaining, time_reset) \<Rightarrow>
                     (Inr (req\<lparr>hr_over_limit := Some False, hr_secs_to_freedom := Some time_reset,
                        hr_remaining := Some calls_remaining\<rparr>), (s, r')))))"

text \<open>The decorator \<open>rate_limit()\<close>; the user is the one of the request.\<close>

definition rate_limit :: "'r auth_env \<Rightarrow> ('r, 'v) view \<Rightarrow> ('r, 'v) view" where
  "rate_limit E func = (\<lambda>req p.
     if \<not> RATE_LIMITING E then func req p
     else
       case client_is_exempt_from_rate_limiting E req of
         Inl e \<Rightarrow> wraise e
       | Inr exempt \<Rightarrow>
           if exempt then func req p
           else wbind (rate_limit_user E req (hr_user req) ''all'') (\<lambda>req. func req p))"

section \<open>API keys\<close>

definition api_key_error :: "string \<Rightarrow> string \<Rightarrow> pyerr" where
  "api_key_error role api_key =
     JsonableError ((if length api_key \<noteq> 32 then ''Incorrect API key length (keys should be 32 characters long) for role ''
        else ''Invalid API key for role '') @ [CHR 0x27] @ role @ [CHR 0x27])"

definition log_wrong_subdomain :: "string \<Rightarrow> string \<Rightarrow> string \<Rightarrow> unit act" where
  "log_wrong_subdomain email what sub =
     log_line (''User '' @ email @ '' attempted to access '' @ what @ '' on wrong subdomain '' @ sub)"

definition from_here :: "http_request \<Rightarrow> pyerr + bool" where
  "from_here req =
     ebind (meta req ''SERVER_NAME'') (\<lambda>name.
     if name \<noteq> ''127.0.0.1'' then Inr False
     else ebind (meta req ''REMOTE_ADDR'') (\<lambda>addr. Inr (addr = ''127.0.0.1'')))"

text \<open>The checks of an account after its key was found right.\<close>

definition check_account :: "'r auth_env \<Rightarrow> http_request \<Rightarrow> user_profile \<Rightarrow> bool \<Rightarrow> principal act" where
  "check_account E req u is_webhook =
     (if \<not> u_is_active u then raise (JsonableError ''Account not active'')
      else if is_incoming_webhook u \<and> \<not> is_webhook then raise (JsonableError ''Account is not valid to post webhook messages'')
      else
        seq (query (the_realm (u_realm u))) (\<lambda>realm.
        if rm_deactivated realm then raise (JsonableError ''Realm for account has been deactivated'')
        else if check_subdomain (ae_settings E) (Some (get_subdomain E req)) (subdomain (ae_settings E) realm) then ret (User u)
        else
          seq (query (\<lambda>_. if RUNNING_INSIDE_TORNADO E then from_here req else Inr False)) (\<lambda>here.
          if here then ret (User u)
          else andthen (log_wrong_subdomain (u_email u) ''API'' (get_subdomain E req))
                 (raise (JsonableError ''Account is not associated with this subdomain'')))))"

text \<open>Without Zilencer the lookup of a server is a mock object, whose key equals no text.\<close>

definition validate_api_key :: "'r auth_env \<Rightarrow> http_request \<Rightarrow> string \<Rightarrow> string \<Rightarrow> bool \<Rightarrow> principal act" where
  "validate_api_key E req role api_key is_webhook =
     (let role = str_strip role; api_key = str_strip api_key in
      if \<not> is_remote_server role then
        seq (query (\<lambda>d. case get_user_profile_by_email role d of
               Inl (DoesNotExist _) \<Rightarrow> Inl (JsonableError (''Invalid user: '' @ role)) | x \<Rightarrow> x)) (\<lambda>u.
        if api_key \<noteq> u_api_key u then raise (api_key_error role api_key) else check_account E req u is_webhook)
      else if \<not> ZILENCER_ENABLED E then raise (api_key_error role api_key)
      else
        seq (query (\<lambda>_. case get_remote_server_by_uuid E role of
               Inl (DoesNotExist _) \<Rightarrow> Inl (JsonableError (''Invalid Zulip server: '' @ role)) | x \<Rightarrow> x)) (\<lambda>z.
        if api_key \<noteq> rz_api_key z then raise (api_key_error role api_key)
        else if \<not> check_subdomain (ae_settings E) (Some (get_subdomain E req)) (Some []) then
          raise (JsonableError ''This API key only works on the root subdomain'')
        else ret (Server z)))"

section \<open>Basic authentication\<close>

text \<open>\<open>s.split()\<close>\<close>

function split_ws :: "string \<Rightarrow> string list" where
  "split_ws s =
     (let t = dropWhile is_space s in
      if t = [] then [] else takeWhile (\<lambda>c. \<not> is_space c) t # split_ws (dropWhile (\<lambda>c. \<not> is_space c) t))"
  by pat_completeness auto
termination
proof (relation "measure length")
  fix s t :: string assume t: "t = dropWhile is_space s" "t \<noteq> []"
  then have "\<not> is_space (hd t)" using hd_dropWhile[of is_space s] by simp
  then have "length (dropWhile (\<lambda>c. \<not> is_space c) t) < length t"
    using t(2) length_dropWhile_le[of "\<lambda>c. \<not> is_space c" "tl t"] by (cases t) auto
  moreover have "length t \<le> length s" using t(1) length_dropWhile_le by simp
  ultimately show "(dropWhile (\<lambda>c. \<not> is_space c) t, s) \<in> measure length" by simp
qed simp

declare split_ws.simps [simp del]

text \<open>
  \<open>base64.b64decode\<close>: characters outside the alphabet are skipped, a pad in its place ends the data, and
  bits that are left over are an error.
\<close>

definition b64_value :: "char \<Rightarrow> nat option" where
  "b64_value c =
     (let al = b64_alphabet ''+/'' in if c \<in> set al then Some (length (takeWhile (\<lambda>x. x \<noteq> c) al)) else None)"

definition next_valid :: "string \<Rightarrow> char option" where
  "next_valid s = db_first (\<lambda>c. c = CHR ''='' \<or> b64_value c \<noteq> None) s"

fun b64decode_loop :: "nat \<Rightarrow> nat \<Rightarrow> nat \<Rightarrow> string \<Rightarrow> pyerr + string" where
  "b64decode_loop quad_pos leftchar leftbits [] = (if leftbits \<noteq> 0 then Inl (ValueError ''Incorrect padding'') else Inr [])"
| "b64decode_loop quad_pos leftchar leftbits (c # s) =
     (if c = CHR ''='' then
        if quad_pos < 2 \<or> (quad_pos = 2 \<and> next_valid s \<noteq> Some (CHR ''='')) then b64decode_loop quad_pos leftchar leftbits s
        else Inr []
      else
        case b64_value c of
          None \<Rightarrow> b64decode_loop quad_pos leftchar leftbits s
        | Some v \<Rightarrow>
            let acc = leftchar * 64 + v; bits = leftbits + 6; quad_pos = (quad_pos + 1) mod 4 in
            if bits \<ge> 8 then
              ebind (b64decode_loop quad_pos (acc mod 2 ^ (bits - 8)) (bits - 8) s) (\<lambda>out.
                Inr (char_of (acc div 2 ^ (bits - 8) mod 256) # out))
            else b64decode_loop quad_pos acc bits s)"

definition b64decode :: "string \<Rightarrow> pyerr + string" where
  "b64decode s = b64decode_loop 0 0 0 s"

text \<open>Whether bytes are valid UTF-8; such a text keeps its bytes here.\<close>

definition between :: "nat \<Rightarrow> char \<Rightarrow> nat \<Rightarrow> bool" where
  "between lo c hi \<longleftrightarrow> lo \<le> of_char c \<and> of_char c \<le> hi"

fun utf8_ok :: "string \<Rightarrow> bool" where
  "utf8_ok [] = True"
| "utf8_ok (a # s) =
     (if between 0 a 127 then utf8_ok s
      else if between 194 a 223 then (case s of b # t \<Rightarrow> between 128 b 191 \<and> utf8_ok t | [] \<Rightarrow> False)
      else if between 224 a 239 then
        (case s of b # c # t \<Rightarrow>
           between (if of_char a = (224 :: nat) then 160 else 128) b (if of_char a = (237 :: nat) then 159 else 191) \<and>
           between 128 c 191 \<and> utf8_ok t
         | _ \<Rightarrow> False)
      else if between 240 a 244 then
        (case s of b # c # d # t \<Rightarrow>
           between (if of_char a = (240 :: nat) then 144 else 128) b (if of_char a = (244 :: nat) then 143 else 191) \<and>
           between 128 c 191 \<and> between 128 d 191 \<and> utf8_ok t
         | _ \<Rightarrow> False)
      else False)"

definition utf8_decode :: "string \<Rightarrow> pyerr + string" where
  "utf8_decode s = (if utf8_ok s then Inr s else Inl (ValueError ''UnicodeDecodeError''))"

text \<open>The first \<open>try\<close> block: the credentials, or the message of the error and whether it asks for them.\<close>

definition basic_credentials :: "http_request \<Rightarrow> string \<times> bool + string \<times> string" where
  "basic_credentials req =
     (let invalid = (''Invalid authorization header for basic auth'', True) in
      case map_of (hr_meta req) ''HTTP_AUTHORIZATION'' of
        None \<Rightarrow> Inl (''Missing authorization header for basic auth'', True)
      | Some header \<Rightarrow>
          (case split_ws header of
             [auth_type, credentials] \<Rightarrow>
               if str_lower auth_type \<noteq> ''basic'' then Inl (''This endpoint requires HTTP basic authentication.'', False)
               else (case ebind (b64decode credentials) utf8_decode of
                       Inr text \<Rightarrow> (case str_split (CHR '':'') text of [role, api_key] \<Rightarrow> Inr (role, api_key) | _ \<Rightarrow> Inl invalid)
                     | Inl _ \<Rightarrow> Inl invalid)
           | _ \<Rightarrow> Inl invalid))"

section \<open>Decorators\<close>

definition require_post :: "(http_request \<Rightarrow> ('r, 'v response) web) \<Rightarrow> http_request \<Rightarrow> ('r, 'v response) web" where
  "require_post func = (\<lambda>req.
     case (if hr_method req \<noteq> ''POST'' \<and> hr_method req = ''SOCKET''
           then ebind (meta req ''zulip.emulated_method'') (\<lambda>m. Inr (m = ''POST'', ''SOCKET/'' @ m))
           else Inr (hr_method req = ''POST'', hr_method req)) of
       Inl e \<Rightarrow> wraise e
     | Inr (ok, err_method) \<Rightarrow>
         if ok then func req
         else wbind (on_server (log_line (''Method Not Allowed ('' @ err_method @ ''): '' @ hr_path req)))
                (\<lambda>_. wret (MethodNotAllowed [''POST''])))"

definition require_realm_admin :: "('r, 'v) view \<Rightarrow> ('r, 'v) view" where
  "require_realm_admin func = (\<lambda>req p.
     case p of User u \<Rightarrow> if u_is_realm_admin u then func req p else wraise (JsonableError ''Must be a realm administrator'')
     | _ \<Rightarrow> wraise (OtherError ''AttributeError''))"

definition human_users_only :: "('r, 'v) view \<Rightarrow> ('r, 'v) view" where
  "human_users_only func = (\<lambda>req p.
     case hr_user req of
       User u \<Rightarrow> if u_is_bot u then wret (JsonError ''This endpoint does not accept bot requests.'' 400) else func req p
     | _ \<Rightarrow> wraise (OtherError ''AttributeError''))"

definition logged_in_and_active :: "'r auth_env \<Rightarrow> http_request \<Rightarrow> db \<Rightarrow> pyerr + bool" where
  "logged_in_and_active E req d =
     (case hr_user req of
        User u \<Rightarrow>
          if \<not> u_is_active u then Inr False
          else ebind (the_realm (u_realm u) d) (\<lambda>realm.
            if rm_deactivated realm then Inr False
            else Inr (check_subdomain (ae_settings E) (Some (get_subdomain E req)) (subdomain (ae_settings E) realm)))
      | _ \<Rightarrow> Inr False)"

definition add_logging_data :: "'r auth_env \<Rightarrow> string \<Rightarrow> ('r, 'v) view \<Rightarrow> http_request \<Rightarrow> ('r, 'v response) web" where
  "add_logging_data E name view = (\<lambda>req.
     case hr_user req of
       User u \<Rightarrow>
         let req = req\<lparr>hr_email := Some (u_email u), hr_query := Some name\<rparr> in
         wbind (on_server (process_client req (User u) True None False)) (\<lambda>req. rate_limit E view req (User u))
     | _ \<Rightarrow> wraise (OtherError ''AttributeError''))"

definition user_passes_test :: "'r auth_env \<Rightarrow> (http_request \<Rightarrow> ('r, 'v response) web) \<Rightarrow> http_request \<Rightarrow> ('r, 'v response) web" where
  "user_passes_test E view = (\<lambda>req.
     wbind (on_server (query (logged_in_and_active E req))) (\<lambda>ok.
       if ok then view req else wret (Redirect (login_redirect E req))))"

definition zulip_login_required :: "'r auth_env \<Rightarrow> string \<Rightarrow> ('r, 'v) view \<Rightarrow> http_request \<Rightarrow> ('r, 'v response) web" where
  "zulip_login_required E name view = user_passes_test E (add_logging_data E name view)"

definition require_server_admin :: "'r auth_env \<Rightarrow> string \<Rightarrow> ('r, 'v) view \<Rightarrow> http_request \<Rightarrow> ('r, 'v response) web" where
  "require_server_admin E name view =
     zulip_login_required E name (\<lambda>req p.
       case hr_user req of
         User u \<Rightarrow> if \<not> u_is_staff u then wret (Redirect (HOME_NOT_LOGGED_IN E))
           else add_logging_data E name view (req\<lparr>hr_query := Some name\<rparr>)
       | _ \<Rightarrow> wraise (OtherError ''AttributeError''))"

definition authenticate_notify :: "'r auth_env \<Rightarrow> http_request \<Rightarrow> pyerr + bool" where
  "authenticate_notify E req =
     ebind (meta req ''REMOTE_ADDR'') (\<lambda>addr.
       Inr (is_local_addr addr \<and> map_of (hr_post req) ''secret'' = Some (SHARED_SECRET E)))"

definition internal_notify_view :: "'r auth_env \<Rightarrow> bool \<Rightarrow> (http_request \<Rightarrow> ('r, 'v response) web) \<Rightarrow> http_request \<Rightarrow> ('r, 'v response) web" where
  "internal_notify_view E is_tornado_view view =
     require_post (\<lambda>req.
       case authenticate_notify E req of
         Inl e \<Rightarrow> wraise e
       | Inr False \<Rightarrow> wret (JsonError ''Access denied'' 403)
       | Inr True \<Rightarrow>
           if is_tornado_view \<and> \<not> hr_tornado_handler req then wraise (OtherError ''RuntimeError'')
           else if \<not> is_tornado_view \<and> hr_tornado_handler req then wraise (OtherError ''RuntimeError'')
           else view (req\<lparr>hr_email := Some ''internal''\<rparr>))"

definition process_as_post :: "'r auth_env \<Rightarrow> http_request \<Rightarrow> http_request" where
  "process_as_post E req = (if hr_post req = [] then req\<lparr>hr_post := body_params E req\<rparr> else req)"

section \<open>Views with authentication\<close>

text \<open>The session of a logged in user.\<close>

definition check_session :: "'r auth_env \<Rightarrow> http_request \<Rightarrow> user_profile \<Rightarrow> unit act" where
  "check_session E req u =
     (if \<not> u_is_active u then raise (JsonableError ''Account not active'')
      else
        seq (query (the_realm (u_realm u))) (\<lambda>realm.
        if rm_deactivated realm then raise (JsonableError ''Realm for account has been deactivated'')
        else if is_incoming_webhook u then raise (JsonableError ''Webhook bots can only access webhooks'')
        else if check_subdomain (ae_settings E) (Some (get_subdomain E req)) (subdomain (ae_settings E) realm) then ret ()
        else
          seq (query (\<lambda>_. if hr_method req = ''SOCKET'' then ebind (meta req ''SERVER_NAME'') (\<lambda>n. Inr (n = ''127.0.0.1'')) else Inr False)) (\<lambda>socket.
          if socket then ret ()
          else andthen (log_wrong_subdomain (u_email u) ''JSON API'' (get_subdomain E req))
                 (raise (JsonableError ''Account is not associated with this subdomain'')))))"

definition authenticate_log_and_execute_json :: "'r auth_env \<Rightarrow> ('r, 'v) view \<Rightarrow> http_request \<Rightarrow> ('r, 'v response) web" where
  "authenticate_log_and_execute_json E view = (\<lambda>req.
     case hr_user req of
       Anonymous \<Rightarrow> wret (JsonError ''Not logged in'' 401)
     | Server z \<Rightarrow> wraise (OtherError ''AttributeError'')
     | User u \<Rightarrow>
         wbind (on_server (check_session E req u)) (\<lambda>_.
         wbind (on_server (process_client req (User u) True None False)) (\<lambda>req.
           rate_limit E view (req\<lparr>hr_email := Some (u_email u)\<rparr>) (User u))))"

definition authenticated_json_post_view :: "'r auth_env \<Rightarrow> ('r, 'v) view \<Rightarrow> http_request \<Rightarrow> ('r, 'v response) web" where
  "authenticated_json_post_view E view = require_post (authenticate_log_and_execute_json E view)"

definition authenticated_json_view :: "'r auth_env \<Rightarrow> ('r, 'v) view \<Rightarrow> http_request \<Rightarrow> ('r, 'v response) web" where
  "authenticated_json_view E view = authenticate_log_and_execute_json E view"

text \<open>The request variables of \<open>authenticated_api_view\<close> are its arguments.\<close>

definition authenticated_api_view ::
  "'r auth_env \<Rightarrow> bool \<Rightarrow> string \<Rightarrow> string option \<Rightarrow> string option \<Rightarrow> ('r, 'v) view \<Rightarrow> http_request \<Rightarrow> ('r, 'v response) web" where
  "authenticated_api_view E is_webhook email api_key api_key_legacy view =
     require_post (\<lambda>req.
       case (if api_key = None then api_key_legacy else api_key) of
         None \<Rightarrow> wraise (JsonableError ''Missing 'api_key' argument'')
       | Some key \<Rightarrow>
           wbind (on_server (validate_api_key E req email key is_webhook)) (\<lambda>p.
           let req = req\<lparr>hr_user := p\<rparr> in
           case p of
             User u \<Rightarrow>
               wbind (on_server (process_client (req\<lparr>hr_email := Some (u_email u)\<rparr>) p False None False)) (\<lambda>req.
                 rate_limit E view req p)
           | _ \<Rightarrow> wraise (OtherError ''AttributeError'')))"

definition authenticated_rest_api_view :: "'r auth_env \<Rightarrow> bool \<Rightarrow> ('r, 'v) view \<Rightarrow> http_request \<Rightarrow> ('r, 'v response) web" where
  "authenticated_rest_api_view E is_webhook view = (\<lambda>req.
     case basic_credentials req of
       Inl (msg, asks) \<Rightarrow> wret (if asks then Unauthorized msg False else JsonError msg 400)
     | Inr (role, api_key) \<Rightarrow>
         (\<lambda>w. case on_server (validate_api_key E req role api_key is_webhook) w of
            (Inl (JsonableError m), w') \<Rightarrow> (Inr (Unauthorized m False), w')
          | (Inl e, w') \<Rightarrow> (Inl e, w')
          | (Inr p, w') \<Rightarrow>
              let req = req\<lparr>hr_user := p\<rparr> in
              (case p of
                 Server z \<Rightarrow>
                   if is_remote_server role then
                     wbind (on_server (process_client (req\<lparr>hr_email := Some (''zulip-server:'' @ role)\<rparr>) p False None True))
                       (\<lambda>req. rate_limit E view req p)
                   else wraise (AssertionError [])
               | User u \<Rightarrow>
                   if is_remote_server role then wraise (AssertionError [])
                   else wbind (on_server (process_client (req\<lparr>hr_email := Some (u_email u)\<rparr>) p False None False))
                          (\<lambda>req. rate_limit E view req p)
               | Anonymous \<Rightarrow> wraise (AssertionError [])) w'))"

text \<open>The log of failed webhook views is left out.\<close>

definition api_key_only_webhook_view :: "'r auth_env \<Rightarrow> string \<Rightarrow> string \<Rightarrow> ('r, 'v) view \<Rightarrow> http_request \<Rightarrow> ('r, 'v response) web" where
  "api_key_only_webhook_view E client_name api_key view = (\<lambda>req.
     wbind (on_server (query (\<lambda>d. case db_get ''UserProfile'' (\<lambda>u. u_api_key u = api_key) (users d) of
         Inl (DoesNotExist _) \<Rightarrow> Inl (JsonableError ''Invalid API key'') | x \<Rightarrow> x))) (\<lambda>u.
     if \<not> u_is_active u then wraise (JsonableError ''Account not active'')
     else
       wbind (on_server (query (the_realm (u_realm u)))) (\<lambda>realm.
       if rm_deactivated realm then wraise (JsonableError ''Realm for account has been deactivated'')
       else if \<not> check_subdomain (ae_settings E) (Some (get_subdomain E req)) (subdomain (ae_settings E) realm) then
         wbind (on_server (log_wrong_subdomain (u_email u) ''webhook API'' (get_subdomain E req)))
           (\<lambda>_. wraise (JsonableError ''Account is not associated with this subdomain''))
       else
         let req = req\<lparr>hr_user := User u, hr_email := Some (u_email u)\<rparr> in
         wbind (on_server (process_client req (User u) False (Some (''Zulip'' @ client_name @ ''Webhook'')) False)) (\<lambda>req.
         wbind (if RATE_LIMITING E then rate_limit_user E req (User u) ''all'' else wret req) (\<lambda>req.
           view req (User u))))))"

section \<open>Dispatch\<close>

text \<open>
  A route gives for a method the name of its function, whether it has the flag
  \<open>override_api_url_scheme\<close>, and the view.
\<close>

type_synonym ('r, 'v) route = "string \<times> string \<times> bool \<times> ('r, 'v) view"

definition method_to_use :: "http_request \<Rightarrow> string" where
  "method_to_use req =
     (let m = (case map_of (hr_post req) ''method'' of Some m \<Rightarrow> m | None \<Rightarrow> hr_method req) in
      if m = ''SOCKET'' then (case map_of (hr_meta req) ''zulip.emulated_method'' of Some m' \<Rightarrow> m' | None \<Rightarrow> m) else m)"

definition csrf_protect :: "'r auth_env \<Rightarrow> (http_request \<Rightarrow> ('r, 'v response) web) \<Rightarrow> http_request \<Rightarrow> ('r, 'v response) web" where
  "csrf_protect E func = (\<lambda>req. if csrf_ok E req then func req else wret CsrfFailure)"

text \<open>What the dispatcher runs: a view behind one of the authentications, or the answer that asks for one.\<close>

definition guarded :: "'r auth_env \<Rightarrow> bool \<Rightarrow> ('r, 'v) view \<Rightarrow> http_request \<Rightarrow> (http_request \<Rightarrow> ('r, 'v response) web) + 'v response" where
  "guarded E override_api_url_scheme view req =
     (let header = map_of (hr_meta req) ''HTTP_AUTHORIZATION'' in
      if override_api_url_scheme \<and> header \<noteq> None then Inl (authenticated_rest_api_view E False view)
      else if \<not> starts_with (hr_path req) ''/api'' \<and> hr_user req \<noteq> Anonymous then Inl (csrf_protect E (authenticated_json_view E view))
      else if header \<notin> {None, Some []} then Inl (authenticated_rest_api_view E False view)
      else if str_contains (case map_of (hr_meta req) ''HTTP_ACCEPT'' of Some a \<Rightarrow> a | None \<Rightarrow> []) ''text/html'' then
        Inr (Redirect (HOME_NOT_LOGGED_IN E @ ''/?next='' @ hr_path req))
      else Inr (Unauthorized ''Not logged in: API authentication or user session required'' (\<not> starts_with (hr_path req) ''/api'')))"

definition rest_dispatch :: "'r auth_env \<Rightarrow> ('r, 'v) route list \<Rightarrow> http_request \<Rightarrow> ('r, 'v response) web" where
  "rest_dispatch E routes req =
     (if hr_method req = ''OPTIONS'' then wret (Allowed (map fst routes))
      else
        case map_of routes (method_to_use req) of
          None \<Rightarrow> wret (MethodNotAllowed (map fst routes))
        | Some (name, override_api_url_scheme, view) \<Rightarrow>
            let req = req\<lparr>hr_query := Some name\<rparr> in
            (case guarded E override_api_url_scheme view req of
               Inr answer \<Rightarrow> wret answer
             | Inl target \<Rightarrow> target (if hr_method req \<notin> {''GET'', ''POST''} then process_as_post E req else req)))"

end
