(* ===== verification/AuthBackends.thy ===== *)
theory AuthBackends
  imports Auth
begin

text \<open>
  Logging in (\<open>zproject/backends.py\<close>): the authentication backends, each as its \<open>authenticate\<close> with the
  dictionary \<open>return_data\<close> it fills, and the one-time pad that hides an API key on its way to the mobile
  app (\<open>zerver/lib/mobile_auth_otp.py\<close>). Django's check of a password, Google's check of a token and the
  LDAP library are parameters.
\<close>

section \<open>Which methods are enabled\<close>

record token_payload =
  tp_email_verified :: bool
  tp_email :: string

record ldap_user =
  ldap_full_name :: string
  ldap_short_name :: "string option"

record login_env =
  le_settings :: settings_env
  check_password_hash :: "string \<Rightarrow> string \<Rightarrow> bool"
  verify_id_token :: "string \<Rightarrow> token_payload option"
  LDAP_APPEND_DOMAIN :: "string option"
  ldap_bind :: "string \<Rightarrow> string \<Rightarrow> ldap_user option"

abbreviation le_config :: "login_env \<Rightarrow> settings" where
  "le_config L \<equiv> se_settings (ue_send (sg_users (le_settings L)))"

definition AUTH_BACKEND_NAMES :: "string list" where
  "AUTH_BACKEND_NAMES = [''Dev'', ''Email'', ''GitHub'', ''Google'', ''LDAP'', ''RemoteUser'']"

definition pad_method_dict :: "pydict \<Rightarrow> pydict" where
  "pad_method_dict d = d @ map (\<lambda>k. (k, PBool False)) (filter (\<lambda>k. \<not> dhas d k) AUTH_BACKEND_NAMES)"

definition auth_enabled_helper :: "settings_env \<Rightarrow> string list \<Rightarrow> realm option \<Rightarrow> bool" where
  "auth_enabled_helper E backends_to_check realm =
     (let enabled = pad_method_dict (case realm of Some r \<Rightarrow> authentication_methods_dict E r
            | None \<Rightarrow> map (\<lambda>k. (k, PBool True)) AUTHENTICATION_FLAGS)
      in list_ex (\<lambda>name. map_of enabled name = Some (PBool True) \<and> supported_backend E name) backends_to_check)"

definition ldap_auth_enabled :: "settings_env \<Rightarrow> realm option \<Rightarrow> bool" where
  "ldap_auth_enabled E realm = auth_enabled_helper E [''LDAP''] realm"

definition email_auth_enabled :: "settings_env \<Rightarrow> realm option \<Rightarrow> bool" where
  "email_auth_enabled E realm = auth_enabled_helper E [''Email''] realm"

definition password_auth_enabled :: "settings_env \<Rightarrow> realm option \<Rightarrow> bool" where
  "password_auth_enabled E realm \<longleftrightarrow> ldap_auth_enabled E realm \<or> email_auth_enabled E realm"

definition dev_auth_enabled :: "settings_env \<Rightarrow> realm option \<Rightarrow> bool" where
  "dev_auth_enabled E realm = auth_enabled_helper E [''Dev''] realm"

definition google_auth_enabled :: "settings_env \<Rightarrow> realm option \<Rightarrow> bool" where
  "google_auth_enabled E realm = auth_enabled_helper E [''Google''] realm"

definition github_auth_enabled :: "settings_env \<Rightarrow> realm option \<Rightarrow> bool" where
  "github_auth_enabled E realm = auth_enabled_helper E [''GitHub''] realm"

definition any_oauth_backend_enabled :: "settings_env \<Rightarrow> realm option \<Rightarrow> bool" where
  "any_oauth_backend_enabled E realm = auth_enabled_helper E [''GitHub'', ''Google''] realm"

section \<open>Backends\<close>

text \<open>The user, if any, and the keys set in \<open>return_data\<close>; only Google sets one to false.\<close>

type_synonym login_result = "user_profile option \<times> (string \<times> bool) list"

definition no_login :: "string list \<Rightarrow> login_result" where
  "no_login ks = (None, map (\<lambda>k. (k, True)) ks)"

definition user_or_none :: "string \<Rightarrow> db \<Rightarrow> pyerr + user_profile option" where
  "user_or_none email d =
     (case get_user_profile_by_email email d of Inr u \<Rightarrow> Inr (Some u) | Inl (DoesNotExist _) \<Rightarrow> Inr None | Inl e \<Rightarrow> Inl e)"

definition common_get_active_user_by_email :: "string \<Rightarrow> db \<Rightarrow> pyerr + login_result" where
  "common_get_active_user_by_email email d =
     ebind (user_or_none email d) (\<lambda>found.
       case found of
         None \<Rightarrow> Inr (no_login [])
       | Some u \<Rightarrow>
           if \<not> u_is_active u then Inr (no_login [''inactive_user''])
           else ebind (the_realm (u_realm u) d) (\<lambda>r.
             if rm_deactivated r then Inr (no_login [''inactive_realm'']) else Inr (Some u, [])))"

text \<open>The checks that \<open>SocialAuthMixin\<close> and the Google backend make on the user of a verified address.\<close>

definition attested_user :: "login_env \<Rightarrow> string \<Rightarrow> string option \<Rightarrow> (realm \<Rightarrow> bool) \<Rightarrow> string \<Rightarrow> db \<Rightarrow> pyerr + login_result" where
  "attested_user L email realm_subdomain enabled disabled_key d =
     ebind (user_or_none email d) (\<lambda>found.
       case found of
         None \<Rightarrow> Inr (no_login [''valid_attestation''])
       | Some u \<Rightarrow>
           if \<not> u_is_active u then Inr (no_login [''inactive_user''])
           else ebind (the_realm (u_realm u) d) (\<lambda>r.
             if rm_deactivated r then Inr (no_login [''inactive_realm''])
             else if \<not> check_subdomain (le_config L) realm_subdomain (subdomain (le_config L) r) then Inr (no_login [''invalid_subdomain''])
             else if \<not> enabled r then Inr (no_login [disabled_key])
             else Inr (Some u, [])))"

text \<open>\<open>_common_authenticate\<close>; the address is that of the provider's response.\<close>

definition social_authenticate :: "login_env \<Rightarrow> string \<Rightarrow> string option \<Rightarrow> string option \<Rightarrow> db \<Rightarrow> pyerr + login_result" where
  "social_authenticate L auth_backend_name email_address realm_subdomain d =
     (case email_address of
        None \<Rightarrow> Inr (no_login [''invalid_email''])
      | Some email \<Rightarrow>
          if email = [] then Inr (no_login [''invalid_email''])
          else attested_user L email realm_subdomain (\<lambda>r. auth_enabled_helper (le_settings L) [auth_backend_name] (Some r))
                 ''auth_backend_disabled'' d)"

definition google_authenticate :: "login_env \<Rightarrow> string \<Rightarrow> string option \<Rightarrow> db \<Rightarrow> pyerr + login_result" where
  "google_authenticate L google_oauth2_token realm_subdomain d =
     (case verify_id_token L google_oauth2_token of
        None \<Rightarrow> Inr (no_login [])
      | Some payload \<Rightarrow>
          if tp_email_verified payload
          then attested_user L (tp_email payload) realm_subdomain (\<lambda>r. google_auth_enabled (le_settings L) (Some r)) ''google_auth_disabled'' d
          else Inr (None, [(''valid_attestation'', False)]))"

definition dummy_authenticate :: "login_env \<Rightarrow> string \<Rightarrow> string option \<Rightarrow> bool \<Rightarrow> db \<Rightarrow> pyerr + login_result" where
  "dummy_authenticate L username realm_subdomain use_dummy_backend d =
     (if \<not> use_dummy_backend then Inr (no_login [])
      else
        ebind (common_get_active_user_by_email username d) (\<lambda>(found, _).
        case found of
          None \<Rightarrow> Inr (no_login [])
        | Some u \<Rightarrow>
            ebind (the_realm (u_realm u) d) (\<lambda>r.
              if \<not> check_subdomain (le_config L) realm_subdomain (subdomain (le_config L) r) then Inr (no_login [''invalid_subdomain''])
              else Inr (Some u, []))))"

definition check_password :: "login_env \<Rightarrow> user_profile \<Rightarrow> string \<Rightarrow> db \<Rightarrow> bool" where
  "check_password L u password d =
     (case map_of (passwords d) (u_id u) of Some hash \<Rightarrow> check_password_hash L hash password | None \<Rightarrow> False)"

definition email_authenticate :: "login_env \<Rightarrow> string option \<Rightarrow> string option \<Rightarrow> string option \<Rightarrow> db \<Rightarrow> pyerr + login_result" where
  "email_authenticate L username password realm_subdomain d =
     (case (username, password) of
        (Some name, Some pw) \<Rightarrow>
          ebind (common_get_active_user_by_email name d) (\<lambda>(found, data1).
          case found of
            None \<Rightarrow> Inr (None, data1)
          | Some u \<Rightarrow>
              ebind (the_realm (u_realm u) d) (\<lambda>r.
                if \<not> password_auth_enabled (le_settings L) (Some r) then Inr (no_login [''password_auth_disabled''])
                else if \<not> email_auth_enabled (le_settings L) (Some r) then Inr (no_login [''email_auth_disabled''])
                else if \<not> check_password L u pw d then Inr (no_login [])
                else if \<not> check_subdomain (le_config L) realm_subdomain (subdomain (le_config L) r) then Inr (no_login [''invalid_subdomain''])
                else Inr (Some u, [])))
      | _ \<Rightarrow> Inr (no_login []))"

definition remote_user_authenticate :: "login_env \<Rightarrow> string option \<Rightarrow> string option \<Rightarrow> db \<Rightarrow> pyerr + login_result" where
  "remote_user_authenticate L remote_user realm_subdomain d =
     (case remote_user of
        None \<Rightarrow> Inr (no_login [])
      | Some name \<Rightarrow>
          if name = [] then Inr (no_login [])
          else
            ebind (common_get_active_user_by_email (remote_user_to_email (le_config L) name) d) (\<lambda>(found, _).
            case found of
              None \<Rightarrow> Inr (no_login [])
            | Some u \<Rightarrow>
                ebind (the_realm (u_realm u) d) (\<lambda>r.
                  if \<not> check_subdomain (le_config L) realm_subdomain (subdomain (le_config L) r) then Inr (no_login [])
                  else if \<not> auth_enabled_helper (le_settings L) [''RemoteUser''] (Some r) then Inr (no_login [])
                  else Inr (Some u, []))))"

definition dev_authenticate :: "login_env \<Rightarrow> string \<Rightarrow> db \<Rightarrow> pyerr + login_result" where
  "dev_authenticate L username d =
     ebind (common_get_active_user_by_email username d) (\<lambda>(found, data1).
       case found of
         None \<Rightarrow> Inr (None, data1)
       | Some u \<Rightarrow>
           ebind (the_realm (u_realm u) d) (\<lambda>r.
             if \<not> dev_auth_enabled (le_settings L) (Some r) then Inr (no_login []) else Inr (Some u, [])))"

section \<open>Names of users\<close>

definition NAME_INVALID_CHARS :: string where
  "NAME_INVALID_CHARS = ''*`>\"@''"

definition check_full_name :: "string \<Rightarrow> pyerr + string" where
  "check_full_name full_name_raw =
     (let full_name = str_strip full_name_raw in
      if length full_name > 100 then Inl (JsonableError ''Name too long!'')
      else if length full_name < 3 then Inl (JsonableError ''Name too short!'')
      else if set full_name \<inter> set NAME_INVALID_CHARS \<noteq> {} then Inl (JsonableError ''Invalid characters in name!'')
      else Inr full_name)"

definition check_short_name :: "string \<Rightarrow> pyerr + string" where
  "check_short_name short_name_raw =
     (let short_name = str_strip short_name_raw in
      if short_name = [] then Inl (JsonableError ''Bad name or username'') else Inr short_name)"

definition check_change_full_name :: "user_profile \<Rightarrow> string \<Rightarrow> user_profile \<Rightarrow> string act" where
  "check_change_full_name u full_name_raw acting_user =
     seq (query (\<lambda>_. check_full_name full_name_raw)) (\<lambda>new_full_name.
       andthen (do_change_full_name u new_full_name acting_user) (ret new_full_name))"

section \<open>LDAP\<close>

definition ZulipLDAPException :: pyerr where "ZulipLDAPException = OtherError ''ZulipLDAPException''"

definition django_to_ldap_username :: "login_env \<Rightarrow> string \<Rightarrow> pyerr + string" where
  "django_to_ldap_username L username =
     (case LDAP_APPEND_DOMAIN L of
        None \<Rightarrow> Inr username
      | Some dmn \<Rightarrow>
          if dmn = [] then Inr username
          else if \<not> ends_with username (''@'' @ dmn) then Inl ZulipLDAPException
          else Inr (email_to_username username))"

definition ldap_to_django_username :: "login_env \<Rightarrow> string \<Rightarrow> string" where
  "ldap_to_django_username L username =
     (case LDAP_APPEND_DOMAIN L of None \<Rightarrow> username | Some dmn \<Rightarrow> if dmn = [] then username else username @ ''@'' @ dmn)"

definition ldap_new_user :: "string \<Rightarrow> int \<Rightarrow> string \<Rightarrow> string \<Rightarrow> new_user" where
  "ldap_new_user email realm_id full_name short_name =
     \<lparr>nu_email = email, nu_password = None, nu_realm = realm_id, nu_full_name = full_name, nu_short_name = short_name,
      nu_active = True, nu_bot_type = None, nu_bot_owner = None, nu_tos_version = None, nu_timezone = [],
      nu_avatar_source = ''G'', nu_is_mirror_dummy = False, nu_default_sending_stream = None,
      nu_default_events_register_stream = None, nu_default_all_public_streams = None, nu_user_profile_id = None\<rparr>"

text \<open>The user and whether it was made; the realm is the one \<open>authenticate\<close> found.\<close>

definition get_or_create_user :: "login_env \<Rightarrow> realm option \<Rightarrow> string \<Rightarrow> ldap_user \<Rightarrow> (user_profile \<times> bool) act" where
  "get_or_create_user L realm username entry =
     seq (query (user_or_none username)) (\<lambda>found.
     case found of
       Some u \<Rightarrow>
         seq (query (the_realm (u_realm u))) (\<lambda>r.
         if \<not> u_is_active u \<or> rm_deactivated r then raise ZulipLDAPException
         else if \<not> ldap_auth_enabled (le_settings L) (Some r) then raise ZulipLDAPException
         else ret (u, False))
     | None \<Rightarrow>
         (case realm of
            None \<Rightarrow> raise ZulipLDAPException
          | Some r \<Rightarrow>
              if rm_deactivated r then raise ZulipLDAPException
              else
                (case check_full_name (ldap_full_name entry) of
                   Inl _ \<Rightarrow> raise ZulipLDAPException
                 | Inr full_name \<Rightarrow>
                     seq (do_create_user (sg_users (le_settings L))
                            (ldap_new_user username (rm_id r) full_name
                               (case ldap_short_name entry of Some n \<Rightarrow> n | None \<Rightarrow> ldap_full_name entry)) None None) (\<lambda>u.
                       ret (u, True)))))"

definition ldap_realm :: "login_env \<Rightarrow> string \<Rightarrow> string option \<Rightarrow> db \<Rightarrow> pyerr + realm option" where
  "ldap_realm L username realm_subdomain d =
     (if REALMS_HAVE_SUBDOMAINS (le_config L)
      then Inr (case realm_subdomain of None \<Rightarrow> None | Some sub \<Rightarrow> get_realm sub d)
      else ebind (get_realm_by_email_domain (le_config L) username d) (\<lambda>found.
        case found of None \<Rightarrow> Inr None | Some i \<Rightarrow> ebind (the_realm i d) (\<lambda>r. Inr (Some r))))"

text \<open>
  The library binds to the directory with the name and the password and then calls the two hooks of the
  class; \<open>ZulipLDAPException\<close> and a missing realm mean no login.
\<close>

definition ldap_authenticate :: "login_env \<Rightarrow> string \<Rightarrow> string \<Rightarrow> string option \<Rightarrow> user_profile option act" where
  "ldap_authenticate L username password realm_subdomain =
     (\<lambda>s. case seq (query (ldap_realm L username realm_subdomain)) (\<lambda>realm.
         seq (query (\<lambda>_. django_to_ldap_username L username)) (\<lambda>name.
         case ldap_bind L name password of
           None \<Rightarrow> ret None
         | Some entry \<Rightarrow>
             seq (get_or_create_user L realm (ldap_to_django_username L name) entry) (\<lambda>(u, _).
             seq (query (the_realm (u_realm u))) (\<lambda>r.
               ret (if check_subdomain (le_config L) realm_subdomain (subdomain (le_config L) r) then Some u else None))))) s of
        (Inl e, s') \<Rightarrow> if e = ZulipLDAPException \<or> e = DoesNotExist ''Realm'' then (Inr None, s') else (Inl e, s')
      | (Inr x, s') \<Rightarrow> (Inr x, s'))"

section \<open>What a server offers\<close>

definition get_auth_backends_data :: "login_env \<Rightarrow> 'r auth_env \<Rightarrow> bool \<Rightarrow> http_request \<Rightarrow> db \<Rightarrow> pyerr + pydict" where
  "get_auth_backends_data L E SUBDOMAINS_HOMEPAGE req d =
     (let S = le_settings L in
      ebind (if REALMS_HAVE_SUBDOMAINS (le_config L) then
               let sub = get_subdomain E req in
               (case get_realm sub d of
                  Some r \<Rightarrow> Inr (Some r)
                | None \<Rightarrow>
                    if sub \<noteq> [] then Inl (JsonableError ''Invalid subdomain'')
                    else if SUBDOMAINS_HOMEPAGE then Inl (JsonableError ''Subdomain required'')
                    else Inr None)
             else Inr None) (\<lambda>realm.
        Inr [(''password'', PBool (password_auth_enabled S realm)), (''dev'', PBool (dev_auth_enabled S realm)),
             (''github'', PBool (github_auth_enabled S realm)), (''google'', PBool (google_auth_enabled S realm))]))"

section \<open>The one-time pad of the mobile app\<close>

text \<open>\<open>int(c, 16)\<close> and \<open>'%x' % n\<close> of one digit\<close>

definition hex_value :: "char \<Rightarrow> pyerr + nat" where
  "hex_value c =
     (let i = length (takeWhile (\<lambda>x. x \<noteq> char_lower c) ''0123456789abcdef'')
      in if i < 16 then Inr i else Inl (ValueError ''int''))"

definition hex_digit :: "nat \<Rightarrow> char" where
  "hex_digit n = ''0123456789abcdef'' ! n"

definition xor_hex_strings :: "string \<Rightarrow> string \<Rightarrow> pyerr + string" where
  "xor_hex_strings a b =
     (if length a \<noteq> length b then Inl (AssertionError [])
      else emap (\<lambda>(x, y). ebind (hex_value x) (\<lambda>m. ebind (hex_value y) (\<lambda>n. Inr (hex_digit (xor m n))))) (zip a b))"

definition ascii_to_hex :: "string \<Rightarrow> string" where
  "ascii_to_hex s = concat (map (\<lambda>c. [hex_digit (of_char c div 16), hex_digit (of_char c mod 16)]) s)"

fun unhexlify :: "string \<Rightarrow> pyerr + string" where
  "unhexlify [] = Inr []"
| "unhexlify [_] = Inl (ValueError ''Odd-length string'')"
| "unhexlify (a # b # s) =
     ebind (hex_value a) (\<lambda>m. ebind (hex_value b) (\<lambda>n. ebind (unhexlify s) (\<lambda>t. Inr (char_of (16 * m + n) # t))))"

definition hex_to_ascii :: "string \<Rightarrow> pyerr + string" where
  "hex_to_ascii s = unhexlify s"

definition otp_encrypt_api_key :: "user_profile \<Rightarrow> string \<Rightarrow> pyerr + string" where
  "otp_encrypt_api_key u otp =
     (if length otp \<noteq> 64 then Inl (AssertionError [])
      else
        let hex_encoded_api_key = ascii_to_hex (u_api_key u) in
        if length hex_encoded_api_key \<noteq> 64 then Inl (AssertionError []) else xor_hex_strings hex_encoded_api_key otp)"

definition otp_decrypt_api_key :: "string \<Rightarrow> string \<Rightarrow> pyerr + string" where
  "otp_decrypt_api_key otp_encrypted_api_key otp =
     (if length otp \<noteq> 64 \<or> length otp_encrypted_api_key \<noteq> 64 then Inl (AssertionError [])
      else ebind (xor_hex_strings otp_encrypted_api_key otp) hex_to_ascii)"

definition is_valid_otp :: "string \<Rightarrow> bool" where
  "is_valid_otp otp \<longleftrightarrow> length otp = 64 \<and> \<not> isl (emap hex_value otp)"

end
