(* ===== verification/SettingsProps.thy ===== *)
theory SettingsProps
  imports Settings Accounts
begin

text \<open>
  Settings and clients: a client that applies the events of the changes a user makes to the settings has
  the state it would fetch; invitations go to exactly the valid addresses or to nobody; domains are
  checked as their messages say.
\<close>

section \<open>Changes of settings and the state of a client\<close>

datatype setting_change =
    SetDisplay string pyval
  | SetNotification string pyval
  | SetAlertWords "string list"
  | AddAlertWords "string list"
  | RemoveAlertWords "string list"

fun run_change :: "settings_env \<Rightarrow> user_profile \<Rightarrow> setting_change \<Rightarrow> unit act" where
  "run_change E u (SetDisplay name v) = do_set_user_display_setting u name v"
| "run_change E u (SetNotification name v) = do_change_notification_settings u name v"
| "run_change E u (SetAlertWords ws) = do_set_alert_words E u ws"
| "run_change E u (AddAlertWords ws) = do_add_alert_words E u ws"
| "run_change E u (RemoveAlertWords ws) = do_remove_alert_words E u ws"

definition with_alert_words :: "settings_env \<Rightarrow> (string list \<Rightarrow> string list) \<Rightarrow> user_profile \<Rightarrow> user_profile" where
  "with_alert_words E f u =
     (case user_alert_words E u of Inl _ \<Rightarrow> u | Inr ws \<Rightarrow> u\<lparr>u_alert_words := json_dumps E (PList (map PStr (f ws)))\<rparr>)"

text \<open>The user as the database has it after a change; the next request works on this object.\<close>

fun changed_user :: "settings_env \<Rightarrow> setting_change \<Rightarrow> user_profile \<Rightarrow> user_profile" where
  "changed_user E (SetDisplay name v) u = set_user_attr name v u"
| "changed_user E (SetNotification name v) u = set_notification_attr name v u"
| "changed_user E (SetAlertWords ws) u = u\<lparr>u_alert_words := json_dumps E (PList (map PStr ws))\<rparr>"
| "changed_user E (AddAlertWords ws) u = with_alert_words E (\<lambda>old. with_new_words old ws) u"
| "changed_user E (RemoveAlertWords ws) u = with_alert_words E (filter (\<lambda>w. w \<notin> set ws)) u"

text \<open>A sequence of requests: each loads the user from the database and makes one change.\<close>

fun run_changes :: "settings_env \<Rightarrow> int \<Rightarrow> setting_change list \<Rightarrow> unit act" where
  "run_changes E uid [] = ret ()"
| "run_changes E uid (c # cs) =
     (\<lambda>s. case get_user_profile_by_id uid (sv_db s) of Inl e \<Rightarrow> (Inl e, s) | Inr u \<Rightarrow> andthen (run_change E u c) (run_changes E uid cs) s)"

definition events_to :: "int \<Rightarrow> (pydict \<times> pyval list) list \<Rightarrow> pydict list" where
  "events_to uid evs = map fst (filter (\<lambda>e. PInt uid \<in> set (snd e)) evs)"

definition setting_types :: "string list" where
  "setting_types = [''alert_words'', ''update_display_settings'', ''update_global_notifications'']"

lemma events_to_simps [simp]: "events_to i [] = []" "events_to i (xs @ ys) = events_to i xs @ events_to i ys"
  by (simp_all add: events_to_def)

lemma apply_events_append:
  "apply_events E u b T d (xs @ ys) st = ebind (apply_events E u b T d xs st) (apply_events E u b T d ys)"
proof (induction xs arbitrary: st)
  case (Cons x xs)
  then show ?case
    by (cases "get_str x ''type''"; cases T) (auto simp: ebind_assoc split: sum.splits intro!: ebind_cong)
qed simp

lemma map_of_set_other: "map_of (map (\<lambda>(k, w). (k, if k = name then v else w)) xs) j =
    (if j = name then map_option (\<lambda>_. v) (map_of xs name) else map_of xs j)"
  by (induction xs) auto

lemma map_of_set_key:
  assumes "name \<in> fst ` set xs"
  shows "map_of (map (\<lambda>(k, w). (k, if k = name then v else w)) xs) = (map_of xs)(name \<mapsto> v)"
proof -
  obtain w where "map_of xs name = Some w" using assms by (metis map_of_eq_None_iff not_None_eq)
  then show ?thesis by (auto simp: map_of_set_other fun_eq_iff)
qed

lemma map_of_rev_append: "map_of (rev (xs @ ys)) = map_of (rev xs) ++ map_of (rev ys)"
  by simp

lemma map_of_dupdate_all: "map_of (dupdate d e) = map_of d ++ map_of (rev e)"
  by (induction e arbitrary: d) (auto simp: dupdate_def)

lemma display_names: "map_of user_property_types name = Some ty \<Longrightarrow> name \<in> set DISPLAY_SETTINGS"
  by (drule map_of_SomeD) (auto simp: user_property_types_def DISPLAY_SETTINGS_def)

lemma notification_names: "map_of notification_setting_types name = Some ty \<Longrightarrow> name \<in> set NOTIFICATION_SETTINGS \<and> ty = TBool"
  by (drule map_of_SomeD) (auto simp: notification_setting_types_def NOTIFICATION_SETTINGS_def)

lemma set_user_attr_simps:
  "set_user_attr ''default_language'' v u = u\<lparr>u_default_language := str_of v\<rparr>"
  "set_user_attr ''emoji_alt_code'' v u = u\<lparr>u_emoji_alt_code := bool_of v\<rparr>"
  "set_user_attr ''emojiset'' v u = u\<lparr>u_emojiset := str_of v\<rparr>"
  "set_user_attr ''left_side_userlist'' v u = u\<lparr>u_left_side_userlist := bool_of v\<rparr>"
  "set_user_attr ''timezone'' v u = u\<lparr>u_timezone := str_of v\<rparr>"
  "set_user_attr ''twenty_four_hour_time'' v u = u\<lparr>u_twenty_four_hour_time := bool_of v\<rparr>"
  "set_user_attr ''high_contrast_mode'' v u = u\<lparr>u_high_contrast_mode := bool_of v\<rparr>"
  by (simp_all only: set_user_attr_def) simp_all

lemma set_notification_attr_simps:
  "set_notification_attr ''enable_desktop_notifications'' v u = u\<lparr>u_enable_desktop_notifications := bool_of v\<rparr>"
  "set_notification_attr ''enable_digest_emails'' v u = u\<lparr>u_enable_digest_emails := bool_of v\<rparr>"
  "set_notification_attr ''enable_offline_email_notifications'' v u = u\<lparr>u_enable_offline_email_notifications := bool_of v\<rparr>"
  "set_notification_attr ''enable_offline_push_notifications'' v u = u\<lparr>u_enable_offline_push_notifications := bool_of v\<rparr>"
  "set_notification_attr ''enable_online_push_notifications'' v u = u\<lparr>u_enable_online_push_notifications := bool_of v\<rparr>"
  "set_notification_attr ''enable_sounds'' v u = u\<lparr>u_enable_sounds := bool_of v\<rparr>"
  "set_notification_attr ''enable_stream_desktop_notifications'' v u = u\<lparr>u_enable_stream_desktop_notifications := bool_of v\<rparr>"
  "set_notification_attr ''enable_stream_sounds'' v u = u\<lparr>u_enable_stream_sounds := bool_of v\<rparr>"
  "set_notification_attr ''pm_content_in_desktop_notifications'' v u = u\<lparr>u_pm_content_in_desktop_notifications := bool_of v\<rparr>"
  by (simp_all only: set_notification_attr_def) simp_all

lemma isinstance_values:
  assumes "isinstance v ty" and "ty \<in> {TBool, TText}"
  obtains b where "ty = TBool" "v = PBool b" | x where "ty = TText" "v = PStr x"
  using assms by (cases v; cases ty) auto

lemma set_display:
  assumes "map_of user_property_types name = Some ty" and "isinstance v ty"
  shows "user_setting (set_user_attr name v u) = map (\<lambda>(k, w). (k, if k = name then v else w)) (user_setting u)"
proof -
  have "(name, ty) \<in> set user_property_types" using map_of_SomeD[OF assms(1)] .
  then have names: "(name, ty) = (''default_language'', TText) \<or> (name, ty) = (''emoji_alt_code'', TBool) \<or>
      (name, ty) = (''emojiset'', TText) \<or> (name, ty) = (''left_side_userlist'', TBool) \<or> (name, ty) = (''timezone'', TText) \<or>
      (name, ty) = (''twenty_four_hour_time'', TBool) \<or> (name, ty) = (''high_contrast_mode'', TBool)"
    by (simp only: user_property_types_def list.set insert_iff empty_iff simp_thms)
  then have "ty \<in> {TBool, TText}" by auto
  with assms(2) show ?thesis
  proof (cases rule: isinstance_values)
    case (1 b)
    then show ?thesis using names by (elim disjE) (simp_all add: set_user_attr_simps user_setting_def)
  next
    case (2 x)
    then show ?thesis using names by (elim disjE) (simp_all add: set_user_attr_simps user_setting_def)
  qed
qed

lemma set_notification:
  assumes "map_of notification_setting_types name = Some TBool" and "isinstance v TBool"
  shows "notification_setting (set_notification_attr name v u) = map (\<lambda>(k, w). (k, if k = name then v else w)) (notification_setting u)"
proof -
  have "(name, TBool) \<in> set notification_setting_types" using map_of_SomeD[OF assms(1)] .
  then have "name = ''enable_desktop_notifications'' \<or> name = ''enable_digest_emails'' \<or> name = ''enable_offline_email_notifications'' \<or>
      name = ''enable_offline_push_notifications'' \<or> name = ''enable_online_push_notifications'' \<or> name = ''enable_sounds'' \<or>
      name = ''enable_stream_desktop_notifications'' \<or> name = ''enable_stream_sounds'' \<or> name = ''pm_content_in_desktop_notifications''"
    by (simp only: notification_setting_types_def list.set insert_iff empty_iff simp_thms prod.inject)
  moreover obtain b where "v = PBool b" using assms(2) by (cases v) auto
  ultimately show ?thesis
    by (elim disjE) (simp_all add: set_notification_attr_simps notification_setting_def)
qed


section \<open>The state that is fetched\<close>

definition setting_values :: "fetch_env \<Rightarrow> string \<Rightarrow> user_profile \<Rightarrow> pyval \<Rightarrow> pydict" where
  "setting_values F queue_id u aw =
     [(''queue_id'', PStr queue_id), (''alert_words'', aw)] @ user_setting u @ [(''autoscroll_forever'', PBool (u_autoscroll_forever u))] @
     outer_state F ''update_display_settings'' u @ notification_setting u @
     [(''default_desktop_notifications'', PBool (u_default_desktop_notifications u))]"

lemma fetch_settings:
  "fetch_initial_state_data F u (Some setting_types) queue_id b now d =
     ebind (json_loads (se_render (ee_send (fe_events F))) (u_alert_words u)) (\<lambda>aw.
       Inr \<lparr>cs_values = dupdate [] (setting_values F queue_id u aw), cs_unread = None\<rparr>)"
  by (cases "json_loads (se_render (ee_send (fe_events F))) (u_alert_words u)")
    (simp_all add: fetch_initial_state_data_def state_parts_def setting_types_def setting_values_def Let_def)

text \<open>The parts that the model does not have are those of the user before the change and clash with no setting.\<close>

definition outer_ok :: "fetch_env \<Rightarrow> bool" where
  "outer_ok F \<longleftrightarrow>
     (\<forall>u v. outer_state F ''update_display_settings'' u = outer_state F ''update_display_settings'' v) \<and>
     (\<forall>u. fst ` set (outer_state F ''update_display_settings'' u) \<inter>
        ({''alert_words''} \<union> set DISPLAY_SETTINGS \<union> set NOTIFICATION_SETTINGS) = {})"

definition state_values :: "fetch_env \<Rightarrow> string \<Rightarrow> user_profile \<Rightarrow> pyval \<Rightarrow> string \<Rightarrow> pyval option" where
  "state_values F queue_id u aw = map_of (rev (setting_values F queue_id u aw))"

lemma names_of_settings:
  "fst ` set (user_setting u) = set DISPLAY_SETTINGS" "fst ` set (notification_setting u) = set NOTIFICATION_SETTINGS"
  by (simp_all add: user_setting_def DISPLAY_SETTINGS_def notification_setting_def NOTIFICATION_SETTINGS_def)

lemma setting_names_apart:
  "set DISPLAY_SETTINGS \<inter> set NOTIFICATION_SETTINGS = {}"
  "set DISPLAY_SETTINGS \<inter> {''queue_id'', ''alert_words'', ''autoscroll_forever'', ''default_desktop_notifications''} = {}"
  "set NOTIFICATION_SETTINGS \<inter> {''queue_id'', ''alert_words'', ''autoscroll_forever'', ''default_desktop_notifications''} = {}"
  by (simp_all add: DISPLAY_SETTINGS_def NOTIFICATION_SETTINGS_def)

lemma values_split:
  "state_values F queue_id u aw =
     ((((([''queue_id'' \<mapsto> PStr queue_id, ''alert_words'' \<mapsto> aw] ++ map_of (rev (user_setting u)))(''autoscroll_forever'' \<mapsto> PBool (u_autoscroll_forever u)))
       ++ map_of (rev (outer_state F ''update_display_settings'' u))) ++ map_of (rev (notification_setting u)))
       (''default_desktop_notifications'' \<mapsto> PBool (u_default_desktop_notifications u)))"
  by (simp add: state_values_def setting_values_def map_add_upd)

lemma upd_apart: "k \<notin> dom n \<Longrightarrow> m(k \<mapsto> v) ++ n = (m ++ n)(k \<mapsto> v)"
  by (auto simp: fun_eq_iff map_add_def split: option.splits)

lemma outer_names:
  assumes "outer_ok F" and "k = ''alert_words'' \<or> k \<in> set DISPLAY_SETTINGS \<or> k \<in> set NOTIFICATION_SETTINGS"
  shows "k \<notin> dom (map_of (rev (outer_state F ''update_display_settings'' u)))"
proof -
  have "fst ` set (outer_state F ''update_display_settings'' u) \<inter> ({''alert_words''} \<union> set DISPLAY_SETTINGS \<union> set NOTIFICATION_SETTINGS) = {}"
    using assms(1) by (simp only: outer_ok_def)
  then show ?thesis using assms(2) unfolding dom_map_of_conv_image_fst set_rev by blast
qed

lemma values_display:
  assumes "outer_ok F" and "map_of user_property_types name = Some ty" and "isinstance v ty"
    and "u_autoscroll_forever u' = u_autoscroll_forever u" "u_default_desktop_notifications u' = u_default_desktop_notifications u"
    and "notification_setting u' = notification_setting u"
    and "user_setting u' = map (\<lambda>(k, w). (k, if k = name then v else w)) (user_setting u)"
  shows "state_values F queue_id u' aw = (state_values F queue_id u aw)(name \<mapsto> v)"
proof -
  have name: "name \<in> set DISPLAY_SETTINGS" using display_names[OF assms(2)] .
  have outer: "outer_state F ''update_display_settings'' u' = outer_state F ''update_display_settings'' u"
    "name \<notin> dom (map_of (rev (outer_state F ''update_display_settings'' u)))"
    using outer_names[OF assms(1)] name assms(1) by (auto simp: outer_ok_def)
  have notif: "name \<notin> dom (map_of (rev (notification_setting u)))"
    using name setting_names_apart(1) names_of_settings(2)[of u] by (auto simp: dom_map_of_conv_image_fst)
  have own: "map_of (rev (user_setting u')) = (map_of (rev (user_setting u)))(name \<mapsto> v)"
    unfolding assms(7) rev_map using name names_of_settings(1)[of u] by (intro map_of_set_key) simp
  have "name \<noteq> ''autoscroll_forever''" "name \<noteq> ''default_desktop_notifications''" using name setting_names_apart(2) by auto
  then show ?thesis
    unfolding values_split own assms(4,5,6) outer(1)
    by (simp only: map_add_upd upd_apart[OF outer(2)] upd_apart[OF notif] fun_upd_twist[of name] simp_thms)
qed

lemma values_notification:
  assumes "outer_ok F" and "map_of notification_setting_types name = Some ty"
    and "u_autoscroll_forever u' = u_autoscroll_forever u" "u_default_desktop_notifications u' = u_default_desktop_notifications u"
    and "user_setting u' = user_setting u"
    and "notification_setting u' = map (\<lambda>(k, w). (k, if k = name then v else w)) (notification_setting u)"
  shows "state_values F queue_id u' aw = (state_values F queue_id u aw)(name \<mapsto> v)"
proof -
  have name: "name \<in> set NOTIFICATION_SETTINGS" using notification_names[OF assms(2)] by simp
  have outer: "outer_state F ''update_display_settings'' u' = outer_state F ''update_display_settings'' u"
    using assms(1) by (simp add: outer_ok_def)
  have own: "map_of (rev (notification_setting u')) = (map_of (rev (notification_setting u)))(name \<mapsto> v)"
    unfolding assms(6) rev_map using name names_of_settings(2)[of u] by (intro map_of_set_key) simp
  have "name \<noteq> ''default_desktop_notifications''" using name setting_names_apart(3) by auto
  then show ?thesis
    unfolding values_split own assms(3,4,5) outer by (simp only: map_add_upd fun_upd_twist[of name] simp_thms)
qed

lemma values_alert_words:
  assumes "outer_ok F" and "u_autoscroll_forever u' = u_autoscroll_forever u" "u_default_desktop_notifications u' = u_default_desktop_notifications u"
    and "user_setting u' = user_setting u" and "notification_setting u' = notification_setting u"
  shows "state_values F queue_id u' aw' = (state_values F queue_id u aw)(''alert_words'' \<mapsto> aw')"
proof -
  have outer: "outer_state F ''update_display_settings'' u' = outer_state F ''update_display_settings'' u"
    using assms(1) by (simp add: outer_ok_def)
  have apart: "''alert_words'' \<notin> dom (map_of (rev (user_setting u)))" "''alert_words'' \<notin> dom (map_of (rev (notification_setting u)))"
    using setting_names_apart(2,3) names_of_settings[of u] by (auto simp: dom_map_of_conv_image_fst)
  note outer' = outer_names[OF assms(1) disjI1[OF refl], of u]
  have "[''queue_id'' \<mapsto> PStr queue_id, ''alert_words'' \<mapsto> aw'] =
      [''queue_id'' \<mapsto> PStr queue_id, ''alert_words'' \<mapsto> aw](''alert_words'' \<mapsto> aw')" by simp
  then show ?thesis
    unfolding values_split assms(2-5) outer
    by (simp add: upd_apart[OF apart(1)] upd_apart[OF apart(2)] upd_apart[OF outer'] fun_upd_twist[of "''alert_words''"])
qed


section \<open>A change and its events\<close>

lemma set_user_attr_keeps:
  "u_id (set_user_attr name v u) = u_id u" "u_alert_words (set_user_attr name v u) = u_alert_words u"
  "u_autoscroll_forever (set_user_attr name v u) = u_autoscroll_forever u"
  "u_default_desktop_notifications (set_user_attr name v u) = u_default_desktop_notifications u"
  "notification_setting (set_user_attr name v u) = notification_setting u"
  by (simp_all add: set_user_attr_def notification_setting_def)

lemma set_notification_attr_keeps:
  "u_id (set_notification_attr name v u) = u_id u" "u_alert_words (set_notification_attr name v u) = u_alert_words u"
  "u_autoscroll_forever (set_notification_attr name v u) = u_autoscroll_forever u"
  "u_default_desktop_notifications (set_notification_attr name v u) = u_default_desktop_notifications u"
  "user_setting (set_notification_attr name v u) = user_setting u"
  by (simp_all add: set_notification_attr_def user_setting_def)

definition display_event :: "user_profile \<Rightarrow> string \<Rightarrow> pyval \<Rightarrow> pydict" where
  "display_event u name v =
     [(''type'', PStr ''update_display_settings''), (''user'', PStr (u_email u)), (''setting_name'', PStr name), (''setting'', v)]"

definition notification_event :: "user_profile \<Rightarrow> string \<Rightarrow> pyval \<Rightarrow> pydict" where
  "notification_event u name v =
     [(''type'', PStr ''update_global_notifications''), (''user'', PStr (u_email u)), (''notification_name'', PStr name), (''setting'', v)]"

definition alert_event :: "string list \<Rightarrow> pydict" where
  "alert_event ws = [(''type'', PStr ''alert_words''), (''alert_words'', PList (map PStr ws))]"

lemma apply_setting_events:
  "name \<in> set DISPLAY_SETTINGS \<Longrightarrow> apply_event E u b d (display_event u1 name v) st = Inr (set_value name v st)"
  "name \<in> set NOTIFICATION_SETTINGS \<Longrightarrow> apply_event E u b d (notification_event u1 name v) st = Inr (set_value name v st)"
  "apply_event E u b d (alert_event ws) st = Inr (set_value ''alert_words'' (PList (map PStr ws)) st)"
  by (simp_all add: apply_event_def display_event_def notification_event_def alert_event_def apply_setting_def copy_value_def
      get_str_def dget_def)

lemma event_types:
  "get_str (display_event u name v) ''type'' = Inr ''update_display_settings''"
  "get_str (notification_event u name v) ''type'' = Inr ''update_global_notifications''"
  "get_str (alert_event ws) ''type'' = Inr ''alert_words''"
  by (simp_all add: display_event_def notification_event_def alert_event_def get_str_def dget_def)

lemma display_run:
  assumes "do_set_user_display_setting u name v s = (Inr (), s')"
  shows "\<exists>ty evs. map_of user_property_types name = Some ty \<and> isinstance v ty \<and> sv_events s' = sv_events s @ (display_event u name v, [PInt (u_id u)]) # evs \<and>
    (\<forall>e \<in> set evs. get_str (fst e) ''type'' = Inr ''realm_user'')"
  using assms by (auto simp: do_set_user_display_setting_def andthen_Inr save_user_def send_person_update_def seq_Inr display_event_def
      get_str_def dget_def split: option.splits if_split_asm)

lemma notification_run:
  assumes "do_change_notification_settings u name v s = (Inr (), s')"
  shows "\<exists>ty. map_of notification_setting_types name = Some ty \<and> isinstance v ty \<and>
    sv_events s' = sv_events s @ [(notification_event u name v, [PInt (u_id u)])]"
  using assms by (auto simp: do_change_notification_settings_def andthen_Inr save_user_def clear_scheduled_emails_def notification_event_def
      split: option.splits if_split_asm)

lemma alert_words_run:
  "do_set_alert_words E u ws s = (Inr (), s') \<Longrightarrow> sv_events s' = sv_events s @ [(alert_event ws, [PInt (u_id u)])]"
  "do_add_alert_words E u ws s = (Inr (), s') \<Longrightarrow> \<exists>old. user_alert_words E u = Inr old \<and>
     sv_events s' = sv_events s @ [(alert_event (with_new_words old ws), [PInt (u_id u)])]"
  "do_remove_alert_words E u ws s = (Inr (), s') \<Longrightarrow> \<exists>old. user_alert_words E u = Inr old \<and>
     sv_events s' = sv_events s @ [(alert_event (filter (\<lambda>w. w \<notin> set ws) old), [PInt (u_id u)])]"
  by (auto simp: do_set_alert_words_def do_add_alert_words_def do_remove_alert_words_def add_user_alert_words_def
      remove_user_alert_words_def set_user_alert_words_def notify_alert_words_def alert_event_def save_user_def andthen_Inr seq_Inr Let_def)

lemma skip_other_events:
  assumes "\<forall>e \<in> set evs. get_str (fst e) ''type'' = Inr ''realm_user''"
  shows "apply_events E u b (Some setting_types) d (events_to i evs) st = Inr st"
  using assms by (induction evs) (auto simp: events_to_def setting_types_def)


text \<open>One change: the client that applies its events holds the values of the changed user.\<close>

definition json_words :: "settings_env \<Rightarrow> bool" where
  "json_words E \<longleftrightarrow> (\<forall>ws. sg_loads E (json_dumps E (PList (map PStr ws))) = Inr (PList (map PStr ws)))"

lemma set_value_fields [simp]:
  "map_of (cs_values (set_value k v st)) = (map_of (cs_values st))(k \<mapsto> v)" "cs_unread (set_value k v st) = cs_unread st"
  by (simp_all add: set_value_def)

lemma change_words:
  assumes "outer_ok F" and "json_words E" and "map_of (cs_values st) = state_values F queue_id u aw"
    and "u' = u\<lparr>u_alert_words := json_dumps E (PList (map PStr ws))\<rparr>"
  shows "\<exists>st'. apply_events (fe_events F) u0 b (Some setting_types) d (events_to (u_id u) [(alert_event ws, [PInt (u_id u)])]) st = Inr st' \<and>
    cs_unread st' = cs_unread st \<and> sg_loads E (u_alert_words u') = Inr (PList (map PStr ws)) \<and>
    map_of (cs_values st') = state_values F queue_id u' (PList (map PStr ws))"
proof -
  have "state_values F queue_id u' (PList (map PStr ws)) = (state_values F queue_id u aw)(''alert_words'' \<mapsto> PList (map PStr ws))"
    by (rule values_alert_words[OF assms(1)]) (simp_all add: assms(4) user_setting_def notification_setting_def)
  then show ?thesis using assms(2,3,4)
    by (simp add: events_to_def setting_types_def event_types apply_setting_events json_words_def)
qed

lemma change_step:
  assumes "run_change E u c s = (Inr (), s')" and "outer_ok F" and "json_words E" and "sg_loads E (u_alert_words u) = Inr aw"
    and "map_of (cs_values st) = state_values F queue_id u aw"
  shows "\<exists>evs st' aw'. sv_events s' = sv_events s @ evs \<and>
    apply_events (fe_events F) u0 b (Some setting_types) d (events_to (u_id u) evs) st = Inr st' \<and> cs_unread st' = cs_unread st \<and>
    u_id (changed_user E c u) = u_id u \<and> sg_loads E (u_alert_words (changed_user E c u)) = Inr aw' \<and>
    map_of (cs_values st') = state_values F queue_id (changed_user E c u) aw'"
proof (cases c)
  case (SetDisplay name v)
  obtain ty evs where ty: "map_of user_property_types name = Some ty" "isinstance v ty"
    and evs: "sv_events s' = sv_events s @ (display_event u name v, [PInt (u_id u)]) # evs"
    "\<forall>e \<in> set evs. get_str (fst e) ''type'' = Inr ''realm_user''"
    using display_run[of u name v s s'] assms(1) SetDisplay by auto
  have vals: "state_values F queue_id (set_user_attr name v u) aw = (state_values F queue_id u aw)(name \<mapsto> v)"
    by (rule values_display[OF assms(2) ty]) (simp_all only: set_user_attr_keeps set_display[OF ty])
  have "events_to (u_id u) ((display_event u name v, [PInt (u_id u)]) # evs) = display_event u name v # events_to (u_id u) evs"
    by (simp add: events_to_def)
  then have "apply_events (fe_events F) u0 b (Some setting_types) d (events_to (u_id u) ((display_event u name v, [PInt (u_id u)]) # evs)) st =
      Inr (set_value name v st)"
    using skip_other_events[OF evs(2)] by (simp add: event_types apply_setting_events(1)[OF display_names[OF ty(1)]]) (simp add: setting_types_def)
  then show ?thesis using evs(1) vals assms(4,5) SetDisplay
    by (intro exI[of _ "(display_event u name v, [PInt (u_id u)]) # evs"]) (simp add: set_user_attr_keeps)
next
  case (SetNotification name v)
  obtain ty where ty: "map_of notification_setting_types name = Some ty" "isinstance v ty"
    and evs: "sv_events s' = sv_events s @ [(notification_event u name v, [PInt (u_id u)])]"
    using notification_run[of u name v s s'] assms(1) SetNotification by auto
  have ty': "map_of notification_setting_types name = Some TBool" "isinstance v TBool" using ty notification_names[OF ty(1)] by simp_all
  have vals: "state_values F queue_id (set_notification_attr name v u) aw = (state_values F queue_id u aw)(name \<mapsto> v)"
    by (rule values_notification[OF assms(2) ty(1)]) (simp_all only: set_notification_attr_keeps set_notification[OF ty'])
  have "apply_events (fe_events F) u0 b (Some setting_types) d (events_to (u_id u) [(notification_event u name v, [PInt (u_id u)])]) st =
      Inr (set_value name v st)"
    using notification_names[OF ty(1)] by (simp add: events_to_def event_types apply_setting_events(2)) (simp add: setting_types_def)
  then show ?thesis using evs(1) vals assms(4,5) SetNotification
    by (intro exI[of _ "[(notification_event u name v, [PInt (u_id u)])]"]) (simp add: set_notification_attr_keeps)
next
  case (SetAlertWords ws)
  then show ?thesis
    using alert_words_run(1)[of E u ws s s'] change_words[OF assms(2,3,5) refl, of u0 b d ws] assms(1) by auto
next
  case (AddAlertWords ws)
  then obtain old where old: "user_alert_words E u = Inr old"
    "sv_events s' = sv_events s @ [(alert_event (with_new_words old ws), [PInt (u_id u)])]"
    using alert_words_run(2)[of E u ws s s'] assms(1) by auto
  then show ?thesis
    using change_words[OF assms(2,3,5) refl, of u0 b d "with_new_words old ws"] AddAlertWords by (auto simp: with_alert_words_def)
next
  case (RemoveAlertWords ws)
  then obtain old where old: "user_alert_words E u = Inr old"
    "sv_events s' = sv_events s @ [(alert_event (filter (\<lambda>w. w \<notin> set ws) old), [PInt (u_id u)])]"
    using alert_words_run(3)[of E u ws s s'] assms(1) by auto
  then show ?thesis
    using change_words[OF assms(2,3,5) refl, of u0 b d "filter (\<lambda>w. w \<notin> set ws) old"] RemoveAlertWords
    by (auto simp: with_alert_words_def)
qed

text \<open>What a change writes is what the next request loads.\<close>

lemma saved_user:
  assumes "get_user_profile_by_id uid d = Inr u" and "u_id (f u) = uid"
  shows "get_user_profile_by_id uid (d\<lparr>users := map (\<lambda>x. if u_id x = uid then f x else x) (users d)\<rparr>) = Inr (f u)"
proof -
  have one: "filter (\<lambda>x. u_id x = uid) (users d) = [u]"
    using assms(1) by (auto simp: get_user_profile_by_id_def db_get_def split: list.splits)
  have "filter (\<lambda>x. u_id x = uid) (map (\<lambda>x. if u_id x = uid then f x else x) us) = map f us'"
    if "filter (\<lambda>x. u_id x = uid) us = us'" "\<forall>x \<in> set us'. u_id (f x) = uid" for us us'
    using that by (induction us arbitrary: us') auto
  from this[OF one] show ?thesis using assms(2) by (simp add: get_user_profile_by_id_def db_get_def)
qed

lemma user_saved:
  assumes "get_user_profile_by_id uid (sv_db s) = Inr u" and "u_id (f u) = u_id u"
  shows "get_user_profile_by_id uid (sv_db (snd (save_user uid f s))) = Inr (f u)"
proof -
  have "u_id u = uid" using assms(1) by (auto simp: get_user_profile_by_id_def db_get_def split: list.splits dest: filter_eq_ConsD)
  then show ?thesis using saved_user[OF assms(1), of f] assms(2) by (simp add: save_user_def)
qed

lemma display_saves:
  assumes "do_set_user_display_setting u name v s = (Inr (), s')"
  shows "sv_db s' = sv_db (snd (save_user (u_id u) (set_user_attr name v) s))"
  using assms by (auto simp: do_set_user_display_setting_def andthen_Inr save_user_def send_person_update_def seq_Inr
      split: option.splits if_split_asm)

lemma notification_saves:
  assumes "do_change_notification_settings u name v s = (Inr (), s')"
  shows "users (sv_db s') = users (sv_db (snd (save_user (u_id u) (set_notification_attr name v) s)))"
  using assms by (auto simp: do_change_notification_settings_def andthen_Inr save_user_def clear_scheduled_emails_def
      split: option.splits if_split_asm)

lemma alert_words_save:
  "do_set_alert_words E u ws s = (Inr (), s') \<Longrightarrow> sv_db s' = sv_db (snd (set_user_alert_words E u ws s))"
  "do_add_alert_words E u ws s = (Inr (), s') \<Longrightarrow> user_alert_words E u = Inr old \<Longrightarrow>
     sv_db s' = sv_db (snd (set_user_alert_words E u (with_new_words old ws) s))"
  "do_remove_alert_words E u ws s = (Inr (), s') \<Longrightarrow> user_alert_words E u = Inr old \<Longrightarrow>
     sv_db s' = sv_db (snd (set_user_alert_words E u (filter (\<lambda>w. w \<notin> set ws) old) s))"
  by (auto simp: do_set_alert_words_def do_add_alert_words_def do_remove_alert_words_def add_user_alert_words_def
      remove_user_alert_words_def set_user_alert_words_def notify_alert_words_def save_user_def andthen_Inr seq_Inr Let_def)

lemma same_users: "users d = users d' \<Longrightarrow> get_user_profile_by_id uid d = get_user_profile_by_id uid d'"
  by (simp add: get_user_profile_by_id_def)

lemma loaded_id: "get_user_profile_by_id uid d = Inr u \<Longrightarrow> u_id u = uid"
  by (auto simp: get_user_profile_by_id_def db_get_def split: list.splits dest: filter_eq_ConsD)

lemma change_saves:
  assumes "run_change E u c s = (Inr (), s')" and "get_user_profile_by_id uid (sv_db s) = Inr u"
  shows "get_user_profile_by_id uid (sv_db s') = Inr (changed_user E c u)"
proof (cases c)
  case (SetDisplay name v)
  then show ?thesis
    using display_saves[of u name v s s'] user_saved[OF assms(2), of "set_user_attr name v"] assms loaded_id[OF assms(2)]
    by (simp add: set_user_attr_keeps)
next
  case (SetNotification name v)
  then have "users (sv_db s') = users (sv_db (snd (save_user (u_id u) (set_notification_attr name v) s)))"
    using notification_saves[of u name v s s'] assms(1) by simp
  from same_users[OF this] show ?thesis
    using user_saved[OF assms(2), of "set_notification_attr name v"] loaded_id[OF assms(2)] SetNotification
    by (simp add: set_notification_attr_keeps)
next
  case (SetAlertWords ws)
  then show ?thesis using alert_words_save(1)[of E u ws s s'] user_saved[OF assms(2)] assms loaded_id[OF assms(2)]
    by (simp add: set_user_alert_words_def)
next
  case (AddAlertWords ws)
  then obtain old where "user_alert_words E u = Inr old" using alert_words_run(2)[of E u ws s s'] assms(1) by auto
  then show ?thesis using alert_words_save(2)[of E u ws s s' old] user_saved[OF assms(2)] assms loaded_id[OF assms(2)] AddAlertWords
    by (simp add: set_user_alert_words_def with_alert_words_def)
next
  case (RemoveAlertWords ws)
  then obtain old where "user_alert_words E u = Inr old" using alert_words_run(3)[of E u ws s s'] assms(1) by auto
  then show ?thesis using alert_words_save(3)[of E u ws s s' old] user_saved[OF assms(2)] assms loaded_id[OF assms(2)] RemoveAlertWords
    by (simp add: set_user_alert_words_def with_alert_words_def)
qed

lemma changes_steps:
  assumes "run_changes E uid cs s = (Inr (), s')" and "outer_ok F" and "json_words E"
    and "get_user_profile_by_id uid (sv_db s) = Inr u" and "sg_loads E (u_alert_words u) = Inr aw"
    and "map_of (cs_values st) = state_values F queue_id u aw"
  shows "\<exists>evs st' u' aw'. sv_events s' = sv_events s @ evs \<and>
    apply_events (fe_events F) u0 b (Some setting_types) d (events_to uid evs) st = Inr st' \<and> cs_unread st' = cs_unread st \<and>
    get_user_profile_by_id uid (sv_db s') = Inr u' \<and> sg_loads E (u_alert_words u') = Inr aw' \<and>
    map_of (cs_values st') = state_values F queue_id u' aw'"
  using assms(1,4,5,6)
proof (induction cs arbitrary: u s st aw)
  case Nil
  then show ?case by (intro exI[of _ "[]"]) auto
next
  case (Cons c cs)
  obtain t where one: "run_change E u c s = (Inr (), t)" and rest: "run_changes E uid cs t = (Inr (), s')"
    using Cons.prems(1,2) by (auto simp: andthen_Inr)
  obtain evs1 st1 aw1 where step: "sv_events t = sv_events s @ evs1"
    "apply_events (fe_events F) u0 b (Some setting_types) d (events_to (u_id u) evs1) st = Inr st1" "cs_unread st1 = cs_unread st"
    "sg_loads E (u_alert_words (changed_user E c u)) = Inr aw1"
    "map_of (cs_values st1) = state_values F queue_id (changed_user E c u) aw1"
    using change_step[OF one assms(2,3) Cons.prems(3,4), of u0 b d] by blast
  obtain evs2 st2 u2 aw2 where more: "sv_events s' = sv_events t @ evs2"
    "apply_events (fe_events F) u0 b (Some setting_types) d (events_to uid evs2) st1 = Inr st2" "cs_unread st2 = cs_unread st1"
    "get_user_profile_by_id uid (sv_db s') = Inr u2" "sg_loads E (u_alert_words u2) = Inr aw2"
    "map_of (cs_values st2) = state_values F queue_id u2 aw2"
    using Cons.IH[OF rest change_saves[OF one Cons.prems(2)] step(4,5)] by blast
  then show ?case using step loaded_id[OF Cons.prems(2)]
    by (intro exI[of _ "evs1 @ evs2"] exI[of _ st2] exI[of _ u2] exI[of _ aw2]) (simp add: apply_events_append)
qed

text \<open>
  C27: A client keeps its settings current: it fetched its state for the settings and the alert words, then
  any sequence of requests that change them succeeds. Applying the events that were sent to the user, in order,
  gives the state that the client would fetch from the database after the requests.
\<close>

theorem setting_events_keep_state:
  assumes "run_changes E uid cs s = (Inr (), s')" and "outer_ok F" and "json_words E"
    and "se_render (ee_send (fe_events F)) = se_render (ue_send (sg_users E))"
    and "get_user_profile_by_id uid (sv_db s) = Inr u"
    and "fetch_initial_state_data F u (Some setting_types) queue_id b now d = Inr st"
  shows "\<exists>evs st' u' now_st. sv_events s' = sv_events s @ evs \<and>
    apply_events (fe_events F) u b (Some setting_types) d (events_to uid evs) st = Inr st' \<and>
    get_user_profile_by_id uid (sv_db s') = Inr u' \<and>
    fetch_initial_state_data F u' (Some setting_types) queue_id b now (sv_db s') = Inr now_st \<and>
    map_of (cs_values st') = map_of (cs_values now_st) \<and> cs_unread st' = cs_unread now_st"
proof -
  obtain aw where aw: "sg_loads E (u_alert_words u) = Inr aw"
    and st: "st = \<lparr>cs_values = dupdate [] (setting_values F queue_id u aw), cs_unread = None\<rparr>"
    using assms(4,6) by (auto simp: fetch_settings)
  have "map_of (cs_values st) = state_values F queue_id u aw" by (simp add: st state_values_def map_of_dupdate_all)
  then obtain evs st' u' aw' where steps: "sv_events s' = sv_events s @ evs"
    "apply_events (fe_events F) u b (Some setting_types) d (events_to uid evs) st = Inr st'" "cs_unread st' = cs_unread st"
    "get_user_profile_by_id uid (sv_db s') = Inr u'" "sg_loads E (u_alert_words u') = Inr aw'"
    "map_of (cs_values st') = state_values F queue_id u' aw'"
    using changes_steps[OF assms(1,2,3,5) aw] by blast
  have "fetch_initial_state_data F u' (Some setting_types) queue_id b now (sv_db s') =
      Inr \<lparr>cs_values = dupdate [] (setting_values F queue_id u' aw'), cs_unread = None\<rparr>"
    using steps(5) assms(4) by (simp add: fetch_settings)
  then show ?thesis using steps st
    by (intro exI[of _ evs] exI[of _ st'] exI[of _ u'] exI[of _ "\<lparr>cs_values = dupdate [] (setting_values F queue_id u' aw'), cs_unread = None\<rparr>"])
      (simp add: state_values_def map_of_dupdate_all)
qed

text \<open>A text form of lists of words that can be read back, and a user who changes three settings.\<close>

definition words_text :: "pyval \<Rightarrow> string" where
  "words_text v = (case v of
       PList vs \<Rightarrow> concat (map (\<lambda>w. case w of PStr x \<Rightarrow> concat (map (\<lambda>c. [CHR ''c'', c]) x) @ ''e'' | _ \<Rightarrow> []) vs)
     | _ \<Rightarrow> [])"

fun text_words :: "string \<Rightarrow> string \<Rightarrow> string list" where
  "text_words acc [] = []"
| "text_words acc (k # r) =
     (if k = CHR ''c'' then (case r of [] \<Rightarrow> [] | c # t \<Rightarrow> text_words (acc @ [c]) t) else acc # text_words [] r)"

lemma read_word: "text_words acc (concat (map (\<lambda>c. [CHR ''c'', c]) x) @ ''e'' @ r) = (acc @ x) # text_words [] r"
  by (induction x arbitrary: acc) auto

lemma read_words: "text_words [] (words_text (PList (map PStr ws))) = ws"
proof (induction ws)
  case (Cons w ws)
  then show ?case using read_word[of "[]" w "words_text (PList (map PStr ws))"] by (simp add: words_text_def)
qed (simp add: words_text_def)

definition words_render :: render_env where
  "words_render = demo_render\<lparr>json_loads := (\<lambda>t. Inr (PList (map PStr (text_words [] t))))\<rparr>"

definition words_env :: settings_env where
  "words_env = \<lparr>sg_users = \<lparr>ue_send = demo_env\<lparr>se_render := words_render\<rparr>, NEW_USER_BOT = None, NOTIFICATION_BOT_SET = False,
       TOS_VERSION = None, normalize_email = (\<lambda>e. e), make_password = (\<lambda>_. ''p''), urandom = (\<lambda>_. [])\<rparr>,
     json_dumps = words_text, supported_backend = (\<lambda>_. True), backend_icon_url = (\<lambda>_ _. []),
     valid_filter = (\<lambda>_ _. True), valid_address = (\<lambda>_. True)\<rparr>"

definition words_fetch :: fetch_env where
  "words_fetch = \<lparr>fe_events = \<lparr>ee_send = demo_env\<lparr>se_render := words_render\<rparr>, ee_now = 0, ee_realm = demo_realm\<rparr>, fe_emoji = demo_emoji,
     outer_state = (\<lambda>k u. if k = ''update_display_settings'' then [(''emojiset_choices'', PList [])] else [])\<rparr>"

lemma words_env_ok: "json_words words_env" "outer_ok words_fetch"
  "se_render (ee_send (fe_events words_fetch)) = se_render (ue_send (sg_users words_env))"
  by (simp_all add: json_words_def words_env_def words_render_def read_words outer_ok_def words_fetch_def
      DISPLAY_SETTINGS_def NOTIFICATION_SETTINGS_def)

definition setting_requests :: "setting_change list" where
  "setting_requests = [SetDisplay ''timezone'' (PStr ''UTC''), SetNotification ''enable_sounds'' (PBool False), AddAlertWords [''x'']]"

definition setting_server :: server where
  "setting_server = (demo_server False)\<lparr>sv_db := empty_db\<lparr>users := [demo_user 9 4 ''ann@zulip.com'']\<rparr>\<rparr>"

lemma setting_requests_run: "fst (run_changes words_env 9 setting_requests setting_server) = Inr ()"
  by code_simp

lemma setting_user: "get_user_profile_by_id 9 (sv_db setting_server) = Inr (demo_user 9 4 ''ann@zulip.com'')"
  by code_simp

theorem setting_events_keep_state_witness:
  "\<exists>st evs st' u' now_st.
    fetch_initial_state_data words_fetch (demo_user 9 4 ''ann@zulip.com'') (Some setting_types) ''q'' False 0 (sv_db setting_server) = Inr st \<and>
    sv_events (snd (run_changes words_env 9 setting_requests setting_server)) = sv_events setting_server @ evs \<and>
    apply_events (fe_events words_fetch) (demo_user 9 4 ''ann@zulip.com'') False (Some setting_types) (sv_db setting_server) (events_to 9 evs) st = Inr st' \<and>
    get_user_profile_by_id 9 (sv_db (snd (run_changes words_env 9 setting_requests setting_server))) = Inr u' \<and>
    fetch_initial_state_data words_fetch u' (Some setting_types) ''q'' False 0
      (sv_db (snd (run_changes words_env 9 setting_requests setting_server))) = Inr now_st \<and>
    map_of (cs_values st') = map_of (cs_values now_st)"
proof -
  have run: "run_changes words_env 9 setting_requests setting_server =
      (Inr (), snd (run_changes words_env 9 setting_requests setting_server))"
    using setting_requests_run by (metis prod.collapse)
  obtain st where st: "fetch_initial_state_data words_fetch (demo_user 9 4 ''ann@zulip.com'') (Some setting_types) ''q'' False 0
      (sv_db setting_server) = Inr st"
    by (simp add: fetch_settings words_fetch_def words_render_def)
  show ?thesis
    using setting_events_keep_state[OF run words_env_ok(2,1,3) setting_user st] st by blast
qed

section \<open>Invitations\<close>

definition invitable :: "settings_env \<Rightarrow> user_profile \<Rightarrow> db \<Rightarrow> string \<Rightarrow> bool" where
  "invitable E u d email \<longleftrightarrow> email \<noteq> [] \<and> validate_email E u email d = Inr (None, None)"

definition malformed :: "settings_env \<Rightarrow> user_profile \<Rightarrow> db \<Rightarrow> string \<Rightarrow> bool" where
  "malformed E u d email \<longleftrightarrow> email \<noteq> [] \<and> (\<exists>e r. validate_email E u email d = Inr (Some e, r))"

definition invite_job :: "user_profile \<Rightarrow> string option \<Rightarrow> string \<Rightarrow> string \<times> pydict" where
  "invite_job u body email = (''invites'', [(''email'', PStr email), (''referrer_id'', PInt (u_id u)), (''email_body'', of_opt PStr body)])"

lemma sorted_invitees:
  assumes "sort_invitees E u d emails = Inr (validated, errors, skipped)"
  shows "validated = filter (invitable E u d) emails \<and> (errors = [] \<longleftrightarrow> filter (malformed E u d) emails = []) \<and>
    length validated + length errors + length skipped = length (filter (\<lambda>e. e \<noteq> []) emails)"
  using assms
proof (induction emails arbitrary: validated errors skipped)
  case (Cons email rest)
  show ?case
  proof (cases "email = []")
    case True
    then show ?thesis using Cons by (auto simp: invitable_def malformed_def)
  next
    case False
    then obtain e r v es sk where ver: "validate_email E u email d = Inr (e, r)" and rest: "sort_invitees E u d rest = Inr (v, es, sk)"
      and out: "(case e of None \<Rightarrow> (case r of None \<Rightarrow> Inr (email # v, es, sk) | Some x \<Rightarrow> Inr (v, es, (email, x) # sk))
          | Some x \<Rightarrow> Inr (v, (email, x) # es, sk)) = (Inr (validated, errors, skipped) :: pyerr + _)"
      using Cons.prems by auto
    note IH = Cons.IH[OF rest]
    show ?thesis using False ver out IH
      by (cases e; cases r) (auto simp: invitable_def malformed_def)
  qed
qed simp

lemma invites_sent:
  "\<exists>s' rows. for_each (invite_one u stream_ids body) emails s = (Inr (), s') \<and>
    prereg_users (sv_db s') = prereg_users (sv_db s) @ rows \<and> map pu_email rows = emails \<and>
    list_all (\<lambda>p. pu_referred_by p = Some (u_id u) \<and> pu_streams p = stream_ids) rows \<and>
    sv_jobs s' = sv_jobs s @ map (invite_job u body) emails \<and> sv_events s' = sv_events s"
proof (induction emails arbitrary: s)
  case (Cons email rest)
  let ?p = "\<lparr>pu_id = sv_next_id s, pu_email = email, pu_referred_by = Some (u_id u), pu_streams = stream_ids, pu_status = 0, pu_realm = None\<rparr>"
  obtain t where one: "invite_one u stream_ids body email s = (Inr (), t)" "prereg_users (sv_db t) = prereg_users (sv_db s) @ [?p]"
    "sv_jobs t = sv_jobs s @ [invite_job u body email]" "sv_events t = sv_events s"
    by (simp add: invite_one_def fresh_id_def seq_apply andthen_def invite_job_def)
  obtain s' rows where rest: "for_each (invite_one u stream_ids body) rest t = (Inr (), s')"
    "prereg_users (sv_db s') = prereg_users (sv_db t) @ rows" "map pu_email rows = rest"
    "list_all (\<lambda>p. pu_referred_by p = Some (u_id u) \<and> pu_streams p = stream_ids) rows"
    "sv_jobs s' = sv_jobs t @ map (invite_job u body) rest" "sv_events s' = sv_events t"
    using Cons[of t] by blast
  show ?case using one rest by (intro exI[of _ s'] exI[of _ "?p # rows"]) simp
qed simp

text \<open>
  C35: Invitations are all or nothing where addresses are wrong: one malformed address or one outside the
  domain of the realm, and nothing is stored and no mail is queued. Otherwise exactly the addresses
  without an account, in their order, get a row that names the inviter and the streams, and a mail job each.
\<close>

theorem invitations_exact:
  assumes "do_invite_users E u emails stream_ids body s = (Inr r, s')"
  shows "if filter (malformed E u (sv_db s)) emails \<noteq> []
    then s' = s \<and> (\<exists>es. r = InvitationError ''Some emails did not validate, so we didn't send any invitations.'' es False)
    else \<exists>rows. prereg_users (sv_db s') = prereg_users (sv_db s) @ rows \<and>
      map pu_email rows = filter (invitable E u (sv_db s)) emails \<and>
      list_all (\<lambda>p. pu_referred_by p = Some (u_id u) \<and> pu_streams p = stream_ids) rows \<and>
      sv_jobs s' = sv_jobs s @ map (invite_job u body) (filter (invitable E u (sv_db s)) emails) \<and> sv_events s' = sv_events s"
proof -
  obtain v es sk where sorted: "sort_invitees E u (sv_db s) emails = Inr (v, es, sk)"
    using assms by (auto simp: do_invite_users_def seq_query_Inr)
  note facts = sorted_invitees[OF sorted]
  show ?thesis
  proof (cases "es = []")
    case False
    then show ?thesis using assms sorted facts by (auto simp: do_invite_users_def seq_query_Inr)
  next
    case True
    then have none: "filter (malformed E u (sv_db s)) emails = []" and v: "v = filter (invitable E u (sv_db s)) emails"
      using facts by auto
    show ?thesis
    proof (cases "sk \<noteq> [] \<and> length sk = length emails")
      case True
      then have "length v = 0" using facts length_filter_le[of "\<lambda>e. e \<noteq> []" emails] by linarith
      then have "v = []" by simp
      moreover have "s' = s" using assms sorted True \<open>es = []\<close> by (simp add: do_invite_users_def seq_query_Inr)
      ultimately show ?thesis using none v by simp
    next
      case False
      then have "s' = snd (for_each (invite_one u stream_ids body) v s)"
        using assms sorted \<open>es = []\<close> invites_sent[of u stream_ids body v s]
        by (auto simp: do_invite_users_def seq_query_Inr andthen_Inr split: if_split_asm)
      then show ?thesis using invites_sent[of u stream_ids body v s] none unfolding v[symmetric] by auto
    qed
  qed
qed

definition invite_server :: server where
  "invite_server = setting_server\<lparr>sv_db := empty_db\<lparr>realms := [demo_realm], users := [demo_user 9 4 ''ann@zulip.com''],
     realm_domains := [\<lparr>rd_realm = 4, rd_domain = ''zulip.com'', rd_allow_subdomains = False\<rparr>]\<rparr>\<rparr>"

abbreviation invite_run :: "string list \<Rightarrow> (pyerr + invite_result) \<times> server" where
  "invite_run emails \<equiv> do_invite_users words_env (demo_user 9 4 ''ann@zulip.com'') emails [5] None invite_server"

lemma invite_demo: "invite_run [''ann@zulip.com'', ''bob@zulip.com''] =
    (Inr (InvitationError (''Some of those addresses are already using Zulip, so we didn't send them an invitation. '' @
       ''We did send invitations to everyone else!'') [(''ann@zulip.com'', ''Already has an account.'')] True),
     snd (invite_run [''ann@zulip.com'', ''bob@zulip.com'']))"
  by code_simp

lemma invite_demo_sorted:
  "filter (malformed words_env (demo_user 9 4 ''ann@zulip.com'') (sv_db invite_server)) [''ann@zulip.com'', ''bob@zulip.com''] = []"
  "filter (invitable words_env (demo_user 9 4 ''ann@zulip.com'') (sv_db invite_server)) [''ann@zulip.com'', ''bob@zulip.com''] = [''bob@zulip.com'']"
proof -
  have "validate_email words_env (demo_user 9 4 ''ann@zulip.com'') ''ann@zulip.com'' (sv_db invite_server) = Inr (None, Some ''Already has an account.'')"
    "validate_email words_env (demo_user 9 4 ''ann@zulip.com'') ''bob@zulip.com'' (sv_db invite_server) = Inr (None, None)"
    by code_simp+
  then show "filter (malformed words_env (demo_user 9 4 ''ann@zulip.com'') (sv_db invite_server)) [''ann@zulip.com'', ''bob@zulip.com''] = []"
    "filter (invitable words_env (demo_user 9 4 ''ann@zulip.com'') (sv_db invite_server)) [''ann@zulip.com'', ''bob@zulip.com''] = [''bob@zulip.com'']"
    by (simp_all add: malformed_def invitable_def)
qed

theorem invitations_exact_witness:
  "sv_jobs (snd (invite_run [''ann@zulip.com'', ''bob@zulip.com''])) =
    sv_jobs invite_server @ [invite_job (demo_user 9 4 ''ann@zulip.com'') None ''bob@zulip.com'']"
  using invitations_exact[OF invite_demo] unfolding invite_demo_sorted by auto

text \<open>An empty address counts in the comparison that tells whether anybody was invited: the answer is that the others got their mail.\<close>

lemma empty_address_hides_failure: "invite_run [''ann@zulip.com'', []] =
    (Inr (InvitationError (''Some of those addresses are already using Zulip, so we didn't send them an invitation. '' @
       ''We did send invitations to everyone else!'') [(''ann@zulip.com'', ''Already has an account.'')] True), invite_server)"
  by code_simp

end
