(* ===== verification/MessageFetch.thy ===== *)
theory MessageFetch
  imports MessageFlags Validators
begin

text \<open>
  Fetching of messages (\<open>zerver/views/messages.py\<close>): the builder that narrows a query, the views
  \<open>get_messages_backend\<close> and \<open>messages_in_narrow_backend\<close>, and the highlighting of matches. A query is
  a value: the tables it reads, its conditions in the order they were added, its joins and the
  searches whose match positions it selects; \<open>run_query\<close> gives its rows on a database. The search
  indexes of Postgres are parameters: whether a message matches, and where.
\<close>

record fetch_env' =
  mf_send :: send_env
  USING_PGROONGA :: bool
  pgroonga_match :: "string \<Rightarrow> message \<Rightarrow> bool"
  tsquery_match :: "string \<Rightarrow> message \<Rightarrow> bool"
  match_locs :: "string \<Rightarrow> string \<Rightarrow> (nat \<times> nat) list"

section \<open>Queries\<close>

text \<open>
  A condition on a row, which is a message with the flags of the user's row for it. The text of
  \<open>MessageIs\<close> comes from the request and is cast to an integer by the database.
\<close>

datatype sql_cond =
    HasContent string
  | FlagSet int
  | FlagClear int
  | RecipientIn "int list"
  | RecipientTypeIn "int list"
  | TopicUpper string
  | SenderIs int
  | MessageIs string
  | MessageAtLeast int
  | MessageAtMost int
  | ContainsText string
  | Tsquery string
  | Pgroonga string
  | NotC sql_cond
  | AndC "sql_cond list"
  | OrC "sql_cond list"

text \<open>All messages, or the messages that a user received, or those of them with one of the ids.\<close>

datatype query_base = AllMessages | ReceivedBy int | ReceivedAmong int "int list"

record msg_query =
  mq_base :: query_base
  mq_conds :: "sql_cond list"
  mq_recipient_joins :: nat
  mq_highlights :: "string list"

definition where_cond :: "sql_cond \<Rightarrow> msg_query \<Rightarrow> msg_query" where
  "where_cond c q = q\<lparr>mq_conds := mq_conds q @ [c]\<rparr>"

type_synonym msg_row = "message \<times> int"

definition str_upper :: "string \<Rightarrow> string" where
  "str_upper s = map (\<lambda>c. if CHR ''a'' \<le> c \<and> c \<le> CHR ''z'' then char_of (of_char c - 32 :: nat) else c) s"

definition has_column :: "string \<Rightarrow> message \<Rightarrow> bool" where
  "has_column operand m =
     (if operand = ''attachment'' then m_has_attachment m else if operand = ''image'' then m_has_image m else m_has_link m)"

text \<open>\<open>x ILIKE '%term%'\<close> with the wildcards of the term escaped\<close>

definition ilike_contains :: "string \<Rightarrow> string \<Rightarrow> bool" where
  "ilike_contains term1 x = str_contains (str_lower x) (str_lower term1)"

fun eval_cond :: "fetch_env' \<Rightarrow> db \<Rightarrow> msg_row \<Rightarrow> sql_cond \<Rightarrow> bool" where
  "eval_cond E d (m, fl) (HasContent operand) = has_column operand m"
| "eval_cond E d (m, fl) (FlagSet mask1) = (and fl mask1 \<noteq> 0)"
| "eval_cond E d (m, fl) (FlagClear mask1) = (and fl mask1 = 0)"
| "eval_cond E d (m, fl) (RecipientIn ids) = (m_recipient m \<in> set ids)"
| "eval_cond E d (m, fl) (RecipientTypeIn tys) = db_exists (\<lambda>r. rc_id r = m_recipient m \<and> rc_type r \<in> set tys) (recipients d)"
| "eval_cond E d (m, fl) (TopicUpper t) = (str_upper (m_subject m) = str_upper t)"
| "eval_cond E d (m, fl) (SenderIs i) = (m_sender m = i)"
| "eval_cond E d (m, fl) (MessageIs operand) = (parse_int operand = Inr (m_id m))"
| "eval_cond E d (m, fl) (MessageAtLeast i) = (i \<le> m_id m)"
| "eval_cond E d (m, fl) (MessageAtMost i) = (m_id m \<le> i)"
| "eval_cond E d (m, fl) (ContainsText t) = (ilike_contains t (m_content m) \<or> ilike_contains t (m_subject m))"
| "eval_cond E d (m, fl) (Tsquery operand) = tsquery_match E operand m"
| "eval_cond E d (m, fl) (Pgroonga operand) = pgroonga_match E operand m"
| "eval_cond E d (m, fl) (NotC c) = (\<not> eval_cond E d (m, fl) c)"
| "eval_cond E d (m, fl) (AndC cs) = list_all (eval_cond E d (m, fl)) cs"
| "eval_cond E d (m, fl) (OrC cs) = list_ex (eval_cond E d (m, fl)) cs"

text \<open>
  What the database refuses: flags in a query that does not read the users' rows, and a text that
  is no integer of 32 bits where an id is asked for.
\<close>

fun cond_ok :: "bool \<Rightarrow> sql_cond \<Rightarrow> bool" where
  "cond_ok has_flags (FlagSet mask1) = has_flags"
| "cond_ok has_flags (FlagClear mask1) = has_flags"
| "cond_ok has_flags (MessageIs operand) =
     (case parse_int operand of Inr i \<Rightarrow> - (2 ^ 31) \<le> i \<and> i < 2 ^ 31 | Inl _ \<Rightarrow> False)"
| "cond_ok has_flags (NotC c) = cond_ok has_flags c"
| "cond_ok has_flags (AndC cs) = list_all (cond_ok has_flags) cs"
| "cond_ok has_flags (OrC cs) = list_all (cond_ok has_flags) cs"
| "cond_ok has_flags _ = True"

definition base_rows :: "query_base \<Rightarrow> db \<Rightarrow> msg_row list" where
  "base_rows b d =
     (case b of
        AllMessages \<Rightarrow> map (\<lambda>m. (m, 0)) (messages d)
      | ReceivedBy uid \<Rightarrow> concat (map (\<lambda>um. map (\<lambda>m. (m, um_flags um)) (filter (\<lambda>m. m_id m = um_message um) (messages d)))
          (filter (\<lambda>um. um_user_profile um = uid) (user_messages d)))
      | ReceivedAmong uid ids \<Rightarrow> concat (map (\<lambda>um. map (\<lambda>m. (m, um_flags um)) (filter (\<lambda>m. m_id m = um_message um) (messages d)))
          (filter (\<lambda>um. um_user_profile um = uid \<and> um_message um \<in> set ids) (user_messages d))))"

text \<open>Two joins of one table under the same name are an error of the query.\<close>

definition run_query :: "fetch_env' \<Rightarrow> msg_query \<Rightarrow> db \<Rightarrow> pyerr + msg_row list" where
  "run_query E q d =
     (if \<not> list_all (cond_ok (mq_base q \<noteq> AllMessages)) (mq_conds q) \<or> mq_recipient_joins q > 1
      then Inl (OtherError ''DatabaseError'')
      else Inr (filter (\<lambda>row. (mq_recipient_joins q > 0 \<longrightarrow> db_exists (\<lambda>r. rc_id r = m_recipient (fst row)) (recipients d)) \<and>
             list_all (eval_cond E d row) (mq_conds q)) (base_rows (mq_base q) d)))"

section \<open>Narrowing\<close>

record narrow_term =
  nt_operator :: string
  nt_operand :: string
  nt_negated :: bool

definition bad_narrow :: "string \<Rightarrow> pyerr" where
  "bad_narrow desc = JsonableError (''Invalid narrow operator: '' @ desc)"

definition maybe_negate :: "bool \<Rightarrow> sql_cond \<Rightarrow> sql_cond" where
  "maybe_negate negated c = (if negated then NotC c else c)"

text \<open>The muted streams and topics of a user\<close>

definition get_stream_name_from_narrow :: "narrow_term list option \<Rightarrow> string option" where
  "get_stream_name_from_narrow narrow =
     (case narrow of
        None \<Rightarrow> None
      | Some terms \<Rightarrow> map_option (\<lambda>t. str_lower (nt_operand t)) (find (\<lambda>t. nt_operator t = ''stream'') terms))"

definition muted_topic_of :: "pyval \<Rightarrow> pyerr + string \<times> string" where
  "muted_topic_of v =
     (case v of PList (PStr s # PStr t # _) \<Rightarrow> Inr (s, t) | _ \<Rightarrow> Inl (TypeError ''muted topic''))"

definition muted_recipient_ids :: "user_profile \<Rightarrow> db \<Rightarrow> int list" where
  "muted_recipient_ids u d =
     map sub_recipient (filter (\<lambda>x. sub_user_profile x = u_id u \<and> sub_active x \<and> sub_in_home_view x = Some False \<and>
       db_exists (\<lambda>r. rc_id r = sub_recipient x \<and> rc_type r = STREAM) (recipients d)) (subscriptions d))"

definition mute_cond :: "(string \<times> int) list \<Rightarrow> string \<times> string \<Rightarrow> sql_cond" where
  "mute_cond recipient_map muted =
     AndC [RecipientIn (case map_of recipient_map (str_lower (fst muted)) of None \<Rightarrow> [] | Some i \<Rightarrow> [i]), TopicUpper (snd muted)]"

definition muted_topic_conditions :: "user_profile \<Rightarrow> (string \<times> string) list \<Rightarrow> db \<Rightarrow> pyerr + sql_cond list" where
  "muted_topic_conditions u muted_topics d =
     (let muted_streams = map snd (bulk_get_streams (u_realm u) (map fst muted_topics) d);
          muted_recipients = bulk_get_recipients STREAM (map st_id muted_streams) d in
      ebind (emap (\<lambda>s. ebind (the_some (KeyError (int_str (st_id s))) (map_of muted_recipients (st_id s))) (\<lambda>r.
               Inr (str_lower (st_name s), rc_id r))) muted_streams) (\<lambda>recipient_map.
      let muted_topics = filter (\<lambda>m. str_lower (fst m) \<in> fst ` set recipient_map) muted_topics in
      Inr (if muted_topics = [] then [] else [NotC (OrC (map (mute_cond recipient_map) muted_topics))])))"

definition exclude_muting_conditions ::
  "fetch_env' \<Rightarrow> user_profile \<Rightarrow> narrow_term list option \<Rightarrow> db \<Rightarrow> pyerr + sql_cond list" where
  "exclude_muting_conditions E u narrow d =
     (let stream_name = get_stream_name_from_narrow narrow;
          muted_ids = muted_recipient_ids u d;
          conditions = (if stream_name = None \<and> muted_ids \<noteq> [] then [NotC (RecipientIn muted_ids)] else []) in
      ebind (json_loads (se_render (mf_send E)) (u_muted_topics u)) (\<lambda>v.
      ebind (as_list v) (\<lambda>vs.
      ebind (emap muted_topic_of vs) (\<lambda>muted_topics.
      let muted_topics = (case stream_name of None \<Rightarrow> muted_topics
            | Some n \<Rightarrow> filter (\<lambda>m. str_lower (fst m) = n) muted_topics) in
      if muted_topics = [] then Inr conditions
      else ebind (muted_topic_conditions u muted_topics d) (\<lambda>cs. Inr (conditions @ cs))))))"

section \<open>Names in a Zephyr realm\<close>

text \<open>
  \<open>^(?:un)*(.+?)(?:\.d)*$\<close>, ignoring case: the first group. Of the ways to match, a larger number of \<open>un\<close>
  comes first and then a shorter group; a final newline may follow and the group has none.
\<close>

fun strip_uns :: "string \<Rightarrow> string list" where
  "strip_uns (a # b # s) = (if str_lower [a, b] = ''un'' then strip_uns s @ [a # b # s] else [a # b # s])"
| "strip_uns s = [s]"

fun only_ds :: "string \<Rightarrow> bool" where
  "only_ds [] = True"
| "only_ds [c] = (c = CHR ''\<newline>'')"
| "only_ds (a # b # s) = (str_lower [a, b] = ''.d'' \<and> only_ds s)"

definition shortest_base :: "nat \<Rightarrow> string \<Rightarrow> string option" where
  "shortest_base least s =
     map_option (\<lambda>k. take k s)
       (find (\<lambda>k. only_ds (drop k s) \<and> CHR ''\<newline>'' \<notin> set (take k s)) [least..<Suc (length s)])"

fun first_some :: "('a \<Rightarrow> 'b option) \<Rightarrow> 'a list \<Rightarrow> 'b option" where
  "first_some f [] = None"
| "first_some f (x # xs) = (case f x of None \<Rightarrow> first_some f xs | Some y \<Rightarrow> Some y)"

definition base_stream_name :: "string \<Rightarrow> string option" where
  "base_stream_name name = first_some (shortest_base 1) (strip_uns name)"

text \<open>Postgres' \<open>^(un)*base(\.d)*$\<close>, ignoring case, with the base escaped.\<close>

fun ends_ds :: "string \<Rightarrow> bool" where
  "ends_ds [] = True"
| "ends_ds [c] = False"
| "ends_ds (a # b # s) = (str_lower [a, b] = ''.d'' \<and> ends_ds s)"

definition zephyr_variant :: "string \<Rightarrow> string \<Rightarrow> bool" where
  "zephyr_variant base name \<longleftrightarrow>
     list_ex (\<lambda>s. str_lower (take (length base) s) = str_lower base \<and> ends_ds (drop (length base) s)) (strip_uns name)"

definition with_ds :: "string \<Rightarrow> sql_cond list" where
  "with_ds t = map (\<lambda>ds. TopicUpper (t @ ds)) [[], ''.d'', ''.d.d'', ''.d.d.d'', ''.d.d.d.d'']"

definition zephyr_topic_cond :: "string \<Rightarrow> sql_cond" where
  "zephyr_topic_cond base_topic =
     (if base_topic \<in> set [[], ''personal'', ''(instance \"\")'']
      then OrC (with_ds [] @ with_ds ''personal'' @ with_ds ''(instance \"\")'')
      else OrC (with_ds base_topic))"

section \<open>The terms of a narrow\<close>

type_synonym term_method = "msg_query \<Rightarrow> string \<Rightarrow> bool \<Rightarrow> msg_query act"

definition by_has :: term_method where
  "by_has q operand negated =
     (if operand \<notin> set [''attachment'', ''image'', ''link''] then raise (bad_narrow (''unknown 'has' operand '' @ operand))
      else ret (where_cond (maybe_negate negated (HasContent operand)) q))"

definition by_in :: "fetch_env' \<Rightarrow> user_profile \<Rightarrow> term_method" where
  "by_in E u q operand negated =
     (if operand = ''home'' then seq (query (exclude_muting_conditions E u (Some []))) (\<lambda>cs. ret (where_cond (AndC cs) q))
      else if operand = ''all'' then ret q
      else raise (bad_narrow (''unknown 'in' operand '' @ operand)))"

text \<open>The masks of the flags \<open>read\<close>, \<open>starred\<close> and \<open>mentioned\<close>\<close>

definition by_is :: term_method where
  "by_is q operand negated =
     (if operand = ''private'' then
        ret (where_cond (maybe_negate negated (RecipientTypeIn [PERSONAL, HUDDLE])) (q\<lparr>mq_recipient_joins := mq_recipient_joins q + 1\<rparr>))
      else if operand = ''starred'' then ret (where_cond (maybe_negate negated (FlagSet 2)) q)
      else if operand = ''unread'' then ret (where_cond (maybe_negate negated (FlagClear 1)) q)
      else if operand = ''mentioned'' \<or> operand = ''alerted'' then ret (where_cond (maybe_negate negated (FlagSet 8)) q)
      else raise (bad_narrow (''unknown 'is' operand '' @ operand)))"

definition zephyr_stream_cond :: "user_profile \<Rightarrow> stream \<Rightarrow> db \<Rightarrow> pyerr + sql_cond" where
  "zephyr_stream_cond u st d =
     ebind (is_public d st) (\<lambda>public.
     if public then Inl (AssertionError [])
     else case base_stream_name (st_name st) of
       None \<Rightarrow> Inl (AssertionError [])
     | Some base_name \<Rightarrow>
         let ids = map st_id (filter (\<lambda>x. zephyr_variant base_name (st_name x)) (get_active_streams (u_realm u) d)) in
         Inr (RecipientIn (map (\<lambda>(_, r). rc_id r) (bulk_get_recipients STREAM ids d))))"

definition by_stream :: "user_profile \<Rightarrow> term_method" where
  "by_stream u q operand negated =
     seq (query (\<lambda>d.
       ebind (case get_stream operand (u_realm u) d of
                Inl (DoesNotExist _) \<Rightarrow> Inl (bad_narrow (''unknown stream '' @ operand)) | r \<Rightarrow> r) (\<lambda>st.
       ebind (the_realm (u_realm u) d) (\<lambda>r.
         if is_zephyr_mirror_realm r then zephyr_stream_cond u st d
         else ebind (get_recipient STREAM (st_id st) d) (\<lambda>rc. Inr (RecipientIn [rc_id rc])))))) (\<lambda>c.
       ret (where_cond (maybe_negate negated c) q))"

definition by_topic :: "user_profile \<Rightarrow> term_method" where
  "by_topic u q operand negated =
     seq (query (\<lambda>d. ebind (the_realm (u_realm u) d) (\<lambda>r.
       if is_zephyr_mirror_realm r
       then (case shortest_base 0 operand of None \<Rightarrow> Inl (AssertionError []) | Some b \<Rightarrow> Inr (zephyr_topic_cond b))
       else Inr (TopicUpper operand)))) (\<lambda>c. ret (where_cond (maybe_negate negated c) q))"

definition narrow_user :: "fetch_env' \<Rightarrow> user_profile \<Rightarrow> string \<Rightarrow> db \<Rightarrow> pyerr + user_profile" where
  "narrow_user E u operand d =
     (case get_user_including_cross_realm (se_settings (mf_send E)) operand (Some (u_realm u)) d of
        Inl (DoesNotExist _) \<Rightarrow> Inl (bad_narrow (''unknown user '' @ operand)) | r \<Rightarrow> r)"

definition by_sender :: "fetch_env' \<Rightarrow> user_profile \<Rightarrow> term_method" where
  "by_sender E u q operand negated =
     seq (query (narrow_user E u operand)) (\<lambda>sender. ret (where_cond (maybe_negate negated (SenderIs (u_id sender))) q))"

definition by_near :: term_method where
  "by_near q operand negated = ret q"

definition by_id :: term_method where
  "by_id q operand negated = ret (where_cond (maybe_negate negated (MessageIs operand)) q)"

text \<open>A group of several addresses: the recipient is looked up as if a message were sent, which makes a huddle that is new.\<close>

definition pm_with_group :: "fetch_env' \<Rightarrow> user_profile \<Rightarrow> string \<Rightarrow> recipient act" where
  "pm_with_group E u operand =
     (let emails = filter (\<lambda>e. e \<noteq> u_email u) (map str_strip (str_split (CHR '','') operand)) in
      try_except (recipient_for_emails (mf_send E) emails False (Some u) u)
        (\<lambda>e. case e of ValidationError _ \<Rightarrow> Some (raise (bad_narrow (''unknown recipient '' @ operand))) | _ \<Rightarrow> None))"

definition pm_with_one :: "fetch_env' \<Rightarrow> user_profile \<Rightarrow> string \<Rightarrow> db \<Rightarrow> pyerr + sql_cond" where
  "pm_with_one E u operand d =
     ebind (get_recipient PERSONAL (u_id u) d) (\<lambda>self_recipient.
     if operand = u_email u then Inr (AndC [SenderIs (u_id u), RecipientIn [rc_id self_recipient]])
     else ebind (narrow_user E u operand d) (\<lambda>narrow_profile.
       ebind (get_recipient PERSONAL (u_id narrow_profile) d) (\<lambda>narrow_recipient.
         Inr (OrC [AndC [SenderIs (u_id narrow_profile), RecipientIn [rc_id self_recipient]],
                   AndC [SenderIs (u_id u), RecipientIn [rc_id narrow_recipient]]]))))"

definition by_pm_with :: "fetch_env' \<Rightarrow> user_profile \<Rightarrow> term_method" where
  "by_pm_with E u q operand negated =
     (if CHR '','' \<in> set operand
      then seq (pm_with_group E u operand) (\<lambda>rc. ret (where_cond (maybe_negate negated (RecipientIn [rc_id rc])) q))
      else seq (query (pm_with_one E u operand)) (\<lambda>c. ret (where_cond (maybe_negate negated c) q)))"

definition huddle_recipient_ids :: "int \<Rightarrow> db \<Rightarrow> int list" where
  "huddle_recipient_ids uid d =
     map sub_recipient (filter (\<lambda>x. sub_user_profile x = uid \<and>
       db_exists (\<lambda>r. rc_id r = sub_recipient x \<and> rc_type r = HUDDLE) (recipients d)) (subscriptions d))"

definition by_group_pm_with :: "fetch_env' \<Rightarrow> user_profile \<Rightarrow> term_method" where
  "by_group_pm_with E u q operand negated =
     seq (query (narrow_user E u operand)) (\<lambda>narrow_profile.
     seq (lookup (\<lambda>d. filter (\<lambda>i. i \<in> set (huddle_recipient_ids (u_id narrow_profile) d)) (remdups (huddle_recipient_ids (u_id u) d)))) (\<lambda>ids.
       ret (where_cond (maybe_negate negated (RecipientIn ids)) q)))"

text \<open>\<open>re.findall('"[^"]+"|\S+', operand)\<close>\<close>

function search_words :: "string \<Rightarrow> string list" where
  "search_words [] = []"
| "search_words (c # s) =
     (let quoted = takeWhile (\<lambda>x. x \<noteq> CHR ''\"'') s; rest = dropWhile (\<lambda>x. x \<noteq> CHR ''\"'') s in
      if c = CHR ''\"'' \<and> quoted \<noteq> [] \<and> rest \<noteq> [] then (c # quoted @ ''\"'') # search_words (tl rest)
      else if is_space c then search_words s
      else (c # takeWhile (\<lambda>x. \<not> is_space x) s) # search_words (dropWhile (\<lambda>x. \<not> is_space x) s))"
  by pat_completeness auto

termination search_words
proof (relation "measure length", goal_cases)
  case (2 c s x xa)
  then show ?case using length_dropWhile_le[of "\<lambda>x. x \<noteq> CHR ''\"''" s] by simp
next
  case (4 c s x xa)
  then show ?case using length_dropWhile_le[of "\<lambda>x. \<not> is_space x" s] by simp
qed auto

definition quoted_terms :: "string \<Rightarrow> string list" where
  "quoted_terms operand =
     map (\<lambda>w. butlast (tl w)) (filter (\<lambda>w. hd w = CHR ''\"'' \<and> last w = CHR ''\"'') (search_words operand))"

definition add_highlight :: "string \<Rightarrow> msg_query \<Rightarrow> msg_query" where
  "add_highlight operand q = q\<lparr>mq_highlights := mq_highlights q @ [operand]\<rparr>"

definition by_search_pgroonga :: term_method where
  "by_search_pgroonga q operand negated = ret (where_cond (maybe_negate negated (Pgroonga operand)) (add_highlight operand q))"

definition by_search_tsearch :: term_method where
  "by_search_tsearch q operand negated =
     ret (where_cond (maybe_negate negated (Tsquery operand))
       (foldl (\<lambda>q t. where_cond (maybe_negate negated (ContainsText t)) q) (add_highlight operand q) (quoted_terms operand)))"

definition by_search :: "fetch_env' \<Rightarrow> term_method" where
  "by_search E q operand negated =
     (if USING_PGROONGA E then by_search_pgroonga q operand negated else by_search_tsearch q operand negated)"

definition term_methods :: "fetch_env' \<Rightarrow> user_profile \<Rightarrow> (string \<times> term_method) list" where
  "term_methods E u =
     [(''by_has'', by_has), (''by_in'', by_in E u), (''by_is'', by_is), (''by_stream'', by_stream u), (''by_topic'', by_topic u),
      (''by_sender'', by_sender E u), (''by_near'', by_near), (''by_id'', by_id), (''by_pm_with'', by_pm_with E u),
      (''by_group_pm_with'', by_group_pm_with E u), (''by_search'', by_search E)]"

definition add_term :: "fetch_env' \<Rightarrow> user_profile \<Rightarrow> msg_query \<Rightarrow> narrow_term \<Rightarrow> msg_query act" where
  "add_term E u q t =
     (case map_of (term_methods E u) (''by_'' @ map (\<lambda>c. if c = CHR ''-'' then CHR ''_'' else c) (nt_operator t)) of
        None \<Rightarrow> raise (bad_narrow (''unknown operator '' @ nt_operator t))
      | Some method \<Rightarrow> method q (nt_operand t) (nt_negated t))"

section \<open>The narrow of a request\<close>

definition narrow_elem_validator :: validator where
  "narrow_elem_validator = check_dict [(''operator'', check_string), (''operand'', check_string)] False"

definition convert_term :: "pyval \<Rightarrow> pyerr + narrow_term" where
  "convert_term elem =
     (case elem of
        PList l \<Rightarrow>
          (case l of [PStr a, PStr b] \<Rightarrow> Inr \<lparr>nt_operator = a, nt_operand = b, nt_negated = False\<rparr>
           | _ \<Rightarrow> Inl (ValueError ''element is not a string pair''))
      | PDict x \<Rightarrow>
          ebind (narrow_elem_validator ''elem'' elem) (\<lambda>error.
          if is_error error then Inl (JsonableError (the error))
          else ebind (get_str x ''operator'') (\<lambda>operator1. ebind (get_str x ''operand'') (\<lambda>operand.
            Inr \<lparr>nt_operator = operator1, nt_operand = operand, nt_negated = truthy (dget_default x ''negated'' (PBool False))\<rparr>)))
      | _ \<Rightarrow> Inl (ValueError ''element is not a dictionary''))"

definition narrow_parameter :: "(string \<Rightarrow> pyerr + pyval) \<Rightarrow> string \<Rightarrow> pyerr + narrow_term list option" where
  "narrow_parameter loads json =
     ebind (loads json) (\<lambda>data.
       case data of
         PList l \<Rightarrow> if l = [] then Inr None else ebind (emap convert_term l) (\<lambda>ts. Inr (Some ts))
       | _ \<Rightarrow> Inl (ValueError ''argument is not a list''))"

definition is_public_stream :: "string \<Rightarrow> int \<Rightarrow> db \<Rightarrow> pyerr + bool" where
  "is_public_stream stream_name realm_id d =
     (case get_stream stream_name realm_id d of
        Inl (DoesNotExist _) \<Rightarrow> Inr False
      | Inl e \<Rightarrow> Inl e
      | Inr st \<Rightarrow> is_public d st)"

definition ok_to_include_history :: "narrow_term list option \<Rightarrow> int \<Rightarrow> db \<Rightarrow> pyerr + bool" where
  "ok_to_include_history narrow realm_id d =
     (case narrow of
        None \<Rightarrow> Inr False
      | Some terms \<Rightarrow>
          ebind (emap (\<lambda>t. is_public_stream (nt_operand t) realm_id d)
                  (filter (\<lambda>t. nt_operator t = ''stream'' \<and> \<not> nt_negated t) terms)) (\<lambda>public.
            Inr (True \<in> set public \<and> \<not> list_ex (\<lambda>t. nt_operator t = ''is'') terms)))"

section \<open>Highlighting\<close>

definition highlight_start :: string where
  "highlight_start = ''<span class=\"highlight\">''"

definition highlight_stop :: string where
  "highlight_stop = ''</span>''"

text \<open>\<open>s[a:b]\<close>\<close>

definition slice :: "string \<Rightarrow> nat \<Rightarrow> nat \<Rightarrow> string" where
  "slice s a b = take (b - a) (drop a s)"

definition tag_state :: "bool \<Rightarrow> string \<Rightarrow> bool" where
  "tag_state in_tag s = foldl (\<lambda>b c. if c = CHR ''<'' then True else if c = CHR ''>'' then False else b) in_tag s"

fun highlight_loop :: "string \<Rightarrow> nat \<Rightarrow> bool \<Rightarrow> string \<Rightarrow> (nat \<times> nat) list \<Rightarrow> string" where
  "highlight_loop s pos in_tag result [] = result @ drop pos s"
| "highlight_loop s pos in_tag result ((offset, len) # locs) =
     (let in_tag' = tag_state in_tag (slice s pos (offset + len));
          result' = (if in_tag' then result @ slice s pos (offset + len)
            else result @ slice s pos offset @ highlight_start @ slice s offset (offset + len) @ highlight_stop)
      in highlight_loop s (offset + len) in_tag' result' locs)"

definition highlight_string :: "string \<Rightarrow> (nat \<times> nat) list \<Rightarrow> string" where
  "highlight_string s locs = highlight_loop s 0 False [] locs"

text \<open>\<open>get_search_fields\<close>; without PGroonga the positions in the topic are those in the escaped topic.\<close>

definition get_search_fields :: "fetch_env' \<Rightarrow> string \<Rightarrow> message \<Rightarrow> pyerr + pydict" where
  "get_search_fields E operand m =
     ebind (the_some (TypeError ''rendered_content'') (m_rendered_content m)) (\<lambda>rendered_content.
     let escaped = html_escape (m_subject m);
         subject_matches = match_locs E operand (if USING_PGROONGA E then m_subject m else escaped) in
     Inr [(''match_content'', PStr (highlight_string rendered_content (match_locs E operand rendered_content))),
          (''match_subject'', PStr (highlight_string escaped subject_matches))])"

section \<open>Fetching a window of messages\<close>

definition LARGER_THAN_MAX_MESSAGE_ID :: int where
  "LARGER_THAN_MAX_MESSAGE_ID = 10000000000000000"

record messages_request =
  mr_anchor :: int
  mr_num_before :: nat
  mr_num_after :: nat
  mr_narrow :: "narrow_term list option"
  mr_use_first_unread_anchor :: bool
  mr_apply_markdown :: bool

text \<open>The loop over the terms: the searches are joined into the first one, which is added last.\<close>

fun add_terms :: "fetch_env' \<Rightarrow> user_profile \<Rightarrow> msg_query \<Rightarrow> narrow_term option \<Rightarrow> narrow_term list \<Rightarrow> (msg_query \<times> narrow_term option) act" where
  "add_terms E u q search_term [] =
     (case search_term of
        None \<Rightarrow> ret (q, None)
      | Some t \<Rightarrow> seq (add_term E u q t) (\<lambda>q. ret (q, search_term)))"
| "add_terms E u q search_term (t # ts) =
     (if nt_operator t = ''search'' then
        add_terms E u q (Some (case search_term of
            None \<Rightarrow> t | Some t0 \<Rightarrow> t0\<lparr>nt_operand := nt_operand t0 @ '' '' @ nt_operand t\<rparr>)) ts
      else seq (add_term E u q t) (\<lambda>q. add_terms E u q search_term ts))"

definition ascending :: "msg_row list \<Rightarrow> msg_row list" where
  "ascending rows = sort_key (\<lambda>row. m_id (fst row)) rows"

text \<open>The first unread message that is not muted, from the pointer on when there is no narrow\<close>

definition first_unread_anchor :: "fetch_env' \<Rightarrow> user_profile \<Rightarrow> narrow_term list option \<Rightarrow> msg_query \<Rightarrow> db \<Rightarrow> pyerr + int" where
  "first_unread_anchor E u narrow q d =
     ebind (exclude_muting_conditions E u narrow d) (\<lambda>muting_conditions.
     let q = where_cond (AndC (FlagClear 1 # muting_conditions)) q;
         q = (if narrow = None \<or> narrow = Some [] then where_cond (MessageAtLeast (u_pointer u)) q else q) in
     ebind (run_query E q d) (\<lambda>rows.
       Inr (case ascending rows of [] \<Rightarrow> LARGER_THAN_MAX_MESSAGE_ID | row # _ \<Rightarrow> m_id (fst row))))"

definition before_rows :: "fetch_env' \<Rightarrow> msg_query \<Rightarrow> int \<Rightarrow> nat \<Rightarrow> db \<Rightarrow> pyerr + msg_row list" where
  "before_rows E q before_anchor num_before d =
     ebind (run_query E (where_cond (MessageAtMost before_anchor) q) d) (\<lambda>rows. Inr (take num_before (rev (ascending rows))))"

definition after_rows :: "fetch_env' \<Rightarrow> msg_query \<Rightarrow> int \<Rightarrow> nat \<Rightarrow> db \<Rightarrow> pyerr + msg_row list" where
  "after_rows E q anchor num_after d =
     ebind (run_query E (where_cond (MessageAtLeast anchor) q) d) (\<lambda>rows. Inr (take num_after (ascending rows)))"

text \<open>\<open>inner_msg_id_col == anchor\<close>, where the anchor is an integer\<close>

definition window_rows :: "fetch_env' \<Rightarrow> msg_query \<Rightarrow> int \<Rightarrow> nat \<Rightarrow> nat \<Rightarrow> db \<Rightarrow> pyerr + msg_row list" where
  "window_rows E q anchor num_before num_after d =
     (let before_anchor = (if num_after \<noteq> 0 then anchor - 1 else anchor);
          has_after = (num_after \<noteq> 0 \<and> anchor \<noteq> LARGER_THAN_MAX_MESSAGE_ID) in
      ebind (if num_before \<noteq> 0 then
               ebind (before_rows E q before_anchor num_before d) (\<lambda>before.
               ebind (if has_after then after_rows E q anchor num_after d else Inr []) (\<lambda>after. Inr (before @ after)))
             else if has_after then after_rows E q anchor num_after d
             else run_query E (where_cond (AndC [MessageAtLeast anchor, MessageAtMost anchor]) q) d) (\<lambda>rows.
        Inr (ascending rows)))"

definition start_query :: "user_profile \<Rightarrow> bool \<Rightarrow> bool \<Rightarrow> msg_query \<times> bool" where
  "start_query u include_history use_first_unread_anchor =
     (let b = (if include_history \<and> \<not> use_first_unread_anchor then AllMessages else ReceivedBy (u_id u))
      in (\<lparr>mq_base = b, mq_conds = [], mq_recipient_joins = 0, mq_highlights = []\<rparr>, b = AllMessages))"

text \<open>The dictionary of a message from its row and those it refers to\<close>

definition raw_row_args :: "message \<Rightarrow> db \<Rightarrow> pyerr + message_args" where
  "raw_row_args m d =
     ebind (get_user_profile_by_id (m_sender m) d) (\<lambda>sender.
     ebind (the_realm (u_realm sender) d) (\<lambda>r.
     ebind (the_some (DoesNotExist ''Client'') (map_of (client_names d) (m_sending_client m))) (\<lambda>client_name.
     ebind (db_get ''Recipient'' (\<lambda>x. rc_id x = m_recipient m) (recipients d)) (\<lambda>rc.
     ebind (reaction_rows [m_id m] d) (\<lambda>rs.
       Inr \<lparr>ma_message_id = m_id m, ma_last_edit_time = m_last_edit_time m, ma_edit_history = m_edit_history m,
          ma_content = m_content m, ma_subject = m_subject m, ma_pub_date = m_pub_date m,
          ma_rendered_content = m_rendered_content m, ma_rendered_content_version = m_rendered_content_version m,
          ma_sender_id = m_sender m, ma_sender_email = u_email sender, ma_sender_realm_id = rm_id r,
          ma_sender_realm_str = rm_string_id r, ma_sender_full_name = u_full_name sender,
          ma_sender_short_name = u_short_name sender, ma_sender_avatar_source = u_avatar_source sender,
          ma_sender_avatar_version = u_avatar_version sender, ma_sender_is_mirror_dummy = u_is_mirror_dummy sender,
          ma_sending_client_name = client_name, ma_recipient_id = m_recipient m, ma_recipient_type = rc_type rc,
          ma_recipient_type_id = rc_type_id rc, ma_reactions = map snd rs\<rparr>)))))"

definition build_dict_from_raw_db_row :: "fetch_env' \<Rightarrow> message \<Rightarrow> bool \<Rightarrow> pydict act" where
  "build_dict_from_raw_db_row E m apply_markdown = (\<lambda>s.
     case ebind (raw_row_args m (sv_db s)) (\<lambda>a. build_message_dict (se_render (mf_send E)) apply_markdown None a (sv_db s)) of
       Inl e \<Rightarrow> (Inl e, s)
     | Inr (dct, d) \<Rightarrow> (Inr dct, s\<lparr>sv_db := d\<rparr>))"

text \<open>The flags of a message of a history query are those of the user's row, if there is one.\<close>

definition row_flags :: "bool \<Rightarrow> user_profile \<Rightarrow> msg_row \<Rightarrow> db \<Rightarrow> string list" where
  "row_flags include_history u row d =
     (if include_history then
        (case find (\<lambda>um. um_user_profile um = u_id u \<and> um_message um = m_id (fst row)) (user_messages d) of
           None \<Rightarrow> [''read'', ''historical''] | Some um \<Rightarrow> parse_usermessage_flags (um_flags um))
      else parse_usermessage_flags (snd row))"

definition fetched_message :: "fetch_env' \<Rightarrow> user_profile \<Rightarrow> realm \<Rightarrow> bool \<Rightarrow> bool \<Rightarrow> narrow_term option \<Rightarrow> msg_row \<Rightarrow> pydict act" where
  "fetched_message E u r include_history apply_markdown search_term row =
     seq (lookup (row_flags include_history u row)) (\<lambda>flags.
     seq (query (\<lambda>_. case search_term of None \<Rightarrow> Inr [] | Some t \<Rightarrow> get_search_fields E (nt_operand t) (fst row))) (\<lambda>search_fields.
     seq (build_dict_from_raw_db_row E (fst row) apply_markdown) (\<lambda>msg_dict.
     let msg_dict = dupdate (dset ''flags'' (PList (map PStr flags)) msg_dict) search_fields in
     ret (if dhas msg_dict ''edit_history'' \<and> \<not> rm_allow_edit_history r then ddel ''edit_history'' msg_dict else msg_dict))))"

text \<open>
  A row of a history query has no flags and one of a query of the user's rows has them; with a search
  the row is taken apart into as many fields as \<open>include_history\<close> says, which fails when the two differ.
\<close>

definition select_window ::
  "fetch_env' \<Rightarrow> user_profile \<Rightarrow> messages_request \<Rightarrow> bool \<Rightarrow> bool \<Rightarrow> msg_query \<times> narrow_term option \<Rightarrow>
   (msg_row list \<times> bool \<times> narrow_term option) act" where
  "select_window E u req include_history history_query narrowed =
     (case narrowed of (q, search_term) \<Rightarrow>
     let num_extra_messages = (if mr_narrow req = None then 1 else 0);
         num_after = (if mr_num_after req \<noteq> 0 then mr_num_after req + num_extra_messages else 0);
         num_before = (if mr_num_after req \<noteq> 0 then mr_num_before req else mr_num_before req + num_extra_messages) in
     seq (query (\<lambda>d. if mr_use_first_unread_anchor req then first_unread_anchor E u (mr_narrow req) q d else Inr (mr_anchor req))) (\<lambda>anchor.
     seq (query (window_rows E q anchor num_before num_after)) (\<lambda>rows.
     if include_history \<noteq> history_query \<and> search_term \<noteq> None \<and> rows \<noteq> [] then raise (ValueError ''too many values to unpack'')
     else ret (rows, include_history, search_term))))"

definition select_messages :: "fetch_env' \<Rightarrow> user_profile \<Rightarrow> messages_request \<Rightarrow> (msg_row list \<times> bool \<times> narrow_term option) act" where
  "select_messages E u req =
     seq (query (ok_to_include_history (mr_narrow req) (u_realm u))) (\<lambda>include_history.
     case start_query u include_history (mr_use_first_unread_anchor req) of (q, history_query) \<Rightarrow>
     seq (add_terms E u q None (case mr_narrow req of None \<Rightarrow> [] | Some ts \<Rightarrow> ts)) (select_window E u req include_history history_query))"

definition get_messages_backend :: "fetch_env' \<Rightarrow> user_profile \<Rightarrow> messages_request \<Rightarrow> pydict list act" where
  "get_messages_backend E u req =
     seq (query (the_realm (u_realm u))) (\<lambda>r.
     seq (select_messages E u req) (\<lambda>(rows, include_history, search_term).
       collect (fetched_message E u r include_history (mr_apply_markdown req) search_term) rows))"

definition messages_in_narrow_backend :: "fetch_env' \<Rightarrow> user_profile \<Rightarrow> int list \<Rightarrow> narrow_term list option \<Rightarrow> (int \<times> pydict) list act" where
  "messages_in_narrow_backend E u msg_ids narrow =
     seq (let q = \<lparr>mq_base = ReceivedAmong (u_id u) msg_ids, mq_conds = [], mq_recipient_joins = 0, mq_highlights = []\<rparr>
          in foldl (\<lambda>m t. seq m (\<lambda>q. add_term E u q t)) (ret q) (case narrow of None \<Rightarrow> [] | Some ts \<Rightarrow> ts)) (\<lambda>q.
     query (\<lambda>d. ebind (run_query E q d) (emap (\<lambda>row.
       case mq_highlights q of
         [operand] \<Rightarrow> ebind (get_search_fields E operand (fst row)) (\<lambda>fs. Inr (m_id (fst row), fs))
       | _ \<Rightarrow> Inl (ValueError ''values to unpack'')))))"

end
