(* ===== verification/MessageFetchProps.thy ===== *)
theory MessageFetchProps
  imports MessageFetch
begin

text \<open>
  What fetching promises: a term of a narrow only removes messages from a query, what is fetched is
  what the user may read, the window around the anchor is the right one, and highlighting only adds
  tags to a text.
\<close>

section \<open>Terms only remove messages\<close>

definition narrows :: "msg_query \<Rightarrow> msg_query \<Rightarrow> bool" where
  "narrows q q' \<longleftrightarrow> mq_base q' = mq_base q \<and> (\<exists>cs. mq_conds q' = mq_conds q @ cs) \<and> mq_recipient_joins q \<le> mq_recipient_joins q'"

lemma narrows_refl [simp, intro]: "narrows q q"
  by (simp add: narrows_def)

lemma narrows_trans [trans]: "narrows a b \<Longrightarrow> narrows b c \<Longrightarrow> narrows a c"
  by (auto simp: narrows_def)

lemma narrows_where [simp]: "narrows q (where_cond c q)"
  by (simp add: narrows_def where_cond_def)

lemma narrows_highlight [simp]: "narrows q (add_highlight t q)"
  by (simp add: narrows_def add_highlight_def)

lemma narrows_quoted [simp]: "narrows q (foldl (\<lambda>q t. where_cond (f t) q) q ts)"
proof (induction ts arbitrary: q)
  case (Cons t ts)
  have "narrows (where_cond (f t) q) (foldl (\<lambda>q t. where_cond (f t) q) (where_cond (f t) q) ts)" by (rule Cons)
  then show ?case using narrows_trans[OF narrows_where] by simp
qed simp

lemma run_narrows:
  assumes "narrows q q'" and "run_query E q' d = Inr rows'"
  shows "\<exists>rows P. run_query E q d = Inr rows \<and> rows' = filter P rows"
proof -
  obtain cs where cs: "mq_conds q' = mq_conds q @ cs" and base: "mq_base q' = mq_base q"
    and joins: "mq_recipient_joins q \<le> mq_recipient_joins q'"
    using assms(1) by (auto simp: narrows_def)
  let ?keep = "\<lambda>q row. (mq_recipient_joins q > 0 \<longrightarrow> db_exists (\<lambda>r. rc_id r = m_recipient (fst row)) (recipients d)) \<and>
     list_all (eval_cond E d row) (mq_conds q)"
  have ok: "list_all (cond_ok (mq_base q \<noteq> AllMessages)) (mq_conds q')" "mq_recipient_joins q' \<le> 1"
    and rows': "rows' = filter (?keep q') (base_rows (mq_base q) d)"
    using assms(2) base by (auto simp: run_query_def split: if_splits)
  have "run_query E q d = Inr (filter (?keep q) (base_rows (mq_base q) d))"
    using ok joins cs by (simp add: run_query_def)
  moreover have "filter (?keep q') (filter (?keep q) (base_rows (mq_base q) d)) = rows'"
    using rows' joins cs by (auto intro!: filter_cong)
  ultimately show ?thesis by (intro exI[of _ "filter (?keep q) (base_rows (mq_base q) d)"] exI[of _ "?keep q'"]) simp
qed

lemma by_search_narrows:
  assumes "by_search E q operand negated s = (Inr q', s')"
  shows "narrows q q'"
proof (cases "USING_PGROONGA E")
  case True
  then have "q' = where_cond (maybe_negate negated (Pgroonga operand)) (add_highlight operand q)"
    using assms by (simp add: by_search_def by_search_pgroonga_def)
  then show ?thesis using narrows_trans[OF narrows_highlight narrows_where] by simp
next
  case False
  then have "q' = where_cond (maybe_negate negated (Tsquery operand))
      (foldl (\<lambda>q t. where_cond (maybe_negate negated (ContainsText t)) q) (add_highlight operand q) (quoted_terms operand))"
    using assms by (simp add: by_search_def by_search_tsearch_def)
  then show ?thesis using narrows_trans[OF narrows_highlight narrows_trans[OF narrows_quoted narrows_where]] by simp
qed

lemma narrows_then_where:
  "seq m (\<lambda>x. ret (where_cond (f x) q)) s = (Inr q', s') \<Longrightarrow> narrows q q'"
  unfolding seq_Inr by auto

lemma narrows_join: "narrows q (where_cond c (q\<lparr>mq_recipient_joins := mq_recipient_joins q + 1\<rparr>))"
  by (simp add: where_cond_def narrows_def)

lemma by_is_narrows: "by_is q operand negated s = (Inr q', s') \<Longrightarrow> narrows q q'"
  unfolding by_is_def
  apply (simp only: split: if_split_asm)
  apply (simp_all only: act_simps prod.inject sum.inject sum.distinct simp_thms)
  apply (erule conjE, hypsubst, rule narrows_join narrows_where)+
  done

lemma by_pm_with_narrows: "by_pm_with E u q operand negated s = (Inr q', s') \<Longrightarrow> narrows q q'"
  unfolding by_pm_with_def by (simp only: split: if_split_asm) (erule narrows_then_where)+

lemma by_group_pm_with_narrows: "by_group_pm_with E u q operand negated s = (Inr q', s') \<Longrightarrow> narrows q q'"
  unfolding by_group_pm_with_def by (subst (asm) seq_Inr) (auto dest: narrows_then_where)

lemma other_terms_narrow:
  "by_has q operand negated s = (Inr q', s') \<Longrightarrow> narrows q q'"
  "by_near q operand negated s = (Inr q', s') \<Longrightarrow> narrows q q'"
  "by_id q operand negated s = (Inr q', s') \<Longrightarrow> narrows q q'"
  by (auto simp: by_has_def by_near_def by_id_def split: if_splits)

lemma looked_up_terms_narrow:
  "by_stream u q operand negated s = (Inr q', s') \<Longrightarrow> narrows q q'"
  "by_topic u q operand negated s = (Inr q', s') \<Longrightarrow> narrows q q'"
  "by_sender E u q operand negated s = (Inr q', s') \<Longrightarrow> narrows q q'"
  unfolding by_stream_def by_topic_def by_sender_def by (erule narrows_then_where)+

lemma by_in_narrows: "by_in E u q operand negated s = (Inr q', s') \<Longrightarrow> narrows q q'"
  unfolding by_in_def by (simp only: split: if_split_asm) (auto dest: narrows_then_where)

lemma add_term_method:
  assumes "add_term E u q t s = (Inr q', s')"
  obtains meth where "meth \<in> snd ` set (term_methods E u)" "meth q (nt_operand t) (nt_negated t) s = (Inr q', s')"
proof (cases "map_of (term_methods E u) (''by_'' @ map (\<lambda>c. if c = CHR ''-'' then CHR ''_'' else c) (nt_operator t))")
  case None
  then show thesis using assms by (simp only: add_term_def) simp
next
  case (Some meth)
  have "meth \<in> snd ` set (term_methods E u)" using map_of_SomeD[OF Some] by (rule rev_image_eqI) simp
  moreover have "meth q (nt_operand t) (nt_negated t) s = (Inr q', s')" using assms Some by (simp only: add_term_def) simp
  ultimately show thesis by (rule that)
qed

lemma add_term_narrows:
  assumes "add_term E u q t s = (Inr q', s')"
  shows "narrows q q'"
proof -
  obtain meth where "meth \<in> snd ` set (term_methods E u)" and run: "meth q (nt_operand t) (nt_negated t) s = (Inr q', s')"
    using add_term_method[OF assms] by blast
  then have "meth \<in> {by_has, by_in E u, by_is, by_stream u, by_topic u, by_sender E u, by_near, by_id, by_pm_with E u,
      by_group_pm_with E u, by_search E}"
    by (simp add: term_methods_def)
  then show ?thesis
    using run by (elim insertE emptyE) (simp_all add: other_terms_narrow looked_up_terms_narrow by_in_narrows by_group_pm_with_narrows by_is_narrows
        by_pm_with_narrows by_search_narrows)
qed

text \<open>
  C15: A term of a narrow never adds a message to a query, whatever its operator, its operand and its
  negation: on any database, the rows of the narrowed query are rows of the query it was given.
\<close>

theorem narrow_term_never_adds:
  assumes "add_term E u q t s = (Inr q', s')" and "run_query E q' d = Inr rows'"
  shows "\<exists>rows P. run_query E q d = Inr rows \<and> rows' = filter P rows"
  by (rule run_narrows[OF add_term_narrows[OF assms(1)] assms(2)])

lemma add_terms_narrows:
  assumes "add_terms E u q search_term ts s = (Inr (q', r), s')"
  shows "narrows q q'"
  using assms
proof (induction E u q search_term ts arbitrary: s rule: add_terms.induct)
  case (1 E u q search_term)
  then show ?case by (auto simp: seq_Inr split: option.splits dest: add_term_narrows)
next
  case (2 E u q search_term t ts)
  show ?case
  proof (cases "nt_operator t = ''search''")
    case True
    then show ?thesis using "2.IH"(1) "2.prems" by simp
  next
    case False
    then obtain q1 s1 where "add_term E u q t s = (Inr q1, s1)" "add_terms E u q1 search_term ts s1 = (Inr (q', r), s')"
      using "2.prems" by (auto simp: seq_Inr)
    then show ?thesis using "2.IH"(2)[OF False] add_term_narrows narrows_trans by blast
  qed
qed


section \<open>What narrowing leaves alone\<close>

definition readable_part :: "db \<Rightarrow> message list \<times> user_message list \<times> stream list \<times> realm list \<times> recipient list" where
  "readable_part d = (messages d, user_messages d, streams d, realms d, filter (\<lambda>r. rc_type r = STREAM) (recipients d))"

lemma get_huddle_keeps: "preserves (\<lambda>s. readable_part (sv_db s)) (get_huddle ids)"
proof -
  have "preserves (\<lambda>s. readable_part (sv_db s)) fresh_id"
    by (rule preserves_db_part) (rule preserves_intros)
  note [preserves_intros] = this
  show ?thesis unfolding get_huddle_def Let_def
    by (intro preserves_intros) (simp_all add: readable_part_def)
qed

lemma recipient_for_emails_keeps: "preserves (\<lambda>s. readable_part (sv_db s)) (recipient_for_emails E emails b f u)"
  unfolding recipient_for_emails_def by (intro preserves_intros get_huddle_keeps) (auto intro: preserves_intros split: list.splits)

lemma pm_with_group_keeps: "preserves (\<lambda>s. readable_part (sv_db s)) (pm_with_group E u operand)"
  unfolding pm_with_group_def Let_def
proof (intro preserves_try recipient_for_emails_keeps)
  fix e :: pyerr and n :: "recipient act"
  assume "(case e of ValidationError _ \<Rightarrow> Some (raise (bad_narrow (''unknown recipient '' @ operand))) | _ \<Rightarrow> None) = Some n"
  then have "n = raise (bad_narrow (''unknown recipient '' @ operand))" by (cases e) simp_all
  then show "preserves (\<lambda>s. readable_part (sv_db s)) n" by (simp only: preserves_basic)
qed

lemma add_term_keeps: "preserves (\<lambda>s. readable_part (sv_db s)) (add_term E u q t)"
proof -
  have "preserves (\<lambda>s. readable_part (sv_db s)) (meth q operand negated)"
    if "meth \<in> snd ` set (term_methods E u)" for meth operand negated
  proof -
    have "meth \<in> {by_has, by_in E u, by_is, by_stream u, by_topic u, by_sender E u, by_near, by_id, by_pm_with E u,
        by_group_pm_with E u, by_search E}"
      using that by (simp add: term_methods_def)
    then show ?thesis
      by (elim insertE emptyE; hypsubst; unfold by_has_def by_in_def by_is_def by_stream_def by_topic_def by_sender_def by_near_def
          by_id_def by_pm_with_def by_group_pm_with_def by_search_def by_search_pgroonga_def by_search_tsearch_def;
          intro preserves_intros pm_with_group_keeps)
  qed
  note methods = this
  show ?thesis
  proof (cases "map_of (term_methods E u) (''by_'' @ map (\<lambda>c. if c = CHR ''-'' then CHR ''_'' else c) (nt_operator t))")
    case None
    then show ?thesis by (simp only: add_term_def option.simps) (rule preserves_intros)
  next
    case (Some meth)
    have "meth \<in> snd ` set (term_methods E u)" using map_of_SomeD[OF Some] by (rule rev_image_eqI) simp
    then show ?thesis using Some methods by (simp only: add_term_def option.simps)
  qed
qed

lemma add_terms_keeps: "preserves (\<lambda>s. readable_part (sv_db s)) (add_terms E u q search_term ts)"
proof (induction E u q search_term ts rule: add_terms.induct)
  case (1 E u q search_term)
  then show ?case by (auto intro!: preserves_intros add_term_keeps split: option.splits)
next
  case (2 E u q search_term t ts)
  then show ?case by (auto intro!: preserves_intros add_term_keeps)
qed


section \<open>Only readable messages\<close>

lemma base_rows_received:
  assumes "row \<in> set (base_rows (ReceivedBy (u_id u)) d)"
  shows "fst row \<in> set (messages d)" "received u (fst row) d"
  using assms by (auto simp: base_rows_def received_def)

lemma run_query_row:
  assumes "run_query E q d = Inr rows" and "row \<in> set rows"
  shows "row \<in> set (base_rows (mq_base q) d) \<and> list_all (eval_cond E d row) (mq_conds q)"
  using assms by (auto simp: run_query_def split: if_splits)

lemma run_where_row:
  assumes "run_query E (where_cond c q) d = Inr rows" and "row \<in> set rows"
  shows "row \<in> set (base_rows (mq_base q) d) \<and> list_all (eval_cond E d row) (mq_conds q)"
  using run_query_row[OF assms] by (simp add: where_cond_def)

lemma set_ascending [simp]: "set (ascending rows) = set rows"
  by (simp add: ascending_def)

lemma window_row:
  assumes "window_rows E q anchor num_before num_after d = Inr rows" and "row \<in> set rows"
  shows "row \<in> set (base_rows (mq_base q) d) \<and> list_all (eval_cond E d row) (mq_conds q)"
proof -
  have before: "row \<in> set (base_rows (mq_base q) d) \<and> list_all (eval_cond E d row) (mq_conds q)"
    if "before_rows E q a n d = Inr rs" "row \<in> set rs" for a n rs
    using that by (auto simp: before_rows_def dest!: in_set_takeD run_where_row)
  have after: "row \<in> set (base_rows (mq_base q) d) \<and> list_all (eval_cond E d row) (mq_conds q)"
    if "after_rows E q a n d = Inr rs" "row \<in> set rs" for a n rs
    using that by (auto simp: after_rows_def dest!: in_set_takeD run_where_row)
  have exact: "row \<in> set (base_rows (mq_base q) d) \<and> list_all (eval_cond E d row) (mq_conds q)"
    if "run_query E (where_cond c q) d = Inr rs" "row \<in> set rs" for c rs
    using run_where_row that by blast
  show ?thesis
    using assms by (auto simp: window_rows_def Let_def split: if_splits dest: before after exact)
qed

lemma the_realm_part: "readable_part d1 = readable_part d \<Longrightarrow> the_realm i d1 = the_realm i d"
  by (simp add: the_realm_def readable_part_def)

lemma public_stream_term:
  assumes part: "readable_part (sv_db s) = readable_part d" and st: "get_stream operand (u_realm u) d = Inr st"
    and public: "is_public d st = Inr True" and run: "by_stream u q operand False s = (Inr q', s')"
  shows "\<exists>rc \<in> set (recipients d). rc_type rc = STREAM \<and> rc_type_id rc = st_id st \<and> RecipientIn [rc_id rc] \<in> set (mq_conds q')"
proof -
  have st_realm: "st_realm st = u_realm u" using st by (auto simp: get_stream_def dest: db_get_Inr)
  obtain r where r: "the_realm (u_realm u) d = Inr r" "\<not> is_zephyr_mirror_realm r"
    using public st_realm by (auto simp: is_public_def the_realm_def)
  have "get_stream operand (u_realm u) (sv_db s) = Inr st" using st part by (simp add: get_stream_def readable_part_def)
  moreover have "the_realm (u_realm u) (sv_db s) = Inr r" using the_realm_part[OF part] r by simp
  ultimately obtain rc where rc: "get_recipient STREAM (st_id st) (sv_db s) = Inr rc"
    and q': "q' = where_cond (RecipientIn [rc_id rc]) q"
    using run r(2) by (auto simp: by_stream_def seq_Inr maybe_negate_def)
  have "rc \<in> set (recipients (sv_db s))" "rc_type rc = STREAM" "rc_type_id rc = st_id st"
    using rc by (auto simp: get_recipient_def dest: db_get_Inr)
  then have "rc \<in> set (filter (\<lambda>r. rc_type r = STREAM) (recipients (sv_db s)))" by simp
  then have "rc \<in> set (filter (\<lambda>r. rc_type r = STREAM) (recipients d))" using part by (simp add: readable_part_def del: set_filter)
  then have "rc \<in> set (recipients d)" by simp
  then show ?thesis using q' \<open>rc_type rc = STREAM\<close> \<open>rc_type_id rc = st_id st\<close>
    by (intro bexI[of _ rc]) (simp_all add: where_cond_def)
qed

lemma add_stream_term:
  assumes "nt_operator t = ''stream''"
  shows "add_term E u q t = by_stream u q (nt_operand t) (nt_negated t)"
  using assms by (simp add: add_term_def term_methods_def)

lemma narrows_conds: "narrows q q' \<Longrightarrow> c \<in> set (mq_conds q) \<Longrightarrow> c \<in> set (mq_conds q')"
  by (auto simp: narrows_def)

lemma add_terms_public:
  assumes "readable_part (sv_db s) = readable_part d" and "add_terms E u q search_term ts s = (Inr (q', r), s')"
    and "t \<in> set ts" "nt_operator t = ''stream''" "\<not> nt_negated t"
    and "get_stream (nt_operand t) (u_realm u) d = Inr st" "is_public d st = Inr True"
  shows "\<exists>rc \<in> set (recipients d). rc_type rc = STREAM \<and> rc_type_id rc = st_id st \<and> RecipientIn [rc_id rc] \<in> set (mq_conds q')"
  using assms
proof (induction E u q search_term ts arbitrary: s rule: add_terms.induct)
  case (2 E u q search_term t1 ts)
  show ?case
  proof (cases "nt_operator t1 = ''search''")
    case True
    then have "t \<in> set ts" using "2.prems"(3,4) by auto
    then show ?thesis using "2.IH"(1)[OF True, of s] "2.prems" True by simp
  next
    case False
    then obtain q1 s1 where step: "add_term E u q t1 s = (Inr q1, s1)" "add_terms E u q1 search_term ts s1 = (Inr (q', r), s')"
      using "2.prems"(2) by (auto simp: seq_Inr)
    show ?thesis
    proof (cases "t = t1")
      case True
      then have "by_stream u q (nt_operand t) False s = (Inr q1, s1)"
        using step(1) "2.prems"(5) add_stream_term[OF "2.prems"(4), of E u q] by simp
      then show ?thesis
        using public_stream_term[OF "2.prems"(1) "2.prems"(6) "2.prems"(7)] narrows_conds[OF add_terms_narrows[OF step(2)]] by blast
    next
      case neq: False
      have "readable_part (sv_db s1) = readable_part d"
        using preservesD[OF add_term_keeps step(1)] "2.prems"(1) by simp
      then show ?thesis using "2.IH"(2)[OF False _ step(2)] "2.prems" neq by simp
    qed
  qed
qed simp


lemma emap_member: "emap f xs = Inr ys \<Longrightarrow> y \<in> set ys \<Longrightarrow> \<exists>x \<in> set xs. f x = Inr y"
  by (induction xs arbitrary: ys) auto

lemma history_term:
  assumes "ok_to_include_history narrow realm_id d = Inr True"
  obtains ts t st where "narrow = Some ts" "t \<in> set ts" "nt_operator t = ''stream''" "\<not> nt_negated t"
    "get_stream (nt_operand t) realm_id d = Inr st" "is_public d st = Inr True"
proof -
  obtain ts public where ts: "narrow = Some ts" and public: "emap (\<lambda>t. is_public_stream (nt_operand t) realm_id d)
      (filter (\<lambda>t. nt_operator t = ''stream'' \<and> \<not> nt_negated t) ts) = Inr public" "True \<in> set public"
    using assms by (auto simp: ok_to_include_history_def split: option.splits)
  then obtain t where t: "t \<in> set ts" "nt_operator t = ''stream''" "\<not> nt_negated t"
    "is_public_stream (nt_operand t) realm_id d = Inr True"
    using emap_member[OF public] by auto
  then obtain st where "get_stream (nt_operand t) realm_id d = Inr st" "is_public d st = Inr True"
    by (auto simp: is_public_stream_def split: sum.splits pyerr.splits)
  then show thesis using that ts t by blast
qed

lemma select_messages_readable:
  assumes run: "select_messages E u req s = (Inr (rows, include_history, search_term), s')" and row: "row \<in> set rows"
  shows "fst row \<in> set (messages (sv_db s)) \<and> (received u (fst row) (sv_db s) \<or> in_public_stream u (fst row) (sv_db s))"
proof -
  let ?d = "sv_db s" and ?ts = "case mr_narrow req of None \<Rightarrow> [] | Some ts \<Rightarrow> ts"
  obtain q0 history_query q s1 anchor num_before num_after where
    ok: "ok_to_include_history (mr_narrow req) (u_realm u) ?d = Inr include_history"
    and start: "start_query u include_history (mr_use_first_unread_anchor req) = (q0, history_query)"
    and terms: "add_terms E u q0 None ?ts s = (Inr (q, search_term), s1)"
    and window: "window_rows E q anchor num_before num_after (sv_db s1) = Inr rows"
  proof -
    obtain ih where ok: "ok_to_include_history (mr_narrow req) (u_realm u) ?d = Inr ih" and rest: "(case start_query u ih (mr_use_first_unread_anchor req) of (q, history_query) \<Rightarrow>
        seq (add_terms E u q None ?ts) (select_window E u req ih history_query)) s = (Inr (rows, include_history, search_term), s')"
      using run unfolding select_messages_def seq_query_Inr by blast
    obtain q0 h where start: "start_query u ih (mr_use_first_unread_anchor req) = (q0, h)" by (cases "start_query u ih (mr_use_first_unread_anchor req)")
    then obtain q st1 s1 where terms: "add_terms E u q0 None ?ts s = (Inr (q, st1), s1)"
      and w: "select_window E u req ih h (q, st1) s1 = (Inr (rows, include_history, search_term), s')"
      using rest by (auto simp: seq_Inr)
    have "ih = include_history \<and> st1 = search_term \<and> (\<exists>anchor nb na. window_rows E q anchor nb na (sv_db s1) = Inr rows)"
      using w by (auto simp: select_window_def Let_def seq_query_Inr split: if_split_asm)
    then show thesis using that ok start terms by blast
  qed
  have part: "readable_part (sv_db s1) = readable_part ?d" using preservesD[OF add_terms_keeps terms] by simp
  then have same: "messages (sv_db s1) = messages ?d" "user_messages (sv_db s1) = user_messages ?d" by (simp_all add: readable_part_def)
  have base: "mq_base q = mq_base q0" using add_terms_narrows[OF terms] by (simp add: narrows_def)
  have in_base: "row \<in> set (base_rows (mq_base q) (sv_db s1))" and conds: "list_all (eval_cond E (sv_db s1) row) (mq_conds q)"
    using window_row[OF window row] by simp_all
  show ?thesis
  proof (cases "include_history \<and> \<not> mr_use_first_unread_anchor req")
    case False
    then have "mq_base q = ReceivedBy (u_id u)" using start base by (auto simp: start_query_def Let_def)
    then show ?thesis using base_rows_received[of row u "sv_db s1"] in_base same by (simp add: received_def)
  next
    case True
    then have all: "mq_base q = AllMessages" using start base by (auto simp: start_query_def Let_def)
    obtain ts t st where ts: "mr_narrow req = Some ts" "t \<in> set ts" "nt_operator t = ''stream''" "\<not> nt_negated t"
      and st: "get_stream (nt_operand t) (u_realm u) ?d = Inr st" "is_public ?d st = Inr True"
      using history_term ok True by metis
    have "add_terms E u q0 None ts s = (Inr (q, search_term), s1)" using terms ts(1) by simp
    then obtain rc where rc: "rc \<in> set (recipients ?d)" "rc_type rc = STREAM" "rc_type_id rc = st_id st"
      "RecipientIn [rc_id rc] \<in> set (mq_conds q)"
      using add_terms_public[OF refl _ ts(2,3,4) st] by blast
    have "eval_cond E (sv_db s1) row (RecipientIn [rc_id rc])" using conds rc(4) by (auto simp: list_all_iff)
    then have recipient: "rc_id rc = m_recipient (fst row)" by (cases row) simp
    have "st \<in> set (streams ?d)" "st_realm st = u_realm u" using st(1) by (auto simp: get_stream_def dest: db_get_Inr)
    moreover obtain r where "r \<in> set (realms ?d)" "rm_id r = st_realm st" "st_invite_only st \<noteq> Some True" "\<not> is_zephyr_mirror_realm r"
      using st(2) by (auto simp: is_public_def dest: db_get_Inr)
    ultimately have "in_public_stream u (fst row) ?d"
      using rc recipient unfolding in_public_stream_def is_zephyr_mirror_realm_def by metis
    moreover have "fst row \<in> set (messages ?d)" using in_base all same by (auto simp: base_rows_def)
    ultimately show ?thesis by simp
  qed
qed


lemma collect_member:
  assumes "collect f xs s = (Inr ys, s')" and "y \<in> set ys"
  shows "\<exists>x \<in> set xs. \<exists>t t'. f x t = (Inr y, t')"
  using assms
proof (induction xs arbitrary: s ys)
  case (Cons x xs)
  then obtain y1 t ys1 where "f x s = (Inr y1, t)" "collect f xs t = (Inr ys1, s')" "ys = y1 # ys1"
    by (auto simp: seq_Inr)
  then show ?case using Cons by auto
qed simp

lemma build_message_dict_id:
  assumes "build_message_dict R b msg a d = Inr (dct, d')"
  shows "map_of dct ''id'' = Some (PInt (ma_message_id a))"
proof -
  have "\<exists>rest. dct = (''id'', PInt (ma_message_id a)) # rest"
    using assms unfolding build_message_dict_def Let_def
    by (cases "ma_last_edit_time a"; cases "ma_edit_history a") (auto split: prod.splits)
  then show ?thesis by auto
qed

lemma search_fields_keys: "get_search_fields E operand m = Inr fs \<Longrightarrow> map fst fs = [''match_content'', ''match_subject'']"
  by (auto simp: get_search_fields_def Let_def)

lemma fetched_message_id:
  assumes "fetched_message E u r ih b search_term row s = (Inr dct, s')"
  shows "map_of dct ''id'' = Some (PInt (m_id (fst row)))"
proof -
  obtain flags fs md t where fs: "(case search_term of None \<Rightarrow> Inr [] | Some t \<Rightarrow> get_search_fields E (nt_operand t) (fst row)) = Inr fs"
    and md: "build_dict_from_raw_db_row E (fst row) b t = (Inr md, s')"
    and dct: "dct = (let x = dupdate (dset ''flags'' (PList (map PStr flags)) md) fs in
      if dhas x ''edit_history'' \<and> \<not> rm_allow_edit_history r then ddel ''edit_history'' x else x)"
    using assms by (auto simp: fetched_message_def seq_Inr Let_def)
  have "map_of md ''id'' = Some (PInt (m_id (fst row)))"
    using md by (auto simp: build_dict_from_raw_db_row_def raw_row_args_def split: sum.splits prod.splits dest!: build_message_dict_id)
  moreover have "distinct (map fst fs)" "map_of fs ''id'' = None"
    using fs search_fields_keys[of E _ "fst row" fs] by (auto simp: map_of_eq_None_iff split: option.splits simp flip: set_map)
  ultimately show ?thesis by (auto simp: dct Let_def map_of_dupdate map_add_def)
qed

text \<open>
  C6: Every message that is fetched is one that the user may read: whatever the narrow, the anchor and
  the sizes, \<open>access_message\<close> gives the user each message of the answer.
\<close>

theorem get_messages_only_readable:
  assumes "message_refs_ok (sv_db s)" and "get_messages_backend E u req s = (Inr dcts, s')" and "dct \<in> set dcts"
  shows "\<exists>i m um. dget dct ''id'' = Inr (PInt i) \<and> access_message u i (sv_db s) = Inr (m, um)"
proof -
  obtain r rows ih search_term s1 where sel: "select_messages E u req s = (Inr (rows, ih, search_term), s1)"
    and coll: "collect (fetched_message E u r ih (mr_apply_markdown req) search_term) rows s1 = (Inr dcts, s')"
    using assms(2) by (auto simp: get_messages_backend_def seq_Inr)
  obtain row t t' where row: "row \<in> set rows" and f: "fetched_message E u r ih (mr_apply_markdown req) search_term row t = (Inr dct, t')"
    using collect_member[OF coll assms(3)] by blast
  have "dget dct ''id'' = Inr (PInt (m_id (fst row)))" using fetched_message_id[OF f] by (simp add: dget_def)
  moreover have "\<exists>m um. access_message u (m_id (fst row)) (sv_db s) = Inr (m, um)"
  proof (cases "access_message u (m_id (fst row)) (sv_db s)")
    case (Inl e)
    then have "\<not> (\<exists>m \<in> set (messages (sv_db s)). m_id m = m_id (fst row) \<and> (received u m (sv_db s) \<or> in_public_stream u m (sv_db s)))"
      using readable_message_cases[where u = u and mid = "m_id (fst row)", OF assms(1)] by simp
    then show ?thesis using select_messages_readable[OF sel row] by blast
  qed auto
  ultimately show ?thesis by blast
qed


section \<open>The window around the anchor\<close>

definition row_ids :: "msg_row list \<Rightarrow> int list" where
  "row_ids rows = map (\<lambda>row. m_id (fst row)) rows"

text \<open>
  The window as a slice of the sorted ids: the last \<open>nb\<close> of those before the anchor, which counts as one of
  them when nothing after it is asked for, and the first \<open>na\<close> of those from the anchor on.
\<close>

definition window_spec :: "int list \<Rightarrow> int \<Rightarrow> nat \<Rightarrow> nat \<Rightarrow> int list" where
  "window_spec ids anchor nb na =
     (let before = filter (\<lambda>i. i \<le> (if na \<noteq> 0 then anchor - 1 else anchor)) (sort ids); after = filter (\<lambda>i. anchor \<le> i) (sort ids)
      in if nb = 0 \<and> na = 0 then filter (\<lambda>i. i = anchor) (sort ids) else drop (length before - nb) before @ take na after)"

lemma row_ids_ascending: "row_ids (ascending rows) = sort (row_ids rows)"
proof (rule properties_for_sort [symmetric])
  show "sorted (row_ids (ascending rows))" by (simp add: row_ids_def ascending_def)
  show "mset (row_ids (ascending rows)) = mset (row_ids rows)" by (simp add: row_ids_def ascending_def)
qed

lemma row_ids_filter:
  "row_ids (filter (\<lambda>row. m_id (fst row) \<le> b) rows) = filter (\<lambda>i. i \<le> b) (row_ids rows)"
  "row_ids (filter (\<lambda>row. a \<le> m_id (fst row)) rows) = filter (\<lambda>i. a \<le> i) (row_ids rows)"
  "row_ids (filter (\<lambda>row. m_id (fst row) = a) rows) = filter (\<lambda>i. i = a) (row_ids rows)"
  by (simp_all add: row_ids_def filter_map comp_def)

lemma row_ids_simps [simp]:
  "row_ids [] = []" "row_ids (take n rows) = take n (row_ids rows)" "row_ids (rev rows) = rev (row_ids rows)"
  "row_ids (xs @ ys) = row_ids xs @ row_ids ys"
  by (simp_all add: row_ids_def take_map rev_map)

lemma run_where:
  assumes "run_query E q d = Inr rows" and "\<And>b. cond_ok b c" and "\<And>m fl. eval_cond E d (m, fl) c \<longleftrightarrow> P (m_id m)"
  shows "run_query E (where_cond c q) d = Inr (filter (\<lambda>row. P (m_id (fst row))) rows)"
proof -
  have "eval_cond E d row c \<longleftrightarrow> P (m_id (fst row))" for row using assms(3)[of "fst row" "snd row"] by simp
  moreover have "rows = filter (\<lambda>row. (mq_recipient_joins q > 0 \<longrightarrow> db_exists (\<lambda>r. rc_id r = m_recipient (fst row)) (recipients d)) \<and>
      list_all (eval_cond E d row) (mq_conds q)) (base_rows (mq_base q) d)"
    and "list_all (cond_ok (mq_base q \<noteq> AllMessages)) (mq_conds q)" "\<not> mq_recipient_joins q > 1"
    using assms(1) by (simp_all add: run_query_def split: if_splits)
  ultimately show ?thesis using assms(2) by (simp add: run_query_def where_cond_def conj_ac)
qed

lemma before_ids:
  assumes "run_query E q d = Inr rows"
  shows "\<exists>rs. before_rows E q b n d = Inr rs \<and> row_ids rs = take n (rev (filter (\<lambda>i. i \<le> b) (sort (row_ids rows))))"
  using run_where[OF assms, of "MessageAtMost b" "\<lambda>i. i \<le> b"]
  by (simp add: before_rows_def row_ids_ascending row_ids_filter filter_sort)

lemma after_ids:
  assumes "run_query E q d = Inr rows"
  shows "\<exists>rs. after_rows E q a n d = Inr rs \<and> row_ids rs = take n (filter (\<lambda>i. a \<le> i) (sort (row_ids rows)))"
  using run_where[OF assms, of "MessageAtLeast a" "\<lambda>i. a \<le> i"]
  by (simp add: after_rows_def row_ids_ascending row_ids_filter filter_sort)

lemma sort_window:
  assumes "sorted before" and "sorted after" and "\<And>x y. x \<in> set before \<Longrightarrow> y \<in> set after \<Longrightarrow> x \<le> (y::int)"
  shows "sort (take nb (rev before) @ take na after) = drop (length before - nb) before @ take na after"
proof (rule properties_for_sort)
  show "mset (drop (length before - nb) before @ take na after) = mset (take nb (rev before) @ take na after)"
    by (simp add: take_rev)
  show "sorted (drop (length before - nb) before @ take na after)"
    using assms by (auto simp: sorted_append sorted_wrt_drop sorted_wrt_take dest!: in_set_dropD in_set_takeD)
qed

lemma sort_last:
  assumes "sorted before" shows "sort (take nb (rev before)) = drop (length before - nb) (before :: int list)"
  using sort_window[OF assms, of "[]" nb 0] by simp

lemma sort_take: "sorted xs \<Longrightarrow> sort (take n xs) = take n (xs :: int list)"
  by (simp add: sorted_sort_id sorted_wrt_take)

lemma sorted_ids: "sorted (filter P (sort (xs :: int list)))"
  by (simp add: sorted_wrt_filter)

text \<open>
  C16: The messages of the answer are exactly the window of the narrowed messages around the anchor: for a
  query with the rows \<open>rows\<close>, the ids come out in ascending order as the slice of the sorted ids that the
  request asks for.
\<close>

theorem window_exact:
  assumes "run_query E q d = Inr rows" and "\<And>row. row \<in> set rows \<Longrightarrow> m_id (fst row) < LARGER_THAN_MAX_MESSAGE_ID"
  shows "\<exists>rs. window_rows E q anchor nb na d = Inr rs \<and> row_ids rs = window_spec (row_ids rows) anchor nb na"
proof -
  let ?ids = "sort (row_ids rows)"
  let ?b = "if na \<noteq> 0 then anchor - 1 else anchor"
  have small: "filter (\<lambda>i. anchor \<le> i) ?ids = [] \<and> filter (\<lambda>i. i = anchor) ?ids = []" if "anchor = LARGER_THAN_MAX_MESSAGE_ID"
    using assms(2) that by (force simp: filter_empty_conv row_ids_def)
  obtain rb where rb: "before_rows E q ?b nb d = Inr rb" "row_ids rb = take nb (rev (filter (\<lambda>i. i \<le> ?b) ?ids))"
    using before_ids[OF assms(1)] by blast
  obtain ra where ra: "after_rows E q anchor na d = Inr ra" "row_ids ra = take na (filter (\<lambda>i. anchor \<le> i) ?ids)"
    using after_ids[OF assms(1)] by blast
  have exact: "run_query E (where_cond (AndC [MessageAtLeast anchor, MessageAtMost anchor]) q) d =
      Inr (filter (\<lambda>row. m_id (fst row) = anchor) rows)"
    by (rule run_where[OF assms(1)]) auto
  have both: "sort (row_ids rb @ row_ids ra) = drop (length (filter (\<lambda>i. i \<le> ?b) ?ids) - nb) (filter (\<lambda>i. i \<le> ?b) ?ids) @
      take na (filter (\<lambda>i. anchor \<le> i) ?ids)" if "na \<noteq> 0"
    unfolding rb(2) ra(2) using that by (intro sort_window sorted_ids) auto
  have only: "sort (row_ids rb) = drop (length (filter (\<lambda>i. i \<le> ?b) ?ids) - nb) (filter (\<lambda>i. i \<le> ?b) ?ids)"
    unfolding rb(2) by (rule sort_last[OF sorted_ids])
  have first: "sort (row_ids ra) = take na (filter (\<lambda>i. anchor \<le> i) ?ids)"
    unfolding ra(2) by (rule sort_take[OF sorted_ids])
  show ?thesis
  proof (cases "na = 0 \<or> anchor = LARGER_THAN_MAX_MESSAGE_ID")
    case True
    then have "take na (filter (\<lambda>i. anchor \<le> i) ?ids) = []" using small by auto
    then show ?thesis
      using rb(1) exact only small True
      by (cases "nb = 0") (auto simp: window_rows_def window_spec_def Let_def row_ids_ascending row_ids_filter filter_sort)
  next
    case False
    then show ?thesis
      using rb(1) ra(1) both first by (cases "nb = 0") (simp_all add: window_rows_def window_spec_def Let_def row_ids_ascending)
  qed
qed


section \<open>Highlighting only adds tags\<close>

fun locs_ok :: "nat \<Rightarrow> nat \<Rightarrow> (nat \<times> nat) list \<Rightarrow> bool" where
  "locs_ok n pos [] \<longleftrightarrow> pos \<le> n"
| "locs_ok n pos ((offset, len) # locs) \<longleftrightarrow> pos \<le> offset \<and> offset + len \<le> n \<and> locs_ok n (offset + len) locs"

definition marked :: "(bool \<times> string) list \<Rightarrow> string" where
  "marked pieces = concat (map (\<lambda>(hl, t). if hl then highlight_start @ t @ highlight_stop else t) pieces)"

text \<open>A highlighted piece may not end inside a tag; \<open>in_tag\<close> is the state before the pieces.\<close>

fun ends_outside_tags :: "bool \<Rightarrow> (bool \<times> string) list \<Rightarrow> bool" where
  "ends_outside_tags in_tag [] \<longleftrightarrow> True"
| "ends_outside_tags in_tag ((hl, t) # pieces) \<longleftrightarrow> (hl \<longrightarrow> \<not> tag_state in_tag t) \<and> ends_outside_tags (tag_state in_tag t) pieces"

lemma slice_split:
  assumes "a \<le> b" and "b \<le> c"
  shows "slice s a c = slice s a b @ slice s b c"
proof -
  have sum: "c - a = (b - a) + (c - b)" and "b - a + a = b" using assms by simp_all
  then show ?thesis unfolding slice_def sum take_add drop_drop by simp
qed

lemma drop_slice: "a \<le> b \<Longrightarrow> drop a s = slice s a b @ drop b s"
  using append_take_drop_id[of "b - a" "drop a s"] by (simp add: slice_def)

lemma highlight_loop_pieces:
  assumes "locs_ok (length s) pos locs"
  shows "\<exists>pieces. highlight_loop s pos in_tag result locs = result @ marked pieces \<and> concat (map snd pieces) = drop pos s \<and>
    ends_outside_tags in_tag pieces"
  using assms
proof (induction s pos in_tag result locs rule: highlight_loop.induct)
  case (1 s pos in_tag result)
  show ?case by (rule exI[of _ "[(False, drop pos s)]"]) (simp add: marked_def)
next
  case (2 s pos in_tag result offset len locs)
  let ?e = "offset + len"
  let ?in' = "tag_state in_tag (slice s pos ?e)"
  have order: "pos \<le> offset" "locs_ok (length s) ?e locs" using "2.prems" by simp_all
  have split: "slice s pos ?e = slice s pos offset @ slice s offset ?e" using order by (intro slice_split) simp_all
  have rest: "drop pos s = slice s pos ?e @ drop ?e s" using order by (intro drop_slice) simp
  obtain pieces where p: "highlight_loop s ?e ?in' (if ?in' then result @ slice s pos ?e
      else result @ slice s pos offset @ highlight_start @ slice s offset ?e @ highlight_stop) locs =
      (if ?in' then result @ slice s pos ?e
       else result @ slice s pos offset @ highlight_start @ slice s offset ?e @ highlight_stop) @ marked pieces"
    "concat (map snd pieces) = drop ?e s" "ends_outside_tags ?in' pieces"
    using "2.IH"[OF refl refl order(2)] by blast
  show ?case
  proof (cases ?in')
    case True
    then show ?thesis using p rest
      by (intro exI[of _ "(False, slice s pos ?e) # pieces"]) (simp add: marked_def Let_def)
  next
    case False
    moreover have "tag_state (tag_state in_tag (slice s pos offset)) (slice s offset ?e) = ?in'"
      by (simp add: split tag_state_def)
    ultimately show ?thesis using p rest split
      by (intro exI[of _ "(False, slice s pos offset) # (True, slice s offset ?e) # pieces"])
        (simp add: marked_def Let_def)
  qed
qed

text \<open>
  Highlighting leaves the text as it is: for match positions in order, the result is the text cut into
  pieces of which some are put between highlighting tags, and no such piece ends inside a tag of the text.
\<close>

theorem highlight_only_adds_tags:
  assumes "locs_ok (length s) 0 locs"
  shows "\<exists>pieces. highlight_string s locs = marked pieces \<and> concat (map snd pieces) = s \<and> ends_outside_tags False pieces"
  using highlight_loop_pieces[OF assms, of False "[]"] by (simp add: highlight_string_def)

theorem highlight_only_adds_tags_witness:
  "\<exists>pieces. highlight_string ''<p>some word</p>'' [(0, 1), (8, 4)] = marked pieces \<and> concat (map snd pieces) = ''<p>some word</p>'' \<and>
     ends_outside_tags False pieces"
  by (rule highlight_only_adds_tags) simp

lemma highlight_sample: "highlight_string ''<p>some word</p>'' [(0, 1), (8, 4)] = ''<p>some <span class=\"highlight\">word</span></p>''"
  by code_simp


section \<open>A sample fetch\<close>

definition demo_fetch :: fetch_env' where
  "demo_fetch = \<lparr>mf_send = demo_env, USING_PGROONGA = False, pgroonga_match = (\<lambda>q m. False),
     tsquery_match = (\<lambda>q m. str_contains (m_content m) q), match_locs = (\<lambda>q x. [])\<rparr>"

definition fetch_server :: "bool \<Rightarrow> server" where
  "fetch_server invite_only = (demo_server invite_only)\<lparr>sv_db := (sv_db (demo_server invite_only))\<lparr>messages :=
     [demo_message, demo_message\<lparr>m_id := 31, m_subject := ''other''\<rparr>]\<rparr>\<rparr>"

definition demo_term :: "string \<Rightarrow> string \<Rightarrow> bool \<Rightarrow> narrow_term" where
  "demo_term operator1 operand negated = \<lparr>nt_operator = operator1, nt_operand = operand, nt_negated = negated\<rparr>"

definition demo_request :: "narrow_term list \<Rightarrow> bool \<Rightarrow> messages_request" where
  "demo_request ts first_unread = \<lparr>mr_anchor = 30, mr_num_before = 1, mr_num_after = 5, mr_narrow = Some ts,
     mr_use_first_unread_anchor = first_unread, mr_apply_markdown = True\<rparr>"

abbreviation (input) ann :: user_profile where "ann \<equiv> demo_user 9 4 ''ann@zulip.com''"

lemma fetch_server_ok: "message_refs_ok (sv_db (fetch_server b))"
  by (simp add: fetch_server_def demo_server_def message_refs_ok_def demo_db_def empty_db_def demo_message_def demo_stream_def demo_realm_def)

definition all_messages :: msg_query where
  "all_messages = \<lparr>mq_base = AllMessages, mq_conds = [], mq_recipient_joins = 0, mq_highlights = []\<rparr>"

theorem narrow_term_never_adds_witness:
  "\<exists>q' s' rows' rows P. add_term demo_fetch ann all_messages (demo_term ''topic'' ''other'' True) (fetch_server False) = (Inr q', s') \<and>
     run_query demo_fetch q' (sv_db s') = Inr rows' \<and> row_ids rows' = [30] \<and>
     run_query demo_fetch all_messages (sv_db s') = Inr rows \<and> rows' = filter P rows"
proof -
  let ?q = "where_cond (NotC (TopicUpper ''other'')) all_messages"
  have step: "add_term demo_fetch ann all_messages (demo_term ''topic'' ''other'' True) (fetch_server False) = (Inr ?q, fetch_server False)"
    by code_simp
  have "map_sum id row_ids (run_query demo_fetch ?q (sv_db (fetch_server False))) = Inr [30]" by code_simp
  then obtain rows' where rows': "run_query demo_fetch ?q (sv_db (fetch_server False)) = Inr rows'" "row_ids rows' = [30]"
    by (cases "run_query demo_fetch ?q (sv_db (fetch_server False))") auto
  show ?thesis using step rows' narrow_term_never_adds[OF step rows'(1)] by blast
qed

theorem get_messages_only_readable_witness:
  "\<exists>dcts s' i m um. get_messages_backend demo_fetch ann (demo_request [demo_term ''stream'' ''devel'' False] False) (fetch_server False) =
     (Inr dcts, s') \<and> length dcts = 2 \<and> dget (hd dcts) ''id'' = Inr (PInt i) \<and>
     access_message ann i (sv_db (fetch_server False)) = Inr (m, um)"
proof -
  define r where "r = get_messages_backend demo_fetch ann (demo_request [demo_term ''stream'' ''devel'' False] False) (fetch_server False)"
  have "map_sum id length (fst r) = Inr 2" unfolding r_def by code_simp
  then obtain dcts s' where r: "r = (Inr dcts, s')" "length dcts = 2" by (cases r; cases "fst r") auto
  then have "hd dcts \<in> set dcts" by (cases dcts) auto
  then show ?thesis
    using get_messages_only_readable[OF fetch_server_ok r(1)[unfolded r_def]] r unfolding r_def by blast
qed

theorem window_exact_witness:
  "\<exists>rows rs. run_query demo_fetch all_messages (sv_db (fetch_server True)) = Inr rows \<and>
     window_rows demo_fetch all_messages 31 1 0 (sv_db (fetch_server True)) = Inr rs \<and> row_ids rs = [31]"
proof -
  have "map_sum id row_ids (run_query demo_fetch all_messages (sv_db (fetch_server True))) = Inr [30, 31]" by code_simp
  then obtain rows where rows: "run_query demo_fetch all_messages (sv_db (fetch_server True)) = Inr rows" "row_ids rows = [30, 31]"
    by (cases "run_query demo_fetch all_messages (sv_db (fetch_server True))") auto
  have "m_id (fst row) < LARGER_THAN_MAX_MESSAGE_ID" if "row \<in> set rows" for row
  proof -
    have "m_id (fst row) \<in> set (row_ids rows)" using that by (auto simp: row_ids_def)
    then show ?thesis using rows(2) by (auto simp: LARGER_THAN_MAX_MESSAGE_ID_def)
  qed
  then obtain rs where rs: "window_rows demo_fetch all_messages 31 1 0 (sv_db (fetch_server True)) = Inr rs"
    "row_ids rs = window_spec (row_ids rows) 31 1 0"
    using window_exact[OF rows(1)] by blast
  have "window_spec [30, 31] 31 1 0 = [31]" by code_simp
  then show ?thesis using rows rs by auto
qed

section \<open>Behaviour on particular requests\<close>

text \<open>A negated \<open>in:home\<close> is the same as \<open>in:home\<close>.\<close>

lemma negated_home_ignored: "by_in E u q operand True = by_in E u q operand False"
  by (simp add: by_in_def fun_eq_iff)

text \<open>A search in a public stream from the first unread message fails as soon as there is a result.\<close>

definition unread_search_server :: server where
  "unread_search_server = (fetch_server False)\<lparr>sv_db := (sv_db (fetch_server False))\<lparr>user_messages :=
     [\<lparr>um_user_profile = 9, um_message = 30, um_flags = 0\<rparr>]\<rparr>\<rparr>"

lemma public_search_first_unread_fails:
  "fst (get_messages_backend demo_fetch ann (demo_request [demo_term ''stream'' ''devel'' False, demo_term ''search'' ''hi'' False] True)
     unread_search_server) = Inl (ValueError ''too many values to unpack'')"
  by code_simp

text \<open>Two terms \<open>is:private\<close> are refused by the database.\<close>

lemma private_twice_fails:
  "fst (get_messages_backend demo_fetch ann (demo_request [demo_term ''is'' ''private'' False, demo_term ''is'' ''private'' True] False)
     (fetch_server False)) = Inl (OtherError ''DatabaseError'')"
  by code_simp

text \<open>Messages in a narrow without a search cannot be highlighted.\<close>

lemma narrow_without_search_fails:
  "fst (messages_in_narrow_backend demo_fetch ann [30] (Some [demo_term ''stream'' ''devel'' False]) unread_search_server) =
     Inl (ValueError ''values to unpack'')"
  by code_simp

text \<open>A private conversation named by one's own address alone, written as a list, is an \<open>IndexError\<close>.\<close>

lemma pm_with_self_list_fails:
  "fst (add_term demo_fetch ann all_messages (demo_term ''pm-with'' ''ann@zulip.com,ann@zulip.com'' False) (fetch_server False)) = Inl IndexError"
  by code_simp

end
