(* ===== verification/MessageViews.thy ===== *)
theory MessageViews
  imports Settings MessageFetch
begin

text \<open>
  The views that send and render messages (\<open>zerver/views/messages.py\<close>): \<open>send_message_backend\<close> with the
  rules for mirroring clients, which may send in the name of other users, and \<open>render_message_backend\<close>.
  The answer of the name server about a user of MIT is a parameter; \<open>None\<close> is a failed lookup.
\<close>

record view_env =
  ve_settings :: settings_env
  dns_txt :: "string \<Rightarrow> string option"

abbreviation ve_send :: "view_env \<Rightarrow> send_env" where
  "ve_send E \<equiv> ue_send (sg_users (ve_settings E))"

section \<open>Names of mirrored users\<close>

definition mit_char :: "char \<Rightarrow> bool" where
  "mit_char c \<longleftrightarrow> c \<in> set ''abcdefghijklmnopqrstuvwxyzABCDEFGHIJKLMNOPQRSTUVWXYZ0123456789_.-''"

text \<open>\<open>^([a-zA-Z0-9_.-]+)(\|.+)?@mit\.edu$\<close>: the two groups; a newline may end the text.\<close>

definition match_mit :: "string \<Rightarrow> (string \<times> string option) option" where
  "match_mit email =
     (let s = (if email \<noteq> [] \<and> last email = CHR ''\<newline>'' then butlast email else email) in
      if \<not> ends_with s ''@mit.edu'' then None
      else
        let body = take (length s - length ''@mit.edu'') s; g1 = takeWhile mit_char body; rest = dropWhile mit_char body in
        if g1 = [] then None
        else if rest = [] then Some (g1, None)
        else if hd rest = CHR ''|'' \<and> tl rest \<noteq> [] \<and> CHR ''\<newline>'' \<notin> set rest then Some (g1, Some rest)
        else None)"

definition hesiod_field :: "string \<Rightarrow> string option" where
  "hesiod_field answer =
     (let fs = str_split (CHR '':'') answer in
      if length fs > 4 then Some (str_strip (hd (str_split (CHR '','') (fs ! 4)))) else None)"

definition compute_mit_user_fullname :: "view_env \<Rightarrow> string \<Rightarrow> string" where
  "compute_mit_user_fullname E email =
     (case match_mit (str_lower email) of
        Some (g1, None) \<Rightarrow>
          (case Option.bind (dns_txt E (g1 @ ''.passwd.ns.athena.mit.edu'')) hesiod_field of
             Some name \<Rightarrow> if name \<noteq> [] then name else str_lower email
           | None \<Rightarrow> str_lower email)
      | Some (g1, Some g2) \<Rightarrow> str_lower g1 @ ''@'' @ tl (str_upper g2)
      | None \<Rightarrow> str_lower email)"

section \<open>Users of the realm\<close>

text \<open>\<open>s.replace(p, '')\<close> for a \<open>p\<close> that is not empty\<close>

function str_remove :: "string \<Rightarrow> string \<Rightarrow> string" where
  "str_remove p [] = []"
| "str_remove p (c # s) = (if p \<noteq> [] \<and> starts_with (c # s) p then str_remove p (drop (length p) (c # s)) else c # str_remove p s)"
  by pat_completeness auto

termination str_remove
  by (relation "measure (\<lambda>(p, s). length s)") (auto simp: neq_Nil_conv)

definition has_realm_domain :: "int \<Rightarrow> string \<Rightarrow> db \<Rightarrow> bool" where
  "has_realm_domain realm_id domain1 d \<longleftrightarrow> db_exists (\<lambda>x. rd_realm x = realm_id \<and> rd_domain x = domain1) (realm_domains d)"

definition same_realm_zephyr_user :: "view_env \<Rightarrow> user_profile \<Rightarrow> string \<Rightarrow> db \<Rightarrow> pyerr + bool" where
  "same_realm_zephyr_user E u email d =
     (if \<not> valid_address (ve_settings E) email then Inr False
      else ebind (the_realm (u_realm u) d) (\<lambda>r.
        Inr (is_zephyr_mirror_realm r \<and> has_realm_domain (u_realm u) (email_to_domain email) d)))"

definition same_realm_irc_user :: "view_env \<Rightarrow> user_profile \<Rightarrow> string \<Rightarrow> db \<Rightarrow> pyerr + bool" where
  "same_realm_irc_user E u email d =
     (if \<not> valid_address (ve_settings E) email then Inr False
      else Inr (has_realm_domain (u_realm u) (str_remove ''irc.'' (email_to_domain email)) d))"

definition same_realm_jabber_user :: "view_env \<Rightarrow> user_profile \<Rightarrow> string \<Rightarrow> db \<Rightarrow> pyerr + bool" where
  "same_realm_jabber_user E u email d =
     (if \<not> valid_address (ve_settings E) email then Inr False
      else Inr (has_realm_domain (u_realm u) (email_to_domain email) d))"

section \<open>Sending\<close>

record send_request =
  sr_client :: "int \<times> string"
  sr_sender :: "string option"
  sr_is_super_user :: bool
  sr_type :: string
  sr_to :: "string list"
  sr_forged :: bool
  sr_subject :: "string option"
  sr_content :: string
  sr_realm_str :: "string option"
  sr_time :: "rat option"
  sr_local_id :: "string option"
  sr_queue_id :: "string option"

text \<open>What a client mirrors: how it checks a user and how it names a new one.\<close>

definition mirror_functions ::
  "view_env \<Rightarrow> string \<Rightarrow> ((user_profile \<Rightarrow> string \<Rightarrow> db \<Rightarrow> pyerr + bool) \<times> (string \<Rightarrow> string)) option" where
  "mirror_functions E client_name =
     (if client_name = ''zephyr_mirror'' then Some (same_realm_zephyr_user E, compute_mit_user_fullname E)
      else if client_name = ''irc_mirror'' then Some (same_realm_irc_user E, compute_irc_user_fullname)
      else if client_name \<in> set [''jabber_mirror'', ''JabberMirror''] then Some (same_realm_jabber_user E, compute_jabber_user_fullname)
      else None)"

definition referenced_users :: "send_request \<Rightarrow> string \<Rightarrow> string list" where
  "referenced_users req sender_email = remdups (sender_email # (if sr_type req = ''private'' then map str_lower (sr_to req) else []))"

definition create_mirrored_message_users :: "view_env \<Rightarrow> user_profile \<Rightarrow> send_request \<Rightarrow> (bool \<times> user_profile option) act" where
  "create_mirrored_message_users E u req =
     (case sr_sender req of
        None \<Rightarrow> ret (False, None)
      | Some raw \<Rightarrow>
          let sender_email = str_lower (str_strip raw) in
          (case mirror_functions E (snd (sr_client req)) of
             None \<Rightarrow> ret (False, None)
           | Some (user_check, fullname_function) \<Rightarrow>
               seq (query (\<lambda>d. emap (\<lambda>email. user_check u email d) (referenced_users req sender_email))) (\<lambda>checks.
               if False \<in> set checks then ret (False, None)
               else
                 andthen (for_each (\<lambda>email. seq (create_mirror_user_if_needed (sg_users (ve_settings E)) (u_realm u) email fullname_function)
                      (\<lambda>_. ret ())) (referenced_users req sender_email))
                 (seq (query (get_user_including_cross_realm (se_settings (ve_send E)) sender_email (Some (u_realm u)))) (\<lambda>sender.
                   ret (True, Some sender))))))"

definition mirror_clients :: "string list" where
  "mirror_clients = [''zephyr_mirror'', ''irc_mirror'', ''jabber_mirror'', ''JabberMirror'']"

definition not_authorized :: pyerr where
  "not_authorized = JsonableError ''User not authorized for this query''"

text \<open>The sender: the user itself, or for a mirroring client the user that is named.\<close>

definition message_sender :: "view_env \<Rightarrow> user_profile \<Rightarrow> send_request \<Rightarrow> user_profile act" where
  "message_sender E u req =
     (if snd (sr_client req) \<notin> set mirror_clients then ret u
      else if sr_sender req = None then raise (JsonableError ''Missing sender'')
      else if sr_type req \<noteq> ''private'' \<and> \<not> sr_is_super_user req then raise not_authorized
      else
        seq (create_mirrored_message_users E u req) (\<lambda>(valid_input, mirror_sender).
        case (valid_input, mirror_sender) of
          (True, Some sender) \<Rightarrow>
            seq (query (the_realm (u_realm u))) (\<lambda>r.
            if snd (sr_client req) = ''zephyr_mirror'' \<and> \<not> is_zephyr_mirror_realm r then raise (JsonableError ''Invalid mirrored realm'')
            else if snd (sr_client req) = ''irc_mirror'' \<and> sr_type req \<noteq> ''private'' then
              (case sr_to req of
                 [] \<Rightarrow> raise IndexError
               | name # _ \<Rightarrow> if starts_with name ''#'' then ret sender else raise (JsonableError ''IRC stream names must start with #''))
            else ret sender)
        | _ \<Rightarrow> raise (JsonableError ''Invalid mirrored message'')))"

definition message_realm_of :: "user_profile \<Rightarrow> send_request \<Rightarrow> int option act" where
  "message_realm_of u req =
     (case sr_realm_str req of
        None \<Rightarrow> ret None
      | Some realm_str \<Rightarrow>
          seq (query (the_realm (u_realm u))) (\<lambda>r.
          if realm_str = [] \<or> realm_str = rm_string_id r then ret None
          else if \<not> sr_is_super_user req then raise not_authorized
          else seq (lookup (get_realm realm_str)) (\<lambda>found.
            case found of
              None \<Rightarrow> raise (JsonableError (''Unknown realm '' @ realm_str))
            | Some x \<Rightarrow> ret (Some (rm_id x)))))"

definition send_message_backend :: "view_env \<Rightarrow> user_profile \<Rightarrow> send_request \<Rightarrow> int act" where
  "send_message_backend E u req =
     (if sr_forged req \<and> \<not> sr_is_super_user req then raise not_authorized
      else
        seq (message_realm_of u req) (\<lambda>rlm.
        seq (message_sender E u req) (\<lambda>sender.
          check_send_message (ve_send E) sender (sr_client req) (sr_type req) (sr_to req) (map_option str_strip (sr_subject req))
            (sr_content req) rlm (sr_forged req) (sr_time req) (Some u) (sr_local_id req) (sr_queue_id req))))"

text \<open>A message object that is not saved; it has no recipient and no date.\<close>

definition render_message_backend :: "view_env \<Rightarrow> user_profile \<Rightarrow> int \<Rightarrow> string \<Rightarrow> db \<Rightarrow> pyerr + pydict" where
  "render_message_backend E u client_id content d =
     ebind (render_markdown (se_render (ve_send E)) (Some (new_message (u_id u) content 0 [] 0 client_id)) content (Some (u_realm u)) None None d)
       (\<lambda>out. Inr [(''rendered'', PStr (r_content out))])"

end
