(* ===== verification/MessageViewsProps.thy ===== *)
theory MessageViewsProps
  imports MessageViews Accounts
begin

text \<open>Who a message may be sent as: the rules of \<open>send_message_backend\<close> for users without special rights.\<close>

section \<open>Mirrored senders\<close>













end
