(* ===== verification/Cache.thy ===== *)
theory Cache
  imports Sending
begin

text \<open>
  The cache in front of the database (\<open>zerver/lib/cache.py\<close>): its operations, the decorator that caches a
  function, the bulk fetch, the keys, and what is flushed when a row is saved.

  Memcached is a parameter: three operations on its state. The server can drop entries at any time,
  so what is known of a value that it returns is that it was the last one set. Digests of keys are a
  parameter too. Statistics and the file with the key prefix are left out.
\<close>

section \<open>Operations\<close>

record ('c, 'v) cache_ops =
  mc_get :: "string \<Rightarrow> 'c \<Rightarrow> 'v option"
  mc_set :: "string \<Rightarrow> 'v \<Rightarrow> 'c \<Rightarrow> 'c"
  mc_delete :: "string \<Rightarrow> 'c \<Rightarrow> 'c"

record ('c, 'v) cache_env =
  ce_ops :: "('c, 'v) cache_ops"
  KEY_PREFIX :: string
  make_safe_digest :: "string \<Rightarrow> string"

definition cache_get :: "('c, 'v) cache_env \<Rightarrow> string \<Rightarrow> 'c \<Rightarrow> 'v option" where
  "cache_get C key c = mc_get (ce_ops C) (KEY_PREFIX C @ key) c"

definition cache_set :: "('c, 'v) cache_env \<Rightarrow> string \<Rightarrow> 'v \<Rightarrow> 'c \<Rightarrow> 'c" where
  "cache_set C key v c = mc_set (ce_ops C) (KEY_PREFIX C @ key) v c"

definition cache_delete :: "('c, 'v) cache_env \<Rightarrow> string \<Rightarrow> 'c \<Rightarrow> 'c" where
  "cache_delete C key c = mc_delete (ce_ops C) (KEY_PREFIX C @ key) c"

text \<open>The dictionary of the keys that were found.\<close>

fun cache_get_many :: "('c, 'v) cache_env \<Rightarrow> string list \<Rightarrow> 'c \<Rightarrow> (string \<times> 'v) list" where
  "cache_get_many C [] c = []"
| "cache_get_many C (k # ks) c =
     (case cache_get C k c of None \<Rightarrow> cache_get_many C ks c
      | Some v \<Rightarrow> (k, v) # filter (\<lambda>e. fst e \<noteq> k) (cache_get_many C ks c))"

definition cache_set_many :: "('c, 'v) cache_env \<Rightarrow> (string \<times> 'v) list \<Rightarrow> 'c \<Rightarrow> 'c" where
  "cache_set_many C items c = fold (\<lambda>(k, v). cache_set C k v) items c"

definition cache_delete_many :: "('c, 'v) cache_env \<Rightarrow> string list \<Rightarrow> 'c \<Rightarrow> 'c" where
  "cache_delete_many C items c = fold (cache_delete C) items c"

section \<open>Cached functions\<close>

definition NotFoundInCache :: pyerr where "NotFoundInCache = OtherError ''NotFoundInCache''"

definition get_cache_with_key :: "('c, 'v) cache_env \<Rightarrow> ('a \<Rightarrow> string) \<Rightarrow> 'a \<Rightarrow> 'c \<Rightarrow> pyerr + 'v" where
  "get_cache_with_key C keyfunc x c =
     (case cache_get C (keyfunc x) c of Some v \<Rightarrow> Inr v | None \<Rightarrow> Inl NotFoundInCache)"

definition cache_with_key ::
  "('c, 'v) cache_env \<Rightarrow> ('a \<Rightarrow> string) \<Rightarrow> ('a \<Rightarrow> db \<Rightarrow> pyerr + 'v) \<Rightarrow> 'a \<Rightarrow> db \<Rightarrow> 'c \<Rightarrow> (pyerr + 'v) \<times> 'c" where
  "cache_with_key C keyfunc func x d c =
     (let key = keyfunc x in
      case cache_get C key c of
        Some v \<Rightarrow> (Inr v, c)
      | None \<Rightarrow> (case func x d of Inl e \<Rightarrow> (Inl e, c) | Inr v \<Rightarrow> (Inr v, cache_set C key v c)))"

text \<open>The key of the decorator \<open>cache\<close>; memcached rejects spaces.\<close>

definition cache_keyfunc :: "string \<Rightarrow> string \<Rightarrow> string" where
  "cache_keyfunc func_uniqifier args_repr =
     concat (map (\<lambda>c. if c = CHR '' '' then ''-s'' else if c = CHR ''-'' then ''--'' else [c]) (func_uniqifier @ args_repr))"

text \<open>
  \<open>generic_bulk_cached_fetch\<close>. The loop over the rows from the database collects the items to store
  and adds them to the objects found in the cache.
\<close>

fun collect_items ::
  "('k \<times> string) list \<Rightarrow> ('o \<Rightarrow> 'k) \<Rightarrow> ('o \<Rightarrow> 'i) \<Rightarrow> ('i \<Rightarrow> 'v) \<Rightarrow> 'o list \<Rightarrow> (string \<times> 'v) list \<Rightarrow> (string \<times> 'i) list \<Rightarrow>
   pyerr + (string \<times> 'v) list \<times> (string \<times> 'i) list" where
  "collect_items cache_keys id_fetcher cache_transformer setter [] items cached = Inr (items, cached)"
| "collect_items cache_keys id_fetcher cache_transformer setter (obj # rest) items cached =
     (case map_of cache_keys (id_fetcher obj) of
        None \<Rightarrow> Inl (KeyError ''object_id'')
      | Some key \<Rightarrow>
          let item = cache_transformer obj
          in collect_items cache_keys id_fetcher cache_transformer setter rest (dset key (setter item) items) (dset key item cached))"

definition generic_bulk_cached_fetch ::
  "('c, 'v) cache_env \<Rightarrow> ('k \<Rightarrow> string) \<Rightarrow> ('k list \<Rightarrow> pyerr + 'o list) \<Rightarrow> 'k list \<Rightarrow> ('v \<Rightarrow> 'i) \<Rightarrow> ('i \<Rightarrow> 'v) \<Rightarrow> ('o \<Rightarrow> 'k) \<Rightarrow>
   ('o \<Rightarrow> 'i) \<Rightarrow> 'c \<Rightarrow> (pyerr + ('k \<times> 'i) list) \<times> 'c" where
  "generic_bulk_cached_fetch C cache_key_function query_function object_ids extractor setter id_fetcher cache_transformer c =
     (let cache_keys = map (\<lambda>i. (i, cache_key_function i)) object_ids;
          cached = map (\<lambda>(k, v). (k, extractor v)) (cache_get_many C (map cache_key_function object_ids) c);
          needed_ids = filter (\<lambda>i. \<not> dhas cached (cache_key_function i)) object_ids
      in case query_function needed_ids of
           Inl e \<Rightarrow> (Inl e, c)
         | Inr db_objects \<Rightarrow>
             (case collect_items cache_keys id_fetcher cache_transformer setter db_objects [] cached of
                Inl e \<Rightarrow> (Inl e, c)
              | Inr (items, cached) \<Rightarrow>
                  (Inr (concat (map (\<lambda>i. case map_of cached (cache_key_function i) of None \<Rightarrow> [] | Some x \<Rightarrow> [(i, x)]) object_ids)),
                   if items \<noteq> [] then cache_set_many C items c else c)))"

section \<open>Keys\<close>

definition display_recipient_cache_key :: "int \<Rightarrow> string" where
  "display_recipient_cache_key recipient_id = ''display_recipient_dict:'' @ int_str recipient_id"

definition user_profile_by_email_cache_key :: "('c, 'v) cache_env \<Rightarrow> string \<Rightarrow> string" where
  "user_profile_by_email_cache_key C email = ''user_profile_by_email:'' @ make_safe_digest C (str_strip email)"

definition user_profile_cache_key :: "('c, 'v) cache_env \<Rightarrow> string \<Rightarrow> int \<Rightarrow> string" where
  "user_profile_cache_key C email realm_id = ''user_profile:'' @ make_safe_digest C (str_strip email) @ '':'' @ int_str realm_id"

definition bot_profile_cache_key :: "('c, 'v) cache_env \<Rightarrow> string \<Rightarrow> string" where
  "bot_profile_cache_key C email = ''bot_profile:'' @ make_safe_digest C (str_strip email)"

definition user_profile_by_id_cache_key :: "int \<Rightarrow> string" where
  "user_profile_by_id_cache_key uid = ''user_profile_by_id:'' @ int_str uid"

definition active_user_dicts_in_realm_cache_key :: "int \<Rightarrow> string" where
  "active_user_dicts_in_realm_cache_key realm_id = ''active_user_dicts_in_realm:'' @ int_str realm_id"

definition bot_dicts_in_realm_cache_key :: "int \<Rightarrow> string" where
  "bot_dicts_in_realm_cache_key realm_id = ''bot_dicts_in_realm:'' @ int_str realm_id"

definition get_stream_cache_key :: "('c, 'v) cache_env \<Rightarrow> string \<Rightarrow> int \<Rightarrow> string" where
  "get_stream_cache_key C stream_name realm_id =
     ''stream_by_realm_and_name:'' @ int_str realm_id @ '':'' @ make_safe_digest C (str_lower (str_strip stream_name))"

definition realm_alert_words_cache_key :: "realm \<Rightarrow> string" where
  "realm_alert_words_cache_key r = ''realm_alert_words:'' @ rm_string_id r"

definition to_dict_cache_key_id :: "int \<Rightarrow> bool \<Rightarrow> string" where
  "to_dict_cache_key_id message_id apply_markdown =
     ''message_dict:'' @ int_str message_id @ '':'' @ (if apply_markdown then ''1'' else ''0'')"

definition to_dict_cache_key :: "message \<Rightarrow> bool \<Rightarrow> string" where
  "to_dict_cache_key m apply_markdown = to_dict_cache_key_id (m_id m) apply_markdown"

section \<open>Rows as dictionaries\<close>

text \<open>\<open>values\<close> of a user; the names are those of the two lists and of the fields that decide about them.\<close>

definition user_field :: "db \<Rightarrow> string \<Rightarrow> user_profile \<Rightarrow> pyval" where
  "user_field d f u =
     (let stream_name = (\<lambda>i. of_opt PStr (case i of None \<Rightarrow> None | Some i \<Rightarrow> map_option st_name (db_first (\<lambda>st. st_id st = i) (streams d)))) in
      if f = ''id'' then PInt (u_id u) else if f = ''full_name'' then PStr (u_full_name u)
      else if f = ''short_name'' then PStr (u_short_name u) else if f = ''email'' then PStr (u_email u)
      else if f = ''avatar_source'' then PStr (u_avatar_source u) else if f = ''avatar_version'' then PInt (u_avatar_version u)
      else if f = ''is_realm_admin'' then PBool (u_is_realm_admin u) else if f = ''is_bot'' then PBool (u_is_bot u)
      else if f = ''realm_id'' then PInt (u_realm u) else if f = ''timezone'' then PStr (u_timezone u)
      else if f = ''is_active'' then PBool (u_is_active u) else if f = ''bot_type'' then of_opt PInt (u_bot_type u)
      else if f = ''api_key'' then PStr (u_api_key u) else if f = ''default_all_public_streams'' then PBool (u_default_all_public_streams u)
      else if f = ''default_sending_stream__name'' then stream_name (u_default_sending_stream u)
      else if f = ''default_events_register_stream__name'' then stream_name (u_default_events_register_stream u)
      else if f = ''bot_owner__email'' then
        of_opt PStr (case u_bot_owner u of None \<Rightarrow> None | Some i \<Rightarrow> map_option u_email (db_first (\<lambda>x. u_id x = i) (users d)))
      else if f = ''alert_words'' then PStr (u_alert_words u) else PNone)"

definition active_user_dict_fields :: "string list" where
  "active_user_dict_fields = [''id'', ''full_name'', ''short_name'', ''email'', ''avatar_source'', ''avatar_version'',
     ''is_realm_admin'', ''is_bot'', ''realm_id'', ''timezone'']"

definition bot_dict_fields :: "string list" where
  "bot_dict_fields = [''id'', ''full_name'', ''short_name'', ''bot_type'', ''email'', ''is_active'', ''default_sending_stream__name'',
     ''realm_id'', ''default_events_register_stream__name'', ''default_all_public_streams'', ''api_key'', ''bot_owner__email'',
     ''avatar_source'', ''avatar_version'']"

definition get_active_user_dicts_in_realm :: "int \<Rightarrow> db \<Rightarrow> pydict list" where
  "get_active_user_dicts_in_realm realm_id d =
     map (\<lambda>u. map (\<lambda>f. (f, user_field d f u)) active_user_dict_fields) (filter (\<lambda>u. u_realm u = realm_id \<and> u_is_active u) (users d))"

definition get_bot_dicts_in_realm :: "int \<Rightarrow> db \<Rightarrow> pydict list" where
  "get_bot_dicts_in_realm realm_id d =
     map (\<lambda>u. map (\<lambda>f. (f, user_field d f u)) bot_dict_fields) (filter (\<lambda>u. u_realm u = realm_id \<and> u_is_bot u) (users d))"

section \<open>Cached lookups\<close>

text \<open>The lookups of \<open>models.py\<close> that carry the decorator, with the kinds of values that they store.\<close>

datatype cached = CUser user_profile | CDicts "pydict list"

definition cached_user_by_id :: "('c, cached) cache_env \<Rightarrow> int \<Rightarrow> db \<Rightarrow> 'c \<Rightarrow> (pyerr + cached) \<times> 'c" where
  "cached_user_by_id C = cache_with_key C user_profile_by_id_cache_key (\<lambda>uid d. map_sum id CUser (get_user_profile_by_id uid d))"

definition cached_user_by_email :: "('c, cached) cache_env \<Rightarrow> string \<Rightarrow> db \<Rightarrow> 'c \<Rightarrow> (pyerr + cached) \<times> 'c" where
  "cached_user_by_email C =
     cache_with_key C (user_profile_by_email_cache_key C) (\<lambda>email d. map_sum id CUser (get_user_profile_by_email email d))"

definition cached_user :: "('c, cached) cache_env \<Rightarrow> string \<times> int \<Rightarrow> db \<Rightarrow> 'c \<Rightarrow> (pyerr + cached) \<times> 'c" where
  "cached_user C =
     cache_with_key C (\<lambda>(email, realm_id). user_profile_cache_key C email realm_id)
       (\<lambda>(email, realm_id) d. map_sum id CUser (get_user email realm_id d))"

definition cached_active_user_dicts :: "('c, cached) cache_env \<Rightarrow> int \<Rightarrow> db \<Rightarrow> 'c \<Rightarrow> (pyerr + cached) \<times> 'c" where
  "cached_active_user_dicts C =
     cache_with_key C active_user_dicts_in_realm_cache_key (\<lambda>realm_id d. Inr (CDicts (get_active_user_dicts_in_realm realm_id d)))"

section \<open>Flushing\<close>

definition delete_user_profile_caches :: "('c, 'v) cache_env \<Rightarrow> user_profile list \<Rightarrow> 'c \<Rightarrow> 'c" where
  "delete_user_profile_caches C us c =
     cache_delete_many C (concat (map (\<lambda>u. [user_profile_by_email_cache_key C (u_email u), user_profile_by_id_cache_key (u_id u),
        user_profile_cache_key C (u_email u) (u_realm u)]) us)) c"

definition delete_display_recipient_cache :: "('c, 'v) cache_env \<Rightarrow> user_profile \<Rightarrow> db \<Rightarrow> 'c \<Rightarrow> 'c" where
  "delete_display_recipient_cache C u d c =
     cache_delete_many C (map (\<lambda>x. display_recipient_cache_key (sub_recipient x))
       (filter (\<lambda>x. sub_user_profile x = u_id u) (subscriptions d))) c"

text \<open>
  The signal after saving a user. The second test asks for a key \<open>updated_fields\<close> that the signal does
  not have, so it always holds.
\<close>

definition fields_touch :: "string list option \<Rightarrow> string list \<Rightarrow> bool" where
  "fields_touch update_fields names = (case update_fields of None \<Rightarrow> True | Some fs \<Rightarrow> list_ex (\<lambda>f. f \<in> set fs) names)"

definition flush_user_profile :: "('c, 'v) cache_env \<Rightarrow> user_profile \<Rightarrow> string list option \<Rightarrow> realm \<Rightarrow> db \<Rightarrow> 'c \<Rightarrow> 'c" where
  "flush_user_profile C u update_fields r d c =
     (let c = delete_user_profile_caches C [u] c;
          c = (if fields_touch update_fields (active_user_dict_fields @ [''is_active'', ''email''])
               then cache_delete C (active_user_dicts_in_realm_cache_key (u_realm u)) c else c);
          c = delete_display_recipient_cache C u d c;
          c = (if u_is_bot u \<and> fields_touch update_fields bot_dict_fields
               then cache_delete C (bot_dicts_in_realm_cache_key (u_realm u)) c else c)
      in if fields_touch update_fields [''alert_words''] then cache_delete C (realm_alert_words_cache_key r) c else c)"

definition flush_realm :: "('c, 'v) cache_env \<Rightarrow> realm \<Rightarrow> db \<Rightarrow> 'c \<Rightarrow> 'c" where
  "flush_realm C r d c =
     (let c = delete_user_profile_caches C (get_active_users r d) c in
      if rm_deactivated r
      then cache_delete C (realm_alert_words_cache_key r)
             (cache_delete C (bot_dicts_in_realm_cache_key (rm_id r)) (cache_delete C (active_user_dicts_in_realm_cache_key (rm_id r)) c))
      else c)"

text \<open>\<open>or\<close> binds weaker than \<open>and\<close>: without \<open>update_fields\<close> the bots' dictionaries are always dropped.\<close>

definition flush_stream :: "('c, 'v) cache_env \<Rightarrow> (stream \<Rightarrow> 'v) \<Rightarrow> stream \<Rightarrow> string list option \<Rightarrow> db \<Rightarrow> 'c \<Rightarrow> 'c" where
  "flush_stream C cached_stream st update_fields d c =
     (let c = cache_set_many C [(get_stream_cache_key C (st_name st) (st_realm st), cached_stream st)] c in
      if (case update_fields of
            None \<Rightarrow> True
          | Some fs \<Rightarrow> ''name'' \<in> set fs \<and>
              db_exists (\<lambda>u. u_default_sending_stream u = Some (st_id st) \<or> u_default_events_register_stream u = Some (st_id st)) (users d))
      then cache_delete C (bot_dicts_in_realm_cache_key (st_realm st)) c else c)"

definition flush_message :: "('c, 'v) cache_env \<Rightarrow> message \<Rightarrow> 'c \<Rightarrow> 'c" where
  "flush_message C m c = cache_delete C (to_dict_cache_key m True) (cache_delete C (to_dict_cache_key m False) c)"

end
