(* ===== verification/CacheProps.thy ===== *)
theory CacheProps
  imports Cache SendingProps
begin

text \<open>
  The cache agrees with the database: a bulk fetch through the cache gives what the database has, and
  saving a user leaves no outdated copy of the user under the keys that are spelled as stored.
\<close>

section \<open>A cache that may forget\<close>

definition mc_ok :: "('c, 'v) cache_ops \<Rightarrow> bool" where
  "mc_ok M \<longleftrightarrow>
     (\<forall>c k v k' x. mc_get M k' (mc_set M k v c) = Some x \<longrightarrow> (k' = k \<and> x = v) \<or> (k' \<noteq> k \<and> mc_get M k' c = Some x)) \<and>
     (\<forall>c k k' x. mc_get M k' (mc_delete M k c) = Some x \<longrightarrow> k' \<noteq> k \<and> mc_get M k' c = Some x)"

lemma get_set:
  "mc_ok (ce_ops C) \<Longrightarrow> cache_get C k' (cache_set C k v c) = Some x \<Longrightarrow> (k' = k \<and> x = v) \<or> (k' \<noteq> k \<and> cache_get C k' c = Some x)"
  unfolding mc_ok_def cache_get_def cache_set_def by (metis same_append_eq)

lemma get_delete: "mc_ok (ce_ops C) \<Longrightarrow> cache_get C k' (cache_delete C k c) = Some x \<Longrightarrow> k' \<noteq> k \<and> cache_get C k' c = Some x"
  unfolding mc_ok_def cache_get_def cache_delete_def by (metis same_append_eq)

lemma get_set_many:
  assumes "mc_ok (ce_ops C)"
  shows "cache_get C k (cache_set_many C items c) = Some x \<Longrightarrow> (k, x) \<in> set items \<or> (k \<notin> fst ` set items \<and> cache_get C k c = Some x)"
proof (induction items arbitrary: c)
  case (Cons e items)
  obtain k' v where e: "e = (k', v)" by (cases e)
  have "(k, x) \<in> set items \<or> (k \<notin> fst ` set items \<and> cache_get C k (cache_set C k' v c) = Some x)"
    using Cons.IH[of "cache_set C k' v c"] Cons.prems e by (simp add: cache_set_many_def)
  then show ?case using get_set[OF assms, of k k' v c x] e by auto
qed (simp add: cache_set_many_def)

lemma get_delete_many:
  assumes "mc_ok (ce_ops C)"
  shows "cache_get C k (cache_delete_many C ks c) = Some x \<Longrightarrow> k \<notin> set ks \<and> cache_get C k c = Some x"
proof (induction ks arbitrary: c)
  case (Cons k' ks)
  then have "k \<notin> set ks \<and> cache_get C k (cache_delete C k' c) = Some x" by (simp add: cache_delete_many_def)
  then show ?case using get_delete[OF assms, of k k' c x] by auto
qed (simp add: cache_delete_many_def)

lemma map_of_without: "map_of (filter (\<lambda>e. fst e \<noteq> k') xs) k = (if k = k' then None else map_of xs k)"
  by (cases "k = k'"; induction xs) auto

lemma get_many: "map_of (cache_get_many C ks c) k = (if k \<in> set ks then cache_get C k c else None)"
  by (induction ks) (auto simp: map_of_without split: option.splits if_split_asm)

section \<open>The bulk fetch\<close>

lemma collect_items_effect:
  assumes "list_all (\<lambda>o'. \<exists>key. map_of cache_keys (id_fetcher o') = Some key) objs"
  shows "\<exists>items' cached'. collect_items cache_keys id_fetcher tr setter objs items cached = Inr (items', cached') \<and>
    (\<forall>k. map_of cached' k = (case find (\<lambda>o'. map_of cache_keys (id_fetcher o') = Some k) (rev objs) of
        Some o' \<Rightarrow> Some (tr o') | None \<Rightarrow> map_of cached k)) \<and>
    (\<forall>(k, v) \<in> set items'. (k, v) \<in> set items \<or> (\<exists>o' \<in> set objs. map_of cache_keys (id_fetcher o') = Some k \<and> v = setter (tr o')))"
  using assms
proof (induction objs arbitrary: items cached)
  case (Cons ob objs)
  then obtain key where key: "map_of cache_keys (id_fetcher ob) = Some key" by auto
  have "list_all (\<lambda>o'. \<exists>key. map_of cache_keys (id_fetcher o') = Some key) objs" using Cons.prems by simp
  from Cons.IH[OF this, of "dset key (setter (tr ob)) items" "dset key (tr ob) cached"]
  obtain items' cached' where step: "collect_items cache_keys id_fetcher tr setter objs (dset key (setter (tr ob)) items) (dset key (tr ob) cached) =
      Inr (items', cached')"
    "\<forall>k. map_of cached' k = (case find (\<lambda>o'. map_of cache_keys (id_fetcher o') = Some k) (rev objs) of
        Some o' \<Rightarrow> Some (tr o') | None \<Rightarrow> map_of (dset key (tr ob) cached) k)"
    "\<forall>(k, v) \<in> set items'. (k, v) \<in> set (dset key (setter (tr ob)) items) \<or>
       (\<exists>o' \<in> set objs. map_of cache_keys (id_fetcher o') = Some k \<and> v = setter (tr o'))"
    by auto
  have inside: "(k, v) \<in> set (dset key w items) \<Longrightarrow> (k, v) \<in> set items \<or> (k = key \<and> v = w)" for k v w
    by (induction items) (auto split: if_split_asm)
  have find_app: "find P (xs @ [ob]) = (case find P xs of Some y \<Rightarrow> Some y | None \<Rightarrow> if P ob then Some ob else None)" for P xs
    by (induction xs) auto
  show ?case
  proof (intro exI[of _ items'] exI[of _ cached'] conjI allI)
    show "collect_items cache_keys id_fetcher tr setter (ob # objs) items cached = Inr (items', cached')"
      using key step(1) by (simp add: Let_def)
    fix k
    show "map_of cached' k = (case find (\<lambda>o'. map_of cache_keys (id_fetcher o') = Some k) (rev (ob # objs)) of
        Some o' \<Rightarrow> Some (tr o') | None \<Rightarrow> map_of cached k)"
      using step(2) key by (simp add: find_app split: option.splits)
  next
    show "\<forall>(k, v) \<in> set items'. (k, v) \<in> set items \<or>
        (\<exists>o' \<in> set (ob # objs). map_of cache_keys (id_fetcher o') = Some k \<and> v = setter (tr o'))"
      using step(3) key inside by fastforce
  qed
qed auto

text \<open>What is cached for an id is what the table has for it.\<close>

definition row_cached :: "('c, 'v) cache_env \<Rightarrow> ('k \<Rightarrow> string) \<Rightarrow> ('i \<Rightarrow> 'v) \<Rightarrow> ('o \<Rightarrow> 'k) \<Rightarrow> ('o \<Rightarrow> 'i) \<Rightarrow> 'o list \<Rightarrow> 'c \<Rightarrow> 'k \<Rightarrow> bool" where
  "row_cached C ckey setter idf tr rows c i \<longleftrightarrow>
     (\<forall>v. cache_get C (ckey i) c = Some v \<longrightarrow> (\<exists>r \<in> set rows. idf r = i \<and> v = setter (tr r)))"

lemma map_of_found: "map_of (concat (map (\<lambda>i. case m i of None \<Rightarrow> [] | Some x \<Rightarrow> [(i, x)]) ids)) i = (if i \<in> set ids then m i else None)"
  by (induction ids) (auto split: option.splits)

lemma map_of_keys: "map_of (map (\<lambda>i. (i, f i)) ids) i = (if i \<in> set ids then Some (f i) else None)"
  by (induction ids) auto

lemma find_unique:
  assumes "inj_on idf (set rows)" and "r \<in> set rows"
  shows "find (\<lambda>x. idf x = idf r) rows = Some r"
  using assms by (induction rows) (auto simp: inj_on_def)

lemma find_same_set:
  assumes "inj_on idf (set rows)" and "set os = {x \<in> set rows. idf x \<in> S}" and "i \<in> S"
  shows "find (\<lambda>x. idf x = i) os = find (\<lambda>x. idf x = i) rows"
proof (cases "\<exists>r \<in> set rows. idf r = i")
  case True
  then obtain r where r: "r \<in> set rows" "idf r = i" by blast
  have "inj_on idf (set os)" using assms(1,2) by (auto simp: inj_on_def)
  then show ?thesis using find_unique[of idf os r] find_unique[OF assms(1) r(1)] assms(2,3) r by auto
next
  case False
  then have "find (\<lambda>x. idf x = i) os = None" "find (\<lambda>x. idf x = i) rows = None" using assms(2) by (auto simp: find_None_iff)
  then show ?thesis by simp
qed

text \<open>
  C29: A bulk fetch through the cache is the same as asking the database: it returns for every id the
  row's item and nothing for ids without a row, provided what is cached for the ids is current, and what
  is cached for them afterwards is current again.
\<close>

theorem bulk_fetch_exact:
  assumes "mc_ok (ce_ops C)" and "inj_on ckey (set ids)" and "inj_on idf (set rows)"
    and "\<And>x. extractor (setter x) = x"
    and "\<And>js. \<exists>os. fetch js = Inr os \<and> set os = {r \<in> set rows. idf r \<in> set js}"
    and "\<And>i. i \<in> set ids \<Longrightarrow> row_cached C ckey setter idf tr rows c i"
  shows "\<exists>res c'. generic_bulk_cached_fetch C ckey fetch ids extractor setter idf tr c = (Inr res, c') \<and>
    map_of res = (\<lambda>i. if i \<in> set ids then map_option tr (find (\<lambda>r. idf r = i) rows) else None) \<and>
    list_all (row_cached C ckey setter idf tr rows c') ids"
proof -
  let ?keys = "map (\<lambda>i. (i, ckey i)) ids" and ?cached = "map (\<lambda>(k, v). (k, extractor v)) (cache_get_many C (map ckey ids) c)"
  let ?needed = "filter (\<lambda>i. \<not> dhas ?cached (ckey i)) ids"
  have cached: "map_of ?cached k = (if k \<in> ckey ` set ids then map_option extractor (cache_get C k c) else None)" for k
    by (simp add: map_of_map[unfolded comp_def] get_many)
  obtain os where os: "fetch ?needed = Inr os" "set os = {r \<in> set rows. idf r \<in> set ?needed}" using assms(5) by blast
  have "list_all (\<lambda>r. \<exists>key. map_of ?keys (idf r) = Some key) os" using os(2) by (auto simp: list_all_iff map_of_keys)
  from collect_items_effect[OF this, of tr setter "[]" ?cached] obtain items cached' where
    col: "collect_items ?keys idf tr setter os [] ?cached = Inr (items, cached')"
    and look: "\<And>k. map_of cached' k = (case find (\<lambda>r. map_of ?keys (idf r) = Some k) (rev os) of
        Some r \<Rightarrow> Some (tr r) | None \<Rightarrow> map_of ?cached k)"
    and items: "\<forall>(k, v) \<in> set items. \<exists>r \<in> set os. map_of ?keys (idf r) = Some k \<and> v = setter (tr r)"
    by auto
  let ?res = "concat (map (\<lambda>i. case map_of cached' (ckey i) of None \<Rightarrow> [] | Some x \<Rightarrow> [(i, x)]) ids)"
  let ?c' = "if items \<noteq> [] then cache_set_many C items c else c"
  have run: "generic_bulk_cached_fetch C ckey fetch ids extractor setter idf tr c = (Inr ?res, ?c')"
    unfolding generic_bulk_cached_fetch_def Let_def os(1) sum.case col prod.case by (rule refl)
  have val: "map_of cached' (ckey i) = map_option tr (find (\<lambda>r. idf r = i) rows)" if i: "i \<in> set ids" for i
  proof -
    have same_key: "map_of ?keys (idf r) = Some (ckey i) \<longleftrightarrow> idf r = i" if "r \<in> set os" for r
      using that os(2) i assms(2) by (auto simp: map_of_keys inj_on_def)
    have found: "find (\<lambda>r. map_of ?keys (idf r) = Some (ckey i)) (rev os) = find (\<lambda>r. idf r = i) (rev os)"
      using same_key by (intro find_cong) auto
    show ?thesis
    proof (cases "i \<in> set ?needed")
      case True
      have "find (\<lambda>r. idf r = i) (rev os) = find (\<lambda>r. idf r = i) rows"
        using os(2) True by (intro find_same_set[OF assms(3), of "rev os" "set ?needed"]) auto
      moreover have "map_of ?cached (ckey i) = None" using True by auto
      ultimately show ?thesis unfolding look found by (cases "find (\<lambda>r. idf r = i) rows") simp_all
    next
      case False
      have none: "find (\<lambda>r. idf r = i) (rev os) = None" using os(2) False by (auto simp: find_None_iff)
      obtain v where v: "cache_get C (ckey i) c = Some v" using False i cached[of "ckey i"] by auto
      then obtain r where r: "r \<in> set rows" "idf r = i" "v = setter (tr r)" using assms(6)[OF i] by (auto simp: row_cached_def)
      have "map_of ?cached (ckey i) = Some (tr r)" using cached[of "ckey i"] i v r(3) assms(4) by simp
      then show ?thesis unfolding look found none using find_unique[OF assms(3) r(1)] r(2) by simp
    qed
  qed
  have "row_cached C ckey setter idf tr rows ?c' i" if i: "i \<in> set ids" for i
    unfolding row_cached_def
  proof (intro allI impI)
    fix v assume v: "cache_get C (ckey i) ?c' = Some v"
    have "(ckey i, v) \<in> set items \<or> cache_get C (ckey i) c = Some v"
      using v get_set_many[OF assms(1), of "ckey i" items c v] by (auto split: if_split_asm)
    then show "\<exists>r \<in> set rows. idf r = i \<and> v = setter (tr r)"
    proof
      assume "(ckey i, v) \<in> set items"
      then obtain r where "r \<in> set os" "map_of ?keys (idf r) = Some (ckey i)" "v = setter (tr r)" using items by auto
      then show ?thesis using os(2) i assms(2) by (auto simp: map_of_keys inj_on_def)
    qed (use assms(6)[OF i] in \<open>simp add: row_cached_def\<close>)
  qed
  then have "list_all (row_cached C ckey setter idf tr rows ?c') ids" by (simp add: list_all_iff)
  moreover have "map_of ?res = (\<lambda>i. if i \<in> set ids then map_option tr (find (\<lambda>r. idf r = i) rows) else None)"
    using val by (auto simp: map_of_found fun_eq_iff)
  ultimately show ?thesis using run by blast
qed

section \<open>Users and their copies\<close>

text \<open>
  Nothing outdated is cached about users, under keys that spell an address as it is stored (the database
  compares addresses without case, the keys do not). Addresses are those of a set that the digest
  tells apart.
\<close>

definition spelled :: "string set \<Rightarrow> (user_profile \<Rightarrow> bool) \<Rightarrow> db \<Rightarrow> string \<Rightarrow> bool" where
  "spelled A P d e \<longleftrightarrow> str_strip e \<in> A \<and> (\<exists>x \<in> set (users d). P x \<and> u_email x = str_strip e)"

definition entry_current :: "('c, cached) cache_env \<Rightarrow> string set \<Rightarrow> db \<Rightarrow> string \<Rightarrow> cached \<Rightarrow> bool" where
  "entry_current C A d k v \<longleftrightarrow>
     (\<forall>e. spelled A (\<lambda>_. True) d e \<longrightarrow> k = user_profile_by_email_cache_key C e \<longrightarrow> (\<exists>u. v = CUser u \<and> get_user_profile_by_email e d = Inr u)) \<and>
     (\<forall>e r. spelled A (\<lambda>x. u_realm x = r) d e \<longrightarrow> k = user_profile_cache_key C e r \<longrightarrow> (\<exists>u. v = CUser u \<and> get_user e r d = Inr u)) \<and>
     (\<forall>i. k = user_profile_by_id_cache_key i \<longrightarrow> (\<exists>u. v = CUser u \<and> get_user_profile_by_id i d = Inr u)) \<and>
     (\<forall>r. k = active_user_dicts_in_realm_cache_key r \<longrightarrow> v = CDicts (get_active_user_dicts_in_realm r d))"

definition users_current :: "('c, cached) cache_env \<Rightarrow> string set \<Rightarrow> db \<Rightarrow> 'c \<Rightarrow> bool" where
  "users_current C A d c \<longleftrightarrow> (\<forall>k v. cache_get C k c = Some v \<longrightarrow> entry_current C A d k v)"

lemma dropWhile_twice: "dropWhile P (dropWhile P s) = dropWhile P s"
  by (induction s) auto

lemma dropWhile_rev_kept:
  assumes "dropWhile P s = s"
  shows "dropWhile P (rev (dropWhile P (rev s))) = rev (dropWhile P (rev s))"
proof (cases s rule: list.exhaust)
  case (Cons a b)
  then have "\<not> P a" using assms by (metis dropWhile.simps(2) dropWhile_eq_self_iff list.distinct(1) list.sel(1))
  then have "dropWhile P (rev s) = dropWhile P (rev b) @ [a]" using Cons by (induction "rev b") (auto simp: dropWhile_append)
  then show ?thesis using \<open>\<not> P a\<close> by simp
qed simp

lemma str_strip_idem [simp]: "str_strip (str_strip s) = str_strip s"
  by (simp add: str_strip_def dropWhile_twice dropWhile_rev_kept)


subsection \<open>Keys\<close>

lemma key_kinds [simp]:
  "user_profile_by_email_cache_key C e \<noteq> user_profile_cache_key C e' r" "user_profile_cache_key C e' r \<noteq> user_profile_by_email_cache_key C e"
  "user_profile_by_email_cache_key C e \<noteq> user_profile_by_id_cache_key i" "user_profile_by_id_cache_key i \<noteq> user_profile_by_email_cache_key C e"
  "user_profile_by_email_cache_key C e \<noteq> active_user_dicts_in_realm_cache_key r" "active_user_dicts_in_realm_cache_key r \<noteq> user_profile_by_email_cache_key C e"
  "user_profile_cache_key C e r \<noteq> user_profile_by_id_cache_key i" "user_profile_by_id_cache_key i \<noteq> user_profile_cache_key C e r"
  "user_profile_cache_key C e r \<noteq> active_user_dicts_in_realm_cache_key r'" "active_user_dicts_in_realm_cache_key r' \<noteq> user_profile_cache_key C e r"
  "user_profile_by_id_cache_key i \<noteq> active_user_dicts_in_realm_cache_key r" "active_user_dicts_in_realm_cache_key r \<noteq> user_profile_by_id_cache_key i"
  by (simp_all add: user_profile_by_email_cache_key_def user_profile_cache_key_def user_profile_by_id_cache_key_def active_user_dicts_in_realm_cache_key_def)

lemma key_numbers [simp]:
  "user_profile_by_id_cache_key i = user_profile_by_id_cache_key j \<longleftrightarrow> i = j"
  "active_user_dicts_in_realm_cache_key r = active_user_dicts_in_realm_cache_key r' \<longleftrightarrow> r = r'"
  by (simp_all add: user_profile_by_id_cache_key_def active_user_dicts_in_realm_cache_key_def)

lemma last_colon:
  assumes "s @ '':'' @ n = s' @ '':'' @ n'" and "CHR '':'' \<notin> set n" and "CHR '':'' \<notin> set n'"
  shows "s = s' \<and> n = n'"
  using assms by (auto simp: append_eq_append_conv2 append_eq_Cons_conv Cons_eq_append_conv)

lemma key_addresses:
  "user_profile_by_email_cache_key C e = user_profile_by_email_cache_key C e' \<longleftrightarrow> make_safe_digest C (str_strip e) = make_safe_digest C (str_strip e')"
  "user_profile_cache_key C e r = user_profile_cache_key C e' r' \<longleftrightarrow> make_safe_digest C (str_strip e) = make_safe_digest C (str_strip e') \<and> r = r'"
proof -
  have "CHR '':'' \<notin> set (int_str n)" for n using int_str_chars[of "CHR '':''" n] by (auto simp: is_digit_def)
  then show "user_profile_cache_key C e r = user_profile_cache_key C e' r' \<longleftrightarrow>
      make_safe_digest C (str_strip e) = make_safe_digest C (str_strip e') \<and> r = r'"
    using last_colon[of "make_safe_digest C (str_strip e)" "int_str r" "make_safe_digest C (str_strip e')" "int_str r'"]
    by (auto simp: user_profile_cache_key_def)
qed (simp add: user_profile_by_email_cache_key_def)

subsection \<open>Lookups\<close>

lemma lookup_result:
  "(\<And>v. cache_get C (kf x) c = Some v \<Longrightarrow> f x d = Inr v) \<Longrightarrow> fst (cache_with_key C kf f x d c) = f x d"
  by (auto simp: cache_with_key_def Let_def split: option.splits sum.splits)

lemma lookup_adds:
  assumes "mc_ok (ce_ops C)" and "cache_get C k (snd (cache_with_key C kf f x d c)) = Some v"
  shows "cache_get C k c = Some v \<or> (k = kf x \<and> f x d = Inr v)"
proof (cases "cache_get C (kf x) c")
  case None
  then show ?thesis using assms(2) get_set[OF assms(1), of k "kf x" _ c v]
    by (cases "f x d") (auto simp: cache_with_key_def)
qed (use assms(2) in \<open>simp add: cache_with_key_def\<close>)

lemma lookup_keeps_current:
  assumes "mc_ok (ce_ops C)" and "users_current C A d c" and "\<And>v. f x d = Inr v \<Longrightarrow> entry_current C A d (kf x) v"
  shows "users_current C A d (snd (cache_with_key C kf f x d c))"
  unfolding users_current_def
proof (intro allI impI)
  fix k v assume "cache_get C k (snd (cache_with_key C kf f x d c)) = Some v"
  from lookup_adds[OF assms(1) this] show "entry_current C A d k v"
    using assms(2,3) by (auto simp: users_current_def)
qed

lemma found_user: "map_sum id CUser s = Inr v \<longleftrightarrow> (\<exists>u. s = Inr u \<and> v = CUser u)"
  by (cases s) auto

lemma same_address:
  "inj_on (make_safe_digest C) A \<Longrightarrow> make_safe_digest C (str_strip e) = make_safe_digest C (str_strip e') \<Longrightarrow>
   str_strip e \<in> A \<Longrightarrow> spelled A P d e' \<Longrightarrow> str_strip e = str_strip e'"
  unfolding spelled_def by (blast dest: inj_onD)

lemma lookups_keep_current:
  assumes "mc_ok (ce_ops C)" and "inj_on (make_safe_digest C) A" and "users_current C A d c"
  shows "users_current C A d (snd (cached_user_by_id C i d c))"
    and "str_strip e \<in> A \<Longrightarrow> users_current C A d (snd (cached_user_by_email C e d c))"
    and "str_strip e \<in> A \<Longrightarrow> users_current C A d (snd (cached_user C (e, r) d c))"
    and "users_current C A d (snd (cached_active_user_dicts C r d c))"
proof -
  note keeps = lookup_keeps_current[OF assms(1,3)] and same = same_address[OF assms(2)]
  show "users_current C A d (snd (cached_user_by_id C i d c))" "users_current C A d (snd (cached_active_user_dicts C r d c))"
    unfolding cached_user_by_id_def cached_active_user_dicts_def by (rule keeps, auto simp: entry_current_def found_user)+
  show "users_current C A d (snd (cached_user_by_email C e d c))" if "str_strip e \<in> A"
    unfolding cached_user_by_email_def
  proof (rule keeps)
    fix v assume "map_sum id CUser (get_user_profile_by_email e d) = Inr v"
    then obtain u where u: "get_user_profile_by_email e d = Inr u" "v = CUser u" by (auto simp: found_user)
    have "get_user_profile_by_email e' d = Inr u" if "spelled A (\<lambda>_. True) d e'" "make_safe_digest C (str_strip e) = make_safe_digest C (str_strip e')" for e'
      using same[OF that(2) \<open>str_strip e \<in> A\<close> that(1)] u(1) by (simp add: get_user_profile_by_email_def)
    then show "entry_current C A d (user_profile_by_email_cache_key C e) v"
      using u(2) by (auto simp: entry_current_def key_addresses)
  qed
  show "users_current C A d (snd (cached_user C (e, r) d c))" if "str_strip e \<in> A"
    unfolding cached_user_def
  proof (rule keeps)
    fix v assume "(case (e, r) of (email, realm_id) \<Rightarrow> \<lambda>d. map_sum id CUser (get_user email realm_id d)) d = Inr v"
    then obtain u where u: "get_user e r d = Inr u" "v = CUser u" by (auto simp: found_user)
    have "get_user e' r d = Inr u" if "spelled A (\<lambda>x. u_realm x = r) d e'" "make_safe_digest C (str_strip e) = make_safe_digest C (str_strip e')" for e'
      using same[OF that(2) \<open>str_strip e \<in> A\<close> that(1)] u(1) by (simp add: get_user_def)
    then show "entry_current C A d (case (e, r) of (email, realm_id) \<Rightarrow> user_profile_cache_key C email realm_id) v"
      using u(2) by (auto simp: entry_current_def key_addresses)
  qed
qed


subsection \<open>Saving\<close>

lemma if_deleted:
  "mc_ok (ce_ops C) \<Longrightarrow> cache_get C k (if b then cache_delete C k' c else c) = Some v \<Longrightarrow> cache_get C k c = Some v \<and> (b \<longrightarrow> k \<noteq> k')"
  using get_delete[of C k k' c v] by (auto split: if_split_asm)

lemma flushed_get:
  assumes "mc_ok (ce_ops C)" and "cache_get C k (flush_user_profile C u fs r d c) = Some v"
  shows "cache_get C k c = Some v \<and> k \<noteq> user_profile_by_email_cache_key C (u_email u) \<and> k \<noteq> user_profile_by_id_cache_key (u_id u) \<and>
    k \<noteq> user_profile_cache_key C (u_email u) (u_realm u) \<and>
    (fields_touch fs (active_user_dict_fields @ [''is_active'', ''email'']) \<longrightarrow> k \<noteq> active_user_dicts_in_realm_cache_key (u_realm u))"
proof -
  note step = if_deleted[OF assms(1)] and many = get_delete_many[OF assms(1)]
  define c1 where "c1 = delete_user_profile_caches C [u] c"
  define c2 where "c2 = (if fields_touch fs (active_user_dict_fields @ [''is_active'', ''email''])
      then cache_delete C (active_user_dicts_in_realm_cache_key (u_realm u)) c1 else c1)"
  define c3 where "c3 = delete_display_recipient_cache C u d c2"
  define c4 where "c4 = (if u_is_bot u \<and> fields_touch fs bot_dict_fields then cache_delete C (bot_dicts_in_realm_cache_key (u_realm u)) c3 else c3)"
  have "flush_user_profile C u fs r d c = (if fields_touch fs [''alert_words''] then cache_delete C (realm_alert_words_cache_key r) c4 else c4)"
    by (simp only: flush_user_profile_def Let_def c1_def c2_def c3_def c4_def)
  with assms(2) have "cache_get C k (if fields_touch fs [''alert_words''] then cache_delete C (realm_alert_words_cache_key r) c4 else c4) = Some v"
    by (simp only:)
  from step[OF this] have "cache_get C k c4 = Some v" by blast
  from step[OF this[unfolded c4_def]] have "cache_get C k c3 = Some v" by blast
  from many[OF this[unfolded c3_def delete_display_recipient_cache_def]] have "cache_get C k c2 = Some v" by blast
  note 1 = step[OF this[unfolded c2_def]]
  from many[OF conjunct1[OF 1, unfolded c1_def delete_user_profile_caches_def]] conjunct2[OF 1] show ?thesis using 1 by simp
qed

text \<open>Saving an existing user, and a new one.\<close>

definition saved_user :: "user_profile \<Rightarrow> db \<Rightarrow> db" where
  "saved_user u d = d\<lparr>users := map (\<lambda>y. if u_id y = u_id u then u else y) (users d)\<rparr>"

definition created_user :: "user_profile \<Rightarrow> db \<Rightarrow> db" where
  "created_user u d = d\<lparr>users := users d @ [u]\<rparr>"

lemma one_row: "db_get m P t = Inr y \<longleftrightarrow> filter P t = [y]"
  by (auto simp: db_get_def split: list.splits)

lemma only_row: "db_get m P t = Inr y \<Longrightarrow> {z \<in> set t. P z} = {y}"
  by (simp only: one_row flip: set_filter) simp

lemma row_unique: "db_get m P t = Inr y \<Longrightarrow> z \<in> set t \<Longrightarrow> P z \<Longrightarrow> z = y"
  using only_row[of m P t y] by auto

lemma row_found: "db_get m P t = Inr y \<Longrightarrow> y \<in> set t \<and> P y"
  using only_row[of m P t y] by auto

lemma get_after_save:
  assumes "get_user_profile_by_id (u_id u) d = Inr x" and "P u = P x" and "db_get m P (users d) = Inr y" and "y \<noteq> x"
  shows "db_get m P (users (saved_user u d)) = Inr y"
proof -
  let ?g = "\<lambda>y. if u_id y = u_id u then u else y"
  note only = row_unique[OF assms(1)[unfolded get_user_profile_by_id_def]]
  have "filter P (map ?g (users d)) = map ?g (filter P (users d))"
    unfolding filter_map using only assms(2) by (intro arg_cong[of _ _ "map ?g"] filter_cong) auto
  then have "filter P (map ?g (users d)) = [y]"
    using only[of y] assms(3,4) row_found[OF assms(3)] by (auto simp: one_row)
  then show ?thesis by (simp add: one_row saved_user_def)
qed

lemma get_after_add: "\<not> P u \<Longrightarrow> db_get m P (users d) = Inr y \<Longrightarrow> db_get m P (users (created_user u d)) = Inr y"
  by (simp add: one_row created_user_def)


lemma active_field_any_db: "f \<in> set active_user_dict_fields \<Longrightarrow> user_field d' f u = user_field d f u"
  by (auto simp: active_user_dict_fields_def user_field_def Let_def)

lemma dicts_after_save:
  assumes "get_user_profile_by_id (u_id u) d = Inr x" and "u_realm u = u_realm x"
    and "u_realm u = r \<Longrightarrow> u_is_active u = u_is_active x \<and> (\<forall>f \<in> set active_user_dict_fields. user_field d f u = user_field d f x)"
  shows "get_active_user_dicts_in_realm r (saved_user u d) = get_active_user_dicts_in_realm r d"
proof -
  let ?g = "\<lambda>y. if u_id y = u_id u then u else y" and ?Q = "\<lambda>u. u_realm u = r \<and> u_is_active u"
  note only = row_unique[OF assms(1)[unfolded get_user_profile_by_id_def]]
  have "filter ?Q (map ?g (users d)) = map ?g (filter ?Q (users d))"
    unfolding filter_map using only assms(2,3) by (intro arg_cong[of _ _ "map ?g"] filter_cong) auto
  moreover have "user_field d f (?g y) = user_field d f y" if "y \<in> set (filter ?Q (users d))" "f \<in> set active_user_dict_fields" for f y
    using that only[of y] assms(2,3) by auto
  moreover have "user_field (saved_user u d) f = user_field d f" if "f \<in> set active_user_dict_fields" for f
    using active_field_any_db[OF that] by (intro ext)
  ultimately show ?thesis
    unfolding get_active_user_dicts_in_realm_def by (auto simp: saved_user_def[of u d] intro!: map_cong)
qed

lemma spelled_after_save:
  assumes "get_user_profile_by_id (u_id u) d = Inr x" and "u_email u = u_email x" and "P u = P x" and "spelled A P (saved_user u d) e"
  shows "spelled A P d e"
proof -
  obtain y where y: "y \<in> set (users d)" "str_strip e \<in> A" "P (if u_id y = u_id u then u else y)"
      "u_email (if u_id y = u_id u then u else y) = str_strip e"
    using assms(4) by (auto simp: spelled_def saved_user_def)
  have "x \<in> set (users d)" using row_found[OF assms(1)[unfolded get_user_profile_by_id_def]] by blast
  then show ?thesis using y assms(2,3) by (auto simp: spelled_def split: if_split_asm)
qed

lemma save_keeps_current:
  assumes "mc_ok (ce_ops C)" and "users_current C A d c"
    and x: "get_user_profile_by_id (u_id u) d = Inr x" and same: "u_email u = u_email x" "u_realm u = u_realm x"
    and told: "\<And>fs f. upd = Some fs \<Longrightarrow> f \<notin> set fs \<Longrightarrow> user_field d f u = user_field d f x"
  shows "users_current C A (saved_user u d) (flush_user_profile C u upd r (saved_user u d) c)"
  unfolding users_current_def
proof (intro allI impI)
  fix k v assume "cache_get C k (flush_user_profile C u upd r (saved_user u d) c) = Some v"
  note kept = flushed_get[OF assms(1) this]
  then have old: "entry_current C A d k v" using assms(2) by (simp add: users_current_def)
  have mine: "str_strip e = u_email u" if "spelled A Q d e" "db_get m (\<lambda>z. str_lower (u_email z) = str_lower (str_strip e) \<and> Q z) (users d) = Inr x" for e m Q
    using that(1) row_unique[OF that(2)] same(1) by (auto simp: spelled_def)
  show "entry_current C A (saved_user u d) k v"
    unfolding entry_current_def
  proof (intro conjI allI impI)
    fix e assume e: "spelled A (\<lambda>_. True) (saved_user u d) e" "k = user_profile_by_email_cache_key C e"
    have s: "spelled A (\<lambda>_. True) d e" using spelled_after_save[OF x same(1) _ e(1)] by simp
    then obtain y where y: "v = CUser y" "get_user_profile_by_email e d = Inr y" using old e(2) by (auto simp: entry_current_def)
    have "y \<noteq> x" using mine[OF s] y(2) kept e(2) by (auto simp: get_user_profile_by_email_def key_addresses)
    then show "\<exists>u'. v = CUser u' \<and> get_user_profile_by_email e (saved_user u d) = Inr u'"
      using y get_after_save[OF x _ y(2)[unfolded get_user_profile_by_email_def]] same(1) by (simp add: get_user_profile_by_email_def)
  next
    fix e r' assume e: "spelled A (\<lambda>z. u_realm z = r') (saved_user u d) e" "k = user_profile_cache_key C e r'"
    have s: "spelled A (\<lambda>z. u_realm z = r') d e" using spelled_after_save[OF x same(1) _ e(1)] same(2) by simp
    then obtain y where y: "v = CUser y" "get_user e r' d = Inr y" using old e(2) by (auto simp: entry_current_def)
    have "y \<noteq> x"
      using mine[OF s] y(2) row_found[OF y(2)[unfolded get_user_def]] kept e(2) same(2) by (auto simp: get_user_def key_addresses)
    then show "\<exists>u'. v = CUser u' \<and> get_user e r' (saved_user u d) = Inr u'"
      using y get_after_save[OF x _ y(2)[unfolded get_user_def]] same by (simp add: get_user_def)
  next
    fix i assume i: "k = user_profile_by_id_cache_key i"
    then obtain y where y: "v = CUser y" "get_user_profile_by_id i d = Inr y" using old by (auto simp: entry_current_def)
    have "i \<noteq> u_id u" using kept i by auto
    moreover have "y \<noteq> x"
      using calculation row_found[OF y(2)[unfolded get_user_profile_by_id_def]] row_found[OF x[unfolded get_user_profile_by_id_def]] by auto
    ultimately show "\<exists>u'. v = CUser u' \<and> get_user_profile_by_id i (saved_user u d) = Inr u'"
      using y get_after_save[OF x _ y(2)[unfolded get_user_profile_by_id_def]] row_found[OF x[unfolded get_user_profile_by_id_def]]
      by (simp add: get_user_profile_by_id_def)
  next
    fix r' assume r': "k = active_user_dicts_in_realm_cache_key r'"
    have "u_is_active u = u_is_active x \<and> (\<forall>f \<in> set active_user_dict_fields. user_field d f u = user_field d f x)" if realm: "u_realm u = r'"
    proof -
      have "\<not> fields_touch upd (active_user_dict_fields @ [''is_active'', ''email''])" using kept r' realm by auto
      then obtain fs where fs: "upd = Some fs" "\<forall>f \<in> set active_user_dict_fields. f \<notin> set fs" "''is_active'' \<notin> set fs"
        by (auto simp: fields_touch_def list_ex_iff split: option.splits)
      have "user_field d ''is_active'' u = user_field d ''is_active'' x" by (rule told[OF fs(1,3)])
      then show ?thesis using told[OF fs(1)] fs(2) by (simp add: user_field_def)
    qed
    then show "v = CDicts (get_active_user_dicts_in_realm r' (saved_user u d))"
      using dicts_after_save[OF x same(2), of r'] old r' by (simp add: entry_current_def)
  qed
qed


lemma add_keeps_current:
  assumes "mc_ok (ce_ops C)" and "users_current C A d c"
    and fresh: "\<And>y. y \<in> set (users d) \<Longrightarrow> u_id y \<noteq> u_id u \<and> str_lower (u_email y) \<noteq> str_lower (u_email u)"
  shows "users_current C A (created_user u d) (flush_user_profile C u None r (created_user u d) c)"
  unfolding users_current_def
proof (intro allI impI)
  fix k v assume "cache_get C k (flush_user_profile C u None r (created_user u d) c) = Some v"
  note kept = flushed_get[OF assms(1) this]
  then have old: "entry_current C A d k v" using assms(2) by (simp add: users_current_def)
  have before: "spelled A P d e" if "spelled A P (created_user u d) e" "u_email u \<noteq> str_strip e" for P e
    using that by (auto simp: spelled_def created_user_def)
  have other: "str_lower (u_email u) \<noteq> str_lower (str_strip e)" if "spelled A P d e" for P e
    using that fresh unfolding spelled_def by metis
  show "entry_current C A (created_user u d) k v"
    unfolding entry_current_def
  proof (intro conjI allI impI)
    fix e assume e: "spelled A (\<lambda>_. True) (created_user u d) e" "k = user_profile_by_email_cache_key C e"
    have "u_email u \<noteq> str_strip e" using kept e(2) by (auto simp: key_addresses)
    then have s: "spelled A (\<lambda>_. True) d e" by (rule before[OF e(1)])
    then obtain y where "v = CUser y" "get_user_profile_by_email e d = Inr y" using old e(2) by (auto simp: entry_current_def)
    then show "\<exists>u'. v = CUser u' \<and> get_user_profile_by_email e (created_user u d) = Inr u'"
      using get_after_add[of "\<lambda>z. str_lower (u_email z) = str_lower (str_strip e)" u] other[OF s] by (simp add: get_user_profile_by_email_def)
  next
    fix e r' assume e: "spelled A (\<lambda>z. u_realm z = r') (created_user u d) e" "k = user_profile_cache_key C e r'"
    then have "u_email u \<noteq> str_strip e \<or> u_realm u \<noteq> r'" using kept by (auto simp: key_addresses)
    then have s: "spelled A (\<lambda>z. u_realm z = r') d e" using e(1) by (auto simp: spelled_def created_user_def)
    then obtain y where "v = CUser y" "get_user e r' d = Inr y" using old e(2) by (auto simp: entry_current_def)
    then show "\<exists>u'. v = CUser u' \<and> get_user e r' (created_user u d) = Inr u'"
      using get_after_add[of "\<lambda>z. str_lower (u_email z) = str_lower (str_strip e) \<and> u_realm z = r'" u] other[OF s] by (simp add: get_user_def)
  next
    fix i assume i: "k = user_profile_by_id_cache_key i"
    then obtain y where "v = CUser y" "get_user_profile_by_id i d = Inr y" using old by (auto simp: entry_current_def)
    then show "\<exists>u'. v = CUser u' \<and> get_user_profile_by_id i (created_user u d) = Inr u'"
      using get_after_add[of "\<lambda>z. u_id z = i" u] kept i by (auto simp: get_user_profile_by_id_def)
  next
    fix r' assume r': "k = active_user_dicts_in_realm_cache_key r'"
    then have "u_realm u \<noteq> r'" using kept by (auto simp: fields_touch_def)
    moreover have "user_field (created_user u d) f = user_field d f" if "f \<in> set active_user_dict_fields" for f
      using active_field_any_db[OF that] by (intro ext)
    ultimately have "get_active_user_dicts_in_realm r' (created_user u d) = get_active_user_dicts_in_realm r' d"
      unfolding get_active_user_dicts_in_realm_def by (auto simp: created_user_def[of u d] intro!: map_cong)
    then show "v = CDicts (get_active_user_dicts_in_realm r' (created_user u d))" using old r' by (simp add: entry_current_def)
  qed
qed

text \<open>
  Requests that look users up through the cache, memcached forgetting entries, and users being saved:
  the row is written, then the signal flushes. A save tells the truth about the fields it writes, and the
  address and the realm stay.
\<close>

inductive user_cache_run :: "('c, cached) cache_env \<Rightarrow> string set \<Rightarrow> db \<times> 'c \<Rightarrow> db \<times> 'c \<Rightarrow> bool"
  for C :: "('c, cached) cache_env" and A :: "string set" and s :: "db \<times> 'c" where
  starts: "user_cache_run C A s s"
| looks_up_id: "user_cache_run C A s (d, c) \<Longrightarrow> user_cache_run C A s (d, snd (cached_user_by_id C i d c))"
| looks_up_email: "user_cache_run C A s (d, c) \<Longrightarrow> str_strip e \<in> A \<Longrightarrow> user_cache_run C A s (d, snd (cached_user_by_email C e d c))"
| looks_up_user: "user_cache_run C A s (d, c) \<Longrightarrow> str_strip e \<in> A \<Longrightarrow> user_cache_run C A s (d, snd (cached_user C (e, r) d c))"
| lists_active: "user_cache_run C A s (d, c) \<Longrightarrow> user_cache_run C A s (d, snd (cached_active_user_dicts C r d c))"
| forgets: "user_cache_run C A s (d, c) \<Longrightarrow> (\<And>k v. cache_get C k c' = Some v \<Longrightarrow> cache_get C k c = Some v) \<Longrightarrow> user_cache_run C A s (d, c')"
| saves: "user_cache_run C A s (d, c) \<Longrightarrow> get_user_profile_by_id (u_id u) d = Inr x \<Longrightarrow> u_email u = u_email x \<Longrightarrow> u_realm u = u_realm x \<Longrightarrow>
    (\<And>fs f. upd = Some fs \<Longrightarrow> f \<notin> set fs \<Longrightarrow> user_field d f u = user_field d f x) \<Longrightarrow>
    user_cache_run C A s (saved_user u d, flush_user_profile C u upd rl (saved_user u d) c)"
| creates: "user_cache_run C A s (d, c) \<Longrightarrow>
    (\<And>y. y \<in> set (users d) \<Longrightarrow> u_id y \<noteq> u_id u \<and> str_lower (u_email y) \<noteq> str_lower (u_email u)) \<Longrightarrow>
    user_cache_run C A s (created_user u d, flush_user_profile C u None rl (created_user u d) c)"

lemma run_keeps_current:
  assumes "user_cache_run C A s t" and "mc_ok (ce_ops C)" and "inj_on (make_safe_digest C) A" and "users_current C A (fst s) (snd s)"
  shows "users_current C A (fst t) (snd t)"
  using assms(1,4)
proof (induction rule: user_cache_run.induct)
  case (forgets d c c')
  then show ?case unfolding users_current_def fst_conv snd_conv by blast
next
  case (saves d c u x upd rl)
  then show ?case using save_keeps_current[OF assms(2), of A d c u x upd] by simp
next
  case (creates d c u rl)
  then show ?case using add_keeps_current[OF assms(2), of A d c u] by simp
qed (simp_all add: lookups_keep_current[OF assms(2,3)])

text \<open>
  C28: However lookups, creations and saves that keep the address interleave, and whatever memcached
  forgets, a lookup of users through the cache returns what the database holds now: by id, by the address
  as it is stored, in a realm or not, and for the list of a realm's active users.
\<close>

theorem cached_users_exact:
  assumes "mc_ok (ce_ops C)" and "inj_on (make_safe_digest C) A" and "users_current C A (fst s) (snd s)" and "user_cache_run C A s (d, c)"
  shows "fst (cached_user_by_id C i d c) = map_sum id CUser (get_user_profile_by_id i d) \<and>
    fst (cached_active_user_dicts C r d c) = Inr (CDicts (get_active_user_dicts_in_realm r d)) \<and>
    (str_strip e \<in> A \<and> x \<in> set (users d) \<and> u_email x = str_strip e \<longrightarrow>
       fst (cached_user_by_email C e d c) = map_sum id CUser (get_user_profile_by_email e d) \<and>
       fst (cached_user C (e, u_realm x) d c) = map_sum id CUser (get_user e (u_realm x) d))"
proof -
  have "entry_current C A d k v" if "cache_get C k c = Some v" for k v
    using run_keeps_current[OF assms(4,1,2,3)] that by (simp add: users_current_def)
  note current = this[unfolded entry_current_def]
  show ?thesis
    unfolding cached_user_by_id_def cached_active_user_dicts_def cached_user_by_email_def cached_user_def
    by (intro conjI impI; subst lookup_result; (use current in \<open>fastforce simp: spelled_def\<close>)?; simp)
qed


text \<open>A cache that keeps everything, as a list of entries.\<close>

definition list_cache :: "((string \<times> 'v) list, 'v) cache_env" where
  "list_cache = \<lparr>ce_ops = \<lparr>mc_get = (\<lambda>k c. map_of c k), mc_set = dset, mc_delete = (\<lambda>k. filter (\<lambda>e. fst e \<noteq> k))\<rparr>,
     KEY_PREFIX = ''zulip:'', make_safe_digest = (\<lambda>s. s)\<rparr>"

lemma list_cache_ok: "mc_ok (ce_ops list_cache)"
  by (auto simp: mc_ok_def list_cache_def map_of_without split: if_split_asm)

definition cache_db :: db where
  "cache_db = empty_db\<lparr>users := [demo_user 9 2 ''ann@zulip.com'', demo_user 10 2 ''bob@zulip.com'']\<rparr>"

definition renamed_ann :: user_profile where
  "renamed_ann = demo_user 9 2 ''ann@zulip.com''\<lparr>u_full_name := ''Ann''\<rparr>"

definition looked_up :: "(string \<times> cached) list" where
  "looked_up = snd (cached_user_by_email list_cache ''ann@zulip.com'' cache_db [])"

lemma rename_run:
  "user_cache_run list_cache UNIV (cache_db, [])
     (saved_user renamed_ann cache_db, flush_user_profile list_cache renamed_ann (Some [''full_name'']) demo_realm (saved_user renamed_ann cache_db) looked_up)"
  unfolding looked_up_def
proof (rule saves[OF looks_up_email[OF starts], where x = "demo_user 9 2 ''ann@zulip.com''"])
  show "get_user_profile_by_id (u_id renamed_ann) cache_db = Inr (demo_user 9 2 ''ann@zulip.com'')" by code_simp
  show "user_field cache_db f renamed_ann = user_field cache_db f (demo_user 9 2 ''ann@zulip.com'')"
    if "Some [''full_name''] = Some fs" "f \<notin> set fs" for fs f
  proof -
    have "f \<noteq> ''full_name''" using that by auto
    then show ?thesis by (simp add: user_field_def renamed_ann_def Let_def)
  qed
qed (simp_all add: renamed_ann_def)

theorem cached_users_exact_witness:
  "looked_up \<noteq> [] \<and>
   fst (cached_user_by_email list_cache ''ann@zulip.com'' (saved_user renamed_ann cache_db)
     (flush_user_profile list_cache renamed_ann (Some [''full_name'']) demo_realm (saved_user renamed_ann cache_db) looked_up)) =
   Inr (CUser renamed_ann)"
proof
  have now: "get_user_profile_by_email ''ann@zulip.com'' (saved_user renamed_ann cache_db) = Inr renamed_ann" by code_simp
  show "looked_up \<noteq> []" by code_simp
  have "users_current list_cache UNIV (fst (cache_db, [])) (snd (cache_db, []))"
    by (simp add: users_current_def cache_get_def list_cache_def)
  moreover have "inj_on (make_safe_digest list_cache) UNIV" by (simp add: list_cache_def)
  moreover have "renamed_ann \<in> set (users (saved_user renamed_ann cache_db)) \<and> u_email renamed_ann = str_strip ''ann@zulip.com''" by code_simp
  ultimately have "fst (cached_user_by_email list_cache ''ann@zulip.com'' (saved_user renamed_ann cache_db)
     (flush_user_profile list_cache renamed_ann (Some [''full_name'']) demo_realm (saved_user renamed_ann cache_db) looked_up)) =
     map_sum id CUser (get_user_profile_by_email ''ann@zulip.com'' (saved_user renamed_ann cache_db))"
    using cached_users_exact[OF list_cache_ok _ _ rename_run, where e = "''ann@zulip.com''" and x = renamed_ann] by blast
  then show "fst (cached_user_by_email list_cache ''ann@zulip.com'' (saved_user renamed_ann cache_db)
     (flush_user_profile list_cache renamed_ann (Some [''full_name'']) demo_realm (saved_user renamed_ann cache_db) looked_up)) =
     Inr (CUser renamed_ann)"
    by (simp add: now)
qed

definition uncached :: "cached \<Rightarrow> user_profile" where
  "uncached v = (case v of CUser u \<Rightarrow> u | CDicts _ \<Rightarrow> renamed_ann)"

theorem bulk_fetch_exact_witness:
  "\<exists>res c'. generic_bulk_cached_fetch list_cache user_profile_by_id_cache_key (\<lambda>js. Inr (filter (\<lambda>u. u_id u \<in> set js) (users cache_db)))
      [9, 10, 11] uncached CUser u_id (\<lambda>u. u) looked_up = (Inr res, c') \<and>
    map_of res 10 = Some (demo_user 10 2 ''bob@zulip.com'') \<and> map_of res 11 = None"
proof -
  have "\<And>i. i \<in> set [9, 10, 11] \<Longrightarrow> row_cached list_cache user_profile_by_id_cache_key CUser u_id (\<lambda>u. u) (users cache_db) looked_up i"
    unfolding row_cached_def looked_up_def cached_user_by_email_def
    by (auto simp: cache_with_key_def cache_get_def cache_set_def list_cache_def user_profile_by_id_cache_key_def user_profile_by_email_cache_key_def
        split: sum.splits)
  then have "\<exists>res c'. generic_bulk_cached_fetch list_cache user_profile_by_id_cache_key (\<lambda>js. Inr (filter (\<lambda>u. u_id u \<in> set js) (users cache_db)))
      [9, 10, 11] uncached CUser u_id (\<lambda>u. u) looked_up = (Inr res, c') \<and>
    map_of res = (\<lambda>i. if i \<in> set [9, 10, 11] then map_option (\<lambda>u. u) (find (\<lambda>r. u_id r = i) (users cache_db)) else None) \<and>
    list_all (row_cached list_cache user_profile_by_id_cache_key CUser u_id (\<lambda>u. u) (users cache_db) c') [9, 10, 11]"
  proof (intro bulk_fetch_exact[OF list_cache_ok])
    have "u_id (demo_user i r e) = i" for i r e by (simp add: demo_user_def)
    then show "inj_on u_id (set (users cache_db))" by (auto simp: inj_on_def cache_db_def)
  qed (auto simp: inj_on_def uncached_def)
  then obtain res c' where run: "generic_bulk_cached_fetch list_cache user_profile_by_id_cache_key (\<lambda>js. Inr (filter (\<lambda>u. u_id u \<in> set js) (users cache_db)))
      [9, 10, 11] uncached CUser u_id (\<lambda>u. u) looked_up = (Inr res, c')"
    and res: "map_of res = (\<lambda>i. if i \<in> set [9, 10, 11] then map_option (\<lambda>u. u) (find (\<lambda>r. u_id r = i) (users cache_db)) else None)"
    by blast
  have "find (\<lambda>r. u_id r = 10) (users cache_db) = Some (demo_user 10 2 ''bob@zulip.com'')" "find (\<lambda>r. u_id r = 11) (users cache_db) = None"
    by code_simp+
  then have "map_of res 10 = Some (demo_user 10 2 ''bob@zulip.com'')" "map_of res 11 = None" unfolding res by simp_all
  with run show ?thesis by blast
qed

section \<open>Copies that stay\<close>

text \<open>
  A lookup with another spelling of the address is cached under a key that no save flushes: after the
  user is deactivated the spelling still gives an active user.
\<close>

definition deactivated_ann :: user_profile where
  "deactivated_ann = demo_user 9 2 ''ann@zulip.com''\<lparr>u_is_active := False\<rparr>"

lemma other_spelling_stays:
  "(let c = snd (cached_user_by_email list_cache ''Ann@zulip.com'' cache_db []);
        d = saved_user deactivated_ann cache_db;
        c = flush_user_profile list_cache deactivated_ann (Some [''is_active'']) demo_realm d c
    in fst (cached_user_by_email list_cache ''Ann@zulip.com'' d c) = Inr (CUser (demo_user 9 2 ''ann@zulip.com'')) \<and>
       get_user_profile_by_email ''Ann@zulip.com'' d = Inr deactivated_ann)"
  by code_simp

text \<open>
  A change of the address flushes the keys of the new address only: the old one still gives the user.
\<close>

lemma old_address_stays:
  "(let c = snd (cached_user_by_email list_cache ''ann@zulip.com'' cache_db []);
        u = demo_user 9 2 ''ann@zulip.com''\<lparr>u_email := ''new@zulip.com''\<rparr>;
        d = saved_user u cache_db;
        c = flush_user_profile list_cache u (Some [''email'']) demo_realm d c
    in fst (cached_user_by_email list_cache ''ann@zulip.com'' d c) = Inr (CUser (demo_user 9 2 ''ann@zulip.com'')) \<and>
       get_user_profile_by_email ''ann@zulip.com'' d = Inl (DoesNotExist ''UserProfile''))"
  by code_simp

end
