(* ===== verification/Spec2Isabelle.thy ===== *)
theory Spec2Isabelle
  imports TornadoLive EndToEnd Recipients Validators RateLimiter Activity SubscriptionProps RegistrationProps AnalyticsProps UserProps AuthProps SettingsProps MessageFetchProps
    MessageViewsProps CacheProps
begin

text \<open>
  Verification of the server of Zulip, a group chat: Python code on Django for requests, and a Tornado
  process that keeps the queues of events to the clients.

  \<^bold>\<open>How the program works.\<close>
  A request passes \<open>rest_dispatch\<close> and a decorator that authenticates it (\<open>zerver/lib/rest.py\<close>,
  \<open>zerver/decorator.py\<close>). Its view checks the arguments (\<open>zerver/lib/validator.py\<close>, \<open>zerver/lib/request.py\<close>)
  and calls an action (\<open>zerver/lib/actions.py\<close>) that changes rows of the database (\<open>zerver/models.py\<close>) and
  sends events with the users they are for. Tornado (\<open>zerver/tornado/\<close>) appends each event to the queues of
  the clients that accept it, and clients poll for them. A client starts from a state that is fetched from the
  database, and applies the events to it (\<open>zerver/lib/events.py\<close>). Cron jobs fill the analytics tables
  (\<open>analytics/lib/counts.py\<close>) from the database and from the audit log that the actions write.

  \<^bold>\<open>How it is modelled.\<close>
  Values of Python whose type is not fixed are a datatype \<open>pyval\<close>, dictionaries are association lists in
  insertion order, an exception is the left side of a sum (\<open>pyerr\<close>). Rows are records and a table is a list of
  them; a record \<open>db\<close> holds the tables. An action is a function on a record \<open>server\<close> (the database, the
  events and jobs sent so far) that returns a result or an error with the state it leaves; its steps
  are composed by \<open>seq\<close> and \<open>andthen\<close>. Where objects are shared and mutated, as the events in the queues of
  Tornado, they are cells of a heap. Integers of Python are unbounded and are integers here; a set of flags
  is a natural number with bit operations, as in the column. Strings are ASCII. Times are rationals.
  Loops are structural recursions or functions with a termination proof, so no fuel is needed.

  \<^bold>\<open>The theories.\<close>
  \<^item> \<open>Prelude\<close>: dynamic values, dictionaries, errors, the string functions of the standard library, the
    collections of simplification rules.
  \<^item> \<open>EventQueue\<close>, \<open>Narrow\<close>, \<open>Tornado\<close>, \<open>EventDelivery\<close>, \<open>TornadoRequests\<close>: \<open>event_queue.py\<close>, \<open>handlers.py\<close>,
    \<open>descriptors.py\<close>, \<open>views.py\<close> of \<open>zerver/tornado\<close> and \<open>zerver/lib/narrow.py\<close>. A queue refines a log of events
    (locale \<open>event_log\<close>, interpreted on the queue of the code). \<open>TornadoInv\<close>, \<open>TornadoSafety\<close>: a step
    relation of the process and the invariants of its reachable states (lists of clients, handlers, timers,
    ids in the queues). \<open>TornadoDump\<close>: the dump at shutdown. \<open>TornadoProps\<close>, \<open>TornadoLive\<close>: events are delivered
    exactly once, polls answer with what is pending, no wake-up is lost.
  \<^item> \<open>Models\<close>, \<open>Messages\<close>, \<open>Server\<close>: the rows, queries and methods of \<open>zerver/models.py\<close>, and \<open>zerver/lib/message.py\<close>:
    access to messages and the unread messages.
  \<^item> \<open>EmailGateway\<close>, \<open>Sending\<close>, \<open>SendingProps\<close>, \<open>Recipients\<close>, \<open>EndToEnd\<close>: \<open>check_message\<close> and \<open>do_send_messages\<close>
    with all they call; which rows and flags a message gets, whom its event names, whom a private
    message reaches; and, together with Tornado, that a private message stays private up to the queues.
  \<^item> \<open>Activity\<close>: activity, presence and the pointer.
  \<^item> \<open>Streams\<close>, \<open>StreamProps\<close>, \<open>Subscriptions\<close>, \<open>SubscriptionProps\<close>: access to streams, subscribing, unsubscribing.
  \<^item> \<open>MessageFlags\<close>, \<open>MessageEdit\<close> with their \<open>Props\<close>: flags, reactions, edits with their history, deletion.
  \<^item> \<open>MessageFetch\<close>, \<open>MessageFetchProps\<close>: the query language of narrows as a datatype of conditions and joins with
    its rows on a database, the window around an anchor, highlighting. \<open>MessageViews\<close>, \<open>MessageViewsProps\<close>: the
    view that sends, with the rules for mirroring clients.
  \<^item> \<open>ClientState\<close>, \<open>ClientProps\<close>, \<open>Registration\<close>, \<open>RegistrationProps\<close>: the state of a client, the application of
    every type of event, and registration across the two processes with other requests in between.
  \<^item> \<open>Settings\<close>, \<open>SettingsProps\<close>: settings of realms and users, alert words, domains, invitations.
  \<^item> \<open>Analytics\<close>, \<open>AnalyticsProps\<close>: the counting queries (locale \<open>collector\<close>, interpreted on every query of the
    code), and the filling of the tables as a task that may be interrupted after any of its commits.
  \<^item> \<open>UserActions\<close>, \<open>Accounts\<close>, \<open>UserProps\<close>: creation, deactivation and changes of accounts, with a step relation
    of the life of accounts and its invariants.
  \<^item> \<open>Auth\<close>, \<open>AuthBackends\<close>, \<open>AuthProps\<close>: authentication of requests, logins, the one-time pad.
  \<^item> \<open>Validators\<close>, \<open>RateLimiter\<close>: the validators of arguments, the rate limiter on Redis.
  \<^item> \<open>Cache\<close>, \<open>CacheProps\<close>: the cache in front of the database and what saving a row flushes.

  \<^bold>\<open>What the claims show.\<close> Privacy and access: messages, streams and views are reached by exactly those who may
  (C1, C3 to C7, C11, C13, C15, C23, C30). Delivery: events are delivered once, nothing is lost between
  registration and polls, a waiting poll is answered (C2, C8 to C10, C26, C31). Effects of the actions: each
  changes exactly the rows it names (C12, C22, C24, C25, C32, C33, C35). Clients: applying events gives the
  state that fetching would (C14, C27, C34). Analytics: every hour is counted once despite interruptions, and
  logged and audited counts agree with the accounts (C17 to C21). Fetching: the window is the right slice (C16).
  Caching agrees with the database (C28, C29). Arguments, limits and keys (C36 to C40). Theorems on concrete
  states beside them show where the code breaks a promise, for instance an event shared by two queues.

  \<^bold>\<open>Parameters and bounds.\<close> Code outside of the repository is a parameter: the Markdown renderer, the JSON
  printer and parser, hashes, random bytes, Redis, memcached, LDAP and Google tokens, the full-text indexes
  of the database. What is relied on is a hypothesis of the theorem (for Redis its documented commands; for
  memcached that it returns the last value set or nothing), and a witness applies the theorem to an
  instance. Requests to the database are taken to be atomic, one action after the other; the exceptions are
  registration, where other requests may come between any two steps, the analytics, where a run may be
  stopped after any commit, the cache, where lookups and saves interleave, and Tornado, where the steps of the
  process interleave in any order.

  \<^bold>\<open>What is not modelled.\<close> Rendering of Markdown, parsing of email, the formats of incoming webhooks, uploads and
  images, push services, mail and digests, workers of queues, pages and forms, charts, export and import, management
  commands, logging and statistics, the websocket transport, deployment and migrations: they are I/O, calls of
  libraries, or thin wrappers of what is modelled.
\<close>

end
